(* ===== verification/Prelude.thy ===== *)
theory Prelude
  imports Main "HOL-Library.Word" "HOL-Library.List_Lexorder" "HOL-Library.Char_ord"
begin

text \<open>
  The vocabulary the component theories share: the result type of a fallible Rust
  function, machine integers with Rust's saturating operations, and the ordered map that
  stands for a BTreeMap (its entries in key order, as an in-order traversal gives them).
  Three collections carry the component proofs: theorem list \<^theory_text>\<open>rt\<close> holds the
  round-trip equations of the wire types, \<^theory_text>\<open>inv_defs\<close> unfolds the invariants and
  \<^theory_text>\<open>step_defs\<close> unfolds the operations of the state machines.
\<close>

named_theorems rt "round trips between a core type and its wire mirror"
named_theorems inv_defs "definitions of the component invariants"
named_theorems step_defs "definitions of the state machine operations"

section \<open>Results\<close>

text \<open>
  A Rust \<^verbatim>\<open>Result<T, E>\<close> is a value of \<^typ>\<open>'e + 'a\<close>: \<^term>\<open>Inl e\<close> is \<^verbatim>\<open>Err(e)\<close> and
  \<^term>\<open>Inr a\<close> is \<^verbatim>\<open>Ok(a)\<close>. The question mark operator is \<^verbatim>\<open>and_then\<close>.
\<close>

type_synonym ('a, 'e) result = "'e + 'a"

definition and_then :: "('a, 'e) result \<Rightarrow> ('a \<Rightarrow> ('b, 'e) result) \<Rightarrow> ('b, 'e) result" where
  "and_then r f = (case r of Inl e \<Rightarrow> Inl e | Inr a \<Rightarrow> f a)"

definition map_err :: "('e \<Rightarrow> 'f) \<Rightarrow> ('a, 'e) result \<Rightarrow> ('a, 'f) result" where
  "map_err f r = (case r of Inl e \<Rightarrow> Inl (f e) | Inr a \<Rightarrow> Inr a)"

definition map_ok :: "('a \<Rightarrow> 'b) \<Rightarrow> ('a, 'e) result \<Rightarrow> ('b, 'e) result" where
  "map_ok f r = (case r of Inl e \<Rightarrow> Inl e | Inr a \<Rightarrow> Inr (f a))"

definition ok_or :: "'e \<Rightarrow> 'a option \<Rightarrow> ('a, 'e) result" where
  "ok_or e v = (case v of None \<Rightarrow> Inl e | Some a \<Rightarrow> Inr a)"

definition is_ok :: "('a, 'e) result \<Rightarrow> bool" where
  "is_ok r = (case r of Inl _ \<Rightarrow> False | Inr _ \<Rightarrow> True)"

lemma and_then_simps [simp]:
  "and_then (Inl e) f = Inl e"
  "and_then (Inr a) f = f a"
  by (simp_all add: and_then_def)

lemma map_err_simps [simp]:
  "map_err f (Inl e) = Inl (f e)"
  "map_err f (Inr a) = Inr a"
  by (simp_all add: map_err_def)

lemma map_ok_simps [simp]:
  "map_ok f (Inl e) = Inl e"
  "map_ok f (Inr a) = Inr (f a)"
  by (simp_all add: map_ok_def)

lemma ok_or_simps [simp]:
  "ok_or e None = Inl e"
  "ok_or e (Some a) = Inr a"
  by (simp_all add: ok_or_def)

lemma is_ok_simps [simp]:
  "\<not> is_ok (Inl e)"
  "is_ok (Inr a)"
  by (simp_all add: is_ok_def)

lemma and_then_Inr: "and_then r f = Inr b \<longleftrightarrow> (\<exists>a. r = Inr a \<and> f a = Inr b)"
  by (cases r) auto

lemma map_err_Inr [simp]: "map_err f r = Inr a \<longleftrightarrow> r = Inr a"
  by (cases r) auto

lemma map_ok_Inr: "map_ok f r = Inr b \<longleftrightarrow> (\<exists>a. r = Inr a \<and> b = f a)"
  by (cases r) auto

lemma is_ok_iff: "is_ok r \<longleftrightarrow> (\<exists>a. r = Inr a)"
  by (cases r) auto

section \<open>Machine integers\<close>

type_synonym u8 = "8 word"
type_synonym u32 = "32 word"
type_synonym i32 = "32 word"
type_synonym u64 = "64 word"
type_synonym i64 = "64 word"

text \<open>A 32-bit float is only carried, never computed with: it is its bit pattern.\<close>

type_synonym f32 = "32 word"

definition sat_add :: "'a::len word \<Rightarrow> 'a word \<Rightarrow> 'a word" where
  "sat_add a b = (if unat a + unat b < 2 ^ LENGTH('a) then a + b else - 1)"

definition sat_sub :: "'a::len word \<Rightarrow> 'a word \<Rightarrow> 'a word" where
  "sat_sub a b = (if b \<le> a then a - b else 0)"

definition sat_mul :: "'a::len word \<Rightarrow> 'a word \<Rightarrow> 'a word" where
  "sat_mul a b = (if unat a * unat b < 2 ^ LENGTH('a) then a * b else - 1)"

text \<open>\<^verbatim>\<open>u32::try_from(n).unwrap_or(u32::MAX)\<close> for a \<^verbatim>\<open>usize\<close> (a \<^typ>\<open>nat\<close> here).\<close>

definition u32_of_usize :: "nat \<Rightarrow> u32" where
  "u32_of_usize n = (if n < 2 ^ 32 then of_nat n else - 1)"

lemma unat_minus_one_max:
  "unat (- 1 :: 'n::len word) = 2 ^ LENGTH('n) - 1"
  by (metis mask_eq_exp_minus_1 unsigned_minus_1_eq_mask)

lemma unat_le_max: "unat (w :: 'a::len word) \<le> 2 ^ LENGTH('a) - 1"
  using unsigned_less [of w, where ?'a = nat] by linarith

lemma unat_u32_le: "unat (w :: u32) \<le> 4294967295"
  using unat_le_max [of w] by simp

lemma unat_sat_add:
  "unat (sat_add a b :: 'a::len word) = min (unat a + unat b) (2 ^ LENGTH('a) - 1)"
proof (cases "unat a + unat b < 2 ^ LENGTH('a)")
  case True
  then show ?thesis by (simp add: sat_add_def unat_word_ariths)
next
  case False
  then show ?thesis by (simp add: sat_add_def unat_minus_one_max)
qed

lemma unat_sat_sub: "unat (sat_sub a b :: 'a::len word) = unat a - unat b"
  by (simp add: sat_sub_def unat_sub word_le_nat_alt)

lemma unat_sat_mul:
  "unat (sat_mul a b :: 'a::len word) = min (unat a * unat b) (2 ^ LENGTH('a) - 1)"
proof (cases "unat a * unat b < 2 ^ LENGTH('a)")
  case True
  then show ?thesis by (simp add: sat_mul_def unat_word_ariths)
next
  case False
  then show ?thesis by (simp add: sat_mul_def unat_minus_one_max)
qed

lemma unat_u32_of_usize: "unat (u32_of_usize n) = min n (2 ^ 32 - 1)"
  by (simp add: u32_of_usize_def unat_of_nat unat_minus_one_max)

lemma unat_u32_of_usize_small: "n < 2 ^ 32 \<Longrightarrow> unat (u32_of_usize n) = n"
  by (simp add: unat_u32_of_usize)

section \<open>Ordered maps\<close>

text \<open>
  A BTreeMap is the list of its entries in key order. Insertion keeps the order and
  replaces the value of a key that is present; \<^term>\<open>map_of\<close> is lookup.
\<close>

type_synonym ('k, 'v) btree_map = "('k \<times> 'v) list"

fun bt_insert :: "'k::linorder \<Rightarrow> 'v \<Rightarrow> ('k, 'v) btree_map \<Rightarrow> ('k, 'v) btree_map" where
  "bt_insert k v [] = [(k, v)]"
| "bt_insert k v ((k', v') # m) =
     (if k < k' then (k, v) # (k', v') # m
      else if k = k' then (k, v) # m
      else (k', v') # bt_insert k v m)"

fun bt_modify :: "'k \<Rightarrow> ('v \<Rightarrow> 'v) \<Rightarrow> ('k, 'v) btree_map \<Rightarrow> ('k, 'v) btree_map" where
  "bt_modify k f [] = []"
| "bt_modify k f ((k', v') # m) =
     (if k = k' then (k', f v') # m else (k', v') # bt_modify k f m)"

definition bt_get :: "('k, 'v) btree_map \<Rightarrow> 'k \<Rightarrow> 'v option" where
  "bt_get m k = map_of m k"

definition bt_contains :: "('k, 'v) btree_map \<Rightarrow> 'k \<Rightarrow> bool" where
  "bt_contains m k = (bt_get m k \<noteq> None)"

definition bt_or_insert :: "'k::linorder \<Rightarrow> 'v \<Rightarrow> ('k, 'v) btree_map \<Rightarrow> ('k, 'v) btree_map" where
  "bt_or_insert k v m = (if bt_contains m k then m else bt_insert k v m)"

definition bt_keys :: "('k, 'v) btree_map \<Rightarrow> 'k list" where
  "bt_keys m = map fst m"

definition bt_values :: "('k, 'v) btree_map \<Rightarrow> 'v list" where
  "bt_values m = map snd m"

definition bt_wf :: "('k::linorder, 'v) btree_map \<Rightarrow> bool" where
  "bt_wf m = sorted_wrt (<) (map fst m)"

lemma bt_get_Nil [simp]: "bt_get [] k = None"
  by (simp add: bt_get_def)

lemma bt_get_insert [simp]:
  "bt_get (bt_insert k v m) k' = (if k' = k then Some v else bt_get m k')"
  by (induction k v m rule: bt_insert.induct) (auto simp: bt_get_def)

lemma bt_get_modify [simp]:
  "bt_get (bt_modify k f m) k' = (if k' = k then map_option f (bt_get m k) else bt_get m k')"
  by (induction k f m rule: bt_modify.induct) (auto simp: bt_get_def)

lemma bt_contains_insert [simp]:
  "bt_contains (bt_insert k v m) k' \<longleftrightarrow> k' = k \<or> bt_contains m k'"
  by (simp add: bt_contains_def)

lemma bt_contains_modify [simp]: "bt_contains (bt_modify k f m) k' \<longleftrightarrow> bt_contains m k'"
  by (simp add: bt_contains_def)

lemma bt_contains_Nil [simp]: "\<not> bt_contains [] k"
  by (simp add: bt_contains_def)

lemma bt_contains_iff: "bt_contains m k \<longleftrightarrow> k \<in> fst ` set m"
  by (simp add: bt_contains_def bt_get_def map_of_eq_None_iff)

lemma bt_get_or_insert [simp]:
  "bt_get (bt_or_insert k v m) k' =
     (if k' = k \<and> \<not> bt_contains m k then Some v else bt_get m k')"
  by (auto simp: bt_or_insert_def)

lemma keys_bt_insert [simp]: "fst ` set (bt_insert k v m) = insert k (fst ` set m)"
  by (induction k v m rule: bt_insert.induct) auto

lemma keys_bt_modify [simp]: "map fst (bt_modify k f m) = map fst m"
  by (induction k f m rule: bt_modify.induct) auto

lemma bt_wf_Nil [simp]: "bt_wf []"
  by (simp add: bt_wf_def)

lemma bt_wf_Cons: "bt_wf ((k, v) # m) \<longleftrightarrow> (\<forall>k' \<in> fst ` set m. k < k') \<and> bt_wf m"
  by (auto simp: bt_wf_def)

lemma ball_keys_bt_insert [simp]:
  "(\<forall>x \<in> set (bt_insert k v m). P (fst x)) \<longleftrightarrow> P k \<and> (\<forall>x \<in> set m. P (fst x))"
  using keys_bt_insert [of k v m] by (metis (no_types, lifting) image_iff insert_iff)

lemma bt_wf_insert [intro]: "bt_wf m \<Longrightarrow> bt_wf (bt_insert k v m)"
  by (induction k v m rule: bt_insert.induct) (auto simp: bt_wf_Cons intro: less_trans)

lemma bt_wf_modify [intro]: "bt_wf m \<Longrightarrow> bt_wf (bt_modify k f m)"
  by (simp add: bt_wf_def)

lemma bt_wf_or_insert [intro]: "bt_wf m \<Longrightarrow> bt_wf (bt_or_insert k v m)"
  by (simp add: bt_or_insert_def bt_wf_insert)

lemma bt_wf_distinct: "bt_wf m \<Longrightarrow> distinct (map fst m)"
  unfolding bt_wf_def by (simp add: strict_sorted_iff)

lemma bt_get_in_set: "bt_wf m \<Longrightarrow> bt_get m k = Some v \<longleftrightarrow> (k, v) \<in> set m"
  by (simp add: bt_get_def bt_wf_distinct)

lemma bt_get_SomeD: "bt_get m k = Some v \<Longrightarrow> (k, v) \<in> set m"
  by (simp add: bt_get_def map_of_SomeD)

lemma bt_get_contains: "bt_contains m k \<longleftrightarrow> (\<exists>v. bt_get m k = Some v)"
  by (auto simp: bt_contains_def)

text \<open>Inserting the entries of an ordered map one by one rebuilds it.\<close>

lemma bt_insert_greatest: "\<forall>k' \<in> fst ` set m. k' < k \<Longrightarrow> bt_insert k v m = m @ [(k, v)]"
  by (induction k v m rule: bt_insert.induct) auto

lemma bt_wf_append: "bt_wf (m @ [(k, v)]) \<longleftrightarrow> bt_wf m \<and> (\<forall>k' \<in> fst ` set m. k' < k)"
  by (auto simp: bt_wf_def sorted_wrt_append)

lemma bt_rebuild: "bt_wf (acc @ m) \<Longrightarrow> fold (\<lambda>(k, v). bt_insert k v) m acc = acc @ m"
proof (induction m arbitrary: acc)
  case Nil
  show ?case by simp
next
  case (Cons kv m)
  obtain k v where kv: "kv = (k, v)" by (cases kv)
  from Cons.prems kv have w: "bt_wf ((acc @ [(k, v)]) @ m)" by simp
  then have "\<forall>k' \<in> fst ` set acc. k' < k"
    by (auto simp: bt_wf_def sorted_wrt_append)
  with Cons.IH [OF w] kv show ?case by (simp add: bt_insert_greatest)
qed

lemma bt_rebuild_empty: "bt_wf m \<Longrightarrow> fold (\<lambda>(k, v). bt_insert k v) m [] = m"
  using bt_rebuild [of "[]" m] by simp

text \<open>A BTreeSet is the list of its elements in order.\<close>

type_synonym 'k btree_set = "'k list"

definition bs_insert :: "'k::linorder \<Rightarrow> 'k btree_set \<Rightarrow> 'k btree_set" where
  "bs_insert k s = (if k \<in> set s then s else insort k s)"

definition bs_wf :: "'k::linorder btree_set \<Rightarrow> bool" where
  "bs_wf s = sorted_wrt (<) s"

lemma bs_wf_iff: "bs_wf s \<longleftrightarrow> sorted s \<and> distinct s"
  by (auto simp: bs_wf_def strict_sorted_iff)

lemma bs_wf_Nil [simp]: "bs_wf []"
  by (simp add: bs_wf_def)

lemma set_bs_insert [simp]: "set (bs_insert k s) = insert k (set s)"
  by (auto simp: bs_insert_def set_insort_key)

lemma bs_wf_insert [intro]: "bs_wf s \<Longrightarrow> bs_wf (bs_insert k s)"
  by (auto simp: bs_wf_iff bs_insert_def sorted_insort distinct_insort)

lemma bs_rebuild: "bs_wf s \<Longrightarrow> fold bs_insert s [] = s"
proof -
  assume w: "bs_wf s"
  let ?t = "fold bs_insert s []"
  have "bs_wf (fold bs_insert xs acc) \<and> set (fold bs_insert xs acc) = set xs \<union> set acc"
    if "bs_wf acc" for xs :: "'a list" and acc
    using that
  proof (induction xs arbitrary: acc)
    case (Cons x xs)
    from Cons.IH [OF bs_wf_insert [OF Cons.prems, of x]] show ?case by simp
  qed simp
  from this [of "[]" s] have "bs_wf ?t" "set ?t = set s" by simp_all
  with w show "?t = s"
    by (auto simp: bs_wf_iff intro: sorted_distinct_set_unique)
qed

section \<open>Lists\<close>

lemma filter_snoc: "filter P (xs @ [x]) = filter P xs @ (if P x then [x] else [])"
  by simp

lemma last_snoc_eq [simp]: "last (xs @ [x]) = x"
  by simp

lemma find_Some_in_set: "find P xs = Some x \<Longrightarrow> x \<in> set xs \<and> P x"
  by (induction xs) (auto split: if_splits)

lemma find_None_all: "find P xs = None \<longleftrightarrow> (\<forall>x \<in> set xs. \<not> P x)"
  by (auto simp: find_None_iff)

end
