(* ===== verification/Rust_Str.thy ===== *)
theory Rust_Str
  imports Prelude
begin

text \<open>
  Rust's \<^verbatim>\<open>str\<close>: a byte string in UTF-8. \<^verbatim>\<open>str_chars\<close> splits it into its characters (a
  lead byte with the continuation bytes after it), and the operations of the standard
  library the program uses are written over that: the character count, trimming of Unicode
  white space, prefixes and suffixes, ASCII case, decimal numbers.
\<close>

section \<open>Characters\<close>

definition is_cont :: "char \<Rightarrow> bool" where
  "is_cont c = (128 \<le> (of_char c :: nat) \<and> (of_char c :: nat) < 192)"

function str_chars :: "string \<Rightarrow> string list" where
  "str_chars [] = []"
| "str_chars (c # cs) = (c # takeWhile is_cont cs) # str_chars (dropWhile is_cont cs)"
  by pat_completeness auto
termination
  by (relation "measure length") (auto simp: less_Suc_eq_le length_dropWhile_le)

definition char_count :: "string \<Rightarrow> nat" where
  "char_count s = length (str_chars s)"

definition chunk_codes :: "string \<Rightarrow> nat list" where
  "chunk_codes ch = map of_char ch"

text \<open>The characters with the Unicode property \<^verbatim>\<open>White_Space\<close>, as UTF-8 bytes.\<close>

definition is_whitespace :: "string \<Rightarrow> bool" where
  "is_whitespace ch =
     (case chunk_codes ch of
        [a] \<Rightarrow> a = 32 \<or> (9 \<le> a \<and> a \<le> 13)
      | [a, b] \<Rightarrow> a = 194 \<and> (b = 133 \<or> b = 160)
      | [a, b, c] \<Rightarrow>
          (a = 225 \<and> b = 154 \<and> c = 128)
          \<or> (a = 226 \<and> b = 128 \<and> ((128 \<le> c \<and> c \<le> 138) \<or> c = 168 \<or> c = 169 \<or> c = 175))
          \<or> (a = 226 \<and> b = 129 \<and> c = 159)
          \<or> (a = 227 \<and> b = 128 \<and> c = 128)
      | _ \<Rightarrow> False)"

text \<open>The control characters (category \<^verbatim>\<open>Cc\<close>): U+0000 to U+001F and U+007F to U+009F.\<close>

definition is_control :: "string \<Rightarrow> bool" where
  "is_control ch =
     (case chunk_codes ch of
        [a] \<Rightarrow> a < 32 \<or> a = 127
      | [a, b] \<Rightarrow> a = 194 \<and> 128 \<le> b \<and> b < 160
      | _ \<Rightarrow> False)"

definition is_ascii_alphanumeric :: "char \<Rightarrow> bool" where
  "is_ascii_alphanumeric c =
     (let n = of_char c :: nat in
      (48 \<le> n \<and> n \<le> 57) \<or> (65 \<le> n \<and> n \<le> 90) \<or> (97 \<le> n \<and> n \<le> 122))"

lemma concat_str_chars [simp]: "concat (str_chars s) = s"
  by (induction s rule: str_chars.induct) simp_all

lemma str_chars_eq_Nil [simp]: "str_chars s = [] \<longleftrightarrow> s = []"
  by (cases s) simp_all

lemma str_chars_ascii: "\<forall>c \<in> set s. \<not> is_cont c \<Longrightarrow> str_chars s = map (\<lambda>c. [c]) s"
proof (induction s rule: str_chars.induct)
  case 1
  show ?case by simp
next
  case (2 c cs)
  then have "takeWhile is_cont cs = []" "dropWhile is_cont cs = cs"
    by (cases cs; simp)+
  with 2 show ?case by simp
qed

lemma char_count_le_length: "char_count s \<le> length s"
proof (induction s rule: str_chars.induct)
  case 1
  show ?case by (simp add: char_count_def)
next
  case (2 c cs)
  then show ?case
    using length_dropWhile_le [of is_cont cs] by (simp add: char_count_def)
qed

section \<open>Trimming, prefixes, case\<close>

definition trim_start :: "string \<Rightarrow> string" where
  "trim_start s = concat (dropWhile is_whitespace (str_chars s))"

definition trim :: "string \<Rightarrow> string" where
  "trim s = concat (rev (dropWhile is_whitespace
     (rev (dropWhile is_whitespace (str_chars s)))))"

definition starts_with :: "string \<Rightarrow> string \<Rightarrow> bool" where
  "starts_with s p = (take (length p) s = p)"

definition strip_prefix :: "string \<Rightarrow> string \<Rightarrow> string option" where
  "strip_prefix s p = (if starts_with s p then Some (drop (length p) s) else None)"

definition strip_suffix :: "string \<Rightarrow> string \<Rightarrow> string option" where
  "strip_suffix s p = map_option rev (strip_prefix (rev s) (rev p))"

definition ascii_lower_char :: "char \<Rightarrow> char" where
  "ascii_lower_char c =
     (let n = of_char c :: nat in if 65 \<le> n \<and> n \<le> 90 then char_of (n + 32) else c)"

definition to_ascii_lowercase :: "string \<Rightarrow> string" where
  "to_ascii_lowercase s = map ascii_lower_char s"

definition eq_ignore_ascii_case :: "string \<Rightarrow> string \<Rightarrow> bool" where
  "eq_ignore_ascii_case a b = (to_ascii_lowercase a = to_ascii_lowercase b)"

lemma dropWhile_eq_Nil: "dropWhile P xs = [] \<longleftrightarrow> (\<forall>x \<in> set xs. P x)"
  by (simp add: dropWhile_eq_Nil_conv)

lemma str_chars_chunk_nonempty: "ch \<in> set (str_chars s) \<Longrightarrow> ch \<noteq> []"
  by (induction s rule: str_chars.induct) auto

lemma concat_nonempty_chunks: "[] \<notin> set css \<Longrightarrow> concat css = [] \<longleftrightarrow> css = []"
  by (cases css) auto

text \<open>A string trims to nothing exactly if all its characters are white space.\<close>

lemma trim_eq_Nil: "trim s = [] \<longleftrightarrow> (\<forall>ch \<in> set (str_chars s). is_whitespace ch)"
proof -
  let ?m = "rev (dropWhile is_whitespace (rev (dropWhile is_whitespace (str_chars s))))"
  have "set ?m \<subseteq> set (str_chars s)"
    by (auto dest!: set_dropWhileD)
  then have "[] \<notin> set ?m"
    using str_chars_chunk_nonempty by blast
  then have "trim s = [] \<longleftrightarrow> ?m = []"
    unfolding trim_def by (rule concat_nonempty_chunks)
  also have "\<dots> \<longleftrightarrow> (\<forall>ch \<in> set (str_chars s). is_whitespace ch)"
    by (auto simp: dropWhile_eq_Nil dest: set_dropWhileD)
      (metis dropWhile_eq_Nil_conv list.set_intros(1) hd_dropWhile list.exhaust_sel)
  finally show ?thesis .
qed

lemma strip_prefix_Some: "strip_prefix s p = Some r \<longleftrightarrow> s = p @ r"
  by (auto simp: strip_prefix_def starts_with_def)
    (metis append_take_drop_id)

lemma strip_suffix_Some: "strip_suffix s p = Some r \<longleftrightarrow> s = r @ p"
proof -
  have "strip_suffix s p = Some r \<longleftrightarrow> strip_prefix (rev s) (rev p) = Some (rev r)"
    by (auto simp: strip_suffix_def)
  also have "\<dots> \<longleftrightarrow> rev s = rev p @ rev r"
    by (rule strip_prefix_Some)
  also have "\<dots> \<longleftrightarrow> s = r @ p"
    by (metis rev_append rev_rev_ident)
  finally show ?thesis .
qed

lemma starts_with_iff: "starts_with s p \<longleftrightarrow> (\<exists>r. s = p @ r)"
  by (metis strip_prefix_def strip_prefix_Some option.distinct(1) starts_with_def
      append_eq_conv_conj)

lemma ascii_lower_char_idem [simp]: "ascii_lower_char (ascii_lower_char c) = ascii_lower_char c"
  by (auto simp: ascii_lower_char_def Let_def)

lemma to_ascii_lowercase_idem [simp]:
  "to_ascii_lowercase (to_ascii_lowercase s) = to_ascii_lowercase s"
  by (simp add: to_ascii_lowercase_def)

text \<open>An apostrophe, which a string literal of the logic cannot hold.\<close>

abbreviation apos :: string where
  "apos \<equiv> [CHR 0x27]"

section \<open>Lines\<close>

text \<open>
  \<^verbatim>\<open>str::lines\<close>: the text between line feeds, without a carriage return before the line
  feed; a last piece that is empty is no line.
\<close>

definition strip_cr :: "string \<Rightarrow> string" where
  "strip_cr l = (if l \<noteq> [] \<and> last l = CHR 0x0D then butlast l else l)"

fun split_lines :: "string \<Rightarrow> string \<Rightarrow> string list" where
  "split_lines acc [] = (if acc = [] then [] else [rev acc])"
| "split_lines acc (c # cs) =
     (if c = CHR 0x0A then strip_cr (rev acc) # split_lines [] cs
      else split_lines (c # acc) cs)"

definition str_lines :: "string \<Rightarrow> string list" where
  "str_lines s = split_lines [] s"

section \<open>Decimal numbers\<close>

fun show_nat :: "nat \<Rightarrow> string" where
  "show_nat n =
     (if n < 10 then [char_of (48 + n)]
      else show_nat (n div 10) @ [char_of (48 + n mod 10)])"

declare show_nat.simps [simp del]

definition show_u32 :: "'a::len word \<Rightarrow> string" where
  "show_u32 w = show_nat (unat w)"

definition join_with :: "string \<Rightarrow> string list \<Rightarrow> string" where
  "join_with sep xs =
     (case xs of [] \<Rightarrow> [] | y # ys \<Rightarrow> y @ concat (map (\<lambda>z. sep @ z) ys))"

definition split_once :: "char \<Rightarrow> string \<Rightarrow> (string \<times> string) option" where
  "split_once sep s = (let before = takeWhile (\<lambda>c. c \<noteq> sep) s in
     if length before = length s then None else Some (before, drop (Suc (length before)) s))"

end
