(* ===== verification/Error.thy ===== *)
theory Error
  imports Rust_Str
begin

text \<open>
  The error vocabulary of \<^verbatim>\<open>core/error.rs\<close>: the stable reason codes with their wire strings,
  their parser and their sentences, and the error types of the providers, the tools and the
  runtime with the reason code each carries.
\<close>

section \<open>Reason codes\<close>

datatype (plugins only: code size) ReasonCode =
    SchemaInvalid | PathOutsideWorkspace | PathSymlinkEscape | FileNotObserved
    | StaleFileVersion | ApprovalRequired | ApprovalDenied | PolicyReadOnly | BudgetExhausted
    | CommandTimeout | OutputTruncated | ToolExecution | Cancelled | ProviderAuth
    | ProviderRateLimit | ProviderRateLimitUnexplained | ProviderOverloaded | ProviderPlanQuota
    | ProviderRelay | ProviderProtocol | ProviderIncompatibleModel | RecoveryRequiresDecision
    | CompletionEvidenceMissing | RunActive | McpServerUnavailable | McpToolRefused
    | McpSchemaMismatch | WorkspaceDirty | WorktreeUnavailable | SubagentResultMissing
    | TriggerDisabled | RouteExhausted | SpawnEnvelopeRefused | PlanInvalidTransition
    | PlanStaleRevision | WorkspaceStaleRevision | WorkspaceCapabilityUnavailable
    | WorkspaceExternalUnverified | WorkspaceStaleDiff | WorkspaceAuthRefused
    | WorkspaceSearchRefused | WorkspaceRootLocked | RepositoryConflict
    | RepositoryDetachedHead | RepositoryHookRefused | RepositorySigningFailed
    | RepositoryUncertainEffect | RepositoryNoUpstream | RepositoryDivergedFromRemote
    | ReadSetCollision

definition ReasonCode_as_str :: "ReasonCode \<Rightarrow> string" where
  "ReasonCode_as_str code = (case code of
      ReasonCode.SchemaInvalid \<Rightarrow> ''SCHEMA_INVALID''
    | ReasonCode.PathOutsideWorkspace \<Rightarrow> ''PATH_OUTSIDE_WORKSPACE''
    | ReasonCode.PathSymlinkEscape \<Rightarrow> ''PATH_SYMLINK_ESCAPE''
    | ReasonCode.FileNotObserved \<Rightarrow> ''FILE_NOT_OBSERVED''
    | ReasonCode.StaleFileVersion \<Rightarrow> ''STALE_FILE_VERSION''
    | ReasonCode.ApprovalRequired \<Rightarrow> ''APPROVAL_REQUIRED''
    | ReasonCode.ApprovalDenied \<Rightarrow> ''APPROVAL_DENIED''
    | ReasonCode.PolicyReadOnly \<Rightarrow> ''POLICY_READ_ONLY''
    | ReasonCode.BudgetExhausted \<Rightarrow> ''BUDGET_EXHAUSTED''
    | ReasonCode.CommandTimeout \<Rightarrow> ''COMMAND_TIMEOUT''
    | ReasonCode.OutputTruncated \<Rightarrow> ''OUTPUT_TRUNCATED''
    | ReasonCode.ToolExecution \<Rightarrow> ''TOOL_EXECUTION''
    | ReasonCode.Cancelled \<Rightarrow> ''CANCELLED''
    | ReasonCode.ProviderAuth \<Rightarrow> ''PROVIDER_AUTH''
    | ReasonCode.ProviderRateLimit \<Rightarrow> ''PROVIDER_RATE_LIMIT''
    | ReasonCode.ProviderRateLimitUnexplained \<Rightarrow> ''PROVIDER_RATE_LIMIT_UNEXPLAINED''
    | ReasonCode.ProviderOverloaded \<Rightarrow> ''PROVIDER_OVERLOADED''
    | ReasonCode.ProviderPlanQuota \<Rightarrow> ''PROVIDER_PLAN_QUOTA''
    | ReasonCode.ProviderRelay \<Rightarrow> ''PROVIDER_RELAY''
    | ReasonCode.ProviderProtocol \<Rightarrow> ''PROVIDER_PROTOCOL''
    | ReasonCode.ProviderIncompatibleModel \<Rightarrow> ''PROVIDER_INCOMPATIBLE_MODEL''
    | ReasonCode.RecoveryRequiresDecision \<Rightarrow> ''RECOVERY_REQUIRES_DECISION''
    | ReasonCode.CompletionEvidenceMissing \<Rightarrow> ''COMPLETION_EVIDENCE_MISSING''
    | ReasonCode.RunActive \<Rightarrow> ''RUN_ACTIVE''
    | ReasonCode.McpServerUnavailable \<Rightarrow> ''MCP_SERVER_UNAVAILABLE''
    | ReasonCode.McpToolRefused \<Rightarrow> ''MCP_TOOL_REFUSED''
    | ReasonCode.McpSchemaMismatch \<Rightarrow> ''MCP_SCHEMA_MISMATCH''
    | ReasonCode.WorkspaceDirty \<Rightarrow> ''WORKSPACE_DIRTY''
    | ReasonCode.WorktreeUnavailable \<Rightarrow> ''WORKTREE_UNAVAILABLE''
    | ReasonCode.SubagentResultMissing \<Rightarrow> ''SUBAGENT_RESULT_MISSING''
    | ReasonCode.TriggerDisabled \<Rightarrow> ''TRIGGER_DISABLED''
    | ReasonCode.RouteExhausted \<Rightarrow> ''ROUTE_EXHAUSTED''
    | ReasonCode.SpawnEnvelopeRefused \<Rightarrow> ''SPAWN_ENVELOPE_REFUSED''
    | ReasonCode.PlanInvalidTransition \<Rightarrow> ''PLAN_INVALID_TRANSITION''
    | ReasonCode.PlanStaleRevision \<Rightarrow> ''PLAN_STALE_REVISION''
    | ReasonCode.WorkspaceStaleRevision \<Rightarrow> ''WORKSPACE_STALE_REVISION''
    | ReasonCode.WorkspaceCapabilityUnavailable \<Rightarrow> ''WORKSPACE_CAPABILITY_UNAVAILABLE''
    | ReasonCode.WorkspaceExternalUnverified \<Rightarrow> ''WORKSPACE_EXTERNAL_UNVERIFIED''
    | ReasonCode.WorkspaceStaleDiff \<Rightarrow> ''WORKSPACE_STALE_DIFF''
    | ReasonCode.WorkspaceAuthRefused \<Rightarrow> ''WORKSPACE_AUTH_REFUSED''
    | ReasonCode.WorkspaceSearchRefused \<Rightarrow> ''WORKSPACE_SEARCH_REFUSED''
    | ReasonCode.WorkspaceRootLocked \<Rightarrow> ''WORKSPACE_ROOT_LOCKED''
    | ReasonCode.RepositoryConflict \<Rightarrow> ''REPOSITORY_CONFLICT''
    | ReasonCode.RepositoryDetachedHead \<Rightarrow> ''REPOSITORY_DETACHED_HEAD''
    | ReasonCode.RepositoryHookRefused \<Rightarrow> ''REPOSITORY_HOOK_REFUSED''
    | ReasonCode.RepositorySigningFailed \<Rightarrow> ''REPOSITORY_SIGNING_FAILED''
    | ReasonCode.RepositoryUncertainEffect \<Rightarrow> ''REPOSITORY_UNCERTAIN_EFFECT''
    | ReasonCode.RepositoryNoUpstream \<Rightarrow> ''REPOSITORY_NO_UPSTREAM''
    | ReasonCode.RepositoryDivergedFromRemote \<Rightarrow> ''REPOSITORY_DIVERGED_FROM_REMOTE''
    | ReasonCode.ReadSetCollision \<Rightarrow> ''READ_SET_COLLISION'')"

text \<open>The match over the string is a lookup in the table of its arms.\<close>

definition ReasonCode_parse :: "string \<Rightarrow> ReasonCode option" where
  "ReasonCode_parse raw = map_of [
      (''SCHEMA_INVALID'', ReasonCode.SchemaInvalid),
      (''PATH_OUTSIDE_WORKSPACE'', ReasonCode.PathOutsideWorkspace),
      (''PATH_SYMLINK_ESCAPE'', ReasonCode.PathSymlinkEscape),
      (''FILE_NOT_OBSERVED'', ReasonCode.FileNotObserved),
      (''STALE_FILE_VERSION'', ReasonCode.StaleFileVersion),
      (''APPROVAL_REQUIRED'', ReasonCode.ApprovalRequired),
      (''APPROVAL_DENIED'', ReasonCode.ApprovalDenied),
      (''POLICY_READ_ONLY'', ReasonCode.PolicyReadOnly),
      (''BUDGET_EXHAUSTED'', ReasonCode.BudgetExhausted),
      (''COMMAND_TIMEOUT'', ReasonCode.CommandTimeout),
      (''OUTPUT_TRUNCATED'', ReasonCode.OutputTruncated),
      (''TOOL_EXECUTION'', ReasonCode.ToolExecution),
      (''CANCELLED'', ReasonCode.Cancelled),
      (''PROVIDER_AUTH'', ReasonCode.ProviderAuth),
      (''PROVIDER_RATE_LIMIT'', ReasonCode.ProviderRateLimit),
      (''PROVIDER_RATE_LIMIT_UNEXPLAINED'', ReasonCode.ProviderRateLimitUnexplained),
      (''PROVIDER_OVERLOADED'', ReasonCode.ProviderOverloaded),
      (''PROVIDER_PLAN_QUOTA'', ReasonCode.ProviderPlanQuota),
      (''PROVIDER_RELAY'', ReasonCode.ProviderRelay),
      (''PROVIDER_PROTOCOL'', ReasonCode.ProviderProtocol),
      (''PROVIDER_INCOMPATIBLE_MODEL'', ReasonCode.ProviderIncompatibleModel),
      (''RECOVERY_REQUIRES_DECISION'', ReasonCode.RecoveryRequiresDecision),
      (''COMPLETION_EVIDENCE_MISSING'', ReasonCode.CompletionEvidenceMissing),
      (''RUN_ACTIVE'', ReasonCode.RunActive),
      (''MCP_SERVER_UNAVAILABLE'', ReasonCode.McpServerUnavailable),
      (''MCP_TOOL_REFUSED'', ReasonCode.McpToolRefused),
      (''MCP_SCHEMA_MISMATCH'', ReasonCode.McpSchemaMismatch),
      (''WORKSPACE_DIRTY'', ReasonCode.WorkspaceDirty),
      (''WORKTREE_UNAVAILABLE'', ReasonCode.WorktreeUnavailable),
      (''SUBAGENT_RESULT_MISSING'', ReasonCode.SubagentResultMissing),
      (''TRIGGER_DISABLED'', ReasonCode.TriggerDisabled),
      (''ROUTE_EXHAUSTED'', ReasonCode.RouteExhausted),
      (''SPAWN_ENVELOPE_REFUSED'', ReasonCode.SpawnEnvelopeRefused),
      (''PLAN_INVALID_TRANSITION'', ReasonCode.PlanInvalidTransition),
      (''PLAN_STALE_REVISION'', ReasonCode.PlanStaleRevision),
      (''WORKSPACE_STALE_REVISION'', ReasonCode.WorkspaceStaleRevision),
      (''WORKSPACE_CAPABILITY_UNAVAILABLE'', ReasonCode.WorkspaceCapabilityUnavailable),
      (''WORKSPACE_EXTERNAL_UNVERIFIED'', ReasonCode.WorkspaceExternalUnverified),
      (''WORKSPACE_STALE_DIFF'', ReasonCode.WorkspaceStaleDiff),
      (''WORKSPACE_AUTH_REFUSED'', ReasonCode.WorkspaceAuthRefused),
      (''WORKSPACE_SEARCH_REFUSED'', ReasonCode.WorkspaceSearchRefused),
      (''WORKSPACE_ROOT_LOCKED'', ReasonCode.WorkspaceRootLocked),
      (''REPOSITORY_CONFLICT'', ReasonCode.RepositoryConflict),
      (''REPOSITORY_DETACHED_HEAD'', ReasonCode.RepositoryDetachedHead),
      (''REPOSITORY_HOOK_REFUSED'', ReasonCode.RepositoryHookRefused),
      (''REPOSITORY_SIGNING_FAILED'', ReasonCode.RepositorySigningFailed),
      (''REPOSITORY_UNCERTAIN_EFFECT'', ReasonCode.RepositoryUncertainEffect),
      (''REPOSITORY_NO_UPSTREAM'', ReasonCode.RepositoryNoUpstream),
      (''REPOSITORY_DIVERGED_FROM_REMOTE'', ReasonCode.RepositoryDivergedFromRemote),
      (''READ_SET_COLLISION'', ReasonCode.ReadSetCollision)] raw"

definition ReasonCode_sentence :: "ReasonCode \<Rightarrow> string" where
  "ReasonCode_sentence code = (case code of
      ReasonCode.SchemaInvalid \<Rightarrow> ''The proposed arguments did not match the tool schema.''
    | ReasonCode.PathOutsideWorkspace \<Rightarrow> ''The proposed path was outside the open workspace.''
    | ReasonCode.PathSymlinkEscape \<Rightarrow> ''A symlink would have escaped the open workspace.''
    | ReasonCode.FileNotObserved \<Rightarrow> ''The file must be read before it can be changed.''
    | ReasonCode.StaleFileVersion \<Rightarrow> ''The file changed after mjolnr read it.''
    | ReasonCode.ApprovalRequired \<Rightarrow> ''A human decision is required before this can run.''
    | ReasonCode.ApprovalDenied \<Rightarrow> ''The proposed action was not authorised.''
    | ReasonCode.PolicyReadOnly \<Rightarrow> ''The active policy refuses side effects.''
    | ReasonCode.BudgetExhausted \<Rightarrow> ''The run reached a configured work budget.''
    | ReasonCode.CommandTimeout \<Rightarrow> ''The command exceeded its allowed runtime.''
    | ReasonCode.OutputTruncated \<Rightarrow> ''The captured output exceeded its display budget.''
    | ReasonCode.ToolExecution \<Rightarrow> ''The tool could not complete its operation.''
    | ReasonCode.Cancelled \<Rightarrow> ''The active operation was interrupted.''
    | ReasonCode.ProviderAuth \<Rightarrow> ''The provider rejected or could not resolve authentication.''
    | ReasonCode.ProviderRateLimit \<Rightarrow> ''Wait for the limit to reset, or switch models with /model.''
    | ReasonCode.ProviderRateLimitUnexplained \<Rightarrow> ''No limit was reported alongside the refusal; check that the credential is one this endpoint accepts.''
    | ReasonCode.ProviderOverloaded \<Rightarrow> ''The provider'' @ [CHR 0x27] @ ''s own capacity was short; this is not your quota.''
    | ReasonCode.ProviderPlanQuota \<Rightarrow> ''The provider reported that the plan quota was exhausted.''
    | ReasonCode.ProviderRelay \<Rightarrow> ''The gateway could not relay the request; check its request logs or contact gateway support.''
    | ReasonCode.ProviderProtocol \<Rightarrow> ''The provider response could not be interpreted safely.''
    | ReasonCode.ProviderIncompatibleModel \<Rightarrow> ''The model lacks a required capability.''
    | ReasonCode.RecoveryRequiresDecision \<Rightarrow> ''Interrupted work needs a human recovery decision.''
    | ReasonCode.CompletionEvidenceMissing \<Rightarrow> ''Verified completion lacked command evidence.''
    | ReasonCode.RunActive \<Rightarrow> ''The requested change is locked while a run is active.''
    | ReasonCode.McpServerUnavailable \<Rightarrow> ''The configured MCP server is unavailable.''
    | ReasonCode.McpToolRefused \<Rightarrow> ''The MCP server refused the tool call.''
    | ReasonCode.McpSchemaMismatch \<Rightarrow> ''The MCP tool schema could not be governed safely.''
    | ReasonCode.WorkspaceDirty \<Rightarrow> ''The workspace has uncommitted changes.''
    | ReasonCode.WorktreeUnavailable \<Rightarrow> ''An isolated git worktree could not be prepared.''
    | ReasonCode.SubagentResultMissing \<Rightarrow> ''A subagent finished without reporting a result.''
    | ReasonCode.TriggerDisabled \<Rightarrow> ''The trigger disabled itself after repeated failures.''
    | ReasonCode.RouteExhausted \<Rightarrow> ''The route had no viable provider position left.''
    | ReasonCode.SpawnEnvelopeRefused \<Rightarrow> ''The spawn asked for more than the armed envelope authorises.''
    | ReasonCode.PlanInvalidTransition \<Rightarrow> ''The requested plan state transition was invalid for the current workflow stage.''
    | ReasonCode.PlanStaleRevision \<Rightarrow> ''The plan revision is stale or superseded by a newer revision.''
    | ReasonCode.WorkspaceStaleRevision \<Rightarrow> ''The client sent an outdated workspace revision.''
    | ReasonCode.WorkspaceCapabilityUnavailable \<Rightarrow> ''The requested workspace capability is not available.''
    | ReasonCode.WorkspaceExternalUnverified \<Rightarrow> ''The operation requires verified data but received unverified external data.''
    | ReasonCode.WorkspaceStaleDiff \<Rightarrow> ''The diff references an outdated tree state.''
    | ReasonCode.WorkspaceAuthRefused \<Rightarrow> ''Integration authentication was refused.''
    | ReasonCode.WorkspaceSearchRefused \<Rightarrow> ''The search question could not be answered, which is not the same as nothing matching.''
    | ReasonCode.WorkspaceRootLocked \<Rightarrow> ''The workspace root cannot change while a session is open on it.''
    | ReasonCode.RepositoryConflict \<Rightarrow> ''The repository has unmerged paths.''
    | ReasonCode.RepositoryDetachedHead \<Rightarrow> ''The repository has no branch checked out.''
    | ReasonCode.RepositoryHookRefused \<Rightarrow> ''A repository hook refused the operation.''
    | ReasonCode.RepositorySigningFailed \<Rightarrow> ''The commit could not be signed.''
    | ReasonCode.RepositoryUncertainEffect \<Rightarrow> ''mjolnr cannot prove whether the repository operation took effect.''
    | ReasonCode.RepositoryNoUpstream \<Rightarrow> ''The current branch has no upstream configured, so there is no push destination.''
    | ReasonCode.RepositoryDivergedFromRemote \<Rightarrow> ''The local branch is behind the remote; fetch or integrate before pushing.''
    | ReasonCode.ReadSetCollision \<Rightarrow> ''A concurrent sibling changed a file this agent had read; re-read it before finishing.'')"

lemma ReasonCode_parse_as_str [rt]: "ReasonCode_parse (ReasonCode_as_str c) = Some c"
  by (cases c) (simp_all add: ReasonCode_parse_def ReasonCode_as_str_def)

lemma ReasonCode_as_str_parse: "ReasonCode_parse raw = Some c \<Longrightarrow> ReasonCode_as_str c = raw"
  by (auto simp: ReasonCode_parse_def ReasonCode_as_str_def split: if_splits)

lemma ReasonCode_as_str_inject: "ReasonCode_as_str a = ReasonCode_as_str b \<longleftrightarrow> a = b"
  by (metis ReasonCode_parse_as_str option.inject)

lemma ReasonCode_parse_None: "ReasonCode_parse raw = None \<longleftrightarrow> (\<forall>c. ReasonCode_as_str c \<noteq> raw)"
  by (metis ReasonCode_as_str_parse ReasonCode_parse_as_str option.distinct(1) option.exhaust)

section \<open>Error types\<close>

datatype ProviderError =
    Auth
  | RateLimit "u64 option"
  | RateLimitUnexplained
  | Overloaded "u64 option"
  | PlanQuota "i64 option"
  | Relay
  | Protocol string
  | IncompatibleModel string string
  | Transport string
  | Cancelled

definition ProviderError_reason_code :: "ProviderError \<Rightarrow> ReasonCode" where
  "ProviderError_reason_code e = (case e of
      ProviderError.Auth \<Rightarrow> ReasonCode.ProviderAuth
    | ProviderError.RateLimit _ \<Rightarrow> ReasonCode.ProviderRateLimit
    | ProviderError.RateLimitUnexplained \<Rightarrow> ReasonCode.ProviderRateLimitUnexplained
    | ProviderError.Overloaded _ \<Rightarrow> ReasonCode.ProviderOverloaded
    | ProviderError.PlanQuota _ \<Rightarrow> ReasonCode.ProviderPlanQuota
    | ProviderError.Relay \<Rightarrow> ReasonCode.ProviderRelay
    | ProviderError.Protocol _ \<Rightarrow> ReasonCode.ProviderProtocol
    | ProviderError.Transport _ \<Rightarrow> ReasonCode.ProviderProtocol
    | ProviderError.IncompatibleModel _ _ \<Rightarrow> ReasonCode.ProviderIncompatibleModel
    | ProviderError.Cancelled \<Rightarrow> ReasonCode.Cancelled)"

datatype ToolError =
    SchemaInvalid string
  | Refused ReasonCode string
  | Failed ReasonCode string
  | Execution string
  | Cancelled

definition ToolError_reason_code :: "ToolError \<Rightarrow> ReasonCode" where
  "ToolError_reason_code e = (case e of
      ToolError.SchemaInvalid _ \<Rightarrow> ReasonCode.SchemaInvalid
    | ToolError.Refused code _ \<Rightarrow> code
    | ToolError.Failed code _ \<Rightarrow> code
    | ToolError.Execution _ \<Rightarrow> ReasonCode.ToolExecution
    | ToolError.Cancelled \<Rightarrow> ReasonCode.Cancelled)"

text \<open>
  The detail of a workspace refusal is a sentence built from the values at hand. It is a
  type parameter here: each component instantiates it with a datatype of its refusals, one
  constructor per sentence, holding the values the sentence prints.
\<close>

datatype 'd MjolnrError =
    NoSession
  | UnknownProvider string
  | RuntimeClosed
  | RunActive
  | Provider ProviderError
  | Store string
  | PlanInvalidTransition string string string
  | PlanStaleRevision u32 u32
  | WorkspaceRefused ReasonCode 'd

definition MjolnrError_reason_code :: "'d MjolnrError \<Rightarrow> ReasonCode option" where
  "MjolnrError_reason_code e = (case e of
      MjolnrError.RunActive \<Rightarrow> Some ReasonCode.RunActive
    | MjolnrError.PlanInvalidTransition _ _ _ \<Rightarrow> Some ReasonCode.PlanInvalidTransition
    | MjolnrError.PlanStaleRevision _ _ \<Rightarrow> Some ReasonCode.PlanStaleRevision
    | MjolnrError.WorkspaceRefused code _ \<Rightarrow> Some code
    | MjolnrError.Provider err \<Rightarrow> Some (ProviderError_reason_code err)
    | MjolnrError.NoSession \<Rightarrow> None
    | MjolnrError.UnknownProvider _ \<Rightarrow> None
    | MjolnrError.RuntimeClosed \<Rightarrow> None
    | MjolnrError.Store _ \<Rightarrow> None)"

section \<open>Properties\<close>

text \<open>
  The stored name of a reason code is a lossless encoding: reading a name gives a code
  exactly if the name is that code's, and no two codes share a name.
\<close>

theorem reason_code_round_trip:
  "(ReasonCode_parse raw = Some c) = (ReasonCode_as_str c = raw)
   \<and> (ReasonCode_as_str c = ReasonCode_as_str d) = (c = d)"
  using ReasonCode_parse_as_str ReasonCode_as_str_parse ReasonCode_as_str_inject by metis

end
