(* ===== verification/Contracts.thy ===== *)
theory Contracts
  imports Prelude
begin

text \<open>
  The contracts more than one component relies on, as locales: a codec between a core type
  and its wire mirror, a ceiling on authority, and a guarded fold (a log of events replayed
  through a fallible step). The components interpret them on their own definitions.
\<close>

section \<open>Wire codecs\<close>

text \<open>
  The store persists every type through a mirror of it, with a conversion in each direction.
  Decoding what was encoded gives the value back; the rest follows.
\<close>

locale wire_codec =
  fixes to_wire :: "'a \<Rightarrow> 'w"
    and of_wire :: "'w \<Rightarrow> 'a"
  assumes of_to: "of_wire (to_wire x) = x"
begin

lemma comp_id: "of_wire \<circ> to_wire = id"
  by (simp add: fun_eq_iff of_to)

lemma list_rt: "map of_wire (map to_wire xs) = xs"
  by (simp add: comp_id)

lemma option_rt: "map_option of_wire (map_option to_wire v) = v"
  by (cases v) (simp_all add: of_to)

lemma to_wire_inject: "to_wire x = to_wire y \<longleftrightarrow> x = y"
  by (metis of_to)

lemma of_wire_surj: "\<exists>w. of_wire w = x"
  using of_to by blast

end

text \<open>
  A mirror that also keeps nothing the core type lacks: every wire value is the image of
  one core value. The enums of the wire are of this kind, so an enum constructor added on
  one side only breaks the interpretation.
\<close>

locale wire_mirror = wire_codec to_wire of_wire
  for to_wire :: "'a \<Rightarrow> 'w" and of_wire :: "'w \<Rightarrow> 'a" +
  assumes to_of: "to_wire (of_wire w) = w"
begin

lemma mirror_bij: "bij to_wire"
  by (rule o_bij [of of_wire]) (simp_all add: fun_eq_iff of_to to_of)

lemma of_wire_inject: "of_wire v = of_wire w \<longleftrightarrow> v = w"
  by (metis to_of)

lemma list_tr: "map to_wire (map of_wire ws) = ws"
  by (simp add: comp_def to_of)

lemma option_tr: "map_option to_wire (map_option of_wire v) = v"
  by (cases v) (simp_all add: to_of)

end

section \<open>Ceilings on authority\<close>

text \<open>
  A ceiling takes a requested mode to the mode that may be used. Whatever the ceiling, the
  result is never wider than the request, and applying the same ceiling again changes
  nothing.
\<close>

locale ceiling =
  fixes limit :: "'c \<Rightarrow> 'm \<Rightarrow> 'm"
    and width :: "'m \<Rightarrow> nat"
  assumes never_widens: "width (limit c m) \<le> width m"
    and limit_idem: "limit c (limit c m) = limit c m"
begin

lemma fold_never_widens: "width (fold limit cs m) \<le> width m"
proof (induction cs arbitrary: m)
  case Nil
  show ?case by simp
next
  case (Cons c cs)
  have "width (fold limit cs (limit c m)) \<le> width (limit c m)" by (rule Cons.IH)
  also have "\<dots> \<le> width m" by (rule never_widens)
  finally show ?case by simp
qed

lemma repeat_limit: "0 < n \<Longrightarrow> (limit c ^^ n) m = limit c m"
proof (induction n)
  case (Suc n)
  then show ?case by (cases n) (simp_all add: limit_idem)
qed simp

end

section \<open>Guarded folds\<close>

text \<open>
  A log is replayed through a step that may refuse an event; the first refusal ends the
  replay.
\<close>

fun replay :: "('ev \<Rightarrow> 's \<Rightarrow> ('s, 'err) result) \<Rightarrow> 'ev list \<Rightarrow> 's \<Rightarrow> ('s, 'err) result" where
  "replay step [] s = Inr s"
| "replay step (e # es) s = and_then (step e s) (replay step es)"

lemma replay_append:
  "replay step (xs @ ys) s = and_then (replay step xs s) (replay step ys)"
  by (induction xs arbitrary: s) (auto simp: and_then_def split: sum.splits)

lemma replay_snoc:
  "replay step (xs @ [y]) s = and_then (replay step xs s) (step y)"
  by (simp add: replay_append and_then_def split: sum.splits)

lemma replay_prefix_ok:
  "replay step (xs @ ys) s = Inr t \<Longrightarrow> \<exists>u. replay step xs s = Inr u \<and> replay step ys u = Inr t"
  by (simp add: replay_append and_then_Inr)

locale guarded_fold =
  fixes step :: "'ev \<Rightarrow> 's \<Rightarrow> ('s, 'err) result"
    and inv :: "'s \<Rightarrow> bool"
  assumes step_inv: "inv s \<Longrightarrow> step e s = Inr t \<Longrightarrow> inv t"
begin

lemma replay_inv: "inv s \<Longrightarrow> replay step es s = Inr t \<Longrightarrow> inv t"
proof (induction es arbitrary: s)
  case Nil
  then show ?case by simp
next
  case (Cons e es)
  from Cons.prems(2) obtain u where "step e s = Inr u" "replay step es u = Inr t"
    by (auto simp: and_then_Inr)
  with Cons.prems(1) show ?case
    using Cons.IH step_inv by blast
qed

end

text \<open>
  A step whose accepted events only ever add to what a measure of the state reports: what
  was recorded stays recorded.
\<close>

locale growing_fold =
  fixes step :: "'ev \<Rightarrow> 's \<Rightarrow> ('s, 'err) result"
    and grown :: "'s \<Rightarrow> 's \<Rightarrow> bool"
  assumes grown_refl: "grown s s"
    and grown_trans: "grown s t \<Longrightarrow> grown t u \<Longrightarrow> grown s u"
    and step_grown: "step e s = Inr t \<Longrightarrow> grown s t"
begin

lemma replay_grown: "replay step es s = Inr t \<Longrightarrow> grown s t"
proof (induction es arbitrary: s)
  case Nil
  then show ?case by (simp add: grown_refl)
next
  case (Cons e es)
  then obtain u where "step e s = Inr u" "replay step es u = Inr t"
    by (auto simp: and_then_Inr)
  then show ?case
    using Cons.IH step_grown grown_trans by blast
qed

end

end
