(* ===== verification/Policy.thy ===== *)
theory Policy
  imports Error Contracts
begin

text \<open>
  The policy gate: \<^verbatim>\<open>core/policy.rs\<close> (the modes, their order and the two combinators a
  ceiling may use), the tool tiers of \<^verbatim>\<open>core/tool.rs\<close> and the decision of
  \<^verbatim>\<open>policy/mod.rs\<close>.
\<close>

section \<open>Modes and tiers\<close>

datatype PolicyMode = ReadOnly | Ask | WorkspaceWrite | FullAuto

datatype ToolTier = Read | Write | Execute

text \<open>The derived order: the constructors in the order of their declaration.\<close>

fun ToolTier_rank :: "ToolTier \<Rightarrow> nat" where
  "ToolTier_rank Read = 0"
| "ToolTier_rank Write = 1"
| "ToolTier_rank Execute = 2"

instantiation ToolTier :: linorder
begin

definition less_eq_ToolTier_def: "a \<le> b \<longleftrightarrow> ToolTier_rank a \<le> ToolTier_rank b" for a b :: ToolTier
definition less_ToolTier_def: "a < b \<longleftrightarrow> ToolTier_rank a < ToolTier_rank b" for a b :: ToolTier

instance
proof
  fix a b :: ToolTier
  show "a \<le> b \<Longrightarrow> b \<le> a \<Longrightarrow> a = b"
    by (cases a; cases b) (simp_all add: less_eq_ToolTier_def)
qed (auto simp: less_eq_ToolTier_def less_ToolTier_def)

end

definition ToolTier_default :: ToolTier where
  "ToolTier_default = Execute"

definition PolicyMode_default :: PolicyMode where
  "PolicyMode_default = PolicyMode.Ask"

definition PolicyMode_label :: "PolicyMode \<Rightarrow> string" where
  "PolicyMode_label m = (case m of
      PolicyMode.ReadOnly \<Rightarrow> ''read-only''
    | PolicyMode.Ask \<Rightarrow> ''ask''
    | PolicyMode.WorkspaceWrite \<Rightarrow> ''workspace-write''
    | PolicyMode.FullAuto \<Rightarrow> ''full-auto'')"

definition PolicyMode_next :: "PolicyMode \<Rightarrow> PolicyMode" where
  "PolicyMode_next m = (case m of
      PolicyMode.ReadOnly \<Rightarrow> PolicyMode.Ask
    | PolicyMode.FullAuto \<Rightarrow> PolicyMode.Ask
    | PolicyMode.Ask \<Rightarrow> PolicyMode.WorkspaceWrite
    | PolicyMode.WorkspaceWrite \<Rightarrow> PolicyMode.ReadOnly)"

definition is_full_auto :: "PolicyMode \<Rightarrow> bool" where
  "is_full_auto m = (m = PolicyMode.FullAuto)"

definition PolicyMode_width :: "PolicyMode \<Rightarrow> u8" where
  "PolicyMode_width m = (case m of
      PolicyMode.ReadOnly \<Rightarrow> 0
    | PolicyMode.Ask \<Rightarrow> 1
    | PolicyMode.WorkspaceWrite \<Rightarrow> 2
    | PolicyMode.FullAuto \<Rightarrow> 3)"

definition narrower_of :: "PolicyMode \<Rightarrow> PolicyMode \<Rightarrow> PolicyMode" where
  "narrower_of m other = (if PolicyMode_width m \<le> PolicyMode_width other then m else other)"

definition carried_forward :: "PolicyMode \<Rightarrow> PolicyMode" where
  "carried_forward m = (case m of PolicyMode.FullAuto \<Rightarrow> PolicyMode.Ask | other \<Rightarrow> other)"

definition mode_width :: "PolicyMode \<Rightarrow> nat" where
  "mode_width m = unat (PolicyMode_width m)"

section \<open>The decision\<close>

datatype PolicyDecision = Allow | Ask | Deny ReasonCode

definition decide :: "PolicyMode \<Rightarrow> ToolTier \<Rightarrow> bool \<Rightarrow> PolicyDecision" where
  "decide mode tier exact_command_approved = (case (mode, tier) of
      (_, Read) \<Rightarrow> Allow
    | (PolicyMode.WorkspaceWrite, Write) \<Rightarrow> Allow
    | (PolicyMode.FullAuto, Write) \<Rightarrow> Allow
    | (PolicyMode.FullAuto, Execute) \<Rightarrow> Allow
    | (PolicyMode.ReadOnly, Write) \<Rightarrow> Deny ReasonCode.PolicyReadOnly
    | (PolicyMode.ReadOnly, Execute) \<Rightarrow> Deny ReasonCode.PolicyReadOnly
    | (PolicyMode.Ask, Execute) \<Rightarrow>
        (if exact_command_approved then Allow else PolicyDecision.Ask)
    | (PolicyMode.WorkspaceWrite, Execute) \<Rightarrow>
        (if exact_command_approved then Allow else PolicyDecision.Ask)
    | (PolicyMode.Ask, Write) \<Rightarrow> PolicyDecision.Ask)"

section \<open>Lemmas\<close>

lemma mode_width_simps [simp]:
  "mode_width PolicyMode.ReadOnly = 0"
  "mode_width PolicyMode.Ask = 1"
  "mode_width PolicyMode.WorkspaceWrite = 2"
  "mode_width PolicyMode.FullAuto = 3"
  by (simp_all add: mode_width_def PolicyMode_width_def)

lemma width_le_iff: "PolicyMode_width a \<le> PolicyMode_width b \<longleftrightarrow> mode_width a \<le> mode_width b"
  by (simp add: mode_width_def word_le_nat_alt)

lemma mode_width_inject: "mode_width a = mode_width b \<longleftrightarrow> a = b"
  by (cases a; cases b) simp_all

lemma narrower_of_eq: "narrower_of a b = (if mode_width a \<le> mode_width b then a else b)"
  by (simp add: narrower_of_def width_le_iff)

lemma mode_width_narrower_of [simp]:
  "mode_width (narrower_of a b) = min (mode_width a) (mode_width b)"
  by (simp add: narrower_of_eq)

lemma narrower_of_commute: "narrower_of a b = narrower_of b a"
  by (auto simp: narrower_of_eq mode_width_inject)

lemma narrower_of_assoc: "narrower_of (narrower_of a b) c = narrower_of a (narrower_of b c)"
  by (auto simp: narrower_of_eq)

text \<open>How much a decision lets happen without a human: nothing, with a question, anything.\<close>

fun decision_rank :: "PolicyDecision \<Rightarrow> nat" where
  "decision_rank (Deny _) = 0"
| "decision_rank PolicyDecision.Ask = 1"
| "decision_rank Allow = 2"

lemma decide_mono_mode:
  "mode_width m \<le> mode_width n \<Longrightarrow> decision_rank (decide m t e) \<le> decision_rank (decide n t e)"
  by (cases m; cases n; cases t; cases e) (simp_all add: decide_def)

lemma decide_anti_tier:
  "t \<le> u \<Longrightarrow> m \<noteq> PolicyMode.ReadOnly \<Longrightarrow> \<not> e \<Longrightarrow>
     decision_rank (decide m u e) \<le> decision_rank (decide m t e)"
  by (cases m; cases t; cases u; cases e) (simp_all add: decide_def less_eq_ToolTier_def)

lemma decide_Allow_iff:
  "decide m t e = Allow \<longleftrightarrow>
     t = Read \<or> m = PolicyMode.FullAuto
     \<or> (m = PolicyMode.WorkspaceWrite \<and> t = Write)
     \<or> (t = Execute \<and> e \<and> m \<noteq> PolicyMode.ReadOnly)"
  by (cases m; cases t) (auto simp: decide_def)

section \<open>Ceilings\<close>

interpretation narrower: ceiling "\<lambda>c m. narrower_of m c" mode_width
  by unfold_locales (auto simp: narrower_of_eq)

interpretation carried: ceiling "\<lambda>(_::unit) m. carried_forward m" mode_width
  by unfold_locales (auto simp: carried_forward_def split: PolicyMode.splits)

section \<open>Properties\<close>

text \<open>
  C32: the gate lets a call through without a question exactly in the listed cases, and it is
  monotone in the mode: under the narrower of two modes the outcome is the stricter of the
  two outcomes.
\<close>

theorem policy_gate:
  "(decide m t e = Allow) =
     (t = Read \<or> m = PolicyMode.FullAuto
      \<or> (m = PolicyMode.WorkspaceWrite \<and> t = Write)
      \<or> (t = Execute \<and> e \<and> m \<noteq> PolicyMode.ReadOnly))
   \<and> decision_rank (decide (narrower_of m n) t e)
       = min (decision_rank (decide m t e)) (decision_rank (decide n t e))"
proof
  show "decision_rank (decide (narrower_of m n) t e)
       = min (decision_rank (decide m t e)) (decision_rank (decide n t e))"
    using decide_mono_mode [of m n t e] decide_mono_mode [of n m t e]
    by (auto simp: narrower_of_eq min_def)
qed (rule decide_Allow_iff)

end
