(* ===== verification/Model.thy ===== *)
theory Model
  imports Error
begin

text \<open>
  Identifiers and the model catalogue (\<^verbatim>\<open>core/model.rs\<close> and the id newtypes of the other
  core modules). A UUID is the 128-bit number it is; \<^verbatim>\<open>as_uuid\<close> is the selector of each
  newtype and \<^verbatim>\<open>from_uuid\<close> its constructor. Fresh ids are always arguments of the model.
  The ids that are keys of a BTreeMap are linearly ordered as the number is.
\<close>

section \<open>Identifiers\<close>

type_synonym uuid = "128 word"

text \<open>Instants (\<^verbatim>\<open>OffsetDateTime\<close>) are nanoseconds since the epoch.\<close>

type_synonym instant = int

datatype SessionId = SessionId (session_uuid: uuid)
datatype RunId = RunId (run_uuid: uuid)
datatype EventId = EventId (event_uuid: uuid)
datatype ApprovalId = ApprovalId (approval_uuid: uuid)
datatype PlanId = PlanId (plan_uuid: uuid)
datatype PrdId = PrdId (prd_uuid: uuid)
datatype QuestionId = QuestionId (question_uuid: uuid)
datatype DecisionTicketId = DecisionTicketId (ticket_uuid: uuid)
datatype DecisionResolutionId = DecisionResolutionId (resolution_uuid: uuid)
datatype ImportedItemId = ImportedItemId (item_uuid: uuid)
datatype ImportedActId = ImportedActId (act_uuid: uuid)
datatype CouncilReviewId = CouncilReviewId (council_review_uuid: uuid)
datatype CouncilFindingId = CouncilFindingId (finding_uuid: uuid)
datatype ReviewThreadId = ReviewThreadId (thread_uuid: uuid)
datatype HandoffId = HandoffId (handoff_uuid: uuid)
datatype ProjectId = ProjectId (project_uuid: uuid)

instantiation SessionId :: linorder
begin

definition less_eq_SessionId_def: "a \<le> b \<longleftrightarrow> session_uuid a \<le> session_uuid b" for a b :: SessionId
definition less_SessionId_def: "a < b \<longleftrightarrow> session_uuid a < session_uuid b" for a b :: SessionId

instance
  by standard (auto simp: less_eq_SessionId_def less_SessionId_def intro: SessionId.expand)

end

instantiation PlanId :: linorder
begin

definition less_eq_PlanId_def: "a \<le> b \<longleftrightarrow> plan_uuid a \<le> plan_uuid b" for a b :: PlanId
definition less_PlanId_def: "a < b \<longleftrightarrow> plan_uuid a < plan_uuid b" for a b :: PlanId

instance
  by standard (auto simp: less_eq_PlanId_def less_PlanId_def intro: PlanId.expand)

end

instantiation DecisionTicketId :: linorder
begin

definition less_eq_DecisionTicketId_def: "a \<le> b \<longleftrightarrow> ticket_uuid a \<le> ticket_uuid b" for a b :: DecisionTicketId
definition less_DecisionTicketId_def: "a < b \<longleftrightarrow> ticket_uuid a < ticket_uuid b" for a b :: DecisionTicketId

instance
  by standard (auto simp: less_eq_DecisionTicketId_def less_DecisionTicketId_def intro: DecisionTicketId.expand)

end

instantiation ImportedItemId :: linorder
begin

definition less_eq_ImportedItemId_def: "a \<le> b \<longleftrightarrow> item_uuid a \<le> item_uuid b" for a b :: ImportedItemId
definition less_ImportedItemId_def: "a < b \<longleftrightarrow> item_uuid a < item_uuid b" for a b :: ImportedItemId

instance
  by standard (auto simp: less_eq_ImportedItemId_def less_ImportedItemId_def intro: ImportedItemId.expand)

end

instantiation ImportedActId :: linorder
begin

definition less_eq_ImportedActId_def: "a \<le> b \<longleftrightarrow> act_uuid a \<le> act_uuid b" for a b :: ImportedActId
definition less_ImportedActId_def: "a < b \<longleftrightarrow> act_uuid a < act_uuid b" for a b :: ImportedActId

instance
  by standard (auto simp: less_eq_ImportedActId_def less_ImportedActId_def intro: ImportedActId.expand)

end

instantiation ReviewThreadId :: linorder
begin

definition less_eq_ReviewThreadId_def: "a \<le> b \<longleftrightarrow> thread_uuid a \<le> thread_uuid b" for a b :: ReviewThreadId
definition less_ReviewThreadId_def: "a < b \<longleftrightarrow> thread_uuid a < thread_uuid b" for a b :: ReviewThreadId

instance
  by standard (auto simp: less_eq_ReviewThreadId_def less_ReviewThreadId_def intro: ReviewThreadId.expand)

end

instantiation ProjectId :: linorder
begin

definition less_eq_ProjectId_def: "a \<le> b \<longleftrightarrow> project_uuid a \<le> project_uuid b" for a b :: ProjectId
definition less_ProjectId_def: "a < b \<longleftrightarrow> project_uuid a < project_uuid b" for a b :: ProjectId

instance
  by standard (auto simp: less_eq_ProjectId_def less_ProjectId_def intro: ProjectId.expand)

end

datatype ProviderId = ProviderId (provider_str: string)
datatype ModelId = ModelId (model_str: string)

section \<open>Capabilities, tiers and usage\<close>

record ModelCapabilities =
  streaming :: bool
  tools :: bool
  structured_output :: bool
  images_in :: bool
  reasoning_controls :: bool

definition text_and_tools :: ModelCapabilities where
  "text_and_tools = \<lparr>streaming = True, tools = True, structured_output = False,
     images_in = False, reasoning_controls = False\<rparr>"

definition text_tools_and_images :: ModelCapabilities where
  "text_tools_and_images = text_and_tools\<lparr>images_in := True\<rparr>"

datatype Capability = Streaming | Tools | StructuredOutput | ImagesIn | ReasoningControls

datatype ModelTier = Flagship | Fast | Cheap

definition ModelTier_suggested_role :: "ModelTier \<Rightarrow> string" where
  "ModelTier_suggested_role t = (case t of
      Flagship \<Rightarrow> ''plan'' | Fast \<Rightarrow> ''default'' | Cheap \<Rightarrow> ''smol'')"

definition ModelTier_curated :: "ProviderId \<Rightarrow> ModelId \<Rightarrow> ModelTier option" where
  "ModelTier_curated provider model =
     (let p = provider_str provider; m = model_str model in
      if p = ''anthropic'' then
        (if m = ''claude-opus-4-8'' then Some Flagship
         else if m = ''claude-sonnet-5'' then Some Fast
         else if m = ''claude-haiku-4-5-20251001'' then Some Cheap
         else None)
      else if p = ''openai'' then
        (if m = ''gpt-4.1'' then Some Flagship
         else if m = ''gpt-4o'' then Some Fast
         else if m = ''gpt-4o-mini'' \<or> m = ''gpt-4.1-mini'' then Some Cheap
         else None)
      else if p = ''openai-codex'' then
        (if m = ''gpt-5.4'' then Some Flagship
         else if m = ''gpt-5.4-mini'' then Some Fast
         else if m = ''gpt-5.3-codex-spark'' then Some Cheap
         else None)
      else if p = ''gemini'' then
        (if m = ''gemini-2.5-pro'' then Some Flagship
         else if m = ''gemini-2.5-flash'' then Some Fast
         else None)
      else if p = ''forge'' \<and> m = ''claude-sonnet-5'' then Some Flagship
      else None)"

record ModelDescriptor =
  descriptor_id :: ModelId
  descriptor_provider :: ProviderId
  display_name :: string
  capabilities :: ModelCapabilities
  context_tokens :: "u32 option"
  max_output_tokens :: "u32 option"
  descriptor_tier :: "ModelTier option"

definition supports :: "ModelDescriptor \<Rightarrow> Capability \<Rightarrow> bool" where
  "supports d c = (case c of
      Streaming \<Rightarrow> streaming (capabilities d)
    | Tools \<Rightarrow> tools (capabilities d)
    | StructuredOutput \<Rightarrow> structured_output (capabilities d)
    | ImagesIn \<Rightarrow> images_in (capabilities d)
    | ReasoningControls \<Rightarrow> reasoning_controls (capabilities d))"

definition missing_capability :: "ModelDescriptor \<Rightarrow> Capability list \<Rightarrow> Capability option" where
  "missing_capability d required = find (\<lambda>c. \<not> supports d c) required"

record Usage =
  input_tokens :: u64
  output_tokens :: u64

definition Usage_default :: Usage where
  "Usage_default = \<lparr>input_tokens = 0, output_tokens = 0\<rparr>"

record QuotaWindow =
  window_label :: string
  window_used_fraction :: f32
  window_resets_at :: "instant option"

record QuotaSnapshot =
  snapshot_provider :: ProviderId
  windows :: "QuotaWindow list"

lemma missing_capability_None:
  "missing_capability d required = None \<longleftrightarrow> (\<forall>c \<in> set required. supports d c)"
  by (simp add: missing_capability_def find_None_all)

lemma missing_capability_Some:
  "missing_capability d required = Some c \<Longrightarrow> c \<in> set required \<and> \<not> supports d c"
  unfolding missing_capability_def by (rule find_Some_in_set)

end
