(* ===== verification/Tool.thy ===== *)
theory Tool
  imports Policy Contracts
begin

text \<open>
  \<^verbatim>\<open>core/tool.rs\<close>: the exact command a human is shown before it runs, with the quoting of its
  display, and the set of file versions a session has read. The quoting is checked against
  a reference splitter of POSIX shell words.
\<close>

section \<open>Commands\<close>

record CommandSpec =
  program :: string
  arguments :: "string list"

text \<open>
  The test is on characters; a byte of a longer character is neither alphanumeric nor one
  of the listed ones, so testing the bytes is the same.
\<close>

definition plain_char :: "char \<Rightarrow> bool" where
  "plain_char c = (is_ascii_alphanumeric c \<or> c \<in> set ''-._/:=@'')"

definition escape_char :: "char \<Rightarrow> string" where
  "escape_char c = (if c = CHR 0x27 then [CHR 0x27, CHR 0x5C, CHR 0x27, CHR 0x27] else [c])"

definition quote_argument :: "string \<Rightarrow> string" where
  "quote_argument argument =
     (if argument \<noteq> [] \<and> list_all plain_char argument then argument
      else apos @ concat (map escape_char argument) @ apos)"

definition CommandSpec_display :: "CommandSpec \<Rightarrow> string" where
  "CommandSpec_display spec =
     join_with '' '' (map quote_argument (program spec # arguments spec))"

section \<open>A reference splitter of shell words\<close>

text \<open>
  What a shell makes of a line with single quotes and backslashes: blanks separate words, a
  backslash takes the next character literally, and between single quotes every character
  is literal. The first argument is the word being read, if any.
\<close>

fun sh_out :: "string option \<Rightarrow> string \<Rightarrow> string list option"
and sh_in :: "string \<Rightarrow> string \<Rightarrow> string list option" where
  "sh_out cur [] = Some (case cur of None \<Rightarrow> [] | Some w \<Rightarrow> [w])"
| "sh_out cur (c # cs) =
     (let w = case_option [] (\<lambda>w. w) cur in
      if c = CHR 0x20 then
        (case cur of None \<Rightarrow> sh_out None cs | Some w \<Rightarrow> map_option ((#) w) (sh_out None cs))
      else if c = CHR 0x27 then sh_in w cs
      else if c = CHR 0x5C then
        (case cs of [] \<Rightarrow> None | d # ds \<Rightarrow> sh_out (Some (w @ [d])) ds)
      else sh_out (Some (w @ [c])) cs)"
| "sh_in w [] = None"
| "sh_in w (c # cs) = (if c = CHR 0x27 then sh_out (Some w) cs else sh_in (w @ [c]) cs)"

definition shell_words :: "string \<Rightarrow> string list option" where
  "shell_words s = sh_out None s"

lemma plain_not_special: "plain_char c \<Longrightarrow> c \<noteq> CHR 0x20 \<and> c \<noteq> CHR 0x27 \<and> c \<noteq> CHR 0x5C"
  by (auto simp: plain_char_def is_ascii_alphanumeric_def)

lemma sh_out_plain:
  "list_all plain_char a \<Longrightarrow> sh_out (Some w) (a @ rest) = sh_out (Some (w @ a)) rest"
  by (induction a arbitrary: w) (auto dest: plain_not_special)

lemma sh_in_escaped:
  "sh_in w (concat (map escape_char a) @ apos @ rest) = sh_out (Some (w @ a)) rest"
  by (induction a arbitrary: w) (simp_all add: escape_char_def)

lemma sh_out_quoted: "sh_out None (quote_argument a @ rest) = sh_out (Some a) rest"
proof (cases "a \<noteq> [] \<and> list_all plain_char a")
  case True
  then obtain c cs where a: "a = c # cs" and p: "plain_char c" "list_all plain_char cs"
    by (cases a) auto
  with plain_not_special [OF p(1)] have "sh_out None (a @ rest) = sh_out (Some [c]) (cs @ rest)"
    by simp
  with a p(2) True show ?thesis by (simp add: quote_argument_def sh_out_plain)
next
  case False
  then have "quote_argument a = apos @ concat (map escape_char a) @ apos"
    by (auto simp: quote_argument_def)
  then show ?thesis using sh_in_escaped [of "[]" a rest] by simp
qed

lemma sh_out_rest:
  "sh_out (Some w) (concat (map (\<lambda>z. '' '' @ z) (map quote_argument args))) = Some (w # args)"
proof (induction args arbitrary: w)
  case Nil
  show ?case by simp
next
  case (Cons a args)
  show ?case using Cons.IH [of a] by (simp add: sh_out_quoted del: map_map)
qed

lemma shell_words_display:
  "shell_words (CommandSpec_display spec) = Some (program spec # arguments spec)"
  unfolding shell_words_def CommandSpec_display_def join_with_def
  using sh_out_rest [of "program spec" "arguments spec"]
  by (simp add: sh_out_quoted del: map_map append_Cons)

section \<open>The read set\<close>

text \<open>
  The lock around the map fails only when a thread panicked while holding it: the flag
  \<^verbatim>\<open>poisoned\<close>.
\<close>

record ReadSet =
  read_files :: "(string, string) btree_map"
  poisoned :: bool

definition ReadSet_default :: ReadSet where
  "ReadSet_default = \<lparr>read_files = [], poisoned = False\<rparr>"

definition read_set_unavailable :: ToolError where
  "read_set_unavailable = ToolError.Execution ''session read set is unavailable''"

definition ReadSet_observe :: "string \<Rightarrow> string \<Rightarrow> ReadSet \<Rightarrow> (ReadSet, ToolError) result" where
  "ReadSet_observe path sha256 rs =
     (if poisoned rs then Inl read_set_unavailable
      else Inr (rs\<lparr>read_files := bt_insert path sha256 (read_files rs)\<rparr>))"

definition ReadSet_version :: "string \<Rightarrow> ReadSet \<Rightarrow> (string option, ToolError) result" where
  "ReadSet_version path rs =
     (if poisoned rs then Inl read_set_unavailable else Inr (bt_get (read_files rs) path))"

definition ReadSet_clear :: "ReadSet \<Rightarrow> (ReadSet, ToolError) result" where
  "ReadSet_clear rs =
     (if poisoned rs then Inl read_set_unavailable else Inr (rs\<lparr>read_files := []\<rparr>))"

definition ReadSet_entries :: "ReadSet \<Rightarrow> ((string \<times> string) list, ToolError) result" where
  "ReadSet_entries rs = (if poisoned rs then Inl read_set_unavailable else Inr (read_files rs))"

definition ReadSet_restore :: "(string \<times> string) list \<Rightarrow> (ReadSet, ToolError) result" where
  "ReadSet_restore entries =
     replay (\<lambda>(path, sha256). ReadSet_observe path sha256) entries ReadSet_default"

definition ReadSet_wf :: "ReadSet \<Rightarrow> bool" where
  "ReadSet_wf rs = (bt_wf (read_files rs) \<and> \<not> poisoned rs)"

lemmas ReadSet_defs = ReadSet_observe_def ReadSet_version_def ReadSet_clear_def
  ReadSet_entries_def ReadSet_wf_def

lemma restore_fold:
  "\<not> poisoned rs \<Longrightarrow>
     replay (\<lambda>(path, sha256). ReadSet_observe path sha256) entries rs
       = Inr (rs\<lparr>read_files := fold (\<lambda>(k, v). bt_insert k v) entries (read_files rs)\<rparr>)"
  by (induction entries arbitrary: rs) (auto simp: ReadSet_observe_def)

interpretation read_set_fold: guarded_fold "\<lambda>(path, sha256). ReadSet_observe path sha256" ReadSet_wf
  by unfold_locales (auto simp: ReadSet_defs split: if_splits)

lemma ReadSet_restore_eq:
  "ReadSet_restore entries
     = Inr \<lparr>read_files = fold (\<lambda>(k, v). bt_insert k v) entries [], poisoned = False\<rparr>"
  by (simp add: ReadSet_restore_def restore_fold ReadSet_default_def)

lemma fold_bt_insert_get:
  "bt_get (fold (\<lambda>(k, v). bt_insert k v) entries m) k
     = (case map_of (rev entries) k of Some v \<Rightarrow> Some v | None \<Rightarrow> bt_get m k)"
  by (induction entries arbitrary: m) (auto simp: map_add_def split: option.splits)

lemma fold_bt_insert_wf: "bt_wf m \<Longrightarrow> bt_wf (fold (\<lambda>(k, v). bt_insert k v) entries m)"
  by (induction entries arbitrary: m) auto

section \<open>Properties\<close>

text \<open>
  the displayed form of a command is unambiguous: split the way a shell splits words it
  gives back the program and its arguments, whatever bytes they hold, so two different
  commands are never shown the same.
\<close>

theorem command_display_unambiguous:
  "shell_words (CommandSpec_display spec) = Some (program spec # arguments spec)
   \<and> (CommandSpec_display spec = CommandSpec_display other) = (spec = other)"
proof -
  have "CommandSpec_display spec = CommandSpec_display other \<Longrightarrow> spec = other"
    using shell_words_display [of spec] shell_words_display [of other] by simp
  then show ?thesis using shell_words_display [of spec] by auto
qed

text \<open>
  The read set remembers the last observed version of each path, and what it lists
  restores it: a checkpoint's entries rebuild the very same read set.
\<close>

theorem read_set_round_trip:
  "\<exists>rs. ReadSet_restore observations = Inr rs
     \<and> ReadSet_version path rs = Inr (map_of (rev observations) path)
     \<and> and_then (ReadSet_entries rs) ReadSet_restore = Inr rs"
proof -
  let ?rs = "\<lparr>read_files = fold (\<lambda>(k, v). bt_insert k v) observations [], poisoned = False\<rparr>"
  have "bt_wf (read_files ?rs)" by (simp add: fold_bt_insert_wf)
  then show ?thesis
    by (simp add: ReadSet_restore_eq ReadSet_version_def ReadSet_entries_def fold_bt_insert_get
        bt_rebuild_empty split: option.splits)
qed

end
