(* ===== verification/Message.thy ===== *)
theory Message
  imports Model Tool
begin

text \<open>
  The provider-neutral conversation of \<^verbatim>\<open>core/message.rs\<close> and the stream accumulator of
  \<^verbatim>\<open>runtime/session.rs\<close>. A message's id and instant are arguments of the constructors.
  JSON values (\<^verbatim>\<open>serde_json::Value\<close>) are carried by tool calls; the model has their six
  documented forms.
\<close>

section \<open>JSON values\<close>

datatype JsonNumber = PosInt u64 | NegInt i64 | Float u64

datatype Json =
    JNull
  | JBool bool
  | JNumber JsonNumber
  | JString string
  | JArray "Json list"
  | JObject "(string \<times> Json) list"

definition json_get :: "string \<Rightarrow> Json \<Rightarrow> Json option" where
  "json_get key v = (case v of JObject kvs \<Rightarrow> map_of kvs key | _ \<Rightarrow> None)"

definition json_as_array :: "Json \<Rightarrow> Json list option" where
  "json_as_array v = (case v of JArray xs \<Rightarrow> Some xs | _ \<Rightarrow> None)"

definition json_as_u64 :: "Json \<Rightarrow> u64 option" where
  "json_as_u64 v = (case v of JNumber (PosInt n) \<Rightarrow> Some n | _ \<Rightarrow> None)"

definition json_as_str :: "Json \<Rightarrow> string option" where
  "json_as_str v = (case v of JString s \<Rightarrow> Some s | _ \<Rightarrow> None)"

section \<open>Messages\<close>

datatype Role = System | User | Assistant | Tool

record ToolCall =
  call_id :: string
  call_name :: string
  call_arguments :: Json
  provider_signature :: "string option"

datatype ToolOutcome = Ok | Refused ReasonCode | Failed ReasonCode

datatype ToolEffect =
    NoEffect
  | Read string string
  | Mutation string string
  | Command "i32 option" bool u64
  | Completion string
  | SkillActivated string bool

definition ToolOutcome_reason_code :: "ToolOutcome \<Rightarrow> ReasonCode option" where
  "ToolOutcome_reason_code outcome = (case outcome of
      ToolOutcome.Ok \<Rightarrow> None
    | ToolOutcome.Refused code \<Rightarrow> Some code
    | ToolOutcome.Failed code \<Rightarrow> Some code)"

definition ToolOutcome_is_ok :: "ToolOutcome \<Rightarrow> bool" where
  "ToolOutcome_is_ok outcome = (outcome = ToolOutcome.Ok)"

record ToolResult =
  result_outcome :: ToolOutcome
  result_content :: string
  truncated :: bool
  effect :: ToolEffect
  evidence_event_id :: "string option"

definition ToolResult_ok :: "string \<Rightarrow> ToolResult" where
  "ToolResult_ok c = \<lparr>result_outcome = ToolOutcome.Ok, result_content = c, truncated = False,
     effect = NoEffect, evidence_event_id = None\<rparr>"

definition ToolResult_refused :: "ReasonCode \<Rightarrow> string \<Rightarrow> ToolResult" where
  "ToolResult_refused code c = \<lparr>result_outcome = ToolOutcome.Refused code, result_content = c,
     truncated = False, effect = NoEffect, evidence_event_id = None\<rparr>"

definition ToolResult_failed :: "ReasonCode \<Rightarrow> string \<Rightarrow> ToolResult" where
  "ToolResult_failed code c = \<lparr>result_outcome = ToolOutcome.Failed code, result_content = c,
     truncated = False, effect = NoEffect, evidence_event_id = None\<rparr>"

definition with_effect :: "ToolResult \<Rightarrow> ToolEffect \<Rightarrow> ToolResult" where
  "with_effect r e = r\<lparr>effect := e\<rparr>"

datatype ContentBlock =
    Text string
  | ImageRef string string
  | ToolCallBlock ToolCall
  | ToolResultBlock string string ToolResult

record CanonicalMessage =
  message_id :: uuid
  role :: Role
  blocks :: "ContentBlock list"
  message_provider :: "ProviderId option"
  message_model :: "ModelId option"
  created_at :: instant

definition message_system :: "uuid \<Rightarrow> instant \<Rightarrow> string \<Rightarrow> CanonicalMessage" where
  "message_system i now text = \<lparr>message_id = i, role = System, blocks = [Text text],
     message_provider = None, message_model = None, created_at = now\<rparr>"

definition message_user :: "uuid \<Rightarrow> instant \<Rightarrow> string \<Rightarrow> CanonicalMessage" where
  "message_user i now text = \<lparr>message_id = i, role = User, blocks = [Text text],
     message_provider = None, message_model = None, created_at = now\<rparr>"

definition message_assistant ::
  "uuid \<Rightarrow> instant \<Rightarrow> ContentBlock list \<Rightarrow> ProviderId \<Rightarrow> ModelId \<Rightarrow> CanonicalMessage" where
  "message_assistant i now bs p m = \<lparr>message_id = i, role = Assistant, blocks = bs,
     message_provider = Some p, message_model = Some m, created_at = now\<rparr>"

definition message_tool_result ::
  "uuid \<Rightarrow> instant \<Rightarrow> string \<Rightarrow> string \<Rightarrow> ToolResult \<Rightarrow> CanonicalMessage" where
  "message_tool_result i now cid name result = \<lparr>message_id = i, role = Tool,
     blocks = [ToolResultBlock cid name result],
     message_provider = None, message_model = None, created_at = now\<rparr>"

definition message_text :: "CanonicalMessage \<Rightarrow> string" where
  "message_text m = concat (List.map_filter
     (\<lambda>block. case block of Text t \<Rightarrow> Some t | _ \<Rightarrow> None) (blocks m))"

definition message_tool_calls :: "CanonicalMessage \<Rightarrow> ToolCall list" where
  "message_tool_calls m = List.map_filter
     (\<lambda>block. case block of ToolCallBlock call \<Rightarrow> Some call | _ \<Rightarrow> None) (blocks m)"

record TranscriptEntry =
  entry_sequence :: "u64 option"
  entry_message :: CanonicalMessage

definition anchored :: "u64 \<Rightarrow> CanonicalMessage \<Rightarrow> TranscriptEntry" where
  "anchored sequence m = \<lparr>entry_sequence = Some sequence, entry_message = m\<rparr>"

definition unanchored :: "CanonicalMessage \<Rightarrow> TranscriptEntry" where
  "unanchored m = \<lparr>entry_sequence = None, entry_message = m\<rparr>"

section \<open>The stream accumulator\<close>

record StreamAccumulator =
  acc_text :: string
  pending_arguments :: "(string \<times> string) list"
  completed_calls :: "ToolCall list"
  acc_usage :: "Usage option"
  unknown_upstream :: "string list"

definition StreamAccumulator_default :: StreamAccumulator where
  "StreamAccumulator_default = \<lparr>acc_text = [], pending_arguments = [], completed_calls = [],
     acc_usage = None, unknown_upstream = []\<rparr>"

definition push_text :: "string \<Rightarrow> StreamAccumulator \<Rightarrow> StreamAccumulator" where
  "push_text fragment a = a\<lparr>acc_text := acc_text a @ fragment\<rparr>"

definition start_tool_call :: "string \<Rightarrow> StreamAccumulator \<Rightarrow> StreamAccumulator" where
  "start_tool_call i a =
     (if \<not> list_ex (\<lambda>(key, _). key = i) (pending_arguments a)
      then a\<lparr>pending_arguments := pending_arguments a @ [(i, [])]\<rparr> else a)"

definition push_arguments :: "string \<Rightarrow> string \<Rightarrow> StreamAccumulator \<Rightarrow> StreamAccumulator" where
  "push_arguments i fragment a =
     (if list_ex (\<lambda>(key, _). key = i) (pending_arguments a)
      then a\<lparr>pending_arguments := bt_modify i (\<lambda>buffer. buffer @ fragment) (pending_arguments a)\<rparr>
      else a\<lparr>pending_arguments := pending_arguments a @ [(i, fragment)]\<rparr>)"

definition complete_tool_call :: "ToolCall \<Rightarrow> StreamAccumulator \<Rightarrow> StreamAccumulator" where
  "complete_tool_call call a = a\<lparr>
     pending_arguments := filter (\<lambda>(key, _). key \<noteq> call_id call) (pending_arguments a),
     completed_calls := completed_calls a @ [call]\<rparr>"

definition set_usage :: "Usage \<Rightarrow> StreamAccumulator \<Rightarrow> StreamAccumulator" where
  "set_usage u a = a\<lparr>acc_usage := Some u\<rparr>"

definition note_unknown :: "string \<Rightarrow> StreamAccumulator \<Rightarrow> StreamAccumulator" where
  "note_unknown kind a = a\<lparr>unknown_upstream := unknown_upstream a @ [kind]\<rparr>"

definition unterminated_calls :: "StreamAccumulator \<Rightarrow> nat" where
  "unterminated_calls a = length (pending_arguments a)"

definition finish ::
  "uuid \<Rightarrow> instant \<Rightarrow> StreamAccumulator \<Rightarrow> ProviderId \<Rightarrow> ModelId \<Rightarrow> CanonicalMessage option" where
  "finish i now a p m =
     (let bs = (if acc_text a \<noteq> [] then [Text (acc_text a)] else [])
               @ map ToolCallBlock (completed_calls a)
      in if bs = [] then None else Some (message_assistant i now bs p m))"

text \<open>The fragments a stream sends, and the accumulator after all of them.\<close>

datatype StreamPiece =
    TextPiece string
  | StartPiece string
  | ArgumentsPiece string string
  | CompletePiece ToolCall
  | UsagePiece Usage
  | UnknownPiece string

fun accumulate1 :: "StreamPiece \<Rightarrow> StreamAccumulator \<Rightarrow> StreamAccumulator" where
  "accumulate1 (TextPiece t) a = push_text t a"
| "accumulate1 (StartPiece i) a = start_tool_call i a"
| "accumulate1 (ArgumentsPiece i f) a = push_arguments i f a"
| "accumulate1 (CompletePiece c) a = complete_tool_call c a"
| "accumulate1 (UsagePiece u) a = set_usage u a"
| "accumulate1 (UnknownPiece k) a = note_unknown k a"

definition accumulate :: "StreamPiece list \<Rightarrow> StreamAccumulator" where
  "accumulate ps = fold accumulate1 ps StreamAccumulator_default"

fun piece_text :: "StreamPiece \<Rightarrow> string" where
  "piece_text (TextPiece t) = t"
| "piece_text _ = []"

fun piece_call :: "StreamPiece \<Rightarrow> ToolCall list" where
  "piece_call (CompletePiece c) = [c]"
| "piece_call _ = []"

lemmas accumulator_defs = push_text_def start_tool_call_def push_arguments_def
  complete_tool_call_def set_usage_def note_unknown_def

lemma accumulate1_text: "acc_text (accumulate1 p a) = acc_text a @ piece_text p"
  by (cases p) (simp_all add: accumulator_defs)

lemma accumulate1_calls: "completed_calls (accumulate1 p a) = completed_calls a @ piece_call p"
  by (cases p) (simp_all add: accumulator_defs)

lemma fold_accumulate_text:
  "acc_text (fold accumulate1 ps a) = acc_text a @ concat (map piece_text ps)"
  by (induction ps arbitrary: a) (simp_all add: accumulate1_text)

lemma fold_accumulate_calls:
  "completed_calls (fold accumulate1 ps a) = completed_calls a @ concat (map piece_call ps)"
  by (induction ps arbitrary: a) (simp_all add: accumulate1_calls)

lemma map_fst_filter_keys:
  "distinct (map fst xs) \<Longrightarrow> distinct (map fst (filter P xs))"
  by (induction xs) auto

lemma accumulate1_distinct:
  "distinct (map fst (pending_arguments a)) \<Longrightarrow>
     distinct (map fst (pending_arguments (accumulate1 p a)))"
  by (cases p) (auto simp: accumulator_defs list_ex_iff map_fst_filter_keys)

lemma accumulate_distinct: "distinct (map fst (pending_arguments (accumulate ps)))"
proof -
  have "distinct (map fst (pending_arguments a)) \<Longrightarrow>
          distinct (map fst (pending_arguments (fold accumulate1 ps a)))" for a
    by (induction ps arbitrary: a) (auto intro: accumulate1_distinct)
  then show ?thesis by (simp add: accumulate_def StreamAccumulator_default_def)
qed

lemma map_filter_Text [simp]:
  "List.map_filter (\<lambda>block. case block of Text t \<Rightarrow> Some t | _ \<Rightarrow> None) (map ToolCallBlock cs) = []"
  by (induction cs) (simp_all add: map_filter_simps)

lemma map_filter_ToolCall [simp]:
  "List.map_filter (\<lambda>block. case block of ToolCallBlock call \<Rightarrow> Some call | _ \<Rightarrow> None)
     (map ToolCallBlock cs) = cs"
  by (induction cs) (simp_all add: map_filter_simps)

text \<open>
  The reference view of one call: the arguments received since it was last opened, if it is
  open.
\<close>

fun call_view :: "string \<Rightarrow> StreamPiece \<Rightarrow> string option \<Rightarrow> string option" where
  "call_view i (StartPiece j) v = (if i = j \<and> v = None then Some [] else v)"
| "call_view i (ArgumentsPiece j f) v = (if i = j then Some (case_option [] (\<lambda>b. b) v @ f) else v)"
| "call_view i (CompletePiece c) v = (if i = call_id c then None else v)"
| "call_view i _ v = v"

lemma list_ex_key: "list_ex (\<lambda>(key, _). key = i) m \<longleftrightarrow> map_of m i \<noteq> None"
  by (force simp: list_ex_iff map_of_eq_None_iff)

lemma map_of_filter_key: "map_of (filter (\<lambda>(key, _). key \<noteq> k) m) i = (if i = k then None else map_of m i)"
  by (induction m) auto

lemma accumulate1_view:
  "map_of (pending_arguments (accumulate1 p a)) i = call_view i p (map_of (pending_arguments a) i)"
  using bt_get_modify [where m = "pending_arguments a"]
  by (cases p) (auto simp: accumulator_defs list_ex_key map_of_filter_key map_add_def
      bt_get_def split: option.splits)

lemma fold_accumulate_view:
  "map_of (pending_arguments (fold accumulate1 ps a)) i
     = fold (call_view i) ps (map_of (pending_arguments a) i)"
  by (induction ps arbitrary: a) (simp_all add: accumulate1_view)

section \<open>Properties\<close>

text \<open>
  The message a stream is closed into holds its text fragments in order and its completed
  calls in order and nothing else; there is no message exactly if there was neither.
\<close>

theorem stream_message_faithful:
  "case finish i now (accumulate ps) p m of
     None \<Rightarrow> concat (map piece_text ps) = [] \<and> concat (map piece_call ps) = []
   | Some msg \<Rightarrow> message_text msg = concat (map piece_text ps)
       \<and> message_tool_calls msg = concat (map piece_call ps)
       \<and> blocks msg \<noteq> []"
  using fold_accumulate_text [of ps StreamAccumulator_default]
    fold_accumulate_calls [of ps StreamAccumulator_default]
  by (auto simp: finish_def accumulate_def StreamAccumulator_default_def message_text_def
      message_tool_calls_def message_assistant_def Let_def map_filter_simps)

text \<open>
  Concurrent calls of one stream do not mix: the arguments buffered under an id are the
  concatenation of that id's own fragments since it was opened, and an id has one buffer.
\<close>

theorem stream_calls_separate:
  "map_of (pending_arguments (accumulate ps)) i = fold (call_view i) ps None
   \<and> distinct (map fst (pending_arguments (accumulate ps)))"
  using fold_accumulate_view [of ps StreamAccumulator_default i] accumulate_distinct
  by (simp add: accumulate_def StreamAccumulator_default_def)

end
