(* ===== verification/Envelope.thy ===== *)
theory Envelope
  imports Policy Message
begin

text \<open>
  Spawn envelopes (\<^verbatim>\<open>core/envelope.rs\<close>): a standing authorisation for a bounded number of
  subagents, its validation against the session's policy, and the draws against it. All
  counters are 32-bit and saturate.
\<close>

definition MAX_ENVELOPE_CHILDREN :: u32 where "MAX_ENVELOPE_CHILDREN = 64"
definition MAX_ENVELOPE_PER_CALL :: u32 where "MAX_ENVELOPE_PER_CALL = 16"
definition MAX_ENVELOPE_TURNS :: u32 where "MAX_ENVELOPE_TURNS = 200"
definition DEFAULT_TURNS_PER_CHILD :: u32 where "DEFAULT_TURNS_PER_CHILD = 8"

record SpawnEnvelope =
  ceiling_mode :: PolicyMode
  max_children :: u32
  max_per_call :: u32
  max_provider_turns :: u32
  env_routes :: "string list"
  expires_after_turns :: u32

definition for_children :: "u32 \<Rightarrow> PolicyMode \<Rightarrow> u32 \<Rightarrow> SpawnEnvelope" where
  "for_children children c expires = \<lparr>ceiling_mode = c, max_children = children,
     max_per_call = min children MAX_ENVELOPE_PER_CALL,
     max_provider_turns = min (sat_mul children DEFAULT_TURNS_PER_CHILD) MAX_ENVELOPE_TURNS,
     env_routes = [], expires_after_turns = expires\<rparr>"

datatype EnvelopeRefusal =
    CeilingExceedsPolicy PolicyMode PolicyMode
  | BoundTooLarge string u32
  | BoundIsZero string
  | PerCallExceeded u32 u32
  | Exhausted u32 u32
  | RouteNotCovered string
  | TurnsExhausted u32 u32

definition EnvelopeRefusal_detail :: "EnvelopeRefusal \<Rightarrow> string" where
  "EnvelopeRefusal_detail r = (case r of
      CeilingExceedsPolicy c p \<Rightarrow>
        ''an envelope ceiling of `'' @ PolicyMode_label c
        @ ''` is wider than this session'' @ apos @ ''s `'' @ PolicyMode_label p @ ''` policy''
    | BoundTooLarge field limit \<Rightarrow> field @ '' is above the maximum of '' @ show_u32 limit
    | BoundIsZero field \<Rightarrow> field @ '' is zero, which would authorise nothing''
    | PerCallExceeded asked allowed \<Rightarrow>
        ''this spawn asked for '' @ show_u32 asked @ '' children; one call may draw ''
        @ show_u32 allowed
    | Exhausted asked remaining \<Rightarrow>
        ''this spawn asked for '' @ show_u32 asked @ '' children; '' @ show_u32 remaining
        @ '' remain in the envelope''
    | RouteNotCovered route \<Rightarrow> ''the envelope does not cover route `'' @ route @ ''`''
    | TurnsExhausted asked remaining \<Rightarrow>
        ''this spawn needs '' @ show_u32 asked @ '' provider turns; '' @ show_u32 remaining
        @ '' remain in the envelope'')"

definition clamp_ceiling :: "PolicyMode \<Rightarrow> PolicyMode \<Rightarrow> PolicyMode" where
  "clamp_ceiling policy c = (case (policy, c) of
      (PolicyMode.ReadOnly, _) \<Rightarrow> PolicyMode.ReadOnly
    | (_, PolicyMode.ReadOnly) \<Rightarrow> PolicyMode.ReadOnly
    | (PolicyMode.FullAuto, PolicyMode.FullAuto) \<Rightarrow> PolicyMode.FullAuto
    | _ \<Rightarrow> PolicyMode.WorkspaceWrite)"

fun check_bounds :: "(string \<times> u32 \<times> u32) list \<Rightarrow> (unit, EnvelopeRefusal) result" where
  "check_bounds [] = Inr ()"
| "check_bounds ((field, v, limit) # rest) =
     (if v = 0 then Inl (BoundIsZero field)
      else if limit < v then Inl (BoundTooLarge field limit)
      else check_bounds rest)"

definition envelope_validate :: "SpawnEnvelope \<Rightarrow> PolicyMode \<Rightarrow> (unit, EnvelopeRefusal) result" where
  "envelope_validate e policy =
     (if clamp_ceiling policy (ceiling_mode e) \<noteq> ceiling_mode e
      then Inl (CeilingExceedsPolicy (ceiling_mode e) policy)
      else check_bounds [
        (''max_children'', max_children e, MAX_ENVELOPE_CHILDREN),
        (''max_per_call'', max_per_call e, MAX_ENVELOPE_PER_CALL),
        (''max_provider_turns'', max_provider_turns e, MAX_ENVELOPE_TURNS),
        (''expires_after_turns'', expires_after_turns e, MAX_ENVELOPE_TURNS)])"

record ActiveEnvelope =
  envelope :: SpawnEnvelope
  children_drawn :: u32
  turns_drawn :: u32
  turns_elapsed :: u32

definition active_new :: "SpawnEnvelope \<Rightarrow> ActiveEnvelope" where
  "active_new e = \<lparr>envelope = e, children_drawn = 0, turns_drawn = 0, turns_elapsed = 0\<rparr>"

definition children_remaining :: "ActiveEnvelope \<Rightarrow> u32" where
  "children_remaining a = sat_sub (max_children (envelope a)) (children_drawn a)"

definition turns_remaining :: "ActiveEnvelope \<Rightarrow> u32" where
  "turns_remaining a = sat_sub (max_provider_turns (envelope a)) (turns_drawn a)"

definition expired :: "ActiveEnvelope \<Rightarrow> bool" where
  "expired a = (turns_elapsed a \<ge> expires_after_turns (envelope a))"

definition exhausted :: "ActiveEnvelope \<Rightarrow> bool" where
  "exhausted a = (children_remaining a = 0 \<or> turns_remaining a = 0)"

definition check_draw ::
  "ActiveEnvelope \<Rightarrow> u32 \<Rightarrow> u32 \<Rightarrow> string list \<Rightarrow> (unit, EnvelopeRefusal) result" where
  "check_draw a children turns routes =
     (if children > max_per_call (envelope a)
      then Inl (PerCallExceeded children (max_per_call (envelope a)))
      else if children > children_remaining a
      then Inl (Exhausted children (children_remaining a))
      else if turns > turns_remaining a
      then Inl (TurnsExhausted turns (turns_remaining a))
      else if env_routes (envelope a) \<noteq> []
      then (case find (\<lambda>route. route \<notin> set (env_routes (envelope a))) routes of
              Some route \<Rightarrow> Inl (RouteNotCovered route)
            | None \<Rightarrow> Inr ())
      else Inr ())"

definition draw :: "u32 \<Rightarrow> u32 \<Rightarrow> ActiveEnvelope \<Rightarrow> ActiveEnvelope" where
  "draw children turns a = a\<lparr>children_drawn := sat_add (children_drawn a) children,
     turns_drawn := sat_add (turns_drawn a) turns\<rparr>"

definition tick :: "ActiveEnvelope \<Rightarrow> bool \<times> ActiveEnvelope" where
  "tick a = (let a' = a\<lparr>turns_elapsed := sat_add (turns_elapsed a) 1\<rparr> in (expired a', a'))"

section \<open>Draws\<close>

text \<open>A draw is made only if its check accepts it; the accepted draws are collected.\<close>

definition try_draw ::
  "u32 \<times> u32 \<times> string list \<Rightarrow> ActiveEnvelope \<Rightarrow> (ActiveEnvelope, EnvelopeRefusal) result" where
  "try_draw d a = (case d of (children, turns, routes) \<Rightarrow>
     map_ok (\<lambda>_. draw children turns a) (check_draw a children turns routes))"

definition envelope_inv :: "ActiveEnvelope \<Rightarrow> bool" where
  [inv_defs]: "envelope_inv a \<longleftrightarrow>
     unat (children_drawn a) \<le> unat (max_children (envelope a))
     \<and> unat (turns_drawn a) \<le> unat (max_provider_turns (envelope a))"

lemma check_draw_Inr:
  "check_draw a c t rs = Inr () \<longleftrightarrow>
     c \<le> max_per_call (envelope a) \<and> c \<le> children_remaining a \<and> t \<le> turns_remaining a
     \<and> (env_routes (envelope a) = [] \<or> set rs \<subseteq> set (env_routes (envelope a)))"
  by (auto simp: check_draw_def not_less find_None_iff split: option.splits
      dest: find_Some_in_set)

lemma draw_frame [simp]:
  "envelope (draw c t a) = envelope a"
  "turns_elapsed (draw c t a) = turns_elapsed a"
  by (simp_all add: draw_def)

lemma check_draw_room:
  assumes "check_draw a c t rs = Inr ()" and "envelope_inv a"
  shows "unat (children_drawn a) + unat c \<le> unat (max_children (envelope a))"
    and "unat (turns_drawn a) + unat t \<le> unat (max_provider_turns (envelope a))"
proof -
  from assms(1) have "unat c \<le> unat (children_remaining a)" "unat t \<le> unat (turns_remaining a)"
    by (simp_all add: check_draw_Inr word_le_nat_alt)
  with assms(2) show "unat (children_drawn a) + unat c \<le> unat (max_children (envelope a))"
    and "unat (turns_drawn a) + unat t \<le> unat (max_provider_turns (envelope a))"
    by (auto simp: children_remaining_def turns_remaining_def unat_sat_sub envelope_inv_def)
qed

lemma draw_exact:
  assumes "check_draw a c t rs = Inr ()" and "envelope_inv a"
  shows "unat (children_drawn (draw c t a)) = unat (children_drawn a) + unat c"
    and "unat (turns_drawn (draw c t a)) = unat (turns_drawn a) + unat t"
  using check_draw_room [OF assms] unat_u32_le [of "max_children (envelope a)"]
    unat_u32_le [of "max_provider_turns (envelope a)"]
  by (simp_all add: draw_def unat_sat_add)

lemma try_draw_inv: "envelope_inv a \<Longrightarrow> try_draw d a = Inr b \<Longrightarrow> envelope_inv b"
proof -
  assume inv: "envelope_inv a" and step: "try_draw d a = Inr b"
  obtain c t rs where d: "d = (c, t, rs)" by (cases d) auto
  with step have ok: "check_draw a c t rs = Inr ()" and b: "b = draw c t a"
    by (auto simp: try_draw_def map_ok_Inr)
  show ?thesis
    using check_draw_room [OF ok inv] draw_exact [OF ok inv] b by (simp add: envelope_inv_def)
qed

interpretation envelope_draws: guarded_fold try_draw envelope_inv
  by unfold_locales (rule try_draw_inv)

lemma envelope_inv_new: "envelope_inv (active_new e)"
  by (simp add: envelope_inv_def active_new_def)

text \<open>The children and turns of a list of draws, in total.\<close>

definition drawn_children :: "(u32 \<times> u32 \<times> string list) list \<Rightarrow> nat" where
  "drawn_children ds = (\<Sum>(c, _, _) \<leftarrow> ds. unat c)"

definition drawn_turns :: "(u32 \<times> u32 \<times> string list) list \<Rightarrow> nat" where
  "drawn_turns ds = (\<Sum>(_, t, _) \<leftarrow> ds. unat t)"

lemma replay_draws_totals:
  "replay try_draw ds a = Inr b \<Longrightarrow> envelope_inv a \<Longrightarrow>
     envelope b = envelope a
     \<and> unat (children_drawn b) = unat (children_drawn a) + drawn_children ds
     \<and> unat (turns_drawn b) = unat (turns_drawn a) + drawn_turns ds
     \<and> (\<forall>(c, _, _) \<in> set ds. c \<le> max_per_call (envelope a))"
proof (induction ds arbitrary: a)
  case Nil
  then show ?case by (simp add: drawn_children_def drawn_turns_def)
next
  case (Cons d ds)
  obtain c t rs where d: "d = (c, t, rs)" by (cases d) auto
  from Cons.prems(1) obtain u where u: "try_draw d a = Inr u" and rest: "replay try_draw ds u = Inr b"
    by (auto simp: and_then_Inr)
  from u d have ok: "check_draw a c t rs = Inr ()" and eq: "u = draw c t a"
    by (auto simp: try_draw_def map_ok_Inr)
  from u Cons.prems(2) have "envelope_inv u" by (rule try_draw_inv [rotated])
  note IH = Cons.IH [OF rest this]
  from ok have "c \<le> max_per_call (envelope a)" by (simp add: check_draw_Inr)
  with IH draw_exact [OF ok Cons.prems(2)] show ?case
    by (auto simp: d eq drawn_children_def drawn_turns_def)
qed

lemma check_bounds_Inr:
  "check_bounds bs = Inr () \<longleftrightarrow> (\<forall>(_, v, limit) \<in> set bs. v \<noteq> 0 \<and> v \<le> limit)"
  by (induction bs rule: check_bounds.induct) (auto simp: not_less)

lemma envelope_validate_Inr:
  "envelope_validate e p = Inr () \<longleftrightarrow>
     clamp_ceiling p (ceiling_mode e) = ceiling_mode e
     \<and> (0 < max_children e \<and> max_children e \<le> MAX_ENVELOPE_CHILDREN)
     \<and> (0 < max_per_call e \<and> max_per_call e \<le> MAX_ENVELOPE_PER_CALL)
     \<and> (0 < max_provider_turns e \<and> max_provider_turns e \<le> MAX_ENVELOPE_TURNS)
     \<and> (0 < expires_after_turns e \<and> expires_after_turns e \<le> MAX_ENVELOPE_TURNS)"
  by (auto simp: envelope_validate_def check_bounds_Inr word_neq_0_conv)

lemma tick_expires:
  "turns_elapsed a = 0 \<Longrightarrow> k < 2 ^ 32 \<Longrightarrow>
     turns_elapsed (((\<lambda>a. snd (tick a)) ^^ k) a) = of_nat k
     \<and> envelope (((\<lambda>a. snd (tick a)) ^^ k) a) = envelope a"
proof (induction k)
  case 0
  then show ?case by simp
next
  case (Suc k)
  then have "unat (of_nat k :: u32) = k" by (simp add: unat_of_nat)
  with Suc show ?case by (simp add: tick_def Let_def sat_add_def unat_of_nat)
qed

lemmas envelope_caps = MAX_ENVELOPE_CHILDREN_def MAX_ENVELOPE_PER_CALL_def
  MAX_ENVELOPE_TURNS_def DEFAULT_TURNS_PER_CHILD_def

lemma clamp_ceiling_fixed:
  "clamp_ceiling policy c = c \<longleftrightarrow>
     c = PolicyMode.ReadOnly \<or> (c = PolicyMode.WorkspaceWrite \<and> policy \<noteq> PolicyMode.ReadOnly)
     \<or> (c = PolicyMode.FullAuto \<and> policy = PolicyMode.FullAuto)"
  by (cases policy; cases c) (simp_all add: clamp_ceiling_def)

text \<open>
  The ceiling is not the narrower of the two modes: under \<^verbatim>\<open>ask\<close> a wider ceiling passes, and
  an \<^verbatim>\<open>ask\<close> ceiling passes under no policy.
\<close>

lemma ask_session_arms_wider_ceiling:
  "clamp_ceiling PolicyMode.Ask PolicyMode.WorkspaceWrite = PolicyMode.WorkspaceWrite"
  "mode_width PolicyMode.Ask < mode_width PolicyMode.WorkspaceWrite"
  "clamp_ceiling policy PolicyMode.Ask \<noteq> PolicyMode.Ask"
  by (simp_all add: clamp_ceiling_fixed)

section \<open>Properties\<close>

text \<open>
  C21: a spawn envelope is a hard bound. Whatever draws it accepted since it was armed, the
  children and provider turns they add up to stay within what the human granted and within
  the fixed caps, no call took more than its per-call share, the counters are exact (they never
  saturate), and the children's mode is read-only, or workspace-write under a policy that is
  not read-only, or full-auto under full-auto.
\<close>

theorem envelope_bounds_draws:
  assumes "envelope_validate e policy = Inr ()"
    and "replay try_draw ds (active_new e) = Inr a"
  shows "drawn_children ds \<le> unat (max_children e) \<and> drawn_turns ds \<le> unat (max_provider_turns e)
    \<and> unat (max_children e) \<le> 64 \<and> unat (max_provider_turns e) \<le> 200
    \<and> (\<forall>(c, _, _) \<in> set ds. c \<le> max_per_call e)
    \<and> unat (children_remaining a) = unat (max_children e) - drawn_children ds
    \<and> unat (turns_remaining a) = unat (max_provider_turns e) - drawn_turns ds
    \<and> (ceiling_mode e = PolicyMode.ReadOnly
       \<or> (ceiling_mode e = PolicyMode.WorkspaceWrite \<and> policy \<noteq> PolicyMode.ReadOnly)
       \<or> (ceiling_mode e = PolicyMode.FullAuto \<and> policy = PolicyMode.FullAuto))"
proof -
  from assms(1) have v: "clamp_ceiling policy (ceiling_mode e) = ceiling_mode e"
    "max_children e \<le> 64" "max_provider_turns e \<le> 200"
    by (simp_all add: envelope_validate_Inr MAX_ENVELOPE_CHILDREN_def MAX_ENVELOPE_TURNS_def)
  note v(1) [unfolded clamp_ceiling_fixed]
  moreover from v(2,3) have "unat (max_children e) \<le> 64" "unat (max_provider_turns e) \<le> 200"
    by (simp_all add: word_le_nat_alt)
  moreover note replay_draws_totals [OF assms(2) envelope_inv_new]
    envelope_draws.replay_inv [OF envelope_inv_new assms(2)]
  ultimately show ?thesis
    by (auto simp: active_new_def envelope_inv_def children_remaining_def turns_remaining_def
        unat_sat_sub)
qed

theorem envelope_bounds_draws_witness:
  "drawn_children [(2, 10, []), (1, 5, [])]
     \<le> unat (max_children (for_children 3 PolicyMode.WorkspaceWrite 10))"
  using envelope_bounds_draws [of "for_children 3 PolicyMode.WorkspaceWrite 10" PolicyMode.Ask
      "[(2, 10, []), (1, 5, [])]"
      "draw 1 5 (draw 2 10 (active_new (for_children 3 PolicyMode.WorkspaceWrite 10)))"]
  by (simp add: envelope_validate_Inr for_children_def clamp_ceiling_def envelope_caps
      try_draw_def check_draw_def draw_def active_new_def children_remaining_def
      turns_remaining_def sat_mul_def sat_sub_def sat_add_def min_def)

text \<open>
  an envelope lapses on time: the tick that ends turn k reports the lapse exactly if k
  turns are all it was granted.
\<close>

theorem envelope_lapses_on_time:
  assumes "Suc k < 2 ^ 32"
  shows "fst (tick (((\<lambda>a. snd (tick a)) ^^ k) (active_new e)))
    = (unat (expires_after_turns e) \<le> Suc k)"
proof -
  let ?a = "((\<lambda>a. snd (tick a)) ^^ Suc k) (active_new e)"
  have "turns_elapsed ?a = of_nat (Suc k) \<and> envelope ?a = e"
    using tick_expires [of "active_new e" "Suc k"] assms by (simp add: active_new_def)
  moreover have "unat (of_nat (Suc k) :: u32) = Suc k"
    using assms by (subst unat_of_nat) simp
  moreover have "fst (tick (((\<lambda>a. snd (tick a)) ^^ k) (active_new e))) = expired ?a"
    by (simp add: tick_def Let_def)
  ultimately show ?thesis by (simp add: expired_def word_le_nat_alt)
qed

theorem envelope_lapses_on_time_witness:
  "\<not> fst (tick (active_new (for_children 3 PolicyMode.ReadOnly 2)))"
  using envelope_lapses_on_time [of 0 "for_children 3 PolicyMode.ReadOnly 2"]
  by (simp add: for_children_def)

end
