(* ===== verification/Plan.thy ===== *)
theory Plan
  imports Model Contracts
begin

text \<open>
  The plan workflow of \<^verbatim>\<open>core/plan.rs\<close>: the records of an interview, a product requirements
  document, proposals, reviews, approvals and handoffs, the validation of what a model
  returns, and the workflow's state machine. Every operation is the whole method: its
  guards in the code's order, its state change, its refusals.

  The JSON parser is third-party code: it is an argument of the two parsers. The instants
  and ids are arguments.
\<close>

section \<open>Data\<close>

definition MAX_INTERVIEW_GOAL_CHARS :: nat where "MAX_INTERVIEW_GOAL_CHARS = 8000"
definition MAX_INTERVIEW_QUESTIONS :: nat where "MAX_INTERVIEW_QUESTIONS = 8"
definition MAX_INTERVIEW_FIELD_CHARS :: nat where "MAX_INTERVIEW_FIELD_CHARS = 4000"
definition MAX_PRD_REQUIREMENTS :: nat where "MAX_PRD_REQUIREMENTS = 32"

record PrdRequirement =
  req_id :: string
  req_title :: string
  req_description :: string

record ProductRequirementsDocument =
  prd_id :: PrdId
  prd_plan_id :: PlanId
  prd_title :: string
  prd_problem :: string
  prd_users :: "string list"
  prd_requirements :: "PrdRequirement list"
  prd_acceptance_criteria :: "string list"
  prd_non_goals :: "string list"
  prd_constraints :: "string list"
  prd_created_at :: instant

datatype InterviewResponse =
    QuestionResponse string "string list" bool
  | PrdResponse string string "string list" "PrdRequirement list" "string list" "string list"
      "string list"

record PlanStepDraft =
  draft_step_title :: string
  draft_step_description :: string

record PlanDraft =
  draft_title :: string
  draft_summary :: string
  draft_steps :: "PlanStepDraft list"

datatype RevisionId = RevisionId (rev_value: u32)

definition RevisionId_initial :: RevisionId where
  "RevisionId_initial = RevisionId 1"

definition RevisionId_next :: "RevisionId \<Rightarrow> RevisionId" where
  "RevisionId_next r = RevisionId (sat_add (rev_value r) 1)"

record Question =
  question_id :: QuestionId
  prompt :: string
  options :: "string list"
  is_multi_select :: bool
  question_created_at :: instant

record QuestionAnswer =
  answer_question_id :: QuestionId
  selected_options :: "string list"
  freeform_text :: "string option"
  answered_at :: instant

record PlanStep =
  step_index :: nat
  step_title :: string
  step_description :: string

record PlanProposal =
  proposal_plan_id :: PlanId
  proposal_revision_id :: RevisionId
  proposal_title :: string
  proposal_summary :: string
  proposal_steps :: "PlanStep list"
  proposed_at :: instant

datatype ReviewVerdict = Approve | Iterate | Reject

record PlanReview =
  review_plan_id :: PlanId
  review_revision_id :: RevisionId
  reviewer :: string
  verdict :: ReviewVerdict
  feedback :: string
  reviewed_at :: instant

record PlanApproval =
  approval_plan_id :: PlanId
  approval_revision_id :: RevisionId
  approver :: string
  decision :: ReviewVerdict
  approval_note :: "string option"
  approved_at :: instant

record PlanHandoff =
  handoff_plan_id :: PlanId
  handoff_revision_id :: RevisionId
  handoff_note :: string
  handoff_created_at :: instant

record PlanCouncilLink =
  link_plan_id :: PlanId
  link_prd_id :: PrdId
  link_review_id :: CouncilReviewId

datatype PlanStage =
    Idle
  | QuestionPending Question
  | Proposed PlanProposal
  | Reviewed PlanProposal "PlanReview list"
  | Approved PlanProposal PlanApproval
  | IterateRequested PlanProposal string
  | Rejected PlanProposal string
  | Handoff PlanProposal PlanHandoff

record PlanWorkflow =
  plan_id :: PlanId
  interview_goal :: "string option"
  questions :: "Question list"
  answers :: "QuestionAnswer list"
  prd :: "ProductRequirementsDocument option"
  council_link :: "PlanCouncilLink option"
  active_revision :: "RevisionId option"
  stage :: PlanStage
  proposals :: "PlanProposal list"
  reviews :: "PlanReview list"
  approvals :: "PlanApproval list"
  handoffs :: "PlanHandoff list"

section \<open>What a model returns\<close>

definition validate_text :: "string \<Rightarrow> string \<Rightarrow> (unit, string) result" where
  "validate_text v label =
     (if trim v = [] then Inl (label @ '' must not be empty'')
      else if char_count v > MAX_INTERVIEW_FIELD_CHARS
      then Inl (label @ '' exceeds '' @ show_nat MAX_INTERVIEW_FIELD_CHARS @ '' characters'')
      else Inr ())"

fun validate_all :: "('a \<Rightarrow> (unit, string) result) \<Rightarrow> 'a list \<Rightarrow> (unit, string) result" where
  "validate_all check [] = Inr ()"
| "validate_all check (x # xs) = and_then (check x) (\<lambda>_. validate_all check xs)"

definition validate_list :: "string list \<Rightarrow> string \<Rightarrow> (unit, string) result" where
  "validate_list vs label =
     (if length vs > MAX_PRD_REQUIREMENTS then Inl (label @ '' list is too large'')
      else validate_all (\<lambda>v. validate_text v label) vs)"

definition validate_interview_response :: "InterviewResponse \<Rightarrow> (unit, string) result" where
  "validate_interview_response response = (case response of
      QuestionResponse p opts _ \<Rightarrow>
        and_then (validate_text p ''interview question'') (\<lambda>_.
        if length opts > 8
        then Inl ''an interview question may have at most 8 options''
        else validate_all (\<lambda>opt. validate_text opt ''interview option'') opts)
    | PrdResponse title problem users requirements acceptance_criteria non_goals constraints \<Rightarrow>
        and_then (validate_text title ''PRD title'') (\<lambda>_.
        and_then (validate_text problem ''PRD problem'') (\<lambda>_.
        and_then (validate_list users ''PRD user'') (\<lambda>_.
        if requirements = [] \<or> length requirements > MAX_PRD_REQUIREMENTS
        then Inl (''PRD must contain between 1 and '' @ show_nat MAX_PRD_REQUIREMENTS
                  @ '' requirements'')
        else
        and_then (validate_all (\<lambda>r.
            and_then (validate_text (req_id r) ''requirement id'') (\<lambda>_.
            and_then (validate_text (req_title r) ''requirement title'') (\<lambda>_.
            validate_text (req_description r) ''requirement description''))) requirements) (\<lambda>_.
        and_then (validate_list acceptance_criteria ''acceptance criterion'') (\<lambda>_.
        and_then (validate_list non_goals ''non-goal'') (\<lambda>_.
        validate_list constraints ''constraint'')))))))"

definition json_payload :: "string \<Rightarrow> (string, string) result" where
  "json_payload text =
     (let trimmed = trim text in
      case strip_prefix trimmed ''```'' of
        Some fenced \<Rightarrow>
          and_then
            (ok_or ''interview response fence must be labelled json''
              (case strip_prefix fenced ''json'' of
                 Some b \<Rightarrow> Some b
               | None \<Rightarrow> strip_prefix fenced ''JSON'')) (\<lambda>body.
          ok_or ''interview response JSON fence is unterminated''
            (map_option trim (strip_suffix (trim_start body) ''```'')))
      | None \<Rightarrow> Inr trimmed)"

definition parse_interview_response ::
  "(string \<Rightarrow> (InterviewResponse, string) result) \<Rightarrow> string \<Rightarrow> (InterviewResponse, string) result"
where
  "parse_interview_response from_json text =
     and_then (json_payload text) (\<lambda>payload.
     and_then (map_err (\<lambda>error. ''interview response is not the required JSON object: '' @ error)
        (from_json payload)) (\<lambda>response.
     map_ok (\<lambda>_. response) (validate_interview_response response)))"

definition parse_plan_draft ::
  "(string \<Rightarrow> (PlanDraft, string) result) \<Rightarrow> string \<Rightarrow> (PlanDraft, string) result" where
  "parse_plan_draft from_json text =
     and_then (json_payload text) (\<lambda>payload.
     and_then (map_err (\<lambda>error. ''plan response is not the required JSON object: '' @ error)
        (from_json payload)) (\<lambda>draft.
     if trim (draft_title draft) = [] \<or> trim (draft_summary draft) = []
     then Inl ''plan title and summary must not be empty''
     else if draft_steps draft = [] \<or> length (draft_steps draft) > MAX_PRD_REQUIREMENTS
     then Inl (''plan must contain between 1 and '' @ show_nat MAX_PRD_REQUIREMENTS @ '' steps'')
     else map_ok (\<lambda>_. draft) (validate_all (\<lambda>s.
        and_then (validate_text (draft_step_title s) ''plan step title'') (\<lambda>_.
        validate_text (draft_step_description s) ''plan step description'')) (draft_steps draft))))"

section \<open>The workflow\<close>

type_synonym 'd plan_result = "(PlanWorkflow, 'd MjolnrError) result"

definition plan_new :: "PlanId \<Rightarrow> PlanWorkflow" where
  "plan_new pid = \<lparr>plan_id = pid, interview_goal = None, questions = [], answers = [],
     prd = None, council_link = None, active_revision = None, stage = Idle,
     proposals = [], reviews = [], approvals = [], handoffs = []\<rparr>"

definition start_interview :: "string \<Rightarrow> PlanWorkflow \<Rightarrow> 'd plan_result" where
  [step_defs]: "start_interview goal w =
     (if trim goal = [] \<or> char_count goal > MAX_INTERVIEW_GOAL_CHARS
      then Inl (PlanInvalidTransition ''no interview'' ''start interview''
             ''the interview goal is empty or exceeds its bound'')
      else if stage w \<noteq> Idle \<or> interview_goal w \<noteq> None
      then Inl (PlanInvalidTransition ''workflow already started'' ''start interview''
             ''an interview can only start on a new idle workflow'')
      else Inr (w\<lparr>interview_goal := Some goal\<rparr>))"

definition ask_question :: "Question \<Rightarrow> PlanWorkflow \<Rightarrow> 'd plan_result" where
  [step_defs]: "ask_question question w =
     (if length (questions w) \<ge> MAX_INTERVIEW_QUESTIONS
      then Inl (PlanInvalidTransition ''question budget exhausted'' ''ask question''
             ''the bounded interview has reached its question limit'')
      else
        let asked = Inr (w\<lparr>questions := questions w @ [question],
                           stage := QuestionPending question\<rparr>);
            closed = Inl (PlanInvalidTransition ''proposal decision'' ''ask question''
                ''questions require an idle workflow or an explicit iterate decision'')
        in case stage w of
          Idle \<Rightarrow> asked
        | IterateRequested _ _ \<Rightarrow> asked
        | QuestionPending _ \<Rightarrow> Inl (PlanInvalidTransition ''question pending'' ''ask question''
             ''cannot ask a new question while another question is pending'')
        | Proposed _ \<Rightarrow> closed
        | Reviewed _ _ \<Rightarrow> closed
        | Approved _ _ \<Rightarrow> closed
        | Rejected _ _ \<Rightarrow> closed
        | Handoff _ _ \<Rightarrow> closed)"

definition answer_question :: "QuestionAnswer \<Rightarrow> PlanWorkflow \<Rightarrow> 'd plan_result" where
  [step_defs]: "answer_question answer w = (case stage w of
      QuestionPending question \<Rightarrow>
        if question_id question \<noteq> answer_question_id answer
        then Inl (PlanInvalidTransition ''question pending'' ''answer question''
               ''answer question_id does not match pending question'')
        else Inr (w\<lparr>answers := answers w @ [answer], stage := Idle\<rparr>)
    | _ \<Rightarrow> Inl (PlanInvalidTransition ''not question pending'' ''answer question''
               ''no question is currently pending''))"

definition record_prd :: "ProductRequirementsDocument \<Rightarrow> PlanWorkflow \<Rightarrow> 'd plan_result" where
  [step_defs]: "record_prd d w =
     (if prd_plan_id d \<noteq> plan_id w
      then Inl (PlanInvalidTransition ''plan mismatch'' ''record PRD''
             ''PRD plan_id does not match workflow plan_id'')
      else if interview_goal w = None \<or> prd w \<noteq> None
      then Inl (PlanInvalidTransition ''PRD state mismatch'' ''record PRD''
             ''a PRD requires an active interview and may only be recorded once'')
      else if stage w \<noteq> Idle
      then Inl (PlanInvalidTransition ''question pending'' ''record PRD''
             ''the interview must answer its pending question before producing a PRD'')
      else Inr (w\<lparr>prd := Some d\<rparr>))"

definition link_council_review :: "PlanCouncilLink \<Rightarrow> PlanWorkflow \<Rightarrow> 'd plan_result" where
  [step_defs]: "link_council_review link w =
     (if link_plan_id link \<noteq> plan_id w
      then Inl (PlanInvalidTransition ''plan mismatch'' ''link council review''
             ''council link plan_id does not match workflow plan_id'')
      else case prd w of
        None \<Rightarrow> Inl (PlanInvalidTransition ''no PRD'' ''link council review''
             ''a council review cannot link before a PRD exists'')
      | Some d \<Rightarrow>
          if prd_id d \<noteq> link_prd_id link \<or> council_link w \<noteq> None
          then Inl (PlanInvalidTransition ''council link mismatch'' ''link council review''
             ''the review must name the current PRD and may only link once'')
          else Inr (w\<lparr>council_link := Some link\<rparr>))"

definition propose_plan :: "PlanProposal \<Rightarrow> PlanWorkflow \<Rightarrow> 'd plan_result" where
  [step_defs]: "propose_plan proposal w =
     (let accepted = Inr (w\<lparr>active_revision := Some (proposal_revision_id proposal),
            stage := Proposed proposal, proposals := proposals w @ [proposal]\<rparr>);
          revision = rev_value (proposal_revision_id proposal)
      in if proposal_plan_id proposal \<noteq> plan_id w
      then Inl (PlanInvalidTransition ''plan mismatch'' ''propose plan''
             ''proposal plan_id does not match workflow plan_id'')
      else if \<not> (case stage w of Idle \<Rightarrow> True | IterateRequested _ _ \<Rightarrow> True | _ \<Rightarrow> False)
      then Inl (PlanInvalidTransition ''stage mismatch'' ''propose plan''
             ''a proposal requires an idle workflow or an explicit iterate decision'')
      else case active_revision w of
        Some active \<Rightarrow>
          if revision \<le> rev_value active
          then Inl (PlanStaleRevision revision (rev_value active))
          else if revision \<noteq> rev_value active + 1
          then Inl (PlanInvalidTransition ''proposal'' ''propose plan''
                 ''proposal revision jumps sequence numbers'')
          else accepted
      | None \<Rightarrow>
          if revision \<noteq> 1 then Inl (PlanStaleRevision revision 1) else accepted)"

definition review_plan :: "PlanReview \<Rightarrow> PlanWorkflow \<Rightarrow> 'd plan_result" where
  [step_defs]: "review_plan review w =
     (if review_plan_id review \<noteq> plan_id w
      then Inl (PlanInvalidTransition ''plan mismatch'' ''review plan''
             ''review plan_id does not match workflow plan_id'')
      else case active_revision w of
        None \<Rightarrow> Inl (PlanInvalidTransition ''idle'' ''review plan''
             ''cannot review a plan before a proposal exists'')
      | Some active \<Rightarrow>
          if review_revision_id review \<noteq> active
          then Inl (PlanStaleRevision (rev_value (review_revision_id review)) (rev_value active))
          else
            let reviewed = (\<lambda>proposal.
                  let all_reviews = reviews w @ [review] in
                  Inr (w\<lparr>reviews := all_reviews,
                    stage := Reviewed proposal
                      (filter (\<lambda>r. review_revision_id r = active) all_reviews)\<rparr>))
            in case stage w of
              Proposed proposal \<Rightarrow> reviewed proposal
            | Reviewed proposal _ \<Rightarrow> reviewed proposal
            | _ \<Rightarrow> Inl (PlanInvalidTransition ''stage mismatch'' ''review plan''
                ''can only review a proposed or currently reviewed plan revision''))"

definition approve_plan :: "PlanApproval \<Rightarrow> PlanWorkflow \<Rightarrow> 'd plan_result" where
  [step_defs]: "approve_plan approval w =
     (if approval_plan_id approval \<noteq> plan_id w
      then Inl (PlanInvalidTransition ''plan mismatch'' ''approve plan''
             ''approval plan_id does not match workflow plan_id'')
      else case active_revision w of
        None \<Rightarrow> Inl (PlanInvalidTransition ''idle'' ''approve plan''
             ''cannot approve a plan before a proposal exists'')
      | Some active \<Rightarrow>
          if approval_revision_id approval \<noteq> active
          then Inl (PlanStaleRevision (rev_value (approval_revision_id approval))
                 (rev_value active))
          else
            let decided = (\<lambda>proposal.
                  Inr (w\<lparr>approvals := approvals w @ [approval],
                    stage := (case decision approval of
                        Approve \<Rightarrow> Approved proposal approval
                      | Iterate \<Rightarrow> IterateRequested proposal
                          (case approval_note approval of
                             Some note \<Rightarrow> note | None \<Rightarrow> ''Iteration requested'')
                      | Reject \<Rightarrow> Rejected proposal
                          (case approval_note approval of
                             Some note \<Rightarrow> note | None \<Rightarrow> ''Plan rejected''))\<rparr>))
            in case stage w of
              Proposed proposal \<Rightarrow> decided proposal
            | Reviewed proposal _ \<Rightarrow> decided proposal
            | _ \<Rightarrow> Inl (PlanInvalidTransition ''stage mismatch'' ''approve plan''
                ''can only approve a proposed or reviewed plan revision''))"

definition handoff_plan :: "PlanHandoff \<Rightarrow> PlanWorkflow \<Rightarrow> 'd plan_result" where
  [step_defs]: "handoff_plan handoff w =
     (if handoff_plan_id handoff \<noteq> plan_id w
      then Inl (PlanInvalidTransition ''plan mismatch'' ''handoff plan''
             ''handoff plan_id does not match workflow plan_id'')
      else case active_revision w of
        None \<Rightarrow> Inl (PlanInvalidTransition ''idle'' ''handoff plan''
             ''cannot handoff a plan before a proposal exists'')
      | Some active \<Rightarrow>
          if handoff_revision_id handoff \<noteq> active
          then Inl (PlanStaleRevision (rev_value (handoff_revision_id handoff)) (rev_value active))
          else case stage w of
              Approved proposal approval \<Rightarrow>
                Inr (w\<lparr>handoffs := handoffs w @ [handoff], stage := Handoff proposal handoff\<rparr>)
            | _ \<Rightarrow> Inl (PlanInvalidTransition ''not approved'' ''handoff plan''
                ''can only handoff an approved plan revision''))"

end
