(* ===== verification/Plan_Safety.thy ===== *)
theory Plan_Safety
  imports Plan
begin

text \<open>
  The invariant of the plan workflow and its preservation by every operation. Its parts:
  the interview's books (at most eight questions, answers matched to questions in order),
  the numbering of proposals (revisions 1, 2, 3 and so on, the active one the last), what
  each stage says about the records, and what a handoff rests on.
\<close>

section \<open>The invariant\<close>

definition interview_ok :: "PlanWorkflow \<Rightarrow> bool" where
  [inv_defs]: "interview_ok w \<longleftrightarrow>
     length (questions w) \<le> MAX_INTERVIEW_QUESTIONS
     \<and> map answer_question_id (answers w)
         = map question_id (take (length (answers w)) (questions w))
     \<and> (case stage w of
          QuestionPending q \<Rightarrow> questions w \<noteq> [] \<and> q = last (questions w)
            \<and> length (questions w) = length (answers w) + 1
        | _ \<Rightarrow> length (questions w) = length (answers w))
     \<and> (prd w \<noteq> None \<longrightarrow> interview_goal w \<noteq> None)
     \<and> (\<forall>d. prd w = Some d \<longrightarrow> prd_plan_id d = plan_id w)
     \<and> (\<forall>l. council_link w = Some l \<longrightarrow> (\<exists>d. prd w = Some d \<and> link_prd_id l = prd_id d))"

definition revisions_ok :: "PlanWorkflow \<Rightarrow> bool" where
  [inv_defs]: "revisions_ok w \<longleftrightarrow>
     (\<forall>i < length (proposals w).
        unat (rev_value (proposal_revision_id (proposals w ! i))) = i + 1)
     \<and> (\<forall>p \<in> set (proposals w). proposal_plan_id p = plan_id w)
     \<and> active_revision w
         = (if proposals w = [] then None else Some (proposal_revision_id (last (proposals w))))"

definition current_proposal :: "PlanWorkflow \<Rightarrow> PlanProposal \<Rightarrow> bool" where
  [inv_defs]: "current_proposal w p \<longleftrightarrow> proposals w \<noteq> [] \<and> p = last (proposals w)"

definition stage_ok :: "PlanWorkflow \<Rightarrow> bool" where
  [inv_defs]: "stage_ok w \<longleftrightarrow> (case stage w of
      Idle \<Rightarrow> True
    | QuestionPending _ \<Rightarrow> True
    | Proposed p \<Rightarrow> current_proposal w p
    | Reviewed p rs \<Rightarrow> current_proposal w p \<and> rs \<noteq> []
        \<and> rs = filter (\<lambda>r. review_revision_id r = proposal_revision_id p) (reviews w)
    | Approved p a \<Rightarrow> current_proposal w p \<and> a \<in> set (approvals w) \<and> decision a = Approve
        \<and> approval_revision_id a = proposal_revision_id p
    | IterateRequested p _ \<Rightarrow> current_proposal w p \<and> approvals w \<noteq> []
        \<and> decision (last (approvals w)) = Iterate
    | Rejected p _ \<Rightarrow> current_proposal w p \<and> approvals w \<noteq> []
        \<and> decision (last (approvals w)) = Reject
    | Handoff p h \<Rightarrow> current_proposal w p \<and> h \<in> set (handoffs w)
        \<and> handoff_revision_id h = proposal_revision_id p)"

definition handoffs_ok :: "PlanWorkflow \<Rightarrow> bool" where
  [inv_defs]: "handoffs_ok w \<longleftrightarrow> (\<forall>h \<in> set (handoffs w). handoff_plan_id h = plan_id w \<and>
     (\<exists>a \<in> set (approvals w). decision a = Approve \<and> approval_plan_id a = plan_id w
        \<and> approval_revision_id a = handoff_revision_id h))"

definition approvals_ok :: "PlanWorkflow \<Rightarrow> bool" where
  [inv_defs]: "approvals_ok w \<longleftrightarrow> (\<forall>a \<in> set (approvals w). approval_plan_id a = plan_id w
     \<and> (\<exists>p \<in> set (proposals w). approval_revision_id a = proposal_revision_id p))"

definition plan_inv :: "PlanWorkflow \<Rightarrow> bool" where
  "plan_inv w \<longleftrightarrow> interview_ok w \<and> revisions_ok w \<and> stage_ok w \<and> handoffs_ok w \<and> approvals_ok w"

lemmas plan_splits = if_splits option.splits PlanStage.splits ReviewVerdict.splits

lemma plan_inv_new: "plan_inv (plan_new pid)"
  by (simp add: plan_inv_def inv_defs plan_new_def)

section \<open>Preservation\<close>

lemma take_answered:
  "map f as = map g (take (length as) qs) \<Longrightarrow> length as \<le> length qs \<Longrightarrow>
     map f as = map g (take (length as) (qs @ ys))"
  by simp

lemma start_interview_inv:
  "plan_inv w \<Longrightarrow> start_interview goal w = Inr w' \<Longrightarrow> plan_inv w'"
  by (auto simp: plan_inv_def inv_defs step_defs split: if_splits)

lemma ask_question_inv:
  assumes "plan_inv w" and "ask_question q w = Inr w'"
  shows "plan_inv w'"
proof -
  from assms(2) have st: "stage w = Idle \<or> (\<exists>p f. stage w = IterateRequested p f)"
    and len: "length (questions w) < MAX_INTERVIEW_QUESTIONS"
    and w': "w' = w\<lparr>questions := questions w @ [q], stage := QuestionPending q\<rparr>"
    by (auto simp: step_defs Let_def split: plan_splits)
  from st assms(1) have "length (questions w) = length (answers w)"
    by (auto simp: plan_inv_def inv_defs)
  with assms(1) len show ?thesis
    by (auto simp: plan_inv_def inv_defs w')
qed

lemma answer_question_inv:
  assumes "plan_inv w" and "answer_question a w = Inr w'"
  shows "plan_inv w'"
proof -
  from assms(2) obtain q where st: "stage w = QuestionPending q"
    and qid: "question_id q = answer_question_id a"
    and w': "w' = w\<lparr>answers := answers w @ [a], stage := Idle\<rparr>"
    by (auto simp: step_defs split: plan_splits)
  from assms(1) st have q: "questions w \<noteq> []" "q = last (questions w)"
    and len: "length (questions w) = length (answers w) + 1"
    and ids: "map answer_question_id (answers w)
      = map question_id (take (length (answers w)) (questions w))"
    by (auto simp: plan_inv_def inv_defs)
  have "questions w = take (length (answers w)) (questions w) @ [q]"
    using q len by (metis append_butlast_last_id butlast_conv_take diff_add_inverse2)
  then have "map question_id (questions w)
      = map question_id (take (length (answers w)) (questions w)) @ [question_id q]"
    by (metis map_append list.simps(8,9))
  with ids qid len have "map answer_question_id (answers w @ [a]) = map question_id (questions w)"
    by simp
  with assms(1) len st show ?thesis
    by (auto simp: plan_inv_def inv_defs w')
qed

lemma record_prd_inv: "plan_inv w \<Longrightarrow> record_prd d w = Inr w' \<Longrightarrow> plan_inv w'"
  by (auto simp: plan_inv_def inv_defs step_defs split: if_splits)

lemma link_council_review_inv:
  assumes "plan_inv w" and "link_council_review l w = Inr w'"
  shows "plan_inv w'"
proof -
  from assms(2) obtain d where d: "prd w = Some d" "prd_id d = link_prd_id l"
    and w': "w' = w\<lparr>council_link := Some l\<rparr>"
    by (auto simp: step_defs split: if_splits option.splits)
  have "interview_ok w'"
    using assms(1) d by (cases "stage w") (simp_all add: plan_inv_def interview_ok_def w')
  moreover have "stage_ok w'"
    using assms(1)
    by (cases "stage w") (simp_all add: plan_inv_def stage_ok_def current_proposal_def w')
  moreover have "revisions_ok w'" "handoffs_ok w'" "approvals_ok w'"
    using assms(1)
    by (auto simp: plan_inv_def revisions_ok_def handoffs_ok_def approvals_ok_def w')
  ultimately show ?thesis by (simp add: plan_inv_def)
qed

lemma word_next_no_wrap:
  assumes "a < (a + 1 :: u32)"
  shows "unat (a + 1) = unat a + 1"
proof -
  have "unat (a + 1) = (unat a + 1) mod 4294967296"
    by (simp add: unat_word_ariths)
  moreover have "unat a < unat (a + 1)"
    using assms by (simp add: word_less_nat_alt)
  ultimately show ?thesis
    using unat_u32_le [of a] by (cases "unat a + 1 < 4294967296") auto
qed

lemma propose_plan_inv:
  assumes "plan_inv w" and "propose_plan p w = Inr w'"
  shows "plan_inv w'"
proof -
  from assms(2) have pid: "proposal_plan_id p = plan_id w"
    and st: "stage w = Idle \<or> (\<exists>q f. stage w = IterateRequested q f)"
    and w': "w' = w\<lparr>active_revision := Some (proposal_revision_id p), stage := Proposed p,
               proposals := proposals w @ [p]\<rparr>"
    by (auto simp: step_defs Let_def split: plan_splits)
  have num: "unat (rev_value (proposal_revision_id p)) = length (proposals w) + 1"
  proof (cases "active_revision w")
    case None
    with assms have "proposals w = []" "rev_value (proposal_revision_id p) = 1"
      by (auto simp: plan_inv_def inv_defs step_defs Let_def split: plan_splits)
    then show ?thesis by simp
  next
    case (Some r)
    with assms(2) have rev: "rev_value r < rev_value r + 1"
      "rev_value (proposal_revision_id p) = rev_value r + 1"
      by (auto simp: step_defs Let_def not_le split: plan_splits)
    from Some assms(1) have ne: "proposals w \<noteq> []"
      and r: "r = proposal_revision_id (last (proposals w))"
      by (auto simp: plan_inv_def inv_defs split: if_splits)
    from ne assms(1) have "unat (rev_value r) = length (proposals w)"
      by (simp add: plan_inv_def inv_defs r last_conv_nth)
    with rev show ?thesis by (simp add: word_next_no_wrap)
  qed
  have "length (questions w) = length (answers w)"
    using st assms(1) by (auto simp: plan_inv_def inv_defs)
  with assms(1) st pid num show ?thesis
    by (auto simp: plan_inv_def inv_defs w' nth_append less_Suc_eq)
qed

lemma review_plan_inv:
  assumes "plan_inv w" and "review_plan r w = Inr w'"
  shows "plan_inv w'"
proof -
  from assms(2) obtain p active where act: "active_revision w = Some active"
    and rid: "review_revision_id r = active"
    and st: "stage w = Proposed p \<or> (\<exists>rs. stage w = Reviewed p rs)"
    and w': "w' = w\<lparr>reviews := reviews w @ [r],
       stage := Reviewed p (filter (\<lambda>r. review_revision_id r = active) (reviews w @ [r]))\<rparr>"
    by (auto simp: step_defs Let_def split: plan_splits)
  from st assms(1) have cur: "current_proposal w p" and "length (questions w) = length (answers w)"
    by (auto simp: plan_inv_def inv_defs)
  moreover from cur assms(1) act have "proposal_revision_id p = active"
    by (auto simp: plan_inv_def inv_defs split: if_splits)
  ultimately show ?thesis
    using assms(1) rid by (auto simp: plan_inv_def inv_defs w')
qed

lemma approve_plan_inv:
  assumes "plan_inv w" and "approve_plan a w = Inr w'"
  shows "plan_inv w'"
proof -
  from assms(2) obtain p where pid: "approval_plan_id a = plan_id w"
    and act: "active_revision w = Some (approval_revision_id a)"
    and st: "stage w = Proposed p \<or> (\<exists>rs. stage w = Reviewed p rs)"
    and w': "w' = w\<lparr>approvals := approvals w @ [a], stage := (case decision a of
        Approve \<Rightarrow> Approved p a
      | Iterate \<Rightarrow> IterateRequested p
          (case approval_note a of Some note \<Rightarrow> note | None \<Rightarrow> ''Iteration requested'')
      | Reject \<Rightarrow> Rejected p
          (case approval_note a of Some note \<Rightarrow> note | None \<Rightarrow> ''Plan rejected''))\<rparr>"
    by (auto simp: step_defs Let_def split: option.splits if_splits PlanStage.splits)
  from st assms(1) have cur: "current_proposal w p" and "length (questions w) = length (answers w)"
    by (auto simp: plan_inv_def inv_defs)
  moreover from cur assms(1) act have "proposal_revision_id p = approval_revision_id a"
    by (auto simp: plan_inv_def inv_defs split: if_splits)
  moreover from cur have "p \<in> set (proposals w)" by (simp add: current_proposal_def)
  ultimately have ex: "\<exists>p \<in> set (proposals w). approval_revision_id a = proposal_revision_id p"
    and len: "length (questions w) = length (answers w)"
    and rev: "proposal_revision_id p = approval_revision_id a"
    by (metis, simp_all)
  have "stage_ok w'"
    using cur rev by (cases "decision a") (simp_all add: stage_ok_def current_proposal_def w')
  moreover have "interview_ok w'"
    using assms(1) st len
    by (cases "decision a") (auto simp: plan_inv_def interview_ok_def w')
  moreover have "revisions_ok w'" "handoffs_ok w'" "approvals_ok w'"
    using assms(1) pid ex
    by (auto simp: plan_inv_def revisions_ok_def handoffs_ok_def approvals_ok_def w')
  ultimately show ?thesis by (simp add: plan_inv_def)
qed

lemma handoff_plan_inv:
  assumes "plan_inv w" and "handoff_plan h w = Inr w'"
  shows "plan_inv w'"
proof -
  from assms(2) obtain p a where pid: "handoff_plan_id h = plan_id w"
    and act: "active_revision w = Some (handoff_revision_id h)"
    and st: "stage w = Approved p a"
    and w': "w' = w\<lparr>handoffs := handoffs w @ [h], stage := Handoff p h\<rparr>"
    by (auto simp: step_defs split: plan_splits)
  from st assms(1) have cur: "current_proposal w p" and a: "a \<in> set (approvals w)"
    "decision a = Approve" "approval_revision_id a = proposal_revision_id p"
    and len: "length (questions w) = length (answers w)"
    by (auto simp: plan_inv_def inv_defs)
  moreover from cur assms(1) act have rev: "proposal_revision_id p = handoff_revision_id h"
    by (auto simp: plan_inv_def inv_defs split: if_splits)
  moreover from a(1) assms(1) have "approval_plan_id a = plan_id w"
    by (auto simp: plan_inv_def approvals_ok_def)
  ultimately show ?thesis
    using assms(1) pid by (auto simp: plan_inv_def inv_defs w')
qed

lemmas plan_op_inv = start_interview_inv ask_question_inv answer_question_inv record_prd_inv
  link_council_review_inv propose_plan_inv review_plan_inv approve_plan_inv handoff_plan_inv

section \<open>What never changes\<close>

text \<open>The records only grow, and the workflow keeps its identity.\<close>

definition plan_grown :: "PlanWorkflow \<Rightarrow> PlanWorkflow \<Rightarrow> bool" where
  "plan_grown w w' \<longleftrightarrow> plan_id w' = plan_id w
     \<and> (\<exists>xs. questions w' = questions w @ xs) \<and> (\<exists>xs. answers w' = answers w @ xs)
     \<and> (\<exists>xs. proposals w' = proposals w @ xs) \<and> (\<exists>xs. reviews w' = reviews w @ xs)
     \<and> (\<exists>xs. approvals w' = approvals w @ xs) \<and> (\<exists>xs. handoffs w' = handoffs w @ xs)
     \<and> (interview_goal w \<noteq> None \<longrightarrow> interview_goal w' = interview_goal w)
     \<and> (prd w \<noteq> None \<longrightarrow> prd w' = prd w)
     \<and> (council_link w \<noteq> None \<longrightarrow> council_link w' = council_link w)"

lemma plan_grown_refl [simp]: "plan_grown w w"
  by (simp add: plan_grown_def)

lemma plan_grown_trans: "plan_grown a b \<Longrightarrow> plan_grown b c \<Longrightarrow> plan_grown a c"
  by (auto simp: plan_grown_def)

lemma start_interview_grown: "start_interview g w = Inr w' \<Longrightarrow> plan_grown w w'"
  by (auto simp: plan_grown_def step_defs split: if_splits)

lemma ask_question_grown: "ask_question q w = Inr w' \<Longrightarrow> plan_grown w w'"
  by (auto simp: plan_grown_def step_defs Let_def split: plan_splits)

lemma answer_question_grown: "answer_question a w = Inr w' \<Longrightarrow> plan_grown w w'"
  by (auto simp: plan_grown_def step_defs split: plan_splits)

lemma record_prd_grown: "record_prd d w = Inr w' \<Longrightarrow> plan_grown w w'"
  by (auto simp: plan_grown_def step_defs split: if_splits)

lemma link_council_review_grown: "link_council_review l w = Inr w' \<Longrightarrow> plan_grown w w'"
  by (auto simp: plan_grown_def step_defs split: plan_splits)

lemma propose_plan_grown: "propose_plan p w = Inr w' \<Longrightarrow> plan_grown w w'"
  by (auto simp: plan_grown_def step_defs Let_def split: plan_splits)

lemma review_plan_grown: "review_plan r w = Inr w' \<Longrightarrow> plan_grown w w'"
  by (auto simp: plan_grown_def step_defs Let_def split: plan_splits)

lemma approve_plan_grown: "approve_plan a w = Inr w' \<Longrightarrow> plan_grown w w'"
  by (auto simp: plan_grown_def step_defs Let_def split: option.splits if_splits PlanStage.splits)

lemma handoff_plan_grown: "handoff_plan h w = Inr w' \<Longrightarrow> plan_grown w w'"
  by (auto simp: plan_grown_def step_defs split: plan_splits)

lemmas plan_op_grown = start_interview_grown ask_question_grown answer_question_grown
  record_prd_grown link_council_review_grown propose_plan_grown review_plan_grown
  approve_plan_grown handoff_plan_grown

section \<open>Terminal stages\<close>

text \<open>A rejected or handed off plan stays so: only its council link may still be set.\<close>

definition terminal :: "PlanWorkflow \<Rightarrow> bool" where
  "terminal w \<longleftrightarrow> (case stage w of Rejected _ _ \<Rightarrow> True | Handoff _ _ \<Rightarrow> True | _ \<Rightarrow> False)"

lemma terminal_refuses:
  assumes "terminal w"
  shows "\<not> is_ok (start_interview g w :: 'd plan_result)"
    "\<not> is_ok (ask_question q w :: 'd plan_result)"
    "\<not> is_ok (answer_question an w :: 'd plan_result)"
    "\<not> is_ok (record_prd d w :: 'd plan_result)"
    "\<not> is_ok (propose_plan p w :: 'd plan_result)"
    "\<not> is_ok (review_plan r w :: 'd plan_result)"
    "\<not> is_ok (approve_plan a w :: 'd plan_result)"
    "\<not> is_ok (handoff_plan h w :: 'd plan_result)"
  using assms
  by (auto simp: terminal_def step_defs Let_def is_ok_def
      split: PlanStage.splits option.splits if_splits)

lemma link_keeps_stage: "link_council_review l w = Inr w' \<Longrightarrow> stage w' = stage w"
  by (auto simp: step_defs split: plan_splits)

end
