(* ===== verification/Board.thy ===== *)
theory Board
  imports Model Contracts
begin

text \<open>
  Decision tickets (\<^verbatim>\<open>core/board.rs\<close>) and imported items and acts (\<^verbatim>\<open>core/imported.rs\<close>): records
  with an append-only history. A resolution supersedes the one before by reference; a
  refresh is pinned to the revision it was rendered for; an act is recorded once.
\<close>

section \<open>Nodes of the board\<close>

datatype NodeId =
    Decision DecisionTicketId
  | Plan PlanId
  | Imported ImportedItemId

datatype NodeKind = Decision | Implementation

datatype Provenance = MjolnrGoverned | ExternalUnverified

definition NodeId_kind :: "NodeId \<Rightarrow> NodeKind" where
  "NodeId_kind n = (case n of
      NodeId.Decision _ \<Rightarrow> NodeKind.Decision
    | NodeId.Plan _ \<Rightarrow> NodeKind.Implementation
    | NodeId.Imported _ \<Rightarrow> NodeKind.Implementation)"

definition NodeId_provenance :: "NodeId \<Rightarrow> Provenance" where
  "NodeId_provenance n = (case n of
      NodeId.Decision _ \<Rightarrow> MjolnrGoverned
    | NodeId.Plan _ \<Rightarrow> MjolnrGoverned
    | NodeId.Imported _ \<Rightarrow> ExternalUnverified)"

text \<open>The derived order: by constructor, then by identifier.\<close>

fun NodeId_key :: "NodeId \<Rightarrow> nat \<times> nat" where
  "NodeId_key (NodeId.Decision i) = (0, unat (ticket_uuid i))"
| "NodeId_key (NodeId.Plan i) = (1, unat (plan_uuid i))"
| "NodeId_key (NodeId.Imported i) = (2, unat (item_uuid i))"

lemma NodeId_key_inject: "NodeId_key a = NodeId_key b \<longleftrightarrow> a = b"
  by (cases a; cases b)
    (auto simp: word_unat_eq_iff [symmetric]
      intro: DecisionTicketId.expand PlanId.expand ImportedItemId.expand)

instantiation NodeId :: linorder
begin

definition less_eq_NodeId_def:
  "a \<le> b \<longleftrightarrow> fst (NodeId_key a) < fst (NodeId_key b)
     \<or> (fst (NodeId_key a) = fst (NodeId_key b) \<and> snd (NodeId_key a) \<le> snd (NodeId_key b))"
  for a b :: NodeId
definition less_NodeId_def: "a < b \<longleftrightarrow> a \<le> b \<and> \<not> b \<le> a" for a b :: NodeId

instance
proof
  fix a b :: NodeId
  show "a \<le> b \<Longrightarrow> b \<le> a \<Longrightarrow> a = b"
    by (auto simp: less_eq_NodeId_def NodeId_key_inject [symmetric] prod_eq_iff)
qed (auto simp: less_eq_NodeId_def less_NodeId_def)

end

section \<open>Decision tickets\<close>

datatype DecisionTicketKind = Research | Prototype | Grilling | Task

record DecisionTicket =
  ticket_id :: DecisionTicketId
  ticket_question :: string
  ticket_kind :: DecisionTicketKind
  ticket_options :: "string list"
  ticket_blocked_by :: "DecisionTicketId list"

datatype DecisionAuthor = Human

record DecisionResolution =
  resolution_id :: DecisionResolutionId
  resolution_ticket :: DecisionTicketId
  resolution_question :: string
  resolution_options :: "string list"
  chosen_option :: nat
  decided_by :: DecisionAuthor
  resolution_decided_at :: instant
  resolution_note :: "string option"
  supersedes :: "DecisionResolutionId option"

record DecisionTicketRecord =
  ticket :: DecisionTicket
  resolution :: "DecisionResolution option"

text \<open>The refusals, with the values their sentences print.\<close>

datatype ResolutionRefusal =
    UnknownTicket DecisionResolutionId DecisionTicketId
  | QuestionDrifted
  | OptionsDrifted
  | OptionOutOfRange nat nat
  | MustSupersede

definition apply_resolution ::
  "DecisionResolution \<Rightarrow> DecisionTicketRecord \<Rightarrow> (DecisionTicketRecord, ResolutionRefusal) result"
where
  "apply_resolution r rec =
     (if resolution_ticket r \<noteq> ticket_id (ticket rec)
      then Inl (UnknownTicket (resolution_id r) (resolution_ticket r))
      else if resolution_question r \<noteq> ticket_question (ticket rec) then Inl QuestionDrifted
      else if resolution_options r \<noteq> ticket_options (ticket rec) then Inl OptionsDrifted
      else if chosen_option r \<ge> length (ticket_options (ticket rec))
      then Inl (OptionOutOfRange (chosen_option r) (length (ticket_options (ticket rec))))
      else if (case (resolution rec, supersedes r) of
                 (None, None) \<Rightarrow> True
               | (Some current, Some prior) \<Rightarrow> prior = resolution_id current
               | _ \<Rightarrow> False)
      then Inr (rec\<lparr>resolution := Some r\<rparr>)
      else Inl MustSupersede)"

text \<open>A record is coherent if its resolution, when it has one, decides its ticket.\<close>

definition ticket_record_ok :: "DecisionTicketRecord \<Rightarrow> bool" where
  "ticket_record_ok rec \<longleftrightarrow> (\<forall>r. resolution rec = Some r \<longrightarrow>
     resolution_ticket r = ticket_id (ticket rec)
     \<and> resolution_question r = ticket_question (ticket rec)
     \<and> resolution_options r = ticket_options (ticket rec)
     \<and> chosen_option r < length (ticket_options (ticket rec)))"

lemma apply_resolution_Inr:
  "apply_resolution r rec = Inr rec' \<longleftrightarrow>
     resolution_ticket r = ticket_id (ticket rec)
     \<and> resolution_question r = ticket_question (ticket rec)
     \<and> resolution_options r = ticket_options (ticket rec)
     \<and> chosen_option r < length (ticket_options (ticket rec))
     \<and> map_option resolution_id (resolution rec) = supersedes r
     \<and> rec' = rec\<lparr>resolution := Some r\<rparr>"
  by (auto simp: apply_resolution_def not_le split: if_splits option.splits)

lemma apply_resolution_ok: "apply_resolution r rec = Inr rec' \<Longrightarrow> ticket_record_ok rec'"
  by (auto simp: apply_resolution_Inr ticket_record_ok_def)

lemma apply_resolution_ticket: "apply_resolution r rec = Inr rec' \<Longrightarrow> ticket rec' = ticket rec"
  by (auto simp: apply_resolution_Inr)

text \<open>
  The chain of a ticket's resolutions: each names the one before it, the first names none.
\<close>

fun supersede_chain :: "DecisionResolutionId option \<Rightarrow> DecisionResolution list \<Rightarrow> bool" where
  "supersede_chain prior [] = True"
| "supersede_chain prior (r # rs) =
     (supersedes r = prior \<and> supersede_chain (Some (resolution_id r)) rs)"

lemma replay_resolutions_chain:
  "replay apply_resolution rs rec = Inr rec' \<Longrightarrow>
     supersede_chain (map_option resolution_id (resolution rec)) rs
     \<and> ticket rec' = ticket rec
     \<and> resolution rec' = (if rs = [] then resolution rec else Some (last rs))"
proof (induction rs arbitrary: rec)
  case Nil
  then show ?case by simp
next
  case (Cons r rs)
  then obtain u where u: "apply_resolution r rec = Inr u" "replay apply_resolution rs u = Inr rec'"
    by (auto simp: and_then_Inr)
  from Cons.IH [OF u(2)] u(1) show ?case by (auto simp: apply_resolution_Inr)
qed

interpretation resolutions: guarded_fold apply_resolution ticket_record_ok
  by unfold_locales (rule apply_resolution_ok)

section \<open>Imported items\<close>

datatype ImportedItemState = Open | Closed | Merged | Done | Unknown

definition is_terminal :: "ImportedItemState \<Rightarrow> bool" where
  "is_terminal s = (case s of
      Closed \<Rightarrow> True | Merged \<Rightarrow> True | Done \<Rightarrow> True | Open \<Rightarrow> False | Unknown \<Rightarrow> False)"

record ImportedItem =
  item_id :: ImportedItemId
  integration :: string
  remote_id :: string
  source_url :: string
  fetched_revision :: string
  item_title :: string
  item_state :: ImportedItemState
  item_blocked_by :: "NodeId list"

datatype RefreshRefusal =
    UnknownItem ImportedItemId ImportedItemId
  | StaleRevision string string
  | SameRevision string
  | IdentityMoved

text \<open>The record of an item holds the item; the refresh replaces it.\<close>

definition apply_refresh ::
  "string \<Rightarrow> ImportedItem \<Rightarrow> ImportedItem \<Rightarrow> (ImportedItem, RefreshRefusal) result" where
  "apply_refresh expected_revision new_item item =
     (if item_id new_item \<noteq> item_id item
      then Inl (UnknownItem (item_id new_item) (item_id item))
      else if fetched_revision item \<noteq> expected_revision
      then Inl (StaleRevision expected_revision (fetched_revision item))
      else if fetched_revision new_item = expected_revision
      then Inl (SameRevision expected_revision)
      else if integration new_item \<noteq> integration item \<or> remote_id new_item \<noteq> remote_id item
      then Inl IdentityMoved
      else Inr new_item)"

lemma apply_refresh_Inr:
  "apply_refresh expected n i = Inr j \<longleftrightarrow>
     j = n \<and> item_id n = item_id i \<and> integration n = integration i \<and> remote_id n = remote_id i
     \<and> fetched_revision i = expected \<and> fetched_revision n \<noteq> expected"
  by (auto simp: apply_refresh_def)

datatype ActRefusal = NeverImported string string | StaleAct string string

definition check_act_pin ::
  "ImportedItem list \<Rightarrow> string \<Rightarrow> string \<Rightarrow> string \<Rightarrow> (ImportedItem, ActRefusal) result" where
  "check_act_pin items integ remote expected_revision =
     (let matching = filter (\<lambda>item. integration item = integ \<and> remote_id item = remote) items in
      case matching of
        [] \<Rightarrow> Inl (NeverImported integ remote)
      | first # _ \<Rightarrow>
          ok_or (StaleAct expected_revision (fetched_revision first))
            (find (\<lambda>item. fetched_revision item = expected_revision) matching))"

lemma check_act_pin_Inr:
  assumes "check_act_pin items integ remote expected = Inr item"
  shows "item \<in> set items \<and> integration item = integ \<and> remote_id item = remote
    \<and> fetched_revision item = expected"
proof -
  let ?m = "filter (\<lambda>item. integration item = integ \<and> remote_id item = remote) items"
  from assms have "find (\<lambda>item. fetched_revision item = expected) ?m = Some item"
    by (auto simp: check_act_pin_def Let_def ok_or_def simp del: find.simps
        split: list.splits option.splits)
  then have "item \<in> set ?m \<and> fetched_revision item = expected"
    by (rule find_Some_in_set)
  then show ?thesis by simp
qed

lemma check_act_pin_total:
  "(\<exists>item. check_act_pin items integ remote expected = Inr item) \<longleftrightarrow>
     (\<exists>item \<in> set items. integration item = integ \<and> remote_id item = remote
        \<and> fetched_revision item = expected)"
proof
  assume "\<exists>item. check_act_pin items integ remote expected = Inr item"
  then show "\<exists>item \<in> set items. integration item = integ \<and> remote_id item = remote
        \<and> fetched_revision item = expected"
    using check_act_pin_Inr by blast
next
  let ?m = "filter (\<lambda>item. integration item = integ \<and> remote_id item = remote) items"
  assume "\<exists>item \<in> set items. integration item = integ \<and> remote_id item = remote
        \<and> fetched_revision item = expected"
  then obtain item where "item \<in> set ?m" "fetched_revision item = expected" by auto
  then have "find (\<lambda>item. fetched_revision item = expected) ?m \<noteq> None" "?m \<noteq> []"
    by (auto simp: find_None_iff simp del: set_filter)
  then show "\<exists>item. check_act_pin items integ remote expected = Inr item"
    by (auto simp: check_act_pin_def Let_def split: list.splits)
qed

text \<open>
  \<^verbatim>\<open>contain_proposals\<close>: of the ids a model proposed, those that are real and were shown, each
  once, in the order of their first appearance.
\<close>

fun contain_loop :: "string list \<Rightarrow> string list \<Rightarrow> string list \<Rightarrow> string list \<Rightarrow> string list" where
  "contain_loop real_ids shown_batch seen [] = []"
| "contain_loop real_ids shown_batch seen (candidate # rest) =
     (if candidate \<in> set seen then contain_loop real_ids shown_batch seen rest
      else if candidate \<in> set real_ids \<and> candidate \<in> set shown_batch
      then candidate # contain_loop real_ids shown_batch (candidate # seen) rest
      else contain_loop real_ids shown_batch seen rest)"

definition contain_proposals :: "string list \<Rightarrow> string list \<Rightarrow> string list \<Rightarrow> string list" where
  "contain_proposals proposed real_ids shown_batch = contain_loop real_ids shown_batch [] proposed"

lemma set_contain_loop:
  "set (contain_loop real shown seen ps)
     = {c \<in> set ps. c \<in> set real \<and> c \<in> set shown \<and> c \<notin> set seen}"
  by (induction real shown seen ps rule: contain_loop.induct) auto

lemma distinct_contain_loop: "distinct (contain_loop real shown seen ps)"
  by (induction real shown seen ps rule: contain_loop.induct) (auto simp: set_contain_loop)

section \<open>Imported acts\<close>

datatype ImportedActKind = PullRequest

datatype ImportedActOutcome = Submitted string | Uncertain

record ImportedAct =
  act_id :: ImportedActId
  act_item_id :: ImportedItemId
  act_kind :: ImportedActKind
  act_expected_revision :: string
  head_branch :: string
  base_branch :: string
  act_outcome :: ImportedActOutcome

lemma contain_loop_eq:
  "rev (remdups (rev (filter (\<lambda>c. c \<in> set real \<and> c \<in> set shown \<and> c \<notin> set seen) ps)))
     = contain_loop real shown seen ps"
proof (induction real shown seen ps rule: contain_loop.induct)
  case (2 real shown seen c ps)
  have keep: "rev (remdups (rev xs @ [x])) = x # filter (\<lambda>y. y \<noteq> x) (rev (remdups (rev xs)))"
    for x :: string and xs
    by (induction xs rule: rev_induct) auto
  have push: "filter P (rev (remdups (rev xs))) = rev (remdups (rev (filter P xs)))"
    for P and xs :: "string list"
    by (simp add: rev_filter [symmetric] remdups_filter [symmetric])
  have step: "rev (remdups (rev (filter (\<lambda>c'. c' \<in> set real \<and> c' \<in> set shown \<and> c' \<notin> set (c # seen)) ps)))
     = filter (\<lambda>y. y \<noteq> c)
         (rev (remdups (rev (filter (\<lambda>c'. c' \<in> set real \<and> c' \<in> set shown \<and> c' \<notin> set seen) ps))))"
    unfolding push by (simp add: conj_ac)
  show ?case
  proof (cases "c \<notin> set seen \<and> c \<in> set real \<and> c \<in> set shown")
    case True
    then have "filter (\<lambda>c'. c' \<in> set real \<and> c' \<in> set shown \<and> c' \<notin> set seen) (c # ps)
        = c # filter (\<lambda>c'. c' \<in> set real \<and> c' \<in> set shown \<and> c' \<notin> set seen) ps" by simp
    with 2 True step show ?thesis by (simp only: keep rev.simps) simp
  qed (use 2 in auto)
qed simp

section \<open>Properties\<close>

text \<open>
  C36: a ticket's decisions form one chain. Whatever resolutions a fresh record accepted, each
  names the one in force before it, the record holds the last, and the option chosen by every
  record that holds a resolution exists on the ticket as it was asked.
\<close>

theorem decision_history_is_a_chain:
  assumes "replay apply_resolution rs \<lparr>ticket = t, resolution = None\<rparr> = Inr rec"
  shows "supersede_chain None rs \<and> ticket rec = t \<and> ticket_record_ok rec
    \<and> resolution rec = (if rs = [] then None else Some (last rs))"
  using replay_resolutions_chain [OF assms]
    resolutions.replay_inv [OF _ assms] by (simp add: ticket_record_ok_def)

theorem decision_history_is_a_chain_witness:
  "supersede_chain None
     [\<lparr>resolution_id = DecisionResolutionId 1, resolution_ticket = DecisionTicketId 7,
       resolution_question = ''q'', resolution_options = [''a'', ''b''], chosen_option = 0,
       decided_by = Human, resolution_decided_at = 0, resolution_note = None, supersedes = None\<rparr>,
      \<lparr>resolution_id = DecisionResolutionId 2, resolution_ticket = DecisionTicketId 7,
       resolution_question = ''q'', resolution_options = [''a'', ''b''], chosen_option = 1,
       decided_by = Human, resolution_decided_at = 1, resolution_note = None,
       supersedes = Some (DecisionResolutionId 1)\<rparr>]"
  using decision_history_is_a_chain [of
     "[\<lparr>resolution_id = DecisionResolutionId 1, resolution_ticket = DecisionTicketId 7,
       resolution_question = ''q'', resolution_options = [''a'', ''b''], chosen_option = 0,
       decided_by = Human, resolution_decided_at = 0, resolution_note = None, supersedes = None\<rparr>,
      \<lparr>resolution_id = DecisionResolutionId 2, resolution_ticket = DecisionTicketId 7,
       resolution_question = ''q'', resolution_options = [''a'', ''b''], chosen_option = 1,
       decided_by = Human, resolution_decided_at = 1, resolution_note = None,
       supersedes = Some (DecisionResolutionId 1)\<rparr>]"
     "\<lparr>ticket_id = DecisionTicketId 7, ticket_question = ''q'', ticket_kind = Task,
       ticket_options = [''a'', ''b''], ticket_blocked_by = []\<rparr>"]
  by (simp add: apply_resolution_def)

text \<open>
  a refresh is a compare-and-swap on the fetched revision. Once one refresh pinned to a
  revision was accepted, every other refresh and every act pinned to that same revision is
  refused for that item, and the item's identity has not moved.
\<close>

theorem refresh_is_compare_and_swap:
  assumes "apply_refresh expected new_item item = Inr item'"
  shows "\<not> is_ok (apply_refresh expected other item')
    \<and> \<not> is_ok (check_act_pin [item'] integ remote expected)
    \<and> item_id item' = item_id item \<and> integration item' = integration item
    \<and> remote_id item' = remote_id item \<and> fetched_revision item = expected"
  using assms check_act_pin_total [of "[item']" integ remote expected]
  by (auto simp: apply_refresh_Inr is_ok_iff)

theorem refresh_is_compare_and_swap_witness:
  "\<not> is_ok (apply_refresh ''r1''
     \<lparr>item_id = ImportedItemId 1, integration = ''gh'', remote_id = ''9'', source_url = '''',
      fetched_revision = ''r3'', item_title = '''', item_state = Open, item_blocked_by = []\<rparr>
     \<lparr>item_id = ImportedItemId 1, integration = ''gh'', remote_id = ''9'', source_url = '''',
      fetched_revision = ''r2'', item_title = '''', item_state = Open, item_blocked_by = []\<rparr>)"
  using refresh_is_compare_and_swap [of "''r1''"
     "\<lparr>item_id = ImportedItemId 1, integration = ''gh'', remote_id = ''9'', source_url = '''',
      fetched_revision = ''r2'', item_title = '''', item_state = Open, item_blocked_by = []\<rparr>"
     "\<lparr>item_id = ImportedItemId 1, integration = ''gh'', remote_id = ''9'', source_url = '''',
      fetched_revision = ''r1'', item_title = '''', item_state = Open, item_blocked_by = []\<rparr>"]
  by (simp add: apply_refresh_def)

text \<open>
  What a model proposes is contained: the result is the real and shown ids among the
  proposed ones, each once, in the order of their first mention.
\<close>

theorem proposals_contained:
  "contain_proposals proposed real_ids shown_batch
     = rev (remdups (rev (filter (\<lambda>c. c \<in> set real_ids \<and> c \<in> set shown_batch) proposed)))"
  using contain_loop_eq [of real_ids shown_batch "[]" proposed] by (simp add: contain_proposals_def)

end
