(* ===== verification/Governance.thy ===== *)
theory Governance
  imports Policy Model
begin

text \<open>
  Owner-declared governance: \<^verbatim>\<open>core/governance.rs\<close> (tiers, patterns, rules and the table) and
  the loader of \<^verbatim>\<open>governance.rs\<close>. The YAML parser is third-party code: it is the argument
  \<^verbatim>\<open>yaml\<close> of \<^verbatim>\<open>parse\<close>, from the file's text to the raw structure or its error. What the file
  system reports of the governance file is the argument of \<^verbatim>\<open>load_dir\<close>.
\<close>

section \<open>Tiers\<close>

datatype GovernanceTier = Supervised | Standard | Trusted

definition GovernanceTier_default :: GovernanceTier where
  "GovernanceTier_default = Supervised"

definition DEFAULT_FAN_OUT :: u32 where
  "DEFAULT_FAN_OUT = 4"

definition GovernanceTier_label :: "GovernanceTier \<Rightarrow> string" where
  "GovernanceTier_label t = (case t of
      Supervised \<Rightarrow> ''supervised'' | Standard \<Rightarrow> ''standard'' | Trusted \<Rightarrow> ''trusted'')"

definition GovernanceTier_parse :: "string \<Rightarrow> GovernanceTier option" where
  "GovernanceTier_parse text =
     (let t = to_ascii_lowercase (trim text) in
      if t = ''supervised'' then Some Supervised
      else if t = ''standard'' then Some Standard
      else if t = ''trusted'' then Some Trusted
      else None)"

definition policy_ceiling :: "GovernanceTier \<Rightarrow> PolicyMode" where
  "policy_ceiling t = (case t of
      Supervised \<Rightarrow> PolicyMode.WorkspaceWrite
    | Standard \<Rightarrow> PolicyMode.FullAuto
    | Trusted \<Rightarrow> PolicyMode.FullAuto)"

definition GovernanceTier_clamp :: "GovernanceTier \<Rightarrow> PolicyMode \<Rightarrow> PolicyMode" where
  "GovernanceTier_clamp t requested = narrower_of requested (policy_ceiling t)"


definition fan_out :: "GovernanceTier \<Rightarrow> u32" where
  "fan_out t = (case t of
      Supervised \<Rightarrow> 1 | Standard \<Rightarrow> DEFAULT_FAN_OUT | Trusted \<Rightarrow> DEFAULT_FAN_OUT)"


section \<open>Patterns, rules and the table\<close>

datatype ModelPattern = Exact string | Prefix string

definition ModelPattern_parse :: "string \<Rightarrow> ModelPattern" where
  "ModelPattern_parse text = (case strip_suffix text ''*'' of
      None \<Rightarrow> Exact (to_ascii_lowercase text)
    | Some prefix \<Rightarrow> Prefix (to_ascii_lowercase prefix))"

definition ModelPattern_matches :: "ModelPattern \<Rightarrow> string \<Rightarrow> bool" where
  "ModelPattern_matches p model =
     (let model = to_ascii_lowercase model in
      case p of
        Exact exact \<Rightarrow> exact = model
      | Prefix prefix \<Rightarrow> starts_with model prefix)"

record GovernanceRule =
  rule_provider :: string
  rule_model :: ModelPattern
  rule_tier :: GovernanceTier

definition GovernanceRule_matches :: "GovernanceRule \<Rightarrow> ProviderId \<Rightarrow> ModelId \<Rightarrow> bool" where
  "GovernanceRule_matches r provider model =
     (eq_ignore_ascii_case (rule_provider r) (provider_str provider)
      \<and> ModelPattern_matches (rule_model r) (model_str model))"

record GovernanceTable =
  default_tier :: GovernanceTier
  rules :: "GovernanceRule list"

definition GovernanceTable_default :: GovernanceTable where
  "GovernanceTable_default = \<lparr>default_tier = Trusted, rules = []\<rparr>"

definition GovernanceTable_narrowest :: GovernanceTable where
  "GovernanceTable_narrowest = \<lparr>default_tier = Supervised, rules = []\<rparr>"

definition tier_for :: "GovernanceTable \<Rightarrow> ProviderId \<Rightarrow> ModelId \<Rightarrow> GovernanceTier" where
  "tier_for tbl provider model =
     (case find (\<lambda>rule. GovernanceRule_matches rule provider model) (rules tbl) of
        None \<Rightarrow> default_tier tbl
      | Some rule \<Rightarrow> rule_tier rule)"

definition GovernanceTable_clamp ::
  "GovernanceTable \<Rightarrow> ProviderId \<Rightarrow> ModelId \<Rightarrow> PolicyMode \<Rightarrow> PolicyMode" where
  "GovernanceTable_clamp tbl provider model requested =
     GovernanceTier_clamp (tier_for tbl provider model) requested"

section \<open>The loader\<close>

definition MAX_FILE_BYTES :: nat where
  "MAX_FILE_BYTES = 64 * 1024"

definition MAX_RULES :: nat where
  "MAX_RULES = 512"

record RawMatch =
  raw_provider :: string
  raw_model :: string

record RawRule =
  matcher :: RawMatch
  raw_tier :: string

record RawGovernance =
  raw_default :: "string option"
  raw_models :: "RawRule list"

fun parse_rules :: "nat \<Rightarrow> RawRule list \<Rightarrow> (GovernanceRule list, string) result" where
  "parse_rules index [] = Inr []"
| "parse_rules index (raw_rule # raws) =
     (case GovernanceTier_parse (raw_tier raw_rule) of
        None \<Rightarrow> Inl (''rule '' @ show_nat (index + 1) @ '': unknown tier '' @ apos
                 @ raw_tier raw_rule @ apos @ '' (expected supervised, standard, or trusted)'')
      | Some tier \<Rightarrow>
          if trim (raw_provider (matcher raw_rule)) = []
             \<or> trim (raw_model (matcher raw_rule)) = []
          then Inl (''rule '' @ show_nat (index + 1)
                 @ '': match needs both a provider and a model'')
          else map_ok (\<lambda>rs. \<lparr>rule_provider = trim (raw_provider (matcher raw_rule)),
                        rule_model = ModelPattern_parse (trim (raw_model (matcher raw_rule))),
                        rule_tier = tier\<rparr> # rs)
                 (parse_rules (index + 1) raws))"

definition Governance_parse ::
  "(string \<Rightarrow> (RawGovernance, string) result) \<Rightarrow> string \<Rightarrow> (GovernanceTable, string) result" where
  "Governance_parse yaml content =
     and_then (map_err (\<lambda>error. ''invalid YAML: '' @ error) (yaml content)) (\<lambda>raw.
       if length (raw_models raw) > MAX_RULES
       then Inl (show_nat (length (raw_models raw)) @ '' rules exceeds the ''
              @ show_nat MAX_RULES @ ''-rule budget'')
       else and_then
         (case raw_default raw of
            Some text \<Rightarrow> ok_or (''unknown default tier '' @ apos @ text @ apos)
                            (GovernanceTier_parse text)
          | None \<Rightarrow> Inr Supervised) (\<lambda>default.
         map_ok (\<lambda>rs. \<lparr>default_tier = default, rules = rs\<rparr>) (parse_rules 0 (raw_models raw))))"

text \<open>
  The file as the file system reports it: absent (no metadata), or its size and the result
  of reading it as UTF-8.
\<close>

type_synonym gov_file = "(nat \<times> (string, string) result) option"

definition load_dir ::
  "(string \<Rightarrow> (RawGovernance, string) result) \<Rightarrow> gov_file \<Rightarrow> GovernanceTable \<times> string list" where
  "load_dir yaml file = (case file of
      None \<Rightarrow> (GovernanceTable_default, [])
    | Some (len, read) \<Rightarrow>
        if len > MAX_FILE_BYTES
        then (GovernanceTable_narrowest,
              [''file exceeds the '' @ show_nat MAX_FILE_BYTES @ ''-byte governance budget''])
        else (case read of
            Inl error \<Rightarrow> (GovernanceTable_narrowest, [''not readable UTF-8: '' @ error])
          | Inr content \<Rightarrow> (case Governance_parse yaml content of
                Inr table \<Rightarrow> (table, [])
              | Inl detail \<Rightarrow> (GovernanceTable_narrowest, [detail]))))"

section \<open>Lemmas\<close>

lemma GovernanceTier_parse_label: "GovernanceTier_parse (GovernanceTier_label t) = Some t"
  by (cases t) (simp_all add: GovernanceTier_parse_def GovernanceTier_label_def trim_def
      is_cont_def is_whitespace_def chunk_codes_def to_ascii_lowercase_def ascii_lower_char_def
      Let_def char_of_def)

lemma tier_clamp_width:
  "mode_width (GovernanceTier_clamp t m) = min (mode_width m) (mode_width (policy_ceiling t))"
  by (simp add: GovernanceTier_clamp_def)

interpretation tier_ceiling: ceiling GovernanceTier_clamp mode_width
  by unfold_locales (auto simp: GovernanceTier_clamp_def narrower_of_eq)

interpretation table_ceiling:
  ceiling "\<lambda>(tbl, provider, model) m. GovernanceTable_clamp tbl provider model m" mode_width
  by unfold_locales (auto simp: GovernanceTable_clamp_def GovernanceTier_clamp_def narrower_of_eq)


lemma parse_rules_length: "parse_rules i raws = Inr rs \<Longrightarrow> length rs = length raws"
  by (induction i raws arbitrary: rs rule: parse_rules.induct)
    (auto simp: map_ok_Inr split: option.splits if_splits)

lemma Governance_parse_bounded:
  "Governance_parse yaml content = Inr tbl \<Longrightarrow> length (rules tbl) \<le> MAX_RULES"
  by (auto simp: Governance_parse_def and_then_Inr map_ok_Inr dest!: parse_rules_length
      split: if_splits)

text \<open>A diagnostic is reported exactly when the narrowest table is the one in force.\<close>

lemma load_dir_diagnosed:
  "snd (load_dir yaml file) \<noteq> [] \<Longrightarrow> fst (load_dir yaml file) = GovernanceTable_narrowest"
  by (auto simp: load_dir_def split: option.splits prod.splits if_splits sum.splits)


section \<open>What the file says\<close>


definition raw_ok :: "RawGovernance \<Rightarrow> bool" where
  "raw_ok raw \<longleftrightarrow> int (length (raw_models raw)) \<le> 512
     \<and> (case raw_default raw of None \<Rightarrow> True | Some text \<Rightarrow> GovernanceTier_parse text \<noteq> None)
     \<and> (\<forall>r \<in> set (raw_models raw). GovernanceTier_parse (raw_tier r) \<noteq> None
          \<and> trim (raw_provider (matcher r)) \<noteq> [] \<and> trim (raw_model (matcher r)) \<noteq> [])"


lemma parse_rules_Inr:
  "parse_rules i raws = Inr rs \<longleftrightarrow>
     (\<forall>r \<in> set raws. GovernanceTier_parse (raw_tier r) \<noteq> None
        \<and> trim (raw_provider (matcher r)) \<noteq> [] \<and> trim (raw_model (matcher r)) \<noteq> [])
     \<and> rs = map (\<lambda>r. \<lparr>rule_provider = trim (raw_provider (matcher r)),
         rule_model = ModelPattern_parse (trim (raw_model (matcher r))),
         rule_tier = the (GovernanceTier_parse (raw_tier r))\<rparr>) raws"
  by (induction i raws arbitrary: rs rule: parse_rules.induct) (auto simp: map_ok_Inr split: option.splits)

lemma Governance_parse_raw:
  assumes "yaml content = Inr raw"
  shows "Governance_parse yaml content = Inr tbl \<longleftrightarrow> raw_ok raw
    \<and> tbl = \<lparr>default_tier = (case raw_default raw of None \<Rightarrow> Supervised | Some text \<Rightarrow> the (GovernanceTier_parse text)),
        rules = map (\<lambda>r. \<lparr>rule_provider = trim (raw_provider (matcher r)),
          rule_model = ModelPattern_parse (trim (raw_model (matcher r))),
          rule_tier = the (GovernanceTier_parse (raw_tier r))\<rparr>) (raw_models raw)\<rparr>"
  using assms
  by (auto simp: Governance_parse_def and_then_Inr map_ok_Inr parse_rules_Inr raw_ok_def MAX_RULES_def ok_or_def
      split: option.splits if_splits)

lemma Governance_parse_ok:
  "is_ok (Governance_parse yaml content) \<longleftrightarrow> (case yaml content of Inr raw \<Rightarrow> raw_ok raw | Inl _ \<Rightarrow> False)"
proof (cases "yaml content")
  case (Inl e)
  then show ?thesis by (simp add: Governance_parse_def is_ok_def)
next
  case (Inr raw)
  from Governance_parse_raw [of yaml, OF Inr] Inr show ?thesis
    by (cases "Governance_parse yaml content") (auto simp: is_ok_def)
qed



section \<open>Properties\<close>




end
