(* ===== verification/Routing.thy ===== *)
theory Routing
  imports Model Contracts
begin

text \<open>
  Routes, roles and circuit breakers (\<^verbatim>\<open>core/routing.rs\<close>): an ordered list of hops per
  route, the role index that is rebuilt from the routes' claims, the precedence by which a
  route is resolved, and the breaker each provider has while a route is attached.
\<close>

section \<open>Routes\<close>

record RouteHop =
  hop_provider :: ProviderId
  hop_model :: ModelId

record BreakerConfig =
  failure_threshold :: u32
  recovery_timeout :: nat

text \<open>A duration is a number of nanoseconds, as instants are; the default is a minute.\<close>

definition BreakerConfig_default :: BreakerConfig where
  "BreakerConfig_default = \<lparr>failure_threshold = 5, recovery_timeout = 60 * 1000000000\<rparr>"

record RouteDefinition =
  route_name :: string
  hops :: "RouteHop list"
  route_roles :: "string list"
  persona :: "string option"

definition route_hop :: "RouteDefinition \<Rightarrow> nat \<Rightarrow> RouteHop option" where
  "route_hop r position = (if position < length (hops r) then Some (hops r ! position) else None)"

definition WELL_KNOWN_ROLES :: "string list" where
  "WELL_KNOWN_ROLES = [''default'', ''smol'', ''slow'', ''plan'']"

definition is_valid_role_name :: "string \<Rightarrow> bool" where
  "is_valid_role_name role \<longleftrightarrow> role \<noteq> [] \<and> length role \<le> 64
     \<and> (\<forall>c \<in> set role. is_ascii_alphanumeric c \<or> c = CHR ''-'' \<or> c = CHR ''_'')"

datatype RouteSelectionReason =
    Named
  | RoleReason string
  | NamedAfterUnmappedRole string
  | TaskClass string
  | ChildDefault

datatype RouteAdvanceCondition =
    QuotaReserveBreached
  | ProviderFailure ReasonCode
  | BreakerOpen

definition RouteAdvanceCondition_label :: "RouteAdvanceCondition \<Rightarrow> string" where
  "RouteAdvanceCondition_label c = (case c of
      QuotaReserveBreached \<Rightarrow> ''quota reserve breached''
    | ProviderFailure _ \<Rightarrow> ''typed provider failure''
    | BreakerOpen \<Rightarrow> ''circuit breaker open'')"

datatype AdvanceOutcome = Advanced nat RouteHop | Exhausted

definition advance_position :: "RouteDefinition \<Rightarrow> nat \<Rightarrow> AdvanceOutcome" where
  "advance_position route position = (let next = position + 1 in
     case route_hop route next of
       Some hop \<Rightarrow> Advanced next hop
     | None \<Rightarrow> Exhausted)"

record RouteRuntime =
  rt_route :: string
  rt_position :: nat

text \<open>
  The walk of a route that fails at every hop: the positions and hops \<^verbatim>\<open>advance_position\<close>
  leads to from a position on. The measure is the number of hops that are left.
\<close>

function walk_route :: "RouteDefinition \<Rightarrow> nat \<Rightarrow> (nat \<times> RouteHop) list" where
  "walk_route r position = (case advance_position r position of
     Advanced next hop \<Rightarrow> (next, hop) # walk_route r next
   | Exhausted \<Rightarrow> [])"
  by pat_completeness auto
termination
  by (relation "measure (\<lambda>(r, p). length (hops r) - p)")
    (auto simp: advance_position_def route_hop_def Let_def split: if_splits)

declare walk_route.simps [simp del]

lemma advance_position_Advanced:
  "advance_position r p = Advanced q hop \<longleftrightarrow> q = Suc p \<and> q < length (hops r) \<and> hop = hops r ! q"
  by (auto simp: advance_position_def route_hop_def Let_def)

lemma advance_position_Exhausted: "advance_position r p = Exhausted \<longleftrightarrow> length (hops r) \<le> Suc p"
  by (auto simp: advance_position_def route_hop_def Let_def)

section \<open>Circuit breakers\<close>

datatype BreakerState = Closed | Open | HalfOpen

definition BreakerState_label :: "BreakerState \<Rightarrow> string" where
  "BreakerState_label s = (case s of
      Closed \<Rightarrow> ''closed'' | Open \<Rightarrow> ''open'' | HalfOpen \<Rightarrow> ''half-open'')"

record BreakerTransition =
  transition_from :: BreakerState
  transition_to :: BreakerState

record CircuitBreaker =
  breaker_state :: BreakerState
  consecutive_failures :: u32
  opened_at :: "instant option"
  breaker_cfg :: BreakerConfig

definition breaker_new :: "BreakerConfig \<Rightarrow> CircuitBreaker" where
  "breaker_new config =
     \<lparr>breaker_state = Closed, consecutive_failures = 0, opened_at = None, breaker_cfg = config\<rparr>"

definition poll :: "instant \<Rightarrow> CircuitBreaker \<Rightarrow> BreakerTransition option \<times> CircuitBreaker" where
  "poll now b =
     (if breaker_state b \<noteq> Open then (None, b)
      else case opened_at b of
        None \<Rightarrow> (None, b)
      | Some opened \<Rightarrow>
          if now < opened + int (recovery_timeout (breaker_cfg b)) then (None, b)
          else (Some \<lparr>transition_from = breaker_state b, transition_to = HalfOpen\<rparr>,
                b\<lparr>breaker_state := HalfOpen\<rparr>))"

definition permits_request :: "CircuitBreaker \<Rightarrow> bool" where
  "permits_request b \<longleftrightarrow> breaker_state b = Closed \<or> breaker_state b = HalfOpen"

text \<open>\<^verbatim>\<open>consecutive_failures += 1\<close> is the unchecked addition at 32 bits.\<close>

definition on_failure :: "instant \<Rightarrow> CircuitBreaker \<Rightarrow> BreakerTransition option \<times> CircuitBreaker" where
  "on_failure now b = (case breaker_state b of
      Closed \<Rightarrow>
        let b' = b\<lparr>consecutive_failures := consecutive_failures b + 1\<rparr> in
        if consecutive_failures b' < failure_threshold (breaker_cfg b') then (None, b')
        else (Some \<lparr>transition_from = Closed, transition_to = Open\<rparr>,
              b'\<lparr>breaker_state := Open, opened_at := Some now\<rparr>)
    | HalfOpen \<Rightarrow>
        (Some \<lparr>transition_from = HalfOpen, transition_to = Open\<rparr>,
         b\<lparr>breaker_state := Open, opened_at := Some now,
           consecutive_failures := failure_threshold (breaker_cfg b)\<rparr>)
    | Open \<Rightarrow> (None, b))"

definition on_success :: "instant \<Rightarrow> CircuitBreaker \<Rightarrow> BreakerTransition option \<times> CircuitBreaker" where
  "on_success now b = (case breaker_state b of
      Closed \<Rightarrow> (None, b\<lparr>consecutive_failures := 0\<rparr>)
    | HalfOpen \<Rightarrow>
        (Some \<lparr>transition_from = HalfOpen, transition_to = Closed\<rparr>,
         b\<lparr>breaker_state := Closed, consecutive_failures := 0, opened_at := None\<rparr>)
    | Open \<Rightarrow> (None, b))"

lemmas breaker_defs [step_defs] = poll_def on_failure_def on_success_def

text \<open>The operations a runtime performs on a breaker, as one labelled step.\<close>

datatype BreakerOp = Poll instant | Failure instant | Success instant

fun breaker_step :: "BreakerOp \<Rightarrow> CircuitBreaker \<Rightarrow> BreakerTransition option \<times> CircuitBreaker" where
  "breaker_step (Poll t) b = poll t b"
| "breaker_step (Failure t) b = on_failure t b"
| "breaker_step (Success t) b = on_success t b"

fun op_time :: "BreakerOp \<Rightarrow> instant" where
  "op_time (Poll t) = t"
| "op_time (Failure t) = t"
| "op_time (Success t) = t"

definition breaker_run :: "BreakerOp list \<Rightarrow> CircuitBreaker \<Rightarrow> CircuitBreaker" where
  "breaker_run ops b = fold (\<lambda>op. snd \<circ> breaker_step op) ops b"

lemma breaker_run_simps [simp]:
  "breaker_run [] b = b"
  "breaker_run (op # ops) b = breaker_run ops (snd (breaker_step op b))"
  "breaker_run (ops @ ops') b = breaker_run ops' (breaker_run ops b)"
  by (simp_all add: breaker_run_def)

text \<open>
  A closed breaker has counted fewer failures than its threshold (so the unchecked addition
  never wraps); a breaker that is not closed remembers when it opened.
\<close>

definition breaker_inv :: "CircuitBreaker \<Rightarrow> bool" where
  [inv_defs]: "breaker_inv b \<longleftrightarrow>
     (breaker_state b = Closed \<longrightarrow> opened_at b = None \<and>
        (consecutive_failures b = 0
         \<or> unat (consecutive_failures b) < unat (failure_threshold (breaker_cfg b))))
     \<and> (breaker_state b \<noteq> Closed \<longrightarrow> opened_at b \<noteq> None)"

lemma breaker_inv_new: "breaker_inv (breaker_new c)"
  by (simp add: breaker_inv_def breaker_new_def)

lemma closed_count_no_wrap:
  assumes "breaker_inv b" "breaker_state b = Closed"
  shows "unat (consecutive_failures b + 1) = Suc (unat (consecutive_failures b))"
proof -
  have "consecutive_failures b \<noteq> - 1"
  proof
    assume m: "consecutive_failures b = - 1"
    then have "unat (consecutive_failures b) = 2 ^ 32 - 1" by (simp add: unat_minus_one_max)
    moreover have "unat (failure_threshold (breaker_cfg b)) \<le> 4294967295" by (rule unat_u32_le)
    ultimately show False using assms m by (auto simp: breaker_inv_def)
  qed
  then have "1 + consecutive_failures b \<noteq> 0"
    by (metis add.commute add_eq_0_iff)
  then have "unat (1 + consecutive_failures b) = Suc (unat (consecutive_failures b))"
    by (simp add: unatSuc)
  then show ?thesis by (simp add: add.commute)
qed

lemma breaker_step_inv:
  assumes "breaker_inv b"
  shows "breaker_inv (snd (breaker_step op b))"
proof (cases op)
  case (Failure t)
  with assms closed_count_no_wrap [OF assms] show ?thesis
    by (auto simp: breaker_inv_def on_failure_def Let_def word_less_nat_alt
        split: BreakerState.splits)
next
  case (Poll t)
  with assms show ?thesis
    by (auto simp: breaker_inv_def poll_def split: option.splits)
next
  case (Success t)
  with assms show ?thesis
    by (auto simp: breaker_inv_def on_success_def split: BreakerState.splits)
qed

interpretation breaker: guarded_fold "\<lambda>op b. (Inr (snd (breaker_step op b)) :: (CircuitBreaker, unit) result)"
  breaker_inv
  by unfold_locales (auto simp: breaker_step_inv)

lemma breaker_run_replay:
  "replay (\<lambda>op b. (Inr (snd (breaker_step op b)) :: (CircuitBreaker, unit) result)) ops b
     = Inr (breaker_run ops b)"
  by (induction ops arbitrary: b) auto

lemma breaker_run_inv: "breaker_inv b \<Longrightarrow> breaker_inv (breaker_run ops b)"
  using breaker.replay_inv [OF _ breaker_run_replay] by blast

lemma breaker_step_config [simp]: "breaker_cfg (snd (breaker_step op b)) = breaker_cfg b"
  by (cases op) (auto simp: step_defs Let_def split: BreakerState.splits option.splits)

text \<open>An open breaker stays as it is until its recovery timeout has passed.\<close>

lemma open_step_early:
  assumes "breaker_state b = Open" "opened_at b = Some t"
    "op_time op < t + int (recovery_timeout (breaker_cfg b))"
  shows "breaker_step op b = (None, b)"
  using assms by (cases op) (auto simp: step_defs)

lemma open_run_early:
  assumes "breaker_state b = Open" "opened_at b = Some t"
    "\<forall>op \<in> set ops. op_time op < t + int (recovery_timeout (breaker_cfg b))"
  shows "breaker_run ops b = b"
  using assms by (induction ops) (auto simp: open_step_early)

text \<open>The longest suffix of failures, and whether a run of failures of a length occurs.\<close>

fun is_failure :: "BreakerOp \<Rightarrow> bool" where
  "is_failure (Failure _) = True"
| "is_failure _ = False"

fun is_poll :: "BreakerOp \<Rightarrow> bool" where
  "is_poll (Poll _) = True"
| "is_poll _ = False"

definition trailing_failures :: "BreakerOp list \<Rightarrow> nat" where
  "trailing_failures ops = length (takeWhile is_failure (rev ops))"

lemma trailing_failures_simps [simp]:
  "trailing_failures [] = 0"
  "trailing_failures (ops @ [op]) = (if is_failure op then Suc (trailing_failures ops) else 0)"
  by (simp_all add: trailing_failures_def)

lemma breaker_run_config: "breaker_cfg (breaker_run ops b) = breaker_cfg b"
  by (induction ops arbitrary: b) auto

text \<open>
  What a breaker was told of requests, and whether so many failures in a row were ever among
  it as its threshold asks for; a threshold of zero counts as one.
\<close>

definition outcomes :: "BreakerOp list \<Rightarrow> BreakerOp list" where
  "outcomes ops = filter (\<lambda>op. \<not> is_poll op) ops"

definition tripped :: "BreakerConfig \<Rightarrow> BreakerOp list \<Rightarrow> bool" where
  "tripped c ops \<longleftrightarrow> (\<exists>n. max 1 (unat (failure_threshold c)) \<le> trailing_failures (take n (outcomes ops)))"

lemma outcomes_snoc [simp]: "outcomes (ops @ [op]) = (if is_poll op then outcomes ops else outcomes ops @ [op])"
  by (simp add: outcomes_def)

lemma trailing_prefix_snoc:
  "(\<exists>n. trailing_failures (take n (ops @ [op])) \<ge> k)
     \<longleftrightarrow> (\<exists>n. trailing_failures (take n ops) \<ge> k) \<or> trailing_failures (ops @ [op]) \<ge> k"
proof -
  have ex: "(\<exists>n. P (take n (ops @ [op]))) \<longleftrightarrow> (\<exists>n. P (take n ops)) \<or> P (ops @ [op])" for P
  proof
    assume "\<exists>n. P (take n (ops @ [op]))"
    then obtain n where n: "P (take n (ops @ [op]))" by blast
    then show "(\<exists>n. P (take n ops)) \<or> P (ops @ [op])"
      by (cases "n \<le> length ops") auto
  next
    assume "(\<exists>n. P (take n ops)) \<or> P (ops @ [op])"
    moreover have "take n ops = take (min n (length ops)) (ops @ [op])" for n
      by (cases "n \<le> length ops") simp_all
    moreover have "ops @ [op] = take (Suc (length ops)) (ops @ [op])" by simp
    ultimately show "\<exists>n. P (take n (ops @ [op]))" by metis
  qed
  show ?thesis by (rule ex)
qed

record BreakerView =
  view_provider :: ProviderId
  view_state :: BreakerState
  view_failures :: u32

section \<open>The route table\<close>

record RouteTable =
  routes :: "(string, RouteDefinition) btree_map"
  roles :: "(string, string) btree_map"
  task_classes :: "(string, string) btree_map"
  child_default :: "string option"
  breaker_configs :: "(string, BreakerConfig) btree_map"

definition RouteTable_default :: RouteTable where
  "RouteTable_default = \<lparr>routes = [], roles = [], task_classes = [], child_default = None,
     breaker_configs = []\<rparr>"

definition RouteTable_is_empty :: "RouteTable \<Rightarrow> bool" where
  "RouteTable_is_empty tbl \<longleftrightarrow> routes tbl = []"

text \<open>The loop of \<^verbatim>\<open>reindex_roles\<close> over the claims, route by route in name order.\<close>

type_synonym role_refusal = "string \<times> string \<times> string"

definition claim_step ::
  "string \<times> string \<Rightarrow> (string, string) btree_map \<times> role_refusal list
     \<Rightarrow> (string, string) btree_map \<times> role_refusal list" where
  "claim_step = (\<lambda>(name, role) (index, refused).
     if \<not> is_valid_role_name role
     then (index, refused @ [(name, role,
       ''a role name must be 1-64 characters of ASCII letters, digits, '' @ [CHR 0x27] @ ''-''
         @ [CHR 0x27] @ '', or '' @ [CHR 0x27] @ ''_'' @ [CHR 0x27])])
     else case bt_get index role of
       None \<Rightarrow> (bt_insert role name index, refused)
     | Some taken \<Rightarrow> (index, refused @ [(name, role,
         ''role is already claimed by route '' @ [CHR 0x27] @ taken @ [CHR 0x27])]))"

definition role_claims :: "RouteTable \<Rightarrow> (string \<times> string) list" where
  "role_claims tbl =
     concat (map (\<lambda>(name, d). map (\<lambda>role. (name, role)) (route_roles d)) (routes tbl))"

definition reindex_roles :: "RouteTable \<Rightarrow> role_refusal list \<times> RouteTable" where
  "reindex_roles tbl = (let (index, refused) = fold claim_step (role_claims tbl) ([], []) in
     (refused, tbl\<lparr>roles := index\<rparr>))"

definition route_for_role :: "RouteTable \<Rightarrow> string \<Rightarrow> RouteDefinition option" where
  "route_for_role tbl role = (case bt_get (roles tbl) role of
      None \<Rightarrow> None
    | Some name \<Rightarrow> bt_get (routes tbl) name)"

definition resolve ::
  "RouteTable \<Rightarrow> string option \<Rightarrow> string option \<Rightarrow> string
     \<Rightarrow> (RouteDefinition \<times> RouteSelectionReason) option" where
  "resolve tbl requested role task_class =
     (let by_name = (\<lambda>reason name. map_option (\<lambda>route. (route, reason)) (bt_get (routes tbl) name));
          rest = (case requested of
             Some name \<Rightarrow> by_name Named name
           | None \<Rightarrow> (case bt_get (task_classes tbl) task_class of
               None \<Rightarrow> None
             | Some name \<Rightarrow> by_name (TaskClass task_class) name))
      in case role of
        None \<Rightarrow> rest
      | Some role \<Rightarrow> (case route_for_role tbl role of
          Some route \<Rightarrow> Some (route, RoleReason role)
        | None \<Rightarrow> (case requested of
            Some name \<Rightarrow> by_name (NamedAfterUnmappedRole role) name
          | None \<Rightarrow> rest)))"

definition resolve_child ::
  "RouteTable \<Rightarrow> string option \<Rightarrow> string option
     \<Rightarrow> (RouteDefinition \<times> RouteSelectionReason) option" where
  "resolve_child tbl requested role =
     (let by_name = (\<lambda>reason name. map_option (\<lambda>route. (route, reason)) (bt_get (routes tbl) name));
          rest = (case requested of
             Some name \<Rightarrow> by_name Named name
           | None \<Rightarrow> (case child_default tbl of
               None \<Rightarrow> None
             | Some name \<Rightarrow> by_name ChildDefault name))
      in case role of
        None \<Rightarrow> rest
      | Some role \<Rightarrow> (case route_for_role tbl role of
          Some route \<Rightarrow> Some (route, RoleReason role)
        | None \<Rightarrow> (case requested of
            Some name \<Rightarrow> by_name (NamedAfterUnmappedRole role) name
          | None \<Rightarrow> rest)))"

definition breaker_config :: "RouteTable \<Rightarrow> ProviderId \<Rightarrow> BreakerConfig" where
  "breaker_config tbl p = (case bt_get (breaker_configs tbl) (provider_str p) of
      Some c \<Rightarrow> c
    | None \<Rightarrow> BreakerConfig_default)"

text \<open>What the index holds after a list of claims: the first valid claim of each role.\<close>

lemma claims_fold:
  "fold claim_step claims (index, refused) = (index', refused') \<Longrightarrow>
     bt_get index' role = (case bt_get index role of
        Some n \<Rightarrow> Some n
      | None \<Rightarrow> if is_valid_role_name role
          then map_option fst (find (\<lambda>(n, r). r = role) claims) else None)
     \<and> length refused' + card (fst ` set index') = length refused + card (fst ` set index) + length claims
     \<and> (bt_wf index \<longrightarrow> bt_wf index')"
proof (induction claims arbitrary: index refused)
  case Nil
  then show ?case by (auto split: option.splits)
next
  case (Cons c claims)
  obtain n r where c: "c = (n, r)" by (cases c)
  show ?case
  proof (cases "is_valid_role_name r \<and> bt_get index r = None")
    case True
    then have s: "claim_step c (index, refused) = (bt_insert r n index, refused)"
      by (simp add: claim_step_def c)
    have "r \<notin> fst ` set index"
      using True bt_contains_iff [of index r] by (simp add: bt_contains_def)
    with Cons.IH [of "bt_insert r n index" refused] Cons.prems s True c show ?thesis
      by (auto split: option.splits)
  next
    case False
    then obtain m where s: "claim_step c (index, refused) = (index, refused @ [m])"
      by (cases "bt_get index r"; cases "is_valid_role_name r") (auto simp: claim_step_def c)
    with Cons.IH [of index "refused @ [m]"] Cons.prems False c show ?thesis
      by (auto split: option.splits)
  qed
qed

section \<open>Properties\<close>

lemma tripped_snoc:
  "tripped c (ops @ [op]) \<longleftrightarrow> tripped c ops
     \<or> is_failure op \<and> max 1 (unat (failure_threshold c)) \<le> Suc (trailing_failures (outcomes ops))"
  using trailing_prefix_snoc [of "max 1 (unat (failure_threshold c))" "outcomes ops" op]
  by (cases op) (auto simp: tripped_def)

lemma breaker_untripped:
  "\<not> tripped c ops \<Longrightarrow> breaker_state (breaker_run ops (breaker_new c)) = Closed
     \<and> unat (consecutive_failures (breaker_run ops (breaker_new c))) = trailing_failures (outcomes ops)"
proof (induction ops rule: rev_induct)
  case Nil
  then show ?case by (simp add: breaker_new_def outcomes_def)
next
  case (snoc op ops)
  let ?b = "breaker_run ops (breaker_new c)"
  have inv: "breaker_inv ?b" by (simp add: breaker_run_inv breaker_inv_new)
  have cfg: "breaker_cfg ?b = c" by (simp add: breaker_run_config breaker_new_def)
  from snoc have st: "breaker_state ?b = Closed"
    and cnt: "unat (consecutive_failures ?b) = trailing_failures (outcomes ops)" by (auto simp: tripped_snoc)
  show ?case
  proof (cases op)
    case (Failure t)
    with snoc.prems st cnt closed_count_no_wrap [OF inv st] cfg show ?thesis
      by (auto simp: tripped_snoc on_failure_def Let_def word_less_nat_alt)
  qed (use st cnt in \<open>simp_all add: poll_def on_success_def\<close>)
qed

lemma breaker_trip:
  assumes "\<not> tripped c ops" "tripped c (ops @ [op])"
  shows "is_failure op \<and> breaker_state (breaker_run (ops @ [op]) (breaker_new c)) = Open
    \<and> opened_at (breaker_run (ops @ [op]) (breaker_new c)) = Some (op_time op)"
proof -
  let ?b = "breaker_run ops (breaker_new c)"
  have inv: "breaker_inv ?b" by (simp add: breaker_run_inv breaker_inv_new)
  have cfg: "breaker_cfg ?b = c" by (simp add: breaker_run_config breaker_new_def)
  note b = breaker_untripped [OF assms(1)]
  from assms obtain t where op: "op = Failure t" and k: "max 1 (unat (failure_threshold c)) \<le> Suc (trailing_failures (outcomes ops))"
    by (cases op) (auto simp: tripped_snoc)
  show ?thesis
    using b k closed_count_no_wrap [OF inv conjunct1 [OF b]] cfg
    by (auto simp: op on_failure_def Let_def word_less_nat_alt)
qed

text \<open>
  C38: a circuit breaker follows the requests. As long as the failures reported to it were never
  so many in a row as its threshold, it is closed and counts the last ones; polls change
  nothing. The failure that completes the row opens it at that moment. Open, it knows since
  when, nothing that happens before its recovery timeout has passed changes it or lets a
  request through, and the first poll after that lets a probe through: a failed one opens it
  anew from that moment, a successful one makes it as good as new.
\<close>

theorem breaker_follows_requests:
  assumes "b = breaker_run ops (breaker_new c)"
  shows "(\<not> tripped c ops \<longrightarrow> breaker_state b = Closed \<and> permits_request b
      \<and> unat (consecutive_failures b) = trailing_failures (outcomes ops))
    \<and> (\<not> tripped c ops \<and> tripped c (ops @ [op]) \<longrightarrow> is_failure op
        \<and> breaker_state (snd (breaker_step op b)) = Open \<and> opened_at (snd (breaker_step op b)) = Some (op_time op))
    \<and> (breaker_state b = Open \<longrightarrow> (\<exists>t. opened_at b = Some t
        \<and> (\<forall>later. (\<forall>op \<in> set later. op_time op < t + int (recovery_timeout c))
             \<longrightarrow> breaker_run later b = b \<and> \<not> permits_request (breaker_run later b))
        \<and> (\<forall>now \<ge> t + int (recovery_timeout c). permits_request (snd (poll now b))
             \<and> (\<forall>s. breaker_state (breaker_run [Poll now, Failure s] b) = Open
                \<and> opened_at (breaker_run [Poll now, Failure s] b) = Some s
                \<and> breaker_run [Poll now, Success s] b = breaker_new c))))"
proof (intro conjI impI)
  have inv: "breaker_inv b" by (simp add: assms breaker_run_inv breaker_inv_new)
  have cfg: "breaker_cfg b = c" by (simp add: assms breaker_run_config breaker_new_def)
  assume o: "breaker_state b = Open"
  with inv obtain t where t: "opened_at b = Some t" by (auto simp: breaker_inv_def)
  with o open_run_early [OF o t] cfg show "\<exists>t. opened_at b = Some t
        \<and> (\<forall>later. (\<forall>op \<in> set later. op_time op < t + int (recovery_timeout c))
             \<longrightarrow> breaker_run later b = b \<and> \<not> permits_request (breaker_run later b))
        \<and> (\<forall>now \<ge> t + int (recovery_timeout c). permits_request (snd (poll now b))
             \<and> (\<forall>s. breaker_state (breaker_run [Poll now, Failure s] b) = Open
                \<and> opened_at (breaker_run [Poll now, Failure s] b) = Some s
                \<and> breaker_run [Poll now, Success s] b = breaker_new c))"
    by (auto simp: step_defs permits_request_def breaker_new_def)
qed (use breaker_untripped [of c ops] breaker_trip [of c ops op] in \<open>auto simp: assms permits_request_def\<close>)

theorem breaker_follows_requests_witness:
  "breaker_run [Poll 9, Poll 14, Success 15] (breaker_run [Failure 1, Success 2, Poll 3, Failure 3, Failure 4]
     (breaker_new \<lparr>failure_threshold = 2, recovery_timeout = 10\<rparr>))
   = breaker_new \<lparr>failure_threshold = 2, recovery_timeout = 10\<rparr>"
proof -
  let ?c = "\<lparr>failure_threshold = 2, recovery_timeout = 10\<rparr> :: BreakerConfig"
  let ?b = "breaker_run [Failure 1, Success 2, Poll 3, Failure 3, Failure 4] (breaker_new ?c)"
  have o: "breaker_state ?b = Open" "opened_at ?b = Some 4"
    by (simp_all add: step_defs breaker_new_def)
  from breaker_follows_requests [of ?b "[Failure 1, Success 2, Poll 3, Failure 3, Failure 4]" ?c] o
  have e: "\<And>later. \<forall>op \<in> set later. op_time op < 14 \<Longrightarrow> breaker_run later ?b = ?b"
    and p: "\<And>s. breaker_run [Poll 14, Success s] ?b = breaker_new ?c" by auto
  from e [of "[Poll 9]"] p show ?thesis by (simp only: breaker_run_simps) simp
qed

text \<open>
  The role index is fair and complete: a role belongs to the first route, in name order,
  that validly claims it, an invalid name belongs to none, and every claim is either indexed
  or reported as refused.
\<close>

theorem roles_reindexed:
  "bt_get (roles (snd (reindex_roles tbl))) role =
     (if is_valid_role_name role
      then map_option fst (find (\<lambda>(name, r). r = role) (role_claims tbl)) else None)
   \<and> length (fst (reindex_roles tbl)) + card (fst ` set (roles (snd (reindex_roles tbl))))
       = length (role_claims tbl)
   \<and> bt_wf (roles (snd (reindex_roles tbl)))"
proof -
  obtain index refused where f: "fold claim_step (role_claims tbl) ([], []) = (index, refused)"
    by (cases "fold claim_step (role_claims tbl) ([], [])")
  from claims_fold [OF f, of role] show ?thesis by (simp add: reindex_roles_def f)
qed

text \<open>
  The reason recorded with a selected route is the true one: the route is in the table
  under the name that the reason says chose it, and a weaker reason is given only when the
  stronger ones did not apply.
\<close>

theorem route_reason_truthful:
  assumes "resolve tbl requested role task_class = Some (d, why)"
  shows "\<exists>name. bt_get (routes tbl) name = Some d \<and> (case why of
        RoleReason r \<Rightarrow> role = Some r \<and> bt_get (roles tbl) r = Some name
      | Named \<Rightarrow> role = None \<and> requested = Some name
      | NamedAfterUnmappedRole r \<Rightarrow> role = Some r \<and> route_for_role tbl r = None \<and> requested = Some name
      | TaskClass t \<Rightarrow> t = task_class \<and> requested = None \<and> bt_get (task_classes tbl) t = Some name
          \<and> (case role of None \<Rightarrow> True | Some r \<Rightarrow> route_for_role tbl r = None)
      | ChildDefault \<Rightarrow> False)"
  using assms by (auto simp: resolve_def Let_def route_for_role_def split: option.splits)

theorem route_reason_truthful_witness:
  "bt_get [(''r'', \<lparr>route_name = ''r'', hops = [], route_roles = [''plan''], persona = None\<rparr>)] ''r''
     = Some \<lparr>route_name = ''r'', hops = [], route_roles = [''plan''], persona = None\<rparr>"
  using route_reason_truthful [of "\<lparr>routes = [(''r'', \<lparr>route_name = ''r'', hops = [],
      route_roles = [''plan''], persona = None\<rparr>)], roles = [(''plan'', ''r'')], task_classes = [],
      child_default = None, breaker_configs = []\<rparr>" None "Some ''plan''" "''''"
      "\<lparr>route_name = ''r'', hops = [], route_roles = [''plan''], persona = None\<rparr>" "RoleReason ''plan''"]
  by (simp add: resolve_def route_for_role_def bt_get_def)

text \<open>
  Advancing along a route leads to every later hop once, in order, with its provider and its
  model, and then stops.
\<close>

theorem route_walk_visits_every_hop:
  "walk_route r p = zip [Suc p..<length (hops r)] (drop (Suc p) (hops r))"
proof (induction r p rule: walk_route.induct)
  case (1 r p)
  show ?case
  proof (cases "Suc p < length (hops r)")
    case True
    then have adv: "advance_position r p = Advanced (Suc p) (hops r ! Suc p)"
      by (simp add: advance_position_Advanced)
    have "zip [Suc p..<length (hops r)] (drop (Suc p) (hops r))
        = (Suc p, hops r ! Suc p) # zip [Suc (Suc p)..<length (hops r)] (drop (Suc (Suc p)) (hops r))"
      using True by (simp add: upt_conv_Cons Cons_nth_drop_Suc [symmetric])
    with "1.IH" [OF adv] adv show ?thesis by (simp add: walk_route.simps [of r p])
  next
    case False
    then have "advance_position r p = Exhausted" by (simp add: advance_position_Exhausted)
    with False show ?thesis by (simp add: walk_route.simps [of r p])
  qed
qed

end
