(* ===== verification/Collision.thy ===== *)
theory Collision
  imports Model "HOL-Library.Product_Lexorder"
begin

text \<open>
  Collisions between subagents (\<^verbatim>\<open>runtime/subagent/collision.rs\<close>): a path that one agent
  read and another wrote.
\<close>

record AgentTouch =
  touch_id :: SessionId
  touch_read :: "string list"
  touch_wrote :: "string list"

record Collision =
  collision_reader :: SessionId
  collision_writer :: SessionId
  collision_path :: string

definition collision_key :: "Collision \<Rightarrow> SessionId \<times> SessionId \<times> string" where
  "collision_key c = (collision_reader c, collision_writer c, collision_path c)"

definition reader_collisions :: "AgentTouch list \<Rightarrow> AgentTouch \<Rightarrow> Collision list" where
  "reader_collisions agents reader =
     concat (map (\<lambda>writer.
        map (\<lambda>path. \<lparr>collision_reader = touch_id reader, collision_writer = touch_id writer,
               collision_path = path\<rparr>)
          (filter (\<lambda>path. path \<in> set (touch_read reader)) (touch_wrote writer)))
       (filter (\<lambda>agent. touch_id agent \<noteq> touch_id reader) agents))"

text \<open>Equal keys are equal collisions, so the unstable sort is the stable one.\<close>

definition detect :: "AgentTouch list \<Rightarrow> Collision list" where
  "detect agents = sort_key collision_key (concat (map (reader_collisions agents) agents))"

lemma set_reader_collisions:
  "c \<in> set (reader_collisions agents reader) \<longleftrightarrow>
     collision_reader c = touch_id reader \<and> collision_path c \<in> set (touch_read reader)
     \<and> (\<exists>writer \<in> set agents. touch_id writer \<noteq> touch_id reader
          \<and> collision_writer c = touch_id writer \<and> collision_path c \<in> set (touch_wrote writer))"
  by (cases c) (auto simp: reader_collisions_def)

lemma in_detect:
  "c \<in> set (detect agents) \<longleftrightarrow>
     (\<exists>reader \<in> set agents. c \<in> set (reader_collisions agents reader))"
  by (simp add: detect_def)

section \<open>Properties\<close>

text \<open>
  Collision detection is exact. A collision is reported for a reader, a writer and a path
  exactly if one agent read the path, another agent with a different id wrote it, and those are
  their ids; the report is in key order, whatever the order of the agents.
\<close>

theorem collisions_exact:
  "(\<lparr>collision_reader = r, collision_writer = w, collision_path = path\<rparr> \<in> set (detect agents)) =
     (\<exists>reader \<in> set agents. \<exists>writer \<in> set agents. touch_id reader = r \<and> touch_id writer = w
        \<and> r \<noteq> w \<and> path \<in> set (touch_read reader) \<and> path \<in> set (touch_wrote writer))
   \<and> sorted (map collision_key (detect agents))"
proof
  let ?c = "\<lparr>collision_reader = r, collision_writer = w, collision_path = path\<rparr>"
  have "?c \<in> set (reader_collisions agents reader) \<longleftrightarrow>
      (\<exists>writer \<in> set agents. touch_id reader = r \<and> touch_id writer = w
        \<and> r \<noteq> w \<and> path \<in> set (touch_read reader) \<and> path \<in> set (touch_wrote writer))"
    for reader by (simp add: set_reader_collisions) metis
  then show "(?c \<in> set (detect agents)) =
     (\<exists>reader \<in> set agents. \<exists>writer \<in> set agents. touch_id reader = r \<and> touch_id writer = w
        \<and> r \<noteq> w \<and> path \<in> set (touch_read reader) \<and> path \<in> set (touch_wrote writer))"
    by (simp only: in_detect)
  show "sorted (map collision_key (detect agents))" by (simp add: detect_def)
qed

end
