(* ===== verification/Recovery.thy ===== *)
theory Recovery
  imports Policy Message
begin

text \<open>
  Interrupted work and its recovery (\<^verbatim>\<open>core/recovery.rs\<close>), continuation facts
  (\<^verbatim>\<open>core/continuation.rs\<close>), the budget counters (\<^verbatim>\<open>core/runtime.rs\<close>) and approval decisions
  (\<^verbatim>\<open>core/command.rs\<close>). Paths are byte strings.
\<close>

section \<open>Interrupted work\<close>

datatype Authority = PolicyAuthority | Approval ApprovalId

datatype InterruptedKind =
    ProposalUnapproved ToolCall ToolTier string
  | EffectUncertain Authority ToolCall ToolTier string
  | ProviderTurnInterrupted

record InterruptedWork =
  interrupted_run :: RunId
  interrupted_kind :: InterruptedKind

datatype RecoveryState = Clean | Required InterruptedWork

definition is_required :: "RecoveryState \<Rightarrow> bool" where
  "is_required s = (case s of Clean \<Rightarrow> False | Required _ \<Rightarrow> True)"

definition recovery_work :: "RecoveryState \<Rightarrow> InterruptedWork option" where
  "recovery_work s = (case s of Clean \<Rightarrow> None | Required work \<Rightarrow> Some work)"

definition RecoveryState_reason_code :: "RecoveryState \<Rightarrow> ReasonCode option" where
  "RecoveryState_reason_code s =
     (case s of Clean \<Rightarrow> None | Required _ \<Rightarrow> Some ReasonCode.RecoveryRequiresDecision)"

definition effect_is_certain :: "InterruptedWork \<Rightarrow> bool" where
  "effect_is_certain w = (case interrupted_kind w of
      ProposalUnapproved _ _ _ \<Rightarrow> True
    | EffectUncertain _ _ _ _ \<Rightarrow> False
    | ProviderTurnInterrupted \<Rightarrow> False)"

text \<open>How a UUID is printed belongs to the uuid crate: it is an argument.\<close>

definition Authority_describe :: "(uuid \<Rightarrow> string) \<Rightarrow> Authority \<Rightarrow> string" where
  "Authority_describe show_uuid a = (case a of
      PolicyAuthority \<Rightarrow> ''allowed by the active policy''
    | Approval i \<Rightarrow> ''approved by you ('' @ show_uuid (approval_uuid i) @ '')'')"

definition InterruptedWork_summary :: "(uuid \<Rightarrow> string) \<Rightarrow> InterruptedWork \<Rightarrow> string" where
  "InterruptedWork_summary show_uuid w = (case interrupted_kind w of
      ProposalUnapproved call _ _ \<Rightarrow>
        ''`'' @ call_name call @ ''` was proposed but never authorised, so it did not run.''
    | EffectUncertain authority call _ _ \<Rightarrow>
        ''`'' @ call_name call @ ''` was '' @ Authority_describe show_uuid authority
        @ '' and started, but no outcome was recorded. It may or may not have run. mjolnr cannot tell.''
    | ProviderTurnInterrupted \<Rightarrow>
        ''A model call was interrupted mid-stream. It will not be replayed.'')"

definition InterruptedKind_label :: "InterruptedKind \<Rightarrow> string" where
  "InterruptedKind_label k = (case k of
      ProposalUnapproved _ _ _ \<Rightarrow> ''PROPOSAL_UNAPPROVED''
    | EffectUncertain _ _ _ _ \<Rightarrow> ''EFFECT_UNCERTAIN''
    | ProviderTurnInterrupted \<Rightarrow> ''PROVIDER_TURN_INTERRUPTED'')"

datatype RecoveryDecision = AbandonAndContinue | EndSession

definition RecoveryDecision_label :: "RecoveryDecision \<Rightarrow> string" where
  "RecoveryDecision_label d = (case d of
      AbandonAndContinue \<Rightarrow> ''abandon-and-continue'' | EndSession \<Rightarrow> ''end-session'')"

definition RecoveryDecision_parse :: "string \<Rightarrow> RecoveryDecision option" where
  "RecoveryDecision_parse v =
     (if v = ''abandon-and-continue'' then Some AbandonAndContinue
      else if v = ''end-session'' then Some EndSession
      else None)"

lemma RecoveryDecision_parse_label [rt]: "RecoveryDecision_parse (RecoveryDecision_label d) = Some d"
  by (cases d) (simp_all add: RecoveryDecision_parse_def RecoveryDecision_label_def)

section \<open>Approval decisions\<close>

datatype ApprovalDecision = Deny | ApproveOnce | ApproveExactForSession | AutoByPolicy

text \<open>A proposal that waits for a human (\<^verbatim>\<open>core/policy.rs\<close>).\<close>

record PendingApproval =
  pending_id :: ApprovalId
  pending_tool_name :: string
  pending_tier :: ToolTier
  pending_preview :: string

section \<open>Continuation\<close>

record BudgetStatus =
  used_provider_turns :: u32
  budget_max_provider_turns :: u32
  used_tool_calls :: u32
  budget_max_tool_calls :: u32

definition BudgetStatus_default :: BudgetStatus where
  "BudgetStatus_default = \<lparr>used_provider_turns = 0, budget_max_provider_turns = 0,
     used_tool_calls = 0, budget_max_tool_calls = 0\<rparr>"

record CommandFact =
  fact_command :: string
  fact_outcome :: string

record HandoffCheckpoint =
  ho_id :: HandoffId
  ho_created_at :: instant
  ho_status :: string
  ho_provider :: ProviderId
  ho_model :: ModelId
  ho_files_read :: "string list"
  ho_files_changed :: "string list"
  ho_commands :: "CommandFact list"
  ho_usage :: Usage
  ho_budget :: BudgetStatus
  ho_activated_skills :: "string list"

definition compact_seed :: "(uuid \<Rightarrow> string) \<Rightarrow> (instant \<Rightarrow> string) \<Rightarrow> HandoffCheckpoint \<Rightarrow> string" where
  "compact_seed show_uuid show_instant h =
     ''MJOLNR COMPACT RESUME // handoff '' @ show_uuid (handoff_uuid (ho_id h))
     @ '' created '' @ show_instant (ho_created_at h) @ [CHR 0x0A, CHR 0x0A] @ ho_status h
     @ [CHR 0x0A, CHR 0x0A] @ ''Mechanical facts:'' @ [CHR 0x0A]
     @ ''- files read: '' @ show_nat (length (ho_files_read h)) @ [CHR 0x0A]
     @ ''- files changed: '' @ show_nat (length (ho_files_changed h)) @ [CHR 0x0A]
     @ ''- commands recorded: '' @ show_nat (length (ho_commands h)) @ [CHR 0x0A]
     @ ''- prior usage: '' @ show_u32 (input_tokens (ho_usage h)) @ '' input + ''
     @ show_u32 (output_tokens (ho_usage h)) @ '' output tokens'' @ [CHR 0x0A]
     @ ''- active skills: ''
     @ (if ho_activated_skills h = [] then ''none'' else join_with '', '' (ho_activated_skills h))"

datatype QuotaReserveBasis = ProviderReported string | ConfiguredTokens u64 | Unavailable

datatype QuotaReservePhase = Monitoring | Draining | Stopped

text \<open>The thresholds are single precision floats: 0.8 and 0.95 as their bit patterns.\<close>

record QuotaReserveStatus =
  reserve_basis :: QuotaReserveBasis
  used_fraction :: "f32 option"
  soft_threshold :: f32
  hard_threshold :: f32
  reserve_resets_at :: "instant option"
  reserve_phase :: QuotaReservePhase

definition QuotaReserveStatus_default :: QuotaReserveStatus where
  "QuotaReserveStatus_default = \<lparr>reserve_basis = Unavailable, used_fraction = None,
     soft_threshold = 0x3F4CCCCD, hard_threshold = 0x3F733333, reserve_resets_at = None,
     reserve_phase = Monitoring\<rparr>"

datatype ResumeWarning = QuotaStopped "instant option" | Stale u64

record ResumeAdvice =
  advice_warning :: ResumeWarning
  estimated_full_resume_tokens :: u64
  advice_handoff :: "HandoffId option"

datatype ResumeChoice = Compact | NewFromHandoff | Full

end
