(* ===== verification/Review.thy ===== *)
theory Review
  imports Error Model
begin

text \<open>
  Review notes: anchors, comments and threads (\<^verbatim>\<open>core/review.rs\<close>), the captured diff they are
  written against (\<^verbatim>\<open>core/change_capture.rs\<close>), and the placing of a note
  (\<^verbatim>\<open>runtime/review.rs\<close>).
\<close>

section \<open>Threads\<close>

datatype ReviewSide = Old | New

definition ReviewSide_as_str :: "ReviewSide \<Rightarrow> string" where
  "ReviewSide_as_str s = (case s of Old \<Rightarrow> ''old'' | New \<Rightarrow> ''new'')"

record ReviewAnchor =
  anchor_path :: string
  anchor_side :: ReviewSide
  anchor_line :: u32
  anchor_hunk_header :: string
  anchor_capture_digest :: string
  anchor_base_object_id :: "string option"

record ReviewComment =
  comment_body :: string
  comment_created_at :: instant

datatype ReviewThreadStatus = Open | Sent

definition ReviewThreadStatus_as_str :: "ReviewThreadStatus \<Rightarrow> string" where
  "ReviewThreadStatus_as_str s = (case s of Open \<Rightarrow> ''open'' | Sent \<Rightarrow> ''sent'')"

record ReviewThread =
  thread_id :: ReviewThreadId
  thread_anchor :: ReviewAnchor
  thread_comments :: "ReviewComment list"
  thread_status :: ReviewThreadStatus
  thread_response_message_id :: "string option"

definition thread_open :: "ReviewThreadId \<Rightarrow> ReviewAnchor \<Rightarrow> ReviewComment \<Rightarrow> ReviewThread" where
  "thread_open i anchor first = \<lparr>thread_id = i, thread_anchor = anchor, thread_comments = [first],
     thread_status = Open, thread_response_message_id = None\<rparr>"

definition is_stale_against :: "string \<Rightarrow> ReviewThread \<Rightarrow> bool" where
  "is_stale_against digest t \<longleftrightarrow> anchor_capture_digest (thread_anchor t) \<noteq> digest"

section \<open>The captured diff\<close>

datatype ChangeStatus = Added | Modified | Deleted | Renamed

datatype LineSide = UnchangedLine | AddedLine | RemovedLine

record HunkLine =
  line_kind :: LineSide
  line_content :: string
  old_line_number :: "u32 option"
  new_line_number :: "u32 option"

record Hunk =
  old_start :: u32
  old_lines :: u32
  new_start :: u32
  new_lines :: u32
  hunk_header :: string
  hunk_lines :: "HunkLine list"

record FileChange =
  file_path :: string
  file_old_path :: "string option"
  file_status :: ChangeStatus
  file_hunks :: "Hunk list"
  file_binary :: bool
  file_undecodable :: bool
  file_truncated :: bool

record ChangeCapture =
  base_revision :: "string option"
  index_revision :: "string option"
  capture_digest :: string
  capture_files :: "FileChange list"
  output_truncated :: bool
  undiffed_untracked :: "string list"
  capture_sequence :: u32

record ReadRecord =
  read_path :: string
  read_sha256 :: string
  read_tool_event_id :: string

datatype ChangeView = NoProject | Unavailable ReasonCode string | Captured ChangeCapture

definition ChangeView_capture :: "ChangeView \<Rightarrow> ChangeCapture option" where
  "ChangeView_capture v = (case v of
      NoProject \<Rightarrow> None | Unavailable _ _ \<Rightarrow> None | Captured c \<Rightarrow> Some c)"

section \<open>Placing a note\<close>

definition line_on :: "ReviewSide \<Rightarrow> HunkLine \<Rightarrow> u32 option" where
  "line_on side printed =
     (case side of Old \<Rightarrow> old_line_number printed | New \<Rightarrow> new_line_number printed)"

definition hunk_containing :: "FileChange \<Rightarrow> ReviewSide \<Rightarrow> u32 \<Rightarrow> Hunk option" where
  "hunk_containing file side line =
     find (\<lambda>hunk. list_ex (\<lambda>printed. line_on side printed = Some line) (hunk_lines hunk))
       (file_hunks file)"

definition anchor_note ::
  "ChangeView \<Rightarrow> string \<Rightarrow> ReviewSide \<Rightarrow> u32 \<Rightarrow> string \<Rightarrow> (ReviewAnchor, string MjolnrError) result"
where
  "anchor_note changes path side line digest =
     (case ChangeView_capture changes of
        None \<Rightarrow> Inl (MjolnrError.WorkspaceRefused ReasonCode.WorkspaceCapabilityUnavailable
          ''No diff has been captured for the open project, so there is no line to anchor a review note to; nothing was recorded'')
      | Some capture \<Rightarrow>
          if capture_digest capture \<noteq> digest
          then Inl (MjolnrError.WorkspaceRefused ReasonCode.WorkspaceStaleDiff
            (''This note was written against diff revision '' @ digest
             @ '', and the working tree has since been captured at '' @ capture_digest capture
             @ ''. The note was refused rather than moved to whatever is on line ''
             @ show_u32 line @ '' now''))
          else (case find (\<lambda>file. file_path file = path) (capture_files capture) of
            None \<Rightarrow> Inl (MjolnrError.WorkspaceRefused ReasonCode.SchemaInvalid
              (apos @ path @ apos @ '' is not a file in the captured diff, so it has no line ''
               @ show_u32 line))
          | Some file \<Rightarrow> (case hunk_containing file side line of
              None \<Rightarrow> Inl (MjolnrError.WorkspaceRefused ReasonCode.SchemaInvalid
                (''line '' @ show_u32 line @ '' on the '' @ ReviewSide_as_str side @ '' side of ''
                 @ apos @ path @ apos @ '' is not in any hunk of the captured diff''))
            | Some hunk \<Rightarrow> Inr \<lparr>anchor_path = file_path file, anchor_side = side,
                anchor_line = line, anchor_hunk_header = hunk_header hunk,
                anchor_capture_digest = capture_digest capture,
                anchor_base_object_id = base_revision capture\<rparr>)))"

lemma hunk_containing_Some:
  "hunk_containing file side line = Some hunk \<Longrightarrow>
     hunk \<in> set (file_hunks file) \<and> (\<exists>l \<in> set (hunk_lines hunk). line_on side l = Some line)"
  by (auto simp: hunk_containing_def list_ex_iff dest!: find_Some_in_set)

lemma hunk_containing_None:
  "hunk_containing file side line = None \<longleftrightarrow>
     (\<forall>hunk \<in> set (file_hunks file). \<forall>l \<in> set (hunk_lines hunk). line_on side l \<noteq> Some line)"
  by (auto simp: hunk_containing_def list_ex_iff find_None_iff)

section \<open>Properties\<close>

text \<open>
  A review note is anchored to a line that is there, and only to the diff its author saw:
  an anchor carries the current digest, the digest the note was written against, and names a
  hunk of that file in which the line is printed on the named side.
\<close>

theorem note_anchor_is_real:
  assumes "anchor_note changes path side line digest = Inr a"
  shows "\<exists>capture file hunk. ChangeView_capture changes = Some capture
    \<and> file \<in> set (capture_files capture) \<and> file_path file = path \<and> hunk \<in> set (file_hunks file)
    \<and> (\<exists>l \<in> set (hunk_lines hunk). line_on side l = Some line)
    \<and> a = \<lparr>anchor_path = path, anchor_side = side, anchor_line = line,
           anchor_hunk_header = hunk_header hunk, anchor_capture_digest = digest,
           anchor_base_object_id = base_revision capture\<rparr>
    \<and> capture_digest capture = digest"
proof -
  from assms obtain capture fl hunk where
    "ChangeView_capture changes = Some capture" "capture_digest capture = digest"
    "find (\<lambda>file. file_path file = path) (capture_files capture) = Some fl"
    "hunk_containing fl side line = Some hunk"
    "a = \<lparr>anchor_path = file_path fl, anchor_side = side,
                anchor_line = line, anchor_hunk_header = hunk_header hunk,
                anchor_capture_digest = capture_digest capture,
                anchor_base_object_id = base_revision capture\<rparr>"
    by (auto simp: anchor_note_def split: option.splits if_splits)
  then show ?thesis
    by (auto dest!: find_Some_in_set hunk_containing_Some)
qed

theorem note_anchor_is_real_witness:
  "\<exists>capture. ChangeView_capture
     (Captured \<lparr>base_revision = None, index_revision = None, capture_digest = ''d'', capture_files =
        [\<lparr>file_path = ''a'', file_old_path = None, file_status = Modified, file_hunks =
           [\<lparr>old_start = 1, old_lines = 1, new_start = 1, new_lines = 1, hunk_header = ''@@'',
             hunk_lines = [\<lparr>line_kind = AddedLine, line_content = ''x'', old_line_number = None,
               new_line_number = Some 1\<rparr>]\<rparr>],
          file_binary = False, file_undecodable = False, file_truncated = False\<rparr>],
        output_truncated = False, undiffed_untracked = [], capture_sequence = 0\<rparr>) = Some capture
     \<and> capture_digest capture = ''d''"
  using note_anchor_is_real [of
    "Captured \<lparr>base_revision = None, index_revision = None, capture_digest = ''d'', capture_files =
        [\<lparr>file_path = ''a'', file_old_path = None, file_status = Modified, file_hunks =
           [\<lparr>old_start = 1, old_lines = 1, new_start = 1, new_lines = 1, hunk_header = ''@@'',
             hunk_lines = [\<lparr>line_kind = AddedLine, line_content = ''x'', old_line_number = None,
               new_line_number = Some 1\<rparr>]\<rparr>],
          file_binary = False, file_undecodable = False, file_truncated = False\<rparr>],
        output_truncated = False, undiffed_untracked = [], capture_sequence = 0\<rparr>"
    "''a''" New 1 "''d''"]
  by (simp add: anchor_note_def ChangeView_capture_def hunk_containing_def line_on_def)

end
