(* ===== verification/Checkpoint.thy ===== *)
theory Checkpoint
  imports Recovery Review Routing
begin

text \<open>
  The session checkpoint (\<^verbatim>\<open>core/checkpoint.rs\<close>) and the status of a session
  (\<^verbatim>\<open>core/store.rs\<close>).
\<close>

datatype SessionStatus = Active | Ended

definition SessionStatus_as_str :: "SessionStatus \<Rightarrow> string" where
  "SessionStatus_as_str s = (case s of Active \<Rightarrow> ''active'' | Ended \<Rightarrow> ''ended'')"

definition SessionStatus_parse :: "string \<Rightarrow> SessionStatus" where
  "SessionStatus_parse v = (if v = ''active'' then Active else Ended)"

lemma SessionStatus_parse_as_str [rt]: "SessionStatus_parse (SessionStatus_as_str s) = s"
  by (cases s) (simp_all add: SessionStatus_parse_def SessionStatus_as_str_def)

record SessionCheckpoint =
  cp_session :: SessionId
  cp_status :: SessionStatus
  cp_project_root :: "string option"
  cp_provider :: "ProviderId option"
  cp_model :: "ModelId option"
  cp_messages :: "CanonicalMessage list"
  cp_usage :: Usage
  cp_policy :: PolicyMode
  cp_budget :: BudgetStatus
  cp_read_set :: "(string \<times> string) list"
  cp_read_evidence :: "ReadRecord list"
  cp_review_threads :: "ReviewThread list"
  cp_last_mutation_sequence :: "u64 option"
  cp_successful_command_evidence :: "(string, u64) btree_map"
  cp_activated_skills :: "string list"
  cp_workspace_trusted :: bool
  cp_handoff :: "HandoffCheckpoint option"
  cp_quota_reserve :: QuotaReserveStatus
  cp_route :: "RouteRuntime option"

definition checkpoint_empty :: "SessionId \<Rightarrow> SessionCheckpoint" where
  "checkpoint_empty session = \<lparr>cp_session = session, cp_status = Active, cp_project_root = None,
     cp_provider = None, cp_model = None, cp_messages = [], cp_usage = Usage_default,
     cp_policy = PolicyMode_default, cp_budget = BudgetStatus_default, cp_read_set = [],
     cp_read_evidence = [], cp_review_threads = [], cp_last_mutation_sequence = None,
     cp_successful_command_evidence = [], cp_activated_skills = [], cp_workspace_trusted = False,
     cp_handoff = None, cp_quota_reserve = QuotaReserveStatus_default, cp_route = None\<rparr>"

end
