(* ===== verification/Council.thy ===== *)
theory Council
  imports Plan "HOL-Library.Sublist"
begin

text \<open>
  Council reviews (\<^verbatim>\<open>core/council.rs\<close>): the artifact split into bounded sections, the
  findings and a human's dispositions of them, and the amendment that folds the accepted
  findings into the artifact without changing a line of it.
\<close>

section \<open>Types\<close>

definition MAX_ROUNDS_CEILING :: nat where "MAX_ROUNDS_CEILING = 4"
definition MAX_ARTIFACT_SECTIONS :: nat where "MAX_ARTIFACT_SECTIONS = 16"
definition MAX_ARTIFACT_SECTION_CHARS :: nat where "MAX_ARTIFACT_SECTION_CHARS = 12000"

record CouncilConfig =
  council_roles :: "string list"
  max_rounds :: nat
  budget_provider_turns :: "u32 option"

definition CouncilConfig_default :: CouncilConfig where
  "CouncilConfig_default = \<lparr>council_roles = [''plan'', ''code'', ''fast''], max_rounds = 2,
     budget_provider_turns = None\<rparr>"

definition effective_rounds :: "CouncilConfig \<Rightarrow> nat" where
  "effective_rounds c = max 1 (min (max_rounds c) MAX_ROUNDS_CEILING)"

record CouncilContribution =
  contribution_role :: string
  contribution_proposal :: string
  contribution_critique :: "string option"

record CouncilMemberPosition =
  position_role :: string
  position_response :: string
  position_critique :: "string option"

record CouncilArtifact =
  artifact_path :: string
  artifact_digest :: string

record CouncilArtifactSection =
  section_title :: string
  section_text :: string

datatype CouncilDisposition = Accept | Reject | Defer

record CouncilFindingDisposition =
  disp_review_id :: CouncilReviewId
  disp_finding_id :: CouncilFindingId
  disp_disposition :: CouncilDisposition
  disp_note :: "string option"
  disp_decided_at :: instant

record CouncilFinding =
  finding_id :: CouncilFindingId
  finding_section :: string
  finding_title :: string
  finding_positions :: "CouncilMemberPosition list"
  finding_disposition :: "CouncilFindingDisposition option"

record CouncilReview =
  council_id :: CouncilReviewId
  council_question :: string
  council_plan_id :: "PlanId option"
  council_prd_id :: "PrdId option"
  council_contributions :: "CouncilContribution list"
  rounds_conducted :: nat
  council_artifact :: "CouncilArtifact option"
  council_findings :: "CouncilFinding list"

record CouncilAmendment =
  amendment_review_id :: CouncilReviewId
  amendment_path :: string
  amendment_digest :: string
  accepted_findings :: nat
  amendment_text :: string

section \<open>Sections of an artifact\<close>

text \<open>\<^verbatim>\<open>markdown_heading\<close> works on the bytes: one to six hashes and then a space.\<close>

definition markdown_heading :: "string \<Rightarrow> string option" where
  "markdown_heading line =
     (let trimmed = trim_start line;
          hashes = length (takeWhile (\<lambda>c. c = CHR ''#'') trimmed) in
      if hashes = 0 \<or> hashes > 6 \<or> \<not> (hashes < length trimmed \<and> trimmed ! hashes = CHR '' '')
      then None
      else let title = trim (drop hashes trimmed) in
        if title \<noteq> [] then Some title else None)"

definition bounded_section_text :: "string \<Rightarrow> string" where
  "bounded_section_text text = concat (take MAX_ARTIFACT_SECTION_CHARS (str_chars text))"

type_synonym split_state = "CouncilArtifactSection list \<times> string \<times> string"

definition new_section :: "string \<Rightarrow> string \<Rightarrow> CouncilArtifactSection" where
  "new_section title body = \<lparr>section_title = title, section_text = bounded_section_text body\<rparr>"

definition split_heading :: "string \<Rightarrow> split_state \<Rightarrow> split_state" where
  "split_heading line = (\<lambda>(sections, title, body).
     case markdown_heading line of
       None \<Rightarrow> (sections, title, body)
     | Some next_title \<Rightarrow>
         if trim body = [] then (sections, next_title, body)
         else if length sections < MAX_ARTIFACT_SECTIONS - 1
         then (sections @ [new_section title body], next_title, [])
         else (sections, ''Additional sections (bounded)'', body))"

definition split_line :: "string \<Rightarrow> split_state \<Rightarrow> split_state" where
  "split_line line st = (case split_heading line st of
     (sections, title, body) \<Rightarrow> (sections, title, body @ line @ [CHR 0x0A]))"

definition split_artifact_sections :: "string \<Rightarrow> CouncilArtifactSection list" where
  "split_artifact_sections text =
     (case fold split_line (str_lines text) ([], ''Artifact'', []) of
        (sections, title, body) \<Rightarrow>
          if trim body \<noteq> [] \<or> sections = [] then sections @ [new_section title body]
          else sections)"

lemma split_line_length:
  "split_line line (sections, title, body) = (sections', title', body')
     \<Longrightarrow> length sections \<le> 15 \<Longrightarrow> length sections' \<le> 15"
  by (auto simp: split_line_def split_heading_def MAX_ARTIFACT_SECTIONS_def
      split: option.splits if_splits)

lemma fold_split_length:
  "fold split_line lines (sections, title, body) = (sections', title', body')
     \<Longrightarrow> length sections \<le> 15 \<Longrightarrow> length sections' \<le> 15"
proof (induction lines arbitrary: sections title body)
  case (Cons line lines)
  then show ?case
    by (cases "split_line line (sections, title, body)") (auto dest: split_line_length)
qed simp

text \<open>Every section holds the first part of its body; the bodies together are the text.\<close>

definition bodies_of :: "CouncilArtifactSection list \<Rightarrow> string list \<Rightarrow> bool" where
  "bodies_of sections bodies = list_all2 (\<lambda>s b. section_text s = bounded_section_text b) sections bodies"

lemma split_line_bodies:
  assumes "split_line line (sections, title, body) = (sections', title', body')"
    and "bodies_of sections bs"
  shows "\<exists>bs'. bodies_of sections' bs' \<and> concat bs' @ body' = concat bs @ body @ line @ [CHR 0x0A]"
proof (cases "sections' = sections")
  case True
  then show ?thesis
    using assms
    by (intro exI [of _ bs])
      (auto simp: split_line_def split_heading_def split: option.splits if_splits)
next
  case False
  then have "sections' = sections @ [new_section title body]" "body' = line @ [CHR 0x0A]"
    using assms(1) by (auto simp: split_line_def split_heading_def split: option.splits if_splits)
  then show ?thesis
    using assms(2)
    by (intro exI [of _ "bs @ [body]"]) (auto simp: bodies_of_def new_section_def list_all2_appendI)
qed

lemma fold_split_bodies:
  "fold split_line lines (sections, title, body) = (sections', title', body') \<Longrightarrow>
     bodies_of sections bs \<Longrightarrow>
     \<exists>bs'. bodies_of sections' bs' \<and>
       concat bs' @ body' = concat bs @ body @ concat (map (\<lambda>l. l @ [CHR 0x0A]) lines)"
proof (induction lines arbitrary: sections title body bs)
  case Nil
  then show ?case by auto
next
  case (Cons line lines)
  obtain s t b where step: "split_line line (sections, title, body) = (s, t, b)"
    by (cases "split_line line (sections, title, body)")
  from split_line_bodies [OF step Cons.prems(2)]
  obtain bs1 where bs1: "bodies_of s bs1" "concat bs1 @ b = concat bs @ body @ line @ [CHR 0x0A]"
    by blast
  from Cons.prems(1) step have "fold split_line lines (s, t, b) = (sections', title', body')" by simp
  from Cons.IH [OF this bs1(1)] bs1(2) show ?case by (simp flip: append_assoc)
qed

section \<open>The amendment\<close>

definition AMENDMENT_MARKER :: string where
  "AMENDMENT_MARKER = ''<!-- mjolnr:council-amendment -->''"

text \<open>A newline, and an em dash as its UTF-8 bytes.\<close>

definition nl :: string where "nl = [CHR 0x0A]"
definition em_dash :: string where "em_dash = [CHR 0xE2, CHR 0x80, CHR 0x94]"

definition position_lines :: "CouncilMemberPosition \<Rightarrow> string" where
  "position_lines p =
     ''>'' @ nl @ ''> *['' @ position_role p @ '']*'' @ nl
     @ concat (map (\<lambda>line. ''> '' @ line @ nl) (str_lines (position_response p)))
     @ (case position_critique p of
          None \<Rightarrow> []
        | Some critique \<Rightarrow>
            ''>'' @ nl @ ''> *['' @ position_role p @ '' '' @ em_dash @ '' dissent preserved]*'' @ nl
            @ concat (map (\<lambda>line. ''> '' @ line @ nl) (str_lines critique)))"

definition finding_text :: "CouncilFinding \<Rightarrow> string" where
  "finding_text f =
     nl @ AMENDMENT_MARKER @ nl @ ''> **Accepted finding '' @ em_dash @ '' '' @ finding_title f @ ''**'' @ nl
     @ (case finding_disposition f of
          None \<Rightarrow> []
        | Some d \<Rightarrow> (case disp_note d of
            None \<Rightarrow> []
          | Some note \<Rightarrow> if trim note = [] then []
              else concat (map (\<lambda>line. ''> Human note: '' @ line @ nl) (str_lines note))))
     @ concat (map position_lines (finding_positions f))
     @ ''> '' @ nl @ ''> mjolnr marked this up; it did not rewrite the section. Edit this block into the document and save it yourself.'' @ nl"

text \<open>
  The loop of \<^verbatim>\<open>render_amendment\<close> carries the output, the ids emitted so far and the section
  it is in; an appended finding is its own text.
\<close>

type_synonym render_state = "string \<times> CouncilFindingId list \<times> string"

definition append_section_amendments ::
  "CouncilFinding list \<Rightarrow> string \<Rightarrow> string \<times> CouncilFindingId list \<Rightarrow> string \<times> CouncilFindingId list" where
  "append_section_amendments accepted sec = (\<lambda>(out, emitted).
     if sec = [] then (out, emitted)
     else let fs = filter (\<lambda>f. finding_section f = sec) accepted in
       (out @ concat (map finding_text fs), emitted @ map finding_id fs))"

definition render_line :: "CouncilFinding list \<Rightarrow> string \<Rightarrow> render_state \<Rightarrow> render_state" where
  "render_line accepted line = (\<lambda>(out, emitted, sec).
     case markdown_heading line of
       None \<Rightarrow> (out @ line @ nl, emitted, sec)
     | Some next_title \<Rightarrow>
         (case append_section_amendments accepted sec (out, emitted) of
            (out, emitted) \<Rightarrow> (out @ line @ nl, emitted, next_title)))"

definition render_amendment :: "string \<Rightarrow> CouncilFinding list \<Rightarrow> string" where
  "render_amendment original accepted =
     (case fold (render_line accepted) (str_lines original) ([], [], []) of
        (out, emitted, sec) \<Rightarrow>
          (case append_section_amendments accepted sec (out, emitted) of
             (out, emitted) \<Rightarrow>
               let unmatched = filter (\<lambda>f. finding_id f \<notin> set emitted) accepted in
               if unmatched = [] then out
               else out @ nl @ ''## Council amendments (unmatched sections)'' @ nl
                 @ concat (map finding_text unmatched)))"

definition is_accepted :: "CouncilFinding \<Rightarrow> bool" where
  "is_accepted f = (case finding_disposition f of
      None \<Rightarrow> False | Some d \<Rightarrow> disp_disposition d = Accept)"

definition propose_amendment ::
  "CouncilReview \<Rightarrow> string \<Rightarrow> string \<Rightarrow> (CouncilAmendment, string) result" where
  "propose_amendment r original observed_digest =
     and_then (ok_or ''This council reviewed a question rather than an artifact, so there is nothing to amend''
       (council_artifact r)) (\<lambda>artifact.
     if starts_with (artifact_path artifact) ''prd://''
     then Inl ''generated PRDs are durable runtime artifacts and cannot be amended through a file save''
     else if observed_digest \<noteq> artifact_digest artifact
     then Inl (''`'' @ artifact_path artifact @ ''` has changed since the council read it, so the amendment was not composed; re-run the council against the current file'')
     else let accepted = filter is_accepted (council_findings r) in
       if accepted = []
       then Inl ''No finding has been accepted, so there is nothing to fold into an amendment''
       else Inr \<lparr>amendment_review_id = council_id r, amendment_path = artifact_path artifact,
         amendment_digest = artifact_digest artifact, accepted_findings = length accepted,
         amendment_text = render_amendment original accepted\<rparr>)"

definition render_review :: "CouncilReview \<Rightarrow> string" where
  "render_review r =
     ''MJOLNR COUNCIL // '' @ show_nat (length (council_contributions r)) @ '' member(s), ''
     @ show_nat (rounds_conducted r) @ '' round(s)'' @ nl @ nl
     @ ''Question: '' @ council_question r @ nl @ nl @ ''### Proposals'' @ nl
     @ concat (map (\<lambda>c. nl @ ''['' @ contribution_role c @ '']'' @ nl @ contribution_proposal c @ nl)
         (council_contributions r))
     @ (let critiques = filter (\<lambda>c. contribution_critique c \<noteq> None) (council_contributions r) in
        if critiques = [] then []
        else nl @ ''### Dissents & critiques (preserved)'' @ nl
          @ concat (map (\<lambda>c. case contribution_critique c of
                None \<Rightarrow> []
              | Some critique \<Rightarrow> nl @ ''['' @ contribution_role c @ '']'' @ nl @ critique @ nl) critiques))
     @ nl @ ''The council is advisory. Acting on it is a separate, ordinary, gated run.'' @ nl"

section \<open>Dispositions\<close>

fun update_first :: "('a \<Rightarrow> bool) \<Rightarrow> ('a \<Rightarrow> 'a) \<Rightarrow> 'a list \<Rightarrow> 'a list option" where
  "update_first P f [] = None"
| "update_first P f (x # xs) =
     (if P x then Some (f x # xs) else map_option ((#) x) (update_first P f xs))"

definition apply_disposition ::
  "CouncilFindingDisposition \<Rightarrow> CouncilReview \<Rightarrow> (CouncilReview, string) result" where
  "apply_disposition d r =
     (if disp_review_id d \<noteq> council_id r
      then Inl ''council disposition names a different review''
      else map_ok (\<lambda>fs. r\<lparr>council_findings := fs\<rparr>)
        (ok_or ''council disposition names an unknown finding''
          (update_first (\<lambda>f. finding_id f = disp_finding_id d)
             (\<lambda>f. f\<lparr>finding_disposition := Some d\<rparr>) (council_findings r))))"

lemma update_first_map:
  "update_first P f xs = Some ys \<Longrightarrow> (\<And>x. P x \<Longrightarrow> g (f x) = g x) \<Longrightarrow> map g ys = map g xs"
  by (induction xs arbitrary: ys) (auto split: if_splits)

lemma update_first_None: "update_first P f xs = None \<longleftrightarrow> (\<forall>x \<in> set xs. \<not> P x)"
  by (induction xs) auto

lemma update_first_find:
  "update_first P f xs = Some ys \<Longrightarrow> (\<And>x. P (f x) = P x) \<Longrightarrow> find P ys = map_option f (find P xs)"
  by (induction xs arbitrary: ys) (auto split: if_splits)

lemma update_first_other:
  "update_first P f xs = Some ys \<Longrightarrow> (\<And>x. P x \<Longrightarrow> \<not> Q x) \<Longrightarrow> (\<And>x. P x \<Longrightarrow> \<not> Q (f x)) \<Longrightarrow>
     filter Q ys = filter Q xs"
  by (induction xs arbitrary: ys) (auto split: if_splits)

text \<open>Rendered amendments, as the pieces they are written in.\<close>

definition rendered :: "string \<Rightarrow> string list \<Rightarrow> string list \<Rightarrow> bool" where
  "rendered out lines texts \<longleftrightarrow>
     (\<exists>pieces. out = concat pieces \<and> subseq (map (\<lambda>l. l @ nl) lines) pieces \<and> set texts \<subseteq> set pieces)"

lemma rendered_line: "rendered out lines texts \<Longrightarrow> rendered (out @ l @ nl) (lines @ [l]) texts"
proof -
  assume "rendered out lines texts"
  then obtain ps where ps: "out = concat ps" "subseq (map (\<lambda>l. l @ nl) lines) ps" "set texts \<subseteq> set ps"
    by (auto simp: rendered_def)
  then show ?thesis
    unfolding rendered_def
    by (intro exI [of _ "ps @ [l @ nl]"]) (auto intro: list_emb_append_mono)
qed

lemma rendered_extra: "rendered out lines texts \<Longrightarrow> rendered (out @ concat xs) lines (texts @ xs)"
proof -
  assume "rendered out lines texts"
  then obtain ps where ps: "out = concat ps" "subseq (map (\<lambda>l. l @ nl) lines) ps" "set texts \<subseteq> set ps"
    by (auto simp: rendered_def)
  then show ?thesis
    unfolding rendered_def
    by (intro exI [of _ "ps @ xs"]) auto
qed

definition emitted_ok :: "CouncilFinding list \<Rightarrow> CouncilFindingId list \<Rightarrow> string list \<Rightarrow> bool" where
  "emitted_ok accepted emitted texts \<longleftrightarrow>
     (\<forall>i \<in> set emitted. \<exists>f \<in> set accepted. finding_id f = i \<and> finding_text f \<in> set texts)"

lemma append_section_rendered:
  assumes "append_section_amendments accepted sec (out, emitted) = (out', emitted')"
    and "rendered out lines texts" "emitted_ok accepted emitted texts"
  shows "\<exists>texts'. rendered out' lines texts' \<and> emitted_ok accepted emitted' texts'"
proof (cases "sec = []")
  case False
  let ?fs = "filter (\<lambda>f. finding_section f = sec) accepted"
  from False assms(1) have "out' = out @ concat (map finding_text ?fs)"
    "emitted' = emitted @ map finding_id ?fs"
    by (simp_all add: append_section_amendments_def Let_def)
  with assms(2,3) show ?thesis
    by (intro exI [of _ "texts @ map finding_text ?fs"])
      (auto simp: emitted_ok_def intro: rendered_extra)
qed (use assms in \<open>auto simp: append_section_amendments_def\<close>)

lemma fold_render:
  assumes "fold (render_line accepted) lines (out, emitted, sec) = (out', emitted', sec')"
    and "rendered out done texts" "emitted_ok accepted emitted texts"
  shows "\<exists>texts'. rendered out' (done @ lines) texts' \<and> emitted_ok accepted emitted' texts'"
  using assms
proof (induction lines arbitrary: out emitted sec "done" texts)
  case Nil
  then show ?case by auto
next
  case (Cons line lines)
  obtain o1 e1 s1 where step: "render_line accepted line (out, emitted, sec) = (o1, e1, s1)"
    by (cases "render_line accepted line (out, emitted, sec)")
  have "\<exists>texts1. rendered o1 (done @ [line]) texts1 \<and> emitted_ok accepted e1 texts1"
  proof (cases "markdown_heading line")
    case None
    with step Cons.prems show ?thesis by (auto simp: render_line_def intro: rendered_line)
  next
    case (Some t)
    obtain o2 e2 where app: "append_section_amendments accepted sec (out, emitted) = (o2, e2)"
      by (cases "append_section_amendments accepted sec (out, emitted)")
    from append_section_rendered [OF app Cons.prems(2,3)] Some app step show ?thesis
      by (auto simp: render_line_def intro: rendered_line)
  qed
  then obtain texts1 where "rendered o1 (done @ [line]) texts1" "emitted_ok accepted e1 texts1"
    by blast
  moreover have "fold (render_line accepted) lines (o1, e1, s1) = (out', emitted', sec')"
    using Cons.prems(1) step by simp
  ultimately show ?case using Cons.IH [of o1 e1 s1 "done @ [line]" texts1] by simp
qed

lemma render_amendment_rendered:
  "\<exists>texts. rendered (render_amendment original accepted) (str_lines original) texts
     \<and> (\<forall>f \<in> set accepted. \<exists>g \<in> set accepted. finding_id g = finding_id f
          \<and> finding_text g \<in> set texts)"
proof -
  obtain o1 e1 s1 where f: "fold (render_line accepted) (str_lines original) ([], [], []) = (o1, e1, s1)"
    by (metis prod_cases3)
  have "rendered [] [] []" unfolding rendered_def by (intro exI [of _ "[]"]) simp
  from fold_render [OF f this] obtain t1
    where t1: "rendered o1 (str_lines original) t1" "emitted_ok accepted e1 t1"
    by (auto simp: emitted_ok_def)
  obtain o2 e2 where app: "append_section_amendments accepted s1 (o1, e1) = (o2, e2)"
    by (cases "append_section_amendments accepted s1 (o1, e1)")
  from append_section_rendered [OF app t1] obtain t2
    where t2: "rendered o2 (str_lines original) t2" "emitted_ok accepted e2 t2" by blast
  let ?un = "filter (\<lambda>f. finding_id f \<notin> set e2) accepted"
  let ?head = "nl @ ''## Council amendments (unmatched sections)'' @ nl"
  have rest: "rendered (o2 @ concat (?head # map finding_text ?un)) (str_lines original)
      (t2 @ ?head # map finding_text ?un)"
    by (rule rendered_extra [OF t2(1)])
  show ?thesis
  proof (cases "?un = []")
    case True
    with t2 show ?thesis
      by (intro exI [of _ t2])
        (auto simp: render_amendment_def f app filter_empty_conv emitted_ok_def)
  next
    case False
    then have eq: "render_amendment original accepted = o2 @ concat (?head # map finding_text ?un)"
      by (simp add: render_amendment_def f app Let_def)
    have "\<forall>f \<in> set accepted. \<exists>g \<in> set accepted. finding_id g = finding_id f
        \<and> finding_text g \<in> set (t2 @ ?head # map finding_text ?un)"
    proof
      fix f assume f: "f \<in> set accepted"
      show "\<exists>g \<in> set accepted. finding_id g = finding_id f
        \<and> finding_text g \<in> set (t2 @ ?head # map finding_text ?un)"
      proof (cases "finding_id f \<in> set e2")
        case True
        with t2(2) show ?thesis by (auto simp: emitted_ok_def)
      next
        case False
        with f have "finding_text f \<in> set (t2 @ ?head # map finding_text ?un)" by simp
        with f show ?thesis by blast
      qed
    qed
    moreover have "rendered (render_amendment original accepted) (str_lines original)
        (t2 @ ?head # map finding_text ?un)"
      using rest by (simp only: eq)
    ultimately show ?thesis by (intro exI conjI)
  qed
qed

section \<open>Properties\<close>

text \<open>
  An artifact is split without losing any of it. There are between one and sixteen
  sections, and each holds the first part (up to the cap) of a body; the bodies, in order,
  are the whole text line by line but for a remainder of white space.
\<close>

theorem sections_cover_artifact:
  "1 \<le> length (split_artifact_sections text) \<and> length (split_artifact_sections text) \<le> 16
   \<and> (\<exists>bodies rest. bodies_of (split_artifact_sections text) bodies
       \<and> concat bodies @ rest = concat (map (\<lambda>l. l @ [CHR 0x0A]) (str_lines text))
       \<and> trim rest = [])"
proof -
  obtain sections title body
    where f: "fold split_line (str_lines text) ([], ''Artifact'', []) = (sections, title, body)"
    by (metis prod_cases3)
  then have len: "length sections \<le> 15" using fold_split_length [OF f] by simp
  from fold_split_bodies [OF f, of "[]"] obtain bs
    where bs: "bodies_of sections bs"
      "concat bs @ body = concat (map (\<lambda>l. l @ [CHR 0x0A]) (str_lines text))"
    by (auto simp: bodies_of_def)
  show ?thesis
  proof (cases "trim body \<noteq> [] \<or> sections = []")
    case True
    then have eq: "split_artifact_sections text = sections @ [new_section title body]"
      by (simp add: split_artifact_sections_def f)
    have "bodies_of (split_artifact_sections text) (bs @ [body])"
      using bs(1) by (simp add: eq bodies_of_def new_section_def list_all2_appendI)
    moreover have "trim [] = []" by (simp add: trim_eq_Nil)
    ultimately show ?thesis using len bs(2) eq
      by (intro conjI exI [of _ "bs @ [body]"] exI [of _ "[]"]) auto
  next
    case False
    then have eq: "split_artifact_sections text = sections"
      by (simp add: split_artifact_sections_def f)
    show ?thesis using len bs eq False
      by (intro conjI exI [of _ bs] exI [of _ body]) (auto simp: Suc_le_eq)
  qed
qed

text \<open>
  C37: an amendment marks up and never rewrites. It is composed only against the very text the
  council read, from at least one accepted finding; every line of the original is in it, in
  order, and every accepted finding is rendered in full as a piece between them.
\<close>

theorem amendment_keeps_artifact:
  assumes "propose_amendment r original digest = Inr a"
  shows "(\<exists>artifact. council_artifact r = Some artifact \<and> artifact_digest artifact = digest
        \<and> amendment_path a = artifact_path artifact \<and> amendment_digest a = digest)
    \<and> 0 < accepted_findings a
    \<and> (\<exists>pieces. amendment_text a = concat pieces
        \<and> subseq (map (\<lambda>l. l @ nl) (str_lines original)) pieces
        \<and> (\<forall>f \<in> set (council_findings r). is_accepted f \<longrightarrow>
             (\<exists>g \<in> set (council_findings r). finding_id g = finding_id f \<and> is_accepted g
                \<and> finding_text g \<in> set pieces)))"
proof -
  let ?acc = "filter is_accepted (council_findings r)"
  from assms obtain artifact where art: "council_artifact r = Some artifact"
      "digest = artifact_digest artifact" "?acc \<noteq> []"
    and a: "a = \<lparr>amendment_review_id = council_id r, amendment_path = artifact_path artifact,
      amendment_digest = artifact_digest artifact, accepted_findings = length ?acc,
      amendment_text = render_amendment original ?acc\<rparr>"
    by (cases "council_artifact r") (auto simp: propose_amendment_def Let_def split: if_splits)
  obtain texts where "rendered (render_amendment original ?acc) (str_lines original) texts"
    and t: "\<forall>f \<in> set ?acc. \<exists>g \<in> set ?acc. finding_id g = finding_id f \<and> finding_text g \<in> set texts"
    using render_amendment_rendered by blast
  then obtain pieces where "render_amendment original ?acc = concat pieces"
    "subseq (map (\<lambda>l. l @ nl) (str_lines original)) pieces" "set texts \<subseteq> set pieces"
    by (auto simp: rendered_def)
  with t have "\<exists>pieces. amendment_text a = concat pieces
        \<and> subseq (map (\<lambda>l. l @ nl) (str_lines original)) pieces
        \<and> (\<forall>f \<in> set (council_findings r). is_accepted f \<longrightarrow>
             (\<exists>g \<in> set (council_findings r). finding_id g = finding_id f \<and> is_accepted g
                \<and> finding_text g \<in> set pieces))"
    by (intro exI [of _ pieces]) (auto simp: a)
  with art show ?thesis by (auto simp: a)
qed

definition example_finding :: CouncilFinding where
  "example_finding = \<lparr>finding_id = CouncilFindingId 1, finding_section = [], finding_title = ''t'',
     finding_positions = [], finding_disposition = Some \<lparr>disp_review_id = CouncilReviewId 9,
       disp_finding_id = CouncilFindingId 1, disp_disposition = Accept, disp_note = None,
       disp_decided_at = 0\<rparr>\<rparr>"

definition example_review :: CouncilReview where
  "example_review = \<lparr>council_id = CouncilReviewId 9, council_question = [], council_plan_id = None,
     council_prd_id = None, council_contributions = [], rounds_conducted = 1,
     council_artifact = Some \<lparr>artifact_path = ''a.md'', artifact_digest = ''d''\<rparr>,
     council_findings = [example_finding]\<rparr>"

theorem amendment_keeps_artifact_witness:
  "\<exists>a pieces. propose_amendment example_review ''hello'' ''d'' = Inr a
     \<and> amendment_text a = concat pieces \<and> subseq [''hello'' @ nl] pieces
     \<and> finding_text example_finding \<in> set pieces"
proof -
  obtain a where a: "propose_amendment example_review ''hello'' ''d'' = Inr a"
    by (simp add: propose_amendment_def example_review_def example_finding_def is_accepted_def
        starts_with_def)
  moreover have "str_lines ''hello'' = [''hello'']" by (simp add: str_lines_def)
  ultimately show ?thesis
    using amendment_keeps_artifact [OF a]
    by (fastforce simp: example_review_def is_accepted_def example_finding_def)
qed

end
