(* ===== verification/Trigger.thy ===== *)
theory Trigger
  imports Error Model
begin

text \<open>
  Trigger vocabulary (\<^verbatim>\<open>core/trigger.rs\<close>) and the overlap decision (\<^verbatim>\<open>triggers/overlap.rs\<close>).
\<close>

datatype TriggerSourceKind = Schedule | Webhook

definition TriggerSourceKind_label :: "TriggerSourceKind \<Rightarrow> string" where
  "TriggerSourceKind_label k = (case k of Schedule \<Rightarrow> ''schedule'' | Webhook \<Rightarrow> ''webhook'')"

datatype OverlapPolicy = Skip | Queue | Replace

definition OverlapPolicy_label :: "OverlapPolicy \<Rightarrow> string" where
  "OverlapPolicy_label p = (case p of
      OverlapPolicy.Skip \<Rightarrow> ''skip''
    | OverlapPolicy.Queue \<Rightarrow> ''queue''
    | OverlapPolicy.Replace \<Rightarrow> ''replace'')"

definition OverlapPolicy_parse :: "string \<Rightarrow> OverlapPolicy option" where
  "OverlapPolicy_parse v =
     (if v = ''skip'' then Some OverlapPolicy.Skip
      else if v = ''queue'' then Some OverlapPolicy.Queue
      else if v = ''replace'' then Some OverlapPolicy.Replace
      else None)"

lemma OverlapPolicy_parse_label [rt]: "OverlapPolicy_parse (OverlapPolicy_label p) = Some p"
  by (cases p) (simp_all add: OverlapPolicy_parse_def OverlapPolicy_label_def)

datatype TriggerOutcome = Verified | Refused | BudgetOrQuotaStopped | Failed

definition TriggerOutcome_label :: "TriggerOutcome \<Rightarrow> string" where
  "TriggerOutcome_label x = (case x of
      TriggerOutcome.Verified \<Rightarrow> ''verified''
    | TriggerOutcome.Refused \<Rightarrow> ''refused''
    | TriggerOutcome.BudgetOrQuotaStopped \<Rightarrow> ''budget/quota stopped''
    | TriggerOutcome.Failed \<Rightarrow> ''failed'')"

definition counts_as_failure :: "TriggerOutcome \<Rightarrow> bool" where
  "counts_as_failure x \<longleftrightarrow> x = TriggerOutcome.Failed"

record TriggerStatus =
  status_name :: string
  status_source :: TriggerSourceKind
  status_overlap :: OverlapPolicy
  status_enabled :: bool
  status_disabled_reason :: "ReasonCode option"
  status_consecutive_failures :: u32
  status_max_consecutive_failures :: u32
  status_last_outcome :: "TriggerOutcome option"
  status_last_fired_at :: "instant option"
  status_next_fire_at :: "instant option"

section \<open>Overlap\<close>

datatype OverlapDecision = Start | Skip | Queue | Replace

definition overlap_decide :: "OverlapPolicy \<Rightarrow> bool \<Rightarrow> bool \<Rightarrow> OverlapDecision" where
  "overlap_decide policy in_flight already_queued =
     (if \<not> in_flight then OverlapDecision.Start
      else case policy of
        OverlapPolicy.Skip \<Rightarrow> OverlapDecision.Skip
      | OverlapPolicy.Queue \<Rightarrow>
          (if already_queued then OverlapDecision.Skip else OverlapDecision.Queue)
      | OverlapPolicy.Replace \<Rightarrow> OverlapDecision.Replace)"

end
