(* ===== verification/Event.thy ===== *)
theory Event
  imports Checkpoint Governance Plan Council Board Trigger
begin

text \<open>
  The events (\<^verbatim>\<open>core/event.rs\<close>): what a provider stream reports, what a session records and
  what only passes by, and the stored form of an event. The constructors carry the fields of
  the source in its order; the session is always the first.
\<close>

datatype FinishReason = Stop | ToolCalls | Incomplete | Cancelled | Handoff | QuotaDrained

datatype EnvelopeEnd = Spent | Lapsed | Withdrawn | PolicyNarrowed

datatype ExtensionLoadAuthority = Command | FullAuto | Approved

datatype ProviderEvent =
    Started
  | ReasoningDelta string
  | TextDelta string
  | ToolCallStarted string string
  | ToolArgumentsDelta string string
  | Quota QuotaSnapshot
  | ToolCallCompleted ToolCall
  | UsageEvent Usage
  | Finished FinishReason
  | UnknownUpstream string
  | Failed string

datatype (plugins only: size) MjolnrEvent =
    SessionCreated SessionId ProviderId ModelId
  | MessageAppended SessionId CanonicalMessage
  | RunStarted SessionId RunId
  | TextDelta SessionId RunId string
  | ReasoningDelta SessionId RunId string
  | ToolAssembling SessionId RunId string
  | QuotaReported SessionId RunId QuotaSnapshot
  | QuotaBoundaryReached SessionId RunId QuotaReserveStatus
  | HandoffCreated SessionId HandoffCheckpoint
  | UsageReported SessionId RunId Usage
  | PolicyChanged SessionId PolicyMode
  | PolicyClamped SessionId PolicyMode PolicyMode ProviderId ModelId GovernanceTier
  | ExtensionLoaded SessionId string string ExtensionLoadAuthority
  | ToolProposed SessionId RunId "ApprovalId option" ToolCall ToolTier string
  | ApprovalResolved SessionId RunId ApprovalId ApprovalDecision
  | ToolCompleted SessionId RunId string string ToolResult
  | ToolFailed SessionId RunId string string ReasonCode string
  | BudgetExhausted SessionId RunId
  | RunFinished SessionId RunId FinishReason
  | RunFailed SessionId RunId ReasonCode string
  | ModelChanged SessionId ProviderId ModelId
  | ModelChangeRefused SessionId ProviderId ModelId ReasonCode string
  | FileSaved SessionId string string string u64
  | SpawnEnvelopeArmed SessionId PolicyMode u32 u32 u32 u32
  | SpawnEnvelopeDrawn SessionId RunId u32 u32 u32
  | SpawnEnvelopeCleared SessionId EnvelopeEnd
  | SubagentSpawned SessionId RunId SessionId string PolicyMode string string
  | SubagentResultLate SessionId SessionId string
  | ReadSetCollision SessionId SessionId SessionId string
  | SubagentActivity SessionId RunId SessionId string
  | RecoveryRequired SessionId InterruptedWork
  | RecoveryResolved SessionId RecoveryDecision
  | SessionEnded SessionId
  | TriggerFired SessionId string SessionId TriggerSourceKind
  | TriggerSettled SessionId string SessionId TriggerOutcome "ReasonCode option"
  | TriggerSkipped SessionId string OverlapPolicy string
  | TriggerQueued SessionId string
  | TriggerReplaced SessionId string SessionId
  | TriggerDisabled SessionId string ReasonCode u32
  | TriggerRearmed SessionId string
  | RouteSelected SessionId "SessionId option" string nat ProviderId ModelId RouteSelectionReason
  | RouteAdvanced SessionId RunId string nat nat ProviderId ModelId RouteAdvanceCondition
  | RouteExhausted SessionId RunId string RouteAdvanceCondition
  | BreakerStateChanged SessionId ProviderId BreakerState BreakerState
  | PlanInterviewStarted SessionId PlanId string
  | PlanQuestionAsked SessionId PlanId Question
  | PlanQuestionAnswered SessionId PlanId QuestionAnswer
  | PlanPrdProposed SessionId ProductRequirementsDocument
  | PlanProposed SessionId PlanProposal
  | PlanReviewed SessionId PlanReview
  | PlanApproved SessionId PlanApproval
  | PlanHandoffCreated SessionId PlanHandoff
  | CouncilReviewed SessionId CouncilReview
  | CouncilFindingDispositionRecorded SessionId CouncilFindingDisposition
  | CouncilAmendmentProposed SessionId CouncilAmendment
  | ReviewNoteRecorded SessionId ReviewThreadId ReviewAnchor ReviewComment
  | ReviewCommentAdded SessionId ReviewThreadId ReviewComment
  | ReviewRequestSent SessionId "ReviewThreadId list" RunId
  | ReviewRequestAnswered SessionId "ReviewThreadId list" uuid
  | DecisionTicketOpened SessionId DecisionTicket
  | DecisionTicketResolved SessionId DecisionResolution
  | ImportedItemFetched SessionId ImportedItem
  | ImportedItemRefreshed SessionId string ImportedItem
  | ImportedActRecorded SessionId ImportedAct
  | ImportedCommentRecorded SessionId ImportedItemId string string

definition is_durable :: "MjolnrEvent \<Rightarrow> bool" where
  "is_durable e = (case e of
      MjolnrEvent.TextDelta _ _ _ \<Rightarrow> False
    | MjolnrEvent.ReasoningDelta _ _ _ \<Rightarrow> False
    | MjolnrEvent.ToolAssembling _ _ _ \<Rightarrow> False
    | MjolnrEvent.QuotaReported _ _ _ \<Rightarrow> False
    | MjolnrEvent.SubagentActivity _ _ _ _ \<Rightarrow> False
    | _ \<Rightarrow> True)"

definition introduces_message :: "MjolnrEvent \<Rightarrow> bool" where
  "introduces_message e = (case e of
      MjolnrEvent.MessageAppended _ _ \<Rightarrow> True
    | MjolnrEvent.ToolCompleted _ _ _ _ _ \<Rightarrow> True
    | MjolnrEvent.ToolFailed _ _ _ _ _ _ \<Rightarrow> True
    | _ \<Rightarrow> False)"

definition event_session :: "MjolnrEvent \<Rightarrow> SessionId" where
  "event_session e = (case e of
      MjolnrEvent.SessionCreated s _ _ \<Rightarrow> s
    | MjolnrEvent.MessageAppended s _ \<Rightarrow> s
    | MjolnrEvent.RunStarted s _ \<Rightarrow> s
    | MjolnrEvent.TextDelta s _ _ \<Rightarrow> s
    | MjolnrEvent.ReasoningDelta s _ _ \<Rightarrow> s
    | MjolnrEvent.ToolAssembling s _ _ \<Rightarrow> s
    | MjolnrEvent.QuotaReported s _ _ \<Rightarrow> s
    | MjolnrEvent.QuotaBoundaryReached s _ _ \<Rightarrow> s
    | MjolnrEvent.HandoffCreated s _ \<Rightarrow> s
    | MjolnrEvent.UsageReported s _ _ \<Rightarrow> s
    | MjolnrEvent.PolicyChanged s _ \<Rightarrow> s
    | MjolnrEvent.PolicyClamped s _ _ _ _ _ \<Rightarrow> s
    | MjolnrEvent.ExtensionLoaded s _ _ _ \<Rightarrow> s
    | MjolnrEvent.ToolProposed s _ _ _ _ _ \<Rightarrow> s
    | MjolnrEvent.ApprovalResolved s _ _ _ \<Rightarrow> s
    | MjolnrEvent.ToolCompleted s _ _ _ _ \<Rightarrow> s
    | MjolnrEvent.ToolFailed s _ _ _ _ _ \<Rightarrow> s
    | MjolnrEvent.BudgetExhausted s _ \<Rightarrow> s
    | MjolnrEvent.RunFinished s _ _ \<Rightarrow> s
    | MjolnrEvent.RunFailed s _ _ _ \<Rightarrow> s
    | MjolnrEvent.ModelChanged s _ _ \<Rightarrow> s
    | MjolnrEvent.ModelChangeRefused s _ _ _ _ \<Rightarrow> s
    | MjolnrEvent.FileSaved s _ _ _ _ \<Rightarrow> s
    | MjolnrEvent.SpawnEnvelopeArmed s _ _ _ _ _ \<Rightarrow> s
    | MjolnrEvent.SpawnEnvelopeDrawn s _ _ _ _ \<Rightarrow> s
    | MjolnrEvent.SpawnEnvelopeCleared s _ \<Rightarrow> s
    | MjolnrEvent.SubagentSpawned s _ _ _ _ _ _ \<Rightarrow> s
    | MjolnrEvent.SubagentResultLate s _ _ \<Rightarrow> s
    | MjolnrEvent.ReadSetCollision s _ _ _ \<Rightarrow> s
    | MjolnrEvent.SubagentActivity s _ _ _ \<Rightarrow> s
    | MjolnrEvent.RecoveryRequired s _ \<Rightarrow> s
    | MjolnrEvent.RecoveryResolved s _ \<Rightarrow> s
    | MjolnrEvent.SessionEnded s \<Rightarrow> s
    | MjolnrEvent.TriggerFired s _ _ _ \<Rightarrow> s
    | MjolnrEvent.TriggerSettled s _ _ _ _ \<Rightarrow> s
    | MjolnrEvent.TriggerSkipped s _ _ _ \<Rightarrow> s
    | MjolnrEvent.TriggerQueued s _ \<Rightarrow> s
    | MjolnrEvent.TriggerReplaced s _ _ \<Rightarrow> s
    | MjolnrEvent.TriggerDisabled s _ _ _ \<Rightarrow> s
    | MjolnrEvent.TriggerRearmed s _ \<Rightarrow> s
    | MjolnrEvent.RouteSelected s _ _ _ _ _ _ \<Rightarrow> s
    | MjolnrEvent.RouteAdvanced s _ _ _ _ _ _ _ \<Rightarrow> s
    | MjolnrEvent.RouteExhausted s _ _ _ \<Rightarrow> s
    | MjolnrEvent.BreakerStateChanged s _ _ _ \<Rightarrow> s
    | MjolnrEvent.PlanInterviewStarted s _ _ \<Rightarrow> s
    | MjolnrEvent.PlanQuestionAsked s _ _ \<Rightarrow> s
    | MjolnrEvent.PlanQuestionAnswered s _ _ \<Rightarrow> s
    | MjolnrEvent.PlanPrdProposed s _ \<Rightarrow> s
    | MjolnrEvent.PlanProposed s _ \<Rightarrow> s
    | MjolnrEvent.PlanReviewed s _ \<Rightarrow> s
    | MjolnrEvent.PlanApproved s _ \<Rightarrow> s
    | MjolnrEvent.PlanHandoffCreated s _ \<Rightarrow> s
    | MjolnrEvent.CouncilReviewed s _ \<Rightarrow> s
    | MjolnrEvent.CouncilFindingDispositionRecorded s _ \<Rightarrow> s
    | MjolnrEvent.CouncilAmendmentProposed s _ \<Rightarrow> s
    | MjolnrEvent.ReviewNoteRecorded s _ _ _ \<Rightarrow> s
    | MjolnrEvent.ReviewCommentAdded s _ _ \<Rightarrow> s
    | MjolnrEvent.ReviewRequestSent s _ _ \<Rightarrow> s
    | MjolnrEvent.ReviewRequestAnswered s _ _ \<Rightarrow> s
    | MjolnrEvent.DecisionTicketOpened s _ \<Rightarrow> s
    | MjolnrEvent.DecisionTicketResolved s _ \<Rightarrow> s
    | MjolnrEvent.ImportedItemFetched s _ \<Rightarrow> s
    | MjolnrEvent.ImportedItemRefreshed s _ _ \<Rightarrow> s
    | MjolnrEvent.ImportedActRecorded s _ \<Rightarrow> s
    | MjolnrEvent.ImportedCommentRecorded s _ _ _ \<Rightarrow> s)"

record StoredEvent =
  stored_id :: EventId
  stored_sequence :: u64
  occurred_at :: instant
  stored_event :: MjolnrEvent

end
