(* ===== verification/Trigger_Schedule.thy ===== *)
theory Trigger_Schedule
  imports Rust_Str Model
begin

text \<open>
  The five-field cron schedule (\<^verbatim>\<open>triggers/schedule.rs\<close>): its parser and the search for the
  next matching minute. How an instant reads as a civil date belongs to the time crate: it is
  the argument \<^verbatim>\<open>civil\<close> of the matching functions, any function of the instant.
\<close>

section \<open>String functions of the standard library\<close>

fun split_on :: "char \<Rightarrow> string \<Rightarrow> string list" where
  "split_on sep [] = [[]]"
| "split_on sep (c # cs) =
     (if c = sep then [] # split_on sep cs
      else case split_on sep cs of [] \<Rightarrow> [[c]] | p # ps \<Rightarrow> (c # p) # ps)"

fun ws_chunks :: "string list \<Rightarrow> string \<Rightarrow> string list" where
  "ws_chunks [] acc = (if acc = [] then [] else [acc])"
| "ws_chunks (ch # chs) acc =
     (if is_whitespace ch then (if acc = [] then ws_chunks chs [] else acc # ws_chunks chs [])
      else ws_chunks chs (acc @ ch))"

definition split_whitespace :: "string \<Rightarrow> string list" where
  "split_whitespace s = ws_chunks (str_chars s) []"

text \<open>\<^verbatim>\<open>str::parse::<u8>\<close>: an optional plus sign and at least one digit, at most 255.\<close>

definition digit_value :: "char \<Rightarrow> nat option" where
  "digit_value c = (let n = of_char c in if 48 \<le> n \<and> n \<le> 57 then Some (n - 48) else (None :: nat option))"

fun parse_digits :: "nat \<Rightarrow> string \<Rightarrow> nat option" where
  "parse_digits acc [] = Some acc"
| "parse_digits acc (c # cs) = (case digit_value c of
     None \<Rightarrow> None
   | Some d \<Rightarrow> if acc * 10 + d > 255 then None else parse_digits (acc * 10 + d) cs)"

definition parse_u8 :: "string \<Rightarrow> u8 option" where
  "parse_u8 s = (let digits = (case s of [] \<Rightarrow> [] | c # cs \<Rightarrow> if c = CHR ''+'' then cs else s) in
     if digits = [] then None else map_option of_nat (parse_digits 0 digits))"

text \<open>\<^verbatim>\<open>u8::checked_add\<close>.\<close>

definition advance_u8 :: "u8 \<Rightarrow> u8 \<Rightarrow> u8 option" where
  "advance_u8 value step = (if 255 < unat value + unat step then None else Some (value + step))"

lemma advance_u8_Some:
  "advance_u8 v d = Some w \<longleftrightarrow> unat v + unat d < 256 \<and> w = v + d"
  by (auto simp: advance_u8_def)

lemma unat_add_u8: "unat (a :: u8) + unat b < 256 \<Longrightarrow> unat (a + b) = unat a + unat b"
  by (simp add: unat_word_ariths)

section \<open>Fields\<close>

text \<open>
  The loop of a part. A step of zero is refused before it; testing it here as well only
  makes the recursion total.
\<close>

function step_values :: "u8 \<Rightarrow> u8 \<Rightarrow> u8 \<Rightarrow> u8 set \<Rightarrow> u8 set" where
  "step_values value high step values =
     (if value \<le> high \<and> step \<noteq> 0
      then (case advance_u8 value step of
          None \<Rightarrow> insert value values
        | Some next \<Rightarrow> step_values next high step (insert value values))
      else values)"
  by pat_completeness auto
termination
proof (relation "measure (\<lambda>(value, _). 256 - unat value)")
  fix v high step :: u8 and vs nxt
  assume "v \<le> high \<and> step \<noteq> 0" "advance_u8 v step = Some nxt"
  then have s: "unat v + unat step < 256" "nxt = v + step" "0 < unat step"
    by (auto simp: advance_u8_Some unat_gt_0)
  then have "unat nxt = unat v + unat step" by (simp add: unat_add_u8)
  with s show "((nxt, high, step, insert v vs), v, high, step, vs)
      \<in> measure (\<lambda>(value, _). 256 - unat value)" by simp
qed simp

declare step_values.simps [simp del]

definition parse_part :: "string \<Rightarrow> u8 \<Rightarrow> u8 \<Rightarrow> (u8 \<times> u8 \<times> u8, string) result" where
  "parse_part part lo hi =
     and_then (case split_once (CHR ''/'') part of
         Some (range_part, step) \<Rightarrow> map_ok (\<lambda>s. (range_part, s))
           (ok_or (''invalid step in `'' @ part @ ''`'') (parse_u8 step))
       | None \<Rightarrow> Inr (part, 1)) (\<lambda>(range_part, step).
     if step = 0 then Inl (''step 0 in `'' @ part @ ''` never matches'')
     else and_then
       (if range_part = ''*'' then Inr (lo, hi)
        else (case split_once (CHR ''-'') range_part of
          Some (low, high) \<Rightarrow>
            and_then (ok_or (''invalid range start in `'' @ part @ ''`'') (parse_u8 low)) (\<lambda>l.
            map_ok (\<lambda>h. (l, h)) (ok_or (''invalid range end in `'' @ part @ ''`'') (parse_u8 high)))
        | None \<Rightarrow> map_ok (\<lambda>v. (v, v))
            (ok_or (''invalid value `'' @ range_part @ ''`'') (parse_u8 range_part)))) (\<lambda>(low, high).
     if low < lo \<or> high > hi \<or> low > high
     then Inl (''`'' @ part @ ''` is outside the valid range '' @ show_u32 lo @ ''-'' @ show_u32 hi)
     else Inr (low, high, step)))"

fun parse_parts :: "string list \<Rightarrow> u8 \<Rightarrow> u8 \<Rightarrow> u8 set \<Rightarrow> (u8 set, string) result" where
  "parse_parts [] lo hi values = Inr values"
| "parse_parts (part # parts) lo hi values =
     and_then (parse_part part lo hi) (\<lambda>(low, high, step).
       parse_parts parts lo hi (step_values low high step values))"

definition parse_field :: "string \<Rightarrow> u8 \<Rightarrow> u8 \<Rightarrow> (u8 set, string) result" where
  "parse_field field lo hi =
     and_then (parse_parts (split_on (CHR '','') field) lo hi {}) (\<lambda>values.
       if values = {} then Inl (''`'' @ field @ ''` matches nothing'') else Inr values)"

section \<open>Schedules\<close>

record CronSchedule =
  minutes :: "u8 set"
  hours :: "u8 set"
  days_of_month :: "u8 set"
  months :: "u8 set"
  days_of_week :: "u8 set"

definition cron_parse :: "string \<Rightarrow> (CronSchedule, string) result" where
  "cron_parse expression = (let pieces = split_whitespace expression in
     case pieces of
       [minute, hour, day_of_month, month, day_of_week] \<Rightarrow>
         and_then (parse_field minute 0 59) (\<lambda>mi.
         and_then (parse_field hour 0 23) (\<lambda>ho.
         and_then (parse_field day_of_month 1 31) (\<lambda>dm.
         and_then (parse_field month 1 12) (\<lambda>mo.
         map_ok (\<lambda>dw. \<lparr>minutes = mi, hours = ho, days_of_month = dm, months = mo,
                       days_of_week = dw\<rparr>)
           (parse_field day_of_week 0 6)))))
     | _ \<Rightarrow> Inl (''expected 5 fields (minute hour day-of-month month day-of-week), found ''
                @ show_nat (length pieces)))"

datatype Weekday = Sunday | Monday | Tuesday | Wednesday | Thursday | Friday | Saturday

definition weekday_number :: "Weekday \<Rightarrow> u8" where
  "weekday_number d = (case d of
      Sunday \<Rightarrow> 0 | Monday \<Rightarrow> 1 | Tuesday \<Rightarrow> 2 | Wednesday \<Rightarrow> 3 | Thursday \<Rightarrow> 4 | Friday \<Rightarrow> 5
    | Saturday \<Rightarrow> 6)"

record Civil =
  civil_minute :: u8
  civil_hour :: u8
  civil_day :: u8
  civil_month :: u8
  civil_weekday :: Weekday

definition cron_matches :: "(instant \<Rightarrow> Civil) \<Rightarrow> CronSchedule \<Rightarrow> instant \<Rightarrow> bool" where
  "cron_matches civil s when \<longleftrightarrow>
     civil_minute (civil when) \<in> minutes s \<and> civil_hour (civil when) \<in> hours s
     \<and> civil_day (civil when) \<in> days_of_month s \<and> civil_month (civil when) \<in> months s
     \<and> weekday_number (civil_weekday (civil when)) \<in> days_of_week s"

definition minute_ns :: int where
  "minute_ns = 60 * 1000000000"

definition SEARCH_LIMIT_MINUTES :: nat where
  "SEARCH_LIMIT_MINUTES = 4 * 366 * 24 * 60"

text \<open>
  Dropping the seconds and nanoseconds of a UTC instant rounds it down to the minute; the
  saturation at the end of the calendar of the crate is not modelled.
\<close>

definition search_start :: "instant \<Rightarrow> instant" where
  "search_start start = (start div minute_ns) * minute_ns + minute_ns"

fun search_minutes :: "(instant \<Rightarrow> Civil) \<Rightarrow> CronSchedule \<Rightarrow> nat \<Rightarrow> instant \<Rightarrow> instant option" where
  "search_minutes civil s 0 candidate = None"
| "search_minutes civil s (Suc n) candidate =
     (if cron_matches civil s candidate then Some candidate
      else search_minutes civil s n (candidate + minute_ns))"

definition next_after :: "(instant \<Rightarrow> Civil) \<Rightarrow> CronSchedule \<Rightarrow> instant \<Rightarrow> instant option" where
  "next_after civil s start = search_minutes civil s SEARCH_LIMIT_MINUTES (search_start start)"

section \<open>Lemmas\<close>

lemma step_values_eq:
  "step \<noteq> 0 \<Longrightarrow> step_values value high step values =
     values \<union> {v. value \<le> v \<and> v \<le> high \<and> unat step dvd (unat v - unat value)}"
proof (induction "value" high step "values" rule: step_values.induct)
  case (1 val high step vals)
  show ?case
  proof (cases "val \<le> high")
    case False
    then show ?thesis by (auto simp: step_values.simps [of val])
  next
    case le: True
    show ?thesis
    proof (cases "advance_u8 val step")
      case None
      then have over: "256 \<le> unat val + unat step" by (simp add: advance_u8_def split: if_splits)
      have "v = val" if "val \<le> v" "unat step dvd (unat v - unat val)" for v
      proof -
        have "unat v < 256" using unsigned_less [of v, where ?'a = nat] by simp
        moreover have "0 < unat step" using "1.prems" by (simp add: unat_gt_0)
        ultimately have "unat v - unat val < unat step" using over by linarith
        then have "unat v - unat val = 0" using that(2) by (meson dvd_imp_le not_less neq0_conv)
        then show "v = val" using that(1) by (simp add: word_le_nat_alt word_unat_eq_iff)
      qed
      then show ?thesis using le None "1.prems" by (auto simp: step_values.simps [of val])
    next
      case (Some nxt)
      then have sum: "unat val + unat step < 256" "nxt = val + step"
        by (simp_all add: advance_u8_Some)
      then have nxt: "unat nxt = unat val + unat step" by (simp add: unat_add_u8)
      have pos: "0 < unat step" using "1.prems" by (simp add: unat_gt_0)
      have *: "val \<le> v \<and> unat step dvd (unat v - unat val) \<longleftrightarrow>
          v = val \<or> (nxt \<le> v \<and> unat step dvd (unat v - unat nxt))" for v
      proof (cases "unat nxt \<le> unat v")
        case True
        then obtain m where m: "unat v = unat nxt + m" using le_iff_add by blast
        then have "unat v - unat val = unat step + m" "unat v - unat nxt = m" using nxt by simp_all
        with True nxt pos show ?thesis by (auto simp: word_le_nat_alt)
      next
        case False
        then have "val \<le> v \<and> unat step dvd (unat v - unat val) \<Longrightarrow> unat v - unat val = 0"
          using nxt by (metis dvd_imp_le diff_is_0_eq leI le_diff_conv le_less_trans less_diff_conv2
              neq0_conv nat_le_linear add.commute)
        with False show ?thesis by (auto simp: word_le_nat_alt word_unat_eq_iff)
      qed
      have "step_values val high step vals = step_values nxt high step (insert val vals)"
        using le Some "1.prems" by (simp add: step_values.simps [of val])
      also have "\<dots> = insert val vals \<union> {v. nxt \<le> v \<and> v \<le> high \<and> unat step dvd (unat v - unat nxt)}"
        using "1.IH" [OF _ Some] le "1.prems" by simp
      finally show ?thesis using le * by auto
    qed
  qed
qed

lemma parse_part_range:
  "parse_part part lo hi = Inr (low, high, step) \<Longrightarrow>
     lo \<le> low \<and> low \<le> high \<and> high \<le> hi \<and> step \<noteq> 0"
  by (auto simp: parse_part_def and_then_Inr not_less split: if_splits)

lemma parse_parts_range:
  "parse_parts parts lo hi values = Inr vs \<Longrightarrow>
     values \<subseteq> vs \<and> vs \<subseteq> values \<union> {v. lo \<le> v \<and> v \<le> hi} \<and> (parts \<noteq> [] \<longrightarrow> vs \<noteq> {})"
proof (induction parts arbitrary: "values")
  case (Cons part parts)
  then obtain low high step where p: "parse_part part lo hi = Inr (low, high, step)"
    and rest: "parse_parts parts lo hi (step_values low high step values) = Inr vs"
    by (auto simp: and_then_Inr)
  from parse_part_range [OF p] have r: "lo \<le> low" "low \<le> high" "high \<le> hi" "step \<noteq> 0" by auto
  have "step_values low high step values \<subseteq> values \<union> {v. lo \<le> v \<and> v \<le> hi}"
    using r by (auto simp: step_values_eq)
  moreover have "values \<subseteq> step_values low high step values" "low \<in> step_values low high step values"
    using r by (auto simp: step_values_eq)
  ultimately show ?case using Cons.IH [OF rest] by blast
qed simp

lemma split_on_not_Nil [simp]: "split_on sep s \<noteq> []"
  by (induction s) (auto split: list.splits)

lemma parse_field_range:
  "parse_field field lo hi = Inr vs \<Longrightarrow> vs \<noteq> {} \<and> vs \<subseteq> {v. lo \<le> v \<and> v \<le> hi}"
  by (auto simp: parse_field_def and_then_Inr dest!: parse_parts_range split: if_splits)

lemma search_minutes_Some:
  "search_minutes civil s n c = Some t \<longleftrightarrow>
     (\<exists>k < n. t = c + int k * minute_ns \<and> cron_matches civil s t
        \<and> (\<forall>j < k. \<not> cron_matches civil s (c + int j * minute_ns)))"
proof (induction n arbitrary: c)
  case (Suc n)
  show ?case
  proof (cases "cron_matches civil s c")
    case True
    then show ?thesis by (force simp: gr0_conv_Suc)
  next
    case False
    have shift: "c + minute_ns + int j * minute_ns = c + int (Suc j) * minute_ns" for j
      by (simp add: algebra_simps)
    have "search_minutes civil s (Suc n) c = Some t \<longleftrightarrow>
        (\<exists>k < n. t = c + int (Suc k) * minute_ns \<and> cron_matches civil s t
           \<and> (\<forall>j < k. \<not> cron_matches civil s (c + int (Suc j) * minute_ns)))"
      using False by (simp add: Suc.IH shift del: of_nat_Suc)
    also have "\<dots> \<longleftrightarrow> (\<exists>k < Suc n. t = c + int k * minute_ns \<and> cron_matches civil s t
           \<and> (\<forall>j < k. \<not> cron_matches civil s (c + int j * minute_ns)))"
      using False by (auto simp: Ex_less_Suc2 All_less_Suc2 simp del: of_nat_Suc)
    finally show ?thesis .
  qed
qed simp

lemma search_minutes_None:
  "search_minutes civil s n c = None \<longleftrightarrow>
     (\<forall>k < n. \<not> cron_matches civil s (c + int k * minute_ns))"
proof (induction n arbitrary: c)
  case (Suc n)
  have shift: "c + minute_ns + int j * minute_ns = c + int (Suc j) * minute_ns" for j
    by (simp add: algebra_simps)
  show ?case
    by (simp add: Suc.IH shift All_less_Suc2 del: of_nat_Suc)
qed simp

lemma search_start_after: "start < search_start start"
  "search_start start \<le> start + minute_ns" "minute_ns dvd search_start start"
proof -
  have "start = (start div minute_ns) * minute_ns + start mod minute_ns" by simp
  moreover have "0 \<le> start mod minute_ns" "start mod minute_ns < minute_ns"
    by (simp_all add: minute_ns_def)
  ultimately show "start < search_start start" "search_start start \<le> start + minute_ns"
    unfolding search_start_def by linarith+
  show "minute_ns dvd search_start start" by (simp add: search_start_def)
qed

section \<open>Properties\<close>

text \<open>
  A parsed cron schedule is sensible: each of its five sets is nonempty and within the range
  of its field.
\<close>

theorem cron_fields_in_range:
  assumes "cron_parse expression = Inr s"
  shows "minutes s \<noteq> {} \<and> minutes s \<subseteq> {v. v \<le> 59} \<and> hours s \<noteq> {} \<and> hours s \<subseteq> {v. v \<le> 23}
    \<and> days_of_month s \<noteq> {} \<and> days_of_month s \<subseteq> {v. 1 \<le> v \<and> v \<le> 31}
    \<and> months s \<noteq> {} \<and> months s \<subseteq> {v. 1 \<le> v \<and> v \<le> 12}
    \<and> days_of_week s \<noteq> {} \<and> days_of_week s \<subseteq> {v. v \<le> 6}"
  using assms
  by (auto simp: cron_parse_def Let_def and_then_Inr map_ok_Inr split: list.splits
      dest!: parse_field_range)

theorem cron_fields_in_range_witness:
  "\<exists>s. cron_parse ''*/30 9 1,15 1 1-5'' = Inr s \<and> hours s \<subseteq> {v. v \<le> 23} \<and> hours s \<noteq> {}"
proof -
  have w: "split_whitespace ''*/30 9 1,15 1 1-5'' = [''*/30'', ''9'', ''1,15'', ''1'', ''1-5'']"
    by code_simp
  have "is_ok (cron_parse ''*/30 9 1,15 1 1-5'')"
    unfolding cron_parse_def w Let_def by code_simp
  then show ?thesis using cron_fields_in_range by (auto simp: is_ok_iff)
qed

text \<open>
  C39: the next occurrence of a schedule is the first one. It is a whole minute strictly after the
  instant asked about at which the schedule matches, no earlier whole minute matches, and it is
  missing only if no minute of the next four years matches.
\<close>

theorem next_occurrence_is_first:
  "case next_after civil s now of
     Some t \<Rightarrow> now < t \<and> minute_ns dvd t \<and> cron_matches civil s t
       \<and> (\<forall>u. now < u \<and> u < t \<and> minute_ns dvd u \<longrightarrow> \<not> cron_matches civil s u)
   | None \<Rightarrow> (\<forall>u. now < u \<and> u \<le> now + int SEARCH_LIMIT_MINUTES * minute_ns \<and> minute_ns dvd u
       \<longrightarrow> \<not> cron_matches civil s u)"
proof -
  let ?c = "search_start now"
  have pos: "0 < minute_ns" by (simp add: minute_ns_def)
  have grid: "\<exists>j. u = ?c + int j * minute_ns" if u: "now < u" "minute_ns dvd u" for u
  proof -
    from u(2) obtain q where q: "u = minute_ns * q" by blast
    have "now div minute_ns < q"
    proof (rule ccontr)
      assume "\<not> now div minute_ns < q"
      then have "minute_ns * q \<le> minute_ns * (now div minute_ns)" using pos by simp
      moreover have "minute_ns * (now div minute_ns) + now mod minute_ns = now" by simp
      moreover have "0 \<le> now mod minute_ns" using pos by simp
      ultimately show False using u(1) q by linarith
    qed
    then have "u = ?c + int (nat (q - now div minute_ns - 1)) * minute_ns"
      by (simp add: q search_start_def algebra_simps)
    then show ?thesis by blast
  qed
  show ?thesis
  proof (cases "next_after civil s now")
    case (Some t)
    then obtain k where k: "t = ?c + int k * minute_ns" "cron_matches civil s t"
      "\<forall>j < k. \<not> cron_matches civil s (?c + int j * minute_ns)"
      unfolding next_after_def search_minutes_Some by blast
    have "\<not> cron_matches civil s u" if u: "now < u" "u < t" "minute_ns dvd u" for u
    proof -
      from grid [OF u(1,3)] obtain j where j: "u = ?c + int j * minute_ns" by blast
      with u(2) k(1) pos have "j < k" by simp
      with k(3) j show ?thesis by blast
    qed
    moreover have "now < t"
    proof -
      have "0 \<le> int k * minute_ns" using pos by simp
      then show ?thesis using search_start_after(1) [of now] k(1) by linarith
    qed
    moreover have "minute_ns dvd t" using search_start_after(3) [of now] by (simp add: k(1))
    ultimately show ?thesis using Some k(2) by auto
  next
    case None
    have "\<not> cron_matches civil s u"
      if u: "now < u" "u \<le> now + int SEARCH_LIMIT_MINUTES * minute_ns" "minute_ns dvd u" for u
    proof -
      from grid [OF u(1,3)] obtain j where j: "u = ?c + int j * minute_ns" by blast
      have "int j * minute_ns < int SEARCH_LIMIT_MINUTES * minute_ns"
        using u(2) search_start_after(1) [of now] by (simp add: j)
      then have "j < SEARCH_LIMIT_MINUTES" using pos by simp
      with None j show ?thesis by (simp add: next_after_def search_minutes_None)
    qed
    then show ?thesis using None by auto
  qed
qed

text \<open>A clock that counts minutes of the hour on one day, and the schedule of its third minute.\<close>

definition example_clock :: "instant \<Rightarrow> Civil" where
  "example_clock when = \<lparr>civil_minute = of_int ((when div minute_ns) mod 60), civil_hour = 0,
     civil_day = 1, civil_month = 1, civil_weekday = Monday\<rparr>"

definition example_schedule :: CronSchedule where
  "example_schedule = \<lparr>minutes = {3}, hours = {0}, days_of_month = {1}, months = {1},
     days_of_week = {1}\<rparr>"

lemma search_minutes_unfold:
  "0 < n \<Longrightarrow> search_minutes civil s n c =
     (if cron_matches civil s c then Some c else search_minutes civil s (n - 1) (c + minute_ns))"
  by (cases n) simp_all

theorem next_occurrence_is_first_witness:
  "next_after example_clock example_schedule 0 = Some (3 * minute_ns)
   \<and> cron_matches example_clock example_schedule (3 * minute_ns)
   \<and> \<not> cron_matches example_clock example_schedule (2 * minute_ns)"
proof -
  have n: "next_after example_clock example_schedule 0 = Some (3 * minute_ns)"
    by (simp add: next_after_def search_start_def SEARCH_LIMIT_MINUTES_def search_minutes_unfold
        cron_matches_def example_clock_def example_schedule_def minute_ns_def weekday_number_def)
  from next_occurrence_is_first [where civil = example_clock and s = example_schedule and now = 0] n
  have "cron_matches example_clock example_schedule (3 * minute_ns)"
    and "\<forall>u. 0 < u \<and> u < 3 * minute_ns \<and> minute_ns dvd u \<longrightarrow>
      \<not> cron_matches example_clock example_schedule u" by simp_all
  moreover from this(2) have "\<not> cron_matches example_clock example_schedule (2 * minute_ns)"
    by (auto simp: minute_ns_def)
  ultimately show ?thesis using n by blast
qed

end
