(* ===== verification/Budget.thy ===== *)
theory Budget
  imports Prelude
begin

text \<open>
  The limits of a run (\<^verbatim>\<open>runtime/budget.rs\<close>); durations in nanoseconds, fractions as the bits
  of their single precision floats.
\<close>

record BudgetLimits =
  limit_provider_turns :: u32
  limit_tool_calls :: u32
  max_wall_time :: nat
  command_timeout :: nat
  max_tool_output_bytes :: nat
  quota_token_budget :: "u64 option"
  quota_soft_fraction :: f32
  quota_hard_fraction :: f32

definition second_ns :: nat where
  "second_ns = 1000000000"

definition BudgetLimits_default :: BudgetLimits where
  "BudgetLimits_default = \<lparr>limit_provider_turns = 20, limit_tool_calls = 40,
     max_wall_time = 600 * second_ns, command_timeout = 120 * second_ns,
     max_tool_output_bytes = 64 * 1024, quota_token_budget = None,
     quota_soft_fraction = 0x3F4CCCCD, quota_hard_fraction = 0x3F733333\<rparr>"

end
