(* ===== verification/Trigger_Scheduler.thy ===== *)
theory Trigger_Scheduler
  imports Event Trigger_Schedule Budget
begin

text \<open>
  Triggers: the parsed definition (\<^verbatim>\<open>triggers/definition.rs\<close>), the state folded from the
  control session's events (\<^verbatim>\<open>triggers/control.rs\<close>), the status shown of it
  (\<^verbatim>\<open>triggers/status.rs\<close>) and the scheduler's loop (\<^verbatim>\<open>triggers/scheduler.rs\<close>) as a step
  relation over the loop's state, the events of the control session and the firings that are
  under way. A cancellation token is named by the child session of its firing.
\<close>

section \<open>Definitions\<close>

datatype TriggerSource = Schedule string | Webhook "16 word" string

definition TriggerSource_kind :: "TriggerSource \<Rightarrow> TriggerSourceKind" where
  "TriggerSource_kind s = (case s of
      TriggerSource.Schedule _ \<Rightarrow> TriggerSourceKind.Schedule
    | TriggerSource.Webhook _ _ \<Rightarrow> TriggerSourceKind.Webhook)"

record TriggerDefinition =
  trigger_name :: string
  trigger_source :: TriggerSource
  trigger_directive :: string
  trigger_policy_ceiling :: PolicyMode
  trigger_budgets :: BudgetLimits
  trigger_provider :: string
  trigger_model :: string
  trigger_route :: "string option"
  trigger_role :: "string option"
  trigger_notify :: "string option"
  trigger_overlap :: OverlapPolicy
  trigger_max_failures :: u32

record RawDefinition =
  raw_schedule :: "string option"
  raw_webhook_port :: "16 word option"
  raw_webhook_path :: "string option"
  raw_directive :: string
  raw_policy :: "string option"
  raw_trigger_provider :: string
  raw_trigger_model :: string
  raw_route :: "string option"
  raw_role :: "string option"
  raw_notify :: "string option"
  raw_overlap :: "string option"
  raw_max_failures :: "u32 option"
  raw_max_provider_turns :: "u32 option"
  raw_max_tool_calls :: "u32 option"
  raw_max_wall_time_seconds :: "u64 option"
  raw_command_timeout_seconds :: "u64 option"

definition DEFAULT_MAX_CONSECUTIVE_FAILURES :: u32 where
  "DEFAULT_MAX_CONSECUTIVE_FAILURES = 3"

definition parse_trigger_policy :: "string \<Rightarrow> (PolicyMode, string) result" where
  "parse_trigger_policy raw =
     (if raw = ''read-only'' then Inr PolicyMode.ReadOnly
      else if raw = ''workspace-write'' then Inr PolicyMode.WorkspaceWrite
      else if raw = ''full-auto'' then Inr PolicyMode.FullAuto
      else Inl (''policy `'' @ raw
        @ ''` is not valid for a trigger; use read-only, workspace-write, or full-auto''))"

definition trigger_source_of :: "RawDefinition \<Rightarrow> (TriggerSource, string) result" where
  "trigger_source_of raw = (case (raw_schedule raw, raw_webhook_port raw) of
      (Some cron, None) \<Rightarrow>
        map_ok (\<lambda>_. TriggerSource.Schedule cron)
          (map_err (\<lambda>error. ''invalid schedule `'' @ cron @ ''`: '' @ error) (cron_parse cron))
    | (None, Some port) \<Rightarrow>
        Inr (TriggerSource.Webhook port
          (case raw_webhook_path raw of Some path \<Rightarrow> path | None \<Rightarrow> ''/''))
    | (Some _, Some _) \<Rightarrow>
        Inl ''a trigger must have exactly one of `schedule` or `webhook_port`, not both''
    | (None, None) \<Rightarrow>
        Inl ''a trigger needs `schedule` (cron) or `webhook_port` (local webhook)'')"

definition trigger_budgets_of :: "RawDefinition \<Rightarrow> BudgetLimits" where
  "trigger_budgets_of raw = BudgetLimits_default\<lparr>
     limit_provider_turns := (case raw_max_provider_turns raw of
        Some n \<Rightarrow> n | None \<Rightarrow> limit_provider_turns BudgetLimits_default),
     limit_tool_calls := (case raw_max_tool_calls raw of
        Some n \<Rightarrow> n | None \<Rightarrow> limit_tool_calls BudgetLimits_default),
     max_wall_time := (case raw_max_wall_time_seconds raw of
        Some n \<Rightarrow> unat n * second_ns | None \<Rightarrow> max_wall_time BudgetLimits_default),
     command_timeout := (case raw_command_timeout_seconds raw of
        Some n \<Rightarrow> unat n * second_ns | None \<Rightarrow> command_timeout BudgetLimits_default)\<rparr>"

definition trigger_parse ::
  "(string \<Rightarrow> (RawDefinition, string) result) \<Rightarrow> string \<Rightarrow> string \<Rightarrow> (TriggerDefinition, string) result"
where
  "trigger_parse yaml name content =
     and_then (map_err (\<lambda>error. ''invalid YAML: '' @ error) (yaml content)) (\<lambda>raw.
     and_then (trigger_source_of raw) (\<lambda>source.
     and_then (case raw_policy raw of
         None \<Rightarrow> Inr PolicyMode.ReadOnly | Some text \<Rightarrow> parse_trigger_policy text) (\<lambda>policy.
     and_then (case raw_overlap raw of
         None \<Rightarrow> Inr OverlapPolicy.Skip
       | Some text \<Rightarrow> ok_or (''overlap `'' @ text @ ''` is not valid; use skip, queue, or replace'')
           (OverlapPolicy_parse text)) (\<lambda>overlap.
     if trim (raw_directive raw) = [] then Inl ''a trigger needs a non-empty `directive`''
     else Inr \<lparr>trigger_name = name, trigger_source = source, trigger_directive = raw_directive raw,
       trigger_policy_ceiling = policy, trigger_budgets = trigger_budgets_of raw,
       trigger_provider = raw_trigger_provider raw, trigger_model = raw_trigger_model raw,
       trigger_route = raw_route raw, trigger_role = raw_role raw, trigger_notify = raw_notify raw,
       trigger_overlap = overlap,
       trigger_max_failures = max 1 (case raw_max_failures raw of
          Some n \<Rightarrow> n | None \<Rightarrow> DEFAULT_MAX_CONSECUTIVE_FAILURES)\<rparr>))))"

section \<open>The control state\<close>

record TriggerRuntimeState =
  consecutive_failed :: u32
  disabled_reason :: "ReasonCode option"
  last_outcome :: "TriggerOutcome option"

definition TriggerRuntimeState_default :: TriggerRuntimeState where
  "TriggerRuntimeState_default =
     \<lparr>consecutive_failed = 0, disabled_reason = None, last_outcome = None\<rparr>"

definition control_step :: "string \<Rightarrow> MjolnrEvent \<Rightarrow> TriggerRuntimeState \<Rightarrow> TriggerRuntimeState" where
  "control_step name e st = (case e of
      MjolnrEvent.TriggerSettled _ trigger _ outcome _ \<Rightarrow>
        if trigger = name
        then st\<lparr>last_outcome := Some outcome,
            consecutive_failed := if counts_as_failure outcome
              then sat_add (consecutive_failed st) 1 else 0\<rparr>
        else st
    | MjolnrEvent.TriggerDisabled _ trigger code _ \<Rightarrow>
        if trigger = name then st\<lparr>disabled_reason := Some code\<rparr> else st
    | MjolnrEvent.TriggerRearmed _ trigger \<Rightarrow>
        if trigger = name then st\<lparr>disabled_reason := None, consecutive_failed := 0\<rparr> else st
    | _ \<Rightarrow> st)"

definition control_fold :: "MjolnrEvent list \<Rightarrow> string \<Rightarrow> TriggerRuntimeState" where
  "control_fold events name = fold (control_step name) events TriggerRuntimeState_default"

definition control_replay :: "StoredEvent list \<Rightarrow> string \<Rightarrow> TriggerRuntimeState" where
  "control_replay events name = control_fold (map stored_event events) name"

section \<open>Status\<close>

definition next_fire :: "(instant \<Rightarrow> Civil) \<Rightarrow> instant \<Rightarrow> TriggerDefinition \<Rightarrow> instant option" where
  "next_fire civil now d = (case trigger_source d of
      TriggerSource.Schedule cron \<Rightarrow> (case cron_parse cron of
        Inl _ \<Rightarrow> None | Inr schedule \<Rightarrow> next_after civil schedule now)
    | TriggerSource.Webhook _ _ \<Rightarrow> None)"

definition fired_at :: "string \<Rightarrow> StoredEvent \<Rightarrow> instant option" where
  "fired_at name stored = (case stored_event stored of
      MjolnrEvent.TriggerFired _ trigger _ _ \<Rightarrow>
        if trigger = name then Some (occurred_at stored) else None
    | _ \<Rightarrow> None)"

definition status_of ::
  "(instant \<Rightarrow> Civil) \<Rightarrow> instant \<Rightarrow> StoredEvent list \<Rightarrow> TriggerDefinition \<Rightarrow> TriggerStatus" where
  "status_of civil now events d =
     (let st = control_replay events (trigger_name d);
          last_fired = (case List.map_filter (fired_at (trigger_name d)) (rev events) of
            [] \<Rightarrow> None | t # _ \<Rightarrow> Some t);
          enabled = (disabled_reason st = None)
      in \<lparr>status_name = trigger_name d, status_source = TriggerSource_kind (trigger_source d),
        status_overlap = trigger_overlap d, status_enabled = enabled,
        status_disabled_reason = disabled_reason st,
        status_consecutive_failures = consecutive_failed st,
        status_max_consecutive_failures = trigger_max_failures d,
        status_last_outcome = last_outcome st, status_last_fired_at = last_fired,
        status_next_fire_at = if enabled then next_fire civil now d else None\<rparr>)"

section \<open>The scheduler's loop\<close>

text \<open>
  What the loop relies on: which appends the store accepts, whether it can be read, and how a
  payload is printed.
\<close>

record SchedulerEnv =
  accepts :: "MjolnrEvent \<Rightarrow> bool"
  readable :: bool
  show_json :: "Json \<Rightarrow> string"

record TriggerSystem =
  in_flight :: "SessionId option"
  queued :: bool
  history :: "MjolnrEvent list"
  running :: "(SessionId \<times> string) list"
  cancelled :: "SessionId list"

definition system_init :: "MjolnrEvent list \<Rightarrow> TriggerSystem" where
  "system_init events = \<lparr>in_flight = None, queued = False, history = events, running = [],
     cancelled = []\<rparr>"

definition append_event :: "SchedulerEnv \<Rightarrow> MjolnrEvent \<Rightarrow> TriggerSystem \<Rightarrow> TriggerSystem" where
  "append_event env e sys = (if accepts env e then sys\<lparr>history := history sys @ [e]\<rparr> else sys)"

definition trigger_is_disabled :: "SchedulerEnv \<Rightarrow> TriggerDefinition \<Rightarrow> TriggerSystem \<Rightarrow> bool option" where
  "trigger_is_disabled env d sys =
     (if readable env
      then Some (disabled_reason (control_fold (history sys) (trigger_name d)) \<noteq> None) else None)"

definition directive_for :: "SchedulerEnv \<Rightarrow> TriggerDefinition \<Rightarrow> Json option \<Rightarrow> string" where
  "directive_for env d payload = (case payload of
      Some v \<Rightarrow> if v \<noteq> JNull
        then trigger_directive d @ [CHR 0x0A, CHR 0x0A] @ ''<webhook_payload>'' @ [CHR 0x0A]
          @ show_json env v @ [CHR 0x0A] @ ''</webhook_payload>''
        else trigger_directive d
    | None \<Rightarrow> trigger_directive d)"

definition start_firing ::
  "SchedulerEnv \<Rightarrow> SessionId \<Rightarrow> TriggerDefinition \<Rightarrow> SessionId \<Rightarrow> Json option \<Rightarrow> TriggerSystem
     \<Rightarrow> TriggerSystem" where
  "start_firing env ctl d child payload sys =
     (let sys' = append_event env (MjolnrEvent.TriggerFired ctl (trigger_name d) child
            (TriggerSource_kind (trigger_source d))) sys
      in sys'\<lparr>running := running sys' @ [(child, directive_for env d payload)]\<rparr>)"

definition handle_occurrence ::
  "SchedulerEnv \<Rightarrow> SessionId \<Rightarrow> TriggerDefinition \<Rightarrow> SessionId \<Rightarrow> Json option \<Rightarrow> TriggerSystem
     \<Rightarrow> TriggerSystem" where
  "handle_occurrence env ctl d child payload sys =
     (case overlap_decide (trigger_overlap d) (in_flight sys \<noteq> None) (queued sys) of
        OverlapDecision.Start \<Rightarrow> (start_firing env ctl d child payload sys)\<lparr>in_flight := Some child\<rparr>
      | OverlapDecision.Skip \<Rightarrow>
          append_event env (MjolnrEvent.TriggerSkipped ctl (trigger_name d) (trigger_overlap d)
            ''a firing was already in flight'') sys
      | OverlapDecision.Queue \<Rightarrow>
          append_event env (MjolnrEvent.TriggerQueued ctl (trigger_name d)) (sys\<lparr>queued := True\<rparr>)
      | OverlapDecision.Replace \<Rightarrow>
          (let sys' = (case in_flight sys of
               Some token \<Rightarrow> sys\<lparr>in_flight := None, cancelled := cancelled sys @ [token]\<rparr>
             | None \<Rightarrow> sys)
           in (start_firing env ctl d child payload sys')\<lparr>in_flight := Some child\<rparr>))"

record Settlement =
  settled_child :: SessionId
  settled_outcome :: TriggerOutcome
  settled_reason :: "ReasonCode option"

definition record_settlement ::
  "SchedulerEnv \<Rightarrow> SessionId \<Rightarrow> TriggerDefinition \<Rightarrow> Settlement \<Rightarrow> TriggerSystem \<Rightarrow> TriggerSystem" where
  "record_settlement env ctl d s sys =
     (let sys1 = append_event env (MjolnrEvent.TriggerSettled ctl (trigger_name d)
            (settled_child s) (settled_outcome s) (settled_reason s)) sys in
      if \<not> counts_as_failure (settled_outcome s) then sys1
      else if \<not> readable env then sys1
      else let st = control_fold (history sys1) (trigger_name d) in
        if trigger_max_failures d \<le> consecutive_failed st
        then append_event env (MjolnrEvent.TriggerDisabled ctl (trigger_name d)
          ReasonCode.TriggerDisabled (consecutive_failed st)) sys1
        else sys1)"

text \<open>
  One iteration waits for the first of three things; the child id of a firing it may start is
  the next fresh one. The flag is the break that ends the loop.
\<close>

datatype TickInput = Shutdown | Occurrence "Json option" | Settles Settlement

definition tick ::
  "SchedulerEnv \<Rightarrow> SessionId \<Rightarrow> TriggerDefinition \<Rightarrow> SessionId \<Rightarrow> TickInput \<Rightarrow> TriggerSystem
     \<Rightarrow> bool \<times> TriggerSystem" where
  "tick env ctl d child input sys = (case input of
      Shutdown \<Rightarrow> (True, case in_flight sys of
          Some token \<Rightarrow> sys\<lparr>in_flight := None, cancelled := cancelled sys @ [token]\<rparr>
        | None \<Rightarrow> sys)
    | Occurrence payload \<Rightarrow> (False, handle_occurrence env ctl d child payload sys)
    | Settles s \<Rightarrow>
        (let sys' = record_settlement env ctl d s (sys\<lparr>in_flight := None\<rparr>) in
         (False, if queued sys'
           then handle_occurrence env ctl d child None (sys'\<lparr>queued := False\<rparr>) else sys')))"

text \<open>How long the wait for an occurrence takes and what it then returns.\<close>

datatype Wait = Sleep nat | Message

definition RECHECK_IDLE :: nat where
  "RECHECK_IDLE = 3600"

definition wait_for_occurrence ::
  "(instant \<Rightarrow> Civil) \<Rightarrow> TriggerSource \<Rightarrow> bool \<Rightarrow> instant \<Rightarrow> instant \<Rightarrow> Json option
     \<Rightarrow> Wait \<times> Json option" where
  "wait_for_occurrence civil source has_receiver now now' received = (case source of
      TriggerSource.Schedule cron \<Rightarrow> (case cron_parse cron of
          Inl _ \<Rightarrow> (Sleep RECHECK_IDLE, None)
        | Inr schedule \<Rightarrow> (case next_after civil schedule now of
            None \<Rightarrow> (Sleep RECHECK_IDLE, None)
          | Some nxt \<Rightarrow> (Sleep (nat (max 0 ((nxt - now') div int second_ns))), None)))
    | TriggerSource.Webhook _ _ \<Rightarrow>
        if has_receiver then (Message, received) else (Sleep RECHECK_IDLE, None))"

text \<open>
  The system: an iteration that is not disabled consumes an occurrence or the settlement of a
  running firing; a human may re-arm the trigger at any time.
\<close>

inductive trigger_step ::
  "SchedulerEnv \<Rightarrow> SessionId \<Rightarrow> TriggerDefinition \<Rightarrow> TriggerSystem \<Rightarrow> TriggerSystem \<Rightarrow> bool"
  for env ctl d where
  occurs: "trigger_is_disabled env d sys = Some False \<Longrightarrow> child \<notin> fst ` set (running sys) \<Longrightarrow>
     trigger_step env ctl d sys (snd (tick env ctl d child (Occurrence payload) sys))"
| settles: "trigger_is_disabled env d sys = Some False \<Longrightarrow> c \<in> fst ` set (running sys) \<Longrightarrow>
     child \<notin> fst ` set (running sys) \<Longrightarrow>
     trigger_step env ctl d sys (snd (tick env ctl d child
       (Settles \<lparr>settled_child = c, settled_outcome = out, settled_reason = why\<rparr>)
       (sys\<lparr>running := filter (\<lambda>(k, _). k \<noteq> c) (running sys)\<rparr>)))"
| rearms: "trigger_step env ctl d sys
     (append_event env (MjolnrEvent.TriggerRearmed ctl (trigger_name d)) sys)"

inductive trigger_reachable ::
  "SchedulerEnv \<Rightarrow> SessionId \<Rightarrow> TriggerDefinition \<Rightarrow> TriggerSystem \<Rightarrow> bool"
  for env ctl d where
  init: "trigger_reachable env ctl d (system_init [])"
| step: "trigger_reachable env ctl d sys \<Longrightarrow> trigger_step env ctl d sys sys' \<Longrightarrow>
     trigger_reachable env ctl d sys'"

section \<open>Outcomes\<close>

datatype HeadlessOutcome = Verified | Refused | BudgetOrQuotaStopped | Failed

definition map_outcome :: "HeadlessOutcome \<Rightarrow> TriggerOutcome" where
  "map_outcome x = (case x of
      HeadlessOutcome.Verified \<Rightarrow> TriggerOutcome.Verified
    | HeadlessOutcome.Refused \<Rightarrow> TriggerOutcome.Refused
    | HeadlessOutcome.BudgetOrQuotaStopped \<Rightarrow> TriggerOutcome.BudgetOrQuotaStopped
    | HeadlessOutcome.Failed \<Rightarrow> TriggerOutcome.Failed)"

definition resolve_model :: "ProviderId list \<Rightarrow> TriggerDefinition \<Rightarrow> (ProviderId \<times> ModelId) option" where
  "resolve_model providers d = (let provider = ProviderId (trigger_provider d) in
     if provider \<in> set providers then Some (provider, ModelId (trigger_model d)) else None)"

section \<open>Lemmas\<close>

lemma append_event_frame [simp]:
  "in_flight (append_event env e sys) = in_flight sys"
  "queued (append_event env e sys) = queued sys"
  "running (append_event env e sys) = running sys"
  "cancelled (append_event env e sys) = cancelled sys"
  by (simp_all add: append_event_def)

lemma record_settlement_frame [simp]:
  "in_flight (record_settlement env ctl d s sys) = in_flight sys"
  "queued (record_settlement env ctl d s sys) = queued sys"
  "running (record_settlement env ctl d s sys) = running sys"
  "cancelled (record_settlement env ctl d s sys) = cancelled sys"
  by (simp_all add: record_settlement_def Let_def)

lemma start_firing_frame [simp]:
  "in_flight (start_firing env ctl d child payload sys) = in_flight sys"
  "queued (start_firing env ctl d child payload sys) = queued sys"
  "map fst (running (start_firing env ctl d child payload sys)) = map fst (running sys) @ [child]"
  "cancelled (start_firing env ctl d child payload sys) = cancelled sys"
  by (simp_all add: start_firing_def Let_def)

lemmas scheduler_defs = tick_def handle_occurrence_def overlap_decide_def

text \<open>Without replacement the loop knows its one firing.\<close>

definition flight_inv :: "TriggerSystem \<Rightarrow> bool" where
  [inv_defs]: "flight_inv sys \<longleftrightarrow>
     map fst (running sys) = (case in_flight sys of None \<Rightarrow> [] | Some c \<Rightarrow> [c])
     \<and> (queued sys \<longrightarrow> in_flight sys \<noteq> None) \<and> cancelled sys = []"

lemma handle_occurrence_flight:
  assumes "trigger_overlap d \<noteq> OverlapPolicy.Replace" "flight_inv sys"
  shows "flight_inv (handle_occurrence env ctl d child payload sys)"
  using assms
  by (cases "trigger_overlap d"; cases "in_flight sys")
    (auto simp: scheduler_defs flight_inv_def)

lemma settled_flight:
  assumes "flight_inv sys" "c \<in> fst ` set (running sys)"
  shows "in_flight sys = Some c \<and> filter (\<lambda>(k, _). k \<noteq> c) (running sys) = []"
  using assms by (cases "running sys") (auto simp: flight_inv_def split: option.splits)

lemma trigger_step_flight:
  assumes "trigger_overlap d \<noteq> OverlapPolicy.Replace"
    and "trigger_step env ctl d sys sys'" and "flight_inv sys"
  shows "flight_inv sys'"
  using assms(2,3)
proof cases
  case (occurs child payload)
  with assms show ?thesis by (simp add: tick_def handle_occurrence_flight)
next
  case (settles c child out why)
  let ?s = "\<lparr>settled_child = c, settled_outcome = out, settled_reason = why\<rparr>"
  let ?sys = "record_settlement env ctl d ?s
    (sys\<lparr>running := filter (\<lambda>(k, _). k \<noteq> c) (running sys), in_flight := None\<rparr>)"
  from settled_flight [OF assms(3) settles(3)] have none: "filter (\<lambda>(k, _). k \<noteq> c) (running sys) = []"
    by simp
  have "flight_inv (?sys\<lparr>queued := False\<rparr>)" "\<not> queued sys \<Longrightarrow> flight_inv ?sys"
    using assms(3) none by (auto simp: flight_inv_def)
  with settles(1) show ?thesis
    by (auto simp: tick_def Let_def intro: handle_occurrence_flight [OF assms(1)])
next
  case rearms
  with assms(3) show ?thesis by (simp add: flight_inv_def)
qed

text \<open>The failure count, and that a trigger that reached its limit is disabled.\<close>

lemma control_fold_append:
  "control_fold (es @ es') name = fold (control_step name) es' (control_fold es name)"
  by (simp add: control_fold_def)

definition failure_inv :: "TriggerDefinition \<Rightarrow> TriggerSystem \<Rightarrow> bool" where
  [inv_defs]: "failure_inv d sys \<longleftrightarrow>
     (let st = control_fold (history sys) (trigger_name d) in
      disabled_reason st = None \<longrightarrow> consecutive_failed st < trigger_max_failures d)"

lemma failure_inv_append:
  assumes "failure_inv d sys" "0 < trigger_max_failures d"
    and "\<forall>s t c out r. e \<noteq> MjolnrEvent.TriggerSettled s t c out r"
  shows "failure_inv d (append_event env e sys)"
  using assms
  by (cases e) (auto simp: failure_inv_def append_event_def control_fold_append control_step_def Let_def)

lemma record_settlement_failure_inv:
  assumes "accepts env = (\<lambda>_. True)" "readable env" "0 < trigger_max_failures d"
  shows "failure_inv d (record_settlement env ctl d s sys)"
  using assms
  by (auto simp: record_settlement_def failure_inv_def append_event_def control_fold_append
      control_step_def Let_def not_le)

lemma handle_occurrence_failure_inv:
  assumes "0 < trigger_max_failures d" "failure_inv d sys"
  shows "failure_inv d (handle_occurrence env ctl d child payload sys)"
proof -
  have frame: "failure_inv d (sys'\<lparr>in_flight := a, queued := b, running := r, cancelled := c\<rparr>)
      = failure_inv d sys'" for sys' a b r c by (simp add: failure_inv_def)
  have upd: "failure_inv d (sys'\<lparr>in_flight := a\<rparr>) = failure_inv d sys'"
    "failure_inv d (sys'\<lparr>queued := b\<rparr>) = failure_inv d sys'"
    "failure_inv d (sys'\<lparr>running := r\<rparr>) = failure_inv d sys'"
    "failure_inv d (sys'\<lparr>cancelled := c\<rparr>) = failure_inv d sys'" for sys' a b r c
    by (simp_all add: failure_inv_def)
  show ?thesis
    using assms
    by (auto simp: handle_occurrence_def start_firing_def upd Let_def failure_inv_append
        split: OverlapDecision.splits option.splits)
qed

lemma trigger_step_failure_inv:
  assumes env: "accepts env = (\<lambda>_. True)" "readable env" "0 < trigger_max_failures d"
    and step: "trigger_step env ctl d sys sys'" and inv: "failure_inv d sys"
  shows "failure_inv d sys'"
  using step
proof cases
  case (occurs child payload)
  with env inv show ?thesis by (simp add: tick_def handle_occurrence_failure_inv)
next
  case (settles c child out why)
  have upd: "failure_inv d (s\<lparr>queued := b\<rparr>) = failure_inv d s" for s b
    by (simp add: failure_inv_def)
  from settles env show ?thesis
    by (simp add: tick_def Let_def upd handle_occurrence_failure_inv record_settlement_failure_inv)
next
  case rearms
  with inv env show ?thesis by (simp add: failure_inv_append)
qed

section \<open>Properties\<close>

text \<open>
  C33: a trigger that skips or queues has one firing at a time. In every reachable state of its
  loop, whatever the order of occurrences, settlements and re-arms and whatever the store
  accepts, at most one firing is under way, it is the one whose token the loop holds, and an
  occurrence is held back only while one is.
\<close>

theorem one_firing_at_a_time:
  assumes "trigger_reachable env ctl d sys" and "trigger_overlap d \<noteq> OverlapPolicy.Replace"
  shows "length (running sys) \<le> 1 \<and> map fst (running sys) = (case in_flight sys of None \<Rightarrow> [] | Some c \<Rightarrow> [c])
    \<and> (queued sys \<longrightarrow> in_flight sys \<noteq> None)"
proof -
  from assms(1) have "flight_inv sys"
  proof induction
    case init
    show ?case by (simp add: flight_inv_def system_init_def)
  next
    case (step sys sys')
    with trigger_step_flight [OF assms(2)] show ?case by blast
  qed
  then have "length (map fst (running sys)) \<le> 1" by (auto simp: flight_inv_def split: option.splits)
  then have "length (running sys) \<le> 1" by (simp only: length_map)
  with \<open>flight_inv sys\<close> show ?thesis by (simp add: flight_inv_def)
qed

definition example_env :: SchedulerEnv where
  "example_env = \<lparr>accepts = (\<lambda>_. True), readable = True, show_json = (\<lambda>_. [])\<rparr>"

definition example_trigger :: "OverlapPolicy \<Rightarrow> TriggerDefinition" where
  "example_trigger overlap = \<lparr>trigger_name = ''t'',
     trigger_source = TriggerSource.Schedule ''* * * * *'', trigger_directive = ''d'',
     trigger_policy_ceiling = PolicyMode.ReadOnly, trigger_budgets = BudgetLimits_default,
     trigger_provider = ''p'', trigger_model = ''m'', trigger_route = None, trigger_role = None,
     trigger_notify = None, trigger_overlap = overlap, trigger_max_failures = 1\<rparr>"

lemma example_occurs:
  assumes "trigger_reachable example_env ctl d sys"
    and "disabled_reason (control_fold (history sys) (trigger_name d)) = None"
    and "child \<notin> fst ` set (running sys)"
  shows "trigger_reachable example_env ctl d (handle_occurrence example_env ctl d child None sys)"
proof -
  have "trigger_step example_env ctl d sys
      (snd (tick example_env ctl d child (Occurrence None) sys))"
    using assms(2,3) by (intro trigger_step.occurs) (simp_all add: trigger_is_disabled_def example_env_def)
  then show ?thesis using assms(1) trigger_reachable.step by (simp add: tick_def)
qed

theorem one_firing_at_a_time_witness:
  "length (running (handle_occurrence example_env (SessionId 0) (example_trigger OverlapPolicy.Skip)
     (SessionId 1) None (system_init []))) \<le> 1"
proof -
  have "trigger_reachable example_env (SessionId 0) (example_trigger OverlapPolicy.Skip)
     (handle_occurrence example_env (SessionId 0) (example_trigger OverlapPolicy.Skip)
     (SessionId 1) None (system_init []))"
    by (rule example_occurs [OF trigger_reachable.init])
      (simp_all add: system_init_def control_fold_def TriggerRuntimeState_default_def)
  then show ?thesis
    using one_firing_at_a_time by (auto simp: example_trigger_def)
qed

text \<open>
  a trigger that keeps failing is disabled. With a store that records and can be read, in
  every reachable state in which the trigger is not disabled, the failures in a row since the
  last success or re-arm are fewer than its limit.
\<close>

theorem failing_trigger_disabled:
  assumes "trigger_reachable env ctl d sys"
    and "accepts env = (\<lambda>_. True)" and "readable env" and "0 < trigger_max_failures d"
    and "trigger_is_disabled env d sys = Some False"
  shows "consecutive_failed (control_fold (history sys) (trigger_name d)) < trigger_max_failures d"
proof -
  from assms(1) have "failure_inv d sys"
  proof induction
    case init
    show ?case using assms(4)
      by (simp add: failure_inv_def system_init_def control_fold_def TriggerRuntimeState_default_def)
  next
    case (step sys sys')
    with trigger_step_failure_inv [OF assms(2,3,4)] show ?case by blast
  qed
  then show ?thesis using assms(5)
    by (auto simp: failure_inv_def Let_def trigger_is_disabled_def split: if_splits)
qed

theorem failing_trigger_disabled_witness:
  "consecutive_failed (control_fold (history (handle_occurrence example_env (SessionId 0)
     (example_trigger OverlapPolicy.Skip) (SessionId 1) None (system_init []))) ''t'') < 1"
proof -
  let ?d = "example_trigger OverlapPolicy.Skip"
  let ?sys = "handle_occurrence example_env (SessionId 0) ?d (SessionId 1) None (system_init [])"
  have r: "trigger_reachable example_env (SessionId 0) ?d ?sys"
    by (rule example_occurs [OF trigger_reachable.init])
      (simp_all add: system_init_def control_fold_def TriggerRuntimeState_default_def)
  have "trigger_is_disabled example_env ?d ?sys = Some False"
    by (simp add: trigger_is_disabled_def example_env_def example_trigger_def handle_occurrence_def
        system_init_def overlap_decide_def start_firing_def append_event_def Let_def
        control_fold_def control_step_def TriggerRuntimeState_default_def)
  from failing_trigger_disabled [OF r _ _ _ this] show ?thesis
    by (simp add: example_env_def example_trigger_def)
qed

section \<open>What the loop does not promise\<close>

text \<open>
  Under replacement the settlement of the firing that was replaced clears the token of the
  firing that replaced it: the next occurrence then starts beside it instead of replacing it,
  and two firings that nobody cancelled are under way.
\<close>

lemma replace_forgets_firing:
  "\<exists>sys. trigger_reachable example_env (SessionId 0) (example_trigger OverlapPolicy.Replace) sys
     \<and> length (filter (\<lambda>(c, _). c \<notin> set (cancelled sys)) (running sys)) = 2"
proof -
  let ?d = "example_trigger OverlapPolicy.Replace"
  let ?h = "\<lambda>child sys. handle_occurrence example_env (SessionId 0) ?d (SessionId child) None sys"
  let ?s1 = "?h 1 (system_init [])" and ?s2 = "?h 2 (?h 1 (system_init []))"
  let ?r = "\<lparr>settled_child = SessionId 1, settled_outcome = TriggerOutcome.Refused,
    settled_reason = Some ReasonCode.Cancelled\<rparr>"
  let ?s3 = "snd (tick example_env (SessionId 0) ?d (SessionId 9) (Settles ?r)
      (?s2\<lparr>running := filter (\<lambda>(k, _). k \<noteq> SessionId 1) (running ?s2)\<rparr>))"
  note ev = example_env_def example_trigger_def handle_occurrence_def system_init_def
    overlap_decide_def start_firing_def append_event_def Let_def control_fold_def
    control_step_def TriggerRuntimeState_default_def tick_def record_settlement_def
    counts_as_failure_def directive_for_def trigger_is_disabled_def
  have r1: "trigger_reachable example_env (SessionId 0) ?d ?s1"
    by (rule example_occurs [OF trigger_reachable.init]) (simp_all add: ev)
  have r2: "trigger_reachable example_env (SessionId 0) ?d ?s2"
    by (rule example_occurs [OF r1]) (simp_all add: ev)
  have "trigger_step example_env (SessionId 0) ?d ?s2 ?s3"
    by (rule trigger_step.settles) (simp_all add: ev)
  then have r3: "trigger_reachable example_env (SessionId 0) ?d ?s3"
    by (rule trigger_reachable.step [OF r2])
  have r4: "trigger_reachable example_env (SessionId 0) ?d (?h 3 ?s3)"
    by (rule example_occurs [OF r3]) (simp_all add: ev)
  show ?thesis by (rule exI, rule conjI, rule r4) (simp add: ev)
qed

text \<open>
  The settlement that disables a trigger still starts the occurrence that was held back.
\<close>

lemma disabled_trigger_fires_queued:
  "\<exists>sys. trigger_reachable example_env (SessionId 0) (example_trigger OverlapPolicy.Queue) sys
     \<and> trigger_is_disabled example_env (example_trigger OverlapPolicy.Queue) sys = Some True
     \<and> last (history sys) = MjolnrEvent.TriggerFired (SessionId 0) ''t'' (SessionId 9) TriggerSourceKind.Schedule
     \<and> map fst (running sys) = [SessionId 9]"
proof -
  let ?d = "example_trigger OverlapPolicy.Queue"
  let ?h = "\<lambda>child sys. handle_occurrence example_env (SessionId 0) ?d (SessionId child) None sys"
  let ?s1 = "?h 1 (system_init [])" and ?s2 = "?h 2 (?h 1 (system_init []))"
  let ?r = "\<lparr>settled_child = SessionId 1, settled_outcome = TriggerOutcome.Failed,
    settled_reason = None\<rparr>"
  let ?s3 = "snd (tick example_env (SessionId 0) ?d (SessionId 9) (Settles ?r)
      (?s2\<lparr>running := filter (\<lambda>(k, _). k \<noteq> SessionId 1) (running ?s2)\<rparr>))"
  note ev = example_env_def example_trigger_def handle_occurrence_def system_init_def
    overlap_decide_def start_firing_def append_event_def Let_def control_fold_def
    control_step_def TriggerRuntimeState_default_def tick_def record_settlement_def
    counts_as_failure_def directive_for_def trigger_is_disabled_def sat_add_def
    TriggerSource_kind_def
  have r1: "trigger_reachable example_env (SessionId 0) ?d ?s1"
    by (rule example_occurs [OF trigger_reachable.init]) (simp_all add: ev)
  have r2: "trigger_reachable example_env (SessionId 0) ?d ?s2"
    by (rule example_occurs [OF r1]) (simp_all add: ev)
  have "trigger_step example_env (SessionId 0) ?d ?s2 ?s3"
    by (rule trigger_step.settles) (simp_all add: ev)
  then have r3: "trigger_reachable example_env (SessionId 0) ?d ?s3"
    by (rule trigger_reachable.step [OF r2])
  show ?thesis by (rule exI, rule conjI, rule r3) (simp add: ev)
qed

text \<open>
  The wait of a schedule that no minute matches ends like that of one that is due: with an
  occurrence, every hour.
\<close>

lemma unmatched_schedule_occurs:
  "cron_parse cron = Inr s \<Longrightarrow> next_after civil s now = None \<Longrightarrow>
     wait_for_occurrence civil (TriggerSource.Schedule cron) r now now' received = (Sleep 3600, None)"
  by (simp add: wait_for_occurrence_def RECHECK_IDLE_def)

lemma closed_webhook_occurs:
  "wait_for_occurrence civil (TriggerSource.Webhook port path) True now now' None = (Message, None)"
  by (simp add: wait_for_occurrence_def)

end
