(* ===== verification/Review_Threads.thy ===== *)
theory Review_Threads
  imports Event
begin

text \<open>
  The one reducer of review events (\<^verbatim>\<open>runtime/review.rs\<close>): threads open at their first note,
  gain comments, are sent and are answered. A UUID is printed by the function \<^verbatim>\<open>show_uuid\<close>.
\<close>

type_synonym ReviewThreads = "(ReviewThreadId, ReviewThread) btree_map"

definition review_apply :: "(uuid \<Rightarrow> string) \<Rightarrow> MjolnrEvent \<Rightarrow> ReviewThreads \<Rightarrow> ReviewThreads" where
  "review_apply show_uuid e threads = (case e of
      MjolnrEvent.ReviewNoteRecorded _ thread anchor comment \<Rightarrow>
        bt_or_insert thread (thread_open thread anchor comment) threads
    | MjolnrEvent.ReviewCommentAdded _ thread comment \<Rightarrow>
        bt_modify thread (\<lambda>t. t\<lparr>thread_comments := thread_comments t @ [comment]\<rparr>) threads
    | MjolnrEvent.ReviewRequestSent _ sent _ \<Rightarrow>
        fold (\<lambda>i. bt_modify i (\<lambda>t. t\<lparr>thread_status := ReviewThreadStatus.Sent\<rparr>)) sent threads
    | MjolnrEvent.ReviewRequestAnswered _ answered response \<Rightarrow>
        fold (\<lambda>i. bt_modify i (\<lambda>t. t\<lparr>thread_response_message_id := Some (show_uuid response)\<rparr>))
          answered threads
    | _ \<Rightarrow> threads)"

definition review_run :: "(uuid \<Rightarrow> string) \<Rightarrow> MjolnrEvent list \<Rightarrow> ReviewThreads \<Rightarrow> ReviewThreads" where
  "review_run show_uuid es threads = fold (review_apply show_uuid) es threads"

lemma bt_get_fold_modify:
  "bt_get (fold (\<lambda>i. bt_modify i f) is m) k =
     (if k \<in> set is then map_option (f ^^ count_list is k) (bt_get m k) else bt_get m k)"
proof (induction "is" arbitrary: m)
  case (Cons i "is")
  then show ?case
    by (cases "bt_get m k") (auto simp: funpow_swap1 count_notin)
qed simp

text \<open>What may happen to a thread: its anchor and id stay, comments are only added.\<close>

definition thread_grown :: "ReviewThread \<Rightarrow> ReviewThread \<Rightarrow> bool" where
  "thread_grown t t' \<longleftrightarrow> thread_id t' = thread_id t \<and> thread_anchor t' = thread_anchor t
     \<and> (\<exists>cs. thread_comments t' = thread_comments t @ cs)
     \<and> (thread_status t = ReviewThreadStatus.Sent \<longrightarrow> thread_status t' = ReviewThreadStatus.Sent)
     \<and> (thread_response_message_id t \<noteq> None \<longrightarrow> thread_response_message_id t' \<noteq> None)"

definition threads_grown :: "ReviewThreads \<Rightarrow> ReviewThreads \<Rightarrow> bool" where
  "threads_grown m m' \<longleftrightarrow> (\<forall>i t. bt_get m i = Some t \<longrightarrow> (\<exists>t'. bt_get m' i = Some t' \<and> thread_grown t t'))"

lemma thread_grown_refl [simp]: "thread_grown t t"
  by (simp add: thread_grown_def)

lemma thread_grown_trans: "thread_grown a b \<Longrightarrow> thread_grown b c \<Longrightarrow> thread_grown a c"
  by (auto simp: thread_grown_def)

lemma threads_grown_refl [simp]: "threads_grown m m"
  by (simp add: threads_grown_def)

lemma threads_grown_trans: "threads_grown a b \<Longrightarrow> threads_grown b c \<Longrightarrow> threads_grown a c"
  unfolding threads_grown_def by (meson thread_grown_trans)

lemma threads_grown_modify: "(\<And>t. thread_grown t (f t)) \<Longrightarrow> threads_grown m (bt_modify i f m)"
  by (auto simp: threads_grown_def)

lemma threads_grown_fold_modify:
  "(\<And>t. thread_grown t (f t)) \<Longrightarrow> threads_grown m (fold (\<lambda>i. bt_modify i f) is m)"
proof (induction "is" arbitrary: m)
  case (Cons i "is")
  have "threads_grown m (bt_modify i f m)" by (rule threads_grown_modify) (rule Cons.prems)
  then show ?case using Cons.IH [OF Cons.prems] by (auto intro: threads_grown_trans)
qed simp

lemma review_apply_grown: "threads_grown m (review_apply show_uuid e m)"
proof (cases e)
  case (ReviewNoteRecorded s thread anchor comment)
  then show ?thesis
    by (auto simp: review_apply_def threads_grown_def bt_contains_def)
qed (auto simp: review_apply_def intro!: threads_grown_modify threads_grown_fold_modify,
     auto simp: thread_grown_def)

interpretation review: growing_fold
  "\<lambda>e m. (Inr (review_apply show_uuid e m) :: (ReviewThreads, unit) result)" threads_grown
  by unfold_locales (auto simp: review_apply_grown intro: threads_grown_trans)

lemma review_run_replay:
  "replay (\<lambda>e m. (Inr (review_apply show_uuid e m) :: (ReviewThreads, unit) result)) es m
     = Inr (review_run show_uuid es m)"
  by (induction es arbitrary: m) (auto simp: review_run_def)

section \<open>Properties\<close>

text \<open>
  What was said in a review stays said. However events follow each other, a thread that
  exists keeps its id and its anchor (it never moves to another line), its comments are only
  added to at the end, once sent it stays sent and once answered it stays answered.
\<close>

theorem review_threads_only_grow:
  "case bt_get (review_run show_uuid es []) i of
     None \<Rightarrow> True
   | Some t \<Rightarrow> (case bt_get (review_run show_uuid (es @ later) []) i of
       None \<Rightarrow> False
     | Some t' \<Rightarrow> thread_id t' = thread_id t \<and> thread_anchor t' = thread_anchor t
         \<and> take (length (thread_comments t)) (thread_comments t') = thread_comments t
         \<and> (thread_status t' = ReviewThreadStatus.Sent \<or> thread_status t = thread_status t'))"
proof -
  have run: "review_run show_uuid (es @ later) [] = review_run show_uuid later (review_run show_uuid es [])"
    by (simp add: review_run_def)
  have grown: "threads_grown m (review_run show_uuid later m)" for m
    using review.replay_grown [OF review_run_replay] .
  show ?thesis
  proof (cases "bt_get (review_run show_uuid es []) i")
    case (Some t)
    with grown [of "review_run show_uuid es []"] obtain t'
      where "bt_get (review_run show_uuid later (review_run show_uuid es [])) i = Some t'"
        and "thread_grown t t'" by (auto simp: threads_grown_def)
    with Some run show ?thesis
      by (cases "thread_status t"; cases "thread_status t'") (auto simp: thread_grown_def)
  qed simp
qed

end
