(* ===== verification/Session.thy ===== *)
theory Session
  imports Event Plan_Safety Review_Threads Envelope
begin

text \<open>
  The durable records of a session and their reduction from events
  (\<^verbatim>\<open>runtime/session.rs\<close>): the plan workflow, the council review, decision tickets, imported
  items and acts, and the transcript. An event is validated against copies of the records
  before it is appended and reduced into them after; a resume replays the branch.
\<close>

section \<open>State\<close>

text \<open>
  The session state: the records events are reduced into, the transcript and its compacted
  context, and what the runtime keeps of the session beside them. Left out are the fields
  that only carry something to a client (the session tree and list, the reports of a reload
  or an extension load, the repository, change and memory projections and the rules of the
  workspace).
\<close>

record CompactContext =
  compact_seed_messages :: "CanonicalMessage list"
  history_floor :: nat

record SessionState =
  st_plan :: "PlanWorkflow option"
  st_council :: "CouncilReview option"
  st_amendment :: "CouncilAmendment option"
  st_tickets :: "(DecisionTicketId, DecisionTicketRecord) btree_map"
  st_items :: "(ImportedItemId, ImportedItem) btree_map"
  st_acts :: "(ImportedActId, ImportedAct) btree_map"
  st_handoff :: "HandoffCheckpoint option"
  st_messages :: "TranscriptEntry list"
  st_compact :: "CompactContext option"
  st_session :: "SessionId option"
  st_provider :: "ProviderId option"
  st_model :: "ModelId option"
  st_workspace_root :: "string option"
  st_usage :: Usage
  st_policy :: PolicyMode
  st_pending_approval :: "PendingApproval option"
  st_budget :: BudgetStatus
  st_read_set :: ReadSet
  st_exact_commands :: "CommandSpec set"
  st_envelope :: "ActiveEnvelope option"
  st_envelope_refusal :: "string option"
  st_last_mutation_sequence :: "u64 option"
  st_successful_command_evidence :: "(string, u64) btree_map"
  st_activated_skills :: "string btree_set"
  st_branch_parent :: "u64 option option"
  st_steering :: "string list"
  st_workspace_trusted :: bool
  st_quota_reserve :: QuotaReserveStatus
  st_quota :: "QuotaSnapshot option"
  st_resume_advice :: "ResumeAdvice option"
  st_route :: "RouteRuntime option"
  st_persona_override :: "string option"
  st_breakers :: "ProviderId \<rightharpoonup> CircuitBreaker"
  st_read_evidence :: "(string, ReadRecord) btree_map"
  st_review_threads :: ReviewThreads
  st_store_failure :: "string option"

definition SessionState_default :: SessionState where
  "SessionState_default = \<lparr>st_plan = None, st_council = None, st_amendment = None, st_tickets = [],
     st_items = [], st_acts = [], st_handoff = None, st_messages = [], st_compact = None,
     st_session = None, st_provider = None, st_model = None, st_workspace_root = None,
     st_usage = Usage_default, st_policy = PolicyMode_default, st_pending_approval = None,
     st_budget = BudgetStatus_default, st_read_set = ReadSet_default, st_exact_commands = {},
     st_envelope = None, st_envelope_refusal = None, st_last_mutation_sequence = None,
     st_successful_command_evidence = [], st_activated_skills = [], st_branch_parent = None,
     st_steering = [], st_workspace_trusted = False, st_quota_reserve = QuotaReserveStatus_default,
     st_quota = None, st_resume_advice = None, st_route = None, st_persona_override = None,
     st_breakers = Map.empty, st_read_evidence = [], st_review_threads = [],
     st_store_failure = None\<rparr>"

definition reset_keeping_project :: "SessionState \<Rightarrow> SessionState" where
  "reset_keeping_project st = SessionState_default\<lparr>st_workspace_root := st_workspace_root st\<rparr>"

text \<open>The refusals of a reduction, one constructor per sentence, with what it prints.\<close>

datatype SessionRefusal =
    CommentTooLong
  | CommentControlCharacter
  | TicketAlreadyRecorded DecisionTicketId
  | UnknownBlocker DecisionTicketId DecisionTicketId
  | ResolutionWithoutTicket DecisionResolutionId DecisionTicketId
  | ResolutionRefused ResolutionRefusal
  | ItemAlreadyRecorded ImportedItemId
  | RefreshOfUnknownItem ImportedItemId
  | RefreshRefused RefreshRefusal
  | ActAgainstUnknownItem ImportedActId ImportedItemId
  | ActAlreadyRecorded ImportedActId
  | DispositionWithoutReview
  | DispositionRefused string

type_synonym session_error = "SessionRefusal MjolnrError"

abbreviation schema_invalid :: "SessionRefusal \<Rightarrow> session_error" where
  "schema_invalid d \<equiv> MjolnrError.WorkspaceRefused ReasonCode.SchemaInvalid d"

section \<open>Reducers\<close>

definition MAX_REMOTE_BODY_BYTES :: nat where
  "MAX_REMOTE_BODY_BYTES = 32 * 1024"

definition comment_char_ok :: "string \<Rightarrow> bool" where
  "comment_char_ok ch \<longleftrightarrow> \<not> is_control ch \<or> ch \<in> {[CHR 0x0A], [CHR 0x0D], [CHR 0x09]}"

definition validate_imported_comment :: "MjolnrEvent \<Rightarrow> (unit, session_error) result" where
  "validate_imported_comment e = (case e of
      MjolnrEvent.ImportedCommentRecorded _ _ _ body \<Rightarrow>
        if length body > MAX_REMOTE_BODY_BYTES then Inl (schema_invalid CommentTooLong)
        else if \<exists>ch \<in> set (str_chars body). \<not> comment_char_ok ch
        then Inl (schema_invalid CommentControlCharacter)
        else Inr ()
    | _ \<Rightarrow> Inr ())"

definition existing_plan ::
  "string \<Rightarrow> string \<Rightarrow> PlanWorkflow option \<Rightarrow> (PlanWorkflow, session_error) result" where
  "existing_plan action detail plan =
     ok_or (MjolnrError.PlanInvalidTransition ''no workflow'' action detail) plan"

definition plan_or_new :: "PlanId \<Rightarrow> PlanWorkflow option \<Rightarrow> PlanWorkflow" where
  "plan_or_new pid plan = (case plan of Some w \<Rightarrow> w | None \<Rightarrow> plan_new pid)"

text \<open>
  \<^verbatim>\<open>apply_plan_event\<close> mutates its workflow in place; a refused event may leave a fresh workflow
  behind, which is why every caller validates on a copy first. The model gives the workflow
  after an accepted event.
\<close>

definition apply_plan_event ::
  "MjolnrEvent \<Rightarrow> PlanWorkflow option \<Rightarrow> (PlanWorkflow option, session_error) result" where
  "apply_plan_event e plan = (case e of
      MjolnrEvent.PlanInterviewStarted _ pid goal \<Rightarrow>
        (let w = plan_or_new pid plan in
         if plan_id w \<noteq> pid
         then Inl (MjolnrError.PlanInvalidTransition ''plan mismatch'' ''start interview''
           ''interview plan_id does not match workflow plan_id'')
         else map_ok Some (start_interview goal w))
    | MjolnrEvent.PlanQuestionAsked _ pid question \<Rightarrow>
        map_ok Some (ask_question question (plan_or_new pid plan))
    | MjolnrEvent.PlanQuestionAnswered _ pid answer \<Rightarrow>
        and_then (existing_plan ''answer question''
          ''cannot answer a question before its plan workflow exists'' plan) (\<lambda>w.
        if plan_id w \<noteq> pid
        then Inl (MjolnrError.PlanInvalidTransition ''plan mismatch'' ''answer question''
          ''answer plan_id does not match workflow plan_id'')
        else map_ok Some (answer_question answer w))
    | MjolnrEvent.PlanPrdProposed _ d \<Rightarrow>
        and_then (existing_plan ''record PRD''
          ''cannot record a PRD before its interview workflow exists'' plan) (\<lambda>w.
        map_ok Some (record_prd d w))
    | MjolnrEvent.PlanProposed _ proposal \<Rightarrow>
        map_ok Some (propose_plan proposal (plan_or_new (proposal_plan_id proposal) plan))
    | MjolnrEvent.PlanReviewed _ review \<Rightarrow>
        and_then (existing_plan ''review plan''
          ''cannot review a plan before its workflow exists'' plan) (\<lambda>w.
        map_ok Some (review_plan review w))
    | MjolnrEvent.PlanApproved _ approval \<Rightarrow>
        and_then (existing_plan ''approve plan''
          ''cannot approve a plan before its workflow exists'' plan) (\<lambda>w.
        map_ok Some (approve_plan approval w))
    | MjolnrEvent.PlanHandoffCreated _ handoff \<Rightarrow>
        and_then (existing_plan ''handoff plan''
          ''cannot hand off a plan before its workflow exists'' plan) (\<lambda>w.
        map_ok Some (handoff_plan handoff w))
    | MjolnrEvent.CouncilReviewed _ review \<Rightarrow>
        (case (council_plan_id review, council_prd_id review) of
           (Some pid, Some prd_ref) \<Rightarrow>
             and_then (existing_plan ''link council review''
               ''cannot link a council review before its plan workflow exists'' plan) (\<lambda>w.
             map_ok Some (link_council_review \<lparr>link_plan_id = pid, link_prd_id = prd_ref,
               link_review_id = council_id review\<rparr> w))
         | _ \<Rightarrow> Inr plan)
    | _ \<Rightarrow> Inr plan)"

definition apply_council_event ::
  "MjolnrEvent \<Rightarrow> CouncilReview option \<Rightarrow> (CouncilReview option, session_error) result" where
  "apply_council_event e council = (case e of
      MjolnrEvent.CouncilReviewed _ review \<Rightarrow> Inr (Some review)
    | MjolnrEvent.CouncilFindingDispositionRecorded _ d \<Rightarrow>
        and_then (ok_or (schema_invalid DispositionWithoutReview) council) (\<lambda>review.
        map_ok Some (map_err (\<lambda>detail. schema_invalid (DispositionRefused detail))
          (apply_disposition d review)))
    | _ \<Rightarrow> Inr council)"

type_synonym Tickets = "(DecisionTicketId, DecisionTicketRecord) btree_map"
type_synonym Items = "(ImportedItemId, ImportedItem) btree_map"
type_synonym Acts = "(ImportedActId, ImportedAct) btree_map"

definition apply_board_event :: "MjolnrEvent \<Rightarrow> Tickets \<Rightarrow> (Tickets, session_error) result" where
  "apply_board_event e tickets = (case e of
      MjolnrEvent.DecisionTicketOpened _ t \<Rightarrow>
        if bt_contains tickets (ticket_id t)
        then Inl (schema_invalid (TicketAlreadyRecorded (ticket_id t)))
        else (case find (\<lambda>blocker. \<not> bt_contains tickets blocker) (ticket_blocked_by t) of
            Some blocker \<Rightarrow> Inl (schema_invalid (UnknownBlocker (ticket_id t) blocker))
          | None \<Rightarrow> Inr (bt_insert (ticket_id t) \<lparr>ticket = t, resolution = None\<rparr> tickets))
    | MjolnrEvent.DecisionTicketResolved _ r \<Rightarrow>
        and_then (ok_or (schema_invalid
            (ResolutionWithoutTicket (resolution_id r) (resolution_ticket r)))
          (bt_get tickets (resolution_ticket r))) (\<lambda>rec.
        map_ok (\<lambda>rec'. bt_modify (resolution_ticket r) (\<lambda>_. rec') tickets)
          (map_err (\<lambda>detail. schema_invalid (ResolutionRefused detail)) (apply_resolution r rec)))
    | _ \<Rightarrow> Inr tickets)"

definition refresh_code :: "RefreshRefusal \<Rightarrow> ReasonCode" where
  "refresh_code r = (case r of
      StaleRevision _ _ \<Rightarrow> ReasonCode.WorkspaceStaleRevision
    | UnknownItem _ _ \<Rightarrow> ReasonCode.SchemaInvalid
    | SameRevision _ \<Rightarrow> ReasonCode.SchemaInvalid
    | IdentityMoved \<Rightarrow> ReasonCode.SchemaInvalid)"

definition apply_imported_event :: "MjolnrEvent \<Rightarrow> Items \<Rightarrow> (Items, session_error) result" where
  "apply_imported_event e items = (case e of
      MjolnrEvent.ImportedItemFetched _ item \<Rightarrow>
        if bt_contains items (item_id item)
        then Inl (schema_invalid (ItemAlreadyRecorded (item_id item)))
        else Inr (bt_insert (item_id item) item items)
    | MjolnrEvent.ImportedItemRefreshed _ expected_revision item \<Rightarrow>
        and_then (ok_or (schema_invalid (RefreshOfUnknownItem (item_id item)))
          (bt_get items (item_id item))) (\<lambda>current.
        map_ok (\<lambda>item'. bt_insert (item_id item) item' items)
          (map_err (\<lambda>refusal. MjolnrError.WorkspaceRefused (refresh_code refusal)
             (RefreshRefused refusal))
            (apply_refresh expected_revision item current)))
    | _ \<Rightarrow> Inr items)"

definition apply_imported_act_event ::
  "Items \<Rightarrow> MjolnrEvent \<Rightarrow> Acts \<Rightarrow> (Acts, session_error) result" where
  "apply_imported_act_event items e acts = (case e of
      MjolnrEvent.ImportedActRecorded _ act \<Rightarrow>
        if \<not> bt_contains items (act_item_id act)
        then Inl (schema_invalid (ActAgainstUnknownItem (act_id act) (act_item_id act)))
        else if bt_contains acts (act_id act)
        then Inl (schema_invalid (ActAlreadyRecorded (act_id act)))
        else Inr (bt_insert (act_id act) act acts)
    | _ \<Rightarrow> Inr acts)"

definition validate_event :: "MjolnrEvent \<Rightarrow> SessionState \<Rightarrow> (unit, session_error) result" where
  "validate_event e st =
     and_then (validate_imported_comment e) (\<lambda>_.
     and_then (apply_plan_event e (st_plan st)) (\<lambda>_.
     and_then (apply_council_event e (st_council st)) (\<lambda>_.
     and_then (apply_board_event e (st_tickets st)) (\<lambda>_.
     and_then (apply_imported_event e (st_items st)) (\<lambda>items.
     map_ok (\<lambda>_. ()) (apply_imported_act_event items e (st_acts st)))))))"

definition apply_event :: "MjolnrEvent \<Rightarrow> SessionState \<Rightarrow> (SessionState, session_error) result" where
  "apply_event e st =
     and_then (validate_imported_comment e) (\<lambda>_.
     and_then (apply_plan_event e (st_plan st)) (\<lambda>plan.
     (let amendment = (case e of
          MjolnrEvent.CouncilAmendmentProposed _ a \<Rightarrow> Some a | _ \<Rightarrow> st_amendment st) in
     and_then (apply_council_event e (st_council st)) (\<lambda>council.
     and_then (apply_board_event e (st_tickets st)) (\<lambda>tickets.
     and_then (apply_imported_event e (st_items st)) (\<lambda>items.
     map_ok (\<lambda>acts. st\<lparr>st_plan := plan, st_council := council, st_amendment := amendment,
         st_tickets := tickets, st_items := items, st_acts := acts\<rparr>)
       (apply_imported_act_event items e (st_acts st))))))))"

section \<open>Replay\<close>

text \<open>A replay that is refused names the record, the sequence and the refusal.\<close>

datatype ReplayStage = Workflow | CouncilStage | TicketStage | ItemStage | ActStage

datatype ReplayRefusal = Decode ReplayStage u64 session_error

definition rebuild_messages_step ::
  "StoredEvent \<Rightarrow> PlanWorkflow option \<times> CouncilReview option \<times> TranscriptEntry list
     \<Rightarrow> (PlanWorkflow option \<times> CouncilReview option \<times> TranscriptEntry list, ReplayRefusal) result"
where
  "rebuild_messages_step stored = (\<lambda>(plan, council, messages).
     let e = stored_event stored in
     and_then (map_err (Decode Workflow (stored_sequence stored)) (apply_plan_event e plan)) (\<lambda>plan.
     map_ok (\<lambda>council. (plan, council, case e of
         MjolnrEvent.MessageAppended _ message \<Rightarrow>
           messages @ [anchored (stored_sequence stored) message]
       | _ \<Rightarrow> messages))
       (map_err (Decode CouncilStage (stored_sequence stored)) (apply_council_event e council))))"

definition rebuild_messages_from ::
  "StoredEvent list \<Rightarrow> SessionState \<Rightarrow> (SessionState, ReplayRefusal) result" where
  "rebuild_messages_from events st =
     map_ok (\<lambda>(plan, council, messages).
         st\<lparr>st_plan := plan, st_council := council, st_messages := messages\<rparr>)
       (replay rebuild_messages_step events (None, None, []))"

type_synonym durable_records =
  "PlanWorkflow option \<times> CouncilReview option \<times> Tickets \<times> Items \<times> Acts"

definition rebuild_records_step ::
  "StoredEvent \<Rightarrow> durable_records \<Rightarrow> (durable_records, ReplayRefusal) result" where
  "rebuild_records_step stored = (\<lambda>(plan, council, tickets, items, acts).
     let e = stored_event stored in
     and_then (map_err (Decode Workflow (stored_sequence stored)) (apply_plan_event e plan)) (\<lambda>plan.
     and_then (map_err (Decode CouncilStage (stored_sequence stored)) (apply_council_event e council)) (\<lambda>council.
     and_then (map_err (Decode TicketStage (stored_sequence stored)) (apply_board_event e tickets)) (\<lambda>tickets.
     and_then (map_err (Decode ItemStage (stored_sequence stored)) (apply_imported_event e items)) (\<lambda>items.
     map_ok (\<lambda>acts. (plan, council, tickets, items, acts))
       (map_err (Decode ActStage (stored_sequence stored)) (apply_imported_act_event items e acts)))))))"

definition rebuild_durable_records_from ::
  "StoredEvent list \<Rightarrow> SessionState \<Rightarrow> (SessionState, ReplayRefusal) result" where
  "rebuild_durable_records_from events st =
     map_ok (\<lambda>(plan, council, tickets, items, acts).
         st\<lparr>st_plan := plan, st_council := council, st_tickets := tickets, st_items := items,
            st_acts := acts\<rparr>)
       (replay rebuild_records_step events (None, None, [], [], []))"

section \<open>The transcript\<close>

definition push_message :: "u64 option \<Rightarrow> CanonicalMessage \<Rightarrow> SessionState \<Rightarrow> SessionState" where
  "push_message s message st =
     st\<lparr>st_messages := st_messages st @ [\<lparr>entry_sequence = s, entry_message = message\<rparr>]\<rparr>"

definition plain_messages :: "SessionState \<Rightarrow> CanonicalMessage list" where
  "plain_messages st = map entry_message (st_messages st)"

definition provider_messages :: "SessionState \<Rightarrow> CanonicalMessage list" where
  "provider_messages st = (case st_compact st of
      None \<Rightarrow> plain_messages st
    | Some c \<Rightarrow> compact_seed_messages c @ map entry_message (drop (history_floor c) (st_messages st)))"

text \<open>The index of the user message that starts the last turns asked for, from the end.\<close>

fun turn_floor :: "nat \<Rightarrow> nat \<Rightarrow> TranscriptEntry list \<Rightarrow> nat" where
  "turn_floor wanted seen [] = 0"
| "turn_floor wanted seen (m # earlier) =
     (if role (entry_message m) = Role.User
      then if Suc seen = wanted then length earlier else turn_floor wanted (Suc seen) earlier
      else turn_floor wanted seen earlier)"

definition recent_turn_floor :: "TranscriptEntry list \<Rightarrow> nat \<Rightarrow> nat" where
  "recent_turn_floor messages recent_turns =
     (if recent_turns = 0 then length messages else turn_floor recent_turns 0 (rev messages))"

text \<open>The system message of the seed has a fresh id and the time of its making.\<close>

definition enable_compact_context ::
  "(uuid \<Rightarrow> string) \<Rightarrow> (instant \<Rightarrow> string) \<Rightarrow> uuid \<Rightarrow> instant \<Rightarrow> nat \<Rightarrow> SessionState \<Rightarrow> bool \<times> SessionState"
where
  "enable_compact_context show_uuid show_instant i now recent_turns st = (case st_handoff st of
      None \<Rightarrow> (False, st)
    | Some handoff \<Rightarrow>
        (let floor = recent_turn_floor (st_messages st) recent_turns;
             seed = message_system i now (compact_seed show_uuid show_instant handoff)
               # map entry_message (drop floor (st_messages st))
         in (True, st\<lparr>st_compact := Some \<lparr>compact_seed_messages = seed,
               history_floor = length (st_messages st)\<rparr>\<rparr>)))"

definition disable_compact_context :: "SessionState \<Rightarrow> SessionState" where
  "disable_compact_context st = st\<lparr>st_compact := None\<rparr>"

section \<open>Lemmas on the reducers\<close>

lemma validate_event_eq: "validate_event e st = map_ok (\<lambda>_. ()) (apply_event e st)"
  by (simp add: validate_event_def apply_event_def Let_def and_then_def map_ok_def
      split: sum.splits)

text \<open>The records of a state, as a replay builds them.\<close>

definition records :: "SessionState \<Rightarrow> durable_records" where
  "records st = (st_plan st, st_council st, st_tickets st, st_items st, st_acts st)"

lemma apply_event_Inr:
  "apply_event e st = Inr st' \<longleftrightarrow>
     validate_imported_comment e = Inr () \<and>
     (\<exists>plan council tickets items acts.
        apply_plan_event e (st_plan st) = Inr plan
        \<and> apply_council_event e (st_council st) = Inr council
        \<and> apply_board_event e (st_tickets st) = Inr tickets
        \<and> apply_imported_event e (st_items st) = Inr items
        \<and> apply_imported_act_event items e (st_acts st) = Inr acts
        \<and> st' = st\<lparr>st_plan := plan, st_council := council, st_amendment := (case e of
              MjolnrEvent.CouncilAmendmentProposed _ a \<Rightarrow> Some a | _ \<Rightarrow> st_amendment st),
            st_tickets := tickets, st_items := items, st_acts := acts\<rparr>)"
  by (auto simp: apply_event_def Let_def and_then_Inr map_ok_Inr)

lemma rebuild_records_step_live:
  "apply_event (stored_event s) st = Inr st' \<Longrightarrow>
     rebuild_records_step s (records st) = Inr (records st')"
  by (auto simp: apply_event_Inr rebuild_records_step_def records_def)

abbreviation live :: "StoredEvent list \<Rightarrow> SessionState \<Rightarrow> (SessionState, session_error) result" where
  "live \<equiv> replay (\<lambda>s. apply_event (stored_event s))"

lemma rebuild_records_live:
  "live events st = Inr st' \<Longrightarrow> replay rebuild_records_step events (records st) = Inr (records st')"
proof (induction events arbitrary: st)
  case (Cons s events)
  then obtain u where "apply_event (stored_event s) st = Inr u" "live events u = Inr st'"
    by (auto simp: and_then_Inr)
  with Cons.IH rebuild_records_step_live show ?case by simp
qed simp

lemma rebuild_messages_step_live:
  "apply_event (stored_event s) st = Inr st' \<Longrightarrow>
     \<exists>ms'. rebuild_messages_step s (st_plan st, st_council st, ms) = Inr (st_plan st', st_council st', ms')"
  by (auto simp: apply_event_Inr rebuild_messages_step_def)

lemma rebuild_messages_live:
  "live events st = Inr st' \<Longrightarrow>
     \<exists>ms'. replay rebuild_messages_step events (st_plan st, st_council st, ms)
        = Inr (st_plan st', st_council st', ms')"
proof (induction events arbitrary: st ms)
  case (Cons s events)
  then obtain u where u: "apply_event (stored_event s) st = Inr u" "live events u = Inr st'"
    by (auto simp: and_then_Inr)
  from rebuild_messages_step_live [OF u(1)] obtain ms1 where
    "rebuild_messages_step s (st_plan st, st_council st, ms) = Inr (st_plan u, st_council u, ms1)"
    by blast
  with Cons.IH [OF u(2), of ms1] show ?case by simp
qed simp

section \<open>Invariants of the records\<close>

definition plan_opt_inv :: "PlanWorkflow option \<Rightarrow> bool" where
  "plan_opt_inv p \<longleftrightarrow> (case p of None \<Rightarrow> True | Some w \<Rightarrow> plan_inv w)"

lemma plan_or_new_simps [simp]:
  "plan_or_new pid None = plan_new pid"
  "plan_or_new pid (Some w) = w"
  by (simp_all add: plan_or_new_def)

lemma existing_plan_Inr [simp]: "existing_plan a d p = Inr w \<longleftrightarrow> p = Some w"
  by (cases p) (simp_all add: existing_plan_def)

lemma existing_plan_Some [simp]: "existing_plan a d (Some w) = Inr w"
  by (simp add: existing_plan_def)

lemma apply_plan_event_inv:
  "apply_plan_event e p = Inr p' \<Longrightarrow> plan_opt_inv p \<Longrightarrow> plan_opt_inv p'"
  by (cases e) (auto simp: apply_plan_event_def and_then_Inr map_ok_Inr Let_def plan_opt_inv_def
      split: if_splits option.splits dest: plan_op_inv plan_op_inv [OF plan_inv_new])

definition blocks :: "Tickets \<Rightarrow> (DecisionTicketId \<times> DecisionTicketId) set" where
  "blocks tickets = {(i, b). \<exists>rec. bt_get tickets i = Some rec \<and> b \<in> set (ticket_blocked_by (ticket rec))}"

definition tickets_inv :: "Tickets \<Rightarrow> bool" where
  [inv_defs]: "tickets_inv tickets \<longleftrightarrow> bt_wf tickets
     \<and> (\<forall>i rec. bt_get tickets i = Some rec \<longrightarrow> ticket_id (ticket rec) = i \<and> ticket_record_ok rec)
     \<and> (\<forall>(i, b) \<in> blocks tickets. bt_contains tickets b)
     \<and> acyclic (blocks tickets)"

lemma acyclic_new_source:
  assumes "acyclic r" "t \<notin> Range (r \<union> {t} \<times> B)"
  shows "acyclic (r \<union> {t} \<times> B)"
proof -
  let ?r = "r \<union> {t} \<times> B"
  have old: "(x, y) \<in> r\<^sup>+" if "(x, y) \<in> ?r\<^sup>+" "x \<noteq> t" for x y
    using that
  proof (induction rule: trancl_induct)
    case (base y)
    then show ?case by auto
  next
    case (step y z)
    have "y \<in> Range ?r" using step.hyps(1) by (metis trancl_range Range.intros)
    then have "y \<noteq> t" using assms(2) by blast
    with step have "(y, z) \<in> r" "(x, y) \<in> r\<^sup>+" by auto
    then show ?case by (rule trancl.trancl_into_trancl [rotated])
  qed
  have "(x, x) \<notin> ?r\<^sup>+" for x
  proof
    assume c: "(x, x) \<in> ?r\<^sup>+"
    then have "x \<in> Range ?r" by (metis trancl_range Range.intros)
    then have "x \<noteq> t" using assms(2) by blast
    with old [OF c] assms(1) show False by (simp add: acyclic_def)
  qed
  then show ?thesis by (simp add: acyclic_def)
qed

lemma blocks_insert_new:
  "\<not> bt_contains tickets (ticket_id t) \<Longrightarrow>
     blocks (bt_insert (ticket_id t) \<lparr>ticket = t, resolution = None\<rparr> tickets)
       = blocks tickets \<union> {ticket_id t} \<times> set (ticket_blocked_by t)"
  by (auto simp: blocks_def bt_contains_def split: if_splits)

lemma blocks_modify_same:
  "bt_get tickets i = Some rec \<Longrightarrow> ticket rec' = ticket rec \<Longrightarrow>
     blocks (bt_modify i (\<lambda>_. rec') tickets) = blocks tickets"
  by (auto simp: blocks_def split: if_splits)

lemma open_ticket_inv:
  assumes "tickets_inv tickets" "\<not> bt_contains tickets (ticket_id t)"
    and "find (\<lambda>blocker. \<not> bt_contains tickets blocker) (ticket_blocked_by t) = None"
  shows "tickets_inv (bt_insert (ticket_id t) \<lparr>ticket = t, resolution = None\<rparr> tickets)"
proof -
  let ?m = "bt_insert (ticket_id t) \<lparr>ticket = t, resolution = None\<rparr> tickets"
  have b: "\<forall>b \<in> set (ticket_blocked_by t). bt_contains tickets b"
    using assms(3) by (simp add: find_None_all)
  have range: "\<forall>(i, b) \<in> blocks tickets. bt_contains tickets b"
    using assms(1) by (simp add: tickets_inv_def)
  have "acyclic (blocks ?m)"
    unfolding blocks_insert_new [OF assms(2)]
    using assms(1,2) b range by (intro acyclic_new_source) (auto simp: tickets_inv_def)
  moreover have "\<forall>(i, b') \<in> blocks ?m. bt_contains ?m b'"
    unfolding blocks_insert_new [OF assms(2)] using b range by auto
  ultimately show ?thesis
    using assms(1) by (auto simp: tickets_inv_def ticket_record_ok_def split: if_splits)
qed

lemma resolve_ticket_inv:
  assumes inv: "tickets_inv tickets" and get: "bt_get tickets (resolution_ticket r) = Some rec"
    and ok: "apply_resolution r rec = Inr rec'"
  shows "tickets_inv (bt_modify (resolution_ticket r) (\<lambda>_. rec') tickets)"
proof -
  have same: "ticket rec' = ticket rec" by (rule apply_resolution_ticket [OF ok])
  show ?thesis
    using inv get apply_resolution_ok [OF ok] same
    unfolding tickets_inv_def blocks_modify_same [OF get same]
    by (auto split: if_splits)
qed

lemma apply_board_event_inv:
  "apply_board_event e tickets = Inr tickets' \<Longrightarrow> tickets_inv tickets \<Longrightarrow> tickets_inv tickets'"
proof (cases e)
  case (DecisionTicketOpened s t)
  then show "apply_board_event e tickets = Inr tickets' \<Longrightarrow> tickets_inv tickets \<Longrightarrow> tickets_inv tickets'"
    by (auto simp: apply_board_event_def open_ticket_inv split: if_splits option.splits)
next
  case (DecisionTicketResolved s r)
  then show "apply_board_event e tickets = Inr tickets' \<Longrightarrow> tickets_inv tickets \<Longrightarrow> tickets_inv tickets'"
    by (cases "bt_get tickets (resolution_ticket r)")
      (auto simp: apply_board_event_def map_ok_Inr intro: resolve_ticket_inv)
qed (simp_all add: apply_board_event_def)

definition items_inv :: "Items \<Rightarrow> bool" where
  [inv_defs]: "items_inv items \<longleftrightarrow> bt_wf items \<and> (\<forall>i item. bt_get items i = Some item \<longrightarrow> item_id item = i)"

definition acts_inv :: "Items \<Rightarrow> Acts \<Rightarrow> bool" where
  [inv_defs]: "acts_inv items acts \<longleftrightarrow> bt_wf acts
     \<and> (\<forall>a act. bt_get acts a = Some act \<longrightarrow> act_id act = a \<and> bt_contains items (act_item_id act))"

lemma apply_imported_event_inv:
  "apply_imported_event e items = Inr items' \<Longrightarrow> items_inv items \<Longrightarrow>
     items_inv items' \<and> (\<forall>i. bt_contains items i \<longrightarrow> bt_contains items' i)"
  by (cases e) (auto simp: apply_imported_event_def items_inv_def and_then_Inr map_ok_Inr
      ok_or_def apply_refresh_Inr split: if_splits option.splits)

lemma apply_imported_act_event_inv:
  "apply_imported_act_event items e acts = Inr acts' \<Longrightarrow> acts_inv items acts \<Longrightarrow> acts_inv items acts'"
  by (cases e) (auto simp: apply_imported_act_event_def acts_inv_def split: if_splits)

definition session_inv :: "SessionState \<Rightarrow> bool" where
  "session_inv st \<longleftrightarrow> plan_opt_inv (st_plan st) \<and> tickets_inv (st_tickets st)
     \<and> items_inv (st_items st) \<and> acts_inv (st_items st) (st_acts st)"

lemma apply_event_inv:
  assumes "session_inv st" "apply_event e st = Inr st'"
  shows "session_inv st'"
proof -
  from assms(2) obtain plan tickets items acts where
    p: "apply_plan_event e (st_plan st) = Inr plan" "st_plan st' = plan"
    and t: "apply_board_event e (st_tickets st) = Inr tickets" "st_tickets st' = tickets"
    and i: "apply_imported_event e (st_items st) = Inr items" "st_items st' = items"
    and a: "apply_imported_act_event items e (st_acts st) = Inr acts" "st_acts st' = acts"
    unfolding apply_event_Inr by auto
  have "acts_inv items (st_acts st)"
    using assms(1) apply_imported_event_inv [OF i(1)] by (auto simp: session_inv_def acts_inv_def)
  then show ?thesis
    using assms(1) p t i a apply_plan_event_inv [OF p(1)] apply_board_event_inv [OF t(1)]
      apply_imported_event_inv [OF i(1)] apply_imported_act_event_inv [OF a(1)]
    by (simp add: session_inv_def)
qed

interpretation session: guarded_fold "\<lambda>s. apply_event (stored_event s)" session_inv
  by unfold_locales (rule apply_event_inv)

lemma session_inv_default: "session_inv SessionState_default"
  by (simp add: session_inv_def SessionState_default_def plan_opt_inv_def tickets_inv_def
      items_inv_def acts_inv_def blocks_def acyclic_def)

text \<open>A workflow in a final stage stays in it.\<close>

lemma apply_plan_event_terminal:
  assumes "apply_plan_event e (Some w) = Inr p" "terminal w"
  shows "\<exists>w'. p = Some w' \<and> stage w' = stage w"
proof -
  note no = terminal_refuses [OF assms(2), where 'd = SessionRefusal, unfolded is_ok_iff not_ex]
  show ?thesis
    using assms(1)
    by (cases e) (auto simp: apply_plan_event_def and_then_Inr map_ok_Inr Let_def no
        split: if_splits option.splits dest: link_keeps_stage)
qed

lemma terminal_stage: "stage w' = stage w \<Longrightarrow> terminal w' = terminal w"
  by (simp add: terminal_def)

interpretation finished: guarded_fold "\<lambda>s. apply_event (stored_event s)"
  "\<lambda>st. \<exists>w. st_plan st = Some w \<and> terminal w \<and> stage w = final"
  for final
proof
  fix e s t
  assume "\<exists>w. st_plan s = Some w \<and> terminal w \<and> stage w = final"
    and step: "apply_event (stored_event e) s = Inr t"
  then obtain w where w: "st_plan s = Some w" "terminal w" "stage w = final" by blast
  with step have "apply_plan_event (stored_event e) (Some w) = Inr (st_plan t)"
    by (auto simp: apply_event_Inr)
  from apply_plan_event_terminal [OF this w(2)] obtain w'
    where w': "st_plan t = Some w'" "stage w' = stage w" by blast
  have "terminal w'" using w(2) terminal_stage [OF w'(2)] by simp
  then show "\<exists>w. st_plan t = Some w \<and> terminal w \<and> stage w = final"
    using w' w(3) by (intro exI [of _ w'] conjI) simp_all
qed

text \<open>The turns kept by a compaction.\<close>

definition user_entry :: "TranscriptEntry \<Rightarrow> bool" where
  "user_entry m \<longleftrightarrow> role (entry_message m) = Role.User"

lemma turn_floor_bound: "turn_floor wanted seen rev_ms \<le> length rev_ms"
  by (induction wanted seen rev_ms rule: turn_floor.induct) auto

lemma turn_floor_users:
  "seen < wanted \<Longrightarrow>
     length (filter user_entry (take (length ms - turn_floor wanted seen ms) ms))
       = min (wanted - seen) (length (filter user_entry ms))"
proof (induction wanted seen ms rule: turn_floor.induct)
  case (2 wanted seen m earlier)
  have le: "turn_floor wanted k earlier \<le> length earlier" for k by (rule turn_floor_bound)
  show ?case
  proof (cases "user_entry m")
    case True
    then show ?thesis
      using 2 le by (auto simp: user_entry_def Suc_diff_le)
  next
    case False
    then show ?thesis
      using 2 le by (auto simp: user_entry_def Suc_diff_le)
  qed
qed simp

lemma recent_turns_kept:
  "length (filter user_entry (drop (recent_turn_floor ms n) ms))
     = min n (length (filter user_entry ms))"
proof (cases "n = 0")
  case False
  let ?f = "turn_floor n 0 (rev ms)"
  have "?f \<le> length ms" using turn_floor_bound [of n 0 "rev ms"] by simp
  then have "drop ?f ms = rev (take (length ms - ?f) (rev ms))" by (simp add: rev_take)
  then show ?thesis
    using turn_floor_users [of 0 n "rev ms"] False
    by (simp add: recent_turn_floor_def rev_filter [symmetric] del: rev_take)
qed (simp add: recent_turn_floor_def)

lemma message_system_role: "role (message_system i now t) = Role.System"
  by (simp add: message_system_def)

section \<open>Properties\<close>

text \<open>
  Validation is the reduction. An event passes validation exactly if reducing it will be
  accepted, and a refused event is refused with the same error, so an event that was validated
  and then appended never fails to reduce.
\<close>

theorem validate_is_apply:
  "(validate_event e st = Inr ()) = (\<exists>st'. apply_event e st = Inr st')
   \<and> (validate_event e st = Inl err) = (apply_event e st = Inl err)"
  by (cases "apply_event e st") (simp_all add: validate_event_eq)

text \<open>
  C4: a resumed session holds what the live one held. If a fresh session accepted a sequence of
  events one by one, replaying those events rebuilds the same plan workflow, council review,
  decision tickets, imported items and acts, whatever state the replay starts from; and the
  transcript replay agrees on the plan and the council.
\<close>

theorem resume_equals_live:
  assumes "live events SessionState_default = Inr st"
  shows "(\<exists>st'. rebuild_durable_records_from events other = Inr st' \<and> records st' = records st)
    \<and> (\<exists>st'. rebuild_messages_from events other = Inr st'
       \<and> st_plan st' = st_plan st \<and> st_council st' = st_council st)"
proof
  have "records SessionState_default = (None, None, [], [], [])"
    by (simp add: records_def SessionState_default_def)
  with rebuild_records_live [OF assms]
  have "replay rebuild_records_step events (None, None, [], [], []) = Inr (records st)" by simp
  then show "\<exists>st'. rebuild_durable_records_from events other = Inr st' \<and> records st' = records st"
    by (simp add: rebuild_durable_records_from_def records_def)
  from rebuild_messages_live [OF assms, of "[]"]
  show "\<exists>st'. rebuild_messages_from events other = Inr st'
       \<and> st_plan st' = st_plan st \<and> st_council st' = st_council st"
    by (auto simp: rebuild_messages_from_def SessionState_default_def)
qed

definition example_ticket :: DecisionTicket where
  "example_ticket = \<lparr>ticket_id = DecisionTicketId 7, ticket_question = ''q'', ticket_kind = Task,
     ticket_options = [''a''], ticket_blocked_by = []\<rparr>"

definition example_resolution :: DecisionResolution where
  "example_resolution = \<lparr>resolution_id = DecisionResolutionId 1,
     resolution_ticket = DecisionTicketId 7, resolution_question = ''q'',
     resolution_options = [''a''], chosen_option = 0, decided_by = Human,
     resolution_decided_at = 0, resolution_note = None, supersedes = None\<rparr>"

definition stored_at :: "u64 \<Rightarrow> MjolnrEvent \<Rightarrow> StoredEvent" where
  "stored_at n e = \<lparr>stored_id = EventId 0, stored_sequence = n, occurred_at = 0, stored_event = e\<rparr>"

lemmas reducer_defs = apply_event_def validate_imported_comment_def apply_plan_event_def
  apply_council_event_def apply_board_event_def apply_imported_event_def
  apply_imported_act_event_def SessionState_default_def Let_def

theorem resume_equals_live_witness:
  "\<exists>st'. rebuild_durable_records_from
       [stored_at 1 (MjolnrEvent.DecisionTicketOpened (SessionId 0) example_ticket)]
       SessionState_default = Inr st'
     \<and> bt_get (st_tickets st') (DecisionTicketId 7) = Some \<lparr>ticket = example_ticket, resolution = None\<rparr>"
proof -
  obtain st where st: "live [stored_at 1 (MjolnrEvent.DecisionTicketOpened (SessionId 0) example_ticket)]
      SessionState_default = Inr st"
    and t: "bt_get (st_tickets st) (DecisionTicketId 7) = Some \<lparr>ticket = example_ticket, resolution = None\<rparr>"
    by (simp add: reducer_defs stored_at_def example_ticket_def bt_get_def)
  from resume_equals_live [OF st, of SessionState_default] obtain st' where
    "rebuild_durable_records_from
       [stored_at 1 (MjolnrEvent.DecisionTicketOpened (SessionId 0) example_ticket)]
       SessionState_default = Inr st'" and "st_tickets st' = st_tickets st"
    by (auto simp: records_def)
  with t show ?thesis by (intro exI [of _ st']) simp
qed

text \<open>
  C26: the records of a session are always coherent. After any accepted sequence of events the
  plan satisfies its invariant; every decision ticket is stored under its own id with a
  resolution, if any, that decides it, its blockers exist and blocking is acyclic; imported items
  are stored under their ids; and every act is recorded against an item that exists.
\<close>

theorem session_records_coherent:
  assumes "live events SessionState_default = Inr st"
  shows "(case st_plan st of None \<Rightarrow> True | Some w \<Rightarrow> plan_inv w)
    \<and> acyclic (blocks (st_tickets st))
    \<and> (\<forall>i rec. bt_get (st_tickets st) i = Some rec \<longrightarrow> ticket_id (ticket rec) = i \<and> ticket_record_ok rec
         \<and> (\<forall>b \<in> set (ticket_blocked_by (ticket rec)). bt_contains (st_tickets st) b))
    \<and> (\<forall>i item. bt_get (st_items st) i = Some item \<longrightarrow> item_id item = i)
    \<and> (\<forall>a act. bt_get (st_acts st) a = Some act \<longrightarrow> act_id act = a
         \<and> bt_contains (st_items st) (act_item_id act))"
proof -
  have inv: "session_inv st" by (rule session.replay_inv [OF session_inv_default assms])
  then have "\<forall>(i, b) \<in> blocks (st_tickets st). bt_contains (st_tickets st) b"
    by (simp add: session_inv_def tickets_inv_def)
  then have "\<forall>i rec. bt_get (st_tickets st) i = Some rec \<longrightarrow>
      (\<forall>b \<in> set (ticket_blocked_by (ticket rec)). bt_contains (st_tickets st) b)"
    unfolding blocks_def by blast
  with inv show ?thesis
    by (simp add: session_inv_def plan_opt_inv_def tickets_inv_def items_inv_def acts_inv_def)
qed

theorem session_records_coherent_witness:
  "\<exists>st. live [stored_at 1 (MjolnrEvent.DecisionTicketOpened (SessionId 0) example_ticket)]
       SessionState_default = Inr st \<and> acyclic (blocks (st_tickets st))"
proof -
  obtain st where st: "live [stored_at 1 (MjolnrEvent.DecisionTicketOpened (SessionId 0) example_ticket)]
      SessionState_default = Inr st"
    by (simp add: reducer_defs stored_at_def example_ticket_def bt_get_def)
  with session_records_coherent [OF st] show ?thesis by blast
qed

text \<open>
  C20: nothing is handed off without a human's approval of that very revision. In every state a
  session reaches, each handoff of its plan has an approval whose verdict is to approve, for the
  same plan and the same revision, and that revision was proposed.
\<close>

theorem handoff_needs_approval:
  assumes "live events SessionState_default = Inr st"
    and "st_plan st = Some w" and "h \<in> set (handoffs w)"
  shows "handoff_plan_id h = plan_id w
    \<and> (\<exists>a \<in> set (approvals w). decision a = ReviewVerdict.Approve \<and> approval_plan_id a = plan_id w
         \<and> approval_revision_id a = handoff_revision_id h
         \<and> (\<exists>p \<in> set (proposals w). proposal_revision_id p = handoff_revision_id h))"
proof -
  have "plan_inv w"
    using session.replay_inv [OF session_inv_default assms(1)] assms(2)
    by (simp add: session_inv_def plan_opt_inv_def)
  then show ?thesis
    using assms(3) unfolding plan_inv_def handoffs_ok_def approvals_ok_def by metis
qed

definition example_plan_events :: "StoredEvent list" where
  "example_plan_events =
     [stored_at 1 (MjolnrEvent.PlanProposed (SessionId 0) \<lparr>proposal_plan_id = PlanId 1,
        proposal_revision_id = RevisionId 1, proposal_title = ''t'', proposal_summary = [],
        proposal_steps = [], proposed_at = 0\<rparr>),
      stored_at 2 (MjolnrEvent.PlanApproved (SessionId 0) \<lparr>approval_plan_id = PlanId 1,
        approval_revision_id = RevisionId 1, approver = ''me'', decision = ReviewVerdict.Approve,
        approval_note = None, approved_at = 0\<rparr>),
      stored_at 3 (MjolnrEvent.PlanHandoffCreated (SessionId 0) \<lparr>handoff_plan_id = PlanId 1,
        handoff_revision_id = RevisionId 1, handoff_note = [], handoff_created_at = 0\<rparr>)]"

lemma example_plan_live:
  "\<exists>st w. live example_plan_events SessionState_default = Inr st \<and> st_plan st = Some w
     \<and> terminal w \<and> handoffs w = [\<lparr>handoff_plan_id = PlanId 1,
        handoff_revision_id = RevisionId 1, handoff_note = [], handoff_created_at = 0\<rparr>]"
  by (simp add: reducer_defs stored_at_def example_plan_events_def plan_new_def step_defs terminal_def)

theorem handoff_needs_approval_witness:
  "\<exists>st w. live example_plan_events SessionState_default = Inr st \<and> st_plan st = Some w
     \<and> (\<exists>a \<in> set (approvals w). decision a = ReviewVerdict.Approve)"
proof -
  from example_plan_live obtain st w where
    l: "live example_plan_events SessionState_default = Inr st" and w: "st_plan st = Some w"
    and h: "\<lparr>handoff_plan_id = PlanId 1, handoff_revision_id = RevisionId 1, handoff_note = [],
      handoff_created_at = 0\<rparr> \<in> set (handoffs w)" by force
  from handoff_needs_approval [OF l w h] l w show ?thesis by blast
qed

text \<open>
  rejection and handoff are final. Once the plan of a session is rejected or handed off, no
  accepted sequence of further events moves it to another stage.
\<close>

theorem final_plan_stays:
  assumes "live events st = Inr st'" and "st_plan st = Some w" and "terminal w"
  shows "\<exists>w'. st_plan st' = Some w' \<and> stage w' = stage w"
  using finished.replay_inv [of st "stage w" events st'] assms by auto

theorem final_plan_stays_witness:
  "\<exists>st w st' w'. live example_plan_events SessionState_default = Inr st \<and> st_plan st = Some w
     \<and> live [stored_at 4 (MjolnrEvent.DecisionTicketOpened (SessionId 0) example_ticket)] st = Inr st'
     \<and> st_plan st' = Some w' \<and> stage w' = stage w"
proof -
  obtain st w where
    l: "live example_plan_events SessionState_default = Inr st" and w: "st_plan st = Some w" "terminal w"
    and no: "st_tickets st = []"
    by (simp add: reducer_defs stored_at_def example_plan_events_def plan_new_def step_defs terminal_def)
  obtain st' where
    st': "live [stored_at 4 (MjolnrEvent.DecisionTicketOpened (SessionId 0) example_ticket)] st = Inr st'"
    using no by (simp add: reducer_defs stored_at_def example_ticket_def)
  from final_plan_stays [OF st' w] l w(1) st' show ?thesis by blast
qed

text \<open>
  a compacted context keeps exactly the turns asked for. After compaction and any messages
  that follow, the provider sees the seed's system message, then a suffix of the old transcript
  that starts as many user turns from its end as were asked for (all, if there were fewer), then
  the later messages; nothing is seen twice and nothing later is lost.
\<close>

theorem compaction_keeps_recent_turns:
  assumes "enable_compact_context show_uuid show_instant i now n st = (True, st')"
  shows "\<exists>seed kept older.
    role seed = Role.System
    \<and> plain_messages st = older @ kept
    \<and> length (filter (\<lambda>m. role m = Role.User) kept)
        = min n (length (filter (\<lambda>m. role m = Role.User) (plain_messages st)))
    \<and> provider_messages (fold (\<lambda>(s, m). push_message s m) later st') = seed # kept @ map snd later"
proof -
  let ?f = "recent_turn_floor (st_messages st) n"
  from assms obtain handoff where st': "st' = st\<lparr>st_compact := Some
      \<lparr>compact_seed_messages = message_system i now (compact_seed show_uuid show_instant handoff)
          # map entry_message (drop ?f (st_messages st)),
       history_floor = length (st_messages st)\<rparr>\<rparr>"
    by (auto simp: enable_compact_context_def Let_def split: option.splits)
  have push: "st_messages (fold (\<lambda>(s, m). push_message s m) later s0)
        = st_messages s0 @ map (\<lambda>(s, m). \<lparr>entry_sequence = s, entry_message = m\<rparr>) later
      \<and> st_compact (fold (\<lambda>(s, m). push_message s m) later s0) = st_compact s0" for s0
    by (induction later arbitrary: s0) (auto simp: push_message_def)
  have sees: "provider_messages (fold (\<lambda>(s, m). push_message s m) later st')
      = message_system i now (compact_seed show_uuid show_instant handoff)
        # map entry_message (drop ?f (st_messages st)) @ map snd later"
    using push [of st'] by (simp add: provider_messages_def st' case_prod_beta')
  have users: "length (filter (\<lambda>m. role m = Role.User) (map entry_message ms))
      = length (filter user_entry ms)" for ms
    by (induction ms) (auto simp: user_entry_def)
  have kept: "length (filter (\<lambda>m. role m = Role.User) (map entry_message (drop ?f (st_messages st))))
      = min n (length (filter (\<lambda>m. role m = Role.User) (plain_messages st)))"
    unfolding plain_messages_def users by (rule recent_turns_kept)
  have split: "plain_messages st
      = map entry_message (take ?f (st_messages st)) @ map entry_message (drop ?f (st_messages st))"
    unfolding plain_messages_def by (simp only: map_append [symmetric] append_take_drop_id)
  show ?thesis
    by (intro exI conjI, rule message_system_role, rule split, rule kept, rule sees)
qed

theorem compaction_keeps_recent_turns_witness:
  "\<exists>seed. provider_messages (snd (enable_compact_context (\<lambda>_. []) (\<lambda>_. []) 1 0 1
     (SessionState_default\<lparr>st_handoff := Some \<lparr>ho_id = HandoffId 1, ho_created_at = 0,
        ho_status = [], ho_provider = ProviderId [], ho_model = ModelId [], ho_files_read = [],
        ho_files_changed = [], ho_commands = [], ho_usage = Usage_default,
        ho_budget = BudgetStatus_default, ho_activated_skills = []\<rparr>\<rparr>))) = [seed]"
proof -
  let ?st = "SessionState_default\<lparr>st_handoff := Some \<lparr>ho_id = HandoffId 1, ho_created_at = 0,
        ho_status = [], ho_provider = ProviderId [], ho_model = ModelId [], ho_files_read = [],
        ho_files_changed = [], ho_commands = [], ho_usage = Usage_default,
        ho_budget = BudgetStatus_default, ho_activated_skills = []\<rparr>\<rparr>"
  obtain st' where e: "enable_compact_context (\<lambda>_. []) (\<lambda>_. []) 1 0 1 ?st = (True, st')"
    by (simp add: enable_compact_context_def Let_def)
  have "plain_messages ?st = []" by (simp add: plain_messages_def SessionState_default_def)
  with compaction_keeps_recent_turns [OF e, of "[]"] show ?thesis by (simp only: e) auto
qed

section \<open>What a replay does not rebuild\<close>

text \<open>
  The amendment a human asked for is in the live state after its event, and in no rebuilt one.
\<close>

lemma amendment_not_rebuilt:
  "\<exists>st st'. live [stored_at 1 (MjolnrEvent.CouncilAmendmentProposed s a)] SessionState_default = Inr st
     \<and> rebuild_durable_records_from [stored_at 1 (MjolnrEvent.CouncilAmendmentProposed s a)]
         SessionState_default = Inr st'
     \<and> st_amendment st = Some a \<and> st_amendment st' = None"
  by (simp add: reducer_defs stored_at_def rebuild_durable_records_from_def
      rebuild_records_step_def)

text \<open>
  A rewind rebuilds the plan, the council and the transcript from the branch it moves to, but
  keeps the decision tickets. A resolution of a ticket that only the abandoned branch opened is
  then accepted, and the new branch, which holds the resolution alone, can no longer be replayed.
\<close>

lemma rewind_keeps_abandoned_tickets:
  "\<exists>st rewound. live [stored_at 1 (MjolnrEvent.DecisionTicketOpened s example_ticket)]
         SessionState_default = Inr st
     \<and> rebuild_messages_from [] st = Inr rewound
     \<and> validate_event (MjolnrEvent.DecisionTicketResolved s example_resolution) rewound = Inr ()
     \<and> (\<forall>other. \<not> is_ok (rebuild_durable_records_from
          [stored_at 2 (MjolnrEvent.DecisionTicketResolved s example_resolution)] other))"
  by (simp add: reducer_defs stored_at_def rebuild_durable_records_from_def
      rebuild_records_step_def rebuild_messages_from_def validate_event_eq example_ticket_def
      example_resolution_def apply_resolution_def bt_get_def)

end
