(* ===== verification/Frontier_Search.thy ===== *)
theory Frontier_Search
  imports Board
begin

text \<open>
  The component search of \<^verbatim>\<open>core/frontier.rs\<close> (\<^verbatim>\<open>SccSearcher\<close>): Tarjan's algorithm over the
  blocking graph, as the recursion the code has. The call stack is bounded by fuel; the fuel
  that \<^verbatim>\<open>components\<close> gets is shown to be enough, and what it finds to be exactly the strongly
  connected components of the nodes it was asked about.
\<close>

section \<open>The search\<close>

type_synonym Edges = "(NodeId, NodeId btree_set) btree_map"

text \<open>The stack is a Vec whose top is its last element; here the top comes first.\<close>

record SccSearcher =
  next_index :: nat
  indices :: "(NodeId, nat) btree_map"
  lowlinks :: "(NodeId, nat) btree_map"
  scc_stack :: "NodeId list"
  on_stack :: "NodeId btree_set"
  scc_found :: "NodeId list list"

definition SccSearcher_default :: SccSearcher where
  "SccSearcher_default = \<lparr>next_index = 0, indices = [], lowlinks = [], scc_stack = [],
     on_stack = [], scc_found = []\<rparr>"

definition bs_remove :: "'k \<Rightarrow> 'k btree_set \<Rightarrow> 'k btree_set" where
  "bs_remove k s = filter (\<lambda>x. x \<noteq> k) s"

definition relax_lowlink :: "NodeId \<Rightarrow> nat \<Rightarrow> SccSearcher \<Rightarrow> SccSearcher" where
  "relax_lowlink node candidate s = (case bt_get (lowlinks s) node of
      Some low \<Rightarrow> if candidate < low
        then s\<lparr>lowlinks := bt_modify node (\<lambda>_. candidate) (lowlinks s)\<rparr> else s
    | None \<Rightarrow> s)"

text \<open>The entry of a node: it takes the next index and goes on the stack.\<close>

definition enter :: "NodeId \<Rightarrow> SccSearcher \<Rightarrow> SccSearcher" where
  "enter node s = s\<lparr>
     indices := bt_insert node (next_index s) (indices s),
     lowlinks := bt_insert node (next_index s) (lowlinks s),
     next_index := next_index s + 1,
     scc_stack := node # scc_stack s,
     on_stack := bs_insert node (on_stack s)\<rparr>"

text \<open>The pops of a root: the stack down to the node, and what was popped.\<close>

fun pop_component :: "NodeId \<Rightarrow> NodeId list \<Rightarrow> NodeId btree_set \<Rightarrow> NodeId list
    \<Rightarrow> NodeId list \<times> NodeId btree_set \<times> NodeId list" where
  "pop_component node [] on component = ([], on, component)"
| "pop_component node (popped # rest) on component =
     (if popped = node then (rest, bs_remove popped on, component @ [popped])
      else pop_component node rest (bs_remove popped on) (component @ [popped]))"

definition close_root :: "NodeId \<Rightarrow> SccSearcher \<Rightarrow> SccSearcher" where
  "close_root node s =
     (if bt_get (lowlinks s) node = bt_get (indices s) node
      then (case pop_component node (scc_stack s) (on_stack s) [] of (rest, on, component) \<Rightarrow>
        s\<lparr>scc_stack := rest, on_stack := on, scc_found := scc_found s @ [sort component]\<rparr>)
      else s)"

definition successors :: "Edges \<Rightarrow> NodeId \<Rightarrow> NodeId list" where
  "successors edges node = (case bt_get edges node of Some blockers \<Rightarrow> blockers | None \<Rightarrow> [])"

text \<open>The loop over the successors, with the recursive call as its argument.\<close>

fun visit_successors :: "(NodeId \<Rightarrow> SccSearcher \<Rightarrow> SccSearcher option) \<Rightarrow> NodeId \<Rightarrow> NodeId list
    \<Rightarrow> SccSearcher \<Rightarrow> SccSearcher option" where
  "visit_successors recurse node [] s = Some s"
| "visit_successors recurse node (successor # rest) s =
     (if \<not> bt_contains (indices s) successor
      then (case recurse successor s of
          None \<Rightarrow> None
        | Some s' \<Rightarrow> visit_successors recurse node rest
            (case bt_get (lowlinks s') successor of
               Some candidate \<Rightarrow> relax_lowlink node candidate s' | None \<Rightarrow> s'))
      else if successor \<in> set (on_stack s)
      then visit_successors recurse node rest
        (case bt_get (indices s) successor of
           Some candidate \<Rightarrow> relax_lowlink node candidate s | None \<Rightarrow> s)
      else visit_successors recurse node rest s)"

fun connect :: "nat \<Rightarrow> Edges \<Rightarrow> NodeId \<Rightarrow> SccSearcher \<Rightarrow> SccSearcher option" where
  "connect 0 edges node s = None"
| "connect (Suc depth) edges node s =
     map_option (close_root node)
       (visit_successors (connect depth edges) node (successors edges node) (enter node s))"

fun components_loop ::
  "nat \<Rightarrow> Edges \<Rightarrow> NodeId list \<Rightarrow> SccSearcher \<Rightarrow> SccSearcher option" where
  "components_loop depth edges [] s = Some s"
| "components_loop depth edges (node # rest) s =
     (if bt_contains (indices s) node then components_loop depth edges rest s
      else (case connect depth edges node s of
          None \<Rightarrow> None
        | Some s' \<Rightarrow> components_loop depth edges rest s'))"

text \<open>A depth no call stack of the search exceeds: every frame holds a node of its own.\<close>

definition search_depth :: "NodeId btree_set \<Rightarrow> Edges \<Rightarrow> nat" where
  "search_depth nodes edges = length nodes + sum_list (map (length \<circ> snd) edges)"

definition components :: "NodeId btree_set \<Rightarrow> Edges \<Rightarrow> NodeId list list option" where
  "components nodes edges =
     map_option scc_found (components_loop (search_depth nodes edges) edges nodes SccSearcher_default)"

section \<open>The graph\<close>

definition waits :: "Edges \<Rightarrow> (NodeId \<times> NodeId) set" where
  "waits edges = {(a, b). b \<in> set (successors edges a)}"

abbreviation reach :: "Edges \<Rightarrow> (NodeId \<times> NodeId) set" where
  "reach edges \<equiv> (waits edges)\<^sup>*"

definition scc_of :: "Edges \<Rightarrow> NodeId \<Rightarrow> NodeId set" where
  "scc_of edges a = {b. (a, b) \<in> reach edges \<and> (b, a) \<in> reach edges}"

lemma scc_of_refl [simp]: "a \<in> scc_of edges a"
  by (simp add: scc_of_def)

lemma scc_of_eq: "b \<in> scc_of edges a \<Longrightarrow> scc_of edges b = scc_of edges a"
  by (auto simp: scc_of_def intro: rtrancl_trans)

text \<open>A set closed under the edges holds whatever its members reach.\<close>

lemma closed_reach:
  assumes "(a, b) \<in> reach edges" "a \<in> D" "\<And>x y. x \<in> D \<Longrightarrow> (x, y) \<in> waits edges \<Longrightarrow> y \<in> D"
  shows "b \<in> D"
  using assms(1) by (induction) (auto intro: assms)

section \<open>The invariant\<close>

abbreviation seen :: "SccSearcher \<Rightarrow> NodeId set" where
  "seen s \<equiv> {n. bt_contains (indices s) n}"

definition num :: "SccSearcher \<Rightarrow> NodeId \<Rightarrow> nat" where
  "num s n = the (bt_get (indices s) n)"

definition closed_nodes :: "SccSearcher \<Rightarrow> NodeId set" where
  "closed_nodes s = seen s - set (scc_stack s)"

text \<open>
  The state between two steps, for the nodes whose calls are open: indices are distinct and
  grow up the stack; the successors of a node that is finished were seen; what left the stack
  is closed under the edges and is the union of the components found; a node on the stack
  reaches the nodes above it and an open node at or below it.
\<close>

definition scc_inv :: "Edges \<Rightarrow> NodeId set \<Rightarrow> SccSearcher \<Rightarrow> bool" where
  "scc_inv edges G s \<longleftrightarrow>
     (\<forall>n \<in> seen s. num s n < next_index s)
     \<and> inj_on (num s) (seen s)
     \<and> set (scc_stack s) \<subseteq> seen s
     \<and> sorted_wrt (\<lambda>a b. num s b < num s a) (scc_stack s)
     \<and> set (on_stack s) = set (scc_stack s)
     \<and> G \<subseteq> set (scc_stack s)
     \<and> (\<forall>x \<in> seen s - G. \<forall>y. (x, y) \<in> waits edges \<longrightarrow> y \<in> seen s)
     \<and> (\<forall>x \<in> closed_nodes s. \<forall>y. (x, y) \<in> waits edges \<longrightarrow> y \<in> closed_nodes s)
     \<and> (\<forall>x \<in> set (scc_stack s). \<forall>y \<in> set (scc_stack s). num s x \<le> num s y \<longrightarrow> (x, y) \<in> reach edges)
     \<and> (\<forall>y \<in> set (scc_stack s). \<exists>g \<in> G. num s g \<le> num s y \<and> (y, g) \<in> reach edges)
     \<and> \<Union> (set ` set (scc_found s)) = closed_nodes s
     \<and> (\<forall>c \<in> set (scc_found s). bs_wf c \<and> (\<exists>x. set c = scc_of edges x))
     \<and> distinct (scc_found s)"

lemma scc_invD:
  assumes "scc_inv edges G s"
  shows "\<And>n. n \<in> seen s \<Longrightarrow> num s n < next_index s"
    and "inj_on (num s) (seen s)"
    and "set (scc_stack s) \<subseteq> seen s"
    and "sorted_wrt (\<lambda>a b. num s b < num s a) (scc_stack s)"
    and "set (on_stack s) = set (scc_stack s)"
    and "G \<subseteq> set (scc_stack s)"
    and "\<And>x y. x \<in> seen s \<Longrightarrow> x \<notin> G \<Longrightarrow> (x, y) \<in> waits edges \<Longrightarrow> y \<in> seen s"
    and "\<And>x y. x \<in> closed_nodes s \<Longrightarrow> (x, y) \<in> waits edges \<Longrightarrow> y \<in> closed_nodes s"
    and "\<And>x y. x \<in> set (scc_stack s) \<Longrightarrow> y \<in> set (scc_stack s) \<Longrightarrow> num s x \<le> num s y \<Longrightarrow> (x, y) \<in> reach edges"
    and "\<And>y. y \<in> set (scc_stack s) \<Longrightarrow> \<exists>g \<in> G. num s g \<le> num s y \<and> (y, g) \<in> reach edges"
    and "\<Union> (set ` set (scc_found s)) = closed_nodes s"
    and "\<And>c. c \<in> set (scc_found s) \<Longrightarrow> bs_wf c \<and> (\<exists>x. set c = scc_of edges x)"
    and "distinct (scc_found s)"
  using assms unfolding scc_inv_def by (elim conjE; simp; fail)+

lemma relax_lowlink_frame [simp]:
  "indices (relax_lowlink n c s) = indices s" "scc_stack (relax_lowlink n c s) = scc_stack s"
  "on_stack (relax_lowlink n c s) = on_stack s" "scc_found (relax_lowlink n c s) = scc_found s"
  "next_index (relax_lowlink n c s) = next_index s"
  by (auto simp: relax_lowlink_def split: option.split)

lemma relax_lowlink_low:
  "bt_get (lowlinks (relax_lowlink n c s)) m
     = (if m = n then map_option (min c) (bt_get (lowlinks s) n) else bt_get (lowlinks s) m)"
  by (auto simp: relax_lowlink_def min_def split: option.split)

lemma relax_lowlink_num [simp]: "num (relax_lowlink n c s) = num s"
  by (simp add: num_def fun_eq_iff)

lemma relax_lowlink_closed [simp]: "closed_nodes (relax_lowlink n c s) = closed_nodes s"
  by (simp add: closed_nodes_def)

lemma relax_lowlink_inv [simp]: "scc_inv edges G (relax_lowlink n c s) = scc_inv edges G s"
  by (simp add: scc_inv_def)

section \<open>Entering a node\<close>

lemma enter_num: "num (enter x s) n = (if n = x then next_index s else num s n)"
  by (simp add: num_def enter_def)

lemma enter_seen: "seen (enter x s) = insert x (seen s)"
  by (auto simp: enter_def)

lemma enter_closed: "x \<notin> seen s \<Longrightarrow> closed_nodes (enter x s) = closed_nodes s"
  by (auto simp: closed_nodes_def enter_def)

lemma enter_inv:
  assumes inv: "scc_inv edges G s" and x: "x \<notin> seen s"
    and G: "\<And>g. g \<in> G \<Longrightarrow> (g, x) \<in> reach edges"
  shows "scc_inv edges (insert x G) (enter x s)"
proof -
  note D = scc_invD [OF inv]
  have old: "num (enter x s) n = num s n" if "n \<in> seen s" for n
    using that x by (auto simp: enter_num)
  have below: "num s n < next_index s" "n \<noteq> x" if "n \<in> set (scc_stack s)" for n
    using that D(1) D(3) x by auto
  have up: "(y, x) \<in> reach edges" if "y \<in> set (scc_stack s)" for y
    using D(10) [OF that] G by (blast intro: rtrancl_trans)
  have st: "scc_stack (enter x s) = x # scc_stack s" "set (on_stack (enter x s)) = insert x (set (on_stack s))"
    "next_index (enter x s) = next_index s + 1" "scc_found (enter x s) = scc_found s"
    by (simp_all add: enter_def)
  show ?thesis
    unfolding scc_inv_def enter_closed [OF x] enter_seen
  proof (intro conjI)
    show "\<forall>n \<in> insert x (seen s). num (enter x s) n < next_index (enter x s)"
      using D(1) by (auto simp: enter_num st less_Suc_eq)
    show "inj_on (num (enter x s)) (insert x (seen s))"
    proof (rule inj_onI)
      fix a b assume ab: "a \<in> insert x (seen s)" "b \<in> insert x (seen s)" "num (enter x s) a = num (enter x s) b"
      show "a = b"
        using ab D(1) [of a] D(1) [of b] inj_onD [OF D(2), of a b] x
        by (auto simp: enter_num split: if_splits)
    qed
    show "sorted_wrt (\<lambda>a b. num (enter x s) b < num (enter x s) a) (scc_stack (enter x s))"
      using D(4) below
      by (auto simp: st enter_num intro: sorted_wrt_mono_rel [rotated, OF D(4)])
    show "\<forall>x' \<in> set (scc_stack (enter x s)). \<forall>y \<in> set (scc_stack (enter x s)).
        num (enter x s) x' \<le> num (enter x s) y \<longrightarrow> (x', y) \<in> reach edges"
      using D(9) below up by (auto simp: st enter_num dest: leD)
    show "\<forall>y \<in> set (scc_stack (enter x s)). \<exists>g \<in> insert x G. num (enter x s) g \<le> num (enter x s) y \<and> (y, g) \<in> reach edges"
    proof
      fix y assume "y \<in> set (scc_stack (enter x s))"
      then consider "y = x" | "y \<in> set (scc_stack s)" by (auto simp: st)
      then show "\<exists>g \<in> insert x G. num (enter x s) g \<le> num (enter x s) y \<and> (y, g) \<in> reach edges"
      proof cases
        case 2
        then obtain g where g: "g \<in> G" "num s g \<le> num s y" "(y, g) \<in> reach edges" using D(10) by blast
        then have "g \<in> seen s" "y \<in> seen s" using D(3,6) 2 by auto
        with g old show ?thesis by auto
      qed simp
    qed
  qed (use D(3,5,6,7,8,11,12,13) in \<open>auto simp: st\<close>)
qed

section \<open>The loop over the successors\<close>

definition visit_inv ::
  "Edges \<Rightarrow> NodeId set \<Rightarrow> NodeId \<Rightarrow> NodeId set \<Rightarrow> SccSearcher \<Rightarrow> NodeId list \<Rightarrow> nat \<Rightarrow> SccSearcher \<Rightarrow> bool"
where
  "visit_inv edges G x P s new l t \<longleftrightarrow>
     scc_inv edges (insert x G) t \<and> x \<notin> seen s \<and> x \<in> seen t \<and> seen s \<subseteq> seen t
     \<and> (\<forall>n \<in> seen s. num t n = num s n \<and> bt_get (lowlinks t) n = bt_get (lowlinks s) n)
     \<and> (\<forall>n \<in> seen t - seen s. next_index s \<le> num t n)
     \<and> num t x = next_index s \<and> scc_stack t = new @ x # scc_stack s \<and> set (scc_stack s) \<subseteq> seen s
     \<and> bt_get (lowlinks t) x = Some l \<and> l \<le> next_index s
     \<and> (l = next_index s \<or> (\<exists>w \<in> set (scc_stack s). num s w = l \<and> (x, w) \<in> reach edges))
     \<and> (\<forall>z \<in> set new. \<forall>y \<in> set (scc_stack s). (z, y) \<in> waits edges \<longrightarrow> l \<le> num s y)
     \<and> (\<forall>y \<in> P. y \<in> seen t \<and> (y \<in> set (scc_stack s) \<longrightarrow> l \<le> num s y))"

definition connected ::
  "Edges \<Rightarrow> NodeId set \<Rightarrow> NodeId \<Rightarrow> SccSearcher \<Rightarrow> NodeId list \<Rightarrow> nat \<Rightarrow> SccSearcher \<Rightarrow> bool"
where
  "connected edges G x s new l t \<longleftrightarrow>
     scc_inv edges G t \<and> x \<in> seen t \<and> seen s \<subseteq> seen t
     \<and> (\<forall>n \<in> seen s. num t n = num s n \<and> bt_get (lowlinks t) n = bt_get (lowlinks s) n)
     \<and> (\<forall>n \<in> seen t - seen s. next_index s \<le> num t n)
     \<and> scc_stack t = new @ scc_stack s
     \<and> bt_get (lowlinks t) x = Some l
     \<and> (l = num t x \<or> (\<exists>w \<in> set (scc_stack s). num s w = l \<and> (x, w) \<in> reach edges))
     \<and> (\<forall>z \<in> set new. \<forall>y \<in> set (scc_stack s). (z, y) \<in> waits edges \<longrightarrow> l \<le> num s y)"

lemma visit_invD:
  assumes "visit_inv edges G x P s new l t"
  shows "scc_inv edges (insert x G) t" "x \<notin> seen s" "x \<in> seen t" "seen s \<subseteq> seen t"
    and "\<And>n. n \<in> seen s \<Longrightarrow> num t n = num s n"
    and "\<And>n. n \<in> seen s \<Longrightarrow> bt_get (lowlinks t) n = bt_get (lowlinks s) n"
    and "\<And>n. n \<in> seen t \<Longrightarrow> n \<notin> seen s \<Longrightarrow> next_index s \<le> num t n"
    and "num t x = next_index s" "scc_stack t = new @ x # scc_stack s" "set (scc_stack s) \<subseteq> seen s"
    and "bt_get (lowlinks t) x = Some l" "l \<le> next_index s"
    and "l = next_index s \<or> (\<exists>w \<in> set (scc_stack s). num s w = l \<and> (x, w) \<in> reach edges)"
    and "\<And>z y. z \<in> set new \<Longrightarrow> y \<in> set (scc_stack s) \<Longrightarrow> (z, y) \<in> waits edges \<Longrightarrow> l \<le> num s y"
    and "\<And>y. y \<in> P \<Longrightarrow> y \<in> seen t"
    and "\<And>y. y \<in> P \<Longrightarrow> y \<in> set (scc_stack s) \<Longrightarrow> l \<le> num s y"
  using assms unfolding visit_inv_def by (elim conjE; simp; fail)+

lemma connectedD:
  assumes "connected edges G x s new l t"
  shows "scc_inv edges G t" "x \<in> seen t" "seen s \<subseteq> seen t"
    and "\<And>n. n \<in> seen s \<Longrightarrow> num t n = num s n"
    and "\<And>n. n \<in> seen s \<Longrightarrow> bt_get (lowlinks t) n = bt_get (lowlinks s) n"
    and "\<And>n. n \<in> seen t \<Longrightarrow> n \<notin> seen s \<Longrightarrow> next_index s \<le> num t n"
    and "scc_stack t = new @ scc_stack s"
    and "bt_get (lowlinks t) x = Some l"
    and "l = num t x \<or> (\<exists>w \<in> set (scc_stack s). num s w = l \<and> (x, w) \<in> reach edges)"
    and "\<And>z y. z \<in> set new \<Longrightarrow> y \<in> set (scc_stack s) \<Longrightarrow> (z, y) \<in> waits edges \<Longrightarrow> l \<le> num s y"
  using assms unfolding connected_def by (elim conjE; simp; fail)+

text \<open>A node of the stack with a smaller index than the open node was there before it.\<close>

lemma visit_older:
  assumes inv: "visit_inv edges G x P s new l t" and w: "w \<in> set (scc_stack t)" "num t w < next_index s"
  shows "w \<in> set (scc_stack s)" "num s w = num t w"
proof -
  note V = visit_invD [OF inv] and D = scc_invD [OF visit_invD(1) [OF inv]]
  have "num t x < num t n" if "n \<in> set new" for n
    using D(4) that by (auto simp: V(9) sorted_wrt_append)
  then have "w \<notin> set new" "w \<noteq> x" using w(2) V(8) by force+
  with w(1) show *: "w \<in> set (scc_stack s)" by (simp add: V(9))
  then show "num s w = num t w" using V(5,10) by force
qed

lemma visit_recursed:
  assumes inv: "visit_inv edges G x P s new l t" and y: "(x, y) \<in> waits edges" "y \<notin> seen t"
    and c: "connected edges (insert x G) y t new' l' t'"
  shows "visit_inv edges G x (insert y P) s (new' @ new) (min l' l) (relax_lowlink x l' t')"
proof -
  note V = visit_invD [OF inv] and C = connectedD [OF c]
  have y': "y \<notin> set (scc_stack s)" using V(4,10) y(2) by blast
  have x: "bt_get (lowlinks t') x = Some l" using C(5) [OF V(3)] V(11) by simp
  have disj: "min l' l = next_index s \<or> (\<exists>w \<in> set (scc_stack s). num s w = min l' l \<and> (x, w) \<in> reach edges)"
  proof (cases "l' < l")
    case True
    have "next_index t \<le> num t' y" using C(6) [OF C(2) y(2)] .
    moreover have "num t x < next_index t" using scc_invD(1) [OF V(1) V(3)] .
    ultimately have "l' \<noteq> num t' y" using True V(8,12) by simp
    then obtain w where w: "w \<in> set (scc_stack t)" "num t w = l'" "(y, w) \<in> reach edges"
      using C(9) by blast
    then have "num t w < next_index s" using True V(12) by simp
    from visit_older [OF inv w(1) this] w y(1) True show ?thesis
      by (auto intro: converse_rtrancl_into_rtrancl)
  next
    case False
    then show ?thesis using V(13) by (simp add: min_def)
  qed
  show ?thesis
    unfolding visit_inv_def
  proof (intro conjI)
    show "\<forall>n \<in> seen (relax_lowlink x l' t') - seen s. next_index s \<le> num (relax_lowlink x l' t') n"
    proof
      fix n assume n: "n \<in> seen (relax_lowlink x l' t') - seen s"
      show "next_index s \<le> num (relax_lowlink x l' t') n"
      proof (cases "n \<in> seen t")
        case True
        then show ?thesis using V(7) n C(4) by simp
      next
        case False
        then have "next_index t \<le> num t' n" using C(6) n by simp
        moreover have "num t x < next_index t" using scc_invD(1) [OF V(1) V(3)] .
        ultimately show ?thesis using V(8) by simp
      qed
    qed
    show "\<forall>z \<in> set (new' @ new). \<forall>y \<in> set (scc_stack s). (z, y) \<in> waits edges \<longrightarrow> min l' l \<le> num s y"
    proof (intro ballI impI)
      fix z w assume z: "z \<in> set (new' @ new)" and w: "w \<in> set (scc_stack s)" "(z, w) \<in> waits edges"
      have "num t w = num s w" using V(5,10) w(1) by blast
      moreover have "w \<in> set (scc_stack t)" using w(1) by (simp add: V(9))
      ultimately show "min l' l \<le> num s w"
        using z C(10) [of z w] V(14) [of z w] w by (auto simp: min_def)
    qed
    show "\<forall>w \<in> insert y P. w \<in> seen (relax_lowlink x l' t') \<and> (w \<in> set (scc_stack s) \<longrightarrow> min l' l \<le> num s w)"
      using C(2,3) V(15,16) y' by (fastforce simp: min_def)
    show "\<forall>n \<in> seen s. num (relax_lowlink x l' t') n = num s n
        \<and> bt_get (lowlinks (relax_lowlink x l' t')) n = bt_get (lowlinks s) n"
    proof
      fix n assume n: "n \<in> seen s"
      then have "n \<in> seen t" "n \<noteq> x" using V(2,4) by blast+
      with n show "num (relax_lowlink x l' t') n = num s n
        \<and> bt_get (lowlinks (relax_lowlink x l' t')) n = bt_get (lowlinks s) n"
        using V(5,6) C(4,5) by (simp add: relax_lowlink_low)
    qed
    show "x \<in> seen (relax_lowlink x l' t')" "seen s \<subseteq> seen (relax_lowlink x l' t')"
      using C(3) V(3,4) by auto
    show "num (relax_lowlink x l' t') x = next_index s" using C(4) [OF V(3)] V(8) by simp
    show "scc_inv edges (insert x G) (relax_lowlink x l' t')" using C(1) by simp
    show "bt_get (lowlinks (relax_lowlink x l' t')) x = Some (min l' l)"
      using x by (simp add: relax_lowlink_low)
    show "min l' l \<le> next_index s" using V(12) by simp
    show "scc_stack (relax_lowlink x l' t') = (new' @ new) @ x # scc_stack s" by (simp add: C(7) V(9))
  qed (use V(2,10) disj in simp_all)
qed

lemma visit_on_stack:
  assumes inv: "visit_inv edges G x P s new l t" and y: "(x, y) \<in> waits edges" "y \<in> set (scc_stack t)"
  shows "visit_inv edges G x (insert y P) s new (min (num t y) l) (relax_lowlink x (num t y) t)"
proof -
  note V = visit_invD [OF inv]
  have disj: "min (num t y) l = next_index s
     \<or> (\<exists>w \<in> set (scc_stack s). num s w = min (num t y) l \<and> (x, w) \<in> reach edges)"
  proof (cases "num t y < l")
    case True
    then have "num t y < next_index s" using V(12) by simp
    from visit_older [OF inv y(2) this] y(1) True show ?thesis by auto
  next
    case False
    then show ?thesis using V(13) by (simp add: min_def)
  qed
  have seen: "y \<in> seen t" using scc_invD(3) [OF V(1)] y(2) by blast
  have le: "min (num t y) l \<le> num s w" if "w \<in> set (scc_stack s)" "w = y \<or> l \<le> num s w" for w
    using that V(5,10) by (auto simp: min_def)
  show ?thesis
    unfolding visit_inv_def
  proof (intro conjI)
    show "\<forall>n \<in> seen s. num (relax_lowlink x (num t y) t) n = num s n
        \<and> bt_get (lowlinks (relax_lowlink x (num t y) t)) n = bt_get (lowlinks s) n"
      using V(2,5,6) by (auto simp: relax_lowlink_low)
    show "\<forall>z \<in> set new. \<forall>w \<in> set (scc_stack s). (z, w) \<in> waits edges \<longrightarrow> min (num t y) l \<le> num s w"
      using V(14) le by blast
    show "\<forall>w \<in> insert y P. w \<in> seen (relax_lowlink x (num t y) t)
        \<and> (w \<in> set (scc_stack s) \<longrightarrow> min (num t y) l \<le> num s w)"
      using V(15,16) le seen by auto
    show "bt_get (lowlinks (relax_lowlink x (num t y) t)) x = Some (min (num t y) l)"
      using V(11) by (simp add: relax_lowlink_low)
  qed (use V(1,2,3,4,7,8,9,10,12) disj in auto)
qed

lemma visit_closed:
  assumes inv: "visit_inv edges G x P s new l t" and y: "y \<in> seen t" "y \<notin> set (scc_stack t)"
  shows "visit_inv edges G x (insert y P) s new l t"
proof -
  note V = visit_invD [OF inv]
  have "y \<notin> set (scc_stack s)" using y(2) by (simp add: V(9))
  with inv y(1) show ?thesis unfolding visit_inv_def by simp
qed

lemma visit_successors_ok:
  assumes rec: "\<And>y t. (x, y) \<in> waits edges \<Longrightarrow> y \<notin> seen t \<Longrightarrow> scc_inv edges (insert x G) t
      \<Longrightarrow> card (U - seen t) \<le> depth \<Longrightarrow> \<exists>t' new l. recurse y t = Some t' \<and> connected edges (insert x G) y t new l t'"
    and U: "finite U"
  shows "visit_inv edges G x P s new l t \<Longrightarrow> (\<And>y. y \<in> set ys \<Longrightarrow> (x, y) \<in> waits edges)
    \<Longrightarrow> card (U - seen t) \<le> depth
    \<Longrightarrow> \<exists>t' new' l'. visit_successors recurse x ys t = Some t' \<and> visit_inv edges G x (P \<union> set ys) s new' l' t'"
proof (induction ys arbitrary: P new l t)
  case Nil
  then show ?case by auto
next
  case (Cons y ys)
  note V = visit_invD [OF Cons.prems(1)]
  have edge: "(x, y) \<in> waits edges" using Cons.prems(2) by simp
  have go: "\<exists>t'' new'' l''. visit_successors recurse x ys t' = Some t''
      \<and> visit_inv edges G x (P \<union> set (y # ys)) s new'' l'' t''"
    if "visit_inv edges G x (insert y P) s new' l' t'" "seen t \<subseteq> seen t'" for t' new' l'
  proof -
    have "card (U - seen t') \<le> depth"
      using Cons.prems(3) card_mono [of "U - seen t" "U - seen t'"] that(2) U by fastforce
    from Cons.IH [OF that(1) _ this] Cons.prems(2) show ?thesis by simp
  qed
  consider (new) "y \<notin> seen t" | (stacked) "y \<in> seen t" "y \<in> set (scc_stack t)"
    | (closed) "y \<in> seen t" "y \<notin> set (scc_stack t)" by blast
  then show ?case
  proof cases
    case new
    from rec [OF edge new V(1) Cons.prems(3)] obtain t' new' l' where
      r: "recurse y t = Some t'" "connected edges (insert x G) y t new' l' t'" by blast
    note C = connectedD [OF r(2)]
    have "seen t \<subseteq> seen (relax_lowlink x l' t')" using C(3) by simp
    from go [OF visit_recursed [OF Cons.prems(1) edge new r(2)] this] show ?thesis
      using r(1) new C(8) by simp
  next
    case stacked
    then obtain i where i: "bt_get (indices t) y = Some i" by (auto simp: bt_get_contains)
    then have "num t y = i" by (simp add: num_def)
    with go [OF visit_on_stack [OF Cons.prems(1) edge stacked(2)]] show ?thesis
      using stacked i scc_invD(5) [OF V(1)] by simp
  next
    case closed
    from go [OF visit_closed [OF Cons.prems(1) closed]] show ?thesis
      using closed scc_invD(5) [OF V(1)] by simp
  qed
qed

section \<open>Leaving a node\<close>

lemma scc_inv_reopen:
  assumes "scc_inv edges H t" "G \<subseteq> set (scc_stack t)"
    and "\<forall>z \<in> seen t - G. \<forall>y. (z, y) \<in> waits edges \<longrightarrow> y \<in> seen t"
    and "\<forall>y \<in> set (scc_stack t). \<exists>g \<in> G. num t g \<le> num t y \<and> (y, g) \<in> reach edges"
  shows "scc_inv edges G t"
  using assms unfolding scc_inv_def by (elim conjE) (intro conjI; assumption)

lemma descending_distinct: "sorted_wrt (\<lambda>a b. f b < f a) xs \<Longrightarrow> distinct xs"
  for f :: "'a \<Rightarrow> nat"
  by (induction xs) auto

lemma pop_component_eq:
  "x \<notin> set new \<Longrightarrow> pop_component x (new @ x # old) on component
     = (old, filter (\<lambda>n. n \<notin> insert x (set new)) on, component @ new @ [x])"
  by (induction new arbitrary: on component) (auto simp: bs_remove_def intro: filter_cong)

text \<open>
  A node whose lowlink fell below its index stays on the stack: an open node below it is
  reached, so its own call may end.
\<close>

lemma leave_open:
  assumes inv: "visit_inv edges G x (set (successors edges x)) s new l t"
    and s: "scc_inv edges G s" and l: "l < next_index s"
  shows "connected edges G x s (new @ [x]) l t"
proof -
  note V = visit_invD [OF inv] and D = scc_invD [OF visit_invD(1) [OF inv]] and S = scc_invD [OF s]
  obtain w where w: "w \<in> set (scc_stack s)" "num s w = l" "(x, w) \<in> reach edges" using V(13) l by blast
  obtain g where g: "g \<in> G" "num s g \<le> num s w" "(w, g) \<in> reach edges" using S(10) [OF w(1)] by blast
  have gx: "num t g \<le> num t x" "(x, g) \<in> reach edges"
    using g w l V(5,8) S(3,6) by (auto intro: rtrancl_trans)
  have "\<exists>g \<in> G. num t g \<le> num t y \<and> (y, g) \<in> reach edges" if y: "y \<in> set (scc_stack t)" for y
  proof -
    obtain h where h: "h \<in> insert x G" "num t h \<le> num t y" "(y, h) \<in> reach edges" using D(10) [OF y] by blast
    then show ?thesis using gx g(1) by (cases "h = x") (auto intro: rtrancl_trans order_trans)
  qed
  then have low: "\<forall>y \<in> set (scc_stack t). \<exists>g \<in> G. num t g \<le> num t y \<and> (y, g) \<in> reach edges" by blast
  have fin: "\<forall>z \<in> seen t - G. \<forall>y. (z, y) \<in> waits edges \<longrightarrow> y \<in> seen t"
  proof (intro ballI allI impI)
    fix z y assume "z \<in> seen t - G" "(z, y) \<in> waits edges"
    then show "y \<in> seen t" using D(7) [of z y] V(15) [of y] by (cases "z = x") (auto simp: waits_def)
  qed
  have "G \<subseteq> set (scc_stack t)" using S(6) by (auto simp: V(9))
  from scc_inv_reopen [OF V(1) this fin low] have scc: "scc_inv edges G t" .
  show ?thesis
    unfolding connected_def
  proof (intro conjI)
    show "\<forall>z \<in> set (new @ [x]). \<forall>y \<in> set (scc_stack s). (z, y) \<in> waits edges \<longrightarrow> l \<le> num s y"
      using V(14,16) by (auto simp: waits_def)
    show "\<forall>n \<in> seen t - seen s. next_index s \<le> num t n" using V(7) by blast
    show "\<forall>n \<in> seen s. num t n = num s n \<and> bt_get (lowlinks t) n = bt_get (lowlinks s) n"
      using V(5,6) by blast
  qed (use scc V(3,4,9,11) w in auto)
qed

text \<open>
  A node whose lowlink is its index closes: what is above it on the stack and itself are
  mutually reachable, and together with the closed nodes they hold all they reach.
\<close>

lemma leave_root_scc:
  assumes inv: "visit_inv edges G x (set (successors edges x)) s new (next_index s) t"
    and s: "scc_inv edges G s" and G: "\<And>g. g \<in> G \<Longrightarrow> (g, x) \<in> reach edges"
  shows "insert x (set new) = scc_of edges x"
    and "\<And>z y. z \<in> insert x (set new) \<Longrightarrow> (z, y) \<in> waits edges \<Longrightarrow> y \<in> closed_nodes t \<union> insert x (set new)"
proof -
  note V = visit_invD [OF inv] and D = scc_invD [OF visit_invD(1) [OF inv]] and S = scc_invD [OF s]
  let ?C = "insert x (set new)"
  have st: "set (scc_stack t) = ?C \<union> set (scc_stack s)" by (auto simp: V(9))
  have disj: "?C \<inter> set (scc_stack s) = {}" and up: "n \<in> ?C \<Longrightarrow> num t x \<le> num t n" for n
    using D(4) V(2,10) by (auto simp: V(9) sorted_wrt_append)
  show closed: "y \<in> closed_nodes t \<union> ?C" if z: "z \<in> ?C" "(z, y) \<in> waits edges" for z y
  proof -
    have "z \<notin> G" if "z \<noteq> x" using z(1) disj S(6) that by blast
    then have y: "y \<in> seen t" using D(7) [of z y] z D(3) V(15) [of y] st by (cases "z = x") (auto simp: waits_def)
    have "y \<notin> set (scc_stack s)"
    proof
      assume y': "y \<in> set (scc_stack s)"
      have "next_index s \<le> num s y" using V(14,16) z y' by (auto simp: waits_def)
      with S(1) [of y] S(3) y' show False by fastforce
    qed
    with y st show ?thesis by (auto simp: closed_nodes_def)
  qed
  have mutual: "(x, z) \<in> reach edges \<and> (z, x) \<in> reach edges" if z: "z \<in> ?C" for z
  proof -
    have zs: "z \<in> set (scc_stack t)" "x \<in> set (scc_stack t)" using z st by auto
    obtain g where g: "g \<in> insert x G" "(z, g) \<in> reach edges" using D(10) [OF zs(1)] by blast
    then have "(z, x) \<in> reach edges" using G by (auto intro: rtrancl_trans)
    with D(9) [OF zs(2,1) up [OF z]] show ?thesis by simp
  qed
  show "?C = scc_of edges x"
  proof
    show "?C \<subseteq> scc_of edges x" using mutual by (auto simp: scc_of_def)
    show "scc_of edges x \<subseteq> ?C"
    proof
      fix w assume w: "w \<in> scc_of edges x"
      then have w': "(x, w) \<in> reach edges" "(w, x) \<in> reach edges" by (simp_all add: scc_of_def)
      have "w \<in> closed_nodes t \<union> ?C"
        by (rule closed_reach [OF w'(1)]) (use closed D(8) in blast)+
      moreover have "w \<notin> closed_nodes t"
      proof
        assume "w \<in> closed_nodes t"
        from closed_reach [OF w'(2) this D(8)] have "x \<in> closed_nodes t" .
        then show False by (simp add: closed_nodes_def V(9))
      qed
      ultimately show "w \<in> ?C" by blast
    qed
  qed
qed

lemma leave_root:
  assumes inv: "visit_inv edges G x (set (successors edges x)) s new (next_index s) t"
    and s: "scc_inv edges G s" and G: "\<And>g. g \<in> G \<Longrightarrow> (g, x) \<in> reach edges"
  shows "connected edges G x s [] (next_index s) (close_root x t)"
proof -
  note V = visit_invD [OF inv] and D = scc_invD [OF visit_invD(1) [OF inv]] and S = scc_invD [OF s]
    and R = leave_root_scc [OF inv s G]
  let ?C = "insert x (set new)" and ?c = "sort (new @ [x])"
  have srt: "sorted_wrt (\<lambda>a b. num t b < num t a) (new @ x # scc_stack s)" using D(4) by (simp add: V(9))
  have irr: "distinct (new @ x # scc_stack s)"
    using srt by (rule descending_distinct)
  define u where "u = close_root x t"
  have low: "bt_get (lowlinks t) x = bt_get (indices t) x"
    using V(3,8,11) by (auto simp: num_def bt_get_contains)
  have pop: "pop_component x (scc_stack t) (on_stack t) []
      = (scc_stack s, filter (\<lambda>n. n \<notin> ?C) (on_stack t), new @ [x])"
    using irr by (simp add: V(9) pop_component_eq)
  have u: "scc_stack u = scc_stack s" "on_stack u = filter (\<lambda>n. n \<notin> ?C) (on_stack t)"
    "scc_found u = scc_found t @ [?c]" "indices u = indices t" "lowlinks u = lowlinks t"
    "next_index u = next_index t"
    using low pop by (simp_all add: u_def close_root_def)
  have nu: "num u = num t" by (simp add: num_def u fun_eq_iff)
  have cl: "closed_nodes u = closed_nodes t \<union> ?C"
    using irr D(3) by (auto simp: closed_nodes_def u V(9))
  have new: "?c \<notin> set (scc_found t)"
  proof
    assume "?c \<in> set (scc_found t)"
    then have "x \<in> \<Union> (set ` set (scc_found t))" by (rule UN_I) simp
    then have "x \<in> closed_nodes t" by (simp only: D(11))
    then show False by (simp add: closed_nodes_def V(9))
  qed
  have numS: "num t n = num s n" if "n \<in> set (scc_stack s)" for n using V(5,10) that by blast
  have "scc_inv edges G u"
    unfolding scc_inv_def cl
  proof (intro conjI)
    show "\<forall>z \<in> seen u - G. \<forall>y. (z, y) \<in> waits edges \<longrightarrow> y \<in> seen u"
    proof (intro ballI allI impI)
      fix z y assume "z \<in> seen u - G" "(z, y) \<in> waits edges"
      then show "y \<in> seen u" using D(7) [of z y] V(15) [of y] by (cases "z = x") (auto simp: u waits_def)
    qed
    show "\<forall>z \<in> closed_nodes t \<union> ?C. \<forall>y. (z, y) \<in> waits edges \<longrightarrow> y \<in> closed_nodes t \<union> ?C"
      using D(8) R(2) by blast
    show "\<forall>c \<in> set (scc_found u). bs_wf c \<and> (\<exists>z. set c = scc_of edges z)"
      using D(12) R(1) irr by (auto simp: u bs_wf_iff)
    show "\<Union> (set ` set (scc_found u)) = closed_nodes t \<union> ?C" using D(11) by (auto simp: u)
    show "\<forall>z \<in> set (scc_stack u). \<forall>y \<in> set (scc_stack u). num u z \<le> num u y \<longrightarrow> (z, y) \<in> reach edges"
      using S(9) numS by (simp add: u nu)
    show "\<forall>y \<in> set (scc_stack u). \<exists>g \<in> G. num u g \<le> num u y \<and> (y, g) \<in> reach edges"
      using S(6,10) numS by (simp add: u nu) (metis subsetD)
    show "set (on_stack u) = set (scc_stack u)" using irr D(5) by (auto simp: u V(9))
    show "sorted_wrt (\<lambda>a b. num u b < num u a) (scc_stack u)"
      using srt by (simp add: u nu sorted_wrt_append)
  qed (use D(1,2,13) S(6) V(4,10) new in \<open>auto simp: u nu\<close>)
  moreover have "\<forall>n \<in> seen s. num u n = num s n \<and> bt_get (lowlinks u) n = bt_get (lowlinks s) n"
    using V(5,6) by (simp add: u nu)
  moreover have "\<forall>n \<in> seen u - seen s. next_index s \<le> num u n" using V(7) by (simp add: u nu)
  ultimately show ?thesis
    using V(3,4,8,11) unfolding connected_def u_def [symmetric] by (simp add: u nu)
qed

section \<open>The search is total and correct\<close>

lemma enter_low: "n \<noteq> x \<Longrightarrow> bt_get (lowlinks (enter x s)) n = bt_get (lowlinks s) n"
  by (simp add: enter_def)

lemma enter_visit:
  assumes "scc_inv edges G s" "x \<notin> seen s" "\<And>g. g \<in> G \<Longrightarrow> (g, x) \<in> reach edges"
  shows "visit_inv edges G x {} s [] (next_index s) (enter x s)"
  unfolding visit_inv_def
proof (intro conjI)
  show "\<forall>n \<in> seen s. num (enter x s) n = num s n
      \<and> bt_get (lowlinks (enter x s)) n = bt_get (lowlinks s) n"
    using assms(2) by (auto simp: enter_num enter_low)
  show "\<forall>n \<in> seen (enter x s) - seen s. next_index s \<le> num (enter x s) n"
    by (auto simp: enter_num enter_seen)
  show "num (enter x s) x = next_index s" by (simp add: enter_num)
qed (use enter_inv [OF assms] assms(2) scc_invD(3) [OF assms(1)] in \<open>auto simp: enter_def\<close>)

text \<open>With a frame for every node not seen yet a call returns, and does what it should.\<close>

lemma connect_ok:
  assumes U: "finite U" "\<forall>x \<in> U. \<forall>y. (x, y) \<in> waits edges \<longrightarrow> y \<in> U"
  shows "scc_inv edges G s \<Longrightarrow> x \<notin> seen s \<Longrightarrow> x \<in> U \<Longrightarrow> (\<And>g. g \<in> G \<Longrightarrow> (g, x) \<in> reach edges)
    \<Longrightarrow> card (U - seen s) \<le> depth
    \<Longrightarrow> \<exists>t new l. connect depth edges x s = Some t \<and> connected edges G x s new l t"
proof (induction depth arbitrary: G x s)
  case 0
  then show ?case using U(1) by auto
next
  case (Suc depth)
  note start = enter_visit [OF Suc.prems(1,2,4)]
  have "U - seen (enter x s) = (U - seen s) - {x}" by (auto simp: enter_seen)
  moreover have "Suc (card ((U - seen s) - {x})) = card (U - seen s)"
    by (rule card_Suc_Diff1) (use U(1) Suc.prems(2,3) in auto)
  ultimately have "Suc (card (U - seen (enter x s))) = card (U - seen s)" by simp
  then have depth: "card (U - seen (enter x s)) \<le> depth" using Suc.prems(5) by simp
  have rec: "\<exists>t' new l. connect depth edges y t = Some t' \<and> connected edges (insert x G) y t new l t'"
    if "(x, y) \<in> waits edges" "y \<notin> seen t" "scc_inv edges (insert x G) t" "card (U - seen t) \<le> depth" for y t
  proof (rule Suc.IH [OF that(3,2) _ _ that(4)])
    show "y \<in> U" using U(2) Suc.prems(3) that(1) by blast
    show "(g, y) \<in> reach edges" if "g \<in> insert x G" for g
      using that Suc.prems(4) \<open>(x, y) \<in> waits edges\<close> by (auto intro: rtrancl_into_rtrancl)
  qed
  obtain t new l where t: "visit_successors (connect depth edges) x (successors edges x) (enter x s) = Some t"
      "visit_inv edges G x (set (successors edges x)) s new l t"
    using visit_successors_ok [OF rec U(1) start _ depth, of "successors edges x"] by (auto simp: waits_def)
  note V = visit_invD [OF t(2)]
  show ?case
  proof (cases "l = next_index s")
    case True
    with leave_root [OF _ Suc.prems(1,4), of new t] t show ?thesis by auto
  next
    case False
    then have l: "l < next_index s" using V(12) by simp
    then have "bt_get (lowlinks t) x \<noteq> bt_get (indices t) x" using V(8,11) by (auto simp: num_def dest: sym)
    then have "close_root x t = t" by (simp add: close_root_def)
    with leave_open [OF t(2) Suc.prems(1) l] t(1) show ?thesis by auto
  qed
qed

lemma no_open_calls:
  assumes "scc_inv edges {} s"
  shows "scc_stack s = []" "closed_nodes s = seen s"
  using scc_invD(10) [OF assms] by (auto simp: closed_nodes_def) (metis list.set_intros(1) neq_Nil_conv)+

lemma components_loop_ok:
  assumes U: "finite U" "\<forall>x \<in> U. \<forall>y. (x, y) \<in> waits edges \<longrightarrow> y \<in> U"
  shows "scc_inv edges {} s \<Longrightarrow> set nodes \<subseteq> U \<Longrightarrow> card U \<le> depth
    \<Longrightarrow> \<exists>t. components_loop depth edges nodes s = Some t \<and> scc_inv edges {} t \<and> set nodes \<union> seen s \<subseteq> seen t"
proof (induction nodes arbitrary: s)
  case (Cons x nodes)
  show ?case
  proof (cases "x \<in> seen s")
    case True
    with Cons show ?thesis by fastforce
  next
    case False
    have "card (U - seen s) \<le> depth" using Cons.prems(3) card_mono [OF U(1), of "U - seen s"] by auto
    with connect_ok [OF U Cons.prems(1) False _ _ this] Cons.prems(2)
    obtain t new l where t: "connect depth edges x s = Some t" "connected edges {} x s new l t" by auto
    note C = connectedD [OF t(2)]
    from Cons.IH [OF C(1)] Cons.prems obtain u where
      u: "components_loop depth edges nodes t = Some u" "scc_inv edges {} u" "set nodes \<union> seen t \<subseteq> seen u"
      by auto
    moreover have "set (x # nodes) \<union> seen s \<subseteq> seen u" using u(3) C(2,3) by auto
    ultimately show ?thesis using t(1) False by auto
  qed
qed simp

lemma scc_inv_default: "scc_inv edges {} SccSearcher_default"
  by (simp add: scc_inv_def SccSearcher_default_def closed_nodes_def)

lemma card_search_depth:
  "card (set nodes \<union> \<Union> (set ` snd ` set edges)) \<le> search_depth nodes edges"
proof -
  have "card (\<Union> (set ` snd ` set edges)) \<le> sum_list (map (length \<circ> snd) edges)"
  proof (induction edges)
    case (Cons e edges)
    have "card (set (snd e) \<union> \<Union> (set ` snd ` set edges)) \<le> length (snd e) + sum_list (map (length \<circ> snd) edges)"
      by (rule le_trans [OF card_Un_le]) (use Cons card_length [of "snd e"] in \<open>simp add: comp_def\<close>)
    then show ?case by (simp add: comp_def)
  qed simp
  moreover have "card (set nodes) \<le> length nodes" by (rule card_length)
  ultimately show ?thesis
    unfolding search_depth_def by (intro le_trans [OF card_Un_le] add_mono) simp_all
qed

text \<open>
  What the search returns: it always returns; each component is sorted and is a strongly
  connected component; none appears twice; every node asked about is in one.
\<close>

lemma components_ok:
  "\<exists>cs. components nodes edges = Some cs \<and> distinct cs
     \<and> (\<forall>c \<in> set cs. bs_wf c \<and> (\<exists>x. set c = scc_of edges x))
     \<and> (\<forall>n \<in> set nodes. \<exists>c \<in> set cs. set c = scc_of edges n)"
proof -
  let ?U = "set nodes \<union> \<Union> (set ` snd ` set edges)"
  have closed: "\<forall>x \<in> ?U. \<forall>y. (x, y) \<in> waits edges \<longrightarrow> y \<in> ?U"
    using bt_get_SomeD [of edges] by (force simp: waits_def successors_def split: option.splits)
  from components_loop_ok [OF _ closed scc_inv_default _ card_search_depth, of nodes]
  obtain t where t: "components_loop (search_depth nodes edges) edges nodes SccSearcher_default = Some t"
      "scc_inv edges {} t" "set nodes \<subseteq> seen t" by auto
  note D = scc_invD [OF t(2)]
  have "\<exists>c \<in> set (scc_found t). set c = scc_of edges n" if "n \<in> set nodes" for n
  proof -
    have "n \<in> \<Union> (set ` set (scc_found t))"
      unfolding D(11) using that t(3) no_open_calls [OF t(2)] by auto
    then obtain c where c: "c \<in> set (scc_found t)" "n \<in> set c" by blast
    with D(12) [OF c(1)] show ?thesis using scc_of_eq by metis
  qed
  with t(1) D(12,13) show ?thesis by (auto simp: components_def)
qed

end
