(* ===== verification/Frontier.thy ===== *)
theory Frontier
  imports Frontier_Search Plan
begin

text \<open>
  The frontier of \<^verbatim>\<open>core/frontier.rs\<close>: what is decidable now, over the blocking graph of
  decision tickets, plans and imported items. Every node lands in one of three maps, and the
  blocking cycles among the unresolved ones are named. The last section is the overview a
  surface renders.
\<close>

section \<open>The board\<close>

record FrontierNode =
  node_id :: NodeId
  node_kind :: NodeKind
  node_provenance :: Provenance

record FoggedNode =
  fogged_node :: FrontierNode
  waits_on :: "NodeId btree_set"

record FrontierBoard =
  board_frontier :: "(NodeId, FrontierNode) btree_map"
  board_fog :: "(NodeId, FoggedNode) btree_map"
  board_settled :: "(NodeId, FrontierNode) btree_map"
  board_cycles :: "NodeId list list"

definition plan_is_settled :: "PlanWorkflow \<Rightarrow> bool" where
  "plan_is_settled plan = (case stage plan of
      PlanStage.Approved _ _ \<Rightarrow> True | PlanStage.Rejected _ _ \<Rightarrow> True | PlanStage.Handoff _ _ \<Rightarrow> True
    | _ \<Rightarrow> False)"

text \<open>The three accumulators of the loops: the nodes, the resolved ids and the in-edges.\<close>

record BlockingGraph =
  graph_nodes :: "(NodeId, FrontierNode) btree_map"
  graph_resolved :: "NodeId btree_set"
  in_edges :: Edges

text \<open>\<^verbatim>\<open>in_edges.entry(id).or_default().insert(blocker)\<close>.\<close>

definition add_edge :: "NodeId \<Rightarrow> NodeId \<Rightarrow> Edges \<Rightarrow> Edges" where
  "add_edge i blocker m = bt_insert i (bs_insert blocker (successors m i)) m"

definition add_node :: "FrontierNode \<Rightarrow> bool \<Rightarrow> NodeId list \<Rightarrow> BlockingGraph \<Rightarrow> BlockingGraph" where
  "add_node node is_resolved blockers g = g\<lparr>
     graph_nodes := bt_insert (node_id node) node (graph_nodes g),
     graph_resolved := (if is_resolved then bs_insert (node_id node) (graph_resolved g)
       else graph_resolved g),
     in_edges := fold (add_edge (node_id node)) blockers (in_edges g)\<rparr>"

definition add_ticket :: "DecisionTicketRecord \<Rightarrow> BlockingGraph \<Rightarrow> BlockingGraph" where
  "add_ticket record = add_node
     \<lparr>node_id = NodeId.Decision (ticket_id (ticket record)), node_kind = NodeKind.Decision,
      node_provenance = MjolnrGoverned\<rparr>
     (resolution record \<noteq> None) (map NodeId.Decision (ticket_blocked_by (ticket record)))"

definition add_plan :: "PlanWorkflow \<Rightarrow> BlockingGraph \<Rightarrow> BlockingGraph" where
  "add_plan plan = add_node
     \<lparr>node_id = NodeId.Plan (plan_id plan), node_kind = NodeKind.Implementation,
      node_provenance = MjolnrGoverned\<rparr>
     (plan_is_settled plan) []"

definition add_item :: "ImportedItem \<Rightarrow> BlockingGraph \<Rightarrow> BlockingGraph" where
  "add_item item = add_node
     \<lparr>node_id = NodeId.Imported (item_id item), node_kind = NodeKind.Implementation,
      node_provenance = ExternalUnverified\<rparr>
     (is_terminal (item_state item)) (item_blocked_by item)"

definition blocking_graph ::
  "(DecisionTicketId, DecisionTicketRecord) btree_map \<Rightarrow> PlanWorkflow list
     \<Rightarrow> (ImportedItemId, ImportedItem) btree_map \<Rightarrow> BlockingGraph" where
  "blocking_graph tickets plans imported =
     fold add_item (bt_values imported) (fold add_plan plans (fold add_ticket (bt_values tickets)
       \<lparr>graph_nodes = [], graph_resolved = [], in_edges = []\<rparr>))"

text \<open>The edges kept are those of an unresolved node to an unresolved blocker.\<close>

definition open_edges :: "NodeId btree_set \<Rightarrow> NodeId btree_set \<Rightarrow> Edges \<Rightarrow> Edges" where
  "open_edges unresolved resolved edges = List.map_filter
     (\<lambda>node. map_option (\<lambda>blockers. (node, filter (\<lambda>blocker. blocker \<notin> set resolved) blockers))
        (bt_get edges node))
     unresolved"

definition surface_cycles ::
  "NodeId btree_set \<Rightarrow> NodeId btree_set \<Rightarrow> Edges \<Rightarrow> NodeId list list option" where
  "surface_cycles unresolved resolved edges =
     map_option (\<lambda>found. sort (filter (\<lambda>component. length component > 1) found))
       (components unresolved (open_edges unresolved resolved edges))"

definition place_node ::
  "NodeId btree_set \<Rightarrow> Edges \<Rightarrow> NodeId \<times> FrontierNode \<Rightarrow> FrontierBoard \<Rightarrow> FrontierBoard" where
  "place_node resolved edges = (\<lambda>(i, node) board.
     if i \<in> set resolved
     then board\<lparr>board_settled := bt_insert i node (board_settled board)\<rparr>
     else (let w = filter (\<lambda>blocker. blocker \<notin> set resolved) (successors edges i) in
       if w = [] then board\<lparr>board_frontier := bt_insert i node (board_frontier board)\<rparr>
       else board\<lparr>board_fog :=
         bt_insert i \<lparr>fogged_node = node, waits_on = w\<rparr> (board_fog board)\<rparr>))"

definition compute_frontier ::
  "(DecisionTicketId, DecisionTicketRecord) btree_map \<Rightarrow> PlanWorkflow list
     \<Rightarrow> (ImportedItemId, ImportedItem) btree_map \<Rightarrow> FrontierBoard option" where
  "compute_frontier tickets plans imported =
     (let g = blocking_graph tickets plans imported;
          unresolved = filter (\<lambda>i. i \<notin> set (graph_resolved g)) (bt_keys (graph_nodes g)) in
      map_option (\<lambda>cycles. fold (place_node (graph_resolved g) (in_edges g)) (graph_nodes g)
          \<lparr>board_frontier = [], board_fog = [], board_settled = [], board_cycles = cycles\<rparr>)
        (surface_cycles unresolved (graph_resolved g) (in_edges g)))"

section \<open>The recorded state, read directly\<close>

definition recorded_nodes ::
  "(DecisionTicketId, DecisionTicketRecord) btree_map \<Rightarrow> PlanWorkflow list
     \<Rightarrow> (ImportedItemId, ImportedItem) btree_map \<Rightarrow> NodeId set" where
  "recorded_nodes tickets plans imported =
     (\<lambda>r. NodeId.Decision (ticket_id (ticket r))) ` set (bt_values tickets)
     \<union> (\<lambda>p. NodeId.Plan (plan_id p)) ` set plans
     \<union> (\<lambda>i. NodeId.Imported (item_id i)) ` set (bt_values imported)"

definition resolved_nodes ::
  "(DecisionTicketId, DecisionTicketRecord) btree_map \<Rightarrow> PlanWorkflow list
     \<Rightarrow> (ImportedItemId, ImportedItem) btree_map \<Rightarrow> NodeId set" where
  "resolved_nodes tickets plans imported =
     {NodeId.Decision (ticket_id (ticket r)) | r. r \<in> set (bt_values tickets) \<and> resolution r \<noteq> None}
     \<union> {NodeId.Plan (plan_id p) | p. p \<in> set plans \<and> plan_is_settled p}
     \<union> {NodeId.Imported (item_id i) | i. i \<in> set (bt_values imported) \<and> is_terminal (item_state i)}"

definition blocked_on ::
  "(DecisionTicketId, DecisionTicketRecord) btree_map \<Rightarrow> (ImportedItemId, ImportedItem) btree_map
     \<Rightarrow> NodeId \<Rightarrow> NodeId set" where
  "blocked_on tickets imported a =
     {NodeId.Decision b | b r. r \<in> set (bt_values tickets)
        \<and> a = NodeId.Decision (ticket_id (ticket r)) \<and> b \<in> set (ticket_blocked_by (ticket r))}
     \<union> {b. \<exists>i \<in> set (bt_values imported). a = NodeId.Imported (item_id i) \<and> b \<in> set (item_blocked_by i)}"

text \<open>What a node waits on, as the board says it.\<close>

definition board_waits :: "FrontierBoard \<Rightarrow> (NodeId \<times> NodeId) set" where
  "board_waits board = {(a, b). \<exists>f. bt_get (board_fog board) a = Some f \<and> b \<in> set (waits_on f)}"

section \<open>The graph\<close>

definition graph_ok :: "BlockingGraph \<Rightarrow> bool" where
  "graph_ok g \<longleftrightarrow> bt_wf (graph_nodes g)
     \<and> (\<forall>i node. bt_get (graph_nodes g) i = Some node \<longrightarrow>
          node = \<lparr>node_id = i, node_kind = NodeId_kind i, node_provenance = NodeId_provenance i\<rparr>)
     \<and> set (graph_resolved g) \<subseteq> {i. bt_contains (graph_nodes g) i}
     \<and> (\<forall>i. successors (in_edges g) i \<noteq> [] \<longrightarrow> bt_contains (graph_nodes g) i)"

lemma successors_add_edge:
  "set (successors (add_edge i b m) j) = set (successors m j) \<union> (if j = i then {b} else {})"
  by (auto simp: add_edge_def successors_def)

lemma successors_add_edges:
  "set (successors (fold (add_edge i) bs m) j)
     = set (successors m j) \<union> (if j = i then set bs else {})"
  by (induction bs arbitrary: m) (auto simp: successors_add_edge)

lemma add_node_graph:
  assumes "graph_ok g" "node = \<lparr>node_id = i, node_kind = NodeId_kind i, node_provenance = NodeId_provenance i\<rparr>"
  shows "graph_ok (add_node node is_resolved blockers g)"
    and "bt_contains (graph_nodes (add_node node is_resolved blockers g)) j \<longleftrightarrow> j = i \<or> bt_contains (graph_nodes g) j"
    and "j \<in> set (graph_resolved (add_node node is_resolved blockers g))
      \<longleftrightarrow> j = i \<and> is_resolved \<or> j \<in> set (graph_resolved g)"
    and "set (successors (in_edges (add_node node is_resolved blockers g)) j)
      = set (successors (in_edges g) j) \<union> (if j = i then set blockers else {})"
proof -
  show s: "set (successors (in_edges (add_node node is_resolved blockers g)) j)
      = set (successors (in_edges g) j) \<union> (if j = i then set blockers else {})" for j
    using assms(2) by (simp add: add_node_def successors_add_edges)
  have "successors (in_edges (add_node node is_resolved blockers g)) j = []
      \<longleftrightarrow> successors (in_edges g) j = [] \<and> (j = i \<longrightarrow> blockers = [])" for j
    using s [of j] by (auto simp: set_empty [symmetric] simp del: set_empty)
  then show "graph_ok (add_node node is_resolved blockers g)"
    using assms unfolding graph_ok_def by (auto simp: add_node_def)
qed (use assms(2) in \<open>auto simp: add_node_def\<close>)

text \<open>The three loops, as one over what they add.\<close>

definition ticket_entry :: "DecisionTicketRecord \<Rightarrow> NodeId \<times> bool \<times> NodeId list" where
  "ticket_entry r = (NodeId.Decision (ticket_id (ticket r)), resolution r \<noteq> None,
     map NodeId.Decision (ticket_blocked_by (ticket r)))"

definition plan_entry :: "PlanWorkflow \<Rightarrow> NodeId \<times> bool \<times> NodeId list" where
  "plan_entry p = (NodeId.Plan (plan_id p), plan_is_settled p, [])"

definition item_entry :: "ImportedItem \<Rightarrow> NodeId \<times> bool \<times> NodeId list" where
  "item_entry i = (NodeId.Imported (item_id i), is_terminal (item_state i), item_blocked_by i)"

definition add_entry :: "NodeId \<times> bool \<times> NodeId list \<Rightarrow> BlockingGraph \<Rightarrow> BlockingGraph" where
  "add_entry e = (case e of (i, is_resolved, blockers) \<Rightarrow> add_node
     \<lparr>node_id = i, node_kind = NodeId_kind i, node_provenance = NodeId_provenance i\<rparr>
     is_resolved blockers)"

lemma add_as_entries:
  "add_ticket = add_entry \<circ> ticket_entry" "add_plan = add_entry \<circ> plan_entry"
  "add_item = add_entry \<circ> item_entry"
  by (auto simp: fun_eq_iff add_entry_def add_ticket_def add_plan_def add_item_def ticket_entry_def
      plan_entry_def item_entry_def NodeId_kind_def NodeId_provenance_def)

lemma fold_entries:
  assumes "graph_ok g"
  shows "graph_ok (fold add_entry es g)"
    and "bt_contains (graph_nodes (fold add_entry es g)) j
      \<longleftrightarrow> (\<exists>e \<in> set es. fst e = j) \<or> bt_contains (graph_nodes g) j"
    and "j \<in> set (graph_resolved (fold add_entry es g))
      \<longleftrightarrow> (\<exists>e \<in> set es. fst e = j \<and> fst (snd e)) \<or> j \<in> set (graph_resolved g)"
    and "b \<in> set (successors (in_edges (fold add_entry es g)) j)
      \<longleftrightarrow> b \<in> set (successors (in_edges g) j) \<or> (\<exists>e \<in> set es. fst e = j \<and> b \<in> set (snd (snd e)))"
proof -
  have step: "graph_ok (add_entry e g)"
    "bt_contains (graph_nodes (add_entry e g)) j \<longleftrightarrow> fst e = j \<or> bt_contains (graph_nodes g) j"
    "j \<in> set (graph_resolved (add_entry e g)) \<longleftrightarrow> fst e = j \<and> fst (snd e) \<or> j \<in> set (graph_resolved g)"
    "b \<in> set (successors (in_edges (add_entry e g)) j)
      \<longleftrightarrow> b \<in> set (successors (in_edges g) j) \<or> fst e = j \<and> b \<in> set (snd (snd e))"
    if "graph_ok g" for e g
    using add_node_graph [OF that refl, where i = "fst e" and is_resolved = "fst (snd e)"
        and blockers = "snd (snd e)"]
    by (auto simp: add_entry_def split_beta split: if_splits)
  show "graph_ok (fold add_entry es g)"
    using assms by (induction es arbitrary: g) (simp_all add: step)
  show "bt_contains (graph_nodes (fold add_entry es g)) j
      \<longleftrightarrow> (\<exists>e \<in> set es. fst e = j) \<or> bt_contains (graph_nodes g) j"
    using assms by (induction es arbitrary: g) (simp_all add: step disj_ac)
  show "j \<in> set (graph_resolved (fold add_entry es g))
      \<longleftrightarrow> (\<exists>e \<in> set es. fst e = j \<and> fst (snd e)) \<or> j \<in> set (graph_resolved g)"
    using assms by (induction es arbitrary: g) (simp_all add: step disj_ac)
  show "b \<in> set (successors (in_edges (fold add_entry es g)) j)
      \<longleftrightarrow> b \<in> set (successors (in_edges g) j) \<or> (\<exists>e \<in> set es. fst e = j \<and> b \<in> set (snd (snd e)))"
    using assms by (induction es arbitrary: g) (simp_all add: step disj_ac)
qed

lemma blocking_graph_ok:
  "graph_ok (blocking_graph tickets plans imported)"
  "{j. bt_contains (graph_nodes (blocking_graph tickets plans imported)) j} = recorded_nodes tickets plans imported"
  "set (graph_resolved (blocking_graph tickets plans imported)) = resolved_nodes tickets plans imported"
  "set (successors (in_edges (blocking_graph tickets plans imported)) a) = blocked_on tickets imported a"
proof -
  let ?es = "map ticket_entry (bt_values tickets) @ map plan_entry plans @ map item_entry (bt_values imported)"
  let ?empty = "\<lparr>graph_nodes = [], graph_resolved = [], in_edges = []\<rparr> :: BlockingGraph"
  have eq: "blocking_graph tickets plans imported = fold add_entry ?es ?empty"
    by (simp add: blocking_graph_def add_as_entries fold_map)
  have "graph_ok ?empty" by (simp add: graph_ok_def successors_def)
  note F = fold_entries [OF this, where es = ?es, folded eq]
  let ?g = "blocking_graph tickets plans imported"
  show "graph_ok ?g" by (rule F(1))
  show "{j. bt_contains (graph_nodes ?g) j} = recorded_nodes tickets plans imported"
    by (auto simp: F(2) recorded_nodes_def ticket_entry_def plan_entry_def item_entry_def bex_Un)
  show "set (graph_resolved ?g) = resolved_nodes tickets plans imported"
    by (rule set_eqI, unfold F(3) resolved_nodes_def)
      (auto simp: ticket_entry_def plan_entry_def item_entry_def bex_Un)
  show "set (successors (in_edges ?g) a) = blocked_on tickets imported a"
    by (rule set_eqI, unfold F(4) blocked_on_def)
      (auto simp: ticket_entry_def plan_entry_def item_entry_def bex_Un successors_def)
qed

section \<open>The three maps\<close>

lemma map_of_map_filter:
  "map_of (List.map_filter (\<lambda>n. map_option (\<lambda>v. (n, h v)) (f n)) xs) n
     = (if n \<in> set xs then map_option h (f n) else None)"
  by (induction xs) (auto simp: map_filter_simps split: option.split)

lemma successors_open_edges:
  "successors (open_edges unresolved resolved edges) n
     = (if n \<in> set unresolved then filter (\<lambda>b. b \<notin> set resolved) (successors edges n) else [])"
  by (auto simp: successors_def open_edges_def bt_get_def map_of_map_filter split: option.split)

lemma place_nodes:
  assumes "distinct (map fst nodes)"
  shows "bt_get (board_settled (fold (place_node resolved edges) nodes board)) n
      = (if n \<in> fst ` set nodes \<and> n \<in> set resolved then map_of nodes n else bt_get (board_settled board) n)"
    and "bt_get (board_frontier (fold (place_node resolved edges) nodes board)) n
      = (if n \<in> fst ` set nodes \<and> n \<notin> set resolved
            \<and> filter (\<lambda>b. b \<notin> set resolved) (successors edges n) = []
         then map_of nodes n else bt_get (board_frontier board) n)"
    and "bt_get (board_fog (fold (place_node resolved edges) nodes board)) n
      = (if n \<in> fst ` set nodes \<and> n \<notin> set resolved
            \<and> filter (\<lambda>b. b \<notin> set resolved) (successors edges n) \<noteq> []
         then Some \<lparr>fogged_node = the (map_of nodes n),
                waits_on = filter (\<lambda>b. b \<notin> set resolved) (successors edges n)\<rparr>
         else bt_get (board_fog board) n)"
    and "board_cycles (fold (place_node resolved edges) nodes board) = board_cycles board"
proof -
  let ?step = "place_node resolved edges"
  show "bt_get (board_settled (fold ?step nodes board)) n
      = (if n \<in> fst ` set nodes \<and> n \<in> set resolved then map_of nodes n else bt_get (board_settled board) n)"
    using assms by (induction nodes arbitrary: board) (force simp: place_node_def Let_def)+
  show "bt_get (board_frontier (fold ?step nodes board)) n
      = (if n \<in> fst ` set nodes \<and> n \<notin> set resolved
            \<and> filter (\<lambda>b. b \<notin> set resolved) (successors edges n) = []
         then map_of nodes n else bt_get (board_frontier board) n)"
    using assms by (induction nodes arbitrary: board) (force simp: place_node_def Let_def)+
  show "bt_get (board_fog (fold ?step nodes board)) n
      = (if n \<in> fst ` set nodes \<and> n \<notin> set resolved
            \<and> filter (\<lambda>b. b \<notin> set resolved) (successors edges n) \<noteq> []
         then Some \<lparr>fogged_node = the (map_of nodes n),
                waits_on = filter (\<lambda>b. b \<notin> set resolved) (successors edges n)\<rparr>
         else bt_get (board_fog board) n)"
    using assms by (induction nodes arbitrary: board) (force simp: place_node_def Let_def)+
  show "board_cycles (fold ?step nodes board) = board_cycles board"
    by (induction nodes arbitrary: board) (auto simp: place_node_def Let_def)
qed

abbreviation node_of :: "NodeId \<Rightarrow> FrontierNode" where
  "node_of i \<equiv> \<lparr>node_id = i, node_kind = NodeId_kind i, node_provenance = NodeId_provenance i\<rparr>"

definition unresolved_nodes ::
  "(DecisionTicketId, DecisionTicketRecord) btree_map \<Rightarrow> PlanWorkflow list
     \<Rightarrow> (ImportedItemId, ImportedItem) btree_map \<Rightarrow> NodeId set" where
  "unresolved_nodes tickets plans imported
     = recorded_nodes tickets plans imported - resolved_nodes tickets plans imported"

text \<open>The blocking relation among what is still open.\<close>

definition open_waits ::
  "(DecisionTicketId, DecisionTicketRecord) btree_map \<Rightarrow> PlanWorkflow list
     \<Rightarrow> (ImportedItemId, ImportedItem) btree_map \<Rightarrow> (NodeId \<times> NodeId) set" where
  "open_waits tickets plans imported = {(a, b). a \<in> unresolved_nodes tickets plans imported
     \<and> b \<in> blocked_on tickets imported a \<and> b \<notin> resolved_nodes tickets plans imported}"

lemma scc_of_trancl:
  "a \<noteq> b \<Longrightarrow> b \<in> scc_of edges a \<longleftrightarrow> (a, b) \<in> (waits edges)\<^sup>+ \<and> (b, a) \<in> (waits edges)\<^sup>+"
  by (auto simp: scc_of_def rtrancl_eq_or_trancl)

lemma surface_cycles_ok:
  assumes "\<And>a b. (a, b) \<in> waits (open_edges unresolved resolved edges) \<Longrightarrow> a \<in> set unresolved"
  defines "W \<equiv> waits (open_edges unresolved resolved edges)"
  shows "\<exists>cycles. surface_cycles unresolved resolved edges = Some cycles
    \<and> sorted_wrt (<) cycles \<and> list_all (sorted_wrt (<)) cycles
    \<and> set ` set cycles = {{c. (a, c) \<in> W\<^sup>* \<and> (c, a) \<in> W\<^sup>*} | a b. a \<noteq> b \<and> (a, b) \<in> W\<^sup>+ \<and> (b, a) \<in> W\<^sup>+}"
proof -
  let ?E = "open_edges unresolved resolved edges"
  obtain cs where cs: "components unresolved ?E = Some cs" "distinct cs"
    and scc: "\<And>c. c \<in> set cs \<Longrightarrow> bs_wf c \<and> (\<exists>x. set c = scc_of ?E x)"
    and all: "\<And>n. n \<in> set unresolved \<Longrightarrow> \<exists>c \<in> set cs. set c = scc_of ?E n"
    using components_ok [of unresolved ?E] by auto
  let ?cycles = "sort (filter (\<lambda>c. length c > 1) cs)"
  have scc_eq: "scc_of ?E a = {c. (a, c) \<in> W\<^sup>* \<and> (c, a) \<in> W\<^sup>*}" for a
    by (simp add: scc_of_def W_def)
  have big: "c \<in> set cs \<and> length c > 1 \<Longrightarrow> \<exists>a b. a \<noteq> b \<and> (a, b) \<in> W\<^sup>+ \<and> (b, a) \<in> W\<^sup>+ \<and> set c = scc_of ?E a" for c
  proof -
    assume c: "c \<in> set cs \<and> length c > 1"
    then obtain x where x: "set c = scc_of ?E x" "distinct c" using scc [of c] by (auto simp: bs_wf_iff)
    obtain a b r where "c = a # b # r" using c by (cases c rule: remdups_adj.cases) auto
    with x have ab: "a \<noteq> b" "a \<in> set c" "b \<in> set c" by auto
    with x have "set c = scc_of ?E a" using scc_of_eq by blast
    with ab scc_of_trancl [OF ab(1)] show ?thesis unfolding W_def by blast
  qed
  have found: "\<exists>c \<in> set cs. length c > 1 \<and> set c = scc_of ?E a"
    if ab: "a \<noteq> b" "(a, b) \<in> W\<^sup>+" "(b, a) \<in> W\<^sup>+" for a b
  proof -
    obtain z where "(a, z) \<in> W" using ab(2) by (auto dest: tranclD)
    then have "a \<in> set unresolved" using assms(1) by (simp add: W_def)
    then obtain c where c: "c \<in> set cs" "set c = scc_of ?E a" using all by blast
    have "{a, b} \<subseteq> set c" using c(2) ab scc_of_trancl [OF ab(1), of ?E] by (simp add: W_def)
    then have "card {a, b} \<le> card (set c)" by (simp add: card_mono)
    also have "\<dots> \<le> length c" by (rule card_length)
    finally have "length c > 1" using ab(1) by simp
    with c show ?thesis by blast
  qed
  have "set ` set ?cycles = {{c. (a, c) \<in> W\<^sup>* \<and> (c, a) \<in> W\<^sup>*} | a b. a \<noteq> b \<and> (a, b) \<in> W\<^sup>+ \<and> (b, a) \<in> W\<^sup>+}"
    (is "?L = ?R")
  proof
    show "?L \<subseteq> ?R"
    proof
      fix C assume "C \<in> ?L"
      then obtain c where c: "C = set c" "c \<in> set cs \<and> length c > 1" by auto
      from big [OF c(2)] c(1) show "C \<in> ?R" unfolding scc_eq by blast
    qed
    show "?R \<subseteq> ?L"
    proof
      fix C assume "C \<in> ?R"
      then obtain a b where ab: "a \<noteq> b" "(a, b) \<in> W\<^sup>+" "(b, a) \<in> W\<^sup>+" "C = scc_of ?E a"
        unfolding scc_eq by blast
      from found [OF ab(1,2,3)] ab(4) show "C \<in> ?L" by auto
    qed
  qed
  moreover have "sorted_wrt (<) ?cycles" using cs(2) by (simp add: strict_sorted_iff)
  moreover have "list_all (sorted_wrt (<)) ?cycles" using scc by (auto simp: list_all_iff bs_wf_def)
  ultimately show ?thesis using cs(1) by (auto simp: surface_cycles_def)
qed

text \<open>What the board holds, in terms of the recorded state.\<close>

lemma compute_frontier_ok:
  obtains board where "compute_frontier tickets plans imported = Some board"
    and "bt_get (board_settled board) = (\<lambda>n. if n \<in> resolved_nodes tickets plans imported then Some (node_of n) else None)"
    and "bt_get (board_frontier board) = (\<lambda>n. if n \<in> unresolved_nodes tickets plans imported
        \<and> blocked_on tickets imported n \<subseteq> resolved_nodes tickets plans imported then Some (node_of n) else None)"
    and "map_option (\<lambda>f. (fogged_node f, set (waits_on f))) \<circ> bt_get (board_fog board)
      = (\<lambda>n. if n \<in> unresolved_nodes tickets plans imported
           \<and> \<not> blocked_on tickets imported n \<subseteq> resolved_nodes tickets plans imported
         then Some (node_of n, blocked_on tickets imported n - resolved_nodes tickets plans imported) else None)"
    and "board_waits board = open_waits tickets plans imported"
    and "sorted_wrt (<) (board_cycles board)" "list_all (sorted_wrt (<)) (board_cycles board)"
    and "set ` set (board_cycles board)
      = {{c. (a, c) \<in> (board_waits board)\<^sup>* \<and> (c, a) \<in> (board_waits board)\<^sup>*} | a b.
          a \<noteq> b \<and> (a, b) \<in> (board_waits board)\<^sup>+ \<and> (b, a) \<in> (board_waits board)\<^sup>+}"
proof -
  let ?g = "blocking_graph tickets plans imported"
  let ?R = "resolved_nodes tickets plans imported"
  let ?U = "filter (\<lambda>i. i \<notin> set (graph_resolved ?g)) (bt_keys (graph_nodes ?g))"
  note G = blocking_graph_ok [of tickets plans imported]
  have wf: "bt_wf (graph_nodes ?g)"
    and node: "\<And>i v. map_of (graph_nodes ?g) i = Some v \<Longrightarrow> v = node_of i"
    using G(1) by (auto simp: graph_ok_def bt_get_def)
  have keys: "fst ` set (graph_nodes ?g) = recorded_nodes tickets plans imported"
    using G(2) by (auto simp: bt_contains_iff)
  have get: "map_of (graph_nodes ?g) n = Some (node_of n)" if "n \<in> recorded_nodes tickets plans imported" for n
    using node [of n] that keys by (metis map_of_eq_None_iff not_None_eq)
  have sub: "?R \<subseteq> recorded_nodes tickets plans imported" using G(1,2,3) by (auto simp: graph_ok_def)
  have U: "set ?U = unresolved_nodes tickets plans imported"
    using keys G(3) by (auto simp: bt_keys_def unresolved_nodes_def)
  have flt: "set (filter (\<lambda>b. b \<notin> ?R) (successors (in_edges ?g) n))
      = blocked_on tickets imported n - ?R" for n
    using G(4) [of n] by auto
  have W: "waits (open_edges ?U (graph_resolved ?g) (in_edges ?g)) = open_waits tickets plans imported"
    unfolding waits_def successors_open_edges U
    unfolding open_waits_def G(3) using flt by (auto simp del: set_filter)
  obtain cycles where cycles: "surface_cycles ?U (graph_resolved ?g) (in_edges ?g) = Some cycles"
      "sorted_wrt (<) cycles" "list_all (sorted_wrt (<)) cycles"
      "set ` set cycles = {{c. (a, c) \<in> (open_waits tickets plans imported)\<^sup>* \<and> (c, a) \<in> (open_waits tickets plans imported)\<^sup>*} | a b.
          a \<noteq> b \<and> (a, b) \<in> (open_waits tickets plans imported)\<^sup>+ \<and> (b, a) \<in> (open_waits tickets plans imported)\<^sup>+}"
    using surface_cycles_ok [of ?U "graph_resolved ?g" "in_edges ?g", unfolded W U]
    by (auto simp: open_waits_def)
  let ?b = "fold (place_node (graph_resolved ?g) (in_edges ?g)) (graph_nodes ?g)
      \<lparr>board_frontier = [], board_fog = [], board_settled = [], board_cycles = cycles\<rparr>"
  note P = place_nodes [OF bt_wf_distinct [OF wf], of "graph_resolved ?g" "in_edges ?g"
      "\<lparr>board_frontier = [], board_fog = [], board_settled = [], board_cycles = cycles\<rparr>", unfolded G(3)]
  have empty: "filter (\<lambda>b. b \<notin> ?R) (successors (in_edges ?g) n) = []
      \<longleftrightarrow> blocked_on tickets imported n \<subseteq> ?R" for n
    using flt [of n] by (metis Diff_eq_empty_iff set_empty)
  have fog: "map_option (\<lambda>f. (fogged_node f, set (waits_on f))) \<circ> bt_get (board_fog ?b)
      = (\<lambda>n. if n \<in> unresolved_nodes tickets plans imported \<and> \<not> blocked_on tickets imported n \<subseteq> ?R
         then Some (node_of n, blocked_on tickets imported n - ?R) else None)"
    by (rule ext) (auto simp: P(3) keys empty flt get unresolved_nodes_def simp del: set_filter filter_empty_conv)
  have "board_waits ?b = open_waits tickets plans imported"
  proof -
    have w: "(a, b) \<in> board_waits ?b \<longleftrightarrow> (case (map_option (\<lambda>f. (fogged_node f, set (waits_on f)))
        \<circ> bt_get (board_fog ?b)) a of Some S \<Rightarrow> b \<in> snd S | None \<Rightarrow> False)" for a b
      by (auto simp: board_waits_def split: option.split)
    show ?thesis unfolding set_eq_iff split_paired_All w fog by (auto simp: open_waits_def)
  qed
  moreover have "bt_get (board_settled ?b) = (\<lambda>n. if n \<in> ?R then Some (node_of n) else None)"
    using sub by (intro ext) (auto simp: P(1) keys get)
  moreover have "bt_get (board_frontier ?b) = (\<lambda>n. if n \<in> unresolved_nodes tickets plans imported
        \<and> blocked_on tickets imported n \<subseteq> ?R then Some (node_of n) else None)"
    by (rule ext) (auto simp: P(2) keys empty get unresolved_nodes_def simp del: filter_empty_conv)
  moreover have "compute_frontier tickets plans imported = Some ?b"
    by (simp add: compute_frontier_def Let_def cycles(1))
  ultimately show thesis using that [of ?b] fog cycles(2,3,4) P(4) by simp
qed

section \<open>Properties\<close>

text \<open>
  C15: the board is the recorded state. Whatever the tickets, plans and imported items, the
  frontier is computed; the settled map holds exactly the resolved nodes, the frontier the
  unresolved ones all of whose blockers are resolved, and the fog the other unresolved ones,
  each with exactly its unresolved blockers. So every node is in one map and no other, and
  carries the kind and the provenance its address has.
\<close>

theorem frontier_is_recorded_state:
  "\<exists>board. compute_frontier tickets plans imported = Some board
     \<and> bt_get (board_settled board)
         = (\<lambda>n. if n \<in> resolved_nodes tickets plans imported then Some (node_of n) else None)
     \<and> bt_get (board_frontier board)
         = (\<lambda>n. if n \<in> recorded_nodes tickets plans imported - resolved_nodes tickets plans imported
               \<and> blocked_on tickets imported n \<subseteq> resolved_nodes tickets plans imported
             then Some (node_of n) else None)
     \<and> map_option (\<lambda>f. (fogged_node f, set (waits_on f))) \<circ> bt_get (board_fog board)
         = (\<lambda>n. if n \<in> recorded_nodes tickets plans imported - resolved_nodes tickets plans imported
               \<and> \<not> blocked_on tickets imported n \<subseteq> resolved_nodes tickets plans imported
             then Some (node_of n, blocked_on tickets imported n - resolved_nodes tickets plans imported)
             else None)"
  by (rule compute_frontier_ok [of tickets plans imported]) (auto simp: unresolved_nodes_def)

text \<open>
  C16: the cycles the board names are exactly the blocking cycles. Read off the fog, they are
  the strongly connected components of what waits on what that have two members or more,
  each in id order, in order, none twice; so two nodes that wait on each other, through
  whatever others, are always named together, and nothing else is.
\<close>

theorem cycles_are_components:
  "\<exists>board. compute_frontier tickets plans imported = Some board
     \<and> set ` set (board_cycles board)
         = {{c. (a, c) \<in> (board_waits board)\<^sup>* \<and> (c, a) \<in> (board_waits board)\<^sup>*} | a b.
             a \<noteq> b \<and> (a, b) \<in> (board_waits board)\<^sup>+ \<and> (b, a) \<in> (board_waits board)\<^sup>+}
     \<and> sorted_wrt (<) (board_cycles board) \<and> list_all (sorted_wrt (<)) (board_cycles board)"
  by (rule compute_frontier_ok [of tickets plans imported]) auto

text \<open>A finite set every member of which has a successor in it holds a cycle.\<close>

lemma finite_set_cycle:
  assumes "finite S" "n \<in> S" "\<And>x. x \<in> S \<Longrightarrow> \<exists>y \<in> S. (x, y) \<in> r"
  shows "\<exists>x \<in> S. (x, x) \<in> r\<^sup>+"
proof (rule ccontr)
  let ?q = "(r \<inter> S \<times> S)"
  assume no: "\<not> (\<exists>x \<in> S. (x, x) \<in> r\<^sup>+)"
  have "acyclic ?q"
  proof (rule acyclicI, rule allI, rule notI)
    fix x assume x: "(x, x) \<in> ?q\<^sup>+"
    then have "(x, x) \<in> r\<^sup>+" by (rule trancl_mono) blast
    moreover have "x \<in> S" using x by (auto dest: tranclD)
    ultimately show False using no by blast
  qed
  moreover have "finite ?q" using assms(1) by simp
  ultimately have "wf (?q\<inverse>)" by (rule finite_acyclic_wf_converse [rotated])
  then obtain z where "z \<in> S" "\<forall>y. (y, z) \<in> ?q\<inverse> \<longrightarrow> y \<notin> S" using assms(2) by (metis wf_eq_minimal)
  with assms(3) show False by blast
qed

lemma finite_open_nodes: "finite (recorded_nodes tickets plans imported)"
  by (simp add: recorded_nodes_def)

text \<open>
  C28: nothing on the board is stuck in silence. From every fogged node the blockers lead to a
  node that can be decided now, to a member of a cycle the board names, to a node that waits
  on itself, or to an address that nothing recorded.
\<close>

theorem fog_has_a_reason:
  "\<exists>board. compute_frontier tickets plans imported = Some board
     \<and> {n. bt_contains (board_fog board) n}
         \<subseteq> {n. \<exists>m. (n, m) \<in> (board_waits board)\<^sup>*
              \<and> (bt_contains (board_frontier board) m \<or> m \<in> \<Union> (set ` set (board_cycles board))
                 \<or> (m, m) \<in> board_waits board \<or> m \<in> - recorded_nodes tickets plans imported)}"
proof -
  let ?Rec = "recorded_nodes tickets plans imported" and ?R = "resolved_nodes tickets plans imported"
  obtain board where board: "compute_frontier tickets plans imported = Some board"
    and front: "bt_get (board_frontier board) = (\<lambda>n. if n \<in> unresolved_nodes tickets plans imported
        \<and> blocked_on tickets imported n \<subseteq> ?R then Some (node_of n) else None)"
    and fog: "map_option (\<lambda>f. (fogged_node f, set (waits_on f))) \<circ> bt_get (board_fog board)
      = (\<lambda>n. if n \<in> unresolved_nodes tickets plans imported \<and> \<not> blocked_on tickets imported n \<subseteq> ?R
         then Some (node_of n, blocked_on tickets imported n - ?R) else None)"
    and W: "board_waits board = open_waits tickets plans imported"
    and cyc: "set ` set (board_cycles board)
      = {{c. (a, c) \<in> (board_waits board)\<^sup>* \<and> (c, a) \<in> (board_waits board)\<^sup>*} | a b.
          a \<noteq> b \<and> (a, b) \<in> (board_waits board)\<^sup>+ \<and> (b, a) \<in> (board_waits board)\<^sup>+}"
    by (rule compute_frontier_ok [of tickets plans imported]) auto
  let ?W = "board_waits board"
  have fogged: "n \<in> unresolved_nodes tickets plans imported" if "bt_contains (board_fog board) n" for n
    using that fun_cong [OF fog, of n] by (auto simp: bt_get_contains split: if_splits)
  have out: "\<exists>m. (n, m) \<in> ?W\<^sup>* \<and> (bt_contains (board_frontier board) m
      \<or> m \<in> \<Union> (set ` set (board_cycles board)) \<or> (m, m) \<in> ?W \<or> m \<notin> ?Rec)"
    if n: "n \<in> unresolved_nodes tickets plans imported" for n
  proof (rule ccontr)
    let ?S = "{m. (n, m) \<in> ?W\<^sup>*}"
    assume "\<not> ?thesis"
    then have none: "\<not> bt_contains (board_frontier board) m" "m \<notin> \<Union> (set ` set (board_cycles board))"
        "(m, m) \<notin> ?W" "m \<in> ?Rec" if "m \<in> ?S" for m
      using that by auto
    have "m \<notin> ?R" if "m \<in> ?S" for m
    proof -
      from that have "(n, m) \<in> ?W\<^sup>*" by simp
      then show ?thesis using n by cases (auto simp: W open_waits_def unresolved_nodes_def)
    qed
    then have un: "m \<in> unresolved_nodes tickets plans imported" if "m \<in> ?S" for m
      using none(4) that by (auto simp: unresolved_nodes_def)
    have succ: "\<exists>k \<in> ?S. (m, k) \<in> ?W" if m: "m \<in> ?S" for m
    proof -
      from none(1) [OF m] un [OF m] obtain k where "k \<in> blocked_on tickets imported m" "k \<notin> ?R"
        by (auto simp: bt_contains_def front split: if_splits)
      with un [OF m] have "(m, k) \<in> ?W" by (auto simp: W open_waits_def)
      with m show ?thesis by (auto intro: rtrancl_into_rtrancl)
    qed
    have "?S \<subseteq> ?Rec" using none(4) by blast
    then have "finite ?S" using finite_open_nodes by (rule finite_subset)
    from finite_set_cycle [OF this _ succ, of n] obtain x where x: "x \<in> ?S" "(x, x) \<in> ?W\<^sup>+" by auto
    then obtain y where y: "(x, y) \<in> ?W" "(y, x) \<in> ?W\<^sup>*" by (auto dest: tranclD)
    with none(3) [OF x(1)] have "x \<noteq> y" by auto
    then have "{c. (x, c) \<in> ?W\<^sup>* \<and> (c, x) \<in> ?W\<^sup>*} \<in> set ` set (board_cycles board)"
      unfolding cyc using y by (auto simp: rtrancl_eq_or_trancl)
    moreover have "x \<in> {c. (x, c) \<in> ?W\<^sup>* \<and> (c, x) \<in> ?W\<^sup>*}" by simp
    ultimately show False using none(2) [OF x(1)] by blast
  qed
  show ?thesis using board out fogged by auto
qed

end
