(* ===== verification/Store.thy ===== *)
theory Store
  imports Event Contracts
begin

text \<open>
  The durable-store port (\<^verbatim>\<open>core/store.rs\<close>) and its volatile implementation
  (\<^verbatim>\<open>store/memory.rs\<close>): projects, sessions, their append-only events, checkpoints and write
  leases. A fresh id and the time of an operation are arguments. The mutex is not modelled:
  every operation holds it from its first read to its last write, so operations are atomic.
\<close>

section \<open>The port\<close>

datatype StoreError =
    Unavailable string
  | SequenceConflict SessionId u64 u64
  | SequenceGap SessionId u64
  | DuplicateEvent EventId
  | UnsupportedSchema u32 u32
  | SessionOwned SessionId string
  | UnknownSession SessionId
  | Decode string
  | Refused string

text \<open>What \<^verbatim>\<open>Display\<close> prints; a UUID is printed by the uuid crate.\<close>

definition StoreError_display :: "(uuid \<Rightarrow> string) \<Rightarrow> StoreError \<Rightarrow> string" where
  "StoreError_display show_uuid e = (case e of
      Unavailable detail \<Rightarrow> ''store unavailable: '' @ detail
    | SequenceConflict session expected found \<Rightarrow>
        ''event sequence conflict for session '' @ show_uuid (session_uuid session)
        @ '': expected '' @ show_u32 expected @ '', found '' @ show_u32 found
    | SequenceGap session missing \<Rightarrow>
        ''session '' @ show_uuid (session_uuid session) @ '' is missing event sequence ''
        @ show_u32 missing @ ''; stored history is incomplete''
    | DuplicateEvent i \<Rightarrow> ''duplicate event id '' @ show_uuid (event_uuid i)
    | UnsupportedSchema found supported \<Rightarrow>
        ''database schema version '' @ show_u32 found
        @ '' is newer than this build supports ('' @ show_u32 supported
        @ ''); upgrade mjolnr rather than risking a partial read''
    | SessionOwned session holder \<Rightarrow>
        ''session '' @ show_uuid (session_uuid session)
        @ '' is already open in another mjolnr process ('' @ holder @ '')''
    | UnknownSession session \<Rightarrow> ''unknown session '' @ show_uuid (session_uuid session)
    | Decode detail \<Rightarrow> ''stored data could not be decoded: '' @ detail
    | Refused detail \<Rightarrow> ''refused: '' @ detail)"

record SessionSummary =
  summary_id :: SessionId
  summary_root :: string
  summary_title :: string
  summary_status :: SessionStatus
  summary_provider :: "ProviderId option"
  summary_model :: "ModelId option"
  summary_created_at :: instant
  summary_updated_at :: instant
  event_count :: u64
  last_checkpoint_sequence :: "u64 option"
  summary_leased :: bool
  summary_parent :: "SessionId option"

record StoredCheckpoint =
  checkpoint_sequence :: u64
  stored_checkpoint :: SessionCheckpoint

record SessionLease =
  lease_session :: SessionId
  lease_token :: uuid

record BranchResume =
  covered_message_sequences :: "u64 list"
  resume_events :: "StoredEvent list"

record BranchSummary =
  branch_origin :: "string option"
  branch_turns :: nat
  branch_files_read :: "string list"
  branch_files_changed :: "string list"
  branch_commands :: "CommandFact list"
  branch_tool_failures :: nat

definition BranchSummary_default :: BranchSummary where
  "BranchSummary_default = \<lparr>branch_origin = None, branch_turns = 0, branch_files_read = [],
     branch_files_changed = [], branch_commands = [], branch_tool_failures = 0\<rparr>"

definition BranchSummary_is_empty :: "BranchSummary \<Rightarrow> bool" where
  "BranchSummary_is_empty b \<longleftrightarrow> branch_origin b = None \<and> branch_turns b = 0
     \<and> branch_files_read b = [] \<and> branch_files_changed b = [] \<and> branch_commands b = []
     \<and> branch_tool_failures b = 0"

section \<open>The volatile store\<close>

record MemorySession =
  mem_project :: ProjectId
  mem_title :: string
  mem_status :: SessionStatus
  mem_created_at :: instant
  mem_updated_at :: instant
  mem_events :: "StoredEvent list"
  mem_checkpoints :: "(u64, SessionCheckpoint) btree_map"
  mem_leased :: bool
  mem_parent :: "SessionId option"

text \<open>
  The roots are paths; the model orders them as byte strings, which only decides the order
  in which they are listed.
\<close>

record Inner =
  projects :: "(string, ProjectId) btree_map"
  sessions :: "(SessionId, MemorySession) btree_map"

definition Inner_default :: Inner where
  "Inner_default = \<lparr>projects = [], sessions = []\<rparr>"

definition InMemoryEventStore_len :: "Inner \<Rightarrow> nat" where
  "InMemoryEventStore_len st = sum_list (map (\<lambda>s. length (mem_events s)) (bt_values (sessions st)))"

text \<open>\<^verbatim>\<open>or_default\<close> of a project id mints the fresh one.\<close>

definition store_open_project :: "uuid \<Rightarrow> string \<Rightarrow> Inner \<Rightarrow> ProjectId \<times> Inner" where
  "store_open_project fresh root st = (case bt_get (projects st) root of
      Some i \<Rightarrow> (i, st)
    | None \<Rightarrow> (ProjectId fresh,
        st\<lparr>projects := bt_insert root (ProjectId fresh) (projects st)\<rparr>))"

definition store_create_session ::
  "instant \<Rightarrow> SessionId \<Rightarrow> ProjectId \<Rightarrow> string \<Rightarrow> SessionId option \<Rightarrow> Inner \<Rightarrow> Inner" where
  "store_create_session now session project title parent st =
     st\<lparr>sessions := bt_insert session
       \<lparr>mem_project = project, mem_title = title, mem_status = Active, mem_created_at = now,
        mem_updated_at = now, mem_events = [], mem_checkpoints = [], mem_leased = False,
        mem_parent = parent\<rparr> (sessions st)\<rparr>"

text \<open>
  The operations that change an existing session and refuse an unknown one: the entry is
  replaced by what the function makes of it.
\<close>

definition with_session ::
  "SessionId \<Rightarrow> (MemorySession \<Rightarrow> MemorySession) \<Rightarrow> Inner \<Rightarrow> (Inner, StoreError) result" where
  "with_session session f st =
     (if bt_contains (sessions st) session
      then Inr (st\<lparr>sessions := bt_modify session f (sessions st)\<rparr>)
      else Inl (UnknownSession session))"

definition store_end_session :: "instant \<Rightarrow> SessionId \<Rightarrow> Inner \<Rightarrow> (Inner, StoreError) result" where
  "store_end_session now session =
     with_session session (\<lambda>e. e\<lparr>mem_status := Ended, mem_updated_at := now\<rparr>)"

definition store_rename_session ::
  "instant \<Rightarrow> SessionId \<Rightarrow> string \<Rightarrow> Inner \<Rightarrow> (Inner, StoreError) result" where
  "store_rename_session now session title =
     with_session session (\<lambda>e. e\<lparr>mem_title := title, mem_updated_at := now\<rparr>)"

definition store_append ::
  "EventId \<Rightarrow> instant \<Rightarrow> MjolnrEvent \<Rightarrow> Inner \<Rightarrow> (StoredEvent \<times> Inner, StoreError) result" where
  "store_append i now event st =
     and_then (ok_or (UnknownSession (event_session event))
       (bt_get (sessions st) (event_session event))) (\<lambda>entry.
     let stored = \<lparr>stored_id = i, stored_sequence = of_nat (length (mem_events entry)),
           occurred_at = now, stored_event = event\<rparr> in
     Inr (stored, st\<lparr>sessions := bt_modify (event_session event)
       (\<lambda>e. e\<lparr>mem_events := mem_events e @ [stored], mem_updated_at := now\<rparr>) (sessions st)\<rparr>))"

definition store_events_from :: "SessionId \<Rightarrow> u64 \<Rightarrow> Inner \<Rightarrow> StoredEvent list" where
  "store_events_from session from st = (case bt_get (sessions st) session of
      Some entry \<Rightarrow> filter (\<lambda>stored. stored_sequence stored \<ge> from) (mem_events entry)
    | None \<Rightarrow> [])"

definition store_events :: "SessionId \<Rightarrow> Inner \<Rightarrow> StoredEvent list" where
  "store_events session st = store_events_from session 0 st"

text \<open>
  The defaults of the port for a store without a tree: appending after a parent is appending,
  the active leaf is not kept, and the only branch is the whole history.
\<close>

definition store_append_after ::
  "EventId \<Rightarrow> instant \<Rightarrow> MjolnrEvent \<Rightarrow> u64 option \<Rightarrow> Inner \<Rightarrow> (StoredEvent \<times> Inner, StoreError) result"
where
  "store_append_after i now event parent st = store_append i now event st"

definition store_set_active_leaf :: "SessionId \<Rightarrow> u64 option \<Rightarrow> Inner \<Rightarrow> Inner" where
  "store_set_active_leaf session sequence st = st"

definition store_branch_events :: "SessionId \<Rightarrow> Inner \<Rightarrow> StoredEvent list" where
  "store_branch_events session st = store_events session st"

definition store_branch_events_from :: "SessionId \<Rightarrow> u64 \<Rightarrow> Inner \<Rightarrow> BranchResume option" where
  "store_branch_events_from session from st = Some \<lparr>
     covered_message_sequences = map stored_sequence
       (filter (\<lambda>stored. stored_sequence stored < from \<and> introduces_message (stored_event stored))
         (store_events session st)),
     resume_events = store_events_from session from st\<rparr>"

definition store_branch_summary :: "SessionId \<Rightarrow> u64 \<Rightarrow> Inner \<Rightarrow> BranchSummary" where
  "store_branch_summary session leaf st = BranchSummary_default"

definition store_write_checkpoint ::
  "SessionCheckpoint \<Rightarrow> Inner \<Rightarrow> (u64 \<times> Inner, StoreError) result" where
  "store_write_checkpoint cp st =
     and_then (ok_or (UnknownSession (cp_session cp)) (bt_get (sessions st) (cp_session cp)))
       (\<lambda>entry. let covered = of_nat (length (mem_events entry)) in
     Inr (covered, st\<lparr>sessions := bt_modify (cp_session cp)
       (\<lambda>e. e\<lparr>mem_checkpoints := bt_insert covered cp (mem_checkpoints e)\<rparr>) (sessions st)\<rparr>))"

definition store_latest_checkpoint :: "SessionId \<Rightarrow> Inner \<Rightarrow> StoredCheckpoint option" where
  "store_latest_checkpoint session st = (case bt_get (sessions st) session of
      None \<Rightarrow> None
    | Some entry \<Rightarrow> (case rev (mem_checkpoints entry) of
        [] \<Rightarrow> None
      | (sequence, cp) # _ \<Rightarrow> Some \<lparr>checkpoint_sequence = sequence, stored_checkpoint = cp\<rparr>))"

definition store_acquire_session ::
  "(uuid \<Rightarrow> string) \<Rightarrow> uuid \<Rightarrow> SessionId \<Rightarrow> Inner \<Rightarrow> (SessionLease \<times> Inner, StoreError) result" where
  "store_acquire_session show_uuid token session st =
     and_then (ok_or (UnknownSession session) (bt_get (sessions st) session)) (\<lambda>entry.
     if mem_status entry = Ended
     then Inl (Unavailable (''session '' @ show_uuid (session_uuid session)
       @ '' has ended and cannot be leased''))
     else Inr (\<lparr>lease_session = session, lease_token = token\<rparr>,
       st\<lparr>sessions := bt_modify session (\<lambda>e. e\<lparr>mem_leased := True\<rparr>) (sessions st)\<rparr>))"

definition store_break_lease :: "SessionId \<Rightarrow> Inner \<Rightarrow> Inner" where
  "store_break_lease session st =
     st\<lparr>sessions := bt_modify session (\<lambda>e. e\<lparr>mem_leased := False\<rparr>) (sessions st)\<rparr>"

definition store_release_session :: "SessionLease \<Rightarrow> Inner \<Rightarrow> Inner" where
  "store_release_session lease st =
     st\<lparr>sessions := bt_modify (lease_session lease) (\<lambda>e. e\<lparr>mem_leased := False\<rparr>) (sessions st)\<rparr>"

text \<open>The most recent provider and model the session announced.\<close>

definition announced_model :: "StoredEvent \<Rightarrow> (ProviderId \<times> ModelId) option" where
  "announced_model stored = (case stored_event stored of
      MjolnrEvent.SessionCreated _ provider model \<Rightarrow> Some (provider, model)
    | MjolnrEvent.ModelChanged _ provider model \<Rightarrow> Some (provider, model)
    | _ \<Rightarrow> None)"

definition active_model :: "StoredEvent list \<Rightarrow> (ProviderId \<times> ModelId) option" where
  "active_model events = (case List.map_filter announced_model (rev events) of
      [] \<Rightarrow> None | pm # _ \<Rightarrow> Some pm)"

text \<open>A root is found by its project; the newest session is listed first.\<close>

definition project_roots :: "Inner \<Rightarrow> (ProjectId, string) btree_map" where
  "project_roots st = fold (\<lambda>(root, i) m. bt_insert i root m) (projects st) []"

definition session_summary_of ::
  "(ProjectId, string) btree_map \<Rightarrow> SessionId \<times> MemorySession \<Rightarrow> SessionSummary" where
  "session_summary_of roots = (\<lambda>(i, s).
     let provider_model = active_model (mem_events s) in
     \<lparr>summary_id = i,
      summary_root = (case bt_get roots (mem_project s) of Some r \<Rightarrow> r | None \<Rightarrow> []),
      summary_title = mem_title s, summary_status = mem_status s,
      summary_provider = map_option fst provider_model,
      summary_model = map_option snd provider_model,
      summary_created_at = mem_created_at s, summary_updated_at = mem_updated_at s,
      event_count = of_nat (length (mem_events s)),
      last_checkpoint_sequence = map_option fst
        (case rev (mem_checkpoints s) of [] \<Rightarrow> None | kv # _ \<Rightarrow> Some kv),
      summary_leased = mem_leased s, summary_parent = mem_parent s\<rparr>)"

definition list_sessions :: "Inner \<Rightarrow> SessionSummary list" where
  "list_sessions st = map (session_summary_of (project_roots st)) (rev (sessions st))"

section \<open>Append-only logs\<close>

text \<open>
  What the runtime relies on of any store of events: an append that succeeds adds one event
  to the log of its session, numbered by the length of that log, and touches no other log.
  A log is contiguous if every event is numbered by its position.
\<close>

definition contiguous :: "StoredEvent list \<Rightarrow> bool" where
  "contiguous es \<longleftrightarrow> map stored_sequence es = map of_nat [0..<length es]"

lemma contiguous_Nil [simp]: "contiguous []"
  by (simp add: contiguous_def)

lemma contiguous_snoc:
  "contiguous (es @ [s]) \<longleftrightarrow> contiguous es \<and> stored_sequence s = of_nat (length es)"
  by (auto simp: contiguous_def)

lemma contiguous_nth: "contiguous es \<Longrightarrow> i < length es \<Longrightarrow> stored_sequence (es ! i) = of_nat i"
  unfolding contiguous_def by (metis add_0 nth_map_upt nth_map length_map length_upt diff_zero nth_upt)

lemma contiguous_append: "contiguous (xs @ ys) \<Longrightarrow> contiguous xs"
  by (induction ys rule: rev_induct) (simp_all add: contiguous_snoc flip: append_assoc)

text \<open>
  As long as a log is shorter than the sequence type is wide, the events from a count on are
  the log without its first events.
\<close>

lemma of_nat_le_64: "a < 2 ^ 64 \<Longrightarrow> b < 2 ^ 64 \<Longrightarrow> (of_nat a :: u64) \<le> of_nat b \<longleftrightarrow> a \<le> b"
  by (simp add: word_le_nat_alt unat_of_nat)

lemma filter_from_drop:
  "contiguous es \<Longrightarrow> length es < 2 ^ 64 \<Longrightarrow> n \<le> length es \<Longrightarrow>
     filter (\<lambda>s. stored_sequence s \<ge> of_nat n) es = drop n es"
proof (induction es rule: rev_induct)
  case Nil
  then show ?case by simp
next
  case (snoc s es)
  then have s: "stored_sequence s = of_nat (length es)" and c: "contiguous es"
    by (simp_all add: contiguous_snoc)
  have le: "(of_nat n :: u64) \<le> of_nat (length es) \<longleftrightarrow> n \<le> length es"
    using snoc.prems by (intro of_nat_le_64) auto
  show ?case
  proof (cases "n \<le> length es")
    case True
    with snoc s c le show ?thesis by simp
  next
    case False
    then have n: "n = Suc (length es)" using snoc.prems by simp
    have small: "filter (\<lambda>s. stored_sequence s \<ge> of_nat n) es = []"
    proof -
      have "\<not> (of_nat n :: u64) \<le> stored_sequence x" if "x \<in> set es" for x
      proof -
        from that obtain i where i: "i < length es" "x = es ! i" by (auto simp: in_set_conv_nth)
        then have "stored_sequence x = of_nat i" using contiguous_nth [OF c] by simp
        moreover have "\<not> (of_nat n :: u64) \<le> of_nat i"
          using of_nat_le_64 [of n i] i n snoc.prems by simp
        ultimately show ?thesis by simp
      qed
      then show ?thesis by (simp add: filter_empty_conv)
    qed
    with False le s n show ?thesis by simp
  qed
qed

lemma filter_before_take:
  "contiguous es \<Longrightarrow> length es < 2 ^ 64 \<Longrightarrow> n \<le> length es \<Longrightarrow>
     filter (\<lambda>s. stored_sequence s < of_nat n) es = take n es"
proof -
  assume a: "contiguous es" "length es < 2 ^ 64" "n \<le> length es"
  have before: "stored_sequence x < of_nat n" if "x \<in> set (take n es)" for x
  proof -
    from that obtain i where i: "i < n" "x = es ! i" using a(3) by (auto simp: in_set_conv_nth)
    with a show ?thesis
      using contiguous_nth [OF a(1), of i] of_nat_le_64 [of n i] by (simp add: not_le [symmetric])
  qed
  have after: "\<not> stored_sequence x < of_nat n" if "x \<in> set (drop n es)" for x
  proof -
    from that filter_from_drop [OF a]
    have "x \<in> set (filter (\<lambda>s. stored_sequence s \<ge> of_nat n) es)" by simp
    then show ?thesis by (simp add: not_less)
  qed
  have "filter (\<lambda>s. stored_sequence s < of_nat n) (take n es @ drop n es) = take n es"
    unfolding filter_append using before after by (simp add: filter_id_conv filter_empty_conv)
  then show ?thesis by (simp only: append_take_drop_id)
qed

locale event_log =
  fixes log :: "'st \<Rightarrow> SessionId \<Rightarrow> StoredEvent list"
    and add :: "'a \<Rightarrow> MjolnrEvent \<Rightarrow> 'st \<Rightarrow> (StoredEvent \<times> 'st, StoreError) result"
  assumes add_log: "add x e st = Inr (s, st') \<Longrightarrow>
      log st' = (log st)(event_session e := log st (event_session e) @ [s])"
    and add_numbered: "add x e st = Inr (s, st') \<Longrightarrow>
      stored_event s = e \<and> stored_sequence s = of_nat (length (log st (event_session e)))"
begin

lemma add_contiguous:
  "add x e st = Inr (s, st') \<Longrightarrow> contiguous (log st i) \<Longrightarrow> contiguous (log st' i)"
  using add_log [of x e st s st'] add_numbered [of x e st s st'] by (auto simp: contiguous_snoc)

lemma add_grows: "add x e st = Inr (s, st') \<Longrightarrow> \<exists>new. log st' i = log st i @ new"
  using add_log [of x e st s st'] by auto

lemma adds_contiguous:
  "replay (\<lambda>(x, e) st. map_ok snd (add x e st)) es st = Inr st' \<Longrightarrow> contiguous (log st i) \<Longrightarrow>
     contiguous (log st' i)"
proof (induction es arbitrary: st)
  case (Cons xe es)
  obtain x e where xe: "xe = (x, e)" by (cases xe)
  from Cons.prems(1) xe obtain s u where u: "add x e st = Inr (s, u)"
    and r: "replay (\<lambda>(x, e) st. map_ok snd (add x e st)) es u = Inr st'"
    by (auto simp: and_then_Inr map_ok_Inr)
  show ?case by (rule Cons.IH [OF r]) (rule add_contiguous [OF u Cons.prems(2)])
qed simp

end

text \<open>The log of a session in the volatile store.\<close>

definition mem_log :: "Inner \<Rightarrow> SessionId \<Rightarrow> StoredEvent list" where
  "mem_log st i = (case bt_get (sessions st) i of Some e \<Rightarrow> mem_events e | None \<Rightarrow> [])"

lemma events_from_log: "store_events_from i n st = filter (\<lambda>s. stored_sequence s \<ge> n) (mem_log st i)"
  by (simp add: store_events_from_def mem_log_def split: option.split)

lemma store_events_log: "store_events i st = mem_log st i"
  by (simp add: store_events_def events_from_log)

interpretation memory: event_log mem_log "\<lambda>(i, now). store_append i now"
  by unfold_locales
    (auto simp: store_append_def mem_log_def and_then_Inr Let_def ok_or_def fun_eq_iff
      split: option.splits prod.splits)

section \<open>Any use of the store\<close>

datatype StoreOp =
    OpOpenProject uuid string
  | OpCreate instant SessionId ProjectId string "SessionId option"
  | OpEnd instant SessionId
  | OpRename instant SessionId string
  | OpAppend EventId instant MjolnrEvent
  | OpCheckpoint SessionCheckpoint
  | OpAcquire "uuid \<Rightarrow> string" uuid SessionId
  | OpRelease SessionLease
  | OpBreak SessionId

text \<open>An operation that is refused changes nothing.\<close>

definition or_unchanged :: "Inner \<Rightarrow> (Inner, StoreError) result \<Rightarrow> Inner" where
  "or_unchanged st r = (case r of Inl _ \<Rightarrow> st | Inr st' \<Rightarrow> st')"

fun store_step :: "StoreOp \<Rightarrow> Inner \<Rightarrow> Inner" where
  "store_step (OpOpenProject i root) st = snd (store_open_project i root st)"
| "store_step (OpCreate now i p t parent) st = store_create_session now i p t parent st"
| "store_step (OpEnd now i) st = or_unchanged st (store_end_session now i st)"
| "store_step (OpRename now i t) st = or_unchanged st (store_rename_session now i t st)"
| "store_step (OpAppend i now e) st = or_unchanged st (map_ok snd (store_append i now e st))"
| "store_step (OpCheckpoint cp) st = or_unchanged st (map_ok snd (store_write_checkpoint cp st))"
| "store_step (OpAcquire sh t i) st = or_unchanged st (map_ok snd (store_acquire_session sh t i st))"
| "store_step (OpRelease lease) st = store_release_session lease st"
| "store_step (OpBreak i) st = store_break_lease i st"

text \<open>Every session is created under an id the store does not know yet.\<close>

fun creates_fresh :: "StoreOp list \<Rightarrow> Inner \<Rightarrow> bool" where
  "creates_fresh [] st = True"
| "creates_fresh (op # ops) st =
     ((case op of OpCreate _ i _ _ _ \<Rightarrow> \<not> bt_contains (sessions st) i | _ \<Rightarrow> True)
      \<and> creates_fresh ops (store_step op st))"

lemma mem_log_modify [simp]:
  "(\<And>e. mem_events (f e) = mem_events e) \<Longrightarrow>
     mem_log (st\<lparr>sessions := bt_modify j f (sessions st)\<rparr>) i = mem_log st i"
  by (auto simp: mem_log_def split: option.splits)

lemma mem_log_projects [simp]: "mem_log (st\<lparr>projects := p\<rparr>) i = mem_log st i"
  by (simp add: mem_log_def)

lemma store_step_log:
  assumes "case op of OpCreate _ j _ _ _ \<Rightarrow> \<not> bt_contains (sessions st) j | _ \<Rightarrow> True"
  shows "(\<exists>new. mem_log (store_step op st) i = mem_log st i @ new)
    \<and> (contiguous (mem_log st i) \<longrightarrow> contiguous (mem_log (store_step op st) i))"
proof (cases op)
  case (OpAppend j now e)
  show ?thesis
  proof (cases "store_append j now e st")
    case (Inr x)
    obtain s st' where "x = (s, st')" by (cases x)
    with Inr OpAppend memory.add_grows [of "(j, now)" e st s st' i]
      memory.add_contiguous [of "(j, now)" e st s st' i]
    show ?thesis by (auto simp: or_unchanged_def)
  qed (simp add: OpAppend or_unchanged_def)
next
  case (OpCreate now j p t parent)
  with assms show ?thesis
    by (auto simp: store_create_session_def mem_log_def bt_contains_def split: option.splits)
next
  case (OpOpenProject j root)
  then show ?thesis by (auto simp: store_open_project_def split: option.splits)
next
  case (OpCheckpoint cp)
  then show ?thesis
    by (auto simp: store_write_checkpoint_def or_unchanged_def Let_def ok_or_def split: option.splits)
next
  case (OpAcquire sh t j)
  then show ?thesis
    by (auto simp: store_acquire_session_def or_unchanged_def ok_or_def split: option.splits)
qed (auto simp: store_end_session_def store_rename_session_def with_session_def or_unchanged_def
    store_release_session_def store_break_lease_def)

section \<open>Properties\<close>

text \<open>
  C27: history is append-only. However the store is used, as long as sessions are created under
  fresh ids, what a session has recorded stays as the beginning of its log, and its events
  are numbered 0, 1, 2 and so on without a gap.
\<close>

theorem history_is_append_only:
  "creates_fresh ops st \<Longrightarrow> contiguous (mem_log st i) \<Longrightarrow>
     (\<exists>new. mem_log (fold store_step ops st) i = mem_log st i @ new)
     \<and> contiguous (mem_log (fold store_step ops st) i)"
proof (induction ops arbitrary: st)
  case (Cons op ops)
  then have f: "case op of OpCreate _ j _ _ _ \<Rightarrow> \<not> bt_contains (sessions st) j | _ \<Rightarrow> True"
    "creates_fresh ops (store_step op st)"
    by simp_all
  from store_step_log [OF f(1), of i] Cons.prems(2) obtain new where
    "mem_log (store_step op st) i = mem_log st i @ new" "contiguous (mem_log (store_step op st) i)"
    by blast
  with Cons.IH [OF f(2)] show ?case by auto
qed simp

theorem history_is_append_only_witness:
  "let ops = [OpCreate 0 (SessionId 1) (ProjectId 2) [] None,
       OpAppend (EventId 3) 1 (MjolnrEvent.SessionEnded (SessionId 1))] in
   contiguous (mem_log (fold store_step ops Inner_default) (SessionId 1))
     \<and> length (mem_log (fold store_step ops Inner_default) (SessionId 1)) = 1"
  using history_is_append_only [of "[OpCreate 0 (SessionId 1) (ProjectId 2) [] None,
       OpAppend (EventId 3) 1 (MjolnrEvent.SessionEnded (SessionId 1))]" Inner_default "SessionId 1"]
  by (auto simp: Inner_default_def mem_log_def store_create_session_def store_append_def
      or_unchanged_def event_session_def bt_get_def bt_contains_def Let_def)

text \<open>
  Creating a session under an id that is known replaces the session: its events and
  checkpoints are gone.
\<close>

lemma create_again_erases:
  "mem_log (store_create_session now i p t parent st) i = []"
  by (simp add: store_create_session_def mem_log_def)

end
