(* ===== verification/Board_View.thy ===== *)
theory Board_View
  imports Frontier Session Store
begin

text \<open>
  How the board reaches a surface: the labelled overview of \<^verbatim>\<open>core/frontier.rs\<close>, the query of
  \<^verbatim>\<open>runtime/handle.rs\<close> that rebuilds the records of every session of the workspace and folds
  them into one board, and the projection of \<^verbatim>\<open>runtime/client_bridge/board.rs\<close> onto the wire
  types of \<^verbatim>\<open>core/client/board.rs\<close>, which refuses a board over its limits.
\<close>

section \<open>The overview\<close>

record BoardNodeView =
  view_id :: NodeId
  view_kind :: NodeKind
  view_provenance :: Provenance
  view_label :: string

record FoggedNodeView =
  fogged_view :: BoardNodeView
  view_waits_on :: "BoardNodeView list"

record BoardOverview =
  imported_tasks :: Items
  imported_acts :: Acts
  overview_frontier :: "BoardNodeView list"
  overview_fog :: "FoggedNodeView list"
  overview_settled :: "BoardNodeView list"
  overview_cycles :: "BoardNodeView list list"

type_synonym Labels = "(NodeId, string) btree_map"

text \<open>A UUID is printed by the uuid crate: \<^verbatim>\<open>show_uuid\<close>.\<close>

definition render_node_id :: "(uuid \<Rightarrow> string) \<Rightarrow> NodeId \<Rightarrow> string" where
  "render_node_id show_uuid i = (case i of
      NodeId.Decision t \<Rightarrow> show_uuid (ticket_uuid t)
    | NodeId.Plan p \<Rightarrow> ''plan '' @ show_uuid (plan_uuid p)
    | NodeId.Imported m \<Rightarrow> ''imported '' @ show_uuid (item_uuid m))"

definition label_of :: "(uuid \<Rightarrow> string) \<Rightarrow> Labels \<Rightarrow> NodeId \<Rightarrow> string" where
  "label_of show_uuid labels i = (case bt_get labels i of
      Some label \<Rightarrow> label | None \<Rightarrow> render_node_id show_uuid i)"

definition node_view :: "(uuid \<Rightarrow> string) \<Rightarrow> Labels \<Rightarrow> FrontierNode \<Rightarrow> BoardNodeView" where
  "node_view show_uuid labels node =
     \<lparr>view_id = node_id node, view_kind = node_kind node, view_provenance = node_provenance node,
      view_label = label_of show_uuid labels (node_id node)\<rparr>"

definition ref_view ::
  "(uuid \<Rightarrow> string) \<Rightarrow> Labels \<Rightarrow> NodeId \<Rightarrow> (NodeId, FrontierNode) btree_map \<Rightarrow> BoardNodeView" where
  "ref_view show_uuid labels i known =
     (let (kind, prov) = (case bt_get known i of
          None \<Rightarrow> (NodeKind.Decision, MjolnrGoverned)
        | Some node \<Rightarrow> (node_kind node, node_provenance node)) in
      \<lparr>view_id = i, view_kind = kind, view_provenance = prov, view_label = label_of show_uuid labels i\<rparr>)"

definition bt_extend :: "('k::linorder \<times> 'v) list \<Rightarrow> ('k, 'v) btree_map \<Rightarrow> ('k, 'v) btree_map" where
  "bt_extend entries m = fold (\<lambda>(k, v). bt_insert k v) entries m"

definition known_nodes :: "FrontierBoard \<Rightarrow> (NodeId, FrontierNode) btree_map" where
  "known_nodes board =
     bt_extend (map (\<lambda>(i, fogged). (i, fogged_node fogged)) (board_fog board))
       (bt_extend (board_settled board) (bt_extend (board_frontier board) []))"

definition from_frontier :: "(uuid \<Rightarrow> string) \<Rightarrow> FrontierBoard \<Rightarrow> Labels \<Rightarrow> BoardOverview" where
  "from_frontier show_uuid board labels =
     (let known = known_nodes board in
      \<lparr>imported_tasks = [], imported_acts = [],
       overview_frontier = map (node_view show_uuid labels) (bt_values (board_frontier board)),
       overview_fog = map (\<lambda>fogged. \<lparr>fogged_view = node_view show_uuid labels (fogged_node fogged),
           view_waits_on = map (\<lambda>i. ref_view show_uuid labels i known) (waits_on fogged)\<rparr>)
         (bt_values (board_fog board)),
       overview_settled = map (node_view show_uuid labels) (bt_values (board_settled board)),
       overview_cycles = map (map (\<lambda>i. ref_view show_uuid labels i known)) (board_cycles board)\<rparr>)"

section \<open>The query\<close>

text \<open>A plan's label: the title of its active proposal, else of its last.\<close>

definition plan_label :: "PlanWorkflow \<Rightarrow> string option" where
  "plan_label plan = map_option proposal_title
     (case (case active_revision plan of
         Some r \<Rightarrow> find (\<lambda>p. proposal_revision_id p = r) (proposals plan) | None \<Rightarrow> None) of
       Some p \<Rightarrow> Some p
     | None \<Rightarrow> (if proposals plan = [] then None else Some (last (proposals plan))))"

record BoardRecords =
  br_labels :: Labels
  br_tickets :: Tickets
  br_plans :: "PlanWorkflow list"
  br_imported :: Items
  br_acts :: Acts

definition BoardRecords_empty :: BoardRecords where
  "BoardRecords_empty = \<lparr>br_labels = [], br_tickets = [], br_plans = [], br_imported = [], br_acts = []\<rparr>"

text \<open>What one rebuilt session adds.\<close>

definition add_session_records :: "SessionState \<Rightarrow> BoardRecords \<Rightarrow> BoardRecords" where
  "add_session_records st br =
     (let br = fold (\<lambda>(i, record) br. br\<lparr>
            br_tickets := bt_insert i record (br_tickets br),
            br_labels := bt_insert (NodeId.Decision i) (ticket_question (ticket record)) (br_labels br)\<rparr>)
          (st_tickets st) br;
          br = fold (\<lambda>(i, item) br. br\<lparr>
            br_imported := bt_insert i item (br_imported br),
            br_labels := bt_insert (NodeId.Imported i) (item_title item) (br_labels br)\<rparr>)
          (st_items st) br;
          br = br\<lparr>br_acts := bt_extend (st_acts st) (br_acts br)\<rparr> in
      case st_plan st of
        None \<Rightarrow> br
      | Some plan \<Rightarrow> (case plan_label plan of
            Some label \<Rightarrow> br\<lparr>br_labels := bt_insert (NodeId.Plan (plan_id plan)) label (br_labels br),
              br_plans := br_plans br @ [plan]\<rparr>
          | None \<Rightarrow> br\<lparr>br_plans := br_plans br @ [plan]\<rparr>))"

fun gather_records ::
  "Inner \<Rightarrow> SessionSummary list \<Rightarrow> BoardRecords \<Rightarrow> (BoardRecords, ReplayRefusal) result" where
  "gather_records store [] br = Inr br"
| "gather_records store (summary # rest) br =
     and_then (rebuild_durable_records_from (store_branch_events (summary_id summary) store)
         SessionState_default)
       (\<lambda>st. gather_records store rest (add_session_records st br))"

datatype BoardDetail = BoardNeedsWorkspace

text \<open>
  A session that cannot be rebuilt refuses the board with the text of \<^verbatim>\<open>StoreError::Decode\<close>;
  \<^verbatim>\<open>replay_text\<close> is the sentence of the refusal. The search for cycles returns for every
  graph, so the last branch is never taken.
\<close>

definition query_board ::
  "(uuid \<Rightarrow> string) \<Rightarrow> (ReplayRefusal \<Rightarrow> string) \<Rightarrow> string option \<Rightarrow> Inner
     \<Rightarrow> (BoardOverview, BoardDetail MjolnrError) result option" where
  "query_board show_uuid replay_text workspace_root store = (case workspace_root of
      None \<Rightarrow> Some (Inl (MjolnrError.WorkspaceRefused ReasonCode.WorkspaceCapabilityUnavailable
        BoardNeedsWorkspace))
    | Some root \<Rightarrow>
        (case gather_records store (filter (\<lambda>s. summary_root s = root) (list_sessions store))
            BoardRecords_empty of
          Inl refusal \<Rightarrow> Some (Inl (MjolnrError.Store
            (StoreError_display show_uuid (StoreError.Decode (replay_text refusal)))))
        | Inr br \<Rightarrow> map_option (\<lambda>board.
            Inr ((from_frontier show_uuid board (br_labels br))
              \<lparr>imported_tasks := br_imported br, imported_acts := br_acts br\<rparr>))
            (compute_frontier (br_tickets br) (br_plans br) (br_imported br))))"

section \<open>The wire\<close>

definition MAX_BOARD_NODES :: nat where "MAX_BOARD_NODES = 512"
definition MAX_BOARD_BLOCKERS_PER_FOGGED :: nat where "MAX_BOARD_BLOCKERS_PER_FOGGED = 64"
definition MAX_BOARD_CYCLES :: nat where "MAX_BOARD_CYCLES = 64"
definition MAX_BOARD_IMPORTED_TASKS :: nat where "MAX_BOARD_IMPORTED_TASKS = 512"
definition MAX_BOARD_IMPORTED_ACTS :: nat where "MAX_BOARD_IMPORTED_ACTS = 512"

datatype TrustClass =
  TrustClass_MjolnrGoverned | TrustClass_OperatorControlled | TrustClass_ExternalUnverified

record ClientBoardNode =
  cb_id :: string
  cb_kind :: string
  cb_provenance :: TrustClass
  cb_label :: string

record ClientImportedTask =
  ct_board_id :: string
  ct_integration :: string
  ct_remote_id :: string
  ct_source_url :: string
  ct_fetched_revision :: string
  ct_title :: string
  ct_state :: string

record ClientImportedAct =
  ca_act_id :: string
  ca_item_board_id :: string
  ca_kind :: string
  ca_expected_revision :: string
  ca_head_branch :: string
  ca_base_branch :: string
  ca_outcome :: string
  ca_remote_url :: "string option"

record ClientFoggedNode =
  cf_node :: ClientBoardNode
  cf_waits_on :: "ClientBoardNode list"

record ClientBoardOverview =
  cbo_imported_tasks :: "ClientImportedTask list"
  cbo_imported_acts :: "ClientImportedAct list"
  cbo_frontier :: "ClientBoardNode list"
  cbo_fog :: "ClientFoggedNode list"
  cbo_settled :: "ClientBoardNode list"
  cbo_cycles :: "ClientBoardNode list list"

datatype 'd ClientBridgeError =
    InvalidInput ReasonCode string 'd
  | BridgeRuntimeClosed
  | RuntimeRefused "ReasonCode option" 'd
  | ClientGone

text \<open>The refusals of the projection, with the count each prints.\<close>

datatype BoardWireRefusal =
  TooManyNodes nat | TooManyCycles nat | TooManyTasks nat | TooManyActs nat

text \<open>What serde writes for the state: its name in kebab case.\<close>

definition item_state_text :: "ImportedItemState \<Rightarrow> string" where
  "item_state_text s = (case s of
      ImportedItemState.Open \<Rightarrow> ''open'' | ImportedItemState.Closed \<Rightarrow> ''closed''
    | ImportedItemState.Merged \<Rightarrow> ''merged'' | ImportedItemState.Done \<Rightarrow> ''done''
    | ImportedItemState.Unknown \<Rightarrow> ''unknown'')"

definition task_to_client :: "(uuid \<Rightarrow> string) \<Rightarrow> ImportedItem \<Rightarrow> ClientImportedTask" where
  "task_to_client show_uuid item = \<lparr>ct_board_id = show_uuid (item_uuid (item_id item)),
     ct_integration = integration item, ct_remote_id = remote_id item,
     ct_source_url = source_url item, ct_fetched_revision = fetched_revision item,
     ct_title = item_title item, ct_state = item_state_text (item_state item)\<rparr>"

definition act_to_client :: "(uuid \<Rightarrow> string) \<Rightarrow> ImportedAct \<Rightarrow> ClientImportedAct" where
  "act_to_client show_uuid act =
     (let (word, url) = (case act_outcome act of
         Submitted remote_url \<Rightarrow> (''submitted'', Some remote_url)
       | Uncertain \<Rightarrow> (''uncertain'', None)) in
      \<lparr>ca_act_id = show_uuid (act_uuid (act_id act)),
       ca_item_board_id = show_uuid (item_uuid (act_item_id act)),
       ca_kind = (case act_kind act of PullRequest \<Rightarrow> ''pull-request''),
       ca_expected_revision = act_expected_revision act,
       ca_head_branch = head_branch act, ca_base_branch = base_branch act,
       ca_outcome = word, ca_remote_url = url\<rparr>)"

definition node_to_client :: "(uuid \<Rightarrow> string) \<Rightarrow> BoardNodeView \<Rightarrow> ClientBoardNode" where
  "node_to_client show_uuid node =
     \<lparr>cb_id = (case view_id node of
         NodeId.Decision t \<Rightarrow> show_uuid (ticket_uuid t)
       | NodeId.Plan p \<Rightarrow> show_uuid (plan_uuid p)
       | NodeId.Imported m \<Rightarrow> show_uuid (item_uuid m)),
      cb_kind = (case view_kind node of
         NodeKind.Decision \<Rightarrow> ''decision'' | NodeKind.Implementation \<Rightarrow> ''implementation''),
      cb_provenance = (case view_provenance node of
         MjolnrGoverned \<Rightarrow> TrustClass_MjolnrGoverned
       | ExternalUnverified \<Rightarrow> TrustClass_ExternalUnverified),
      cb_label = view_label node\<rparr>"

definition board_overview_to_client ::
  "(uuid \<Rightarrow> string) \<Rightarrow> BoardOverview \<Rightarrow> (ClientBoardOverview, BoardWireRefusal ClientBridgeError) result"
where
  "board_overview_to_client show_uuid board =
     (let total = length (overview_frontier board) + length (overview_settled board)
            + length (overview_fog board);
          refuse = (\<lambda>detail. Inl (RuntimeRefused (Some ReasonCode.WorkspaceSearchRefused) detail)) in
      if total > MAX_BOARD_NODES then refuse (TooManyNodes total)
      else if length (overview_cycles board) > MAX_BOARD_CYCLES
      then refuse (TooManyCycles (length (overview_cycles board)))
      else if length (imported_tasks board) > MAX_BOARD_IMPORTED_TASKS
      then refuse (TooManyTasks (length (imported_tasks board)))
      else if length (imported_acts board) > MAX_BOARD_IMPORTED_ACTS
      then refuse (TooManyActs (length (imported_acts board)))
      else Inr
        \<lparr>cbo_imported_tasks = map (task_to_client show_uuid) (bt_values (imported_tasks board)),
         cbo_imported_acts = map (act_to_client show_uuid) (bt_values (imported_acts board)),
         cbo_frontier = map (node_to_client show_uuid) (overview_frontier board),
         cbo_fog = map (\<lambda>fogged. \<lparr>cf_node = node_to_client show_uuid (fogged_view fogged),
             cf_waits_on = map (node_to_client show_uuid)
               (take MAX_BOARD_BLOCKERS_PER_FOGGED (view_waits_on fogged))\<rparr>) (overview_fog board),
         cbo_settled = map (node_to_client show_uuid) (overview_settled board),
         cbo_cycles = map (map (node_to_client show_uuid))
           (take MAX_BOARD_CYCLES (overview_cycles board))\<rparr>)"

definition bridge_refused :: "'d MjolnrError \<Rightarrow> 'd MjolnrError ClientBridgeError" where
  "bridge_refused e = (case e of
      MjolnrError.RuntimeClosed \<Rightarrow> BridgeRuntimeClosed
    | _ \<Rightarrow> RuntimeRefused (MjolnrError_reason_code e) e)"

section \<open>What a view shows\<close>

lemma bt_get_extend: "distinct (map fst entries) \<Longrightarrow>
    bt_get (bt_extend entries m) k = (case map_of entries k of Some v \<Rightarrow> Some v | None \<Rightarrow> bt_get m k)"
  unfolding bt_extend_def
  by (induction entries arbitrary: m) (force split: option.splits simp: map_of_eq_None_iff)+

lemma bt_wf_place_nodes:
  "bt_wf (board_frontier board) \<and> bt_wf (board_fog board) \<and> bt_wf (board_settled board) \<Longrightarrow>
     bt_wf (board_frontier (fold (place_node r e) nodes board))
     \<and> bt_wf (board_fog (fold (place_node r e) nodes board))
     \<and> bt_wf (board_settled (fold (place_node r e) nodes board))"
  by (induction nodes arbitrary: board) (auto simp: place_node_def Let_def bt_wf_insert split: prod.split)

lemma compute_frontier_wf:
  assumes "compute_frontier tickets plans imported = Some board"
  shows "bt_wf (board_frontier board)" "bt_wf (board_fog board)" "bt_wf (board_settled board)"
  using assms bt_wf_place_nodes [of "\<lparr>board_frontier = [], board_fog = [], board_settled = [], board_cycles = _\<rparr>"]
  by (auto simp: compute_frontier_def Let_def)

text \<open>The nodes a reference is looked up in are the recorded ones, with what they are.\<close>

lemma known_nodes_recorded:
  assumes "compute_frontier tickets plans imported = Some board"
  shows "bt_get (known_nodes board) i
    = (if i \<in> recorded_nodes tickets plans imported then Some (node_of i) else None)"
proof -
  note wf = compute_frontier_wf [OF assms]
  have keys: "distinct (map fst (map (\<lambda>(i, fogged). (i, fogged_node fogged)) (board_fog board)))"
    using bt_wf_distinct [OF wf(2)] by (simp add: comp_def split_beta)
  have fog: "map_of (map (\<lambda>(i, fogged). (i, fogged_node fogged)) (board_fog board)) i
      = map_option fogged_node (bt_get (board_fog board) i)"
    by (simp add: bt_get_def map_of_map)
  obtain b where b: "compute_frontier tickets plans imported = Some b"
    and set: "bt_get (board_settled b) = (\<lambda>n. if n \<in> resolved_nodes tickets plans imported then Some (node_of n) else None)"
    and front: "bt_get (board_frontier b) = (\<lambda>n. if n \<in> unresolved_nodes tickets plans imported
        \<and> blocked_on tickets imported n \<subseteq> resolved_nodes tickets plans imported then Some (node_of n) else None)"
    and fogs: "map_option (\<lambda>f. (fogged_node f, set (waits_on f))) \<circ> bt_get (board_fog b)
      = (\<lambda>n. if n \<in> unresolved_nodes tickets plans imported
           \<and> \<not> blocked_on tickets imported n \<subseteq> resolved_nodes tickets plans imported
         then Some (node_of n, blocked_on tickets imported n - resolved_nodes tickets plans imported) else None)"
    by (rule compute_frontier_ok [of tickets plans imported])
  have "b = board" using b assms by simp
  note set = set [unfolded this] and front = front [unfolded this] and fogs = fogs [unfolded this]
  have "map_option fogged_node (bt_get (board_fog board) i)
      = (if i \<in> unresolved_nodes tickets plans imported
           \<and> \<not> blocked_on tickets imported i \<subseteq> resolved_nodes tickets plans imported then Some (node_of i) else None)"
    using arg_cong [OF fun_cong [OF fogs, of i], of "map_option fst"]
    by (simp add: option.map_comp comp_def cong: option.map_cong)
  moreover have "resolved_nodes tickets plans imported \<subseteq> recorded_nodes tickets plans imported"
    by (auto simp: resolved_nodes_def recorded_nodes_def)
  moreover have "bt_get (known_nodes board) i = (case map_option fogged_node (bt_get (board_fog board) i) of
      Some v \<Rightarrow> Some v
    | None \<Rightarrow> (case bt_get (board_settled board) i of Some v \<Rightarrow> Some v | None \<Rightarrow> bt_get (board_frontier board) i))"
    unfolding known_nodes_def bt_get_extend [OF keys] bt_get_extend [OF bt_wf_distinct [OF wf(3)]]
      bt_get_extend [OF bt_wf_distinct [OF wf(1)]] fog
    by (simp add: bt_get_def split: option.split)
  ultimately show ?thesis by (auto simp: set front unresolved_nodes_def)
qed

lemma ref_view_recorded:
  assumes "compute_frontier tickets plans imported = Some board"
  shows "view_kind (ref_view show_uuid labels i (known_nodes board))
      = (if i \<in> recorded_nodes tickets plans imported then NodeId_kind i else NodeKind.Decision)"
    and "view_provenance (ref_view show_uuid labels i (known_nodes board))
      = (if i \<in> recorded_nodes tickets plans imported then NodeId_provenance i else MjolnrGoverned)"
    and "view_id (ref_view show_uuid labels i (known_nodes board)) = i"
  by (simp_all add: ref_view_def known_nodes_recorded [OF assms] Let_def split: prod.split)

text \<open>
  A blocker that nothing recorded is shown as a governed decision whatever its address says:
  here an item imported from a tracker, waiting on an imported item that was never fetched.
\<close>

lemma unrecorded_blocker_shown_as_governed:
  assumes "item = \<lparr>item_id = ImportedItemId 1, integration = ''gh'', remote_id = ''9'', source_url = [],
      fetched_revision = ''r'', item_title = [], item_state = ImportedItemState.Open,
      item_blocked_by = [NodeId.Imported (ImportedItemId 2)]\<rparr>"
    and "compute_frontier [] [] [(ImportedItemId 1, item)] = Some board"
  shows "view_provenance (ref_view show_uuid labels (NodeId.Imported (ImportedItemId 2)) (known_nodes board))
      = MjolnrGoverned"
    and "NodeId_provenance (NodeId.Imported (ImportedItemId 2)) = ExternalUnverified"
  using ref_view_recorded(2) [OF assms(2), of show_uuid labels "NodeId.Imported (ImportedItemId 2)"]
  by (simp_all add: assms(1) recorded_nodes_def bt_values_def NodeId_provenance_def)

text \<open>The reasons of a fogged node are cut to the limit, without a refusal.\<close>

lemma wire_cuts_reasons:
  assumes "board_overview_to_client show_uuid o' = Inr c"
  shows "map cf_waits_on (cbo_fog c)
    = map (\<lambda>f. map (node_to_client show_uuid) (take 64 (view_waits_on f))) (overview_fog o')"
  using assms
  by (auto simp: board_overview_to_client_def Let_def MAX_BOARD_BLOCKERS_PER_FOGGED_def
      split: if_splits)

section \<open>The query reads what the sessions hold\<close>

lemma rebuild_of_live:
  assumes "live events SessionState_default = Inr st"
  shows "\<exists>st'. rebuild_durable_records_from events SessionState_default = Inr st'
    \<and> add_session_records st' = add_session_records st"
proof -
  have "records SessionState_default = (None, None, [], [], [])"
    by (simp add: records_def SessionState_default_def)
  with rebuild_records_live [OF assms]
  have "replay rebuild_records_step events (None, None, [], [], []) = Inr (records st)" by simp
  then show ?thesis
    by (auto simp: rebuild_durable_records_from_def records_def add_session_records_def fun_eq_iff)
qed

lemma gather_live:
  "list_all2 (\<lambda>s st. live (store_branch_events (summary_id s) store) SessionState_default = Inr st) ss sts
     \<Longrightarrow> gather_records store ss br = Inr (fold add_session_records sts br)"
proof (induction ss sts arbitrary: br rule: list_all2_induct)
  case (Cons s ss st sts)
  from rebuild_of_live [OF Cons.hyps(1)] Cons.IH show ?case by auto
qed simp

section \<open>Properties\<close>

text \<open>
  Provenance survives onto the surface. In the overview of any recorded state every node
  of the three lists carries the kind and the provenance of its own address; and so does
  every blocker and every member of a cycle that is itself recorded. One that is not recorded
  is shown as a governed decision.
\<close>

theorem overview_keeps_provenance:
  "\<exists>board. compute_frontier tickets plans imported = Some board
     \<and> list_all (\<lambda>v. view_kind v = NodeId_kind (view_id v)
           \<and> view_provenance v = NodeId_provenance (view_id v))
         (overview_frontier (from_frontier show_uuid board labels)
          @ map fogged_view (overview_fog (from_frontier show_uuid board labels))
          @ overview_settled (from_frontier show_uuid board labels))
     \<and> list_all (\<lambda>v. (view_kind v, view_provenance v)
           = (if view_id v \<in> recorded_nodes tickets plans imported
              then (NodeId_kind (view_id v), NodeId_provenance (view_id v))
              else (NodeKind.Decision, MjolnrGoverned)))
         (concat (map view_waits_on (overview_fog (from_frontier show_uuid board labels)))
          @ concat (overview_cycles (from_frontier show_uuid board labels)))"
proof -
  obtain board where board: "compute_frontier tickets plans imported = Some board"
    and set: "bt_get (board_settled board) = (\<lambda>n. if n \<in> resolved_nodes tickets plans imported then Some (node_of n) else None)"
    and front: "bt_get (board_frontier board) = (\<lambda>n. if n \<in> unresolved_nodes tickets plans imported
        \<and> blocked_on tickets imported n \<subseteq> resolved_nodes tickets plans imported then Some (node_of n) else None)"
    and fogs: "map_option (\<lambda>f. (fogged_node f, set (waits_on f))) \<circ> bt_get (board_fog board)
      = (\<lambda>n. if n \<in> unresolved_nodes tickets plans imported
           \<and> \<not> blocked_on tickets imported n \<subseteq> resolved_nodes tickets plans imported
         then Some (node_of n, blocked_on tickets imported n - resolved_nodes tickets plans imported) else None)"
    by (rule compute_frontier_ok [of tickets plans imported])
  note wf = compute_frontier_wf [OF board]
  have f: "node_kind node = NodeId_kind (node_id node) \<and> node_provenance node = NodeId_provenance (node_id node)" if "(i, node) \<in> set (board_frontier board)" for i node
    using that bt_get_in_set [OF wf(1), of i node] by (auto simp: front split: if_splits)
  have s: "node_kind node = NodeId_kind (node_id node) \<and> node_provenance node = NodeId_provenance (node_id node)" if "(i, node) \<in> set (board_settled board)" for i node
    using that bt_get_in_set [OF wf(3), of i node] by (auto simp: set split: if_splits)
  have g: "node_kind (fogged_node node) = NodeId_kind (node_id (fogged_node node))
      \<and> node_provenance (fogged_node node) = NodeId_provenance (node_id (fogged_node node))" if "(i, node) \<in> set (board_fog board)" for i node
    using that bt_get_in_set [OF wf(2), of i node] fun_cong [OF fogs, of i] by (auto split: if_splits)
  show ?thesis
    using board f s g
    by (intro exI [of _ board])
      (auto simp: list_all_iff from_frontier_def Let_def bt_values_def node_view_def
        ref_view_recorded [OF board])
qed

text \<open>
  C29: the board cannot disagree with a live session. If the log of every session of the
  workspace is what a live session accepted, the query answers, and its answer is the board
  computed from the records those live sessions hold.
\<close>

theorem board_shows_live_sessions:
  assumes "list_all2 (\<lambda>s st. live (store_branch_events (summary_id s) store) SessionState_default = Inr st)
      (filter (\<lambda>s. summary_root s = root) (list_sessions store)) sts"
  shows "\<exists>board. compute_frontier
        (br_tickets (fold add_session_records sts BoardRecords_empty))
        (br_plans (fold add_session_records sts BoardRecords_empty))
        (br_imported (fold add_session_records sts BoardRecords_empty)) = Some board
      \<and> query_board show_uuid replay_text (Some root) store = Some (Inr
        ((from_frontier show_uuid board (br_labels (fold add_session_records sts BoardRecords_empty)))
          \<lparr>imported_tasks := br_imported (fold add_session_records sts BoardRecords_empty),
           imported_acts := br_acts (fold add_session_records sts BoardRecords_empty)\<rparr>))"
proof -
  let ?br = "fold add_session_records sts BoardRecords_empty"
  obtain board where "compute_frontier (br_tickets ?br) (br_plans ?br) (br_imported ?br) = Some board"
    by (rule compute_frontier_ok)
  with gather_live [OF assms, of BoardRecords_empty] show ?thesis by (simp add: query_board_def)
qed

definition board_example_store :: Inner where
  "board_example_store = \<lparr>projects = [(''/w'', ProjectId 1)],
     sessions = [(SessionId 0, \<lparr>mem_project = ProjectId 1, mem_title = [],
       mem_status = SessionStatus.Active, mem_created_at = 0, mem_updated_at = 0,
       mem_events = [stored_at 1 (MjolnrEvent.DecisionTicketOpened (SessionId 0) example_ticket)],
       mem_checkpoints = [], mem_leased = False, mem_parent = None\<rparr>)]\<rparr>"

theorem board_shows_live_sessions_witness:
  "\<exists>o'. query_board (\<lambda>_. []) (\<lambda>_. []) (Some ''/w'') board_example_store = Some (Inr o')"
proof -
  let ?e = "stored_at 1 (MjolnrEvent.DecisionTicketOpened (SessionId 0) example_ticket)"
  obtain st where st: "live [?e] SessionState_default = Inr st"
    by (simp add: reducer_defs stored_at_def example_ticket_def bt_get_def)
  have one: "\<exists>s. filter (\<lambda>s. summary_root s = ''/w'') (list_sessions board_example_store) = [s]
      \<and> summary_id s = SessionId 0"
    by (simp add: list_sessions_def board_example_store_def session_summary_of_def project_roots_def
        bt_get_def Let_def)
  then obtain s where s: "filter (\<lambda>s. summary_root s = ''/w'') (list_sessions board_example_store) = [s]"
      "summary_id s = SessionId 0" by blast
  have "store_branch_events (SessionId 0) board_example_store = [?e]"
    by (simp add: store_branch_events_def store_events_def store_events_from_def board_example_store_def bt_get_def)
  with st have "list_all2 (\<lambda>s st. live (store_branch_events (summary_id s) board_example_store) SessionState_default = Inr st)
      (filter (\<lambda>s. summary_root s = ''/w'') (list_sessions board_example_store)) [st]"
    unfolding s(1) by (simp add: s(2))
  from board_shows_live_sessions [OF this, of "\<lambda>_. []" "\<lambda>_. []"] show ?thesis by blast
qed

end
