(* ===== verification/Wire_Enums.thy ===== *)
theory Wire_Enums
  imports Event
begin

text \<open>
  The persisted mirrors of the fixed vocabularies (\<^verbatim>\<open>store/wire/enums.rs\<close>): for each core type
  its wire type, the conversion in each direction, and the interpretation that the two are
  inverse to each other. A reason code is stored by its own name.
\<close>

section \<open>Plain enumerations\<close>

datatype RoleWire = System | User | Assistant | Tool

definition Role_to_wire :: "Role \<Rightarrow> RoleWire" where
  "Role_to_wire x = (case x of
      Role.System \<Rightarrow> RoleWire.System
    | Role.User \<Rightarrow> RoleWire.User
    | Role.Assistant \<Rightarrow> RoleWire.Assistant
    | Role.Tool \<Rightarrow> RoleWire.Tool)"

definition Role_of_wire :: "RoleWire \<Rightarrow> Role" where
  "Role_of_wire x = (case x of
      RoleWire.System \<Rightarrow> Role.System
    | RoleWire.User \<Rightarrow> Role.User
    | RoleWire.Assistant \<Rightarrow> Role.Assistant
    | RoleWire.Tool \<Rightarrow> Role.Tool)"

interpretation role: wire_mirror Role_to_wire Role_of_wire
  by unfold_locales (simp_all add: Role_to_wire_def Role_of_wire_def split: Role.splits RoleWire.splits)

datatype ToolTierWire = Read | Write | Execute

definition ToolTier_to_wire :: "ToolTier \<Rightarrow> ToolTierWire" where
  "ToolTier_to_wire x = (case x of
      ToolTier.Read \<Rightarrow> ToolTierWire.Read
    | ToolTier.Write \<Rightarrow> ToolTierWire.Write
    | ToolTier.Execute \<Rightarrow> ToolTierWire.Execute)"

definition ToolTier_of_wire :: "ToolTierWire \<Rightarrow> ToolTier" where
  "ToolTier_of_wire x = (case x of
      ToolTierWire.Read \<Rightarrow> ToolTier.Read
    | ToolTierWire.Write \<Rightarrow> ToolTier.Write
    | ToolTierWire.Execute \<Rightarrow> ToolTier.Execute)"

interpretation tool_tier: wire_mirror ToolTier_to_wire ToolTier_of_wire
  by unfold_locales (simp_all add: ToolTier_to_wire_def ToolTier_of_wire_def split: ToolTier.splits ToolTierWire.splits)

datatype PolicyModeWire = ReadOnly | Ask | WorkspaceWrite | FullAuto

definition PolicyMode_to_wire :: "PolicyMode \<Rightarrow> PolicyModeWire" where
  "PolicyMode_to_wire x = (case x of
      PolicyMode.ReadOnly \<Rightarrow> PolicyModeWire.ReadOnly
    | PolicyMode.Ask \<Rightarrow> PolicyModeWire.Ask
    | PolicyMode.WorkspaceWrite \<Rightarrow> PolicyModeWire.WorkspaceWrite
    | PolicyMode.FullAuto \<Rightarrow> PolicyModeWire.FullAuto)"

definition PolicyMode_of_wire :: "PolicyModeWire \<Rightarrow> PolicyMode" where
  "PolicyMode_of_wire x = (case x of
      PolicyModeWire.ReadOnly \<Rightarrow> PolicyMode.ReadOnly
    | PolicyModeWire.Ask \<Rightarrow> PolicyMode.Ask
    | PolicyModeWire.WorkspaceWrite \<Rightarrow> PolicyMode.WorkspaceWrite
    | PolicyModeWire.FullAuto \<Rightarrow> PolicyMode.FullAuto)"

interpretation policy_mode: wire_mirror PolicyMode_to_wire PolicyMode_of_wire
  by unfold_locales (simp_all add: PolicyMode_to_wire_def PolicyMode_of_wire_def split: PolicyMode.splits PolicyModeWire.splits)

datatype GovernanceTierWire = Supervised | Standard | Trusted

definition GovernanceTier_to_wire :: "GovernanceTier \<Rightarrow> GovernanceTierWire" where
  "GovernanceTier_to_wire x = (case x of
      GovernanceTier.Supervised \<Rightarrow> GovernanceTierWire.Supervised
    | GovernanceTier.Standard \<Rightarrow> GovernanceTierWire.Standard
    | GovernanceTier.Trusted \<Rightarrow> GovernanceTierWire.Trusted)"

definition GovernanceTier_of_wire :: "GovernanceTierWire \<Rightarrow> GovernanceTier" where
  "GovernanceTier_of_wire x = (case x of
      GovernanceTierWire.Supervised \<Rightarrow> GovernanceTier.Supervised
    | GovernanceTierWire.Standard \<Rightarrow> GovernanceTier.Standard
    | GovernanceTierWire.Trusted \<Rightarrow> GovernanceTier.Trusted)"

interpretation governance_tier: wire_mirror GovernanceTier_to_wire GovernanceTier_of_wire
  by unfold_locales (simp_all add: GovernanceTier_to_wire_def GovernanceTier_of_wire_def split: GovernanceTier.splits GovernanceTierWire.splits)

datatype EnvelopeEndWire = Spent | Lapsed | Withdrawn | PolicyNarrowed

definition EnvelopeEnd_to_wire :: "EnvelopeEnd \<Rightarrow> EnvelopeEndWire" where
  "EnvelopeEnd_to_wire x = (case x of
      EnvelopeEnd.Spent \<Rightarrow> EnvelopeEndWire.Spent
    | EnvelopeEnd.Lapsed \<Rightarrow> EnvelopeEndWire.Lapsed
    | EnvelopeEnd.Withdrawn \<Rightarrow> EnvelopeEndWire.Withdrawn
    | EnvelopeEnd.PolicyNarrowed \<Rightarrow> EnvelopeEndWire.PolicyNarrowed)"

definition EnvelopeEnd_of_wire :: "EnvelopeEndWire \<Rightarrow> EnvelopeEnd" where
  "EnvelopeEnd_of_wire x = (case x of
      EnvelopeEndWire.Spent \<Rightarrow> EnvelopeEnd.Spent
    | EnvelopeEndWire.Lapsed \<Rightarrow> EnvelopeEnd.Lapsed
    | EnvelopeEndWire.Withdrawn \<Rightarrow> EnvelopeEnd.Withdrawn
    | EnvelopeEndWire.PolicyNarrowed \<Rightarrow> EnvelopeEnd.PolicyNarrowed)"

interpretation envelope_end: wire_mirror EnvelopeEnd_to_wire EnvelopeEnd_of_wire
  by unfold_locales (simp_all add: EnvelopeEnd_to_wire_def EnvelopeEnd_of_wire_def split: EnvelopeEnd.splits EnvelopeEndWire.splits)

datatype ApprovalDecisionWire = Deny | ApproveOnce | ApproveExactForSession | AutoByPolicy

definition ApprovalDecision_to_wire :: "ApprovalDecision \<Rightarrow> ApprovalDecisionWire" where
  "ApprovalDecision_to_wire x = (case x of
      ApprovalDecision.Deny \<Rightarrow> ApprovalDecisionWire.Deny
    | ApprovalDecision.ApproveOnce \<Rightarrow> ApprovalDecisionWire.ApproveOnce
    | ApprovalDecision.ApproveExactForSession \<Rightarrow> ApprovalDecisionWire.ApproveExactForSession
    | ApprovalDecision.AutoByPolicy \<Rightarrow> ApprovalDecisionWire.AutoByPolicy)"

definition ApprovalDecision_of_wire :: "ApprovalDecisionWire \<Rightarrow> ApprovalDecision" where
  "ApprovalDecision_of_wire x = (case x of
      ApprovalDecisionWire.Deny \<Rightarrow> ApprovalDecision.Deny
    | ApprovalDecisionWire.ApproveOnce \<Rightarrow> ApprovalDecision.ApproveOnce
    | ApprovalDecisionWire.ApproveExactForSession \<Rightarrow> ApprovalDecision.ApproveExactForSession
    | ApprovalDecisionWire.AutoByPolicy \<Rightarrow> ApprovalDecision.AutoByPolicy)"

interpretation approval_decision: wire_mirror ApprovalDecision_to_wire ApprovalDecision_of_wire
  by unfold_locales (simp_all add: ApprovalDecision_to_wire_def ApprovalDecision_of_wire_def split: ApprovalDecision.splits ApprovalDecisionWire.splits)

datatype ExtensionLoadAuthorityWire = Command | FullAuto | Approved

definition ExtensionLoadAuthority_to_wire :: "ExtensionLoadAuthority \<Rightarrow> ExtensionLoadAuthorityWire" where
  "ExtensionLoadAuthority_to_wire x = (case x of
      ExtensionLoadAuthority.Command \<Rightarrow> ExtensionLoadAuthorityWire.Command
    | ExtensionLoadAuthority.FullAuto \<Rightarrow> ExtensionLoadAuthorityWire.FullAuto
    | ExtensionLoadAuthority.Approved \<Rightarrow> ExtensionLoadAuthorityWire.Approved)"

definition ExtensionLoadAuthority_of_wire :: "ExtensionLoadAuthorityWire \<Rightarrow> ExtensionLoadAuthority" where
  "ExtensionLoadAuthority_of_wire x = (case x of
      ExtensionLoadAuthorityWire.Command \<Rightarrow> ExtensionLoadAuthority.Command
    | ExtensionLoadAuthorityWire.FullAuto \<Rightarrow> ExtensionLoadAuthority.FullAuto
    | ExtensionLoadAuthorityWire.Approved \<Rightarrow> ExtensionLoadAuthority.Approved)"

interpretation extension_load_authority: wire_mirror ExtensionLoadAuthority_to_wire ExtensionLoadAuthority_of_wire
  by unfold_locales (simp_all add: ExtensionLoadAuthority_to_wire_def ExtensionLoadAuthority_of_wire_def split: ExtensionLoadAuthority.splits ExtensionLoadAuthorityWire.splits)

datatype FinishReasonWire = Stop | ToolCalls | Incomplete | Cancelled | Handoff | QuotaDrained

definition FinishReason_to_wire :: "FinishReason \<Rightarrow> FinishReasonWire" where
  "FinishReason_to_wire x = (case x of
      FinishReason.Stop \<Rightarrow> FinishReasonWire.Stop
    | FinishReason.ToolCalls \<Rightarrow> FinishReasonWire.ToolCalls
    | FinishReason.Incomplete \<Rightarrow> FinishReasonWire.Incomplete
    | FinishReason.Cancelled \<Rightarrow> FinishReasonWire.Cancelled
    | FinishReason.Handoff \<Rightarrow> FinishReasonWire.Handoff
    | FinishReason.QuotaDrained \<Rightarrow> FinishReasonWire.QuotaDrained)"

definition FinishReason_of_wire :: "FinishReasonWire \<Rightarrow> FinishReason" where
  "FinishReason_of_wire x = (case x of
      FinishReasonWire.Stop \<Rightarrow> FinishReason.Stop
    | FinishReasonWire.ToolCalls \<Rightarrow> FinishReason.ToolCalls
    | FinishReasonWire.Incomplete \<Rightarrow> FinishReason.Incomplete
    | FinishReasonWire.Cancelled \<Rightarrow> FinishReason.Cancelled
    | FinishReasonWire.Handoff \<Rightarrow> FinishReason.Handoff
    | FinishReasonWire.QuotaDrained \<Rightarrow> FinishReason.QuotaDrained)"

interpretation finish_reason: wire_mirror FinishReason_to_wire FinishReason_of_wire
  by unfold_locales (simp_all add: FinishReason_to_wire_def FinishReason_of_wire_def split: FinishReason.splits FinishReasonWire.splits)

datatype TriggerSourceKindWire = Schedule | Webhook

definition TriggerSourceKind_to_wire :: "TriggerSourceKind \<Rightarrow> TriggerSourceKindWire" where
  "TriggerSourceKind_to_wire x = (case x of
      TriggerSourceKind.Schedule \<Rightarrow> TriggerSourceKindWire.Schedule
    | TriggerSourceKind.Webhook \<Rightarrow> TriggerSourceKindWire.Webhook)"

definition TriggerSourceKind_of_wire :: "TriggerSourceKindWire \<Rightarrow> TriggerSourceKind" where
  "TriggerSourceKind_of_wire x = (case x of
      TriggerSourceKindWire.Schedule \<Rightarrow> TriggerSourceKind.Schedule
    | TriggerSourceKindWire.Webhook \<Rightarrow> TriggerSourceKind.Webhook)"

interpretation trigger_source_kind: wire_mirror TriggerSourceKind_to_wire TriggerSourceKind_of_wire
  by unfold_locales (simp_all add: TriggerSourceKind_to_wire_def TriggerSourceKind_of_wire_def split: TriggerSourceKind.splits TriggerSourceKindWire.splits)

datatype OverlapPolicyWire = Skip | Queue | Replace

definition OverlapPolicy_to_wire :: "OverlapPolicy \<Rightarrow> OverlapPolicyWire" where
  "OverlapPolicy_to_wire x = (case x of
      OverlapPolicy.Skip \<Rightarrow> OverlapPolicyWire.Skip
    | OverlapPolicy.Queue \<Rightarrow> OverlapPolicyWire.Queue
    | OverlapPolicy.Replace \<Rightarrow> OverlapPolicyWire.Replace)"

definition OverlapPolicy_of_wire :: "OverlapPolicyWire \<Rightarrow> OverlapPolicy" where
  "OverlapPolicy_of_wire x = (case x of
      OverlapPolicyWire.Skip \<Rightarrow> OverlapPolicy.Skip
    | OverlapPolicyWire.Queue \<Rightarrow> OverlapPolicy.Queue
    | OverlapPolicyWire.Replace \<Rightarrow> OverlapPolicy.Replace)"

interpretation overlap_policy: wire_mirror OverlapPolicy_to_wire OverlapPolicy_of_wire
  by unfold_locales (simp_all add: OverlapPolicy_to_wire_def OverlapPolicy_of_wire_def split: OverlapPolicy.splits OverlapPolicyWire.splits)

datatype TriggerOutcomeWire = Verified | Refused | BudgetOrQuotaStopped | Failed

definition TriggerOutcome_to_wire :: "TriggerOutcome \<Rightarrow> TriggerOutcomeWire" where
  "TriggerOutcome_to_wire x = (case x of
      TriggerOutcome.Verified \<Rightarrow> TriggerOutcomeWire.Verified
    | TriggerOutcome.Refused \<Rightarrow> TriggerOutcomeWire.Refused
    | TriggerOutcome.BudgetOrQuotaStopped \<Rightarrow> TriggerOutcomeWire.BudgetOrQuotaStopped
    | TriggerOutcome.Failed \<Rightarrow> TriggerOutcomeWire.Failed)"

definition TriggerOutcome_of_wire :: "TriggerOutcomeWire \<Rightarrow> TriggerOutcome" where
  "TriggerOutcome_of_wire x = (case x of
      TriggerOutcomeWire.Verified \<Rightarrow> TriggerOutcome.Verified
    | TriggerOutcomeWire.Refused \<Rightarrow> TriggerOutcome.Refused
    | TriggerOutcomeWire.BudgetOrQuotaStopped \<Rightarrow> TriggerOutcome.BudgetOrQuotaStopped
    | TriggerOutcomeWire.Failed \<Rightarrow> TriggerOutcome.Failed)"

interpretation trigger_outcome: wire_mirror TriggerOutcome_to_wire TriggerOutcome_of_wire
  by unfold_locales (simp_all add: TriggerOutcome_to_wire_def TriggerOutcome_of_wire_def split: TriggerOutcome.splits TriggerOutcomeWire.splits)

datatype BreakerStateWire = Closed | Open | HalfOpen

definition BreakerState_to_wire :: "BreakerState \<Rightarrow> BreakerStateWire" where
  "BreakerState_to_wire x = (case x of
      BreakerState.Closed \<Rightarrow> BreakerStateWire.Closed
    | BreakerState.Open \<Rightarrow> BreakerStateWire.Open
    | BreakerState.HalfOpen \<Rightarrow> BreakerStateWire.HalfOpen)"

definition BreakerState_of_wire :: "BreakerStateWire \<Rightarrow> BreakerState" where
  "BreakerState_of_wire x = (case x of
      BreakerStateWire.Closed \<Rightarrow> BreakerState.Closed
    | BreakerStateWire.Open \<Rightarrow> BreakerState.Open
    | BreakerStateWire.HalfOpen \<Rightarrow> BreakerState.HalfOpen)"

interpretation breaker_state: wire_mirror BreakerState_to_wire BreakerState_of_wire
  by unfold_locales (simp_all add: BreakerState_to_wire_def BreakerState_of_wire_def split: BreakerState.splits BreakerStateWire.splits)

section \<open>Reason codes\<close>

datatype ReasonCodeWire = ReasonCodeWire (wire_code: ReasonCode)

definition parse_reason_code :: "string \<Rightarrow> ReasonCode option" where
  "parse_reason_code raw = ReasonCode_parse raw"

definition ReasonCodeWire_serialize :: "ReasonCodeWire \<Rightarrow> string" where
  "ReasonCodeWire_serialize w = ReasonCode_as_str (wire_code w)"

definition ReasonCodeWire_deserialize :: "string \<Rightarrow> (ReasonCodeWire, string) result" where
  "ReasonCodeWire_deserialize raw =
     map_ok ReasonCodeWire (ok_or (''unknown reason code `'' @ raw @ ''`'') (parse_reason_code raw))"

lemma reason_code_wire_rt [rt]: "ReasonCodeWire_deserialize (ReasonCodeWire_serialize w) = Inr w"
  by (cases w) (simp add: ReasonCodeWire_deserialize_def ReasonCodeWire_serialize_def
      parse_reason_code_def ok_or_def ReasonCode_parse_as_str)

interpretation reason_code: wire_mirror ReasonCodeWire wire_code
  by unfold_locales simp_all

section \<open>Token usage\<close>

record UsageWire =
  w_input_tokens :: u64
  w_output_tokens :: u64

definition Usage_to_wire :: "Usage \<Rightarrow> UsageWire" where
  "Usage_to_wire u = \<lparr>w_input_tokens = input_tokens u, w_output_tokens = output_tokens u\<rparr>"

definition Usage_of_wire :: "UsageWire \<Rightarrow> Usage" where
  "Usage_of_wire u = \<lparr>input_tokens = w_input_tokens u, output_tokens = w_output_tokens u\<rparr>"

interpretation usage: wire_mirror Usage_to_wire Usage_of_wire
  by unfold_locales (simp_all add: Usage_to_wire_def Usage_of_wire_def)

section \<open>Routing vocabularies\<close>

datatype RouteSelectionReasonWire = Named | Role string | NamedAfterUnmappedRole string | TaskClass string | ChildDefault

definition RouteSelectionReason_to_wire :: "RouteSelectionReason \<Rightarrow> RouteSelectionReasonWire" where
  "RouteSelectionReason_to_wire x = (case x of
      RouteSelectionReason.Named \<Rightarrow> RouteSelectionReasonWire.Named
    | RouteSelectionReason.RoleReason a \<Rightarrow> RouteSelectionReasonWire.Role a
    | RouteSelectionReason.NamedAfterUnmappedRole a \<Rightarrow> RouteSelectionReasonWire.NamedAfterUnmappedRole a
    | RouteSelectionReason.TaskClass a \<Rightarrow> RouteSelectionReasonWire.TaskClass a
    | RouteSelectionReason.ChildDefault \<Rightarrow> RouteSelectionReasonWire.ChildDefault)"

definition RouteSelectionReason_of_wire :: "RouteSelectionReasonWire \<Rightarrow> RouteSelectionReason" where
  "RouteSelectionReason_of_wire x = (case x of
      RouteSelectionReasonWire.Named \<Rightarrow> RouteSelectionReason.Named
    | RouteSelectionReasonWire.Role a \<Rightarrow> RouteSelectionReason.RoleReason a
    | RouteSelectionReasonWire.NamedAfterUnmappedRole a \<Rightarrow> RouteSelectionReason.NamedAfterUnmappedRole a
    | RouteSelectionReasonWire.TaskClass a \<Rightarrow> RouteSelectionReason.TaskClass a
    | RouteSelectionReasonWire.ChildDefault \<Rightarrow> RouteSelectionReason.ChildDefault)"

interpretation route_selection_reason: wire_mirror RouteSelectionReason_to_wire RouteSelectionReason_of_wire
  by unfold_locales (simp_all add: RouteSelectionReason_to_wire_def RouteSelectionReason_of_wire_def split: RouteSelectionReason.splits RouteSelectionReasonWire.splits)

datatype RouteAdvanceConditionWire = QuotaReserveBreached | ProviderFailure ReasonCodeWire | BreakerOpen

definition RouteAdvanceCondition_to_wire :: "RouteAdvanceCondition \<Rightarrow> RouteAdvanceConditionWire" where
  "RouteAdvanceCondition_to_wire x = (case x of
      RouteAdvanceCondition.QuotaReserveBreached \<Rightarrow> RouteAdvanceConditionWire.QuotaReserveBreached
    | RouteAdvanceCondition.ProviderFailure code \<Rightarrow>
        RouteAdvanceConditionWire.ProviderFailure (ReasonCodeWire code)
    | RouteAdvanceCondition.BreakerOpen \<Rightarrow> RouteAdvanceConditionWire.BreakerOpen)"

definition RouteAdvanceCondition_of_wire :: "RouteAdvanceConditionWire \<Rightarrow> RouteAdvanceCondition" where
  "RouteAdvanceCondition_of_wire x = (case x of
      RouteAdvanceConditionWire.QuotaReserveBreached \<Rightarrow> RouteAdvanceCondition.QuotaReserveBreached
    | RouteAdvanceConditionWire.ProviderFailure code \<Rightarrow>
        RouteAdvanceCondition.ProviderFailure (wire_code code)
    | RouteAdvanceConditionWire.BreakerOpen \<Rightarrow> RouteAdvanceCondition.BreakerOpen)"

interpretation route_advance_condition:
  wire_mirror RouteAdvanceCondition_to_wire RouteAdvanceCondition_of_wire
  by unfold_locales (simp_all add: RouteAdvanceCondition_to_wire_def RouteAdvanceCondition_of_wire_def
      split: RouteAdvanceCondition.splits RouteAdvanceConditionWire.splits)

end
