(* ===== verification/Wire_Message.thy ===== *)
theory Wire_Message
  imports Wire_Enums
begin

text \<open>
  The persisted mirrors of tool values and messages (\<^verbatim>\<open>store/wire/message.rs\<close>) and of
  interrupted work (\<^verbatim>\<open>store/wire/recovery.rs\<close>).
\<close>

section \<open>Tool values\<close>

record ToolCallWire =
  w_call_id :: string
  w_call_name :: string
  w_call_arguments :: Json
  w_provider_signature :: "string option"

definition ToolCall_to_wire :: "ToolCall \<Rightarrow> ToolCallWire" where
  "ToolCall_to_wire c = \<lparr>w_call_id = call_id c, w_call_name = call_name c,
     w_call_arguments = call_arguments c, w_provider_signature = provider_signature c\<rparr>"

definition ToolCall_of_wire :: "ToolCallWire \<Rightarrow> ToolCall" where
  "ToolCall_of_wire c = \<lparr>call_id = w_call_id c, call_name = w_call_name c,
     call_arguments = w_call_arguments c, provider_signature = w_provider_signature c\<rparr>"

interpretation tool_call: wire_mirror ToolCall_to_wire ToolCall_of_wire
  by unfold_locales (simp_all add: ToolCall_to_wire_def ToolCall_of_wire_def)

datatype ToolOutcomeWire = Ok | Refused ReasonCodeWire | Failed ReasonCodeWire

definition ToolOutcome_to_wire :: "ToolOutcome \<Rightarrow> ToolOutcomeWire" where
  "ToolOutcome_to_wire x = (case x of
      ToolOutcome.Ok \<Rightarrow> ToolOutcomeWire.Ok
    | ToolOutcome.Refused code \<Rightarrow> ToolOutcomeWire.Refused (ReasonCodeWire code)
    | ToolOutcome.Failed code \<Rightarrow> ToolOutcomeWire.Failed (ReasonCodeWire code))"

definition ToolOutcome_of_wire :: "ToolOutcomeWire \<Rightarrow> ToolOutcome" where
  "ToolOutcome_of_wire x = (case x of
      ToolOutcomeWire.Ok \<Rightarrow> ToolOutcome.Ok
    | ToolOutcomeWire.Refused code \<Rightarrow> ToolOutcome.Refused (wire_code code)
    | ToolOutcomeWire.Failed code \<Rightarrow> ToolOutcome.Failed (wire_code code))"

interpretation tool_outcome: wire_mirror ToolOutcome_to_wire ToolOutcome_of_wire
  by unfold_locales (simp_all add: ToolOutcome_to_wire_def ToolOutcome_of_wire_def
      split: ToolOutcome.splits ToolOutcomeWire.splits)

datatype ToolEffectWire =
    NoEffect
  | Read string string
  | Mutation string string
  | Command "i32 option" bool u64
  | Completion string
  | SkillActivated string bool

definition ToolEffect_to_wire :: "ToolEffect \<Rightarrow> ToolEffectWire" where
  "ToolEffect_to_wire x = (case x of
      ToolEffect.NoEffect \<Rightarrow> ToolEffectWire.NoEffect
    | ToolEffect.Read path sha256 \<Rightarrow> ToolEffectWire.Read path sha256
    | ToolEffect.Mutation path sha256 \<Rightarrow> ToolEffectWire.Mutation path sha256
    | ToolEffect.Command exit_code success duration \<Rightarrow>
        ToolEffectWire.Command exit_code success duration
    | ToolEffect.Completion outcome \<Rightarrow> ToolEffectWire.Completion outcome
    | ToolEffect.SkillActivated name project \<Rightarrow> ToolEffectWire.SkillActivated name project)"

definition ToolEffect_of_wire :: "ToolEffectWire \<Rightarrow> ToolEffect" where
  "ToolEffect_of_wire x = (case x of
      ToolEffectWire.NoEffect \<Rightarrow> ToolEffect.NoEffect
    | ToolEffectWire.Read path sha256 \<Rightarrow> ToolEffect.Read path sha256
    | ToolEffectWire.Mutation path sha256 \<Rightarrow> ToolEffect.Mutation path sha256
    | ToolEffectWire.Command exit_code success duration \<Rightarrow>
        ToolEffect.Command exit_code success duration
    | ToolEffectWire.Completion outcome \<Rightarrow> ToolEffect.Completion outcome
    | ToolEffectWire.SkillActivated name project \<Rightarrow> ToolEffect.SkillActivated name project)"

interpretation tool_effect: wire_mirror ToolEffect_to_wire ToolEffect_of_wire
  by unfold_locales (simp_all add: ToolEffect_to_wire_def ToolEffect_of_wire_def
      split: ToolEffect.splits ToolEffectWire.splits)

record ToolResultWire =
  w_outcome :: ToolOutcomeWire
  w_content :: string
  w_truncated :: bool
  w_effect :: ToolEffectWire
  w_evidence_event_id :: "string option"

definition ToolResult_to_wire :: "ToolResult \<Rightarrow> ToolResultWire" where
  "ToolResult_to_wire r = \<lparr>w_outcome = ToolOutcome_to_wire (result_outcome r),
     w_content = result_content r, w_truncated = truncated r,
     w_effect = ToolEffect_to_wire (effect r), w_evidence_event_id = evidence_event_id r\<rparr>"

definition ToolResult_of_wire :: "ToolResultWire \<Rightarrow> ToolResult" where
  "ToolResult_of_wire r = \<lparr>result_outcome = ToolOutcome_of_wire (w_outcome r),
     result_content = w_content r, truncated = w_truncated r,
     effect = ToolEffect_of_wire (w_effect r), evidence_event_id = w_evidence_event_id r\<rparr>"

interpretation tool_result: wire_mirror ToolResult_to_wire ToolResult_of_wire
  by unfold_locales (simp_all add: ToolResult_to_wire_def ToolResult_of_wire_def
      tool_outcome.of_to tool_outcome.to_of tool_effect.of_to tool_effect.to_of)

section \<open>Messages\<close>

datatype ContentBlockWire =
    Text string
  | ImageRef string string
  | ToolCall ToolCallWire
  | ToolResult string string ToolResultWire

definition ContentBlock_to_wire :: "ContentBlock \<Rightarrow> ContentBlockWire" where
  "ContentBlock_to_wire x = (case x of
      ContentBlock.Text text \<Rightarrow> ContentBlockWire.Text text
    | ContentBlock.ImageRef media_type source \<Rightarrow> ContentBlockWire.ImageRef media_type source
    | ToolCallBlock call \<Rightarrow> ContentBlockWire.ToolCall (ToolCall_to_wire call)
    | ToolResultBlock i name r \<Rightarrow> ContentBlockWire.ToolResult i name (ToolResult_to_wire r))"

definition ContentBlock_of_wire :: "ContentBlockWire \<Rightarrow> ContentBlock" where
  "ContentBlock_of_wire x = (case x of
      ContentBlockWire.Text text \<Rightarrow> ContentBlock.Text text
    | ContentBlockWire.ImageRef media_type source \<Rightarrow> ContentBlock.ImageRef media_type source
    | ContentBlockWire.ToolCall call \<Rightarrow> ToolCallBlock (ToolCall_of_wire call)
    | ContentBlockWire.ToolResult i name r \<Rightarrow> ToolResultBlock i name (ToolResult_of_wire r))"

interpretation content_block: wire_mirror ContentBlock_to_wire ContentBlock_of_wire
  by unfold_locales (simp_all add: ContentBlock_to_wire_def ContentBlock_of_wire_def
      tool_call.of_to tool_call.to_of tool_result.of_to tool_result.to_of
      split: ContentBlock.splits ContentBlockWire.splits)

text \<open>Provider and model names are stored as their strings.\<close>

interpretation provider_name: wire_mirror provider_str ProviderId
  by unfold_locales simp_all

interpretation model_name: wire_mirror model_str ModelId
  by unfold_locales simp_all

record MessageWire =
  w_message_id :: uuid
  w_role :: RoleWire
  w_blocks :: "ContentBlockWire list"
  w_message_provider :: "string option"
  w_message_model :: "string option"
  w_created_at :: instant

definition Message_to_wire :: "CanonicalMessage \<Rightarrow> MessageWire" where
  "Message_to_wire m = \<lparr>w_message_id = message_id m, w_role = Role_to_wire (role m),
     w_blocks = map ContentBlock_to_wire (blocks m),
     w_message_provider = map_option provider_str (message_provider m),
     w_message_model = map_option model_str (message_model m), w_created_at = created_at m\<rparr>"

definition Message_of_wire :: "MessageWire \<Rightarrow> CanonicalMessage" where
  "Message_of_wire m = \<lparr>message_id = w_message_id m, role = Role_of_wire (w_role m),
     blocks = map ContentBlock_of_wire (w_blocks m),
     message_provider = map_option ProviderId (w_message_provider m),
     message_model = map_option ModelId (w_message_model m), created_at = w_created_at m\<rparr>"

interpretation message: wire_mirror Message_to_wire Message_of_wire
proof
  show "Message_of_wire (Message_to_wire m) = m" for m
    by (simp add: Message_to_wire_def Message_of_wire_def role.of_to content_block.list_rt
        provider_name.option_rt model_name.option_rt del: map_map option.map_comp)
  show "Message_to_wire (Message_of_wire w) = w" for w
    by (simp add: Message_to_wire_def Message_of_wire_def role.to_of content_block.list_tr
        provider_name.option_tr model_name.option_tr del: map_map option.map_comp)
qed

section \<open>Interrupted work\<close>

datatype AuthorityWire = Policy | Approval uuid

definition Authority_to_wire :: "Authority \<Rightarrow> AuthorityWire" where
  "Authority_to_wire x = (case x of
      PolicyAuthority \<Rightarrow> AuthorityWire.Policy
    | Authority.Approval i \<Rightarrow> AuthorityWire.Approval (approval_uuid i))"

definition Authority_of_wire :: "AuthorityWire \<Rightarrow> Authority" where
  "Authority_of_wire x = (case x of
      AuthorityWire.Policy \<Rightarrow> PolicyAuthority
    | AuthorityWire.Approval i \<Rightarrow> Authority.Approval (ApprovalId i))"

interpretation authority: wire_mirror Authority_to_wire Authority_of_wire
  by unfold_locales (simp_all add: Authority_to_wire_def Authority_of_wire_def
      split: Authority.splits AuthorityWire.splits)

datatype InterruptedKindWire =
    ProposalUnapproved ToolCallWire ToolTierWire string
  | EffectUncertain AuthorityWire ToolCallWire ToolTierWire string
  | ProviderTurnInterrupted

definition InterruptedKind_to_wire :: "InterruptedKind \<Rightarrow> InterruptedKindWire" where
  "InterruptedKind_to_wire x = (case x of
      InterruptedKind.ProposalUnapproved call tier preview \<Rightarrow>
        InterruptedKindWire.ProposalUnapproved (ToolCall_to_wire call) (ToolTier_to_wire tier) preview
    | InterruptedKind.EffectUncertain authority call tier preview \<Rightarrow>
        InterruptedKindWire.EffectUncertain (Authority_to_wire authority) (ToolCall_to_wire call)
          (ToolTier_to_wire tier) preview
    | InterruptedKind.ProviderTurnInterrupted \<Rightarrow> InterruptedKindWire.ProviderTurnInterrupted)"

definition InterruptedKind_of_wire :: "InterruptedKindWire \<Rightarrow> InterruptedKind" where
  "InterruptedKind_of_wire x = (case x of
      InterruptedKindWire.ProposalUnapproved call tier preview \<Rightarrow>
        InterruptedKind.ProposalUnapproved (ToolCall_of_wire call) (ToolTier_of_wire tier) preview
    | InterruptedKindWire.EffectUncertain authority call tier preview \<Rightarrow>
        InterruptedKind.EffectUncertain (Authority_of_wire authority) (ToolCall_of_wire call)
          (ToolTier_of_wire tier) preview
    | InterruptedKindWire.ProviderTurnInterrupted \<Rightarrow> InterruptedKind.ProviderTurnInterrupted)"

interpretation interrupted_kind: wire_mirror InterruptedKind_to_wire InterruptedKind_of_wire
  by unfold_locales (simp_all add: InterruptedKind_to_wire_def InterruptedKind_of_wire_def
      tool_call.of_to tool_call.to_of tool_tier.of_to tool_tier.to_of authority.of_to authority.to_of
      split: InterruptedKind.splits InterruptedKindWire.splits)

record InterruptedWorkWire =
  w_run :: uuid
  w_kind :: InterruptedKindWire

definition InterruptedWork_to_wire :: "InterruptedWork \<Rightarrow> InterruptedWorkWire" where
  "InterruptedWork_to_wire x = \<lparr>w_run = run_uuid (interrupted_run x),
     w_kind = InterruptedKind_to_wire (interrupted_kind x)\<rparr>"

definition InterruptedWork_of_wire :: "InterruptedWorkWire \<Rightarrow> InterruptedWork" where
  "InterruptedWork_of_wire x = \<lparr>interrupted_run = RunId (w_run x),
     interrupted_kind = InterruptedKind_of_wire (w_kind x)\<rparr>"

interpretation interrupted_work: wire_mirror InterruptedWork_to_wire InterruptedWork_of_wire
  by unfold_locales (simp_all add: InterruptedWork_to_wire_def InterruptedWork_of_wire_def
      interrupted_kind.of_to interrupted_kind.to_of)

datatype RecoveryDecisionWire = AbandonAndContinue | EndSession

definition RecoveryDecision_to_wire :: "RecoveryDecision \<Rightarrow> RecoveryDecisionWire" where
  "RecoveryDecision_to_wire x = (case x of
      RecoveryDecision.AbandonAndContinue \<Rightarrow> RecoveryDecisionWire.AbandonAndContinue
    | RecoveryDecision.EndSession \<Rightarrow> RecoveryDecisionWire.EndSession)"

definition RecoveryDecision_of_wire :: "RecoveryDecisionWire \<Rightarrow> RecoveryDecision" where
  "RecoveryDecision_of_wire x = (case x of
      RecoveryDecisionWire.AbandonAndContinue \<Rightarrow> RecoveryDecision.AbandonAndContinue
    | RecoveryDecisionWire.EndSession \<Rightarrow> RecoveryDecision.EndSession)"

interpretation recovery_decision: wire_mirror RecoveryDecision_to_wire RecoveryDecision_of_wire
  by unfold_locales (simp_all add: RecoveryDecision_to_wire_def RecoveryDecision_of_wire_def
      split: RecoveryDecision.splits RecoveryDecisionWire.splits)

end
