(* ===== verification/Wire_Checkpoint.thy ===== *)
theory Wire_Checkpoint
  imports Wire_Message
begin

text \<open>
  The persisted mirror of a session checkpoint (\<^verbatim>\<open>store/wire/checkpoint.rs\<close>). Its position on
  a route is stored in 32 bits and saturates; everything else is kept as it is. An older
  checkpoint without a quota reserve decodes to the default one.
\<close>

section \<open>Parts of a checkpoint\<close>

record RouteRuntimeWire =
  w_route :: string
  w_position :: u32

definition RouteRuntime_to_wire :: "RouteRuntime \<Rightarrow> RouteRuntimeWire" where
  "RouteRuntime_to_wire r = \<lparr>w_route = rt_route r, w_position = u32_of_usize (rt_position r)\<rparr>"

definition RouteRuntime_of_wire :: "RouteRuntimeWire \<Rightarrow> RouteRuntime" where
  "RouteRuntime_of_wire r = \<lparr>rt_route = w_route r, rt_position = unat (w_position r)\<rparr>"

lemma RouteRuntime_rt:
  "RouteRuntime_of_wire (RouteRuntime_to_wire r) = r\<lparr>rt_position := min (rt_position r) (2 ^ 32 - 1)\<rparr>"
  by (simp add: RouteRuntime_of_wire_def RouteRuntime_to_wire_def unat_u32_of_usize)

record BudgetWire =
  w_provider_turns :: u32
  w_max_provider_turns :: u32
  w_tool_calls :: u32
  w_max_tool_calls :: u32

definition Budget_to_wire :: "BudgetStatus \<Rightarrow> BudgetWire" where
  "Budget_to_wire b = \<lparr>w_provider_turns = used_provider_turns b,
     w_max_provider_turns = budget_max_provider_turns b, w_tool_calls = used_tool_calls b,
     w_max_tool_calls = budget_max_tool_calls b\<rparr>"

definition Budget_of_wire :: "BudgetWire \<Rightarrow> BudgetStatus" where
  "Budget_of_wire b = \<lparr>used_provider_turns = w_provider_turns b,
     budget_max_provider_turns = w_max_provider_turns b, used_tool_calls = w_tool_calls b,
     budget_max_tool_calls = w_max_tool_calls b\<rparr>"

interpretation budget: wire_mirror Budget_to_wire Budget_of_wire
  by unfold_locales (simp_all add: Budget_to_wire_def Budget_of_wire_def)

record CommandFactWire =
  w_command :: string
  w_command_outcome :: string

definition CommandFact_to_wire :: "CommandFact \<Rightarrow> CommandFactWire" where
  "CommandFact_to_wire f = \<lparr>w_command = fact_command f, w_command_outcome = fact_outcome f\<rparr>"

definition CommandFact_of_wire :: "CommandFactWire \<Rightarrow> CommandFact" where
  "CommandFact_of_wire f = \<lparr>fact_command = w_command f, fact_outcome = w_command_outcome f\<rparr>"

interpretation command_fact: wire_mirror CommandFact_to_wire CommandFact_of_wire
  by unfold_locales (simp_all add: CommandFact_to_wire_def CommandFact_of_wire_def)

record HandoffWire =
  w_handoff_id :: uuid
  w_handoff_created_at :: instant
  w_handoff_status :: string
  w_handoff_provider :: string
  w_handoff_model :: string
  w_files_read :: "string list"
  w_files_changed :: "string list"
  w_commands :: "CommandFactWire list"
  w_handoff_usage :: UsageWire
  w_handoff_budget :: BudgetWire
  w_handoff_skills :: "string list"

definition Handoff_to_wire :: "HandoffCheckpoint \<Rightarrow> HandoffWire" where
  "Handoff_to_wire h = \<lparr>w_handoff_id = handoff_uuid (ho_id h), w_handoff_created_at = ho_created_at h,
     w_handoff_status = ho_status h, w_handoff_provider = provider_str (ho_provider h),
     w_handoff_model = model_str (ho_model h), w_files_read = ho_files_read h,
     w_files_changed = ho_files_changed h, w_commands = map CommandFact_to_wire (ho_commands h),
     w_handoff_usage = Usage_to_wire (ho_usage h), w_handoff_budget = Budget_to_wire (ho_budget h),
     w_handoff_skills = ho_activated_skills h\<rparr>"

definition Handoff_of_wire :: "HandoffWire \<Rightarrow> HandoffCheckpoint" where
  "Handoff_of_wire h = \<lparr>ho_id = HandoffId (w_handoff_id h), ho_created_at = w_handoff_created_at h,
     ho_status = w_handoff_status h, ho_provider = ProviderId (w_handoff_provider h),
     ho_model = ModelId (w_handoff_model h), ho_files_read = w_files_read h,
     ho_files_changed = w_files_changed h, ho_commands = map CommandFact_of_wire (w_commands h),
     ho_usage = Usage_of_wire (w_handoff_usage h), ho_budget = Budget_of_wire (w_handoff_budget h),
     ho_activated_skills = w_handoff_skills h\<rparr>"

interpretation handoff: wire_mirror Handoff_to_wire Handoff_of_wire
  by unfold_locales (simp_all add: Handoff_to_wire_def Handoff_of_wire_def command_fact.list_rt
      command_fact.list_tr usage.of_to usage.to_of budget.of_to budget.to_of del: map_map)

datatype QuotaBasisWire = ProviderReported string | ConfiguredTokens u64 | Unavailable

datatype QuotaPhaseWire = Monitoring | Draining | Stopped

record QuotaReserveWire =
  w_basis :: QuotaBasisWire
  w_used_fraction :: "f32 option"
  w_soft_threshold :: f32
  w_hard_threshold :: f32
  w_resets_at :: "instant option"
  w_phase :: QuotaPhaseWire

definition QuotaReserve_to_wire :: "QuotaReserveStatus \<Rightarrow> QuotaReserveWire" where
  "QuotaReserve_to_wire s = \<lparr>w_basis = (case reserve_basis s of
        QuotaReserveBasis.ProviderReported window \<Rightarrow> QuotaBasisWire.ProviderReported window
      | QuotaReserveBasis.ConfiguredTokens limit \<Rightarrow> QuotaBasisWire.ConfiguredTokens limit
      | QuotaReserveBasis.Unavailable \<Rightarrow> QuotaBasisWire.Unavailable),
     w_used_fraction = used_fraction s, w_soft_threshold = soft_threshold s,
     w_hard_threshold = hard_threshold s, w_resets_at = reserve_resets_at s,
     w_phase = (case reserve_phase s of
        QuotaReservePhase.Monitoring \<Rightarrow> QuotaPhaseWire.Monitoring
      | QuotaReservePhase.Draining \<Rightarrow> QuotaPhaseWire.Draining
      | QuotaReservePhase.Stopped \<Rightarrow> QuotaPhaseWire.Stopped)\<rparr>"

definition QuotaReserve_of_wire :: "QuotaReserveWire \<Rightarrow> QuotaReserveStatus" where
  "QuotaReserve_of_wire s = \<lparr>reserve_basis = (case w_basis s of
        QuotaBasisWire.ProviderReported window \<Rightarrow> QuotaReserveBasis.ProviderReported window
      | QuotaBasisWire.ConfiguredTokens limit \<Rightarrow> QuotaReserveBasis.ConfiguredTokens limit
      | QuotaBasisWire.Unavailable \<Rightarrow> QuotaReserveBasis.Unavailable),
     used_fraction = w_used_fraction s, soft_threshold = w_soft_threshold s,
     hard_threshold = w_hard_threshold s, reserve_resets_at = w_resets_at s,
     reserve_phase = (case w_phase s of
        QuotaPhaseWire.Monitoring \<Rightarrow> QuotaReservePhase.Monitoring
      | QuotaPhaseWire.Draining \<Rightarrow> QuotaReservePhase.Draining
      | QuotaPhaseWire.Stopped \<Rightarrow> QuotaReservePhase.Stopped)\<rparr>"

interpretation quota_reserve: wire_mirror QuotaReserve_to_wire QuotaReserve_of_wire
proof
  show "QuotaReserve_of_wire (QuotaReserve_to_wire s) = s" for s
    by (cases s) (auto simp: QuotaReserve_to_wire_def QuotaReserve_of_wire_def
        split: QuotaReserveBasis.splits QuotaReservePhase.splits)
  show "QuotaReserve_to_wire (QuotaReserve_of_wire w) = w" for w
    by (cases w) (auto simp: QuotaReserve_to_wire_def QuotaReserve_of_wire_def
        split: QuotaBasisWire.splits QuotaPhaseWire.splits)
qed

record ReadSetEntryWire =
  w_read_path :: string
  w_read_sha256 :: string

record ReadEvidenceEntryWire =
  w_evidence_path :: string
  w_evidence_sha256 :: string
  w_tool_event_id :: string

definition read_entry_to_wire :: "string \<times> string \<Rightarrow> ReadSetEntryWire" where
  "read_entry_to_wire = (\<lambda>(path, sha256). \<lparr>w_read_path = path, w_read_sha256 = sha256\<rparr>)"

definition read_entry_of_wire :: "ReadSetEntryWire \<Rightarrow> string \<times> string" where
  "read_entry_of_wire e = (w_read_path e, w_read_sha256 e)"

interpretation read_entry: wire_mirror read_entry_to_wire read_entry_of_wire
  by unfold_locales (auto simp: read_entry_to_wire_def read_entry_of_wire_def)

definition evidence_to_wire :: "ReadRecord \<Rightarrow> ReadEvidenceEntryWire" where
  "evidence_to_wire r = \<lparr>w_evidence_path = read_path r, w_evidence_sha256 = read_sha256 r,
     w_tool_event_id = read_tool_event_id r\<rparr>"

definition evidence_of_wire :: "ReadEvidenceEntryWire \<Rightarrow> ReadRecord" where
  "evidence_of_wire e = \<lparr>read_path = w_evidence_path e, read_sha256 = w_evidence_sha256 e,
     read_tool_event_id = w_tool_event_id e\<rparr>"

interpretation evidence: wire_mirror evidence_to_wire evidence_of_wire
  by unfold_locales (simp_all add: evidence_to_wire_def evidence_of_wire_def)

datatype SessionStatusWire = Active | Ended

definition SessionStatus_to_wire :: "SessionStatus \<Rightarrow> SessionStatusWire" where
  "SessionStatus_to_wire x = (case x of
      SessionStatus.Active \<Rightarrow> SessionStatusWire.Active
    | SessionStatus.Ended \<Rightarrow> SessionStatusWire.Ended)"

definition SessionStatus_of_wire :: "SessionStatusWire \<Rightarrow> SessionStatus" where
  "SessionStatus_of_wire x = (case x of
      SessionStatusWire.Active \<Rightarrow> SessionStatus.Active
    | SessionStatusWire.Ended \<Rightarrow> SessionStatus.Ended)"

interpretation session_status: wire_mirror SessionStatus_to_wire SessionStatus_of_wire
  by unfold_locales (simp_all add: SessionStatus_to_wire_def SessionStatus_of_wire_def
      split: SessionStatus.splits SessionStatusWire.splits)

section \<open>The checkpoint\<close>

record CheckpointWire =
  w_session :: uuid
  w_status :: SessionStatusWire
  w_project_root :: "string option"
  w_provider :: "string option"
  w_model :: "string option"
  w_messages :: "MessageWire list"
  w_usage :: UsageWire
  w_policy :: PolicyModeWire
  w_budget :: BudgetWire
  w_read_set :: "ReadSetEntryWire list"
  w_read_evidence :: "ReadEvidenceEntryWire list"
  w_review_threads :: "ReviewThread list"
  w_last_mutation_sequence :: "u64 option"
  w_successful_command_evidence :: "(string, u64) btree_map"
  w_activated_skills :: "string list"
  w_workspace_trusted :: bool
  w_handoff :: "HandoffWire option"
  w_quota_reserve :: "QuotaReserveWire option"
  w_route_runtime :: "RouteRuntimeWire option"

definition Checkpoint_to_wire :: "SessionCheckpoint \<Rightarrow> CheckpointWire" where
  "Checkpoint_to_wire c = \<lparr>w_session = session_uuid (cp_session c),
     w_status = SessionStatus_to_wire (cp_status c), w_project_root = cp_project_root c,
     w_provider = map_option provider_str (cp_provider c),
     w_model = map_option model_str (cp_model c), w_messages = map Message_to_wire (cp_messages c),
     w_usage = Usage_to_wire (cp_usage c), w_policy = PolicyMode_to_wire (cp_policy c),
     w_budget = Budget_to_wire (cp_budget c), w_read_set = map read_entry_to_wire (cp_read_set c),
     w_read_evidence = map evidence_to_wire (cp_read_evidence c),
     w_review_threads = cp_review_threads c,
     w_last_mutation_sequence = cp_last_mutation_sequence c,
     w_successful_command_evidence = cp_successful_command_evidence c,
     w_activated_skills = cp_activated_skills c, w_workspace_trusted = cp_workspace_trusted c,
     w_handoff = map_option Handoff_to_wire (cp_handoff c),
     w_quota_reserve = Some (QuotaReserve_to_wire (cp_quota_reserve c)),
     w_route_runtime = map_option RouteRuntime_to_wire (cp_route c)\<rparr>"

definition Checkpoint_of_wire :: "CheckpointWire \<Rightarrow> SessionCheckpoint" where
  "Checkpoint_of_wire w = \<lparr>cp_session = SessionId (w_session w),
     cp_status = SessionStatus_of_wire (w_status w), cp_project_root = w_project_root w,
     cp_provider = map_option ProviderId (w_provider w),
     cp_model = map_option ModelId (w_model w), cp_messages = map Message_of_wire (w_messages w),
     cp_usage = Usage_of_wire (w_usage w), cp_policy = PolicyMode_of_wire (w_policy w),
     cp_budget = Budget_of_wire (w_budget w), cp_read_set = map read_entry_of_wire (w_read_set w),
     cp_read_evidence = map evidence_of_wire (w_read_evidence w),
     cp_review_threads = w_review_threads w,
     cp_last_mutation_sequence = w_last_mutation_sequence w,
     cp_successful_command_evidence = w_successful_command_evidence w,
     cp_activated_skills = w_activated_skills w, cp_workspace_trusted = w_workspace_trusted w,
     cp_handoff = map_option Handoff_of_wire (w_handoff w),
     cp_quota_reserve = (case w_quota_reserve w of
        None \<Rightarrow> QuotaReserveStatus_default | Some r \<Rightarrow> QuotaReserve_of_wire r),
     cp_route = map_option RouteRuntime_of_wire (w_route_runtime w)\<rparr>"

lemmas checkpoint_wire_rt = session_status.of_to provider_name.option_rt model_name.option_rt
  message.list_rt usage.of_to policy_mode.of_to budget.of_to read_entry.list_rt evidence.list_rt
  handoff.option_rt quota_reserve.of_to

text \<open>Storing a checkpoint caps its route position; nothing else of it changes.\<close>

definition route_capped :: "SessionCheckpoint \<Rightarrow> SessionCheckpoint" where
  "route_capped c = c\<lparr>cp_route :=
     map_option (\<lambda>r. r\<lparr>rt_position := min (rt_position r) (2 ^ 32 - 1)\<rparr>) (cp_route c)\<rparr>"

lemma route_option_rt:
  "map_option RouteRuntime_of_wire (map_option RouteRuntime_to_wire v)
     = map_option (\<lambda>r. r\<lparr>rt_position := min (rt_position r) (2 ^ 32 - 1)\<rparr>) v"
  by (cases v) (simp_all add: RouteRuntime_rt)

lemma Checkpoint_rt: "Checkpoint_of_wire (Checkpoint_to_wire c) = route_capped c"
  by (simp add: Checkpoint_to_wire_def Checkpoint_of_wire_def checkpoint_wire_rt route_option_rt
      route_capped_def del: map_map option.map_comp)

end
