(* ===== verification/Wire.thy ===== *)
theory Wire
  imports Wire_Checkpoint
begin

text \<open>
  The persisted form of an event (\<^verbatim>\<open>store/wire/mod.rs\<close>): the payload, its kind, the encoder with
  its helpers, the decoder with its helpers, and the version gate. The session id of an event is
  a column of its own and not part of the payload. The text of a JSON column belongs to
  serde_json: it is a parameter of the functions that use it.
\<close>

section \<open>The payload\<close>

definition WIRE_VERSION :: u32 where
  "WIRE_VERSION = 23"

datatype WireError = Ephemeral string | UnsupportedVersion u32 u32 | Decode string

datatype (plugins only: size) EventPayload =
    SessionCreated string string
  | MessageAppended MessageWire
  | RunStarted uuid
  | UsageReported uuid UsageWire
  | QuotaBoundaryReached uuid QuotaReserveWire
  | HandoffCreated HandoffWire
  | PolicyChanged PolicyModeWire
  | PolicyClamped PolicyModeWire PolicyModeWire string string GovernanceTierWire
  | ExtensionLoaded string string ExtensionLoadAuthorityWire
  | ToolProposed uuid "uuid option" ToolCallWire ToolTierWire string
  | ApprovalResolved uuid uuid ApprovalDecisionWire
  | ToolCompleted uuid string string ToolResultWire
  | ToolFailed uuid string string ReasonCodeWire string
  | BudgetExhausted uuid
  | RunFinished uuid FinishReasonWire
  | RunFailed uuid ReasonCodeWire string
  | ModelChanged string string
  | ModelChangeRefused string string ReasonCodeWire string
  | FileSaved string string string u64
  | SpawnEnvelopeArmed PolicyModeWire u32 u32 u32 u32
  | SpawnEnvelopeDrawn uuid u32 u32 u32
  | SpawnEnvelopeCleared EnvelopeEndWire
  | SubagentSpawned uuid uuid string PolicyModeWire string string
  | SubagentResultLate uuid string
  | ReadSetCollision uuid uuid string
  | RecoveryRequired InterruptedWorkWire
  | RecoveryResolved RecoveryDecisionWire
  | SessionEnded
  | TriggerFired string uuid TriggerSourceKindWire
  | TriggerSettled string uuid TriggerOutcomeWire "ReasonCodeWire option"
  | TriggerSkipped string OverlapPolicyWire string
  | TriggerQueued string
  | TriggerReplaced string uuid
  | TriggerDisabled string ReasonCodeWire u32
  | TriggerRearmed string
  | RouteSelected "uuid option" string u32 string string RouteSelectionReasonWire
  | RouteAdvanced uuid string u32 u32 string string RouteAdvanceConditionWire
  | RouteExhausted uuid string RouteAdvanceConditionWire
  | BreakerStateChanged string BreakerStateWire BreakerStateWire
  | PlanInterviewStarted PlanId string
  | PlanQuestionAsked PlanId Question
  | PlanQuestionAnswered PlanId QuestionAnswer
  | PlanPrdProposed ProductRequirementsDocument
  | PlanProposed PlanProposal
  | PlanReviewed PlanReview
  | PlanApproved PlanApproval
  | PlanHandoffCreated PlanHandoff
  | CouncilReviewed CouncilReview
  | CouncilFindingDispositionRecorded CouncilFindingDisposition
  | CouncilAmendmentProposed CouncilAmendment
  | ReviewNoteRecorded ReviewThreadId ReviewAnchor ReviewComment
  | ReviewCommentAdded ReviewThreadId ReviewComment
  | ReviewRequestSent "ReviewThreadId list" uuid
  | ReviewRequestAnswered "ReviewThreadId list" uuid
  | DecisionTicketOpened DecisionTicket
  | DecisionTicketResolved DecisionResolution
  | ImportedItemFetched ImportedItem
  | ImportedItemRefreshed string ImportedItem
  | ImportedActRecorded ImportedAct
  | ImportedCommentRecorded ImportedItemId string string

definition MESSAGE_BEARING_KINDS :: "string list" where
  "MESSAGE_BEARING_KINDS = [''message_appended'', ''tool_completed'', ''tool_failed'']"

definition payload_kind :: "EventPayload \<Rightarrow> string" where
  "payload_kind p = (case p of
      EventPayload.SessionCreated _ _ \<Rightarrow> ''session_created''
    | EventPayload.MessageAppended _ \<Rightarrow> ''message_appended''
    | EventPayload.RunStarted _ \<Rightarrow> ''run_started''
    | EventPayload.UsageReported _ _ \<Rightarrow> ''usage_reported''
    | EventPayload.QuotaBoundaryReached _ _ \<Rightarrow> ''quota_boundary_reached''
    | EventPayload.HandoffCreated _ \<Rightarrow> ''handoff_created''
    | EventPayload.PolicyChanged _ \<Rightarrow> ''policy_changed''
    | EventPayload.PolicyClamped _ _ _ _ _ \<Rightarrow> ''policy_clamped''
    | EventPayload.ExtensionLoaded _ _ _ \<Rightarrow> ''extension_loaded''
    | EventPayload.ToolProposed _ _ _ _ _ \<Rightarrow> ''tool_proposed''
    | EventPayload.ApprovalResolved _ _ _ \<Rightarrow> ''approval_resolved''
    | EventPayload.ToolCompleted _ _ _ _ \<Rightarrow> ''tool_completed''
    | EventPayload.ToolFailed _ _ _ _ _ \<Rightarrow> ''tool_failed''
    | EventPayload.BudgetExhausted _ \<Rightarrow> ''budget_exhausted''
    | EventPayload.RunFinished _ _ \<Rightarrow> ''run_finished''
    | EventPayload.RunFailed _ _ _ \<Rightarrow> ''run_failed''
    | EventPayload.ModelChanged _ _ \<Rightarrow> ''model_changed''
    | EventPayload.ModelChangeRefused _ _ _ _ \<Rightarrow> ''model_change_refused''
    | EventPayload.FileSaved _ _ _ _ \<Rightarrow> ''file_saved''
    | EventPayload.SpawnEnvelopeArmed _ _ _ _ _ \<Rightarrow> ''spawn_envelope_armed''
    | EventPayload.SpawnEnvelopeDrawn _ _ _ _ \<Rightarrow> ''spawn_envelope_drawn''
    | EventPayload.SpawnEnvelopeCleared _ \<Rightarrow> ''spawn_envelope_cleared''
    | EventPayload.SubagentSpawned _ _ _ _ _ _ \<Rightarrow> ''subagent_spawned''
    | EventPayload.SubagentResultLate _ _ \<Rightarrow> ''subagent_result_late''
    | EventPayload.ReadSetCollision _ _ _ \<Rightarrow> ''read_set_collision''
    | EventPayload.RecoveryRequired _ \<Rightarrow> ''recovery_required''
    | EventPayload.RecoveryResolved _ \<Rightarrow> ''recovery_resolved''
    | EventPayload.SessionEnded \<Rightarrow> ''session_ended''
    | EventPayload.TriggerFired _ _ _ \<Rightarrow> ''trigger_fired''
    | EventPayload.TriggerSettled _ _ _ _ \<Rightarrow> ''trigger_settled''
    | EventPayload.TriggerSkipped _ _ _ \<Rightarrow> ''trigger_skipped''
    | EventPayload.TriggerQueued _ \<Rightarrow> ''trigger_queued''
    | EventPayload.TriggerReplaced _ _ \<Rightarrow> ''trigger_replaced''
    | EventPayload.TriggerDisabled _ _ _ \<Rightarrow> ''trigger_disabled''
    | EventPayload.TriggerRearmed _ \<Rightarrow> ''trigger_rearmed''
    | EventPayload.RouteSelected _ _ _ _ _ _ \<Rightarrow> ''route_selected''
    | EventPayload.RouteAdvanced _ _ _ _ _ _ _ \<Rightarrow> ''route_advanced''
    | EventPayload.RouteExhausted _ _ _ \<Rightarrow> ''route_exhausted''
    | EventPayload.BreakerStateChanged _ _ _ \<Rightarrow> ''breaker_state_changed''
    | EventPayload.PlanInterviewStarted _ _ \<Rightarrow> ''plan_interview_started''
    | EventPayload.PlanQuestionAsked _ _ \<Rightarrow> ''plan_question_asked''
    | EventPayload.PlanQuestionAnswered _ _ \<Rightarrow> ''plan_question_answered''
    | EventPayload.PlanPrdProposed _ \<Rightarrow> ''plan_prd_proposed''
    | EventPayload.PlanProposed _ \<Rightarrow> ''plan_proposed''
    | EventPayload.PlanReviewed _ \<Rightarrow> ''plan_reviewed''
    | EventPayload.PlanApproved _ \<Rightarrow> ''plan_approved''
    | EventPayload.PlanHandoffCreated _ \<Rightarrow> ''plan_handoff_created''
    | EventPayload.CouncilReviewed _ \<Rightarrow> ''council_reviewed''
    | EventPayload.CouncilFindingDispositionRecorded _ \<Rightarrow> ''council_finding_disposition_recorded''
    | EventPayload.CouncilAmendmentProposed _ \<Rightarrow> ''council_amendment_proposed''
    | EventPayload.ReviewNoteRecorded _ _ _ \<Rightarrow> ''review_note_recorded''
    | EventPayload.ReviewCommentAdded _ _ \<Rightarrow> ''review_comment_added''
    | EventPayload.ReviewRequestSent _ _ \<Rightarrow> ''review_request_sent''
    | EventPayload.ReviewRequestAnswered _ _ \<Rightarrow> ''review_request_answered''
    | EventPayload.DecisionTicketOpened _ \<Rightarrow> ''decision_ticket_opened''
    | EventPayload.DecisionTicketResolved _ \<Rightarrow> ''decision_ticket_resolved''
    | EventPayload.ImportedItemFetched _ \<Rightarrow> ''imported_item_fetched''
    | EventPayload.ImportedItemRefreshed _ _ \<Rightarrow> ''imported_item_refreshed''
    | EventPayload.ImportedActRecorded _ \<Rightarrow> ''imported_act_recorded''
    | EventPayload.ImportedCommentRecorded _ _ _ \<Rightarrow> ''imported_comment_recorded'')"

section \<open>Encoding\<close>

definition encode_routing_event :: "MjolnrEvent \<Rightarrow> (EventPayload, WireError) result" where
  "encode_routing_event e = (case e of
      MjolnrEvent.RouteSelected _ ch rte pos prov mdl rsn \<Rightarrow>
          Inr (EventPayload.RouteSelected (map_option session_uuid ch) rte (u32_of_usize pos)
            (provider_str prov) (model_str mdl) (RouteSelectionReason_to_wire rsn) )
    | MjolnrEvent.RouteAdvanced _ rn rte fp tp prov mdl cnd \<Rightarrow>
          Inr (EventPayload.RouteAdvanced (run_uuid rn) rte (u32_of_usize fp) (u32_of_usize tp)
            (provider_str prov) (model_str mdl) (RouteAdvanceCondition_to_wire cnd) )
    | MjolnrEvent.RouteExhausted _ rn rte cnd \<Rightarrow>
          Inr (EventPayload.RouteExhausted (run_uuid rn) rte (RouteAdvanceCondition_to_wire cnd))
    | MjolnrEvent.BreakerStateChanged _ prov old new \<Rightarrow>
          Inr (EventPayload.BreakerStateChanged (provider_str prov) (BreakerState_to_wire old)
            (BreakerState_to_wire new) )
    | _ \<Rightarrow> Inl (Decode ''event is not routing state''))"

definition encode_trigger_event :: "MjolnrEvent \<Rightarrow> (EventPayload, WireError) result" where
  "encode_trigger_event e = (case e of
      MjolnrEvent.TriggerFired _ trig ch src \<Rightarrow>
          Inr (EventPayload.TriggerFired trig (session_uuid ch) (TriggerSourceKind_to_wire src))
    | MjolnrEvent.TriggerSettled _ trig ch oc rc \<Rightarrow>
          Inr (EventPayload.TriggerSettled trig (session_uuid ch) (TriggerOutcome_to_wire oc)
            (map_option ReasonCodeWire rc) )
    | MjolnrEvent.TriggerSkipped _ trig ov dt \<Rightarrow>
          Inr (EventPayload.TriggerSkipped trig (OverlapPolicy_to_wire ov) dt)
    | MjolnrEvent.TriggerQueued _ trig \<Rightarrow> Inr (EventPayload.TriggerQueued trig)
    | MjolnrEvent.TriggerReplaced _ trig rch \<Rightarrow>
          Inr (EventPayload.TriggerReplaced trig (session_uuid rch))
    | MjolnrEvent.TriggerDisabled _ trig cd fails \<Rightarrow>
          Inr (EventPayload.TriggerDisabled trig (ReasonCodeWire cd) fails)
    | MjolnrEvent.TriggerRearmed _ trig \<Rightarrow> Inr (EventPayload.TriggerRearmed trig)
    | _ \<Rightarrow> Inl (Decode ''event is not trigger state''))"

definition encode_tool_event :: "MjolnrEvent \<Rightarrow> (EventPayload, WireError) result" where
  "encode_tool_event e = (case e of
      MjolnrEvent.ToolProposed _ rn app cl tr pv \<Rightarrow>
          Inr (EventPayload.ToolProposed (run_uuid rn) (map_option approval_uuid app)
            (ToolCall_to_wire cl) (ToolTier_to_wire tr) pv)
    | MjolnrEvent.ApprovalResolved _ rn app dec \<Rightarrow>
          Inr (EventPayload.ApprovalResolved (run_uuid rn) (approval_uuid app)
            (ApprovalDecision_to_wire dec) )
    | MjolnrEvent.ToolCompleted _ rn cid nm res \<Rightarrow>
          Inr (EventPayload.ToolCompleted (run_uuid rn) cid nm (ToolResult_to_wire res))
    | MjolnrEvent.ToolFailed _ rn cid nm cd dt \<Rightarrow>
          Inr (EventPayload.ToolFailed (run_uuid rn) cid nm (ReasonCodeWire cd) dt)
    | _ \<Rightarrow> Inl (Decode ''event is not tool state''))"

definition encode_session_event :: "MjolnrEvent \<Rightarrow> (EventPayload, WireError) result" where
  "encode_session_event e = (case e of
      MjolnrEvent.SessionCreated _ prov mdl \<Rightarrow>
          Inr (EventPayload.SessionCreated (provider_str prov) (model_str mdl))
    | MjolnrEvent.MessageAppended _ msg \<Rightarrow>
          Inr (EventPayload.MessageAppended (Message_to_wire msg))
    | _ \<Rightarrow> Inl (Decode ''event is not session state''))"

definition encode_subagent_event :: "MjolnrEvent \<Rightarrow> (EventPayload, WireError) result" where
  "encode_subagent_event e = (case e of
      MjolnrEvent.SubagentSpawned _ rn ch dir pol br wt \<Rightarrow>
          Inr (EventPayload.SubagentSpawned (run_uuid rn) (session_uuid ch) dir
            (PolicyMode_to_wire pol) br wt)
    | MjolnrEvent.SubagentResultLate _ ch dt \<Rightarrow>
          Inr (EventPayload.SubagentResultLate (session_uuid ch) dt)
    | MjolnrEvent.ReadSetCollision _ rd wr path \<Rightarrow>
          Inr (EventPayload.ReadSetCollision (session_uuid rd) (session_uuid wr) path)
    | _ \<Rightarrow> Inl (Decode ''event is not subagent state''))"

definition encode_continuation_event :: "MjolnrEvent \<Rightarrow> (EventPayload, WireError) result" where
  "encode_continuation_event e = (case e of
      MjolnrEvent.UsageReported _ rn use \<Rightarrow>
          Inr (EventPayload.UsageReported (run_uuid rn) (Usage_to_wire use))
    | MjolnrEvent.QuotaBoundaryReached _ rn rsv \<Rightarrow>
          Inr (EventPayload.QuotaBoundaryReached (run_uuid rn) (QuotaReserve_to_wire rsv))
    | MjolnrEvent.HandoffCreated _ ho \<Rightarrow> Inr (EventPayload.HandoffCreated (Handoff_to_wire ho))
    | _ \<Rightarrow> Inl (Decode ''event is not continuation state''))"

definition encode_model_event :: "MjolnrEvent \<Rightarrow> (EventPayload, WireError) result" where
  "encode_model_event e = (case e of
      MjolnrEvent.ModelChanged _ prov mdl \<Rightarrow>
          Inr (EventPayload.ModelChanged (provider_str prov) (model_str mdl))
    | MjolnrEvent.ModelChangeRefused _ prov mdl cd dt \<Rightarrow>
          Inr (EventPayload.ModelChangeRefused (provider_str prov) (model_str mdl)
            (ReasonCodeWire cd) dt)
    | _ \<Rightarrow> Inl (Decode ''event is not a model event''))"

definition ephemeral_kind :: "MjolnrEvent \<Rightarrow> string" where
  "ephemeral_kind e = (case e of
      MjolnrEvent.TextDelta _ _ _ \<Rightarrow> ''text_delta''
    | MjolnrEvent.ReasoningDelta _ _ _ \<Rightarrow> ''reasoning_delta''
    | MjolnrEvent.ToolAssembling _ _ _ \<Rightarrow> ''tool_assembling''
    | MjolnrEvent.QuotaReported _ _ _ \<Rightarrow> ''quota_reported''
    | MjolnrEvent.SubagentActivity _ _ _ _ \<Rightarrow> ''subagent_activity''
    | _ \<Rightarrow> ''ephemeral'')"

definition encode :: "MjolnrEvent \<Rightarrow> (EventPayload, WireError) result" where
  "encode e = (case e of
      MjolnrEvent.TextDelta _ _ _ \<Rightarrow> Inl (Ephemeral (ephemeral_kind e))
    | MjolnrEvent.ReasoningDelta _ _ _ \<Rightarrow> Inl (Ephemeral (ephemeral_kind e))
    | MjolnrEvent.ToolAssembling _ _ _ \<Rightarrow> Inl (Ephemeral (ephemeral_kind e))
    | MjolnrEvent.QuotaReported _ _ _ \<Rightarrow> Inl (Ephemeral (ephemeral_kind e))
    | MjolnrEvent.SubagentActivity _ _ _ _ \<Rightarrow> Inl (Ephemeral (ephemeral_kind e))
    | MjolnrEvent.SessionCreated _ _ _ \<Rightarrow> encode_session_event e
    | MjolnrEvent.MessageAppended _ _ \<Rightarrow> encode_session_event e
    | MjolnrEvent.RunStarted _ rn \<Rightarrow> Inr (EventPayload.RunStarted (run_uuid rn))
    | MjolnrEvent.UsageReported _ _ _ \<Rightarrow> encode_continuation_event e
    | MjolnrEvent.QuotaBoundaryReached _ _ _ \<Rightarrow> encode_continuation_event e
    | MjolnrEvent.HandoffCreated _ _ \<Rightarrow> encode_continuation_event e
    | MjolnrEvent.PolicyChanged _ md \<Rightarrow> Inr (EventPayload.PolicyChanged (PolicyMode_to_wire md))
    | MjolnrEvent.PolicyClamped _ old new prov mdl tr \<Rightarrow>
          Inr (EventPayload.PolicyClamped (PolicyMode_to_wire old) (PolicyMode_to_wire new)
            (provider_str prov) (model_str mdl) (GovernanceTier_to_wire tr) )
    | MjolnrEvent.ExtensionLoaded _ nm prog authority \<Rightarrow>
          Inr (EventPayload.ExtensionLoaded nm prog (ExtensionLoadAuthority_to_wire authority))
    | MjolnrEvent.ToolProposed _ _ _ _ _ _ \<Rightarrow> encode_tool_event e
    | MjolnrEvent.ApprovalResolved _ _ _ _ \<Rightarrow> encode_tool_event e
    | MjolnrEvent.ToolCompleted _ _ _ _ _ \<Rightarrow> encode_tool_event e
    | MjolnrEvent.ToolFailed _ _ _ _ _ _ \<Rightarrow> encode_tool_event e
    | MjolnrEvent.BudgetExhausted _ rn \<Rightarrow> Inr (EventPayload.BudgetExhausted (run_uuid rn))
    | MjolnrEvent.RunFinished _ rn rsn \<Rightarrow>
          Inr (EventPayload.RunFinished (run_uuid rn) (FinishReason_to_wire rsn))
    | MjolnrEvent.RunFailed _ rn cd dt \<Rightarrow>
          Inr (EventPayload.RunFailed (run_uuid rn) (ReasonCodeWire cd) dt)
    | MjolnrEvent.ModelChanged _ _ _ \<Rightarrow> encode_model_event e
    | MjolnrEvent.ModelChangeRefused _ _ _ _ _ \<Rightarrow> encode_model_event e
    | MjolnrEvent.FileSaved _ path od nd sz \<Rightarrow> Inr (EventPayload.FileSaved path od nd sz)
    | MjolnrEvent.SpawnEnvelopeArmed _ ceil mc mpc mpt eat \<Rightarrow>
          Inr (EventPayload.SpawnEnvelopeArmed (PolicyMode_to_wire ceil) mc mpc mpt eat)
    | MjolnrEvent.SpawnEnvelopeDrawn _ rn kids turns left \<Rightarrow>
          Inr (EventPayload.SpawnEnvelopeDrawn (run_uuid rn) kids turns left)
    | MjolnrEvent.SpawnEnvelopeCleared _ rsn \<Rightarrow>
          Inr (EventPayload.SpawnEnvelopeCleared (EnvelopeEnd_to_wire rsn))
    | MjolnrEvent.SubagentSpawned _ _ _ _ _ _ _ \<Rightarrow> encode_subagent_event e
    | MjolnrEvent.SubagentResultLate _ _ _ \<Rightarrow> encode_subagent_event e
    | MjolnrEvent.ReadSetCollision _ _ _ _ \<Rightarrow> encode_subagent_event e
    | MjolnrEvent.RecoveryRequired _ wk \<Rightarrow>
          Inr (EventPayload.RecoveryRequired (InterruptedWork_to_wire wk))
    | MjolnrEvent.RecoveryResolved _ dec \<Rightarrow>
          Inr (EventPayload.RecoveryResolved (RecoveryDecision_to_wire dec))
    | MjolnrEvent.SessionEnded _ \<Rightarrow> Inr EventPayload.SessionEnded
    | MjolnrEvent.TriggerFired _ _ _ _ \<Rightarrow> encode_trigger_event e
    | MjolnrEvent.TriggerSettled _ _ _ _ _ \<Rightarrow> encode_trigger_event e
    | MjolnrEvent.TriggerSkipped _ _ _ _ \<Rightarrow> encode_trigger_event e
    | MjolnrEvent.TriggerQueued _ _ \<Rightarrow> encode_trigger_event e
    | MjolnrEvent.TriggerReplaced _ _ _ \<Rightarrow> encode_trigger_event e
    | MjolnrEvent.TriggerDisabled _ _ _ _ \<Rightarrow> encode_trigger_event e
    | MjolnrEvent.TriggerRearmed _ _ \<Rightarrow> encode_trigger_event e
    | MjolnrEvent.RouteSelected _ _ _ _ _ _ _ \<Rightarrow> encode_routing_event e
    | MjolnrEvent.RouteAdvanced _ _ _ _ _ _ _ _ \<Rightarrow> encode_routing_event e
    | MjolnrEvent.RouteExhausted _ _ _ _ \<Rightarrow> encode_routing_event e
    | MjolnrEvent.BreakerStateChanged _ _ _ _ \<Rightarrow> encode_routing_event e
    | MjolnrEvent.PlanInterviewStarted _ pid gl \<Rightarrow> Inr (EventPayload.PlanInterviewStarted pid gl)
    | MjolnrEvent.PlanQuestionAsked _ pid qn \<Rightarrow> Inr (EventPayload.PlanQuestionAsked pid qn)
    | MjolnrEvent.PlanQuestionAnswered _ pid ans \<Rightarrow>
          Inr (EventPayload.PlanQuestionAnswered pid ans)
    | MjolnrEvent.PlanPrdProposed _ doc \<Rightarrow> Inr (EventPayload.PlanPrdProposed doc)
    | MjolnrEvent.PlanProposed _ prop \<Rightarrow> Inr (EventPayload.PlanProposed prop)
    | MjolnrEvent.PlanReviewed _ rv \<Rightarrow> Inr (EventPayload.PlanReviewed rv)
    | MjolnrEvent.PlanApproved _ app \<Rightarrow> Inr (EventPayload.PlanApproved app)
    | MjolnrEvent.PlanHandoffCreated _ ho \<Rightarrow> Inr (EventPayload.PlanHandoffCreated ho)
    | MjolnrEvent.CouncilReviewed _ rv \<Rightarrow> Inr (EventPayload.CouncilReviewed rv)
    | MjolnrEvent.CouncilFindingDispositionRecorded _ disp \<Rightarrow>
          Inr (EventPayload.CouncilFindingDispositionRecorded disp)
    | MjolnrEvent.CouncilAmendmentProposed _ amd \<Rightarrow>
          Inr (EventPayload.CouncilAmendmentProposed amd)
    | MjolnrEvent.ReviewNoteRecorded _ th an cmt \<Rightarrow>
          Inr (EventPayload.ReviewNoteRecorded th an cmt)
    | MjolnrEvent.ReviewCommentAdded _ th cmt \<Rightarrow> Inr (EventPayload.ReviewCommentAdded th cmt)
    | MjolnrEvent.ReviewRequestSent _ ts rn \<Rightarrow>
          Inr (EventPayload.ReviewRequestSent ts (run_uuid rn))
    | MjolnrEvent.ReviewRequestAnswered _ ts resp \<Rightarrow>
          Inr (EventPayload.ReviewRequestAnswered ts resp)
    | MjolnrEvent.DecisionTicketOpened _ tk \<Rightarrow> Inr (EventPayload.DecisionTicketOpened tk)
    | MjolnrEvent.DecisionTicketResolved _ rsl \<Rightarrow> Inr (EventPayload.DecisionTicketResolved rsl)
    | MjolnrEvent.ImportedItemFetched _ it \<Rightarrow> Inr (EventPayload.ImportedItemFetched it)
    | MjolnrEvent.ImportedItemRefreshed _ er it \<Rightarrow> Inr (EventPayload.ImportedItemRefreshed er it)
    | MjolnrEvent.ImportedActRecorded _ ac \<Rightarrow> Inr (EventPayload.ImportedActRecorded ac)
    | MjolnrEvent.ImportedCommentRecorded _ iid cmid bd \<Rightarrow>
          Inr (EventPayload.ImportedCommentRecorded iid cmid bd))"

section \<open>Decoding\<close>






section \<open>Columns\<close>

text \<open>Printing and parsing a JSON text is serde_json's: the parameter of each function.\<close>

definition check_version :: "u32 \<Rightarrow> (unit, WireError) result" where
  "check_version found =
     (if found > WIRE_VERSION then Inl (UnsupportedVersion found WIRE_VERSION) else Inr ())"



definition encode_checkpoint ::
  "(CheckpointWire \<Rightarrow> ('j, string) result) \<Rightarrow> SessionCheckpoint \<Rightarrow> ('j, WireError) result" where
  "encode_checkpoint to_string checkpoint =
     map_err (\<lambda>error. Decode (''checkpoint could not be encoded: '' @ error))
       (to_string (Checkpoint_to_wire checkpoint))"

definition decode_checkpoint ::
  "('j \<Rightarrow> (CheckpointWire, string) result) \<Rightarrow> 'j \<Rightarrow> u32 \<Rightarrow> (SessionCheckpoint, WireError) result" where
  "decode_checkpoint from_str json version =
     and_then (check_version version) (\<lambda>_.
       map_ok Checkpoint_of_wire
         (map_err (\<lambda>error. Decode (''checkpoint could not be decoded: '' @ error)) (from_str json)))"

section \<open>Lemmas\<close>


lemmas encode_helpers = encode_routing_event_def encode_trigger_event_def encode_tool_event_def
  encode_session_event_def encode_subagent_event_def encode_continuation_event_def
  encode_model_event_def




lemma encode_durable: "is_durable e \<Longrightarrow> \<exists>p. encode e = Inr p"
  by (cases e) (simp_all add: encode_def encode_helpers is_durable_def)

lemma encode_ephemeral: "\<not> is_durable e \<Longrightarrow> encode e = Inl (Ephemeral (ephemeral_kind e))"
  by (cases e) (simp_all add: encode_def is_durable_def)


lemma encode_kind:
  "encode e = Inr p \<Longrightarrow> payload_kind p \<in> set MESSAGE_BEARING_KINDS \<longleftrightarrow> introduces_message e"
  by (cases e) (auto simp: encode_def encode_helpers payload_kind_def MESSAGE_BEARING_KINDS_def
      introduces_message_def)

lemma refused_err_Inr [simp]: "map_err f r = Inr x \<longleftrightarrow> r = Inr x"
  by (cases r) (simp_all add: map_err_def)

section \<open>Properties\<close>

text \<open>
  What may be stored is exactly what is durable. A durable event has a payload, and an
  ephemeral one is refused by name; no event is refused for any other reason.
\<close>

theorem stored_iff_durable:
  "(\<exists>p. encode e = Inr p) = is_durable e
   \<and> (encode e = Inl err) = (\<not> is_durable e \<and> err = Ephemeral (ephemeral_kind e))"
  using encode_durable [of e] encode_ephemeral [of e] by (cases "is_durable e") auto



text \<open>
  a stored checkpoint reads back. With a JSON library that parses what it printed, decoding
  an encoded checkpoint gives the checkpoint, but for the position on its route, which is capped
  at 32 bits; and a checkpoint of a newer version is refused rather than read.
\<close>

theorem checkpoint_reads_back:
  assumes serde: "\<And>p json. to_string p = Inr json \<Longrightarrow> from_str json = Inr p"
    and "encode_checkpoint to_string c = Inr json"
  shows "decode_checkpoint from_str json version =
    (if version \<le> WIRE_VERSION then Inr (route_capped c)
     else Inl (UnsupportedVersion version WIRE_VERSION))"
proof -
  from assms(2) have "from_str json = Inr (Checkpoint_to_wire c)"
    by (auto simp: encode_checkpoint_def serde)
  then show ?thesis
    by (simp add: decode_checkpoint_def check_version_def Checkpoint_rt map_err_def
        linorder_not_le [symmetric])
qed

theorem checkpoint_reads_back_witness:
  "decode_checkpoint Inr (Checkpoint_to_wire (checkpoint_empty (SessionId 1))) 22
     = (Inr (checkpoint_empty (SessionId 1)) :: (SessionCheckpoint, WireError) result)"
  using checkpoint_reads_back [where to_string = Inr and from_str = Inr and version = 22
      and c = "checkpoint_empty (SessionId 1)"]
  by (simp add: encode_checkpoint_def map_err_def WIRE_VERSION_def route_capped_def checkpoint_empty_def)

text \<open>
  The list of message-bearing kinds is the predicate. A payload's kind is in the list that
  recovery counts by exactly if its event introduces a message.
\<close>

theorem message_kinds_are_messages:
  assumes "encode e = Inr p"
  shows "(payload_kind p \<in> set MESSAGE_BEARING_KINDS) = introduces_message e"
  by (rule encode_kind [OF assms])

theorem message_kinds_are_messages_witness:
  "payload_kind (EventPayload.RunStarted 7) \<notin> set MESSAGE_BEARING_KINDS"
  using message_kinds_are_messages [of "MjolnrEvent.RunStarted (SessionId 1) (RunId 7)"]
  by (simp add: encode_def introduces_message_def)

end
