(* ===== verification/Replay.thy ===== *)
theory Replay
  imports Session Store
begin

text \<open>
  Rebuilding a session from a checkpoint and the events after it (\<^verbatim>\<open>runtime/recovery.rs\<close>), and
  the checkpoint a session is projected into (\<^verbatim>\<open>build_checkpoint\<close> of \<^verbatim>\<open>runtime/durability.rs\<close>).
  Replay makes a fresh message for every tool result: its id and time are given by the
  function \<^verbatim>\<open>mint\<close> of the event. A UUID is printed by \<^verbatim>\<open>show_uuid\<close>.
\<close>

section \<open>Work in flight\<close>

datatype PendingWork =
    AwaitingApproval ApprovalId ToolCall ToolTier string
  | Started Authority ToolCall ToolTier string

record OpenRun =
  open_id :: RunId
  open_tool :: "PendingWork option"

type_synonym Tracker = "OpenRun option"

definition open_run :: "RunId \<Rightarrow> Tracker \<Rightarrow> Tracker" where
  "open_run run tr = Some \<lparr>open_id = run, open_tool = None\<rparr>"

definition close_run :: "RunId \<Rightarrow> Tracker \<Rightarrow> Tracker" where
  "close_run run tr = (case tr of
      Some r \<Rightarrow> if open_id r = run then None else tr
    | None \<Rightarrow> tr)"

definition clear :: "Tracker \<Rightarrow> Tracker" where
  "clear tr = None"

definition settle :: "RunId \<Rightarrow> Tracker \<Rightarrow> Tracker" where
  "settle run tr = (case tr of
      Some r \<Rightarrow> if open_id r = run then Some (r\<lparr>open_tool := None\<rparr>) else tr
    | None \<Rightarrow> tr)"

definition propose ::
  "RunId \<Rightarrow> ApprovalId option \<Rightarrow> ToolCall \<Rightarrow> ToolTier \<Rightarrow> string \<Rightarrow> Tracker \<Rightarrow> Tracker" where
  "propose run approval call tier preview tr = (case tr of
      Some r \<Rightarrow>
        if open_id r = run
        then Some (r\<lparr>open_tool := Some (case approval of
            Some i \<Rightarrow> AwaitingApproval i call tier preview
          | None \<Rightarrow> Started PolicyAuthority call tier preview)\<rparr>)
        else tr
    | None \<Rightarrow> tr)"

definition tracker_resolve_approval ::
  "RunId \<Rightarrow> ApprovalId \<Rightarrow> ApprovalDecision \<Rightarrow> Tracker \<Rightarrow> Tracker" where
  "tracker_resolve_approval run approval dec tr = (case tr of
      Some r \<Rightarrow>
        if open_id r = run
        then (case open_tool r of
            Some (AwaitingApproval pending call tier preview) \<Rightarrow>
              if pending \<noteq> approval then tr
              else Some (r\<lparr>open_tool := (case dec of
                  ApprovalDecision.Deny \<Rightarrow> None
                | ApprovalDecision.ApproveOnce \<Rightarrow> Some (Started (Approval approval) call tier preview)
                | ApprovalDecision.ApproveExactForSession \<Rightarrow>
                    Some (Started (Approval approval) call tier preview)
                | ApprovalDecision.AutoByPolicy \<Rightarrow> Some (Started PolicyAuthority call tier preview))\<rparr>)
          | _ \<Rightarrow> tr)
        else tr
    | None \<Rightarrow> tr)"

definition tracker_finish :: "Tracker \<Rightarrow> RecoveryState" where
  "tracker_finish tr = (case tr of
      None \<Rightarrow> Clean
    | Some r \<Rightarrow> Required \<lparr>interrupted_run = open_id r, interrupted_kind = (case open_tool r of
          None \<Rightarrow> ProviderTurnInterrupted
        | Some (AwaitingApproval _ call tier preview) \<Rightarrow> ProposalUnapproved call tier preview
        | Some (Started authority call tier preview) \<Rightarrow> EffectUncertain authority call tier preview)\<rparr>)"

lemmas tracker_defs [step_defs] = open_run_def close_run_def clear_def settle_def propose_def
  tracker_resolve_approval_def

section \<open>Projection\<close>

text \<open>\<^verbatim>\<open>Path::join\<close> on a Unix path: an absolute path replaces the root.\<close>

definition path_join :: "string \<Rightarrow> string \<Rightarrow> string" where
  "path_join root path =
     (if path \<noteq> [] \<and> hd path = CHR 0x2F then path
      else if root = [] \<or> last root = CHR 0x2F then root @ path
      else root @ [CHR 0x2F] @ path)"

definition observe_path ::
  "string \<Rightarrow> string \<Rightarrow> SessionState \<Rightarrow> (SessionState, ToolError) result" where
  "observe_path path sha256 st = (case st_workspace_root st of
      None \<Rightarrow> Inr st
    | Some root \<Rightarrow> map_ok (\<lambda>rs. st\<lparr>st_read_set := rs\<rparr>)
        (ReadSet_observe (path_join root path) sha256 (st_read_set st)))"

definition observe_result ::
  "(uuid \<Rightarrow> string) \<Rightarrow> StoredEvent \<Rightarrow> ToolResult \<Rightarrow> SessionState \<Rightarrow> (SessionState, ToolError) result"
where
  "observe_result show_uuid stored result st =
     (let evidence = show_uuid (event_uuid (stored_id stored)) in
      if \<not> ToolOutcome_is_ok (result_outcome result) then Inr st
      else case effect result of
          ToolEffect.Read path sha256 \<Rightarrow>
            map_ok (\<lambda>st. st\<lparr>st_read_evidence := bt_insert path
                \<lparr>read_path = path, read_sha256 = sha256, read_tool_event_id = evidence\<rparr>
                (st_read_evidence st)\<rparr>)
              (observe_path path sha256 st)
        | ToolEffect.Mutation path sha256 \<Rightarrow>
            map_ok (\<lambda>st. st\<lparr>st_last_mutation_sequence := Some (stored_sequence stored)\<rparr>)
              (observe_path path sha256 st)
        | ToolEffect.Command _ success _ \<Rightarrow>
            Inr (if success
              then st\<lparr>st_successful_command_evidence := bt_insert evidence (stored_sequence stored)
                  (st_successful_command_evidence st)\<rparr>
              else st)
        | ToolEffect.SkillActivated name project \<Rightarrow>
            Inr (st\<lparr>st_activated_skills := bs_insert name (st_activated_skills st),
              st_workspace_trusted := (st_workspace_trusted st \<or> project)\<rparr>)
        | ToolEffect.NoEffect \<Rightarrow> Inr st
        | ToolEffect.Completion _ \<Rightarrow> Inr st)"

definition is_projection_noop :: "MjolnrEvent \<Rightarrow> bool" where
  "is_projection_noop e = (case e of
      MjolnrEvent.BudgetExhausted _ _ \<Rightarrow> True
    | MjolnrEvent.ModelChangeRefused _ _ _ _ _ \<Rightarrow> True
    | MjolnrEvent.FileSaved _ _ _ _ _ \<Rightarrow> True
    | MjolnrEvent.RecoveryRequired _ _ \<Rightarrow> True
    | MjolnrEvent.TextDelta _ _ _ \<Rightarrow> True
    | MjolnrEvent.ReasoningDelta _ _ _ \<Rightarrow> True
    | MjolnrEvent.ToolAssembling _ _ _ \<Rightarrow> True
    | MjolnrEvent.QuotaReported _ _ _ \<Rightarrow> True
    | MjolnrEvent.SubagentSpawned _ _ _ _ _ _ _ \<Rightarrow> True
    | MjolnrEvent.SubagentResultLate _ _ _ \<Rightarrow> True
    | MjolnrEvent.ReadSetCollision _ _ _ _ \<Rightarrow> True
    | MjolnrEvent.SubagentActivity _ _ _ _ \<Rightarrow> True
    | MjolnrEvent.TriggerFired _ _ _ _ \<Rightarrow> True
    | MjolnrEvent.TriggerSettled _ _ _ _ _ \<Rightarrow> True
    | MjolnrEvent.TriggerSkipped _ _ _ _ \<Rightarrow> True
    | MjolnrEvent.TriggerQueued _ _ \<Rightarrow> True
    | MjolnrEvent.TriggerReplaced _ _ _ \<Rightarrow> True
    | MjolnrEvent.TriggerDisabled _ _ _ _ \<Rightarrow> True
    | MjolnrEvent.TriggerRearmed _ _ \<Rightarrow> True
    | MjolnrEvent.RouteSelected _ child _ _ _ _ _ \<Rightarrow> child \<noteq> None
    | MjolnrEvent.RouteExhausted _ _ _ _ \<Rightarrow> True
    | MjolnrEvent.BreakerStateChanged _ _ _ _ \<Rightarrow> True
    | _ \<Rightarrow> False)"

text \<open>The three things a replay folds: the state, the work in flight and the status.\<close>

type_synonym projection = "SessionState \<times> Tracker \<times> SessionStatus"

text \<open>Counters of tokens are 64 bits wide and added unchecked.\<close>

definition usage_add :: "Usage \<Rightarrow> Usage \<Rightarrow> Usage" where
  "usage_add u v = \<lparr>input_tokens = input_tokens u + input_tokens v,
     output_tokens = output_tokens u + output_tokens v\<rparr>"

definition projection_apply ::
  "(uuid \<Rightarrow> string) \<Rightarrow> (StoredEvent \<Rightarrow> uuid \<times> instant) \<Rightarrow> StoredEvent \<Rightarrow> projection
     \<Rightarrow> (projection, ToolError) result" where
  "projection_apply show_uuid mint stored = (\<lambda>(st, tr, status).
     let push = (\<lambda>cid name result. push_message (Some (stored_sequence stored))
           (message_tool_result (fst (mint stored)) (snd (mint stored)) cid name result)) in
     if is_projection_noop (stored_event stored) then Inr (st, tr, status)
     else case stored_event stored of
        MjolnrEvent.SessionCreated session provider model \<Rightarrow>
          Inr (st\<lparr>st_session := Some session, st_provider := Some provider,
            st_model := Some model\<rparr>, tr, status)
      | MjolnrEvent.ModelChanged _ provider model \<Rightarrow>
          Inr (st\<lparr>st_provider := Some provider, st_model := Some model\<rparr>, tr, status)
      | MjolnrEvent.MessageAppended _ message \<Rightarrow>
          Inr (push_message (Some (stored_sequence stored)) message st, tr, status)
      | MjolnrEvent.UsageReported _ _ usage \<Rightarrow>
          Inr (st\<lparr>st_usage := usage_add (st_usage st) usage\<rparr>, tr, status)
      | MjolnrEvent.PolicyChanged _ mode \<Rightarrow> Inr (st\<lparr>st_policy := mode\<rparr>, tr, status)
      | MjolnrEvent.QuotaBoundaryReached _ _ reserve \<Rightarrow>
          Inr (st\<lparr>st_quota_reserve := reserve\<rparr>, tr, status)
      | MjolnrEvent.HandoffCreated _ handoff \<Rightarrow> Inr (st\<lparr>st_handoff := Some handoff\<rparr>, tr, status)
      | MjolnrEvent.RunStarted _ run \<Rightarrow> Inr (st, open_run run tr, status)
      | MjolnrEvent.ToolProposed _ run approval call tier preview \<Rightarrow>
          Inr (st, propose run approval call tier preview tr, status)
      | MjolnrEvent.ApprovalResolved _ run approval dec \<Rightarrow>
          Inr (st, tracker_resolve_approval run approval dec tr, status)
      | MjolnrEvent.ToolCompleted _ run cid name result \<Rightarrow>
          map_ok (\<lambda>st. (push cid name
              (result\<lparr>evidence_event_id := Some (show_uuid (event_uuid (stored_id stored)))\<rparr>) st,
              settle run tr, status))
            (observe_result show_uuid stored result st)
      | MjolnrEvent.ToolFailed _ run cid name code detail \<Rightarrow>
          Inr (push cid name (ToolResult_failed code detail) st, settle run tr, status)
      | MjolnrEvent.RunFinished _ run _ \<Rightarrow> Inr (st, close_run run tr, status)
      | MjolnrEvent.RunFailed _ run _ _ \<Rightarrow> Inr (st, close_run run tr, status)
      | MjolnrEvent.RecoveryResolved _ dec \<Rightarrow>
          Inr (st, clear tr, if dec = EndSession then Ended else status)
      | MjolnrEvent.SessionEnded _ \<Rightarrow> Inr (st, clear tr, Ended)
      | MjolnrEvent.RouteSelected _ _ route position provider model _ \<Rightarrow>
          Inr (st\<lparr>st_route := Some \<lparr>rt_route = route, rt_position = position\<rparr>,
            st_provider := Some provider, st_model := Some model\<rparr>, tr, status)
      | MjolnrEvent.RouteAdvanced _ _ route _ to_position provider model _ \<Rightarrow>
          Inr (st\<lparr>st_route := Some \<lparr>rt_route = route, rt_position = to_position\<rparr>,
            st_provider := Some provider, st_model := Some model\<rparr>, tr, status)
      | MjolnrEvent.ReviewNoteRecorded _ _ _ _ \<Rightarrow>
          Inr (st\<lparr>st_review_threads := review_apply show_uuid (stored_event stored)
            (st_review_threads st)\<rparr>, tr, status)
      | MjolnrEvent.ReviewCommentAdded _ _ _ \<Rightarrow>
          Inr (st\<lparr>st_review_threads := review_apply show_uuid (stored_event stored)
            (st_review_threads st)\<rparr>, tr, status)
      | MjolnrEvent.ReviewRequestSent _ _ _ \<Rightarrow>
          Inr (st\<lparr>st_review_threads := review_apply show_uuid (stored_event stored)
            (st_review_threads st)\<rparr>, tr, status)
      | MjolnrEvent.ReviewRequestAnswered _ _ _ \<Rightarrow>
          Inr (st\<lparr>st_review_threads := review_apply show_uuid (stored_event stored)
            (st_review_threads st)\<rparr>, tr, status)
      | _ \<Rightarrow> Inr (st, tr, status))"

text \<open>
  The messages of a checkpoint take the anchors they are given if there is one for each, and
  none otherwise.
\<close>

definition restore_messages :: "u64 list \<Rightarrow> CanonicalMessage list \<Rightarrow> TranscriptEntry list" where
  "restore_messages covered messages =
     (if length covered = length messages
      then map (\<lambda>(s, m). anchored s m) (zip covered messages)
      else map unanchored messages)"

definition base_state ::
  "SessionCheckpoint option \<Rightarrow> u64 list \<Rightarrow> (SessionState \<times> SessionStatus, ToolError) result" where
  "base_state cp covered = (case cp of
      None \<Rightarrow> Inr (SessionState_default, Active)
    | Some c \<Rightarrow> map_ok (\<lambda>rs. (SessionState_default\<lparr>
          st_session := Some (cp_session c),
          st_workspace_root := cp_project_root c,
          st_provider := cp_provider c,
          st_model := cp_model c,
          st_usage := cp_usage c,
          st_policy := cp_policy c,
          st_budget := cp_budget c,
          st_read_set := rs,
          st_read_evidence := fold (\<lambda>r. bt_insert (read_path r) r) (cp_read_evidence c) [],
          st_review_threads := fold (\<lambda>t. bt_insert (thread_id t) t) (cp_review_threads c) [],
          st_last_mutation_sequence := cp_last_mutation_sequence c,
          st_successful_command_evidence := cp_successful_command_evidence c,
          st_activated_skills := fold bs_insert (cp_activated_skills c) [],
          st_workspace_trusted := cp_workspace_trusted c,
          st_handoff := cp_handoff c,
          st_quota_reserve := cp_quota_reserve c,
          st_route := cp_route c,
          st_messages := restore_messages covered (cp_messages c)\<rparr>, cp_status c))
        (ReadSet_restore (cp_read_set c)))"

record Recovered =
  recovered_state :: SessionState
  recovered_recovery :: RecoveryState
  recovered_status :: SessionStatus

definition project ::
  "(uuid \<Rightarrow> string) \<Rightarrow> (StoredEvent \<Rightarrow> uuid \<times> instant) \<Rightarrow> SessionCheckpoint option \<Rightarrow> u64 list
     \<Rightarrow> StoredEvent list \<Rightarrow> (Recovered, ToolError) result" where
  "project show_uuid mint cp covered events =
     and_then (base_state cp covered) (\<lambda>(st, status).
     map_ok (\<lambda>(st, tr, status). \<lparr>recovered_state = st\<lparr>st_policy := carried_forward (st_policy st)\<rparr>,
         recovered_recovery = tracker_finish tr, recovered_status = status\<rparr>)
       (replay (projection_apply show_uuid mint) events (st, None, status)))"

text \<open>The checkpoint a live session is projected into.\<close>

definition build_checkpoint ::
  "SessionId \<Rightarrow> SessionStatus \<Rightarrow> SessionState \<Rightarrow> (SessionCheckpoint, ToolError) result" where
  "build_checkpoint session status st = map_ok (\<lambda>entries. \<lparr>
       cp_session = session,
       cp_status = status,
       cp_project_root = st_workspace_root st,
       cp_provider = st_provider st,
       cp_model = st_model st,
       cp_messages = plain_messages st,
       cp_usage = st_usage st,
       cp_policy = st_policy st,
       cp_budget = st_budget st,
       cp_read_set = entries,
       cp_read_evidence = bt_values (st_read_evidence st),
       cp_review_threads = bt_values (st_review_threads st),
       cp_last_mutation_sequence = st_last_mutation_sequence st,
       cp_successful_command_evidence = st_successful_command_evidence st,
       cp_activated_skills = st_activated_skills st,
       cp_workspace_trusted = st_workspace_trusted st,
       cp_handoff = st_handoff st,
       cp_quota_reserve = st_quota_reserve st,
       cp_route = st_route st\<rparr>)
     (ReadSet_entries (st_read_set st))"


section \<open>Replay never fails\<close>

text \<open>What a replay keeps: an unpoisoned read set, ordered maps keyed by what their values name.\<close>

definition bt_keyed :: "('v \<Rightarrow> 'k::linorder) \<Rightarrow> ('k, 'v) btree_map \<Rightarrow> bool" where
  "bt_keyed f m \<longleftrightarrow> bt_wf m \<and> (\<forall>k v. bt_get m k = Some v \<longrightarrow> f v = k)"

definition state_wf :: "SessionState \<Rightarrow> bool" where
  [inv_defs]: "state_wf st \<longleftrightarrow> ReadSet_wf (st_read_set st)
     \<and> bt_keyed read_path (st_read_evidence st)
     \<and> bt_keyed thread_id (st_review_threads st)
     \<and> bs_wf (st_activated_skills st)"

lemma bt_keyed_Nil [simp]: "bt_keyed f []"
  by (simp add: bt_keyed_def)

lemma bt_keyed_insert: "bt_keyed f m \<Longrightarrow> f v = k \<Longrightarrow> bt_keyed f (bt_insert k v m)"
  by (auto simp: bt_keyed_def)

lemma bt_keyed_modify: "bt_keyed f m \<Longrightarrow> (\<And>v. f (g v) = f v) \<Longrightarrow> bt_keyed f (bt_modify i g m)"
  by (auto simp: bt_keyed_def split: if_splits)

lemma bt_keyed_fold_modify:
  "bt_keyed f m \<Longrightarrow> (\<And>v. f (g v) = f v) \<Longrightarrow> bt_keyed f (fold (\<lambda>i. bt_modify i g) is m)"
  by (induction "is" arbitrary: m) (simp_all add: bt_keyed_modify)

text \<open>Listing the values of such a map and inserting each under its own name rebuilds it.\<close>

lemma bt_keyed_values: "bt_keyed f m \<Longrightarrow> map (\<lambda>v. (f v, v)) (bt_values m) = m"
proof -
  assume k: "bt_keyed f m"
  have "(f (snd kv), snd kv) = kv" if "kv \<in> set m" for kv
  proof -
    obtain a b where kv: "kv = (a, b)" by (cases kv)
    with that k have "bt_get m a = Some b" by (simp add: bt_keyed_def bt_get_in_set)
    with kv k show ?thesis by (simp add: bt_keyed_def)
  qed
  then show ?thesis by (simp add: bt_values_def map_idI)
qed

lemma bt_keyed_rebuild: "bt_keyed f m \<Longrightarrow> fold (\<lambda>v. bt_insert (f v) v) (bt_values m) [] = m"
proof -
  assume k: "bt_keyed f m"
  have "fold (\<lambda>v. bt_insert (f v) v) (bt_values m) []
      = fold (\<lambda>(k, v). bt_insert k v) (map (\<lambda>v. (f v, v)) (bt_values m)) []"
    by (simp add: fold_map comp_def)
  with k show ?thesis by (simp add: bt_keyed_values bt_rebuild_empty bt_keyed_def)
qed

lemma state_wf_default [simp]: "state_wf SessionState_default"
  by (simp add: state_wf_def SessionState_default_def ReadSet_default_def ReadSet_wf_def)

lemma review_apply_keyed:
  "bt_keyed thread_id m \<Longrightarrow> bt_keyed thread_id (review_apply show_uuid e m)"
  by (cases e)
    (simp_all add: review_apply_def bt_or_insert_def thread_open_def bt_keyed_insert bt_keyed_modify
      bt_keyed_fold_modify)

definition observed :: "string \<Rightarrow> string \<Rightarrow> SessionState \<Rightarrow> ReadSet" where
  "observed path sha256 st = (case st_workspace_root st of
      None \<Rightarrow> st_read_set st
    | Some root \<Rightarrow> st_read_set st\<lparr>read_files := bt_insert (path_join root path) sha256
        (read_files (st_read_set st))\<rparr>)"

lemma observe_path_eq:
  "\<not> poisoned (st_read_set st) \<Longrightarrow> observe_path p h st = Inr (st\<lparr>st_read_set := observed p h st\<rparr>)"
  by (simp add: observe_path_def observed_def ReadSet_observe_def split: option.split)

lemma observed_wf: "ReadSet_wf (st_read_set st) \<Longrightarrow> ReadSet_wf (observed p h st)"
  by (auto simp: observed_def ReadSet_wf_def split: option.split)

lemma state_wf_unpoisoned: "state_wf st \<Longrightarrow> \<not> poisoned (st_read_set st)"
  by (simp add: state_wf_def ReadSet_wf_def)

lemma observe_result_total:
  assumes "state_wf st"
  shows "\<exists>st'. observe_result show_uuid s r st = Inr st' \<and> state_wf st'"
  using assms
  by (cases "effect r")
    (simp_all add: observe_result_def Let_def observe_path_eq state_wf_unpoisoned,
     auto simp: state_wf_def observed_wf bt_keyed_insert)

lemma push_message_wf [simp]: "state_wf (push_message q m st) = state_wf st"
  by (simp add: state_wf_def push_message_def)

lemma projection_apply_total:
  assumes "state_wf st"
  shows "\<exists>st' tr' status'. projection_apply show_uuid mint s (st, tr, status) = Inr (st', tr', status')
    \<and> state_wf st'"
proof (cases "stored_event s")
  case (ToolCompleted i run cid name r)
  obtain st' where "observe_result show_uuid s r st = Inr st'" "state_wf st'"
    using observe_result_total [OF assms] by blast
  with ToolCompleted show ?thesis
    by (simp add: projection_apply_def is_projection_noop_def Let_def)
qed (use assms in \<open>simp_all add: projection_apply_def is_projection_noop_def Let_def state_wf_def
  review_apply_keyed push_message_def\<close>)

definition projection_wf :: "projection \<Rightarrow> bool" where
  "projection_wf p \<longleftrightarrow> state_wf (fst p)"

lemma projection_replay_total:
  "projection_wf p \<Longrightarrow> \<exists>p'. replay (projection_apply show_uuid mint) es p = Inr p' \<and> projection_wf p'"
proof (induction es arbitrary: p)
  case (Cons s es)
  obtain st tr status where p: "p = (st, tr, status)" by (cases p)
  with Cons.prems have "state_wf st" by (simp add: projection_wf_def)
  from projection_apply_total [OF this] p obtain q where
    "projection_apply show_uuid mint s p = Inr q" "projection_wf q"
    unfolding projection_wf_def by fastforce
  with Cons.IH show ?case by simp
qed simp

lemma fold_keyed: "bt_keyed f m \<Longrightarrow> bt_keyed f (fold (\<lambda>v. bt_insert (f v) v) vs m)"
  by (induction vs arbitrary: m) (simp_all add: bt_keyed_insert)

lemma fold_bs_wf: "bs_wf s \<Longrightarrow> bs_wf (fold bs_insert xs s)"
  by (induction xs arbitrary: s) (simp_all add: bs_wf_insert)

lemma base_state_total: "\<exists>st status. base_state cp covered = Inr (st, status) \<and> state_wf st"
proof (cases cp)
  case None
  then show ?thesis using state_wf_default by (simp add: base_state_def)
next
  case (Some c)
  then show ?thesis
    by (simp add: base_state_def ReadSet_restore_eq state_wf_def ReadSet_wf_def fold_bt_insert_wf
      fold_keyed fold_bs_wf)
qed

section \<open>What a replay cannot restore\<close>

text \<open>
  Everything a human granted to the session that ended, and everything that was only queued
  in it.
\<close>

definition ungranted :: "SessionState \<Rightarrow> bool" where
  "ungranted st \<longleftrightarrow> st_exact_commands st = {} \<and> st_envelope st = None
     \<and> st_pending_approval st = None \<and> st_steering st = [] \<and> st_branch_parent st = None
     \<and> st_persona_override st = None"

lemma observe_result_ungranted:
  "observe_result show_uuid s r st = Inr st' \<Longrightarrow> ungranted st' = ungranted st"
  by (auto simp: observe_result_def observe_path_def ungranted_def Let_def map_ok_Inr
      split: if_splits ToolEffect.splits option.splits)

lemma push_message_ungranted [simp]: "ungranted (push_message q m st) = ungranted st"
  by (simp add: ungranted_def push_message_def)

lemma projection_apply_ungranted:
  "projection_apply show_uuid mint s (st, tr, status) = Inr (st', tr', status') \<Longrightarrow>
     ungranted st' = ungranted st"
  by (cases "stored_event s")
    (auto simp: projection_apply_def is_projection_noop_def Let_def map_ok_Inr ungranted_def
      push_message_def dest!: observe_result_ungranted split: if_splits)

lemma projection_replay_ungranted:
  "replay (projection_apply show_uuid mint) es (st, tr, status) = Inr (st', tr', status') \<Longrightarrow>
     ungranted st' = ungranted st"
proof (induction es arbitrary: st tr status)
  case (Cons s es)
  then obtain u tu su where u: "projection_apply show_uuid mint s (st, tr, status) = Inr (u, tu, su)"
    and r: "replay (projection_apply show_uuid mint) es (u, tu, su) = Inr (st', tr', status')"
    by (auto simp: and_then_Inr)
  from projection_apply_ungranted [OF u] Cons.IH [OF r] show ?case by simp
qed simp

lemma base_state_ungranted: "base_state cp covered = Inr (st, status) \<Longrightarrow> ungranted st"
  by (cases cp) (auto simp: base_state_def map_ok_Inr ungranted_def SessionState_default_def)

section \<open>The stamps of tool messages\<close>

text \<open>A replay gives the message of a tool result a fresh id and time.\<close>

definition unstamp_entry :: "TranscriptEntry \<Rightarrow> TranscriptEntry" where
  "unstamp_entry t = (if role (entry_message t) = Role.Tool
     then t\<lparr>entry_message := (entry_message t)\<lparr>message_id := 0, created_at := 0\<rparr>\<rparr> else t)"

lemma unstamp_tool_result [simp]:
  "unstamp_entry \<lparr>entry_sequence = q, entry_message = message_tool_result i t cid name r\<rparr>
     = \<lparr>entry_sequence = q, entry_message = message_tool_result 0 0 cid name r\<rparr>"
  by (simp add: unstamp_entry_def message_tool_result_def)

section \<open>A replay keeps its anchors\<close>

definition transcript_anchors :: "StoredEvent list \<Rightarrow> u64 option list" where
  "transcript_anchors es =
     map (\<lambda>s. Some (stored_sequence s)) (filter (\<lambda>s. introduces_message (stored_event s)) es)"

lemma observe_result_messages:
  "observe_result show_uuid s r st = Inr st' \<Longrightarrow> st_messages st' = st_messages st"
  by (auto simp: observe_result_def observe_path_def Let_def map_ok_Inr
      split: if_splits ToolEffect.splits option.splits)

lemma projection_apply_anchors:
  "projection_apply show_uuid mint s (st, tr, status) = Inr (st', tr', status') \<Longrightarrow>
     map entry_sequence (st_messages st')
       = map entry_sequence (st_messages st) @ transcript_anchors [s]"
  by (cases "stored_event s")
    (auto simp: projection_apply_def is_projection_noop_def Let_def map_ok_Inr push_message_def
      transcript_anchors_def introduces_message_def dest!: observe_result_messages split: if_splits)

lemma replay_anchors:
  "replay (projection_apply show_uuid mint) es (st, tr, status) = Inr (st', tr', status') \<Longrightarrow>
     map entry_sequence (st_messages st')
       = map entry_sequence (st_messages st) @ transcript_anchors es"
proof (induction es arbitrary: st tr status)
  case (Cons s es)
  then obtain u tu su where u: "projection_apply show_uuid mint s (st, tr, status) = Inr (u, tu, su)"
    and r: "replay (projection_apply show_uuid mint) es (u, tu, su) = Inr (st', tr', status')"
    by (auto simp: and_then_Inr)
  from projection_apply_anchors [OF u] Cons.IH [OF r] show ?case
    by (simp add: transcript_anchors_def)
qed (simp add: transcript_anchors_def)

lemma unstamp_anchor [simp]: "entry_sequence (unstamp_entry t) = entry_sequence t"
  by (simp add: unstamp_entry_def)

lemma restore_plain:
  "map entry_sequence ms = map Some qs \<Longrightarrow> restore_messages qs (map entry_message ms) = ms"
proof -
  assume a: "map entry_sequence ms = map Some qs"
  then have l: "length qs = length ms" by (metis length_map)
  have "map (\<lambda>(s, m). anchored s m) (zip qs (map entry_message ms)) = ms"
    using l a
  proof (induction qs ms rule: list_induct2)
    case (Cons q qs m ms)
    then show ?case by (cases m) (simp add: anchored_def)
  qed simp
  with l show ?thesis by (simp add: restore_messages_def)
qed

section \<open>A checkpoint restores what a live session has on record\<close>

text \<open>What a checkpoint keeps of a state: the rest is at its default.\<close>

definition checkpointed :: "SessionState \<Rightarrow> SessionState" where
  "checkpointed st = SessionState_default\<lparr>
     st_session := st_session st, st_workspace_root := st_workspace_root st,
     st_provider := st_provider st, st_model := st_model st, st_usage := st_usage st,
     st_policy := st_policy st, st_budget := st_budget st, st_read_set := st_read_set st,
     st_read_evidence := st_read_evidence st, st_review_threads := st_review_threads st,
     st_last_mutation_sequence := st_last_mutation_sequence st,
     st_successful_command_evidence := st_successful_command_evidence st,
     st_activated_skills := st_activated_skills st,
     st_workspace_trusted := st_workspace_trusted st, st_handoff := st_handoff st,
     st_quota_reserve := st_quota_reserve st, st_route := st_route st,
     st_messages := st_messages st\<rparr>"

lemma base_state_restores:
  assumes "state_wf st" "st_session st = Some session"
    and "map entry_sequence (st_messages st) = map Some covered"
    and "build_checkpoint session status st = Inr cp"
  shows "base_state (Some cp) covered = Inr (checkpointed st, status)"
proof -
  have w: "\<not> poisoned (st_read_set st)" "bt_wf (read_files (st_read_set st))"
    using assms(1) by (simp_all add: state_wf_def ReadSet_wf_def)
  have r: "ReadSet_restore (read_files (st_read_set st)) = Inr (st_read_set st)"
    using w by (simp add: ReadSet_restore_eq bt_rebuild_empty)
  have keyed: "bt_keyed read_path (st_read_evidence st)" "bt_keyed thread_id (st_review_threads st)"
    "bs_wf (st_activated_skills st)"
    using assms(1) by (simp_all add: state_wf_def)
  have m: "restore_messages covered (plain_messages st) = st_messages st"
    using restore_plain [OF assms(3)] by (simp add: plain_messages_def)
  show ?thesis
    using assms(4) [symmetric] w(1) unfolding build_checkpoint_def ReadSet_entries_def base_state_def checkpointed_def
    by (simp add: r m keyed bt_keyed_rebuild bs_rebuild assms(2))
qed

section \<open>What the log determines\<close>

text \<open>
  The part of a state that the log alone determines, with the stamps of tool messages removed.
  What the log does not hold is the workspace and whether it is trusted, the read set of
  its files, the budget, the reserve of the quota and a policy nobody changed by command.
\<close>

definition log_part :: "SessionState \<Rightarrow> SessionState" where
  "log_part st = SessionState_default\<lparr>
     st_session := st_session st, st_provider := st_provider st, st_model := st_model st,
     st_usage := st_usage st, st_handoff := st_handoff st, st_route := st_route st,
     st_read_evidence := st_read_evidence st, st_review_threads := st_review_threads st,
     st_last_mutation_sequence := st_last_mutation_sequence st,
     st_successful_command_evidence := st_successful_command_evidence st,
     st_activated_skills := st_activated_skills st,
     st_messages := map unstamp_entry (st_messages st)\<rparr>"

lemma log_part_eq: "log_part st = log_part u \<longleftrightarrow>
    st_session st = st_session u \<and> st_provider st = st_provider u \<and> st_model st = st_model u
    \<and> st_usage st = st_usage u \<and> st_handoff st = st_handoff u \<and> st_route st = st_route u
    \<and> st_read_evidence st = st_read_evidence u \<and> st_review_threads st = st_review_threads u
    \<and> st_last_mutation_sequence st = st_last_mutation_sequence u
    \<and> st_successful_command_evidence st = st_successful_command_evidence u
    \<and> st_activated_skills st = st_activated_skills u
    \<and> map unstamp_entry (st_messages st) = map unstamp_entry (st_messages u)"
  by (simp add: log_part_def SessionState_default_def) blast

lemma log_part_anchors: "log_part st = log_part u \<Longrightarrow> map entry_sequence (st_messages st) = map entry_sequence (st_messages u)"
proof -
  assume "log_part st = log_part u"
  then have "map entry_sequence (map unstamp_entry (st_messages st)) = map entry_sequence (map unstamp_entry (st_messages u))"
    by (simp add: log_part_eq)
  then show ?thesis by (simp add: comp_def)
qed

text \<open>The versions of files an event shows, and the policy a human last asked for.\<close>

definition seen :: "string option \<Rightarrow> StoredEvent \<Rightarrow> (string \<times> string) list" where
  "seen root s = (case (root, stored_event s) of
      (Some root, MjolnrEvent.ToolCompleted _ _ _ _ result) \<Rightarrow>
        if ToolOutcome_is_ok (result_outcome result)
        then (case effect result of
            ToolEffect.Read path sha256 \<Rightarrow> [(path_join root path, sha256)]
          | ToolEffect.Mutation path sha256 \<Rightarrow> [(path_join root path, sha256)]
          | _ \<Rightarrow> [])
        else []
    | _ \<Rightarrow> [])"

definition policy_after :: "StoredEvent \<Rightarrow> PolicyMode \<Rightarrow> PolicyMode" where
  "policy_after s mode = (case stored_event s of MjolnrEvent.PolicyChanged _ mode \<Rightarrow> mode | _ \<Rightarrow> mode)"

definition kept_besides :: "SessionState \<Rightarrow> StoredEvent list \<Rightarrow> SessionState \<Rightarrow> bool" where
  "kept_besides st es st' \<longleftrightarrow> st_workspace_root st' = st_workspace_root st \<and> st_budget st' = st_budget st
     \<and> (st_workspace_trusted st \<longrightarrow> st_workspace_trusted st') \<and> st_policy st' = fold policy_after es (st_policy st)
     \<and> read_files (st_read_set st')
        = fold (\<lambda>(p, h). bt_insert p h) (concat (map (seen (st_workspace_root st)) es)) (read_files (st_read_set st))"

lemma observe_log_part:
  assumes "log_part st = log_part u" "state_wf st" "state_wf u"
  shows "\<exists>a b. observe_result show_uuid s r st = Inr a \<and> observe_result show_uuid s r u = Inr b
    \<and> log_part a = log_part b \<and> state_wf a \<and> state_wf b"
proof -
  obtain a b where ab: "observe_result show_uuid s r st = Inr a" "observe_result show_uuid s r u = Inr b"
    "state_wf a" "state_wf b"
    using observe_result_total assms(2,3) by metis
  have "log_part a = log_part b"
    using ab(1,2) assms(1) state_wf_unpoisoned [OF assms(2)] state_wf_unpoisoned [OF assms(3)]
    by (cases "effect r") (auto simp: observe_result_def Let_def observe_path_eq log_part_eq split: if_splits)
  with ab show ?thesis by blast
qed

lemma log_part_push: "log_part (push_message q m st)
    = push_message q (entry_message (unstamp_entry \<lparr>entry_sequence = q, entry_message = m\<rparr>)) (log_part st)"
  by (simp add: log_part_def push_message_def unstamp_entry_def SessionState_default_def)

lemma log_part_update [simp]:
  "log_part (st\<lparr>st_session := x0\<rparr>) = (log_part st)\<lparr>st_session := x0\<rparr>"
  "log_part (st\<lparr>st_provider := x1\<rparr>) = (log_part st)\<lparr>st_provider := x1\<rparr>"
  "log_part (st\<lparr>st_model := x2\<rparr>) = (log_part st)\<lparr>st_model := x2\<rparr>"
  "log_part (st\<lparr>st_usage := x3\<rparr>) = (log_part st)\<lparr>st_usage := x3\<rparr>"
  "log_part (st\<lparr>st_handoff := x4\<rparr>) = (log_part st)\<lparr>st_handoff := x4\<rparr>"
  "log_part (st\<lparr>st_route := x5\<rparr>) = (log_part st)\<lparr>st_route := x5\<rparr>"
  "log_part (st\<lparr>st_review_threads := x6\<rparr>) = (log_part st)\<lparr>st_review_threads := x6\<rparr>"
  "log_part (st\<lparr>st_policy := x7\<rparr>) = log_part st"
  "log_part (st\<lparr>st_quota_reserve := x8\<rparr>) = log_part st"
  by (simp_all add: log_part_def SessionState_default_def)

lemma projection_apply_both:
  assumes "log_part st = log_part u" "state_wf st" "state_wf u"
  shows "\<exists>a b tr' status'. projection_apply show_uuid m1 s (st, tr, status) = Inr (a, tr', status')
    \<and> projection_apply show_uuid m2 s (u, tr, status) = Inr (b, tr', status') \<and> log_part a = log_part b"
proof (cases "stored_event s")
  case (ToolCompleted i run cid name r)
  obtain a b where ab: "observe_result show_uuid s r st = Inr a" "observe_result show_uuid s r u = Inr b"
    "log_part a = log_part b" "state_wf a" "state_wf b"
    using observe_log_part [OF assms] by blast
  with ToolCompleted show ?thesis
    by (simp add: projection_apply_def is_projection_noop_def Let_def log_part_push)
next
  case (ToolFailed i run cid name code detail)
  with assms show ?thesis
    by (simp add: projection_apply_def is_projection_noop_def Let_def log_part_push)
next
  case (MessageAppended i m)
  with assms show ?thesis
    by (simp add: projection_apply_def is_projection_noop_def Let_def log_part_push)
next
  case (UsageReported i run x)
  with assms(1) show ?thesis
    using assms(1) by (simp add: projection_apply_def is_projection_noop_def Let_def log_part_eq)
qed (use assms(1) assms(1) [unfolded log_part_eq] in \<open>simp_all add: projection_apply_def is_projection_noop_def Let_def\<close>)

lemma projection_apply_log_part:
  assumes "log_part st = log_part u" "state_wf st" "state_wf u"
  shows "\<exists>a b tr' status'. projection_apply show_uuid m1 s (st, tr, status) = Inr (a, tr', status')
    \<and> projection_apply show_uuid m2 s (u, tr, status) = Inr (b, tr', status')
    \<and> log_part a = log_part b \<and> state_wf a \<and> state_wf b"
  using projection_apply_both [OF assms, of show_uuid m1 s tr status m2]
    projection_apply_total [OF assms(2), of show_uuid m1 s tr status]
    projection_apply_total [OF assms(3), of show_uuid m2 s tr status] by auto

lemma replay_log_part:
  "log_part st = log_part u \<Longrightarrow> state_wf st \<Longrightarrow> state_wf u \<Longrightarrow>
    \<exists>a b tr' status'. replay (projection_apply show_uuid m1) es (st, tr, status) = Inr (a, tr', status')
    \<and> replay (projection_apply show_uuid m2) es (u, tr, status) = Inr (b, tr', status')
    \<and> log_part a = log_part b"
proof (induction es arbitrary: st u tr status)
  case (Cons s es)
  from projection_apply_log_part [OF Cons.prems, of show_uuid m1 s tr status m2] Cons.IH
  show ?case by (elim exE conjE) simp
qed simp

lemma projection_apply_besides:
  assumes "projection_apply show_uuid mint s (st, tr, status) = Inr (st', tr', status')" "state_wf st"
  shows "kept_besides st [s] st'"
proof (cases "stored_event s")
  case (ToolCompleted i run cid name r)
  with assms(1) obtain b where b: "observe_result show_uuid s r st = Inr b"
    and e: "st_workspace_root st' = st_workspace_root b" "st_budget st' = st_budget b"
      "st_workspace_trusted st' = st_workspace_trusted b" "st_policy st' = st_policy b" "st_read_set st' = st_read_set b"
    by (auto simp: projection_apply_def is_projection_noop_def Let_def map_ok_Inr push_message_def)
  show ?thesis
    using b state_wf_unpoisoned [OF assms(2)] unfolding kept_besides_def e
    by (cases "effect r")
      (auto simp: observe_result_def Let_def observe_path_eq observed_def seen_def policy_after_def ToolCompleted
        split: if_splits option.splits)
qed (use assms(1) in \<open>auto simp: projection_apply_def is_projection_noop_def Let_def kept_besides_def seen_def
  policy_after_def push_message_def split: option.split if_splits\<close>)

lemma kept_besides_trans: "kept_besides st es u \<Longrightarrow> kept_besides u es' v \<Longrightarrow> kept_besides st (es @ es') v"
  by (auto simp: kept_besides_def)

lemma replay_besides:
  "replay (projection_apply show_uuid mint) es (st, tr, status) = Inr (st', tr', status') \<Longrightarrow> state_wf st \<Longrightarrow>
     kept_besides st es st'"
proof (induction es arbitrary: st tr status)
  case (Cons s es)
  then obtain u tu su where u: "projection_apply show_uuid mint s (st, tr, status) = Inr (u, tu, su)"
    and r: "replay (projection_apply show_uuid mint) es (u, tu, su) = Inr (st', tr', status')"
    by (auto simp: and_then_Inr)
  have "state_wf u" using projection_apply_total [OF Cons.prems(2), of show_uuid mint s tr status] u by auto
  from kept_besides_trans [OF projection_apply_besides [OF u Cons.prems(2)] Cons.IH [OF r this]] show ?case by simp
qed (simp add: kept_besides_def)

section \<open>What was in flight\<close>

text \<open>
  The work in flight as a property of the log alone: something started it, and nothing since
  then ended it.
\<close>

definition since :: "('e list \<Rightarrow> 'e \<Rightarrow> bool) \<Rightarrow> ('e \<Rightarrow> bool) \<Rightarrow> 'e list \<Rightarrow> bool" where
  "since begins keeps es \<longleftrightarrow>
     (\<exists>earlier e later. es = earlier @ e # later \<and> begins earlier e \<and> (\<forall>y \<in> set later. keeps y))"

lemma since_Nil [simp]: "\<not> since begins keeps []"
  by (simp add: since_def)

lemma since_snoc [simp]:
  "since begins keeps (es @ [x]) \<longleftrightarrow> begins es x \<or> (since begins keeps es \<and> keeps x)"
proof
  assume "since begins keeps (es @ [x])"
  then obtain earlier e later where d: "es @ [x] = earlier @ e # later" "begins earlier e"
    "\<forall>y \<in> set later. keeps y"
    by (auto simp: since_def)
  then show "begins es x \<or> (since begins keeps es \<and> keeps x)"
    by (cases later rule: rev_cases) (auto simp: since_def)
next
  assume "begins es x \<or> (since begins keeps es \<and> keeps x)"
  then show "since begins keeps (es @ [x])"
  proof
    assume "begins es x"
    then show ?thesis unfolding since_def by (intro exI [of _ es] exI [of _ x] exI [of _ "[]"]) simp
  next
    assume "since begins keeps es \<and> keeps x"
    then obtain earlier e later where "es = earlier @ e # later" "begins earlier e"
      "\<forall>y \<in> set later. keeps y" "keeps x"
      by (auto simp: since_def)
    then show ?thesis
      unfolding since_def by (intro exI [of _ earlier] exI [of _ e] exI [of _ "later @ [x]"]) simp
  qed
qed

definition closes :: "RunId \<Rightarrow> MjolnrEvent \<Rightarrow> bool" where
  "closes run e \<longleftrightarrow> (case e of
      MjolnrEvent.RunStarted _ _ \<Rightarrow> True
    | MjolnrEvent.RunFinished _ r _ \<Rightarrow> r = run
    | MjolnrEvent.RunFailed _ r _ _ \<Rightarrow> r = run
    | MjolnrEvent.RecoveryResolved _ _ \<Rightarrow> True
    | MjolnrEvent.SessionEnded _ \<Rightarrow> True
    | _ \<Rightarrow> False)"

definition settles :: "RunId \<Rightarrow> MjolnrEvent \<Rightarrow> bool" where
  "settles run e \<longleftrightarrow> closes run e \<or> (case e of
      MjolnrEvent.ToolProposed _ r _ _ _ _ \<Rightarrow> r = run
    | MjolnrEvent.ToolCompleted _ r _ _ _ \<Rightarrow> r = run
    | MjolnrEvent.ToolFailed _ r _ _ _ _ \<Rightarrow> r = run
    | _ \<Rightarrow> False)"

definition open_in :: "RunId \<Rightarrow> MjolnrEvent list \<Rightarrow> bool" where
  "open_in run = since (\<lambda>_ e. \<exists>s. e = MjolnrEvent.RunStarted s run) (\<lambda>e. \<not> closes run e)"

definition waiting_in ::
  "RunId \<Rightarrow> ApprovalId \<Rightarrow> ToolCall \<Rightarrow> ToolTier \<Rightarrow> string \<Rightarrow> MjolnrEvent list \<Rightarrow> bool" where
  "waiting_in run i call tier preview = since
     (\<lambda>earlier e. open_in run earlier
        \<and> (\<exists>s. e = MjolnrEvent.ToolProposed s run (Some i) call tier preview))
     (\<lambda>e. \<not> settles run e \<and> (\<forall>s d. e \<noteq> MjolnrEvent.ApprovalResolved s run i d))"

definition authority_of :: "ApprovalId \<Rightarrow> ApprovalDecision \<Rightarrow> Authority" where
  "authority_of i d = (if d = ApprovalDecision.AutoByPolicy then PolicyAuthority else Approval i)"

definition started_in ::
  "RunId \<Rightarrow> Authority \<Rightarrow> ToolCall \<Rightarrow> ToolTier \<Rightarrow> string \<Rightarrow> MjolnrEvent list \<Rightarrow> bool" where
  "started_in run a call tier preview = since
     (\<lambda>earlier e.
        open_in run earlier \<and> a = PolicyAuthority
          \<and> (\<exists>s. e = MjolnrEvent.ToolProposed s run None call tier preview)
        \<or> (\<exists>s i d. e = MjolnrEvent.ApprovalResolved s run i d \<and> d \<noteq> ApprovalDecision.Deny
          \<and> a = authority_of i d \<and> waiting_in run i call tier preview earlier))
     (\<lambda>e. \<not> settles run e)"

text \<open>The tracker depends on the events only.\<close>

definition track :: "MjolnrEvent \<Rightarrow> Tracker \<Rightarrow> Tracker" where
  "track e tr = (case e of
      MjolnrEvent.RunStarted _ run \<Rightarrow> open_run run tr
    | MjolnrEvent.ToolProposed _ run approval call tier preview \<Rightarrow>
        propose run approval call tier preview tr
    | MjolnrEvent.ApprovalResolved _ run approval d \<Rightarrow> tracker_resolve_approval run approval d tr
    | MjolnrEvent.ToolCompleted _ run _ _ _ \<Rightarrow> settle run tr
    | MjolnrEvent.ToolFailed _ run _ _ _ _ \<Rightarrow> settle run tr
    | MjolnrEvent.RunFinished _ run _ \<Rightarrow> close_run run tr
    | MjolnrEvent.RunFailed _ run _ _ \<Rightarrow> close_run run tr
    | MjolnrEvent.RecoveryResolved _ _ \<Rightarrow> clear tr
    | MjolnrEvent.SessionEnded _ \<Rightarrow> clear tr
    | _ \<Rightarrow> tr)"

lemma projection_apply_track:
  "projection_apply show_uuid mint s (st, tr, status) = Inr (st', tr', status') \<Longrightarrow>
     tr' = track (stored_event s) tr"
  by (cases "stored_event s")
    (auto simp: projection_apply_def is_projection_noop_def track_def Let_def map_ok_Inr
      split: if_splits)

lemma replay_track:
  "replay (projection_apply show_uuid mint) es (st, tr, status) = Inr (st', tr', status') \<Longrightarrow>
     tr' = fold track (map stored_event es) tr"
proof (induction es arbitrary: st tr status)
  case (Cons s es)
  then obtain u tu su where u: "projection_apply show_uuid mint s (st, tr, status) = Inr (u, tu, su)"
    and r: "replay (projection_apply show_uuid mint) es (u, tu, su) = Inr (st', tr', status')"
    by (auto simp: and_then_Inr)
  from projection_apply_track [OF u] Cons.IH [OF r] show ?case by simp
qed simp

text \<open>What the log says is in flight, as a tracker would hold it.\<close>

definition matches_log :: "Tracker \<Rightarrow> MjolnrEvent list \<Rightarrow> bool" where
  "matches_log tr es \<longleftrightarrow>
     (\<forall>run. (\<exists>t. tr = Some \<lparr>open_id = run, open_tool = t\<rparr>) \<longleftrightarrow> open_in run es)
     \<and> (\<forall>run i c t p. tr = Some \<lparr>open_id = run, open_tool = Some (AwaitingApproval i c t p)\<rparr>
          \<longleftrightarrow> waiting_in run i c t p es)
     \<and> (\<forall>run a c t p. tr = Some \<lparr>open_id = run, open_tool = Some (Started a c t p)\<rparr>
          \<longleftrightarrow> started_in run a c t p es)"

lemma matches_log_Nil [simp]: "matches_log None []"
  by (simp add: matches_log_def open_in_def waiting_in_def started_in_def)

lemma open_in_snoc: "open_in run (es @ [e]) \<longleftrightarrow>
    (\<exists>s. e = MjolnrEvent.RunStarted s run) \<or> (open_in run es \<and> \<not> closes run e)"
  by (simp add: open_in_def)

lemma waiting_in_snoc: "waiting_in run i c t p (es @ [e]) \<longleftrightarrow>
    open_in run es \<and> (\<exists>s. e = MjolnrEvent.ToolProposed s run (Some i) c t p)
    \<or> (waiting_in run i c t p es \<and> \<not> settles run e
       \<and> (\<forall>s d. e \<noteq> MjolnrEvent.ApprovalResolved s run i d))"
  by (simp add: waiting_in_def)

lemma started_in_snoc: "started_in run a c t p (es @ [e]) \<longleftrightarrow>
    (open_in run es \<and> a = PolicyAuthority
      \<and> (\<exists>s. e = MjolnrEvent.ToolProposed s run None c t p)
     \<or> (\<exists>s i d. e = MjolnrEvent.ApprovalResolved s run i d \<and> d \<noteq> ApprovalDecision.Deny
      \<and> a = authority_of i d \<and> waiting_in run i c t p es))
    \<or> (started_in run a c t p es \<and> \<not> settles run e)"
  by (simp add: started_in_def)

lemma matches_log_step:
  assumes "matches_log tr es"
  shows "matches_log (track e tr) (es @ [e])"
proof -
  have o: "open_in run es \<longleftrightarrow> (\<exists>t. tr = Some \<lparr>open_id = run, open_tool = t\<rparr>)"
    and w: "waiting_in run i c t p es
      \<longleftrightarrow> tr = Some \<lparr>open_id = run, open_tool = Some (AwaitingApproval i c t p)\<rparr>"
    and b: "started_in run a c t p es
      \<longleftrightarrow> tr = Some \<lparr>open_id = run, open_tool = Some (Started a c t p)\<rparr>" for run i a c t p
    using assms by (auto simp: matches_log_def)
  show ?thesis
  proof (cases tr)
    case None
    then show ?thesis
      unfolding matches_log_def open_in_snoc waiting_in_snoc started_in_snoc o w b
      by (cases e) (auto simp: track_def tracker_defs closes_def settles_def)
  next
    case (Some r)
    obtain run tool where r: "r = \<lparr>open_id = run, open_tool = tool\<rparr>" by (cases r)
    show ?thesis
      unfolding matches_log_def open_in_snoc waiting_in_snoc started_in_snoc o w b Some r
      by (cases e)
        (auto simp: track_def tracker_defs closes_def settles_def authority_of_def
          split: option.splits PendingWork.splits ApprovalDecision.splits)
  qed
qed

lemma fold_track_matches: "matches_log (fold track es None) es"
  by (induction es rule: rev_induct) (simp_all add: matches_log_step)

section \<open>Properties\<close>

text \<open>
  C5: a checkpoint and the events after it give what the whole history gives. Take a contiguous
  log of a session that has no run open after its first n events, and a checkpoint of a live
  state of that time, whatever its workspace, its read set, its budget and its policy, that has
  on record what those events replay to. Resuming from it with what the store returns beside
  it reports the same interrupted work and status as replaying the whole history, and rebuilds
  the same transcript with its anchors (up to fresh ids and times of the tool messages),
  provider and model, usage, route, handoff, review threads and evidence. The rest only
  the checkpoint holds: the workspace and the budget come back as they were, the read set with
  the versions seen since, and the policy unless it was changed since, but never full auto.
\<close>

theorem checkpoint_is_an_optimisation:
  assumes "contiguous (mem_log store session)" "length (mem_log store session) < 2 ^ 64"
    and "n \<le> length (mem_log store session)"
    and "replay (projection_apply show_uuid m1) (take n (mem_log store session))
           (SessionState_default, None, Active) = Inr (u, None, status)"
    and "state_wf st" "log_part st = log_part u"
    and "st_session st = Some session" "build_checkpoint session status st = Inr cp"
    and "store_branch_events_from session (of_nat n) store = Some r"
  shows "\<exists>a b. project show_uuid m2 (Some cp) (covered_message_sequences r) (resume_events r) = Inr a
    \<and> project show_uuid m3 None [] (store_branch_events session store) = Inr b
    \<and> recovered_recovery a = recovered_recovery b \<and> recovered_status a = recovered_status b
    \<and> log_part (recovered_state a) = log_part (recovered_state b)
    \<and> st_workspace_root (recovered_state a) = st_workspace_root st
    \<and> st_budget (recovered_state a) = st_budget st
    \<and> (st_workspace_trusted st \<longrightarrow> st_workspace_trusted (recovered_state a))
    \<and> st_policy (recovered_state a) = carried_forward (fold policy_after (resume_events r) (st_policy st))
    \<and> read_files (st_read_set (recovered_state a)) = fold (\<lambda>(p, h). bt_insert p h)
        (concat (map (seen (st_workspace_root st)) (resume_events r))) (read_files (st_read_set st))"
proof -
  let ?es = "mem_log store session"
  have newer: "resume_events r = drop n ?es"
    using assms by (auto simp: store_branch_events_from_def events_from_log filter_from_drop)
  have covered: "covered_message_sequences r
      = map stored_sequence (filter (\<lambda>s. introduces_message (stored_event s)) (take n ?es))"
  proof -
    have "filter (\<lambda>s. stored_sequence s < of_nat n \<and> introduces_message (stored_event s)) ?es
        = filter (\<lambda>s. introduces_message (stored_event s)) (filter (\<lambda>s. stored_sequence s < of_nat n) ?es)"
      by (simp add: conj_commute)
    with assms(9) filter_before_take [OF assms(1-3)] show ?thesis
      by (auto simp: store_branch_events_from_def store_events_log)
  qed
  have wf: "state_wf u"
    using projection_replay_total [of "(SessionState_default, None, Active)" show_uuid m1 "take n ?es"]
      assms(4) by (simp add: projection_wf_def)
  have "map entry_sequence (st_messages u) = map Some (covered_message_sequences r)"
    using replay_anchors [OF assms(4)]
    by (simp add: covered transcript_anchors_def SessionState_default_def comp_def)
  moreover have "map entry_sequence (st_messages st) = map entry_sequence (st_messages u)"
    using assms(6) by (intro log_part_anchors)
  ultimately have base: "base_state (Some cp) (covered_message_sequences r) = Inr (checkpointed st, status)"
    using base_state_restores assms(5,7,8) by simp
  have wf': "state_wf (checkpointed st)" and eq: "log_part (checkpointed st) = log_part u"
    using assms(5,6) by (simp_all add: checkpointed_def state_wf_def log_part_eq)
  obtain v tr status1 where v: "replay (projection_apply show_uuid m3) (take n ?es) (SessionState_default, None, Active) = Inr (v, tr, status1)"
    "tr = None" "status1 = status" "log_part v = log_part u" "state_wf v"
    using replay_log_part [OF refl state_wf_default state_wf_default, of show_uuid m3 "take n ?es" None Active m1]
      projection_replay_total [of "(SessionState_default, None, Active)" show_uuid m3 "take n ?es"] assms(4)
    by (auto simp: projection_wf_def)
  from replay_log_part [OF _ wf' v(5), of show_uuid m2 "drop n ?es" None status m3] eq v(4)
  obtain a b tr' status' where ab: "replay (projection_apply show_uuid m2) (drop n ?es) (checkpointed st, None, status) = Inr (a, tr', status')"
    "replay (projection_apply show_uuid m3) (drop n ?es) (v, None, status) = Inr (b, tr', status')" "log_part a = log_part b"
    by auto
  have all: "replay (projection_apply show_uuid m3) ?es (SessionState_default, None, Active) = Inr (b, tr', status')"
    using ab(2) v(1-3) replay_append [of "projection_apply show_uuid m3" "take n ?es" "drop n ?es"] by simp
  from replay_besides [OF ab(1) wf'] have k: "kept_besides (checkpointed st) (drop n ?es) a" .
  have st: "st_workspace_root (checkpointed st) = st_workspace_root st" "st_budget (checkpointed st) = st_budget st"
    "st_workspace_trusted (checkpointed st) = st_workspace_trusted st"
    "st_policy (checkpointed st) = st_policy st" "st_read_set (checkpointed st) = st_read_set st"
    by (simp_all add: checkpointed_def)
  have "project show_uuid m2 (Some cp) (covered_message_sequences r) (resume_events r)
      = Inr \<lparr>recovered_state = a\<lparr>st_policy := carried_forward (st_policy a)\<rparr>,
         recovered_recovery = tracker_finish tr', recovered_status = status'\<rparr>"
    by (simp add: project_def base newer ab(1))
  moreover have "project show_uuid m3 None [] (store_branch_events session store)
      = Inr \<lparr>recovered_state = b\<lparr>st_policy := carried_forward (st_policy b)\<rparr>,
         recovered_recovery = tracker_finish tr', recovered_status = status'\<rparr>"
    by (simp add: project_def store_branch_events_def store_events_log all) (simp add: base_state_def all)
  ultimately show ?thesis using ab(3) k [unfolded kept_besides_def st]
    by (simp add: log_part_eq newer)
qed

definition example_session :: SessionId where
  "example_session = SessionId 1"

definition read_result :: ToolResult where
  "read_result = \<lparr>result_outcome = ToolOutcome.Ok, result_content = ''one'', truncated = False,
     effect = ToolEffect.Read ''a'' ''v1'', evidence_event_id = None\<rparr>"

text \<open>A session that read a file in a run that ended, and reads another version of it in the next.\<close>

definition example_history :: "StoredEvent list" where
  "example_history = map (\<lambda>(n, e). \<lparr>stored_id = EventId (of_nat n), stored_sequence = of_nat n,
       occurred_at = int n, stored_event = e\<rparr>)
     (enumerate 0 [MjolnrEvent.SessionCreated example_session (ProviderId ''p'') (ModelId ''m''),
       MjolnrEvent.RunStarted example_session (RunId 7),
       MjolnrEvent.ToolCompleted example_session (RunId 7) ''c'' ''read_file'' read_result,
       MjolnrEvent.RunFinished example_session (RunId 7) FinishReason.Stop,
       MjolnrEvent.RunStarted example_session (RunId 8),
       MjolnrEvent.ToolCompleted example_session (RunId 8) ''d'' ''read_file''
         (read_result\<lparr>effect := ToolEffect.Read ''a'' ''v2''\<rparr>)])"

definition example_store :: Inner where
  "example_store = \<lparr>projects = [], sessions = [(example_session, \<lparr>mem_project = ProjectId 2,
     mem_title = [], mem_status = Active, mem_created_at = 0, mem_updated_at = 2,
     mem_events = example_history, mem_checkpoints = [], mem_leased = True, mem_parent = None\<rparr>)]\<rparr>"

lemma example_log:
  "mem_log example_store example_session = example_history"
  "contiguous example_history"
  "length example_history = 6"
  "take 4 example_history = [example_history ! 0, example_history ! 1, example_history ! 2, example_history ! 3]"
  by (simp_all add: mem_log_def example_store_def bt_get_def example_history_def contiguous_def
      numeral_eq_Suc)

definition example_replayed :: SessionState where
  "example_replayed = SessionState_default\<lparr>st_session := Some example_session,
     st_provider := Some (ProviderId ''p''), st_model := Some (ModelId ''m''),
     st_read_evidence := [(''a'', \<lparr>read_path = ''a'', read_sha256 = ''v1'', read_tool_event_id = []\<rparr>)],
     st_messages := [\<lparr>entry_sequence = Some 2, entry_message =
       message_tool_result 0 0 ''c'' ''read_file'' (read_result\<lparr>evidence_event_id := Some []\<rparr>)\<rparr>]\<rparr>"

text \<open>The live session has a workspace, the version of the file it read and a policy it was given.\<close>

definition example_live :: SessionState where
  "example_live = example_replayed\<lparr>st_workspace_root := Some ''/w'',
     st_read_set := \<lparr>read_files = [(''/w/a'', ''v1'')], poisoned = False\<rparr>, st_policy := PolicyMode.WorkspaceWrite\<rparr>"

lemma example_replay:
  "replay (projection_apply (\<lambda>_. []) (\<lambda>_. (0, 0))) (take 4 (mem_log example_store example_session))
     (SessionState_default, None, Active) = Inr (example_replayed, None, Active)"
  by (simp add: example_log)
    (simp add: example_history_def projection_apply_def is_projection_noop_def observe_result_def observe_path_def
      read_result_def ToolOutcome_is_ok_def Let_def open_run_def settle_def close_run_def push_message_def
      example_replayed_def SessionState_default_def map_ok_def)

lemma example_live_fields: "state_wf example_live" "log_part example_live = log_part example_replayed"
  "st_session example_live = Some example_session" "st_workspace_root example_live = Some ''/w''"
  "st_policy example_live = PolicyMode.WorkspaceWrite" "read_files (st_read_set example_live) = [(''/w/a'', ''v1'')]"
  by (simp_all add: example_live_def example_replayed_def log_part_def SessionState_default_def state_wf_def
      ReadSet_wf_def bt_keyed_def bt_get_def bt_wf_def)

theorem checkpoint_is_an_optimisation_witness:
  "\<exists>cp r a b. build_checkpoint example_session Active example_live = Inr cp
     \<and> store_branch_events_from example_session 4 example_store = Some r
     \<and> project (\<lambda>_. []) (\<lambda>_. (0, 0)) (Some cp) (covered_message_sequences r) (resume_events r) = Inr a
     \<and> project (\<lambda>_. []) (\<lambda>_. (5, 5)) None [] (store_branch_events example_session example_store) = Inr b
     \<and> recovered_recovery a = recovered_recovery b \<and> log_part (recovered_state a) = log_part (recovered_state b)
     \<and> st_workspace_root (recovered_state a) = Some ''/w''
     \<and> st_policy (recovered_state a) = PolicyMode.WorkspaceWrite
     \<and> read_files (st_read_set (recovered_state a)) = [(''/w/a'', ''v2'')]"
proof -
  obtain cp where cp: "build_checkpoint example_session Active example_live = Inr cp"
    by (simp add: build_checkpoint_def ReadSet_entries_def example_live_def)
  obtain r where r: "store_branch_events_from example_session 4 example_store = Some r"
    by (simp add: store_branch_events_from_def)
  have newer: "resume_events r = [example_history ! 4, example_history ! 5]"
  proof -
    have "resume_events r = drop 4 example_history"
      using r filter_from_drop [of example_history 4]
      by (auto simp: store_branch_events_from_def events_from_log example_log)
    then show ?thesis by (simp add: example_history_def numeral_eq_Suc)
  qed
  have "concat (map (seen (Some ''/w'')) (resume_events r)) = [(''/w/a'', ''v2'')]"
    "fold policy_after (resume_events r) PolicyMode.WorkspaceWrite = PolicyMode.WorkspaceWrite"
    by (simp_all add: newer) (simp_all add: example_history_def seen_def policy_after_def read_result_def
      ToolOutcome_is_ok_def path_join_def)
  with checkpoint_is_an_optimisation [of example_store example_session 4 "\<lambda>_. []" "\<lambda>_. (0, 0)" example_replayed
        Active example_live cp r "\<lambda>_. (0, 0)" "\<lambda>_. (5, 5)"] example_replay cp r example_live_fields
  show ?thesis by (auto simp: example_log carried_forward_def)
qed

text \<open>
  C22: a session comes back without authority nobody re-armed. Rebuilding a session never
  fails, whatever the checkpoint, the anchors and the events; what it rebuilds has no exact
  command grant, no spawn envelope, no pending approval, no queued steering, no branch point
  and no persona override, and is not full-auto.
\<close>

theorem resume_carries_no_authority:
  "\<exists>r. project show_uuid mint cp covered events = Inr r
     \<and> st_exact_commands (recovered_state r) = {} \<and> st_envelope (recovered_state r) = None
     \<and> st_pending_approval (recovered_state r) = None \<and> st_steering (recovered_state r) = []
     \<and> st_branch_parent (recovered_state r) = None \<and> st_persona_override (recovered_state r) = None
     \<and> \<not> is_full_auto (st_policy (recovered_state r))"
proof -
  obtain st status where b: "base_state cp covered = Inr (st, status)" "state_wf st"
    using base_state_total by blast
  obtain st' tr' status' where
    r: "replay (projection_apply show_uuid mint) events (st, None, status) = Inr (st', tr', status')"
    using projection_replay_total [of "(st, None, status)" show_uuid mint events] b(2)
    by (auto simp: projection_wf_def)
  have "ungranted st'"
    using projection_replay_ungranted [OF r] base_state_ungranted [OF b(1)] by simp
  then show ?thesis
    by (auto simp: project_def b(1) r ungranted_def is_full_auto_def carried_forward_def
        split: PolicyMode.splits)
qed

text \<open>
  C19: recovery reports exactly what was in flight. Rebuilding a session from its whole log
  reports a tool as started with an uncertain effect exactly if the log authorised it in the
  open run and nothing after settled it, and then under the authority the log shows; it
  reports a proposal as not authorised exactly if that proposal still waits; and it reports
  nothing interrupted exactly if no run is open.
\<close>

theorem recovery_reports_what_was_in_flight:
  "\<exists>r. project show_uuid mint None [] events = Inr r
     \<and> (recovered_recovery r = Required \<lparr>interrupted_run = run,
           interrupted_kind = EffectUncertain a call tier preview\<rparr>)
         = started_in run a call tier preview (map stored_event events)
     \<and> (recovered_recovery r = Required \<lparr>interrupted_run = run,
           interrupted_kind = ProposalUnapproved call tier preview\<rparr>)
         = (\<exists>i. waiting_in run i call tier preview (map stored_event events))
     \<and> (recovered_recovery r = Clean) = (\<forall>other. \<not> open_in other (map stored_event events))"
proof -
  let ?es = "map stored_event events"
  obtain st' tr' status' where
    r: "replay (projection_apply show_uuid mint) events (SessionState_default, None, Active)
        = Inr (st', tr', status')"
    using projection_replay_total [of "(SessionState_default, None, Active)" show_uuid mint events]
    by (auto simp: projection_wf_def)
  have "matches_log tr' ?es"
    using replay_track [OF r] by (simp add: fold_track_matches)
  then have m: "open_in run ?es \<longleftrightarrow> (\<exists>t. tr' = Some \<lparr>open_id = run, open_tool = t\<rparr>)"
    "waiting_in run i c t p ?es \<longleftrightarrow> tr' = Some \<lparr>open_id = run, open_tool = Some (AwaitingApproval i c t p)\<rparr>"
    "started_in run a c t p ?es \<longleftrightarrow> tr' = Some \<lparr>open_id = run, open_tool = Some (Started a c t p)\<rparr>"
    for run i a c t p
    by (auto simp: matches_log_def)
  have p: "project show_uuid mint None [] events
      = Inr \<lparr>recovered_state = st'\<lparr>st_policy := carried_forward (st_policy st')\<rparr>,
          recovered_recovery = tracker_finish tr', recovered_status = status'\<rparr>"
    by (simp add: project_def base_state_def r)
  show ?thesis
  proof (cases tr')
    case None
    then show ?thesis by (simp add: p m tracker_finish_def)
  next
    case (Some x)
    obtain i tool where x: "x = \<lparr>open_id = i, open_tool = tool\<rparr>" by (cases x)
    show ?thesis
      unfolding p m Some x
      by (auto simp: tracker_finish_def split: option.splits PendingWork.splits)
  qed
qed

text \<open>
  A policy narrowed by the governance floor is recorded as its own event, and no replay reads
  it: a session that comes back without a later checkpoint has the policy it had before.
\<close>

lemma clamped_policy_not_replayed:
  "projection_apply show_uuid mint \<lparr>stored_id = i, stored_sequence = n, occurred_at = t,
       stored_event = MjolnrEvent.PolicyClamped s old narrow p m tier\<rparr> (st, tr, status)
     = Inr (st, tr, status)"
  by (simp add: projection_apply_def is_projection_noop_def)

end
