(* ===== verification/Spawn.thy ===== *)
theory Spawn
  imports Envelope Message
begin

text \<open>
  What a \<^verbatim>\<open>spawn_subagent\<close> call asks for: the children parsed from its arguments and the clamp
  of their policies that is written back into the call before it is shown
  (\<^verbatim>\<open>runtime/subagent/mod.rs\<close>), the limits of \<^verbatim>\<open>tools/subagent.rs\<close>, and what the call would take
  from a spawn envelope (\<^verbatim>\<open>draw_shape\<close> of \<^verbatim>\<open>runtime/envelope.rs\<close>).
\<close>

definition SPAWN_SUBAGENT :: string where "SPAWN_SUBAGENT = ''spawn_subagent''"
definition MAX_CHILDREN :: nat where "MAX_CHILDREN = 4"
definition DEFAULT_CHILD_TURNS :: u32 where "DEFAULT_CHILD_TURNS = 8"
definition DEFAULT_CHILD_TOOL_CALLS :: u32 where "DEFAULT_CHILD_TOOL_CALLS = 16"

text \<open>\<^verbatim>\<open>u32::try_from(new).unwrap_or(u32::MAX)\<close> of a 64-bit number.\<close>

definition u32_of_u64 :: "u64 \<Rightarrow> u32" where
  "u32_of_u64 v = u32_of_usize (unat v)"

definition json_u32 :: "string \<Rightarrow> u32 \<Rightarrow> Json \<Rightarrow> u32" where
  "json_u32 key def v = (case json_get key v of
      None \<Rightarrow> def
    | Some f \<Rightarrow> (case json_as_u64 f of None \<Rightarrow> def | Some n \<Rightarrow> u32_of_u64 n))"

section \<open>Children\<close>

record ChildRequest =
  req_directive :: string
  req_policy :: PolicyMode
  req_max_provider_turns :: u32
  req_max_tool_calls :: u32
  req_result_schema :: Json
  req_route :: "string option"
  req_role :: "string option"

text \<open>A route or a role: absent or null is none, anything but a string is refused.\<close>

definition optional_name :: "string \<Rightarrow> Json \<Rightarrow> (string option, string) result" where
  "optional_name key child = (case json_get key child of
      None \<Rightarrow> Inr None
    | Some JNull \<Rightarrow> Inr None
    | Some (JString s) \<Rightarrow> Inr (Some s)
    | Some _ \<Rightarrow> Inl (key @ '' must be a string''))"

definition requested_policy :: "Json \<Rightarrow> (PolicyMode, string) result" where
  "requested_policy child = (case Option.bind (json_get ''policy'' child) json_as_str of
      None \<Rightarrow> Inr PolicyMode.ReadOnly
    | Some p \<Rightarrow>
        if p = ''read-only'' then Inr PolicyMode.ReadOnly
        else if p = ''workspace-write'' then Inr PolicyMode.WorkspaceWrite
        else if p = ''full-auto'' then Inr PolicyMode.FullAuto
        else Inl (''unknown child policy `'' @ p @ ''`''))"

definition parse_child :: "Json \<Rightarrow> (ChildRequest, string) result" where
  "parse_child child =
     and_then (ok_or ''directive must be a string''
       (Option.bind (json_get ''directive'' child) json_as_str)) (\<lambda>directive.
     and_then (requested_policy child) (\<lambda>policy.
     and_then (optional_name ''route'' child) (\<lambda>route.
     and_then (optional_name ''role'' child) (\<lambda>role_tag.
     Inr \<lparr>req_directive = directive, req_policy = policy,
       req_max_provider_turns = json_u32 ''max_provider_turns'' DEFAULT_CHILD_TURNS child,
       req_max_tool_calls = json_u32 ''max_tool_calls'' DEFAULT_CHILD_TOOL_CALLS child,
       req_result_schema = (case json_get ''result_schema'' child of
           Some s \<Rightarrow> s | None \<Rightarrow> JObject [(''type'', JString ''object'')]),
       req_route = route, req_role = role_tag\<rparr>))))"

text \<open>Collecting results stops at the first refusal.\<close>

fun collect_results :: "('a, 'e) result list \<Rightarrow> ('a list, 'e) result" where
  "collect_results [] = Inr []"
| "collect_results (r # rs) = and_then r (\<lambda>x. map_ok ((#) x) (collect_results rs))"

definition children_of :: "Json \<Rightarrow> Json list option" where
  "children_of args = Option.bind (json_get ''children'' args) json_as_array"

definition parse_children :: "Json \<Rightarrow> (ChildRequest list, string) result" where
  "parse_children args =
     and_then (ok_or ''children must be an array'' (children_of args)) (\<lambda>children.
     collect_results (map parse_child children))"

section \<open>The clamp\<close>

definition clamp_policy :: "PolicyMode \<Rightarrow> PolicyMode \<Rightarrow> PolicyMode" where
  "clamp_policy parent requested = (case (parent, requested) of
      (PolicyMode.ReadOnly, _) \<Rightarrow> PolicyMode.ReadOnly
    | (_, PolicyMode.ReadOnly) \<Rightarrow> PolicyMode.ReadOnly
    | (PolicyMode.FullAuto, PolicyMode.FullAuto) \<Rightarrow> PolicyMode.FullAuto
    | _ \<Rightarrow> PolicyMode.WorkspaceWrite)"

definition policy_wire :: "PolicyMode \<Rightarrow> string option" where
  "policy_wire policy = (case policy of
      PolicyMode.ReadOnly \<Rightarrow> Some ''read-only''
    | PolicyMode.WorkspaceWrite \<Rightarrow> Some ''workspace-write''
    | PolicyMode.FullAuto \<Rightarrow> Some ''full-auto''
    | PolicyMode.Ask \<Rightarrow> None)"

definition policy_from_wire :: "string \<Rightarrow> PolicyMode option" where
  "policy_from_wire wire =
     (if wire = ''read-only'' then Some PolicyMode.ReadOnly
      else if wire = ''workspace-write'' then Some PolicyMode.WorkspaceWrite
      else if wire = ''full-auto'' then Some PolicyMode.FullAuto
      else None)"

definition json_insert :: "string \<Rightarrow> Json \<Rightarrow> Json \<Rightarrow> Json" where
  "json_insert key new v = (case v of JObject kvs \<Rightarrow> JObject (bt_insert key new kvs) | _ \<Rightarrow> v)"

definition clamp_child :: "PolicyMode \<Rightarrow> Json \<Rightarrow> Json" where
  "clamp_child parent child =
     (case Option.bind (Option.bind (json_get ''policy'' child) json_as_str) policy_from_wire of
        None \<Rightarrow> child
      | Some requested \<Rightarrow> (case policy_wire (clamp_policy parent requested) of
            None \<Rightarrow> child
          | Some effective \<Rightarrow> json_insert ''policy'' (JString effective) child))"

definition clamp_children :: "PolicyMode \<Rightarrow> Json \<Rightarrow> Json" where
  "clamp_children parent v = (case v of JArray cs \<Rightarrow> JArray (map (clamp_child parent) cs) | _ \<Rightarrow> v)"

definition clamp_call_policies :: "PolicyMode \<Rightarrow> Json \<Rightarrow> Json" where
  "clamp_call_policies parent args = (case args of
      JObject kvs \<Rightarrow> JObject (bt_modify ''children'' (clamp_children parent) kvs)
    | _ \<Rightarrow> args)"

section \<open>The draw of a call\<close>

definition child_routes :: "Json \<Rightarrow> string list" where
  "child_routes child = List.map_filter
     (\<lambda>key. Option.bind (json_get key child) json_as_str) [''role'', ''route'']"

definition draw_shape :: "Json \<Rightarrow> u32 \<times> u32 \<times> string list" where
  "draw_shape args = (case children_of args of
      None \<Rightarrow> (0, 0, [])
    | Some children \<Rightarrow> (u32_of_usize (length children),
        fold (\<lambda>child turns. sat_add turns (json_u32 ''max_provider_turns'' DEFAULT_CHILD_TURNS child))
          children 0,
        concat (map child_routes children)))"

section \<open>Lemmas\<close>

lemma clamp_policy_is_ceiling: "clamp_policy = clamp_ceiling"
  by (simp add: fun_eq_iff clamp_policy_def clamp_ceiling_def)

lemma clamp_policy_idem: "clamp_policy c (clamp_policy c p) = clamp_policy c p"
  by (cases c; cases p) (simp_all add: clamp_policy_def)

text \<open>
  A ceiling that is not narrower leaves a clamped policy as it is, so clearing an envelope
  between the preview and the start changes nothing.
\<close>

lemma clamp_policy_wider:
  "mode_width c \<le> mode_width c' \<Longrightarrow> clamp_policy c' (clamp_policy c p) = clamp_policy c p"
  by (cases c; cases c'; cases p) (simp_all add: clamp_policy_def)

lemma policy_from_wire_wire: "policy_from_wire w = Some p \<Longrightarrow> policy_wire p = Some w"
  by (auto simp: policy_from_wire_def policy_wire_def split: if_splits)

lemma policy_wire_clamp: "\<exists>w. policy_wire (clamp_policy c p) = Some w
    \<and> policy_from_wire w = Some (clamp_policy c p)"
  by (cases c; cases p) (simp_all add: clamp_policy_def policy_wire_def policy_from_wire_def)

lemma requested_policy_wire:
  "requested_policy child = (case Option.bind (json_get ''policy'' child) json_as_str of
      None \<Rightarrow> Inr PolicyMode.ReadOnly
    | Some w \<Rightarrow> (case policy_from_wire w of
        None \<Rightarrow> Inl (''unknown child policy `'' @ w @ ''`'') | Some p \<Rightarrow> Inr p))"
  by (simp add: requested_policy_def policy_from_wire_def split: option.split)

lemma json_get_insert:
  "json_get key (json_insert key' new v) =
     (if key = key' \<and> (\<exists>kvs. v = JObject kvs) then Some new else json_get key v)"
  using bt_get_insert [of key' new] by (cases v) (simp_all add: json_get_def json_insert_def bt_get_def)

lemma clamp_child_get: "key \<noteq> ''policy'' \<Longrightarrow> json_get key (clamp_child c child) = json_get key child"
  by (auto simp: clamp_child_def json_get_insert split: option.split)

lemma clamp_child_policy:
  "requested_policy (clamp_child c child) = map_ok (clamp_policy c) (requested_policy child)"
proof (cases "Option.bind (json_get ''policy'' child) json_as_str")
  case None
  then show ?thesis
    by (cases c) (simp_all add: requested_policy_wire clamp_child_def clamp_policy_def)
next
  case (Some w)
  note b = this
  show ?thesis
  proof (cases "policy_from_wire w")
    case None
    with b show ?thesis by (simp add: requested_policy_wire clamp_child_def)
  next
    case (Some p)
    obtain e where e: "policy_wire (clamp_policy c p) = Some e"
      "policy_from_wire e = Some (clamp_policy c p)"
      using policy_wire_clamp by blast
    from b obtain kvs where "child = JObject kvs"
      by (cases child) (auto simp: json_get_def)
    with Some b e show ?thesis
      by (simp add: requested_policy_wire clamp_child_def json_get_insert json_as_str_def)
  qed
qed

definition clamp_request :: "PolicyMode \<Rightarrow> ChildRequest \<Rightarrow> ChildRequest" where
  "clamp_request c r = r\<lparr>req_policy := clamp_policy c (req_policy r)\<rparr>"

lemma clamp_child_parse:
  "parse_child child = Inr r \<Longrightarrow> parse_child (clamp_child c child) = Inr (clamp_request c r)"
  by (auto simp: parse_child_def and_then_Inr clamp_child_policy clamp_child_get optional_name_def
      json_u32_def clamp_request_def map_ok_def)

lemma clamp_child_routes: "child_routes (clamp_child c child) = child_routes child"
  by (simp add: child_routes_def clamp_child_get map_filter_simps split: option.split)

lemma children_of_clamp:
  "children_of (clamp_call_policies c args) = map_option (map (clamp_child c)) (children_of args)"
proof (cases args)
  case (JObject kvs)
  have "map_of (bt_modify ''children'' (clamp_children c) kvs) ''children''
      = map_option (clamp_children c) (map_of kvs ''children'')"
    using bt_get_modify [of "''children''" "clamp_children c" kvs "''children''"]
    by (simp add: bt_get_def)
  moreover have "Option.bind (map_option (clamp_children c) v) json_as_array
      = map_option (map (clamp_child c)) (Option.bind v json_as_array)" for v
  proof (cases v)
    case (Some j)
    then show ?thesis by (cases j) (simp_all add: clamp_children_def json_as_array_def)
  qed simp
  ultimately show ?thesis
    by (simp add: JObject children_of_def json_get_def clamp_call_policies_def)
qed (simp_all add: children_of_def json_get_def clamp_call_policies_def)

lemma collect_results_Inr:
  "collect_results (map f xs) = Inr ys \<longleftrightarrow> list_all2 (\<lambda>x y. f x = Inr y) xs ys"
  by (induction xs arbitrary: ys) (auto simp: and_then_Inr map_ok_Inr list_all2_Cons1)

section \<open>Properties\<close>

text \<open>
  C34: what a human reads of a spawn is what runs. Writing the clamp into the call makes its
  parsed children exactly the requested ones with their policies clamped, so clamping them
  again when they start, under that ceiling or one that has become no narrower, changes
  nothing; and the clamp does not change what the call draws from an envelope.
\<close>

theorem spawn_preview_is_what_runs:
  assumes "parse_children args = Inr requests" "mode_width c \<le> mode_width c'"
  shows "\<exists>shown. parse_children (clamp_call_policies c args) = Inr shown
     \<and> shown = map (clamp_request c) requests
     \<and> map (clamp_request c') shown = shown
     \<and> draw_shape (clamp_call_policies c args) = draw_shape args"
proof -
  obtain cs where cs: "children_of args = Some cs"
    and p: "list_all2 (\<lambda>x y. parse_child x = Inr y) cs requests"
    using assms(1) by (auto simp: parse_children_def and_then_Inr ok_or_def collect_results_Inr
        split: option.splits)
  have "parse_children (clamp_call_policies c args) = Inr (map (clamp_request c) requests)"
    using p by (simp add: parse_children_def children_of_clamp cs comp_def collect_results_Inr
        list_all2_map2 list_all2_mono [OF p] clamp_child_parse)
  moreover have "map (clamp_request c') (map (clamp_request c) requests)
      = map (clamp_request c) requests"
    using assms(2) by (simp add: clamp_request_def clamp_policy_wider)
  moreover have "draw_shape (clamp_call_policies c args) = draw_shape args"
    by (simp add: draw_shape_def children_of_clamp cs fold_map comp_def json_u32_def clamp_child_routes
        clamp_child_get)
  ultimately show ?thesis by blast
qed

definition example_spawn :: Json where
  "example_spawn = JObject [(''children'', JArray [JObject
     [(''directive'', JString ''look''), (''policy'', JString ''full-auto'')]])]"

theorem spawn_preview_is_what_runs_witness:
  "parse_children example_spawn = Inr [\<lparr>req_directive = ''look'', req_policy = PolicyMode.FullAuto,
      req_max_provider_turns = 8, req_max_tool_calls = 16,
      req_result_schema = JObject [(''type'', JString ''object'')], req_route = None,
      req_role = None\<rparr>]
   \<and> (\<exists>shown. parse_children (clamp_call_policies PolicyMode.Ask example_spawn) = Inr shown
      \<and> map req_policy shown = [PolicyMode.WorkspaceWrite])"
proof -
  have p: "parse_children example_spawn = Inr [\<lparr>req_directive = ''look'',
      req_policy = PolicyMode.FullAuto, req_max_provider_turns = 8, req_max_tool_calls = 16,
      req_result_schema = JObject [(''type'', JString ''object'')], req_route = None,
      req_role = None\<rparr>]"
    by (simp add: example_spawn_def parse_children_def children_of_def json_get_def json_as_array_def
        parse_child_def json_as_str_def requested_policy_def optional_name_def json_u32_def
        DEFAULT_CHILD_TURNS_def DEFAULT_CHILD_TOOL_CALLS_def)
  with spawn_preview_is_what_runs [OF p, of PolicyMode.Ask PolicyMode.Ask] show ?thesis
    by (auto simp: clamp_request_def clamp_policy_def)
qed

end
