(* ===== verification/Display.thy ===== *)
theory Display
  imports Error Rust_Str
begin

text \<open>
  What the runtime prints of an error (the derives of \<^verbatim>\<open>core/error.rs\<close>), how a tool's output is
  bounded (\<^verbatim>\<open>tools/output.rs\<close>), and the single precision arithmetic of the quota checks:
  comparisons of \<^verbatim>\<open>f32\<close> values given as bit patterns, and the quotient of two counts taken in
  double precision and rounded to single.
\<close>

section \<open>Printing\<close>

definition show_int :: "int \<Rightarrow> string" where
  "show_int i = (if i < 0 then CHR ''-'' # show_nat (nat (- i)) else show_nat (nat i))"

definition show_option :: "('a \<Rightarrow> string) \<Rightarrow> 'a option \<Rightarrow> string" where
  "show_option sh x = (case x of None \<Rightarrow> ''None'' | Some y \<Rightarrow> ''Some('' @ sh y @ '')'')"

definition retry_after :: "u64 option \<Rightarrow> string" where
  "retry_after s = (case s of None \<Rightarrow> [] | Some seconds \<Rightarrow> ''; retry after '' @ show_u32 seconds @ ''s'')"

definition ProviderError_display :: "ProviderError \<Rightarrow> string" where
  "ProviderError_display e = (case e of
      ProviderError.Auth \<Rightarrow> ''provider authentication failed''
    | ProviderError.RateLimit s \<Rightarrow> ''provider rate limited the request'' @ retry_after s
    | ProviderError.RateLimitUnexplained \<Rightarrow>
        ''provider refused the request with 429 but reported no limit''
    | ProviderError.Overloaded s \<Rightarrow> ''provider is temporarily overloaded'' @ retry_after s
    | ProviderError.PlanQuota at \<Rightarrow> ''subscription plan quota exhausted; reset at ''
        @ show_option (\<lambda>i. show_int (sint i)) at
    | ProviderError.Relay \<Rightarrow> ''provider gateway could not relay the request''
    | ProviderError.Protocol detail \<Rightarrow> ''provider protocol error: '' @ detail
    | ProviderError.IncompatibleModel model capability \<Rightarrow>
        ''model '' @ model @ '' does not support a required capability: '' @ capability
    | ProviderError.Transport detail \<Rightarrow> ''provider transport error: '' @ detail
    | ProviderError.Cancelled \<Rightarrow> ''cancelled'')"

definition ToolError_display :: "ToolError \<Rightarrow> string" where
  "ToolError_display e = (case e of
      ToolError.SchemaInvalid detail \<Rightarrow> ''tool arguments failed schema validation: '' @ detail
    | ToolError.Refused _ detail \<Rightarrow> ''tool preflight refused: '' @ detail
    | ToolError.Failed _ detail \<Rightarrow> ''tool preflight failed: '' @ detail
    | ToolError.Execution detail \<Rightarrow> ''tool execution failed: '' @ detail
    | ToolError.Cancelled \<Rightarrow> ''cancelled'')"

section \<open>Bounded output\<close>

text \<open>A byte index is a boundary if it is an end of the string or its byte begins a character.\<close>

definition is_char_boundary :: "string \<Rightarrow> nat \<Rightarrow> bool" where
  "is_char_boundary s i \<longleftrightarrow> i = 0 \<or> i = length s \<or> (i < length s \<and> \<not> is_cont (s ! i))"

function boundary_before :: "string \<Rightarrow> nat \<Rightarrow> nat" where
  "boundary_before s i = (if is_char_boundary s i then i else boundary_before s (i - 1))"
  by pat_completeness auto
termination by (relation "measure snd") (auto simp: is_char_boundary_def)

declare boundary_before.simps [simp del]

definition TRUNCATION_NOTE :: string where
  "TRUNCATION_NOTE = [CHR 0x0A] @ ''['' @ [CHR 0xE2, CHR 0x80, CHR 0xA6] @ '' output truncated ''
     @ [CHR 0xE2, CHR 0x80, CHR 0xA6] @ '']''"

definition truncate_output :: "string \<Rightarrow> nat \<Rightarrow> string \<times> bool" where
  "truncate_output s max_bytes =
     (if length s \<le> max_bytes then (s, False)
      else (take (boundary_before s max_bytes) s @ TRUNCATION_NOTE, True))"

lemma boundary_before_le: "boundary_before s i \<le> i \<and> (i \<le> length s \<longrightarrow> is_char_boundary s (boundary_before s i))"
proof (induction s i rule: boundary_before.induct)
  case (1 s i)
  show ?case
  proof (cases "is_char_boundary s i")
    case True
    then show ?thesis by (simp add: boundary_before.simps [of s i])
  next
    case False
    with 1 show ?thesis by (auto simp: boundary_before.simps [of s i])
  qed
qed

lemma truncate_output_bounded:
  "length (fst (truncate_output s n)) \<le> n + length TRUNCATION_NOTE"
  using boundary_before_le [of s n] by (auto simp: truncate_output_def)

lemma truncate_output_prefix:
  "snd (truncate_output s n) \<Longrightarrow> \<exists>i. i \<le> n \<and> is_char_boundary s i
     \<and> fst (truncate_output s n) = take i s @ TRUNCATION_NOTE"
  using boundary_before_le [of s n] by (auto simp: truncate_output_def split: if_splits)

section \<open>Single precision\<close>

definition f32_magnitude :: "f32 \<Rightarrow> int" where
  "f32_magnitude x = uint x mod 0x80000000"

definition f32_negative :: "f32 \<Rightarrow> bool" where
  "f32_negative x \<longleftrightarrow> uint x \<ge> 0x80000000"

definition f32_is_nan :: "f32 \<Rightarrow> bool" where
  "f32_is_nan x \<longleftrightarrow> f32_magnitude x > 0x7F800000"

text \<open>The order of values, where the two zeros are one, and the total order of bit patterns.\<close>

definition f32_key :: "f32 \<Rightarrow> int" where
  "f32_key x = (if f32_negative x then - f32_magnitude x else f32_magnitude x)"

definition f32_total_key :: "f32 \<Rightarrow> int" where
  "f32_total_key x =
     (if f32_negative x then - f32_magnitude x - 1 else f32_magnitude x)"

definition f32_ge :: "f32 \<Rightarrow> f32 \<Rightarrow> bool" where
  "f32_ge x y \<longleftrightarrow> \<not> f32_is_nan x \<and> \<not> f32_is_nan y \<and> f32_key x \<ge> f32_key y"

text \<open>A float that is not negative is a pair of a mantissa and an exponent.\<close>

type_synonym float_parts = "int \<times> int"

function bit_length :: "int \<Rightarrow> int" where
  "bit_length n = (if n \<le> 0 then 0 else 1 + bit_length (n div 2))"
  by pat_completeness auto
termination by (relation "measure nat") auto

declare bit_length.simps [simp del]

definition round_half_even :: "int \<Rightarrow> int \<Rightarrow> int" where
  "round_half_even n d = (let q = n div d; r = n mod d in
     if 2 * r < d \<or> (2 * r = d \<and> even q) then q else q + 1)"

definition scaled :: "int \<Rightarrow> int \<Rightarrow> int \<Rightarrow> int \<times> int" where
  "scaled n d e = (if e \<ge> 0 then (n, push_bit (nat e) d) else (push_bit (nat (- e)) n, d))"

definition round_ratio :: "nat \<Rightarrow> int \<Rightarrow> int \<Rightarrow> float_parts" where
  "round_ratio precision n d =
     (if n = 0 then (0, 0)
      else let low = bit_length n - bit_length d - int precision;
               (a, b) = scaled n d low;
               e = (if a \<ge> push_bit precision b then low + 1 else low);
               (a, b) = scaled n d e;
               m = round_half_even a b
           in if m = push_bit precision 1 then (push_bit (precision - 1) 1, e + 1) else (m, e))"

definition f64_div :: "float_parts \<Rightarrow> float_parts \<Rightarrow> float_parts" where
  "f64_div x y = (let (m, e) = round_ratio 53 (fst x) (fst y) in (m, e + snd x - snd y))"

definition f32_of_f64 :: "float_parts \<Rightarrow> float_parts" where
  "f32_of_f64 x = (let (m, e) = round_ratio 24 (fst x) 1 in (m, e + snd x))"

text \<open>The quotient of two counts is in the normal range.\<close>

definition f32_bits :: "float_parts \<Rightarrow> f32" where
  "f32_bits = (\<lambda>(m, e).
     if m = 0 then 0
     else if e + 150 \<ge> 255 then 0x7F800000
     else word_of_int (push_bit 23 (e + 150) + (m - push_bit 23 1)))"

definition usage_ratio :: "u64 \<Rightarrow> u64 \<Rightarrow> f32" where
  "usage_ratio used limit = f32_bits (f32_of_f64
     (f64_div (round_ratio 53 (uint used) 1) (round_ratio 53 (uint limit) 1)))"

lemmas float_defs = usage_ratio_def f32_bits_def f32_of_f64_def f64_div_def round_ratio_def
  scaled_def round_half_even_def bit_length.simps

lemma usage_ratio_examples:
  "usage_ratio 4 5 = 0x3F4CCCCD" "usage_ratio 1 3 = 0x3EAAAAAB" "usage_ratio 0 7 = 0"
  "usage_ratio 7 7 = 0x3F800000"
  by code_simp+

end
