(* ===== verification/Actor.thy ===== *)
theory Actor
  imports Replay Spawn Directive Budget Governance Display
begin

text \<open>
  The runtime actor (\<^verbatim>\<open>runtime/mod.rs\<close>): the state it owns, the calls it makes of its
  collaborators, and the operations every handler shares: persisting an event, noting a store
  failure, halting a run, checkpointing and letting go of a lease (\<^verbatim>\<open>runtime/durability.rs\<close>).

  A handler is a function of the actor. What the actor asks of the world is a \<^verbatim>\<open>World\<close>: each
  use takes the next tick of a counter, so a fresh id, the time, a file that is read and a
  store that fails are functions of the tick. The store is the volatile one behind a fault:
  at any tick an operation may fail, and a write that is reported as failed may or may not
  have taken place. What the actor sends out is a list of outputs. Publishing a snapshot reads
  the state and is left out.
\<close>

section \<open>The world\<close>

text \<open>A tool is an object behind a trait: what the runtime asks of it.\<close>

record ToolSpec =
  tool_tier :: ToolTier
  tool_needs_trust :: "Json \<Rightarrow> bool"
  tool_check :: "Json \<Rightarrow> (unit, string) result"
  tool_preview :: "nat \<Rightarrow> Json \<Rightarrow> (string, ToolError) result"

record World =
  show_uuid_of :: "uuid \<Rightarrow> string"
  show_instant_of :: "instant \<Rightarrow> string"
  replay_text :: "ReplayRefusal \<Rightarrow> string"
  reduction_text :: "session_error \<Rightarrow> string"
  fresh_at :: "nat \<Rightarrow> uuid"
  clock_at :: "nat \<Rightarrow> instant"
  fault_at :: "nat \<Rightarrow> (StoreError \<times> bool) option"
  limits :: BudgetLimits
  governance_yaml :: "string \<Rightarrow> (RawGovernance, string) result"
  governance_file_at :: "nat \<Rightarrow> string \<Rightarrow> gov_file"
  route_table :: RouteTable
  has_provider :: "ProviderId \<Rightarrow> bool"
  connected_at :: "nat \<Rightarrow> ProviderId \<Rightarrow> bool"
  catalog_at :: "nat \<Rightarrow> ProviderId \<Rightarrow> ModelDescriptor list"
  images_at :: "nat \<Rightarrow> ModelId \<Rightarrow> string option \<Rightarrow> CanonicalMessage list
    \<Rightarrow> (CanonicalMessage list, string) result"
  canonical_root_at :: "nat \<Rightarrow> string \<Rightarrow> (string, string) result"
  extension_catalog :: "string \<Rightarrow> (string \<times> ToolSpec) option"
  query_text :: "ToolCall \<Rightarrow> StoredEvent list \<Rightarrow> string"
  memory_answer_at :: "nat \<Rightarrow> ToolCall \<Rightarrow> ToolResult"

section \<open>The actor\<close>

datatype RunIntent = Normal | ManualHandoff | QuotaDrain

datatype RunPhase = Provider | ApprovalPhase | ToolPhase

record PendingTool =
  pt_approval :: ApprovalId
  pt_call :: ToolCall
  pt_tool :: ToolSpec

text \<open>The cancellation token of a run is the run's id; the structured plan run is left out.\<close>

record ActiveRun =
  run_id :: RunId
  run_session :: SessionId
  run_provider :: ProviderId
  run_model :: ModelId
  accumulator :: StreamAccumulator
  pending_tools :: "ToolCall list"
  awaiting_approval :: "PendingTool option"
  pending_load_authority :: "(string \<times> ExtensionLoadAuthority) option"
  run_phase :: RunPhase
  run_provider_turns :: u32
  run_tool_calls :: u32
  run_intent :: RunIntent
  pending_drain :: "QuotaReserveStatus option"
  hard_stop :: "QuotaReserveStatus option"
  handoff_target :: "(ProviderId \<times> ModelId) option"
  pending_review_threads :: "ReviewThreadId list"

record ChildLink =
  link_parent :: SessionId
  link_session :: SessionId

record ChildSpec =
  child_link :: ChildLink
  child_request :: ChildRequest
  child_limits :: BudgetLimits
  child_provider :: ProviderId
  child_model :: ModelId

record ProviderRequest =
  request_provider :: ProviderId
  request_model :: ModelId
  request_messages :: "CanonicalMessage list"
  request_tools :: "string list"

datatype Output =
    Broadcast MjolnrEvent
  | CancelToken RunId
  | StartTimer RunId nat
  | StartProvider RunId ProviderRequest
  | StartTool RunId ToolCall
  | StartChildren RunId ToolCall "ChildSpec list"
  | Consolidate

record Actor =
  a_store :: Inner
  a_state :: SessionState
  a_run :: "ActiveRun option"
  a_recovery :: RecoveryState
  a_lease :: "SessionLease option"
  a_child_link :: "ChildLink option"
  a_tools :: "(string \<times> ToolSpec) list"
  a_ticks :: nat
  a_out :: "Output list"

definition upd_state :: "(SessionState \<Rightarrow> SessionState) \<Rightarrow> Actor \<Rightarrow> Actor" where
  "upd_state f a = a\<lparr>a_state := f (a_state a)\<rparr>"

definition upd_run :: "RunId \<Rightarrow> (ActiveRun \<Rightarrow> ActiveRun) \<Rightarrow> Actor \<Rightarrow> Actor" where
  "upd_run run f a = a\<lparr>a_run := map_option (\<lambda>r. if run_id r = run then f r else r) (a_run a)\<rparr>"

text \<open>\<^verbatim>\<open>self.run.as_ref().filter(|active| active.id == run)\<close>.\<close>

definition active_run :: "RunId \<Rightarrow> Actor \<Rightarrow> ActiveRun option" where
  "active_run run a = (case a_run a of
      Some r \<Rightarrow> if run_id r = run then Some r else None
    | None \<Rightarrow> None)"

definition emit :: "Output \<Rightarrow> Actor \<Rightarrow> Actor" where
  "emit out a = a\<lparr>a_out := a_out a @ [out]\<rparr>"

definition next_tick :: "Actor \<Rightarrow> Actor" where
  "next_tick a = a\<lparr>a_ticks := Suc (a_ticks a)\<rparr>"

definition take_fresh :: "World \<Rightarrow> Actor \<Rightarrow> uuid \<times> Actor" where
  "take_fresh w a = (fresh_at w (a_ticks a), next_tick a)"

definition take_time :: "World \<Rightarrow> Actor \<Rightarrow> instant \<times> Actor" where
  "take_time w a = (clock_at w (a_ticks a), next_tick a)"

section \<open>The store behind a fault\<close>

definition read_store :: "World \<Rightarrow> (Inner \<Rightarrow> 'x) \<Rightarrow> Actor \<Rightarrow> ('x, StoreError) result \<times> Actor" where
  "read_store w f a = (case fault_at w (a_ticks a) of
      Some (err, _) \<Rightarrow> (Inl err, next_tick a)
    | None \<Rightarrow> (Inr (f (a_store a)), next_tick a))"

definition write_store ::
  "World \<Rightarrow> (Inner \<Rightarrow> ('x \<times> Inner, StoreError) result) \<Rightarrow> Actor \<Rightarrow> ('x, StoreError) result \<times> Actor"
where
  "write_store w f a = (case f (a_store a) of
      Inl err \<Rightarrow> (Inl err, next_tick a)
    | Inr (x, store) \<Rightarrow> (case fault_at w (a_ticks a) of
        Some (err, written) \<Rightarrow> (Inl err, next_tick (if written then a\<lparr>a_store := store\<rparr> else a))
      | None \<Rightarrow> (Inr x, next_tick (a\<lparr>a_store := store\<rparr>))))"

text \<open>An operation without an answer.\<close>

definition unit_op :: "(Inner \<Rightarrow> (Inner, StoreError) result) \<Rightarrow> Inner \<Rightarrow> (unit \<times> Inner, StoreError) result"
where
  "unit_op f st = map_ok (\<lambda>st'. ((), st')) (f st)"

definition broadcast :: "MjolnrEvent \<Rightarrow> Actor \<Rightarrow> Actor" where
  "broadcast e a = emit (Broadcast e) a"

definition persist :: "World \<Rightarrow> MjolnrEvent \<Rightarrow> Actor \<Rightarrow> (StoredEvent, StoreError) result \<times> Actor" where
  "persist w e a =
     (case write_store w (store_append (EventId (fresh_at w (a_ticks a))) (clock_at w (a_ticks a)) e) a of
        (Inl err, a) \<Rightarrow> (Inl err, a)
      | (Inr stored, a) \<Rightarrow> (case apply_event e (a_state a) of
          Inl refusal \<Rightarrow> (Inl (StoreError.Decode
            (''durable event reduction failed after validated append: '' @ reduction_text w refusal)), a)
        | Inr st \<Rightarrow> (Inr stored, broadcast e (a\<lparr>a_state := st\<rparr>))))"

text \<open>The first event of a new branch; it is not reduced into the state.\<close>

definition persist_branching ::
  "World \<Rightarrow> MjolnrEvent \<Rightarrow> Actor \<Rightarrow> (StoredEvent, StoreError) result \<times> Actor" where
  "persist_branching w e a = (case st_branch_parent (a_state a) of
      None \<Rightarrow> persist w e a
    | Some parent \<Rightarrow>
        (let a = upd_state (\<lambda>st. st\<lparr>st_branch_parent := None\<rparr>) a in
         case write_store w (store_append_after (EventId (fresh_at w (a_ticks a)))
             (clock_at w (a_ticks a)) e parent) a of
           (Inl err, a) \<Rightarrow> (Inl err, a)
         | (Inr stored, a) \<Rightarrow> (Inr stored, broadcast e a)))"

section \<open>Failures\<close>

definition note_store_failure :: "World \<Rightarrow> StoreError \<Rightarrow> Actor \<Rightarrow> Actor" where
  "note_store_failure w err =
     upd_state (\<lambda>st. st\<lparr>st_store_failure := Some (StoreError_display (show_uuid_of w) err)\<rparr>)"

text \<open>Take the run if it is the one named, and cancel its token.\<close>

definition drop_run :: "RunId \<Rightarrow> Actor \<Rightarrow> Actor" where
  "drop_run run a = (case active_run run a of
      None \<Rightarrow> a
    | Some _ \<Rightarrow> emit (CancelToken run) (a\<lparr>a_run := None\<rparr>))"

definition halt_for_store :: "World \<Rightarrow> RunId \<Rightarrow> StoreError \<Rightarrow> Actor \<Rightarrow> Actor" where
  "halt_for_store w run err a =
     note_store_failure w err (upd_state (\<lambda>st. st\<lparr>st_pending_approval := None\<rparr>) (drop_run run a))"

definition fail_store :: "World \<Rightarrow> RunId \<Rightarrow> StoreError \<Rightarrow> Actor \<Rightarrow> Actor" where
  "fail_store w run err a = halt_for_store w run err a"

text \<open>Persist an event or do with the error what the handler says.\<close>

definition persist_or ::
  "World \<Rightarrow> MjolnrEvent \<Rightarrow> (StoreError \<Rightarrow> Actor \<Rightarrow> 'x) \<Rightarrow> (StoredEvent \<Rightarrow> Actor \<Rightarrow> 'x) \<Rightarrow> Actor \<Rightarrow> 'x" where
  "persist_or w e failed persisted a = (case persist w e a of
      (Inl err, a) \<Rightarrow> failed err a
    | (Inr stored, a) \<Rightarrow> persisted stored a)"

definition blocked :: "World \<Rightarrow> Actor \<Rightarrow> (ReasonCode \<times> string) option" where
  "blocked w a = (case st_store_failure (a_state a) of
      Some detail \<Rightarrow> Some (ReasonCode.ToolExecution, detail)
    | None \<Rightarrow> (case a_recovery a of
        Required work \<Rightarrow> Some (ReasonCode.RecoveryRequiresDecision, InterruptedWork_summary (show_uuid_of w) work)
      | Clean \<Rightarrow> if st_resume_advice (a_state a) \<noteq> None
          then Some (ReasonCode.RunActive,
            ''choose compact, new-from-handoff, or full resume before continuing'')
          else None))"

section \<open>Checkpoints and leases\<close>

definition actor_checkpoint :: "World \<Rightarrow> SessionStatus \<Rightarrow> Actor \<Rightarrow> (unit, StoreError) result \<times> Actor" where
  "actor_checkpoint w status a = (case st_session (a_state a) of
      None \<Rightarrow> (Inr (), a)
    | Some session \<Rightarrow>
        if a_run a \<noteq> None \<or> is_required (a_recovery a) \<or> st_store_failure (a_state a) \<noteq> None
        then (Inl (StoreError.Unavailable
          ''refusing to checkpoint unsettled or non-durable session state''), a)
        else (case build_checkpoint session status (a_state a) of
            Inl err \<Rightarrow> (Inl (StoreError.Decode
              (''session state could not be checkpointed: '' @ ToolError_display err)), a)
          | Inr cp \<Rightarrow> (case write_store w (store_write_checkpoint cp) a of
              (Inl err, a) \<Rightarrow> (Inl err, a)
            | (Inr _, a) \<Rightarrow> (Inr (), a))))"

definition release_lease :: "World \<Rightarrow> Actor \<Rightarrow> (unit, StoreError) result \<times> Actor" where
  "release_lease w a = (case a_lease a of
      None \<Rightarrow> (Inr (), a)
    | Some lease \<Rightarrow>
        (case write_store w (unit_op (\<lambda>st. Inr (store_release_session lease st))) a of
           (Inl err, a) \<Rightarrow> (Inl err, a)
         | (Inr _, a) \<Rightarrow> (Inr (), if a_lease a = Some lease then a\<lparr>a_lease := None\<rparr> else a)))"

definition resume_failed :: "World \<Rightarrow> StoreError \<Rightarrow> Actor \<Rightarrow> Actor" where
  "resume_failed w err a = (case release_lease w a of
      (Inr _, a) \<Rightarrow> note_store_failure w err a
    | (Inl release_err, a) \<Rightarrow> note_store_failure w (StoreError.Unavailable
        (StoreError_display (show_uuid_of w) err
         @ ''; additionally failed to release the session lease: ''
         @ StoreError_display (show_uuid_of w) release_err)) a)"

text \<open>The acknowledged shutdown; the flush of the volatile store only may fail.\<close>

definition shutdown :: "World \<Rightarrow> Actor \<Rightarrow> (unit, StoreError) result \<times> Actor" where
  "shutdown w a0 =
     (let interrupted = a_run a0 \<noteq> None;
          a = (case a_run a0 of None \<Rightarrow> a0 | Some r \<Rightarrow> drop_run (run_id r) a0);
          existing_failure = st_store_failure (a_state a);
          (checkpointed, a) =
            (if interrupted \<or> is_required (a_recovery a) \<or> existing_failure \<noteq> None then (Inr (), a)
             else actor_checkpoint w Active a);
          (flushed, a) = read_store w (\<lambda>_. ()) a;
          (released, a) = release_lease w a
      in (case existing_failure of
            Some detail \<Rightarrow> Inl (StoreError.Unavailable detail)
          | None \<Rightarrow> and_then checkpointed (\<lambda>_. and_then flushed (\<lambda>_. released)), a))"

end
