(* ===== verification/Actor_Authority.thy ===== *)
theory Actor_Authority
  imports Actor
begin

text \<open>
  What a run is allowed to do: the policy of the session, the ceiling a governance file puts on
  it (\<^verbatim>\<open>runtime/governance.rs\<close>), the spawn envelope a human armed (\<^verbatim>\<open>runtime/envelope.rs\<close>) and the
  gate a proposed tool call passes (\<^verbatim>\<open>gate_decision\<close>, \<^verbatim>\<open>normalize_call\<close> and \<^verbatim>\<open>command_spec\<close> of
  \<^verbatim>\<open>runtime/tool_loop.rs\<close>).
\<close>

section \<open>The policy\<close>

definition set_policy :: "World \<Rightarrow> PolicyMode \<Rightarrow> Actor \<Rightarrow> Actor" where
  "set_policy w mode a =
     (if a_run a \<noteq> None then a
      else case st_session (a_state a) of
        None \<Rightarrow> upd_state (\<lambda>st. st\<lparr>st_policy := mode\<rparr>) a
      | Some session \<Rightarrow> persist_or w (MjolnrEvent.PolicyChanged session mode) (note_store_failure w)
          (\<lambda>_. upd_state (\<lambda>st. st\<lparr>st_policy := mode\<rparr>)) a)"

section \<open>The spawn envelope\<close>

definition arm_spawn_envelope :: "World \<Rightarrow> SpawnEnvelope \<Rightarrow> Actor \<Rightarrow> Actor" where
  "arm_spawn_envelope w env a =
     (if a_run a \<noteq> None
      then upd_state (\<lambda>st. st\<lparr>st_envelope_refusal :=
             Some ''an envelope can only be armed while idle''\<rparr>) a
      else case envelope_validate env (st_policy (a_state a)) of
        Inl refusal \<Rightarrow>
          upd_state (\<lambda>st. st\<lparr>st_envelope_refusal := Some (EnvelopeRefusal_detail refusal)\<rparr>) a
      | Inr _ \<Rightarrow> (case st_session (a_state a) of
          None \<Rightarrow> a
        | Some session \<Rightarrow> persist_or w
            (MjolnrEvent.SpawnEnvelopeArmed session (ceiling_mode env) (max_children env)
              (max_per_call env) (max_provider_turns env) (expires_after_turns env))
            (note_store_failure w)
            (\<lambda>_. upd_state (\<lambda>st. st\<lparr>st_envelope_refusal := None,
                   st_envelope := Some (active_new env)\<rparr>)) a))"

definition clear_spawn_envelope :: "World \<Rightarrow> EnvelopeEnd \<Rightarrow> Actor \<Rightarrow> Actor" where
  "clear_spawn_envelope w reason a =
     (if st_envelope (a_state a) = None then a
      else let a = upd_state (\<lambda>st. st\<lparr>st_envelope := None\<rparr>) a in
        case st_session (a_state a) of
          None \<Rightarrow> a
        | Some session \<Rightarrow> persist_or w (MjolnrEvent.SpawnEnvelopeCleared session reason)
            (note_store_failure w) (\<lambda>_ a. a) a)"

definition reconcile_envelope_with_policy :: "World \<Rightarrow> PolicyMode \<Rightarrow> Actor \<Rightarrow> Actor" where
  "reconcile_envelope_with_policy w mode a = (case st_envelope (a_state a) of
      None \<Rightarrow> a
    | Some active \<Rightarrow>
        if is_ok (envelope_validate (envelope active) mode) then a
        else clear_spawn_envelope w PolicyNarrowed a)"

definition envelope_draw :: "ToolCall \<Rightarrow> SessionState \<Rightarrow> (unit, EnvelopeRefusal) result option" where
  "envelope_draw call st =
     (if call_name call \<noteq> SPAWN_SUBAGENT then None
      else let (children, turns, child_routes) = draw_shape (call_arguments call) in
        case st_envelope st of
          Some active \<Rightarrow>
            if expired active
            then (if children > u32_of_usize MAX_CHILDREN
                  then Some (Inl (PerCallExceeded children (u32_of_usize MAX_CHILDREN))) else None)
            else Some (check_draw active children turns child_routes)
        | None \<Rightarrow> if children > u32_of_usize MAX_CHILDREN
            then Some (Inl (PerCallExceeded children (u32_of_usize MAX_CHILDREN))) else None)"

definition record_envelope_draw :: "World \<Rightarrow> RunId \<Rightarrow> u32 \<Rightarrow> u32 \<Rightarrow> Actor \<Rightarrow> Actor" where
  "record_envelope_draw w run children turns a = (case st_envelope (a_state a) of
      None \<Rightarrow> a
    | Some before \<Rightarrow>
        (let active = draw children turns before;
             a = upd_state (\<lambda>st. st\<lparr>st_envelope := Some active\<rparr>) a;
             ended = (\<lambda>a. if exhausted active then clear_spawn_envelope w Spent a else a) in
         case st_session (a_state a) of
           None \<Rightarrow> ended a
         | Some session \<Rightarrow> persist_or w
             (MjolnrEvent.SpawnEnvelopeDrawn session run children turns (children_remaining active))
             (note_store_failure w) (\<lambda>_. ended) a))"

definition tick_envelope :: "World \<Rightarrow> Actor \<Rightarrow> Actor" where
  "tick_envelope w a = (case st_envelope (a_state a) of
      None \<Rightarrow> a
    | Some active \<Rightarrow>
        (let (lapsed, active) = tick active;
             a = upd_state (\<lambda>st. st\<lparr>st_envelope := Some active\<rparr>) a
         in if lapsed then clear_spawn_envelope w Lapsed a else a))"

text \<open>What a call that starts is charged, and the ceiling its children run under.\<close>

definition envelope_ceiling :: "SessionState \<Rightarrow> PolicyMode" where
  "envelope_ceiling st = (case st_envelope st of
      None \<Rightarrow> st_policy st
    | Some active \<Rightarrow> clamp_ceiling (st_policy st) (ceiling_mode (envelope active)))"

definition charge_envelope :: "World \<Rightarrow> RunId \<Rightarrow> ToolCall \<Rightarrow> Actor \<Rightarrow> PolicyMode \<times> Actor" where
  "charge_envelope w run call a = (case st_envelope (a_state a) of
      None \<Rightarrow> (st_policy (a_state a), a)
    | Some _ \<Rightarrow>
        (let (children, turns, _) = draw_shape (call_arguments call)
         in (envelope_ceiling (a_state a), record_envelope_draw w run children turns a)))"

section \<open>The governance floor\<close>

definition governance_table :: "World \<Rightarrow> Actor \<Rightarrow> GovernanceTable \<times> Actor" where
  "governance_table w a = (case st_workspace_root (a_state a) of
      None \<Rightarrow> (GovernanceTable_default, a)
    | Some root \<Rightarrow>
        (fst (load_dir (governance_yaml w) (governance_file_at w (a_ticks a) root)), next_tick a))"

definition apply_governance_floor :: "World \<Rightarrow> Actor \<Rightarrow> Actor" where
  "apply_governance_floor w a =
     (case (st_session (a_state a), st_provider (a_state a), st_model (a_state a)) of
        (Some session, Some provider, Some model) \<Rightarrow>
          (let (table, a) = governance_table w a;
               tier = tier_for table provider model;
               from_mode = st_policy (a_state a);
               to_mode = GovernanceTier_clamp tier from_mode
           in if to_mode = from_mode then a
              else persist_or w
                (MjolnrEvent.PolicyClamped session from_mode to_mode provider model tier)
                (note_store_failure w)
                (\<lambda>_ a. reconcile_envelope_with_policy w to_mode
                         (upd_state (\<lambda>st. st\<lparr>st_policy := to_mode\<rparr>) a)) a)
      | _ \<Rightarrow> a)"

section \<open>The gate\<close>

text \<open>A run's exact-command grant is looked up by the command a call would run.\<close>

definition command_spec :: "ToolCall \<Rightarrow> CommandSpec option" where
  "command_spec call =
     (if call_name call \<noteq> ''run_command'' then None
      else Option.bind (Option.bind (json_get ''program'' (call_arguments call)) json_as_str) (\<lambda>p.
           Option.bind (Option.bind (json_get ''arguments'' (call_arguments call)) json_as_array) (\<lambda>args.
           if \<exists>x \<in> set args. json_as_str x = None then None
           else Some \<lparr>program = p, arguments = List.map_filter json_as_str args\<rparr>)))"

definition normalize_call :: "SessionState \<Rightarrow> ToolCall \<Rightarrow> ToolCall" where
  "normalize_call st call =
     (if call_name call = SPAWN_SUBAGENT
      then call\<lparr>call_arguments := clamp_call_policies (envelope_ceiling st) (call_arguments call)\<rparr>
      else call)"

definition gate_decision :: "SessionState \<Rightarrow> ToolCall \<Rightarrow> ToolSpec \<Rightarrow> bool \<Rightarrow> PolicyDecision" where
  "gate_decision st call spec envelope_authorised =
     (if tool_needs_trust spec (call_arguments call) \<and> \<not> st_workspace_trusted st
      then PolicyDecision.Ask
      else if envelope_authorised then Allow
      else decide (st_policy st) (tool_tier spec)
        (case command_spec call of None \<Rightarrow> False | Some c \<Rightarrow> c \<in> st_exact_commands st))"

end
