(* ===== verification/Store_Sound.thy ===== *)
theory Store_Sound
  imports Replay
begin

text \<open>
  What the runtime keeps of a store: every log is numbered by position, and a checkpoint covers
  a beginning of its session's log after which nothing is in flight. The sequence of a
  checkpoint is a 64-bit count, so this is said of logs shorter than that.
\<close>

definition log_tracker :: "StoredEvent list \<Rightarrow> Tracker" where
  "log_tracker es = fold track (map stored_event es) None"

definition short :: "StoredEvent list \<Rightarrow> bool" where
  "short es \<longleftrightarrow> length es < 2 ^ 64"

definition covers_settled :: "StoredEvent list \<Rightarrow> u64 \<Rightarrow> bool" where
  "covers_settled es n \<longleftrightarrow> unat n \<le> length es \<and> log_tracker (take (unat n) es) = None"

definition entry_sound :: "MemorySession \<Rightarrow> bool" where
  "entry_sound e \<longleftrightarrow> contiguous (mem_events e)
     \<and> (short (mem_events e) \<longrightarrow> (\<forall>(n, cp) \<in> set (mem_checkpoints e). covers_settled (mem_events e) n))"

definition store_sound :: "Inner \<Rightarrow> bool" where
  "store_sound st \<longleftrightarrow> (\<forall>session e. bt_get (sessions st) session = Some e \<longrightarrow> entry_sound e)"

text \<open>A use of the store only adds to the logs, and keeps it sound.\<close>

definition store_grown :: "Inner \<Rightarrow> Inner \<Rightarrow> bool" where
  "store_grown st st' \<longleftrightarrow> (\<forall>session. length (mem_log st session) \<le> length (mem_log st' session))
     \<and> (store_sound st \<longrightarrow> store_sound st')"

lemma store_grown_refl [simp]: "store_grown st st"
  by (simp add: store_grown_def)

lemma store_grown_trans: "store_grown s t \<Longrightarrow> store_grown t u \<Longrightarrow> store_grown s u"
  unfolding store_grown_def using le_trans by blast

lemma store_grown_short: "store_grown st st' \<Longrightarrow> short (mem_log st' s) \<Longrightarrow> short (mem_log st s)"
  by (simp add: store_grown_def short_def) (meson le_less_trans)

lemma entry_sound_empty: "mem_events e = [] \<Longrightarrow> mem_checkpoints e = [] \<Longrightarrow> entry_sound e"
  by (simp add: entry_sound_def)

lemma entry_sound_same:
  "mem_events e' = mem_events e \<Longrightarrow> mem_checkpoints e' = mem_checkpoints e \<Longrightarrow> entry_sound e' = entry_sound e"
  by (simp add: entry_sound_def)

lemma entry_sound_append:
  assumes "entry_sound e" "stored_sequence s = of_nat (length (mem_events e))"
    and "mem_events e' = mem_events e @ [s]" "mem_checkpoints e' = mem_checkpoints e"
  shows "entry_sound e'"
  using assms by (auto simp: entry_sound_def contiguous_snoc short_def covers_settled_def)

lemma store_sound_modify:
  "store_sound st \<Longrightarrow> (\<And>e. bt_get (sessions st) session = Some e \<Longrightarrow> entry_sound e \<Longrightarrow> entry_sound (f e)) \<Longrightarrow>
     store_sound (st\<lparr>sessions := bt_modify session f (sessions st)\<rparr>)"
  by (auto simp: store_sound_def)

lemma store_grown_modify:
  assumes "\<And>e. bt_get (sessions st) session = Some e \<Longrightarrow>
      length (mem_events e) \<le> length (mem_events (f e)) \<and> (entry_sound e \<longrightarrow> entry_sound (f e))"
  shows "store_grown st (st\<lparr>sessions := bt_modify session f (sessions st)\<rparr>)"
  unfolding store_grown_def
proof (intro conjI allI impI)
  fix s
  show "length (mem_log st s) \<le> length (mem_log (st\<lparr>sessions := bt_modify session f (sessions st)\<rparr>) s)"
    using assms by (auto simp: mem_log_def split: option.split)
next
  assume "store_sound st"
  then show "store_sound (st\<lparr>sessions := bt_modify session f (sessions st)\<rparr>)"
    using assms by (intro store_sound_modify) auto
qed

section \<open>The operations\<close>

lemma store_append_grown:
  assumes "store_append i now e st = Inr (s, st')"
  shows "store_grown st st'"
proof -
  obtain entry where entry: "bt_get (sessions st) (event_session e) = Some entry"
    using assms by (auto simp: store_append_def and_then_Inr ok_or_def split: option.splits)
  define f where "f = (\<lambda>e :: MemorySession. e\<lparr>mem_events := mem_events e @ [s], mem_updated_at := now\<rparr>)"
  have s: "stored_sequence s = of_nat (length (mem_events entry))"
    "st' = st\<lparr>sessions := bt_modify (event_session e) f (sessions st)\<rparr>"
    using assms entry by (auto simp: store_append_def and_then_Inr Let_def ok_or_def f_def)
  show ?thesis
    unfolding s(2)
  proof (rule store_grown_modify)
    fix e'
    assume "bt_get (sessions st) (event_session e) = Some e'"
    with entry have "e' = entry" by simp
    then show "length (mem_events e') \<le> length (mem_events (f e')) \<and> (entry_sound e' \<longrightarrow> entry_sound (f e'))"
      using entry_sound_append [of entry s "f entry"] s(1) by (simp add: f_def)
  qed
qed

lemma store_append_after_grown: "store_append_after i now e p st = Inr (s, st') \<Longrightarrow> store_grown st st'"
  unfolding store_append_after_def by (rule store_append_grown)

text \<open>Operations that change neither the log nor the checkpoints.\<close>

lemma modify_same:
  assumes "\<And>e. mem_events (f e) = mem_events e" "\<And>e. mem_checkpoints (f e) = mem_checkpoints e"
  shows "store_grown st (st\<lparr>sessions := bt_modify session f (sessions st)\<rparr>)
     \<and> mem_log (st\<lparr>sessions := bt_modify session f (sessions st)\<rparr>) = mem_log st"
proof
  show "store_grown st (st\<lparr>sessions := bt_modify session f (sessions st)\<rparr>)"
    by (rule store_grown_modify) (simp add: assms entry_sound_same [OF assms])
  show "mem_log (st\<lparr>sessions := bt_modify session f (sessions st)\<rparr>) = mem_log st"
    by (rule ext) (simp add: mem_log_def assms split: option.split)
qed

lemma with_session_same:
  assumes "with_session session f st = Inr st'"
    and "\<And>e. mem_events (f e) = mem_events e" "\<And>e. mem_checkpoints (f e) = mem_checkpoints e"
  shows "store_grown st st' \<and> mem_log st' = mem_log st"
  using assms(1) modify_same [OF assms(2,3)] by (auto simp: with_session_def split: if_splits)

lemma store_rename_same:
  "store_rename_session now session title st = Inr st' \<Longrightarrow> store_grown st st' \<and> mem_log st' = mem_log st"
  unfolding store_rename_session_def by (erule with_session_same) simp_all

lemma store_end_same:
  "store_end_session now session st = Inr st' \<Longrightarrow> store_grown st st' \<and> mem_log st' = mem_log st"
  unfolding store_end_session_def by (erule with_session_same) simp_all

lemma store_release_same:
  "store_grown st (store_release_session lease st) \<and> mem_log (store_release_session lease st) = mem_log st"
  unfolding store_release_session_def by (rule modify_same) simp_all

lemma store_break_same:
  "store_grown st (store_break_lease session st) \<and> mem_log (store_break_lease session st) = mem_log st"
  unfolding store_break_lease_def by (rule modify_same) simp_all

lemma store_acquire_same:
  assumes "store_acquire_session show_uuid token session st = Inr (lease, st')"
  shows "store_grown st st' \<and> mem_log st' = mem_log st"
proof -
  have "st' = st\<lparr>sessions := bt_modify session (\<lambda>e. e\<lparr>mem_leased := True\<rparr>) (sessions st)\<rparr>"
    using assms by (auto simp: store_acquire_session_def and_then_Inr split: if_splits)
  then show ?thesis by (simp add: modify_same)
qed

lemma store_open_project_same:
  "store_open_project fresh root st = (p, st') \<Longrightarrow> store_grown st st' \<and> mem_log st' = mem_log st"
  unfolding store_open_project_def store_grown_def store_sound_def
  by (cases "bt_get (projects st) root") (auto simp: mem_log_def fun_eq_iff)

text \<open>A new session starts with an empty log, whatever was there.\<close>

lemma store_create_sound:
  "store_sound st \<Longrightarrow> store_sound (store_create_session now session p title parent st)"
  by (auto simp: store_sound_def store_create_session_def entry_sound_empty)

lemma store_create_log:
  "mem_log (store_create_session now session p title parent st) s = (if s = session then [] else mem_log st s)"
  by (simp add: mem_log_def store_create_session_def)

lemma set_bt_insert: "set (bt_insert k v m) \<subseteq> insert (k, v) (set m)"
  by (induction k v m rule: bt_insert.induct) auto

lemma store_checkpoint_log:
  "store_write_checkpoint cp st = Inr (x, st') \<Longrightarrow> mem_log st' = mem_log st"
  by (rule ext) (auto simp: store_write_checkpoint_def and_then_Inr Let_def)

text \<open>Nothing is in flight where a checkpoint is written.\<close>

lemma store_checkpoint_grown:
  assumes "store_write_checkpoint cp st = Inr (x, st')"
    and "short (mem_log st (cp_session cp)) \<Longrightarrow> log_tracker (mem_log st (cp_session cp)) = None"
  shows "store_grown st st'"
proof -
  obtain e where e: "bt_get (sessions st) (cp_session cp) = Some e"
    using assms(1) by (auto simp: store_write_checkpoint_def and_then_Inr ok_or_def split: option.splits)
  have st': "st' = st\<lparr>sessions := bt_modify (cp_session cp)
      (\<lambda>e'. e'\<lparr>mem_checkpoints := bt_insert (of_nat (length (mem_events e))) cp (mem_checkpoints e')\<rparr>) (sessions st)\<rparr>"
    using assms(1) e by (auto simp: store_write_checkpoint_def and_then_Inr Let_def)
  have "covers_settled (mem_events e) (of_nat (length (mem_events e)))" if "short (mem_events e)"
    using that assms(2) e by (simp add: covers_settled_def short_def mem_log_def unat_of_nat)
  then show ?thesis
    unfolding st' using e set_bt_insert
    by (intro store_grown_modify) (fastforce simp: entry_sound_def)
qed

text \<open>What is read after a checkpoint, replayed on it, leaves in flight what the log does.\<close>

lemma store_latest_in:
  "store_latest_checkpoint session st = Some c \<Longrightarrow>
     \<exists>e. bt_get (sessions st) session = Some e \<and> (checkpoint_sequence c, stored_checkpoint c) \<in> set (mem_checkpoints e)"
  by (auto simp: store_latest_checkpoint_def rev_eq_Cons_iff split: option.splits list.splits)

lemma tail_tracker:
  assumes "store_sound st" "short (mem_log st session)"
    and "cp = None \<and> from = 0 \<or> cp = Some c \<and> store_latest_checkpoint session st = Some c
           \<and> from = checkpoint_sequence c"
  shows "log_tracker (store_events_from session from st) = log_tracker (mem_log st session)"
proof -
  have settled: "covers_settled (mem_log st session) from"
    using assms(3)
  proof
    assume "cp = Some c \<and> store_latest_checkpoint session st = Some c \<and> from = checkpoint_sequence c"
    with store_latest_in obtain e where e: "bt_get (sessions st) session = Some e"
      "(from, stored_checkpoint c) \<in> set (mem_checkpoints e)" by blast
    with assms(1,2) show ?thesis by (fastforce simp: store_sound_def entry_sound_def mem_log_def)
  qed (simp add: covers_settled_def log_tracker_def)
  have "contiguous (mem_log st session)"
    using assms(1) by (auto simp: store_sound_def entry_sound_def mem_log_def split: option.split)
  with filter_from_drop [of "mem_log st session" "unat from"] settled assms(2)
  have "store_events_from session from st = drop (unat from) (mem_log st session)"
    by (simp add: events_from_log covers_settled_def short_def)
  moreover have "log_tracker (mem_log st session)
      = log_tracker (take (unat from) (mem_log st session) @ drop (unat from) (mem_log st session))"
    by simp
  ultimately show ?thesis
    using settled unfolding log_tracker_def covers_settled_def map_append fold_append comp_apply by simp
qed

end
