(* ===== verification/Actor_Frame.thy ===== *)
theory Actor_Frame
  imports Actor_Authority Store_Sound
begin

text \<open>
  What an operation of the actor leaves alone. The log of a session says what is in flight (the
  tracker of recovery, folded over the log); an operation is calm if it changes neither that,
  nor the run, the lease, the recovery, the session, its route or its pending approval, keeps the
  store sound, and sends out nothing but announcements. An operation that appends an event moves the tracker by
  that event and is calm otherwise.
\<close>

definition tracker_of :: "Actor \<Rightarrow> SessionId \<Rightarrow> Tracker" where
  "tracker_of a session = log_tracker (mem_log (a_store a) session)"

definition quiet :: "MjolnrEvent \<Rightarrow> bool" where
  "quiet e \<longleftrightarrow> (\<forall>tr. track e tr = tr)"

definition kept :: "Actor \<Rightarrow> Actor \<Rightarrow> bool" where
  "kept a b \<longleftrightarrow> store_grown (a_store a) (a_store b) \<and> a_run b = a_run a \<and> a_lease b = a_lease a \<and> a_recovery b = a_recovery a
     \<and> a_child_link b = a_child_link a
     \<and> st_session (a_state b) = st_session (a_state a)
     \<and> st_route (a_state b) = st_route (a_state a)
     \<and> st_pending_approval (a_state b) = st_pending_approval (a_state a)
     \<and> (st_store_failure (a_state a) \<noteq> None \<longrightarrow> st_store_failure (a_state b) \<noteq> None)
     \<and> (\<exists>es. a_out b = a_out a @ map Broadcast es)"

definition calm :: "Actor \<Rightarrow> Actor \<Rightarrow> bool" where
  "calm a b \<longleftrightarrow> kept a b \<and> tracker_of b = tracker_of a"

definition wrote :: "MjolnrEvent \<Rightarrow> Actor \<Rightarrow> Actor \<Rightarrow> bool" where
  "wrote e a b \<longleftrightarrow> kept a b
     \<and> tracker_of b = (tracker_of a)(event_session e := track e (tracker_of a (event_session e)))"

lemma tracker_of_update [simp]:
  "tracker_of (a\<lparr>a_state := x1\<rparr>) = tracker_of a"
  "tracker_of (a\<lparr>a_run := x2\<rparr>) = tracker_of a"
  "tracker_of (a\<lparr>a_recovery := x3\<rparr>) = tracker_of a"
  "tracker_of (a\<lparr>a_lease := x4\<rparr>) = tracker_of a"
  "tracker_of (a\<lparr>a_tools := x5\<rparr>) = tracker_of a"
  "tracker_of (a\<lparr>a_ticks := x6\<rparr>) = tracker_of a"
  "tracker_of (a\<lparr>a_out := x7\<rparr>) = tracker_of a"
  by (simp_all add: tracker_of_def fun_eq_iff)

named_theorems calm_intros

lemma kept_refl [simp]: "kept a a"
  by (auto simp: kept_def intro: exI [of _ "[]"])

lemma kept_trans: "kept a b \<Longrightarrow> kept b c \<Longrightarrow> kept a c"
proof -
  assume k: "kept a b" "kept b c"
  then obtain xs ys where "a_out b = a_out a @ map Broadcast xs" "a_out c = a_out b @ map Broadcast ys"
    by (auto simp: kept_def)
  then have "a_out c = a_out a @ map Broadcast (xs @ ys)" by simp
  moreover have "store_grown (a_store a) (a_store c)"
    using k store_grown_trans unfolding kept_def by blast
  ultimately show ?thesis using k unfolding kept_def by metis
qed

lemma calm_refl [simp, calm_intros]: "calm a a"
  by (simp add: calm_def)

lemma calm_trans [trans]: "calm a b \<Longrightarrow> calm b c \<Longrightarrow> calm a c"
  by (auto simp: calm_def intro: kept_trans)

lemma wrote_quiet: "wrote e a b \<Longrightarrow> quiet e \<Longrightarrow> calm a b"
  by (simp add: wrote_def calm_def quiet_def)

lemma calm_wrote: "calm a b \<Longrightarrow> wrote e b c \<Longrightarrow> wrote e a c"
  by (auto simp: calm_def wrote_def intro: kept_trans)

lemma wrote_calm: "wrote e a b \<Longrightarrow> calm b c \<Longrightarrow> wrote e a c"
  by (auto simp: calm_def wrote_def intro: kept_trans)

lemma quiet_simps [simp]:
  "quiet (MjolnrEvent.MessageAppended s message)"
  "quiet (MjolnrEvent.PolicyChanged s mode)"
  "quiet (MjolnrEvent.PolicyClamped s mode mode' i m tier)"
  "quiet (MjolnrEvent.SpawnEnvelopeArmed s mode n1 n2 n3 n4)"
  "quiet (MjolnrEvent.SpawnEnvelopeCleared s ended)"
  "quiet (MjolnrEvent.SpawnEnvelopeDrawn s run n1 n2 n3)"
  "quiet (MjolnrEvent.HandoffCreated s handoff)"
  "quiet (MjolnrEvent.ModelChanged s i m)"
  "quiet (MjolnrEvent.ModelChangeRefused s i m code detail)"
  "quiet (MjolnrEvent.QuotaBoundaryReached s run reserve)"
  "quiet (MjolnrEvent.BreakerStateChanged s i b1 b2)"
  "quiet (MjolnrEvent.RouteSelected s ch name k i m reason)"
  "quiet (MjolnrEvent.RouteAdvanced s run name k k' i m cond)"
  "quiet (MjolnrEvent.RouteExhausted s run name cond)"
  "quiet (MjolnrEvent.UsageReported s run u)"
  "quiet (MjolnrEvent.BudgetExhausted s run)"
  "quiet (MjolnrEvent.ExtensionLoaded s name detail authority)"
  "quiet (MjolnrEvent.ReviewRequestAnswered s threads response)"
  "quiet (MjolnrEvent.SubagentSpawned s run child detail mode name name')"
  "quiet (MjolnrEvent.SubagentResultLate s child detail)"
  "quiet (MjolnrEvent.ReadSetCollision s child child' detail)"
  "quiet (MjolnrEvent.SessionCreated s i m)"
  "quiet (MjolnrEvent.RecoveryRequired s wk)"
  by (simp_all add: quiet_def track_def)

section \<open>Steps of the actor alone\<close>

lemma calm_next_tick [calm_intros]: "calm a b \<Longrightarrow> calm a (next_tick b)"
  by (simp add: calm_def kept_def next_tick_def)

lemma kept_upd_state:
  "kept a b \<Longrightarrow> st_session (f (a_state b)) = st_session (a_state b) \<Longrightarrow>
     st_route (f (a_state b)) = st_route (a_state b) \<Longrightarrow>
     st_pending_approval (f (a_state b)) = st_pending_approval (a_state b) \<Longrightarrow>
     (st_store_failure (a_state b) \<noteq> None \<Longrightarrow> st_store_failure (f (a_state b)) \<noteq> None) \<Longrightarrow>
     kept a (upd_state f b)"
  by (auto simp: kept_def upd_state_def)

lemma calm_upd_state [calm_intros]:
  "calm a b \<Longrightarrow> st_session (f (a_state b)) = st_session (a_state b) \<Longrightarrow>
     st_route (f (a_state b)) = st_route (a_state b) \<Longrightarrow>
     st_pending_approval (f (a_state b)) = st_pending_approval (a_state b) \<Longrightarrow>
     (st_store_failure (a_state b) \<noteq> None \<Longrightarrow> st_store_failure (f (a_state b)) \<noteq> None) \<Longrightarrow>
     calm a (upd_state f b)"
  by (rule calm_trans, assumption)
    (auto simp: calm_def upd_state_def kept_def intro: exI [of _ "[]"])

lemma calm_note_store_failure [calm_intros]: "calm a b \<Longrightarrow> calm a (note_store_failure w err b)"
  unfolding note_store_failure_def by (rule calm_upd_state) simp_all

lemma calm_broadcast [calm_intros]: "calm a b \<Longrightarrow> calm a (emit (Broadcast e) b)"
proof -
  assume c: "calm a b"
  have "kept b (emit (Broadcast e) b)"
    by (auto simp: kept_def emit_def intro: exI [of _ "[e]"])
  with c show ?thesis by (auto simp: calm_def emit_def intro: kept_trans)
qed

lemma calm_case_prod [calm_intros]:
  "calm a (snd p) \<Longrightarrow> (\<And>x c. p = (x, c) \<Longrightarrow> calm a c \<Longrightarrow> calm a (h x c)) \<Longrightarrow>
     calm a (case p of (x, c) \<Rightarrow> h x c)"
  by (cases p) simp

lemma calm_snd_case_prod [calm_intros]:
  "calm a (snd p) \<Longrightarrow> (\<And>x c. p = (x, c) \<Longrightarrow> calm a c \<Longrightarrow> calm a (snd (h x c))) \<Longrightarrow>
     calm a (snd (case p of (x, c) \<Rightarrow> h x c))"
  by (cases p) simp

section \<open>The store\<close>

lemma tracker_append:
  "store_append i now e st = Inr (s, st') \<Longrightarrow>
     log_tracker (mem_log st' session)
       = ((\<lambda>s. log_tracker (mem_log st s))
           (event_session e := track e (log_tracker (mem_log st (event_session e))))) session"
  using memory.add_log [of "(i, now)" e st s st'] memory.add_numbered [of "(i, now)" e st s st']
  by (auto simp: log_tracker_def)

lemma apply_event_fields:
  "apply_event e st = Inr st' \<Longrightarrow> st_session st' = st_session st \<and> st_route st' = st_route st
     \<and> st_pending_approval st' = st_pending_approval st \<and> st_store_failure st' = st_store_failure st
     \<and> st_policy st' = st_policy st \<and> st_envelope st' = st_envelope st
     \<and> st_steering st' = st_steering st \<and> st_workspace_root st' = st_workspace_root st
     \<and> st_provider st' = st_provider st \<and> st_model st' = st_model st
     \<and> st_exact_commands st' = st_exact_commands st \<and> st_workspace_trusted st' = st_workspace_trusted st"
  by (auto simp: apply_event_def and_then_Inr map_ok_Inr Let_def)

text \<open>A write that was reported as failed may have taken place.\<close>

lemma persist_spec:
  "persist w e a = (r, b) \<Longrightarrow> (r = Inl err \<longrightarrow> calm a b \<or> wrote e a b)
     \<and> (r = Inr stored \<longrightarrow> wrote e a b \<and> stored_event stored = e)"
proof -
  assume p: "persist w e a = (r, b)"
  let ?i = "EventId (fresh_at w (a_ticks a))" and ?now = "clock_at w (a_ticks a)"
  show ?thesis
  proof (cases "store_append ?i ?now e (a_store a)")
    case (Inl x)
    with p show ?thesis
      by (auto simp: persist_def write_store_def intro: calm_next_tick [OF calm_refl])
  next
    case (Inr x)
    obtain s st' where x: "x = (s, st')" by (cases x)
    have app: "store_append ?i ?now e (a_store a) = Inr (s, st')" using Inr x by simp
    have se: "stored_event s = e" using memory.add_numbered [of "(?i, ?now)" e _ s st'] app by simp
    let ?b = "next_tick (a\<lparr>a_store := st'\<rparr>)"
    have tr: "tracker_of ?b = (tracker_of a)(event_session e := track e (tracker_of a (event_session e)))"
      using tracker_append [OF app] by (auto simp: tracker_of_def next_tick_def)
    have w: "wrote e a ?b"
      using tr store_append_grown [OF app]
      by (auto simp: wrote_def kept_def next_tick_def intro: exI [of _ "[]"])
    show ?thesis
    proof (cases "fault_at w (a_ticks a)")
      case (Some f)
      then show ?thesis using p app w
        by (auto simp: persist_def write_store_def intro: calm_next_tick [OF calm_refl]
          split: prod.splits if_splits)
    next
      case None
      show ?thesis
      proof (cases "apply_event e (a_state ?b)")
        case (Inl x)
        with p app w None show ?thesis by (auto simp: persist_def write_store_def)
      next
        case (Inr st2)
        have k: "kept ?b (broadcast e (?b\<lparr>a_state := st2\<rparr>))"
          using apply_event_fields [OF Inr]
          by (auto simp: kept_def broadcast_def emit_def intro: exI [of _ "[e]"])
        have "wrote e a (broadcast e (?b\<lparr>a_state := st2\<rparr>))"
          using w k by (auto simp: wrote_def broadcast_def emit_def intro: kept_trans)
        with p app None Inr se show ?thesis by (auto simp: persist_def write_store_def)
      qed
    qed
  qed
qed

lemma persist_failed: "persist w e a = (Inl err, b) \<Longrightarrow> calm a b \<or> wrote e a b"
  using persist_spec [of w e a "Inl err" b] by simp

lemma persist_done: "persist w e a = (Inr stored, b) \<Longrightarrow> wrote e a b \<and> stored_event stored = e"
  using persist_spec [of w e a "Inr stored" b] by simp

lemma persist_or_cases:
  assumes "\<And>err b. calm a b \<or> wrote e a b \<Longrightarrow> P (failed err b)"
    and "\<And>stored b. wrote e a b \<Longrightarrow> P (persisted stored b)"
  shows "P (persist_or w e failed persisted a)"
  using assms persist_failed [of w e a] persist_done [of w e a]
  by (auto simp: persist_or_def split: prod.split sum.split)

lemma calm_persist_or [calm_intros]:
  assumes "quiet e" "calm a b"
    and "\<And>err c. calm a c \<Longrightarrow> calm a (failed err c)" "\<And>stored c. calm a c \<Longrightarrow> calm a (persisted stored c)"
  shows "calm a (persist_or w e failed persisted b)"
proof -
  have q: "calm a c" if "calm b c \<or> wrote e b c" for c
    using that assms(1,2) wrote_quiet calm_trans by blast
  show ?thesis by (rule persist_or_cases) (use assms(3,4) q in blast)+
qed

lemma calm_persist_or_snd [calm_intros]:
  assumes "quiet e" "calm a b"
    and "\<And>err c. calm a c \<Longrightarrow> calm a (snd (failed err c))"
    and "\<And>stored c. calm a c \<Longrightarrow> calm a (snd (persisted stored c))"
  shows "calm a (snd (persist_or w e failed persisted b))"
proof -
  have q: "calm a c" if "calm b c \<or> wrote e b c" for c
    using that assms(1,2) wrote_quiet calm_trans by blast
  show ?thesis by (rule persist_or_cases) (use assms(3,4) q in blast)+
qed

lemma calm_read_store [calm_intros]: "calm a b \<Longrightarrow> calm a (snd (read_store w f b))"
  by (auto simp: read_store_def intro: calm_next_tick split: option.split)

lemma calm_write_store [calm_intros]:
  assumes "calm a b"
    and "\<And>x st. f (a_store b) = Inr (x, st) \<Longrightarrow>
           store_grown (a_store b) st \<and> (\<forall>s. log_tracker (mem_log st s) = log_tracker (mem_log (a_store b) s))"
  shows "calm a (snd (write_store w f b))"
proof -
  have "calm b (b\<lparr>a_store := st\<rparr>)" if "f (a_store b) = Inr (x, st)" for x st
    using assms(2) [OF that] by (auto simp: calm_def kept_def tracker_of_def intro: exI [of _ "[]"])
  with assms(1) show ?thesis
    unfolding write_store_def
    by (auto split: sum.split option.split prod.split intro!: calm_next_tick elim!: calm_trans)
qed

section \<open>A run and its log\<close>

text \<open>
  A run of the actor and the log agree if the run is the open one of the log. The actor is
  idle if it has no run, shows no approval, and either knows its record to be broken or has for
  recovery what its log says is in flight; its store is sound.
\<close>

definition in_run :: "ActiveRun \<Rightarrow> PendingWork option \<Rightarrow> Actor \<Rightarrow> bool" where
  "in_run r work a \<longleftrightarrow> a_run a = Some r \<and> st_session (a_state a) = Some (run_session r)
     \<and> a_recovery a = Clean \<and> store_sound (a_store a)
     \<and> tracker_of a (run_session r) = Some \<lparr>open_id = run_id r, open_tool = work\<rparr>"

definition log_settled :: "Actor \<Rightarrow> bool" where
  "log_settled a \<longleftrightarrow> (\<forall>session. st_session (a_state a) = Some session \<longrightarrow>
     short (mem_log (a_store a) session) \<longrightarrow> a_recovery a = tracker_finish (tracker_of a session))"

definition idle :: "Actor \<Rightarrow> bool" where
  "idle a \<longleftrightarrow> a_run a = None \<and> st_pending_approval (a_state a) = None \<and> store_sound (a_store a)
     \<and> (st_store_failure (a_state a) \<noteq> None \<or> log_settled a)"

lemma in_run_active [simp]: "in_run r work a \<Longrightarrow> active_run (run_id r) a = Some r"
  by (simp add: in_run_def active_run_def)

lemma in_run_calm: "in_run r work a \<Longrightarrow> calm a b \<Longrightarrow> in_run r work b"
  by (simp add: in_run_def calm_def kept_def store_grown_def)

lemma in_run_wrote:
  "in_run r work a \<Longrightarrow> wrote e a b \<Longrightarrow> event_session e = run_session r \<Longrightarrow>
     track e (Some \<lparr>open_id = run_id r, open_tool = work\<rparr>)
       = Some \<lparr>open_id = run_id r, open_tool = work'\<rparr> \<Longrightarrow> in_run r work' b"
  by (simp add: in_run_def wrote_def kept_def store_grown_def)

lemma idle_calm: "idle a \<Longrightarrow> calm a b \<Longrightarrow> idle b"
  using store_grown_short [of "a_store a" "a_store b"]
  by (auto simp: idle_def log_settled_def calm_def kept_def store_grown_def)

lemma in_run_sound: "in_run r work a \<Longrightarrow> calm a b \<or> wrote e a b \<Longrightarrow> store_sound (a_store b)"
  by (auto simp: in_run_def calm_def wrote_def kept_def store_grown_def)

text \<open>Ending a run: the closing event is written and the run is dropped.\<close>

lemma drop_run_active: "active_run run a = Some r \<Longrightarrow> drop_run run a = emit (CancelToken run) (a\<lparr>a_run := None\<rparr>)"
  by (simp add: drop_run_def)

lemma active_run_wrote: "wrote e a b \<Longrightarrow> active_run run b = active_run run a"
  by (simp add: wrote_def kept_def active_run_def)

lemma active_run_calm: "calm a b \<Longrightarrow> active_run run b = active_run run a"
  by (simp add: calm_def kept_def active_run_def)

lemma idle_halt:
  "active_run run a \<noteq> None \<Longrightarrow> store_sound (a_store a) \<Longrightarrow> idle (halt_for_store w run err a)"
  by (auto simp: idle_def halt_for_store_def note_store_failure_def upd_state_def drop_run_def emit_def)

lemma idle_dropped:
  assumes "in_run r work a" "wrote e a b" "event_session e = run_session r"
    and "track e (Some \<lparr>open_id = run_id r, open_tool = work\<rparr>) = None"
  shows "idle (upd_state (\<lambda>st. st\<lparr>st_pending_approval := None\<rparr>) (drop_run (run_id r) b))"
  using assms
  by (auto simp: idle_def log_settled_def in_run_def wrote_def kept_def drop_run_def active_run_def
      upd_state_def emit_def store_grown_def tracker_finish_def)

text \<open>A settled actor writes its checkpoints behind a log with nothing in flight.\<close>

lemma build_checkpoint_session: "build_checkpoint session status st = Inr cp \<Longrightarrow> cp_session cp = session"
  by (auto simp: build_checkpoint_def map_ok_Inr)

lemma tracker_finish_Clean: "tracker_finish tr = Clean \<longleftrightarrow> tr = None"
  by (simp add: tracker_finish_def split: option.split)

lemma calm_actor_checkpoint:
  assumes "idle a"
  shows "calm a (snd (actor_checkpoint w status a))"
proof -
  have "calm a (snd (write_store w (store_write_checkpoint cp) a))"
    if s: "st_session (a_state a) = Some session" and cp: "build_checkpoint session status (a_state a) = Inr cp"
      and ok: "\<not> is_required (a_recovery a)" "st_store_failure (a_state a) = None" for session cp
  proof (rule calm_write_store [OF calm_refl])
    fix x st
    assume st: "store_write_checkpoint cp (a_store a) = Inr (x, st)"
    have "a_recovery a = Clean" using ok(1) by (cases "a_recovery a") (simp_all add: is_required_def)
    with assms s ok have "log_tracker (mem_log (a_store a) session) = None"
      if "short (mem_log (a_store a) session)"
      using that by (simp add: idle_def log_settled_def tracker_of_def flip: tracker_finish_Clean)
    with store_checkpoint_grown [OF st] build_checkpoint_session [OF cp] store_checkpoint_log [OF st]
    show "store_grown (a_store a) st
        \<and> (\<forall>s. log_tracker (mem_log st s) = log_tracker (mem_log (a_store a) s))" by simp
  qed
  then show ?thesis
    unfolding actor_checkpoint_def
    by (auto split: option.split sum.split if_split prod.split intro!: calm_refl) (metis snd_conv)+
qed

text \<open>What the actor has started.\<close>

definition is_start :: "Output \<Rightarrow> bool" where
  "is_start out = (case out of
      StartProvider _ _ \<Rightarrow> True | StartTool _ _ \<Rightarrow> True | StartChildren _ _ _ \<Rightarrow> True | _ \<Rightarrow> False)"

definition starts :: "Actor \<Rightarrow> Output list" where
  "starts a = filter is_start (a_out a)"

lemma starts_kept: "kept a b \<Longrightarrow> starts b = starts a"
  by (auto simp: kept_def starts_def is_start_def filter_empty_conv)

lemma starts_calm: "calm a b \<Longrightarrow> starts b = starts a"
  by (simp add: calm_def starts_kept)

lemma starts_emit [simp]: "starts (emit out a) = starts a @ (if is_start out then [out] else [])"
  by (simp add: starts_def emit_def)

lemma starts_update [simp]:
  "starts (upd_state f a) = starts a" "starts (next_tick a) = starts a"
  "starts (upd_run run g a) = starts a" "starts (note_store_failure w err a) = starts a"
  "starts (a\<lparr>a_run := x\<rparr>) = starts a" "starts (a\<lparr>a_tools := x'\<rparr>) = starts a"
  by (simp_all add: starts_def upd_state_def next_tick_def upd_run_def note_store_failure_def)

lemma is_start_simps [simp]:
  "\<not> is_start (Broadcast e)" "\<not> is_start (CancelToken run)" "\<not> is_start (StartTimer run n)"
  "is_start (StartProvider run request)" "is_start (StartTool run call)"
  "is_start (StartChildren run call children)" "\<not> is_start Consolidate"
  by (simp_all add: is_start_def)

lemma starts_write_store [simp]: "starts (snd (write_store w f a)) = starts a"
  by (auto simp: write_store_def starts_def next_tick_def split: sum.split option.split)

lemma starts_actor_checkpoint [simp]: "starts (snd (actor_checkpoint w status a)) = starts a"
proof -
  have "starts (snd (case p of (Inl err, b) \<Rightarrow> (Inl err, b) | (Inr _, b) \<Rightarrow> (Inr (), b))) = starts (snd p)"
    for p :: "(u64, StoreError) result \<times> Actor" and err :: StoreError
    by (auto split: prod.split sum.split)
  then show ?thesis by (auto simp: actor_checkpoint_def split: option.split sum.split)
qed

lemma starts_drop_run [simp]: "starts (drop_run run a) = starts a"
  by (simp add: drop_run_def split: option.split)

lemma starts_halt [simp]: "starts (halt_for_store w run err a) = starts a"
  by (simp add: halt_for_store_def)

lemma starts_persist_or [simp]:
  assumes "\<And>err b. starts (failed err b) = starts b" "\<And>stored b. starts (persisted stored b) = starts b"
  shows "starts (persist_or w e failed persisted a) = starts a"
  by (rule persist_or_cases) (auto simp: assms wrote_def dest: starts_kept starts_calm)

lemma starts_persist_or_snd [simp]:
  assumes "\<And>err b. starts (snd (failed err b)) = starts b"
    and "\<And>stored b. starts (snd (persisted stored b)) = starts b"
  shows "starts (snd (persist_or w e failed persisted a)) = starts a"
  by (rule persist_or_cases) (auto simp: assms wrote_def dest: starts_kept starts_calm)

section \<open>Operations on the authority of a run\<close>

lemma calm_clear_spawn_envelope [calm_intros]: "calm a b \<Longrightarrow> calm a (clear_spawn_envelope w reason b)"
  unfolding clear_spawn_envelope_def Let_def
  by (auto split: option.split if_split intro!: calm_intros)

lemma calm_reconcile [calm_intros]: "calm a b \<Longrightarrow> calm a (reconcile_envelope_with_policy w mode b)"
  unfolding reconcile_envelope_with_policy_def
  by (auto split: option.split intro!: calm_intros)

lemma calm_record_envelope_draw [calm_intros]: "calm a b \<Longrightarrow> calm a (record_envelope_draw w run n t b)"
  unfolding record_envelope_draw_def Let_def
  by (auto split: option.split intro!: calm_intros)

lemma calm_tick_envelope [calm_intros]: "calm a b \<Longrightarrow> calm a (tick_envelope w b)"
  unfolding tick_envelope_def Let_def
  by (auto split: option.split prod.split intro!: calm_intros)

lemma calm_charge_envelope [calm_intros]: "calm a b \<Longrightarrow> calm a (snd (charge_envelope w run call b))"
  unfolding charge_envelope_def
  by (auto split: option.split prod.split intro!: calm_intros)

lemma calm_governance_table [calm_intros]: "calm a b \<Longrightarrow> calm a (snd (governance_table w b))"
  unfolding governance_table_def by (auto split: option.split intro!: calm_intros)

lemma calm_apply_governance_floor [calm_intros]: "calm a b \<Longrightarrow> calm a (apply_governance_floor w b)"
  unfolding apply_governance_floor_def Let_def
  by (auto split: option.split intro!: calm_intros)

lemma calm_set_policy [calm_intros]: "calm a b \<Longrightarrow> calm a (set_policy w mode b)"
  unfolding set_policy_def by (auto split: option.split intro!: calm_intros)

lemma calm_arm_spawn_envelope [calm_intros]: "calm a b \<Longrightarrow> calm a (arm_spawn_envelope w env b)"
  unfolding arm_spawn_envelope_def by (auto split: option.split sum.split intro!: calm_intros)

end
