(* ===== verification/Run_Landing.thy ===== *)
theory Run_Landing
  imports Actor_Frame
begin

text \<open>
  How a run ends (\<^verbatim>\<open>finish_run\<close>, \<^verbatim>\<open>fail_run\<close>, \<^verbatim>\<open>exhaust_budget\<close> and \<^verbatim>\<open>cancel_run\<close> of \<^verbatim>\<open>runtime/mod.rs\<close>)
  and the handoff a landing leaves behind (\<^verbatim>\<open>runtime/continuation.rs\<close>): the artifact made of the
  session's log, the swap to the model it was made for, and the drained quota.
\<close>

section \<open>Paths as a set\<close>

text \<open>Paths are ordered by their components: the root, the current, the parent directory, names.\<close>

fun split_slash :: "string \<Rightarrow> string \<Rightarrow> string list" where
  "split_slash acc [] = [rev acc]"
| "split_slash acc (c # cs) = (if c = CHR ''/'' then rev acc # split_slash [] cs else split_slash (c # acc) cs)"

definition component_of :: "string \<Rightarrow> string" where
  "component_of s = (if s = ''..'' then [CHR 0x03] else CHR 0x04 # s)"

definition path_components :: "string \<Rightarrow> string list" where
  "path_components p = (let segments = split_slash [] p;
       named = map component_of (filter (\<lambda>s. s \<noteq> [] \<and> s \<noteq> ''.'') segments)
     in if starts_with p ''/'' then [CHR 0x01] # named
        else if hd segments = ''.'' then [CHR 0x02] # named else named)"

type_synonym path_set = "(string list, string) btree_map"

definition path_insert :: "string \<Rightarrow> path_set \<Rightarrow> path_set" where
  "path_insert p = bt_or_insert (path_components p) p"

section \<open>The handoff artifact\<close>

definition COMPACT_RECENT_TURNS :: nat where "COMPACT_RECENT_TURNS = 2"

type_synonym facts = "path_set \<times> path_set \<times> CommandFact list \<times> (string, string) btree_map"

definition show_bool :: "bool \<Rightarrow> string" where
  "show_bool b = (if b then ''true'' else ''false'')"

definition gather_fact :: "MjolnrEvent \<Rightarrow> facts \<Rightarrow> facts" where
  "gather_fact e = (\<lambda>(files_read, files_changed, commands, proposals).
     case e of
       MjolnrEvent.ToolProposed _ _ _ call _ preview \<Rightarrow>
         (files_read, files_changed, commands, bt_insert (call_id call) preview proposals)
     | MjolnrEvent.ToolCompleted _ _ cid name result \<Rightarrow> (case effect result of
           ToolEffect.Read path _ \<Rightarrow> (path_insert path files_read, files_changed, commands, proposals)
         | ToolEffect.Mutation path _ \<Rightarrow>
             (files_read, path_insert path files_changed, commands, proposals)
         | ToolEffect.Command code success _ \<Rightarrow>
             (files_read, files_changed, commands @
               [\<lparr>fact_command = (case bt_get proposals cid of Some p \<Rightarrow> p | None \<Rightarrow> name),
                 fact_outcome = ''success='' @ show_bool success @ '', exit=''
                   @ show_option (\<lambda>i. show_int (sint i)) code\<rparr>], proposals)
         | _ \<Rightarrow> (files_read, files_changed, commands, proposals))
     | MjolnrEvent.ToolFailed _ _ cid _ code _ \<Rightarrow> (case bt_get proposals cid of
           Some command \<Rightarrow> (files_read, files_changed, commands @
             [\<lparr>fact_command = command, fact_outcome = ReasonCode_as_str code\<rparr>], proposals)
         | None \<Rightarrow> (files_read, files_changed, commands, proposals))
     | _ \<Rightarrow> (files_read, files_changed, commands, proposals))"

definition last_model_text :: "SessionState \<Rightarrow> string option" where
  "last_model_text st = map_option message_text
     (find (\<lambda>m. message_provider m \<noteq> None) (rev (plain_messages st)))"

definition handoff_of ::
  "HandoffId \<Rightarrow> instant \<Rightarrow> ProviderId \<Rightarrow> ModelId \<Rightarrow> StoredEvent list \<Rightarrow> SessionState \<Rightarrow> HandoffCheckpoint"
where
  "handoff_of i now provider model events st =
     (let (files_read, files_changed, commands, _) =
            fold gather_fact (map stored_event events) ([], [], [], [])
      in \<lparr>ho_id = i, ho_created_at = now,
          ho_status = (case last_model_text st of
            Some t \<Rightarrow> t | None \<Rightarrow> ''No model-written status was available.''),
          ho_provider = provider, ho_model = model,
          ho_files_read = bt_values files_read, ho_files_changed = bt_values files_changed,
          ho_commands = commands, ho_usage = st_usage st, ho_budget = st_budget st,
          ho_activated_skills = st_activated_skills st\<rparr>)"

definition compact :: "World \<Rightarrow> nat \<Rightarrow> Actor \<Rightarrow> bool \<times> Actor" where
  "compact w recent_turns a =
     (let (done, st) = enable_compact_context (show_uuid_of w) (show_instant_of w)
            (fresh_at w (a_ticks a)) (clock_at w (a_ticks a)) recent_turns (a_state a)
      in (done, next_tick (a\<lparr>a_state := st\<rparr>)))"

definition create_handoff_artifact :: "World \<Rightarrow> RunId \<Rightarrow> Actor \<Rightarrow> (unit, StoreError) result \<times> Actor" where
  "create_handoff_artifact w run a = (case active_run run a of
      None \<Rightarrow> (Inr (), a)
    | Some r \<Rightarrow> (case read_store w (store_events (run_session r)) a of
        (Inl err, a) \<Rightarrow> (Inl err, a)
      | (Inr events, a) \<Rightarrow>
          (let handoff = handoff_of (HandoffId (fresh_at w (a_ticks a))) (clock_at w (a_ticks a))
                 (run_provider r) (run_model r) events (a_state a)
           in persist_or w (MjolnrEvent.HandoffCreated (run_session r) handoff)
                (\<lambda>err a. (Inl err, a))
                (\<lambda>_ a. (Inr (), snd (compact w COMPACT_RECENT_TURNS
                  (upd_state (\<lambda>st. st\<lparr>st_handoff := Some handoff\<rparr>) a))))
                (next_tick a))))"

definition apply_handoff_swap :: "World \<Rightarrow> RunId \<Rightarrow> Actor \<Rightarrow> Actor" where
  "apply_handoff_swap w run a = (case Option.bind (active_run run a) handoff_target of
      None \<Rightarrow> a
    | Some (provider, model) \<Rightarrow> (case st_session (a_state a) of
        None \<Rightarrow> a
      | Some session \<Rightarrow> persist_or w (MjolnrEvent.ModelChanged session provider model)
          (note_store_failure w)
          (\<lambda>_. upd_state (\<lambda>st. st\<lparr>st_provider := Some provider, st_model := Some model,
             st_quota_reserve := QuotaReserveStatus_default,
             st_policy := (if st_policy st = PolicyMode.FullAuto then PolicyMode.Ask
               else st_policy st)\<rparr>)) a))"

definition complete_quota_drain :: "World \<Rightarrow> RunId \<Rightarrow> Actor \<Rightarrow> (unit, StoreError) result \<times> Actor" where
  "complete_quota_drain w run a = (case st_session (a_state a) of
      None \<Rightarrow> (Inr (), a)
    | Some session \<Rightarrow>
        (let reserve = (st_quota_reserve (a_state a))\<lparr>reserve_phase := Stopped\<rparr>
         in persist_or w (MjolnrEvent.QuotaBoundaryReached session run reserve)
              (\<lambda>err a. (Inl err, a))
              (\<lambda>_ a. (Inr (), upd_state (\<lambda>st. st\<lparr>st_quota_reserve := reserve\<rparr>) a)) a))"

section \<open>The end of a run\<close>

definition take_run :: "RunId \<Rightarrow> (Actor \<Rightarrow> Actor) \<Rightarrow> Actor \<Rightarrow> Actor" where
  "take_run run f a = (case active_run run a of
      None \<Rightarrow> a
    | Some _ \<Rightarrow> f (drop_run run a))"

definition checkpoint_or_note :: "World \<Rightarrow> Actor \<Rightarrow> Actor" where
  "checkpoint_or_note w a = (case actor_checkpoint w Active a of
      (Inl err, a) \<Rightarrow> note_store_failure w err a
    | (Inr _, a) \<Rightarrow> a)"

definition fail_run :: "World \<Rightarrow> RunId \<Rightarrow> ReasonCode \<Rightarrow> string \<Rightarrow> Actor \<Rightarrow> Actor" where
  "fail_run w run code detail a = (case active_run run a of
      None \<Rightarrow> a
    | Some r \<Rightarrow> persist_or w (MjolnrEvent.RunFailed (run_session r) run code detail)
        (halt_for_store w run)
        (\<lambda>_. take_run run (\<lambda>a.
           checkpoint_or_note w (upd_state (\<lambda>st. st\<lparr>st_pending_approval := None\<rparr>) a))) a)"

definition landed_reason :: "RunId \<Rightarrow> FinishReason \<Rightarrow> Actor \<Rightarrow> FinishReason" where
  "landed_reason run reason a = (case map_option run_intent (active_run run a) of
      Some ManualHandoff \<Rightarrow> Handoff
    | Some QuotaDrain \<Rightarrow> QuotaDrained
    | _ \<Rightarrow> reason)"

definition or_halt ::
  "World \<Rightarrow> RunId \<Rightarrow> bool \<Rightarrow> (Actor \<Rightarrow> (unit, StoreError) result \<times> Actor) \<Rightarrow> (Actor \<Rightarrow> Actor) \<Rightarrow> Actor \<Rightarrow> Actor"
where
  "or_halt w run needed f rest a =
     (if needed then (case f a of
          (Inl err, a) \<Rightarrow> halt_for_store w run err a
        | (Inr _, a) \<Rightarrow> rest a)
      else rest a)"

definition finish_landed :: "World \<Rightarrow> RunId \<Rightarrow> FinishReason \<Rightarrow> Actor \<Rightarrow> Actor" where
  "finish_landed w run reason a = (case active_run run a of
      None \<Rightarrow> a
    | Some r \<Rightarrow> persist_or w (MjolnrEvent.RunFinished (run_session r) run reason)
        (halt_for_store w run)
        (\<lambda>_. take_run run (\<lambda>a. emit Consolidate (checkpoint_or_note w (tick_envelope w
           (upd_state (\<lambda>st. st\<lparr>st_pending_approval := None\<rparr>) a))))) a)"

definition finish_run :: "World \<Rightarrow> RunId \<Rightarrow> FinishReason \<Rightarrow> Actor \<Rightarrow> Actor" where
  "finish_run w run reason a =
     (let reason = landed_reason run reason a
      in or_halt w run (reason = Handoff \<or> reason = QuotaDrained) (create_handoff_artifact w run)
        (or_halt w run (reason = QuotaDrained) (complete_quota_drain w run)
          (\<lambda>a. finish_landed w run reason
             (if reason = Handoff then apply_handoff_swap w run a else a))) a)"

definition exhaust_budget :: "World \<Rightarrow> RunId \<Rightarrow> Actor \<Rightarrow> Actor" where
  "exhaust_budget w run a = (case active_run run a of
      None \<Rightarrow> a
    | Some r \<Rightarrow> persist_or w (MjolnrEvent.BudgetExhausted (run_session r) run)
        (halt_for_store w run)
        (\<lambda>_. fail_run w run ReasonCode.BudgetExhausted ''run budget exhausted'')
        (emit (CancelToken run) a))"

definition cancel_run :: "World \<Rightarrow> Actor \<Rightarrow> Actor" where
  "cancel_run w a = (case a_run a of
      None \<Rightarrow> a
    | Some r \<Rightarrow>
        (let a = emit (CancelToken (run_id r)) a
         in if run_phase r = ApprovalPhase then finish_run w (run_id r) FinishReason.Cancelled a else a))"

section \<open>What a landing leaves\<close>

lemma calm_compact [calm_intros]: "calm a b \<Longrightarrow> calm a (snd (compact w n b))"
  unfolding compact_def enable_compact_context_def
  by (auto simp: Let_def calm_def kept_def next_tick_def split: option.split)

lemma calm_create_handoff_artifact [calm_intros]:
  "calm a b \<Longrightarrow> calm a (snd (create_handoff_artifact w run b))"
  unfolding create_handoff_artifact_def Let_def
  by (auto split: option.split sum.split intro!: calm_intros)

lemma calm_apply_handoff_swap [calm_intros]: "calm a b \<Longrightarrow> calm a (apply_handoff_swap w run b)"
  unfolding apply_handoff_swap_def by (auto split: option.split intro!: calm_intros)

lemma calm_complete_quota_drain [calm_intros]:
  "calm a b \<Longrightarrow> calm a (snd (complete_quota_drain w run b))"
  unfolding complete_quota_drain_def Let_def by (auto split: option.split intro!: calm_intros)

lemma idle_checkpoint_or_note: "idle a \<Longrightarrow> idle (checkpoint_or_note w a)"
  using calm_actor_checkpoint [of a w Active]
  by (auto simp: checkpoint_or_note_def split: prod.split sum.split intro!: calm_intros intro: idle_calm)

text \<open>A run that fails or finishes leaves the actor idle.\<close>

lemma active_run_persisted:
  "in_run r work a \<Longrightarrow> calm a b \<or> wrote e a b \<Longrightarrow> active_run (run_id r) b = Some r"
  using active_run_calm active_run_wrote by (metis in_run_active)

lemma closing_idle:
  assumes "in_run r work a" "event_session e = run_session r"
    and "track e (Some \<lparr>open_id = run_id r, open_tool = work\<rparr>) = None"
    and "\<And>b. idle b \<Longrightarrow> idle (rest b)"
  shows "idle (persist_or w e (halt_for_store w (run_id r))
    (\<lambda>_. take_run (run_id r) (\<lambda>a. rest (upd_state (\<lambda>st. st\<lparr>st_pending_approval := None\<rparr>) a))) a)"
proof (rule persist_or_cases)
  fix err b
  assume "calm a b \<or> wrote e a b"
  then show "idle (halt_for_store w (run_id r) err b)"
    using active_run_persisted [OF assms(1)] in_run_sound [OF assms(1)] by (simp add: idle_halt)
next
  fix stored b
  assume e: "wrote e a b"
  then have "active_run (run_id r) b = Some r" using active_run_persisted [OF assms(1)] by blast
  with assms(4) [OF idle_dropped [OF assms(1) e assms(2,3)]]
  show "idle (take_run (run_id r) (\<lambda>a. rest (upd_state (\<lambda>st. st\<lparr>st_pending_approval := None\<rparr>) a)) b)"
    by (simp add: take_run_def)
qed

lemma idle_emit_Consolidate: "idle a \<Longrightarrow> idle (emit Consolidate a)"
  by (simp add: idle_def log_settled_def emit_def)

lemma fail_run_idle: "in_run r work a \<Longrightarrow> idle (fail_run w (run_id r) code detail a)"
  by (auto simp: fail_run_def event_session_def track_def close_run_def
      intro!: closing_idle idle_checkpoint_or_note)

lemma finish_landed_idle: "in_run r work a \<Longrightarrow> idle (finish_landed w (run_id r) reason a)"
  by (auto simp: finish_landed_def event_session_def track_def close_run_def
      intro!: closing_idle [where rest = "\<lambda>a. emit Consolidate (checkpoint_or_note w (tick_envelope w a))"]
        idle_emit_Consolidate idle_checkpoint_or_note intro: idle_calm calm_intros)

lemma or_halt_idle:
  assumes "in_run r work a" "calm a (snd (f a))"
    and "\<And>b. in_run r work b \<Longrightarrow> idle (rest b)"
  shows "idle (or_halt w (run_id r) needed f rest a)"
proof (cases "f a")
  case (Pair x b)
  with assms have "in_run r work b" using in_run_calm by fastforce
  with assms Pair show ?thesis
    by (auto simp: or_halt_def in_run_def active_run_def intro!: idle_halt split: sum.split)
qed

lemma finish_run_idle:
  assumes "in_run r work a"
  shows "idle (finish_run w (run_id r) reason a)"
  unfolding finish_run_def Let_def
  by (intro or_halt_idle [OF assms] or_halt_idle)
    (auto intro!: finish_landed_idle calm_intros elim!: in_run_calm)

lemma exhaust_budget_idle:
  assumes "in_run r work a"
  shows "idle (exhaust_budget w (run_id r) a)"
proof -
  let ?e = "MjolnrEvent.BudgetExhausted (run_session r) (run_id r)"
  let ?a = "emit (CancelToken (run_id r)) a"
  have i: "in_run r work ?a" using assms by (simp add: in_run_def emit_def)
  have "idle (persist_or w ?e (halt_for_store w (run_id r))
      (\<lambda>_. fail_run w (run_id r) ReasonCode.BudgetExhausted ''run budget exhausted'') ?a)"
  proof (rule persist_or_cases)
    fix err b
    assume "calm ?a b \<or> wrote ?e ?a b"
    then show "idle (halt_for_store w (run_id r) err b)"
      using active_run_persisted [OF i] in_run_sound [OF i] by (simp add: idle_halt)
  next
    fix stored b
    assume "wrote ?e ?a b"
    moreover have "quiet ?e" by simp
    ultimately have "in_run r work b" using i in_run_calm wrote_quiet by blast
    then show "idle (fail_run w (run_id r) ReasonCode.BudgetExhausted ''run budget exhausted'' b)"
      by (rule fail_run_idle)
  qed
  with assms show ?thesis by (simp add: exhaust_budget_def)
qed

text \<open>Ending a run starts nothing.\<close>

lemma starts_take_run [simp]:
  "(\<And>b. starts (f b) = starts b) \<Longrightarrow> starts (take_run run f a) = starts a"
  by (simp add: take_run_def split: option.split)

lemma starts_checkpoint_or_note [simp]: "starts (checkpoint_or_note w a) = starts a"
proof -
  have "starts (case p of (Inl err, b) \<Rightarrow> note_store_failure w err b | (Inr _, b) \<Rightarrow> b) = starts (snd p)"
    for p :: "(unit, StoreError) result \<times> Actor"
    by (cases p) (auto split: sum.split)
  then show ?thesis by (simp add: checkpoint_or_note_def)
qed

lemma starts_tick_envelope [simp]: "starts (tick_envelope w a) = starts a"
  by (rule starts_calm) (intro calm_intros)

lemma starts_fail_run [simp]: "starts (fail_run w run code detail a) = starts a"
  by (simp add: fail_run_def split: option.split)

lemma starts_finish_run [simp]: "starts (finish_run w run reason a) = starts a"
proof -
  have 1: "starts (finish_landed w run reason a) = starts a" for reason a
    by (simp add: finish_landed_def split: option.split)
  have 2: "starts (or_halt w run needed f rest a) = starts a"
    if "\<And>b. calm b (snd (f b))" "\<And>b. starts (rest b) = starts b" for needed f rest a
    using starts_calm [OF that(1) [of a]] that(2)
    by (auto simp: or_halt_def split: sum.split prod.split)
  show ?thesis
    unfolding finish_run_def Let_def
    by (intro 2 calm_intros) (auto simp: 1 intro!: starts_calm calm_intros 2)
qed

lemma starts_exhaust_budget [simp]: "starts (exhaust_budget w run a) = starts a"
  by (simp add: exhaust_budget_def split: option.split)

end
