(* ===== verification/Run_Routing.thy ===== *)
theory Run_Routing
  imports Run_Landing Routing
begin

text \<open>
  The attached route of a session (\<^verbatim>\<open>runtime/routing.rs\<close>): attaching it, gating a provider turn on
  the circuit breaker of its hop, and advancing it when a hop fails, when a breaker is open and
  when a quota reserve is breached; and the selection of a model
  (\<^verbatim>\<open>runtime/model_selection.rs\<close>).
\<close>

datatype RouteAttemptOutcome = NotRouted | RouteMoved | RouteSpent

datatype RouteGateOutcome = Proceed | Retried | Stopped

section \<open>Attaching a route\<close>

definition attach_route ::
  "World \<Rightarrow> string option \<Rightarrow> string option \<Rightarrow> string \<Rightarrow> Actor \<Rightarrow> Actor" where
  "attach_route w requested role_tag task_class a = (case st_session (a_state a) of
      None \<Rightarrow> a
    | Some session \<Rightarrow>
        if a_run a \<noteq> None then a
        else (case resolve (route_table w) requested role_tag task_class of
          None \<Rightarrow> a
        | Some (route, reason) \<Rightarrow> (case route_hop route 0 of
            None \<Rightarrow> a
          | Some hop \<Rightarrow> persist_or w
              (MjolnrEvent.RouteSelected session None (route_name route) 0 (hop_provider hop)
                (hop_model hop) reason)
              (note_store_failure w)
              (\<lambda>_. upd_state (\<lambda>st. st\<lparr>st_provider := Some (hop_provider hop),
                 st_model := Some (hop_model hop),
                 st_route := Some \<lparr>rt_route = route_name route, rt_position = 0\<rparr>,
                 st_breakers := Map.empty,
                 st_quota_reserve := QuotaReserveStatus_default\<rparr>)) a)))"

section \<open>Breakers\<close>

definition record_breaker_transition :: "World \<Rightarrow> ProviderId \<Rightarrow> BreakerTransition \<Rightarrow> Actor \<Rightarrow> Actor" where
  "record_breaker_transition w provider t a = (case st_session (a_state a) of
      None \<Rightarrow> a
    | Some session \<Rightarrow> persist_or w
        (MjolnrEvent.BreakerStateChanged session provider (transition_from t) (transition_to t))
        (note_store_failure w) (\<lambda>_ a. a) a)"

text \<open>
  The breaker of a provider, made on first use, is replaced by what the operation leaves, and a
  transition of it is recorded.
\<close>

definition with_breaker ::
  "World \<Rightarrow> ProviderId \<Rightarrow> (instant \<Rightarrow> CircuitBreaker \<Rightarrow> BreakerTransition option \<times> CircuitBreaker)
     \<Rightarrow> Actor \<Rightarrow> CircuitBreaker \<times> Actor" where
  "with_breaker w provider f a =
     (let breaker = (case st_breakers (a_state a) provider of
            Some b \<Rightarrow> b
          | None \<Rightarrow> breaker_new (breaker_config (route_table w) provider));
          (transition, after) = f (clock_at w (a_ticks a)) breaker;
          a = next_tick (upd_state (\<lambda>st. st\<lparr>st_breakers := (st_breakers st)(provider \<mapsto> after)\<rparr>) a)
      in (after, case transition of
            None \<Rightarrow> a
          | Some t \<Rightarrow> record_breaker_transition w provider t a))"

section \<open>Advancing\<close>

definition try_advance_route ::
  "World \<Rightarrow> RunId \<Rightarrow> RouteAdvanceCondition \<Rightarrow> Actor \<Rightarrow> RouteAttemptOutcome \<times> Actor" where
  "try_advance_route w run condition a =
     (case (st_session (a_state a), st_route (a_state a)) of
        (Some session, Some current) \<Rightarrow> (case bt_get (routes (route_table w)) (rt_route current) of
            None \<Rightarrow> (NotRouted, a)
          | Some route \<Rightarrow> (case advance_position route (rt_position current) of
              AdvanceOutcome.Advanced position hop \<Rightarrow> persist_or w
                (MjolnrEvent.RouteAdvanced session run (route_name route) (rt_position current)
                  position (hop_provider hop) (hop_model hop) condition)
                (\<lambda>err a. (RouteSpent, halt_for_store w run err a))
                (\<lambda>_ a. (RouteMoved, upd_run run (\<lambda>r. r\<lparr>run_provider := hop_provider hop,
                     run_model := hop_model hop, hard_stop := None, pending_drain := None,
                     run_intent := Normal\<rparr>)
                   (upd_state (\<lambda>st. st\<lparr>
                     st_route := Some \<lparr>rt_route = route_name route, rt_position = position\<rparr>,
                     st_provider := Some (hop_provider hop), st_model := Some (hop_model hop),
                     st_quota_reserve := QuotaReserveStatus_default\<rparr>) a))) a
            | AdvanceOutcome.Exhausted \<Rightarrow> persist_or w
                (MjolnrEvent.RouteExhausted session run (route_name route) condition)
                (\<lambda>err a. (RouteSpent, halt_for_store w run err a))
                (\<lambda>_ a. (RouteSpent, fail_run w run ReasonCode.RouteExhausted
                   (''route `'' @ route_name route @ ''` had no viable position left after ''
                    @ RouteAdvanceCondition_label condition) a)) a))
      | _ \<Rightarrow> (NotRouted, a))"

definition route_breaker_gate :: "World \<Rightarrow> RunId \<Rightarrow> Actor \<Rightarrow> RouteGateOutcome \<times> Actor" where
  "route_breaker_gate w run a = (case (st_route (a_state a), st_provider (a_state a)) of
      (Some _, Some provider) \<Rightarrow>
        (let (breaker, a) = with_breaker w provider poll a
         in if permits_request breaker then (Proceed, a)
            else (case try_advance_route w run BreakerOpen a of
                (RouteMoved, a) \<Rightarrow> (Retried, a)
              | (RouteSpent, a) \<Rightarrow> (Stopped, a)
              | (NotRouted, a) \<Rightarrow> (Proceed, a)))
    | _ \<Rightarrow> (Proceed, a))"

definition note_route_provider_success :: "World \<Rightarrow> Actor \<Rightarrow> Actor" where
  "note_route_provider_success w a = (case (st_route (a_state a), st_provider (a_state a)) of
      (Some _, Some provider) \<Rightarrow> snd (with_breaker w provider on_success a)
    | _ \<Rightarrow> a)"

definition note_route_provider_failure ::
  "World \<Rightarrow> RunId \<Rightarrow> ReasonCode \<Rightarrow> Actor \<Rightarrow> RouteAttemptOutcome \<times> Actor" where
  "note_route_provider_failure w run code a =
     (if st_route (a_state a) = None then (NotRouted, a)
      else try_advance_route w run (ProviderFailure code)
        (case st_provider (a_state a) of
           None \<Rightarrow> a
         | Some provider \<Rightarrow> snd (with_breaker w provider on_failure a)))"

section \<open>Selecting a model\<close>

definition Capability_as_str :: "Capability \<Rightarrow> string" where
  "Capability_as_str c = (case c of
      Streaming \<Rightarrow> ''streaming''
    | Tools \<Rightarrow> ''tools''
    | StructuredOutput \<Rightarrow> ''structured_output''
    | ImagesIn \<Rightarrow> ''images_in''
    | ReasoningControls \<Rightarrow> ''reasoning_controls'')"

definition refuse_model_change ::
  "World \<Rightarrow> SessionId \<Rightarrow> ProviderId \<Rightarrow> ModelId \<Rightarrow> ReasonCode \<Rightarrow> string \<Rightarrow> RunId option \<Rightarrow> Actor \<Rightarrow> Actor"
where
  "refuse_model_change w session provider model code detail active =
     persist_or w (MjolnrEvent.ModelChangeRefused session provider model code detail)
       (\<lambda>err. case active of
          Some run \<Rightarrow> halt_for_store w run err
        | None \<Rightarrow> note_store_failure w err)
       (\<lambda>_ a. a)"

definition select_model :: "World \<Rightarrow> ProviderId \<Rightarrow> ModelId \<Rightarrow> Actor \<Rightarrow> bool \<times> Actor" where
  "select_model w provider model a = (case st_session (a_state a) of
      None \<Rightarrow> (False, a)
    | Some session \<Rightarrow>
        (let refuse = (\<lambda>code detail active.
               (False, refuse_model_change w session provider model code detail active a));
             incompatible = ReasonCode.ProviderIncompatibleModel
         in case a_run a of
              Some r \<Rightarrow> refuse ReasonCode.RunActive
                ''finish or cancel the active run before switching models'' (Some (run_id r))
            | None \<Rightarrow>
                if \<not> connected_at w (a_ticks a) provider
                then refuse ReasonCode.ProviderAuth
                  ''the requested provider is not connected; inspect /auth'' None
                else (case find (\<lambda>d. descriptor_id d = model) (catalog_at w (a_ticks a) provider) of
                    None \<Rightarrow> refuse incompatible
                      (''the requested model is not in the provider'' @ apos @ ''s current catalog'') None
                  | Some d \<Rightarrow> (case missing_capability d [Streaming, Tools] of
                      Some c \<Rightarrow> refuse incompatible
                        (''the requested model does not support '' @ Capability_as_str c) None
                    | None \<Rightarrow> persist_or w (MjolnrEvent.ModelChanged session provider model)
                        (\<lambda>err a. (False, note_store_failure w err a))
                        (\<lambda>_ a. (True, apply_governance_floor w
                           (upd_state (\<lambda>st. st\<lparr>st_provider := Some provider, st_model := Some model,
                              st_quota_reserve := QuotaReserveStatus_default\<rparr>) a))) a))))"

section \<open>Advancing goes forward\<close>

text \<open>The hops the attached route may still have.\<close>

definition longest_route :: "World \<Rightarrow> nat" where
  "longest_route w = fold max (map (\<lambda>(_, route). length (hops route)) (routes (route_table w))) 0"

definition hops_left :: "World \<Rightarrow> Actor \<Rightarrow> nat" where
  "hops_left w a = (case st_route (a_state a) of
      None \<Rightarrow> 0 | Some current \<Rightarrow> longest_route w - rt_position current)"

lemma longest_route_le:
  "bt_get (routes (route_table w)) name = Some route \<Longrightarrow> length (hops route) \<le> longest_route w"
proof -
  have f: "n \<le> fold max xs n" for n :: nat and xs
    by (induction xs arbitrary: n) (simp, use max.bounded_iff in fastforce)
  have "x \<in> set xs \<Longrightarrow> x \<le> fold max xs n" for x n :: nat and xs
  proof (induction xs arbitrary: n)
    case (Cons y xs)
    have "y \<le> fold max xs (max y n)" using f [of "max y n" xs] by simp
    with Cons show ?case by auto
  qed simp
  moreover assume "bt_get (routes (route_table w)) name = Some route"
  ultimately show ?thesis
    unfolding longest_route_def by (force simp: bt_get_def dest: map_of_SomeD)
qed

lemma hops_left_calm: "calm a b \<Longrightarrow> hops_left w b = hops_left w a"
  by (simp add: calm_def kept_def hops_left_def)

lemma st_route_upd_run [simp]: "st_route (a_state (upd_run run f a)) = st_route (a_state a)"
  by (simp add: upd_run_def)

lemma try_advance_hops:
  assumes "try_advance_route w run condition a = (RouteMoved, b)"
  shows "hops_left w b < hops_left w a"
proof -
  obtain session current where s: "st_session (a_state a) = Some session"
    "st_route (a_state a) = Some current"
    using assms by (auto simp: try_advance_route_def split: option.splits)
  obtain route where r: "bt_get (routes (route_table w)) (rt_route current) = Some route"
    using assms s by (auto simp: try_advance_route_def split: option.splits)
  obtain position hop where p: "advance_position route (rt_position current)
      = AdvanceOutcome.Advanced position hop"
    using assms s r
    by (auto simp: try_advance_route_def persist_or_def
        split: AdvanceOutcome.splits prod.splits sum.splits)
  then have "position = Suc (rt_position current)" "position < length (hops route)"
    by (auto simp: advance_position_def route_hop_def Let_def split: option.splits if_splits)
  moreover have "st_route (a_state b) = Some \<lparr>rt_route = route_name route, rt_position = position\<rparr>"
    using assms s r p
    by (auto simp: try_advance_route_def persist_or_def upd_state_def
        split: prod.splits sum.splits)
  ultimately show ?thesis using s longest_route_le [OF r] by (simp add: hops_left_def)
qed

lemma calm_record_breaker_transition [calm_intros]:
  "calm a b \<Longrightarrow> calm a (record_breaker_transition w provider t b)"
  unfolding record_breaker_transition_def by (auto split: option.split intro!: calm_intros)

lemma calm_with_breaker [calm_intros]: "calm a b \<Longrightarrow> calm a (snd (with_breaker w provider f b))"
  unfolding with_breaker_def Let_def
  by (auto split: option.split prod.split intro!: calm_intros)

lemma gate_hops:
  assumes "route_breaker_gate w run a = (Retried, b)"
  shows "hops_left w b < hops_left w a"
proof -
  obtain provider c where "calm a c" "try_advance_route w run BreakerOpen c = (RouteMoved, b)"
    using assms calm_with_breaker [OF calm_refl]
    by (auto simp: route_breaker_gate_def Let_def split: option.splits prod.splits if_splits
        RouteAttemptOutcome.splits) (metis snd_conv)
  with try_advance_hops hops_left_calm show ?thesis by metis
qed

section \<open>A run along its route\<close>

text \<open>A run is the same one if only its hop, its quota marks and its counters differ.\<close>

definition same_run :: "ActiveRun \<Rightarrow> ActiveRun \<Rightarrow> bool" where
  "same_run r r' \<longleftrightarrow> run_id r' = run_id r \<and> run_session r' = run_session r
     \<and> pending_tools r' = pending_tools r \<and> awaiting_approval r' = awaiting_approval r"

definition running :: "ActiveRun \<Rightarrow> PendingWork option \<Rightarrow> Actor \<Rightarrow> bool" where
  "running r work a \<longleftrightarrow> (\<exists>r'. same_run r r' \<and> in_run r' work a)"

lemma same_run_refl [simp]: "same_run r r"
  by (simp add: same_run_def)

lemma same_run_trans: "same_run r r' \<Longrightarrow> same_run r' r'' \<Longrightarrow> same_run r r''"
  by (simp add: same_run_def)

lemma running_in_run: "in_run r work a \<Longrightarrow> running r work a"
  by (auto simp: running_def intro: exI [of _ r])

lemma running_calm: "running r work a \<Longrightarrow> calm a b \<Longrightarrow> running r work b"
  by (auto simp: running_def intro: in_run_calm)

lemma running_upd_state:
  "running r work a \<Longrightarrow> st_session (f (a_state a)) = st_session (a_state a) \<Longrightarrow> running r work (upd_state f a)"
  by (auto simp: running_def in_run_def upd_state_def)

lemma running_upd_run:
  "running r work a \<Longrightarrow> (\<And>r'. same_run r' (f r')) \<Longrightarrow> running r work (upd_run (run_id r) f a)"
proof -
  assume "running r work a" and f: "\<And>r'. same_run r' (f r')"
  then obtain r' where r: "same_run r r'" "in_run r' work a" by (auto simp: running_def)
  then have "same_run r (f r') \<and> in_run (f r') work (upd_run (run_id r) f a)"
    using f [of r'] by (auto simp: same_run_def in_run_def upd_run_def)
  then show ?thesis by (auto simp: running_def)
qed

lemma running_idle_fail: "running r work a \<Longrightarrow> idle (fail_run w (run_id r) code detail a)"
  by (auto simp: running_def same_run_def dest: fail_run_idle)

lemma running_idle_finish: "running r work a \<Longrightarrow> idle (finish_run w (run_id r) reason a)"
  by (auto simp: running_def same_run_def dest: finish_run_idle)

lemma running_idle_exhaust: "running r work a \<Longrightarrow> idle (exhaust_budget w (run_id r) a)"
  by (auto simp: running_def same_run_def dest: exhaust_budget_idle)

lemma running_idle_halt: "running r work a \<Longrightarrow> idle (halt_for_store w (run_id r) err a)"
  by (auto simp: running_def same_run_def in_run_def active_run_def intro!: idle_halt)

lemma running_persisted:
  "running r work a \<Longrightarrow> calm a b \<or> wrote e a b \<Longrightarrow> quiet e \<Longrightarrow> running r work b"
  using running_calm wrote_quiet by blast

definition attempted :: "ActiveRun \<Rightarrow> PendingWork option \<Rightarrow> Actor \<Rightarrow> RouteAttemptOutcome \<times> Actor \<Rightarrow> bool" where
  "attempted r work a p \<longleftrightarrow> (case fst p of
      NotRouted \<Rightarrow> snd p = a | RouteMoved \<Rightarrow> running r work (snd p) | RouteSpent \<Rightarrow> idle (snd p))"

lemma try_advance_running:
  assumes "running r work a"
  shows "attempted r work a (try_advance_route w (run_id r) condition a)"
proof -
  have moved: "running r work (upd_run (run_id r) (\<lambda>r. r\<lparr>run_provider := p, run_model := m,
      hard_stop := None, pending_drain := None, run_intent := Normal\<rparr>) (upd_state f b))"
    if "running r work b" "st_session (f (a_state b)) = st_session (a_state b)" for p m f b
    using that by (intro running_upd_run running_upd_state) (auto simp: same_run_def)
  have stays: "attempted r work a (NotRouted, a)" by (simp add: attempted_def)
  have writes: "attempted r work a (persist_or w e (\<lambda>err a. (RouteSpent, halt_for_store w (run_id r) err a))
      (\<lambda>_ a. go a) a)"
    if "quiet e" "\<And>b. running r work b \<Longrightarrow> attempted r work a (go b)" for e go
  proof (rule persist_or_cases)
    fix err b assume "calm a b \<or> wrote e a b"
    then have "running r work b" using assms that(1) by (blast intro: running_persisted)
    then show "attempted r work a (RouteSpent, halt_for_store w (run_id r) err b)"
      by (simp add: attempted_def running_idle_halt)
  next
    fix stored :: StoredEvent and b assume "wrote e a b"
    then have "running r work b" using assms that(1) by (blast intro: running_persisted)
    then show "attempted r work a (go b)" by (rule that(2))
  qed
  show ?thesis
    unfolding try_advance_route_def
    by (auto split: option.split AdvanceOutcome.split intro!: writes stays)
      (auto simp: attempted_def intro!: running_idle_fail moved)
qed

lemma starts_try_advance [simp]: "starts (snd (try_advance_route w run condition a)) = starts a"
  unfolding try_advance_route_def by (auto split: option.split AdvanceOutcome.split)

end
