(* ===== verification/Run_Provider.thy ===== *)
theory Run_Provider
  imports Run_Routing Review_Threads
begin

text \<open>
  Driving a provider (\<^verbatim>\<open>runtime/provider_loop.rs\<close>): the quota checks, steering, the beginning of a
  provider turn with its gates, and the events of a stream; and stopping for a quota
  (\<^verbatim>\<open>runtime/continuation.rs\<close>). What is put into the prompt besides the messages and the tools is
  left out. A structured planning run is left out.
\<close>

section \<open>Quota\<close>

definition worst_window :: "QuotaWindow list \<Rightarrow> QuotaWindow option" where
  "worst_window ws = fold (\<lambda>x best. case best of
      None \<Rightarrow> Some x
    | Some b \<Rightarrow> if f32_total_key (window_used_fraction b) > f32_total_key (window_used_fraction x)
        then Some b else Some x) ws None"

definition reserve_phase_of :: "World \<Rightarrow> f32 \<Rightarrow> QuotaReservePhase" where
  "reserve_phase_of w used =
     (if f32_ge used (quota_hard_fraction (limits w)) then QuotaReservePhase.Stopped
      else if f32_ge used (quota_soft_fraction (limits w)) then Draining
      else Monitoring)"

definition reserve_of ::
  "World \<Rightarrow> QuotaReserveBasis \<Rightarrow> f32 \<Rightarrow> instant option \<Rightarrow> QuotaReserveStatus" where
  "reserve_of w basis used resets = \<lparr>reserve_basis = basis, used_fraction = Some used,
     soft_threshold = quota_soft_fraction (limits w), hard_threshold = quota_hard_fraction (limits w),
     reserve_resets_at = resets, reserve_phase = reserve_phase_of w used\<rparr>"

definition observe_quota :: "World \<Rightarrow> RunId \<Rightarrow> QuotaSnapshot \<Rightarrow> Actor \<Rightarrow> Actor" where
  "observe_quota w run snapshot a = (case worst_window (windows snapshot) of
      None \<Rightarrow> a
    | Some worst \<Rightarrow>
        (let reserve = reserve_of w (ProviderReported (window_label worst))
               (window_used_fraction worst) (window_resets_at worst);
             a = upd_state (\<lambda>st. st\<lparr>st_quota_reserve := reserve, st_quota := Some snapshot\<rparr>) a
         in if reserve_phase reserve = Monitoring then a
            else (case st_session (a_state a) of
                None \<Rightarrow> a
              | Some session \<Rightarrow> persist_or w (MjolnrEvent.QuotaBoundaryReached session run reserve)
                  (halt_for_store w run)
                  (\<lambda>_. upd_run run (\<lambda>r. case reserve_phase reserve of
                       Draining \<Rightarrow> if run_intent r = Normal then r\<lparr>pending_drain := Some reserve\<rparr> else r
                     | QuotaReservePhase.Stopped \<Rightarrow> r\<lparr>hard_stop := Some reserve\<rparr>
                     | Monitoring \<Rightarrow> r)) a)))"

text \<open>What becomes of a provider turn: it goes on, the run was stopped, or it is begun again.\<close>

datatype TurnGate = Go | Halted | Again

definition stop_for_quota_step :: "World \<Rightarrow> RunId \<Rightarrow> Actor \<Rightarrow> TurnGate \<times> Actor" where
  "stop_for_quota_step w run a = (case Option.bind (active_run run a) hard_stop of
      None \<Rightarrow> (Halted, a)
    | Some reserve \<Rightarrow>
        (let reserve = reserve\<lparr>reserve_phase := QuotaReservePhase.Stopped\<rparr>;
             a = upd_state (\<lambda>st. st\<lparr>st_quota_reserve := reserve\<rparr>) a;
             reset_text = (case reserve_resets_at reserve of
               None \<Rightarrow> ''unknown'' | Some t \<Rightarrow> show_instant_of w t);
             stop = fail_run w run ReasonCode.ProviderPlanQuota
               (''quota reserve reached; reset at '' @ reset_text)
         in if st_route (a_state a) = None then (Halted, stop a)
            else (case create_handoff_artifact w run a of
                (Inl err, a) \<Rightarrow> (Halted, halt_for_store w run err a)
              | (Inr _, a) \<Rightarrow> (case try_advance_route w run QuotaReserveBreached a of
                  (RouteMoved, a) \<Rightarrow> (Again, snd (compact w 0 a))
                | (RouteSpent, a) \<Rightarrow> (Halted, a)
                | (NotRouted, a) \<Rightarrow> (Halted, stop a)))))"

definition apply_configured_quota :: "World \<Rightarrow> RunId \<Rightarrow> Actor \<Rightarrow> TurnGate \<times> Actor" where
  "apply_configured_quota w run a = (case reserve_basis (st_quota_reserve (a_state a)) of
      ProviderReported _ \<Rightarrow> (Go, a)
    | _ \<Rightarrow> (case quota_token_budget (limits w) of
        None \<Rightarrow> (Go, upd_state (\<lambda>st. st\<lparr>st_quota_reserve := QuotaReserveStatus_default\<rparr>) a)
      | Some limit \<Rightarrow>
          if limit = 0
          then (Go, upd_state (\<lambda>st. st\<lparr>st_quota_reserve := QuotaReserveStatus_default\<rparr>) a)
          else
            (let total = input_tokens (st_usage (a_state a)) + output_tokens (st_usage (a_state a));
                 reserve = reserve_of w (ConfiguredTokens limit) (usage_ratio total limit) None;
                 a = upd_state (\<lambda>st. st\<lparr>st_quota_reserve := reserve\<rparr>) a
             in case active_run run a of
                  None \<Rightarrow> (Halted, a)
                | Some r \<Rightarrow>
                    if run_intent r \<noteq> Normal then (Go, a)
                    else (case reserve_phase reserve of
                      Draining \<Rightarrow> (Go, upd_run run (\<lambda>r. r\<lparr>pending_drain := Some reserve\<rparr>) a)
                    | QuotaReservePhase.Stopped \<Rightarrow> stop_for_quota_step w run
                        (upd_run run (\<lambda>r. r\<lparr>hard_stop := Some reserve\<rparr>) a)
                    | Monitoring \<Rightarrow> (Go, a)))))"

section \<open>Steering\<close>

primrec deliver_messages :: "World \<Rightarrow> SessionId \<Rightarrow> string list \<Rightarrow> Actor \<Rightarrow> bool \<times> Actor" where
  "deliver_messages w session [] a = (True, a)"
| "deliver_messages w session (t # ts) a =
     (let a = upd_state (\<lambda>st. st\<lparr>st_steering := ts\<rparr>) a;
          message = message_user (fresh_at w (a_ticks a)) (clock_at w (a_ticks a)) t
      in persist_or w (MjolnrEvent.MessageAppended session message)
           (\<lambda>err a. (False, note_store_failure w err a))
           (\<lambda>stored a. deliver_messages w session ts
              (upd_state (push_message (Some (stored_sequence stored)) message) a))
           (next_tick a))"

definition deliver_steering :: "World \<Rightarrow> RunId \<Rightarrow> Actor \<Rightarrow> bool \<times> Actor" where
  "deliver_steering w run a =
     (if st_steering (a_state a) = [] then (True, a)
      else case st_session (a_state a) of
        None \<Rightarrow> (True, upd_state (\<lambda>st. st\<lparr>st_steering := []\<rparr>) a)
      | Some session \<Rightarrow>
          if active_run run a = None then (True, a)
          else deliver_messages w session (st_steering (a_state a)) a)"

section \<open>A provider turn\<close>

definition before_turn :: "World \<Rightarrow> RunId \<Rightarrow> Actor \<Rightarrow> TurnGate \<times> Actor" where
  "before_turn w run a = (case deliver_steering w run a of
      (False, a) \<Rightarrow> (Halted, a)
    | (True, a) \<Rightarrow> (case apply_configured_quota w run a of
        (Halted, a) \<Rightarrow> (Halted, a)
      | (Again, a) \<Rightarrow> (Again, a)
      | (Go, a) \<Rightarrow> (case active_run run a of
          None \<Rightarrow> (Halted, a)
        | Some r \<Rightarrow>
            if run_provider_turns r \<ge> limit_provider_turns (limits w)
            then (Halted, exhaust_budget w run a)
            else if hard_stop r \<noteq> None \<and> run_intent r = Normal
            then stop_for_quota_step w run a
            else (Go, a))))"

definition start_turn :: "World \<Rightarrow> ActiveRun \<Rightarrow> ActiveRun" where
  "start_turn w r = r\<lparr>
     run_intent := (if pending_drain r \<noteq> None \<and> run_intent r = Normal then QuotaDrain else run_intent r),
     pending_drain := None,
     run_provider_turns := run_provider_turns r + 1,
     run_phase := Provider,
     accumulator := StreamAccumulator_default\<rparr>"

definition fail_run_for_images :: "World \<Rightarrow> string \<Rightarrow> Actor \<Rightarrow> Actor" where
  "fail_run_for_images w detail a = (case a_run a of
      None \<Rightarrow> a
    | Some r \<Rightarrow> fail_run w (run_id r) ReasonCode.SchemaInvalid (''image refused: '' @ detail) a)"

definition send_turn :: "World \<Rightarrow> RunId \<Rightarrow> Actor \<Rightarrow> Actor" where
  "send_turn w run a = (case active_run run a of
      None \<Rightarrow> a
    | Some r \<Rightarrow>
        (let started = start_turn w r;
             a = upd_state (\<lambda>st. st\<lparr>
               st_quota_reserve := (case pending_drain r of
                   Some reserve \<Rightarrow> if run_intent r = Normal then reserve else st_quota_reserve st
                 | None \<Rightarrow> st_quota_reserve st),
               st_budget := (st_budget st)\<lparr>used_provider_turns := run_provider_turns started\<rparr>\<rparr>)
               (upd_run run (start_turn w) a)
         in if \<not> has_provider w (run_provider r)
            then fail_run w run ReasonCode.ProviderProtocol
              (''unknown provider '' @ provider_str (run_provider r)) a
            else (case images_at w (a_ticks a) (run_model r) (st_workspace_root (a_state a))
                (provider_messages (a_state a)) of
                Inl detail \<Rightarrow> fail_run_for_images w detail (next_tick a)
              | Inr messages \<Rightarrow> emit (StartProvider run \<lparr>request_provider = run_provider r,
                  request_model = run_model r, request_messages = messages,
                  request_tools = map fst (a_tools a)\<rparr>) (next_tick a))))"

section \<open>The loops\<close>

lemma stop_for_quota_hops:
  assumes "stop_for_quota_step w run a = (Again, b)"
  shows "hops_left w b < hops_left w a"
proof -
  obtain reserve c d where c: "create_handoff_artifact w run
        (upd_state (\<lambda>st. st\<lparr>st_quota_reserve := reserve\<rparr>) a) = (Inr (), c)"
    and d: "try_advance_route w run QuotaReserveBreached c = (RouteMoved, d)" and b: "b = snd (compact w 0 d)"
    using assms by (auto simp: stop_for_quota_step_def Let_def split: option.splits if_splits
        prod.splits sum.splits RouteAttemptOutcome.splits)
  have "calm a c"
    using calm_create_handoff_artifact [of a "upd_state (\<lambda>st. st\<lparr>st_quota_reserve := reserve\<rparr>) a" w run] c
    by (simp add: calm_upd_state)
  moreover have "calm d b" unfolding b by (intro calm_intros)
  ultimately show ?thesis using try_advance_hops [OF d] hops_left_calm by metis
qed

lemma calm_deliver_messages [calm_intros]:
  "calm a b \<Longrightarrow> calm a (snd (deliver_messages w session ts b))"
proof (induction ts arbitrary: b)
  case (Cons t ts)
  show ?case
    by (auto simp: Let_def push_message_def intro!: calm_intros Cons)
qed simp

lemma calm_deliver_steering [calm_intros]: "calm a b \<Longrightarrow> calm a (snd (deliver_steering w run b))"
  unfolding deliver_steering_def by (auto split: option.split intro!: calm_intros)

lemma hops_left_upd [simp]:
  "hops_left w (upd_run run f a) = hops_left w a"
  "st_route (f' (a_state a)) = st_route (a_state a) \<Longrightarrow> hops_left w (upd_state f' a) = hops_left w a"
  by (simp_all add: hops_left_def upd_state_def)

lemma stop_for_quota_not_Go: "stop_for_quota_step w run a \<noteq> (Go, b)"
  by (auto simp: stop_for_quota_step_def Let_def
      split: option.splits if_splits prod.splits sum.splits RouteAttemptOutcome.splits)

lemma apply_configured_quota_hops:
  "apply_configured_quota w run a = (g, b) \<Longrightarrow>
     (g = Go \<longrightarrow> hops_left w b = hops_left w a) \<and> (g = Again \<longrightarrow> hops_left w b < hops_left w a)"
  unfolding apply_configured_quota_def Let_def
  by (auto split: QuotaReserveBasis.splits option.splits if_splits QuotaReservePhase.splits
      dest!: stop_for_quota_hops simp: stop_for_quota_not_Go)

lemma before_turn_hops:
  assumes "before_turn w run a = (Again, b)"
  shows "hops_left w b < hops_left w a"
proof -
  obtain c where c: "deliver_steering w run a = (True, c)"
    and "apply_configured_quota w run c = (Again, b)
      \<or> (\<exists>d. apply_configured_quota w run c = (Go, d) \<and> stop_for_quota_step w run d = (Again, b))"
    using assms
    by (auto simp: before_turn_def split: prod.splits bool.splits TurnGate.splits option.splits if_splits)
  moreover have "hops_left w c = hops_left w a"
    using calm_deliver_steering [OF calm_refl, of a w run] c hops_left_calm by force
  ultimately show ?thesis
    using apply_configured_quota_hops [of w run c] stop_for_quota_hops [of w run] by metis
qed

text \<open>The loop over the breakers, and a provider turn that is begun again after an advance.\<close>

function gate_loop :: "World \<Rightarrow> RunId \<Rightarrow> Actor \<Rightarrow> bool \<times> Actor" where
  "gate_loop w run a = (case route_breaker_gate w run a of
      (Proceed, b) \<Rightarrow> (True, b)
    | (Retried, b) \<Rightarrow> gate_loop w run b
    | (Stopped, b) \<Rightarrow> (False, b))"
  by pat_completeness auto
termination by (relation "measure (\<lambda>(w, _, a). hops_left w a)") (auto dest: gate_hops [OF sym])

function begin_provider_turn :: "World \<Rightarrow> RunId \<Rightarrow> Actor \<Rightarrow> Actor" where
  "begin_provider_turn w run a = (case before_turn w run a of
      (Halted, b) \<Rightarrow> b
    | (Again, b) \<Rightarrow> begin_provider_turn w run b
    | (Go, b) \<Rightarrow> (case gate_loop w run b of
        (False, b) \<Rightarrow> b
      | (True, b) \<Rightarrow> send_turn w run b))"
  by pat_completeness auto
termination by (relation "measure (\<lambda>(w, _, a). hops_left w a)") (auto dest: before_turn_hops [OF sym])

declare gate_loop.simps [simp del] begin_provider_turn.simps [simp del]

definition stop_for_quota :: "World \<Rightarrow> RunId \<Rightarrow> Actor \<Rightarrow> Actor" where
  "stop_for_quota w run a = (case stop_for_quota_step w run a of
      (Again, b) \<Rightarrow> begin_provider_turn w run b
    | (_, b) \<Rightarrow> b)"

section \<open>What becomes of a provider turn\<close>

text \<open>
  A run that is stopped leaves the actor idle, and it starts nothing. Only a steering message
  that could not be stored leaves the run without anything under way.
\<close>

definition stopped :: "Actor \<Rightarrow> Actor \<Rightarrow> bool" where
  "stopped a b \<longleftrightarrow> idle b \<and> starts b = starts a"

definition stalled :: "ActiveRun \<Rightarrow> PendingWork option \<Rightarrow> Actor \<Rightarrow> Actor \<Rightarrow> bool" where
  "stalled r work a b \<longleftrightarrow> running r work b \<and> st_store_failure (a_state b) \<noteq> None \<and> starts b = starts a"

definition asking :: "ActiveRun \<Rightarrow> PendingWork option \<Rightarrow> Actor \<Rightarrow> Actor \<Rightarrow> bool" where
  "asking r work a b \<longleftrightarrow> (\<exists>r' request. same_run r r' \<and> in_run r' work b \<and> run_phase r' = Provider
     \<and> starts b = starts a @ [StartProvider (run_id r) request])"

definition gated :: "ActiveRun \<Rightarrow> PendingWork option \<Rightarrow> Actor \<Rightarrow> TurnGate \<times> Actor \<Rightarrow> bool" where
  "gated r work a p \<longleftrightarrow> starts (snd p) = starts a
     \<and> (if fst p = Halted then idle (snd p) \<or> stalled r work a (snd p) else running r work (snd p))"

lemma gated_simps [simp]:
  "gated r work a (Go, b) \<longleftrightarrow> starts b = starts a \<and> running r work b"
  "gated r work a (Again, b) \<longleftrightarrow> starts b = starts a \<and> running r work b"
  "gated r work a (Halted, b) \<longleftrightarrow> stopped a b \<or> stalled r work a b"
  by (auto simp: gated_def stopped_def stalled_def)

lemma gated_starts: "starts b = starts a \<Longrightarrow> gated r work b p \<Longrightarrow> gated r work a p"
  by (auto simp: gated_def stalled_def)

lemma running_active: "running r work a \<Longrightarrow> \<exists>r'. active_run (run_id r) a = Some r' \<and> same_run r r' \<and> in_run r' work a"
  by (metis in_run_active running_def same_run_def)

lemma stop_for_quota_gated:
  assumes "running r work a" "Option.bind (active_run (run_id r) a) hard_stop \<noteq> None"
  shows "gated r work a (stop_for_quota_step w (run_id r) a)"
proof -
  obtain reserve where h: "Option.bind (active_run (run_id r) a) hard_stop = Some reserve"
    using assms(2) by auto
  define q where "q = upd_state (\<lambda>st. st\<lparr>st_quota_reserve :=
    reserve\<lparr>reserve_phase := QuotaReservePhase.Stopped\<rparr>\<rparr>) a"
  define reason where "reason = ''quota reserve reached; reset at '' @ (case reserve_resets_at
    (reserve\<lparr>reserve_phase := QuotaReservePhase.Stopped\<rparr>) of
    None \<Rightarrow> ''unknown'' | Some t \<Rightarrow> show_instant_of w t)"
  let ?stop = "fail_run w (run_id r) ReasonCode.ProviderPlanQuota reason"
  have u: "stop_for_quota_step w (run_id r) a = (if st_route (a_state q) = None then (Halted, ?stop q)
      else case create_handoff_artifact w (run_id r) q of
          (Inl err, a) \<Rightarrow> (Halted, halt_for_store w (run_id r) err a)
        | (Inr _, a) \<Rightarrow> (case try_advance_route w (run_id r) QuotaReserveBreached a of
            (RouteMoved, a) \<Rightarrow> (Again, snd (compact w 0 a))
          | (RouteSpent, a) \<Rightarrow> (Halted, a)
          | (NotRouted, a) \<Rightarrow> (Halted, ?stop a)))"
    by (simp only: stop_for_quota_step_def h option.case Let_def q_def reason_def)
  have q: "running r work q" "starts q = starts a"
    using assms(1) by (auto simp: q_def intro: running_upd_state)
  obtain x c where c: "create_handoff_artifact w (run_id r) q = (x, c)" by force
  have "calm q c" using calm_create_handoff_artifact [OF calm_refl, of q w "run_id r"] c by simp
  then have c': "running r work c" "starts c = starts a"
    using q by (auto intro: running_calm dest: starts_calm)
  obtain y d where d: "try_advance_route w (run_id r) QuotaReserveBreached c = (y, d)" by force
  have d': "starts d = starts a" using starts_try_advance [of w "run_id r" QuotaReserveBreached c] c' d by simp
  have "calm d (snd (compact w 0 d))" by (intro calm_intros)
  then have "running r work (snd (compact w 0 d))" if "running r work d"
    using that by (rule running_calm [rotated])
  moreover have "starts (snd (compact w 0 d)) = starts d"
    by (rule starts_calm) (intro calm_intros)
  ultimately show ?thesis
    using q c' d' try_advance_running [OF c'(1), of w QuotaReserveBreached] d
    by (auto simp: u c d stopped_def attempted_def intro: running_idle_fail running_idle_halt
        split: sum.split RouteAttemptOutcome.splits)
qed

lemma apply_configured_quota_gated:
  assumes "running r work a"
  shows "gated r work a (apply_configured_quota w (run_id r) a)"
proof -
  obtain r' where r': "active_run (run_id r) a = Some r'" "same_run r r'" "in_run r' work a"
    using running_active [OF assms] by blast
  have upd: "running r work (upd_state (\<lambda>st. st\<lparr>st_quota_reserve := q\<rparr>) a)"
    "starts (upd_state (\<lambda>st. st\<lparr>st_quota_reserve := q\<rparr>) a) = starts a" for q
    using assms by (auto intro: running_upd_state)
  have act: "active_run (run_id r) (upd_state f a) = Some r'" for f
    using r'(1) by (simp add: active_run_def upd_state_def)
  have drain: "running r work (upd_run (run_id r) (\<lambda>r. r\<lparr>pending_drain := d\<rparr>) b)"
    and hard: "running r work (upd_run (run_id r) (\<lambda>r. r\<lparr>hard_stop := d\<rparr>) b)"
    if "running r work b" for d b
    using that by (auto intro!: running_upd_run simp: same_run_def)
  have stop: "gated r work a (stop_for_quota_step w (run_id r)
      (upd_run (run_id r) (\<lambda>r. r\<lparr>hard_stop := Some d\<rparr>) (upd_state (\<lambda>st. st\<lparr>st_quota_reserve := q\<rparr>) a)))"
    (is "gated r work a (stop_for_quota_step w _ ?b)") for d q
  proof (rule gated_starts [OF _ stop_for_quota_gated])
    show "running r work ?b" using hard [OF upd(1)] .
    from running_active [OF this] have "active_run (run_id r) ?b \<noteq> None" by auto
    then show "Option.bind (active_run (run_id r) ?b) hard_stop \<noteq> None"
      using act [of "\<lambda>st. st\<lparr>st_quota_reserve := q\<rparr>"]
      by (auto simp: active_run_def upd_run_def split: option.splits if_splits)
  qed simp
  show ?thesis
    unfolding apply_configured_quota_def Let_def
    using assms upd drain
    by (auto simp: act intro: stop split: QuotaReserveBasis.split option.split QuotaReservePhase.split)
qed

lemma deliver_messages_failed:
  "deliver_messages w session ts a = (False, b) \<Longrightarrow> st_store_failure (a_state b) \<noteq> None"
  by (induction ts arbitrary: a)
    (auto simp: Let_def persist_or_def note_store_failure_def upd_state_def
      split: prod.splits sum.splits)

lemma deliver_steering_running:
  assumes "running r work a" "deliver_steering w run a = (done, b)"
  shows "running r work b \<and> starts b = starts a \<and> (\<not> done \<longrightarrow> st_store_failure (a_state b) \<noteq> None)"
proof -
  have "calm a b" using calm_deliver_steering [OF calm_refl, of a w run] assms(2) by simp
  with assms show ?thesis
    by (auto simp: deliver_steering_def intro: running_calm dest: starts_calm
        split: option.splits if_splits dest!: deliver_messages_failed)
qed

lemma before_turn_gated:
  assumes "running r work a"
  shows "gated r work a (before_turn w (run_id r) a)"
proof -
  obtain ok b where d: "deliver_steering w (run_id r) a = (ok, b)" by force
  note b = deliver_steering_running [OF assms d]
  obtain g c where q: "apply_configured_quota w (run_id r) b = (g, c)" by force
  have c: "gated r work b (g, c)" using apply_configured_quota_gated [of r work b w] b q by simp
  show ?thesis
  proof (cases "ok \<and> g = Go")
    case True
    with c have rc: "running r work c" "starts c = starts a" using b by auto
    obtain r' where r': "active_run (run_id r) c = Some r'" using running_active [OF rc(1)] by blast
    have "gated r work a (stop_for_quota_step w (run_id r) c)" if "hard_stop r' \<noteq> None"
      using gated_starts [OF rc(2) stop_for_quota_gated [OF rc(1)]] r' that by auto
    with True rc r' show ?thesis
      by (auto simp: before_turn_def d q stopped_def intro: running_idle_exhaust)
  next
    case False
    with b c show ?thesis
      by (cases g; cases ok) (auto simp: before_turn_def d q stopped_def stalled_def)
  qed
qed

lemma route_breaker_gate_running:
  assumes "running r work a" "route_breaker_gate w (run_id r) a = (g, b)"
  shows "starts b = starts a \<and> (if g = Stopped then idle b else running r work b)"
proof (cases "(st_route (a_state a), st_provider (a_state a))")
  case (Pair x y)
  show ?thesis
  proof (cases "x \<noteq> None \<and> y \<noteq> None")
    case True
    then obtain provider where y: "st_provider (a_state a) = Some provider" "st_route (a_state a) \<noteq> None"
      using Pair by auto
    obtain br c where c: "with_breaker w provider poll a = (br, c)" by force
    have "calm a c" using calm_with_breaker [OF calm_refl, of a w provider poll] c by simp
    then have c': "running r work c" "starts c = starts a"
      using assms(1) by (auto intro: running_calm dest: starts_calm)
    obtain t d where d: "try_advance_route w (run_id r) BreakerOpen c = (t, d)" by force
    have "starts d = starts a" using starts_try_advance [of w "run_id r" BreakerOpen c] d c' by simp
    with assms(2) y c c' d try_advance_running [OF c'(1), of w BreakerOpen] show ?thesis
      by (auto simp: route_breaker_gate_def attempted_def
          split: if_splits RouteAttemptOutcome.splits option.splits)
  next
    case False
    with assms Pair show ?thesis
      by (auto simp: route_breaker_gate_def split: option.splits)
  qed
qed

lemma gate_loop_running:
  "running r work a \<Longrightarrow> gate_loop w (run_id r) a = (ok, b) \<Longrightarrow>
     starts b = starts a \<and> (if ok then running r work b else idle b)"
proof (induction w "run_id r" a rule: gate_loop.induct)
  case (1 w a)
  obtain g c where g: "route_breaker_gate w (run_id r) a = (g, c)" by force
  note gc = route_breaker_gate_running [OF 1(2) g]
  show ?case
  proof (cases g)
    case Retried
    with 1(1) [OF g [symmetric] Retried] 1(3) gc g show ?thesis
      by (auto simp: gate_loop.simps [of w "run_id r" a])
  qed (use 1(3) gc g in \<open>auto simp: gate_loop.simps [of w "run_id r" a]\<close>)
qed

lemma send_turn_running:
  assumes "running r work a"
  shows "stopped a (send_turn w (run_id r) a) \<or> asking r work a (send_turn w (run_id r) a)"
proof -
  obtain r' where r': "active_run (run_id r) a = Some r'" "same_run r r'" "in_run r' work a"
    using running_active [OF assms] by blast
  define b where "b = upd_state (\<lambda>st. st\<lparr>
               st_quota_reserve := (case pending_drain r' of
                   Some reserve \<Rightarrow> if run_intent r' = Normal then reserve else st_quota_reserve st
                 | None \<Rightarrow> st_quota_reserve st),
               st_budget := (st_budget st)\<lparr>used_provider_turns := run_provider_turns (start_turn w r')\<rparr>\<rparr>)
               (upd_run (run_id r) (start_turn w) a)"
  have id: "run_id r' = run_id r" using r'(2) by (simp add: same_run_def)
  have in_b: "in_run (start_turn w r') work b" "starts b = starts a"
    using r' by (auto simp: b_def in_run_def upd_state_def upd_run_def same_run_def start_turn_def
        starts_def tracker_of_def)
  have same: "same_run r (start_turn w r')" "run_phase (start_turn w r') = Provider"
    "run_id (start_turn w r') = run_id r"
    using r'(2) by (auto simp: same_run_def start_turn_def)
  have in_t: "in_run (start_turn w r') work (next_tick b)"
    using in_b(1) by (rule in_run_calm) (intro calm_intros)
  have ask: "asking r work a (emit (StartProvider (run_id r) request) (next_tick b))" for request
  proof -
    have "in_run (start_turn w r') work (emit (StartProvider (run_id r) request) (next_tick b))"
      using in_t by (simp add: in_run_def emit_def)
    with same in_b(2) show ?thesis by (auto simp: asking_def)
  qed
  have fails: "idle (fail_run w (run_id r) code detail b)" "idle (fail_run_for_images w detail (next_tick b))"
    for code detail
    using fail_run_idle [OF in_b(1), of w code detail] fail_run_idle [OF in_t] in_t same(3)
    by (auto simp: fail_run_for_images_def in_run_def)
  have "starts (fail_run_for_images w detail (next_tick b)) = starts b" for detail
    by (simp add: fail_run_for_images_def split: option.split)
  then show ?thesis
    using fails ask in_b(2) r'(1)
    by (auto simp: send_turn_def Let_def stopped_def simp flip: b_def split: sum.split)
qed

theorem begin_provider_turn_outcome:
  "running r work a \<Longrightarrow> stopped a (begin_provider_turn w (run_id r) a)
     \<or> stalled r work a (begin_provider_turn w (run_id r) a)
     \<or> asking r work a (begin_provider_turn w (run_id r) a)"
proof (induction w "run_id r" a rule: begin_provider_turn.induct)
  case (1 w a)
  obtain g b where g: "before_turn w (run_id r) a = (g, b)" by force
  have gb: "gated r work a (g, b)" using before_turn_gated [OF 1(2), of w] g by simp
  show ?case
  proof (cases g)
    case Halted
    with g gb show ?thesis by (auto simp: begin_provider_turn.simps [of w "run_id r" a])
  next
    case Again
    with gb have rb: "running r work b" "starts b = starts a" by auto
    from 1(1) [OF g [symmetric] Again rb(1)] Again g rb(2) show ?thesis
      by (auto simp: begin_provider_turn.simps [of w "run_id r" a] stopped_def stalled_def asking_def)
  next
    case Go
    with gb have rb: "running r work b" "starts b = starts a" by auto
    obtain ok c where c: "gate_loop w (run_id r) b = (ok, c)" by force
    note gc = gate_loop_running [OF rb(1) c]
    from send_turn_running [of r work c w] Go g c gc rb(2) show ?thesis
      by (cases ok) (auto simp: begin_provider_turn.simps [of w "run_id r" a] stopped_def asking_def)
  qed
qed

end
