(* ===== verification/Run_Tools.thy ===== *)
theory Run_Tools
  imports Run_Provider
begin

text \<open>
  Driving the tool calls of a provider turn (\<^verbatim>\<open>runtime/tool_loop.rs\<close>): the proposal with its
  preflight, the gate, the wait for an approval, the start of a tool with its last guards, and
  the record of its result; hosted calls are answered by the runtime itself
  (\<^verbatim>\<open>runtime/session_query.rs\<close>, \<^verbatim>\<open>runtime/memory.rs\<close>) and a spawn prepares its children
  (\<^verbatim>\<open>start_spawn\<close> of \<^verbatim>\<open>runtime/subagent/mod.rs\<close>). Preparing and starting answer whether the loop
  over the pending calls stops.
\<close>

section \<open>Extensions\<close>

definition LOAD_EXTENSION_TOOL :: string where "LOAD_EXTENSION_TOOL = ''load_extension''"

datatype Registration = Loaded string | AlreadyAvailable | NotFound

definition register_extension ::
  "World \<Rightarrow> SessionId \<Rightarrow> string \<Rightarrow> ExtensionLoadAuthority \<Rightarrow> Actor \<Rightarrow> (Registration, StoreError) result \<times> Actor"
where
  "register_extension w session name authority a =
     (if map_of (a_tools a) name \<noteq> None then (Inr AlreadyAvailable, a)
      else case extension_catalog w name of
        None \<Rightarrow> (Inr NotFound, a)
      | Some (command, spec) \<Rightarrow> persist_or w
          (MjolnrEvent.ExtensionLoaded session name command authority)
          (\<lambda>err a. (Inl err, a))
          (\<lambda>_ a. (Inr (Loaded command), a\<lparr>a_tools := a_tools a @ [(name, spec)]\<rparr>)) a)"

definition agent_load_extension ::
  "World \<Rightarrow> SessionId \<Rightarrow> RunId \<Rightarrow> string \<Rightarrow> ExtensionLoadAuthority \<Rightarrow> Actor \<Rightarrow> Actor" where
  "agent_load_extension w session run name authority a =
     (case register_extension w session name authority a of
        (Inl err, a) \<Rightarrow> fail_store w run err a
      | (Inr _, a) \<Rightarrow> a)"

definition mark_load_authority :: "RunId \<Rightarrow> ToolCall \<Rightarrow> ExtensionLoadAuthority \<Rightarrow> Actor \<Rightarrow> Actor" where
  "mark_load_authority run call authority a =
     (if call_name call \<noteq> LOAD_EXTENSION_TOOL then a
      else upd_run run (\<lambda>r. r\<lparr>pending_load_authority := Some (call_id call, authority)\<rparr>) a)"

definition take_load_authority :: "RunId \<Rightarrow> ToolCall \<Rightarrow> Actor \<Rightarrow> ExtensionLoadAuthority option \<times> Actor"
where
  "take_load_authority run call a = (case Option.bind (active_run run a) pending_load_authority of
      Some (i, authority) \<Rightarrow>
        if i = call_id call
        then (Some authority, upd_run run (\<lambda>r. r\<lparr>pending_load_authority := None\<rparr>) a)
        else (None, a)
    | None \<Rightarrow> (None, a))"

section \<open>Recording a result\<close>

definition bound_result :: "World \<Rightarrow> ToolResult \<Rightarrow> ToolResult" where
  "bound_result w result =
     (let (content, cut) = truncate_output (result_content result) (max_tool_output_bytes (limits w))
      in result\<lparr>result_content := content, truncated := truncated result \<or> cut\<rparr>)"

text \<open>What a result that is not a failure does to the state.\<close>

definition note_effect :: "StoredEvent \<Rightarrow> string \<Rightarrow> ToolEffect \<Rightarrow> SessionState \<Rightarrow> SessionState" where
  "note_effect stored evidence eff st = (case eff of
      ToolEffect.Mutation _ _ \<Rightarrow> st\<lparr>st_last_mutation_sequence := Some (stored_sequence stored)\<rparr>
    | ToolEffect.Command _ success _ \<Rightarrow>
        if success
        then st\<lparr>st_successful_command_evidence := bt_insert evidence (stored_sequence stored)
               (st_successful_command_evidence st)\<rparr>
        else st
    | ToolEffect.SkillActivated name in_project \<Rightarrow>
        st\<lparr>st_activated_skills := bs_insert name (st_activated_skills st),
           st_workspace_trusted := (st_workspace_trusted st \<or> in_project)\<rparr>
    | ToolEffect.Read path sha256 \<Rightarrow> st\<lparr>st_read_evidence := bt_insert path
        \<lparr>read_path = path, read_sha256 = sha256, read_tool_event_id = evidence\<rparr> (st_read_evidence st)\<rparr>
    | ToolEffect.NoEffect \<Rightarrow> st
    | ToolEffect.Completion _ \<Rightarrow> st)"

definition load_if_authorised ::
  "World \<Rightarrow> SessionId \<Rightarrow> RunId \<Rightarrow> ToolCall \<Rightarrow> ExtensionLoadAuthority option \<Rightarrow> Actor \<Rightarrow> Actor" where
  "load_if_authorised w session run call authority a =
     (if call_name call \<noteq> LOAD_EXTENSION_TOOL then a
      else case (Option.bind (json_get ''name'' (call_arguments call)) json_as_str, authority) of
        (Some name, Some authority) \<Rightarrow> agent_load_extension w session run name authority a
      | _ \<Rightarrow> a)"

definition push_result :: "World \<Rightarrow> ToolCall \<Rightarrow> u64 \<Rightarrow> ToolResult \<Rightarrow> Actor \<Rightarrow> Actor" where
  "push_result w call sequence result a =
     next_tick (upd_state (push_message (Some sequence)
       (message_tool_result (fresh_at w (a_ticks a)) (clock_at w (a_ticks a)) (call_id call)
         (call_name call) result)) a)"

definition record_tool_result :: "World \<Rightarrow> RunId \<Rightarrow> ToolCall \<Rightarrow> ToolResult \<Rightarrow> Actor \<Rightarrow> bool \<times> Actor" where
  "record_tool_result w run call result0 a =
     (let result = bound_result w result0;
          (authority, a) = take_load_authority run call a
      in case active_run run a of
           None \<Rightarrow> (False, a)
         | Some r \<Rightarrow> persist_or w
             (MjolnrEvent.ToolCompleted (run_session r) run (call_id call) (call_name call) result)
             (\<lambda>err a. (False, fail_store w run err a))
             (\<lambda>stored a.
                let evidence = show_uuid_of w (event_uuid (stored_id stored));
                    a = (if ToolOutcome_is_ok (result_outcome result)
                         then load_if_authorised w (run_session r) run call authority
                           (upd_state (note_effect stored evidence (effect result)) a)
                         else a)
                in (True, push_result w call (stored_sequence stored)
                      (result\<lparr>evidence_event_id := Some evidence\<rparr>) a)) a)"

definition record_tool_error :: "World \<Rightarrow> RunId \<Rightarrow> ToolCall \<Rightarrow> ToolError \<Rightarrow> Actor \<Rightarrow> bool \<times> Actor" where
  "record_tool_error w run call err a = (case active_run run a of
      None \<Rightarrow> (False, a)
    | Some r \<Rightarrow> persist_or w
        (MjolnrEvent.ToolFailed (run_session r) run (call_id call) (call_name call)
          (ToolError_reason_code err) (ToolError_display err))
        (\<lambda>store_error a. (False, fail_store w run store_error a))
        (\<lambda>stored a. (True, push_result w call (stored_sequence stored)
           (ToolResult_failed (ToolError_reason_code err) (ToolError_display err)) a)) a)"

section \<open>Completion needs evidence\<close>

definition cites_evidence :: "SessionState \<Rightarrow> ToolCall \<Rightarrow> u64 \<Rightarrow> bool" where
  "cites_evidence st call mutation =
     (case Option.bind (json_get ''evidence_event_ids'' (call_arguments call)) json_as_array of
        None \<Rightarrow> False
      | Some ids \<Rightarrow> list_ex (\<lambda>i. case bt_get (st_successful_command_evidence st) i of
            None \<Rightarrow> False | Some sequence \<Rightarrow> sequence > mutation)
          (List.map_filter json_as_str ids))"

definition completion_refusal :: "SessionState \<Rightarrow> ToolCall \<Rightarrow> ToolResult option" where
  "completion_refusal st call =
     (if call_name call \<noteq> ''finish_task''
        \<or> Option.bind (json_get ''outcome'' (call_arguments call)) json_as_str \<noteq> Some ''verified''
      then None
      else case st_last_mutation_sequence st of
        None \<Rightarrow> None
      | Some mutation \<Rightarrow>
          if cites_evidence st call mutation then None
          else Some (ToolResult_refused ReasonCode.CompletionEvidenceMissing
            ''verified completion requires a cited successful command after the last mutation''))"

section \<open>Calls the runtime answers itself\<close>

definition QUERY_SESSION :: string where "QUERY_SESSION = ''query_session''"

definition MEMORY_TOOLS :: "string list" where
  "MEMORY_TOOLS = [''memory_search'', ''memory_timeline'', ''memory_expand'']"

definition answer_session_query :: "World \<Rightarrow> RunId \<Rightarrow> ToolCall \<Rightarrow> Actor \<Rightarrow> bool \<times> Actor" where
  "answer_session_query w run call a = (case st_session (a_state a) of
      None \<Rightarrow> (False, snd (record_tool_result w run call
        (ToolResult_failed ReasonCode.ToolExecution ''query_session needs an open session'') a))
    | Some session \<Rightarrow> (case read_store w (store_branch_events session) a of
        (Inl err, a) \<Rightarrow> (False, snd (record_tool_result w run call
          (ToolResult_failed ReasonCode.ToolExecution
            (''could not read this session'' @ apos @ ''s record: ''
             @ StoreError_display (show_uuid_of w) err)) a))
      | (Inr events, a) \<Rightarrow> (False, snd (record_tool_result w run call
          (ToolResult_ok (query_text w call events)) a))))"

definition answer_memory :: "World \<Rightarrow> RunId \<Rightarrow> ToolCall \<Rightarrow> Actor \<Rightarrow> bool \<times> Actor" where
  "answer_memory w run call a =
     (False, snd (record_tool_result w run call (memory_answer_at w (a_ticks a) call) (next_tick a)))"

section \<open>A spawn\<close>

definition resolve_child_route ::
  "World \<Rightarrow> ChildRequest \<Rightarrow> (string \<times> RouteSelectionReason \<times> ProviderId \<times> ModelId) option" where
  "resolve_child_route w request =
     Option.bind (resolve_child (route_table w) (req_route request) (req_role request)) (\<lambda>(route, reason).
       map_option (\<lambda>hop. (route_name route, reason, hop_provider hop, hop_model hop)) (route_hop route 0))"

definition child_spec ::
  "World \<Rightarrow> SessionId \<Rightarrow> SessionId \<Rightarrow> ChildRequest \<Rightarrow> ProviderId \<Rightarrow> ModelId \<Rightarrow> ChildSpec" where
  "child_spec w session child request provider model =
     \<lparr>child_link = \<lparr>link_parent = session, link_session = child\<rparr>,
      child_request = request,
      child_limits = (limits w)\<lparr>limit_provider_turns := req_max_provider_turns request,
        limit_tool_calls := req_max_tool_calls request\<rparr>,
      child_provider = provider, child_model = model\<rparr>"

primrec prepare_children ::
  "World \<Rightarrow> SessionId \<Rightarrow> PolicyMode \<Rightarrow> ProviderId \<Rightarrow> ModelId \<Rightarrow> ChildRequest list \<Rightarrow> Actor
     \<Rightarrow> ChildSpec list option \<times> Actor" where
  "prepare_children w session c provider model [] a = (Some [], a)"
| "prepare_children w session c provider model (req # reqs) a =
     (let request = req\<lparr>req_policy := clamp_policy c (req_policy req)\<rparr>;
          child = SessionId (fresh_at w (a_ticks a));
          a = next_tick a;
          rest = (\<lambda>p m a. case prepare_children w session c provider model reqs a of
              (None, a) \<Rightarrow> (None, a)
            | (Some specs, a) \<Rightarrow> (Some (child_spec w session child request p m # specs), a))
      in case resolve_child_route w request of
           None \<Rightarrow> rest provider model a
         | Some (name, reason, p, m) \<Rightarrow> persist_or w
             (MjolnrEvent.RouteSelected session (Some child) name 0 p m reason)
             (\<lambda>err a. (None, note_store_failure w err a))
             (\<lambda>_. rest p m) a)"

text \<open>The answer is the one its caller reads as: a task is under way.\<close>

definition start_spawn :: "World \<Rightarrow> RunId \<Rightarrow> ToolCall \<Rightarrow> Actor \<Rightarrow> bool \<times> Actor" where
  "start_spawn w run call a =
     (case (st_session (a_state a), st_provider (a_state a), st_model (a_state a), active_run run a) of
        (Some session, Some provider, Some model, Some _) \<Rightarrow>
          (case parse_children (call_arguments call) of
             Inl detail \<Rightarrow> record_tool_result w run call
               (ToolResult_refused ReasonCode.SchemaInvalid detail) a
           | Inr requests \<Rightarrow>
               (let (c, a) = charge_envelope w run call a in
                case prepare_children w session c provider model requests a of
                  (None, a) \<Rightarrow> record_tool_result w run call
                    (ToolResult_failed ReasonCode.ToolExecution
                      (''could not record the child'' @ apos @ ''s route selection'')) a
                | (Some specs, a) \<Rightarrow> (True, emit (StartChildren run call specs) a)))
      | _ \<Rightarrow> record_tool_result w run call
          (ToolResult_failed ReasonCode.ToolExecution
            ''spawn_subagent needs an open session on an active run'') a)"

section \<open>Starting a tool\<close>

definition recorded :: "World \<Rightarrow> RunId \<Rightarrow> ToolCall \<Rightarrow> ToolResult \<Rightarrow> Actor \<Rightarrow> bool \<times> Actor" where
  "recorded w run call result a = (False, snd (record_tool_result w run call result a))"

definition no_workspace :: ToolResult where
  "no_workspace = ToolResult_failed ReasonCode.PathOutsideWorkspace
     ''open a workspace before using repository tools''"

definition start_tool :: "World \<Rightarrow> RunId \<Rightarrow> ToolCall \<Rightarrow> ToolSpec \<Rightarrow> Actor \<Rightarrow> bool \<times> Actor" where
  "start_tool w run call spec a = (case tool_check spec (call_arguments call) of
      Inl detail \<Rightarrow> recorded w run call (ToolResult_refused ReasonCode.SchemaInvalid detail) a
    | Inr _ \<Rightarrow> (case completion_refusal (a_state a) call of
        Some result \<Rightarrow> recorded w run call result a
      | None \<Rightarrow>
          if st_workspace_root (a_state a) = None then recorded w run call no_workspace a
          else if active_run run a = None then (False, a)
          else
            (let a = upd_run run (\<lambda>r. r\<lparr>run_phase := ToolPhase\<rparr>) a
             in if call_name call = SPAWN_SUBAGENT then start_spawn w run call a
                else if call_name call = QUERY_SESSION then answer_session_query w run call a
                else if call_name call \<in> set MEMORY_TOOLS then answer_memory w run call a
                else (True, emit (StartTool run call) a))))"

section \<open>A proposal\<close>

datatype ToolPreparation = Ready ToolSpec string | Continue | Stop

definition reserve_tool_call :: "World \<Rightarrow> RunId \<Rightarrow> Actor \<Rightarrow> bool \<times> Actor" where
  "reserve_tool_call w run a = (case active_run run a of
      None \<Rightarrow> (False, a)
    | Some r \<Rightarrow>
        if run_tool_calls r \<ge> limit_tool_calls (limits w) then (False, exhaust_budget w run a)
        else (True, upd_state (\<lambda>st. st\<lparr>st_budget := (st_budget st)\<lparr>used_tool_calls := run_tool_calls r + 1\<rparr>\<rparr>)
               (upd_run run (\<lambda>r. r\<lparr>run_tool_calls := run_tool_calls r + 1\<rparr>) a)))"

definition recorded_preparation ::
  "World \<Rightarrow> RunId \<Rightarrow> ToolCall \<Rightarrow> ToolResult \<Rightarrow> Actor \<Rightarrow> ToolPreparation \<times> Actor" where
  "recorded_preparation w run call result a = (case record_tool_result w run call result a of
      (True, a) \<Rightarrow> (Continue, a)
    | (False, a) \<Rightarrow> (Stop, a))"

definition prepare_tool :: "World \<Rightarrow> RunId \<Rightarrow> ToolCall \<Rightarrow> Actor \<Rightarrow> ToolPreparation \<times> Actor" where
  "prepare_tool w run call a = (case map_of (a_tools a) (call_name call) of
      None \<Rightarrow> recorded_preparation w run call (ToolResult_refused ReasonCode.SchemaInvalid
        (''unknown tool `'' @ call_name call @ ''`'')) a
    | Some spec \<Rightarrow> (case tool_check spec (call_arguments call) of
        Inl detail \<Rightarrow> recorded_preparation w run call
          (ToolResult_refused ReasonCode.SchemaInvalid detail) a
      | Inr _ \<Rightarrow>
          if st_workspace_root (a_state a) = None then recorded_preparation w run call no_workspace a
          else (case tool_preview spec (a_ticks a) (call_arguments call) of
              Inr preview \<Rightarrow> (Ready spec
                (fst (truncate_output preview (max_tool_output_bytes (limits w)))), next_tick a)
            | Inl (ToolError.Refused code detail) \<Rightarrow> recorded_preparation w run call
                (ToolResult_refused code detail) (next_tick a)
            | Inl err \<Rightarrow> recorded_preparation w run call
                (ToolResult_failed (ToolError_reason_code err) (ToolError_display err)) (next_tick a))))"

definition hold_for_approval ::
  "World \<Rightarrow> RunId \<Rightarrow> ApprovalId option \<Rightarrow> ToolCall \<Rightarrow> ToolSpec \<Rightarrow> string \<Rightarrow> Actor \<Rightarrow> Actor" where
  "hold_for_approval w run approval call spec preview a = (case approval of
      None \<Rightarrow> fail_run w run ReasonCode.ToolExecution ''approval identity was not created'' a
    | Some i \<Rightarrow>
        if active_run run a = None then a
        else upd_state (\<lambda>st. st\<lparr>st_pending_approval := Some \<lparr>pending_id = i,
               pending_tool_name = call_name call, pending_tier = tool_tier spec,
               pending_preview = preview\<rparr>\<rparr>)
             (upd_run run (\<lambda>r. r\<lparr>run_phase := ApprovalPhase,
                awaiting_approval := Some \<lparr>pt_approval = i, pt_call = call, pt_tool = spec\<rparr>\<rparr>) a))"

definition dispose_gated ::
  "World \<Rightarrow> RunId \<Rightarrow> ToolCall \<Rightarrow> ToolSpec \<Rightarrow> string \<Rightarrow> bool \<Rightarrow> Actor \<Rightarrow> bool \<times> Actor" where
  "dispose_gated w run call spec preview envelope_authorised a =
     (let verdict = gate_decision (a_state a) call spec envelope_authorised;
          auto_approval = (is_full_auto (st_policy (a_state a)) \<and> verdict = Allow
            \<and> tool_tier spec \<noteq> ToolTier.Read);
          (approval, a) = (if verdict = PolicyDecision.Ask \<or> auto_approval
            then (Some (ApprovalId (fresh_at w (a_ticks a))), next_tick a) else (None, a))
      in case st_session (a_state a) of
           None \<Rightarrow> (True, a)
         | Some session \<Rightarrow> persist_or w
             (MjolnrEvent.ToolProposed session run approval call (tool_tier spec) preview)
             (\<lambda>err a. (True, fail_store w run err a))
             (\<lambda>_ a. case verdict of
                PolicyDecision.Deny code \<Rightarrow>
                  (case record_tool_result w run call
                      (ToolResult_refused code ''current policy denied this tool'') a of
                     (ok, a) \<Rightarrow> (\<not> ok, a))
              | PolicyDecision.Ask \<Rightarrow> (True, hold_for_approval w run approval call spec preview a)
              | Allow \<Rightarrow>
                  if auto_approval
                  then (case approval of
                      None \<Rightarrow> (True, fail_run w run ReasonCode.ToolExecution
                        ''full-auto resolution had no approval identity'' a)
                    | Some i \<Rightarrow> persist_or w
                        (MjolnrEvent.ApprovalResolved session run i ApprovalDecision.AutoByPolicy)
                        (\<lambda>err a. (True, fail_store w run err a))
                        (\<lambda>_ a. start_tool w run call spec
                           (mark_load_authority run call ExtensionLoadAuthority.FullAuto a)) a)
                  else start_tool w run call spec a) a)"

definition dispose_proposal ::
  "World \<Rightarrow> RunId \<Rightarrow> ToolCall \<Rightarrow> ToolSpec \<Rightarrow> string \<Rightarrow> Actor \<Rightarrow> bool \<times> Actor" where
  "dispose_proposal w run call spec preview a = (case envelope_draw call (a_state a) of
      Some (Inl refusal) \<Rightarrow> (case record_tool_result w run call
          (ToolResult_refused ReasonCode.SpawnEnvelopeRefused (EnvelopeRefusal_detail refusal)) a of
        (ok, a) \<Rightarrow> (\<not> ok, a))
    | Some (Inr _) \<Rightarrow> dispose_gated w run call spec preview True a
    | None \<Rightarrow> dispose_gated w run call spec preview False a)"

text \<open>One turn of the loop over the pending calls; the answer is whether the loop returns.\<close>

definition drive_tool :: "World \<Rightarrow> RunId \<Rightarrow> ToolCall \<Rightarrow> Actor \<Rightarrow> bool \<times> Actor" where
  "drive_tool w run proposed a =
     (let call = normalize_call (a_state a) proposed in
      case reserve_tool_call w run a of
        (False, a) \<Rightarrow> (True, a)
      | (True, a) \<Rightarrow> (case prepare_tool w run call a of
          (Ready spec preview, a) \<Rightarrow> dispose_proposal w run call spec preview a
        | (Continue, a) \<Rightarrow> (False, a)
        | (Stop, a) \<Rightarrow> (True, a)))"

end
