(* ===== verification/Run_Drive.thy ===== *)
theory Run_Drive
  imports Run_Tools
begin

text \<open>
  The loop over the pending tool calls (\<^verbatim>\<open>drive_tools\<close> of \<^verbatim>\<open>runtime/tool_loop.rs\<close>) and what becomes of
  a run in it: while a tool of the run is under way its log says that it was authorised and
  started, and while a proposal waits its log says so.
\<close>

section \<open>The queue of pending calls\<close>

text \<open>Nothing but the loop itself takes calls from the queue of a run, and nothing adds any.\<close>

definition same_queue :: "Actor \<Rightarrow> Actor \<Rightarrow> bool" where
  "same_queue a b \<longleftrightarrow> (\<forall>r'. a_run b = Some r' \<longrightarrow>
     (\<exists>r. a_run a = Some r \<and> run_id r' = run_id r \<and> pending_tools r' = pending_tools r))"

named_theorems queue_intros

lemma same_queue_refl [simp, queue_intros]: "same_queue a a"
  by (simp add: same_queue_def)

lemma same_queue_trans: "same_queue a b \<Longrightarrow> same_queue b c \<Longrightarrow> same_queue a c"
  unfolding same_queue_def by metis

lemma same_queue_kept: "same_queue a b \<Longrightarrow> kept b c \<Longrightarrow> same_queue a c"
  by (simp add: same_queue_def kept_def)

lemma same_queue_calm: "same_queue a b \<Longrightarrow> calm b c \<Longrightarrow> same_queue a c"
  by (simp add: calm_def same_queue_kept)

lemma same_queue_update [queue_intros]:
  "same_queue a b \<Longrightarrow> same_queue a (upd_state f b)"
  "same_queue a b \<Longrightarrow> same_queue a (next_tick b)"
  "same_queue a b \<Longrightarrow> same_queue a (emit out b)"
  "same_queue a b \<Longrightarrow> same_queue a (note_store_failure w err b)"
  "same_queue a b \<Longrightarrow> same_queue a (b\<lparr>a_tools := x\<rparr>)"
  "same_queue a b \<Longrightarrow> same_queue a (drop_run run b)"
  "same_queue a b \<Longrightarrow> same_queue a (halt_for_store w run err b)"
  "same_queue a b \<Longrightarrow> same_queue a (fail_store w run err b)"
  by (auto simp: same_queue_def upd_state_def next_tick_def emit_def note_store_failure_def
      drop_run_def halt_for_store_def fail_store_def split: option.splits)

lemma same_queue_upd_run [queue_intros]:
  "same_queue a b \<Longrightarrow> (\<And>r. run_id (f r) = run_id r \<and> pending_tools (f r) = pending_tools r) \<Longrightarrow>
     same_queue a (upd_run run f b)"
  unfolding same_queue_def upd_run_def by (force split: if_splits)

lemma same_queue_persist_or [queue_intros]:
  assumes "same_queue a b"
    and "\<And>err c. same_queue a c \<Longrightarrow> same_queue a (failed err c)"
    and "\<And>stored c. same_queue a c \<Longrightarrow> same_queue a (persisted stored c)"
  shows "same_queue a (persist_or w e failed persisted b)"
proof -
  have q: "same_queue a c" if "calm b c \<or> wrote e b c" for c
    using that assms(1) same_queue_calm same_queue_kept wrote_def by blast
  show ?thesis by (rule persist_or_cases) (use assms(2,3) q in blast)+
qed

lemma same_queue_persist_or_snd [queue_intros]:
  assumes "same_queue a b"
    and "\<And>err c. same_queue a c \<Longrightarrow> same_queue a (snd (failed err c))"
    and "\<And>stored c. same_queue a c \<Longrightarrow> same_queue a (snd (persisted stored c))"
  shows "same_queue a (snd (persist_or w e failed persisted b))"
proof -
  have q: "same_queue a c" if "calm b c \<or> wrote e b c" for c
    using that assms(1) same_queue_calm same_queue_kept wrote_def by blast
  show ?thesis by (rule persist_or_cases) (use assms(2,3) q in blast)+
qed

lemma same_queue_case_prod [queue_intros]:
  "same_queue a (snd p) \<Longrightarrow> (\<And>x c. p = (x, c) \<Longrightarrow> same_queue a c \<Longrightarrow> same_queue a (h x c)) \<Longrightarrow>
     same_queue a (case p of (x, c) \<Rightarrow> h x c)"
  "same_queue a (snd p) \<Longrightarrow> (\<And>x c. p = (x, c) \<Longrightarrow> same_queue a c \<Longrightarrow> same_queue a (snd (h' x c))) \<Longrightarrow>
     same_queue a (snd (case p of (x, c) \<Rightarrow> h' x c))"
  by (cases p; simp)+

lemma same_queue_read [queue_intros]: "same_queue a b \<Longrightarrow> same_queue a (snd (read_store w f b))"
  by (rule same_queue_calm [OF _ calm_read_store [OF calm_refl]])

lemma same_queue_take_run [queue_intros]:
  "same_queue a b \<Longrightarrow> (\<And>c. same_queue a c \<Longrightarrow> same_queue a (f c)) \<Longrightarrow> same_queue a (take_run run f b)"
  by (auto simp: take_run_def split: option.split intro: queue_intros)

lemma same_queue_checkpoint_or_note [queue_intros]:
  "same_queue a b \<Longrightarrow> same_queue a (checkpoint_or_note w b)"
  by (auto simp: checkpoint_or_note_def actor_checkpoint_def write_store_def same_queue_def next_tick_def
      note_store_failure_def upd_state_def split: option.splits sum.splits prod.splits if_splits)

lemma same_queue_fail_run [queue_intros]: "same_queue a b \<Longrightarrow> same_queue a (fail_run w run code detail b)"
  unfolding fail_run_def by (auto split: option.split intro!: queue_intros)

lemma same_queue_exhaust_budget [queue_intros]: "same_queue a b \<Longrightarrow> same_queue a (exhaust_budget w run b)"
  unfolding exhaust_budget_def by (auto split: option.split intro!: queue_intros)

lemma same_queue_register [queue_intros]:
  "same_queue a b \<Longrightarrow> same_queue a (snd (register_extension w session name authority b))"
  unfolding register_extension_def by (auto split: option.split intro!: queue_intros)

lemma same_queue_agent_load [queue_intros]:
  "same_queue a b \<Longrightarrow> same_queue a (agent_load_extension w session run name authority b)"
  unfolding agent_load_extension_def by (auto split: sum.split intro!: queue_intros)

lemma same_queue_load [queue_intros]:
  "same_queue a b \<Longrightarrow> same_queue a (load_if_authorised w session run call authority b)"
  unfolding load_if_authorised_def by (auto split: option.split intro!: queue_intros)

lemma same_queue_push [queue_intros]:
  "same_queue a b \<Longrightarrow> same_queue a (push_result w call n result b)"
  unfolding push_result_def by (intro queue_intros)

lemma same_queue_take_load [queue_intros]:
  "same_queue a b \<Longrightarrow> same_queue a (snd (take_load_authority run call b))"
  unfolding take_load_authority_def by (auto split: option.split intro!: queue_intros)

lemma same_queue_mark_load [queue_intros]:
  "same_queue a b \<Longrightarrow> same_queue a (mark_load_authority run call authority b)"
  unfolding mark_load_authority_def by (auto intro!: queue_intros)

lemma same_queue_record [queue_intros]:
  "same_queue a b \<Longrightarrow> same_queue a (snd (record_tool_result w run call result b))"
  unfolding record_tool_result_def Let_def
  by (auto split: option.split intro!: queue_intros)

lemma same_queue_recorded [queue_intros]:
  "same_queue a b \<Longrightarrow> same_queue a (snd (recorded w run call result b))"
  by (simp add: recorded_def queue_intros)

lemma same_queue_recorded_preparation [queue_intros]:
  "same_queue a b \<Longrightarrow> same_queue a (snd (recorded_preparation w run call result b))"
  unfolding recorded_preparation_def by (auto split: bool.split intro!: queue_intros)

lemma same_queue_answer_memory [queue_intros]:
  "same_queue a b \<Longrightarrow> same_queue a (snd (answer_memory w run call b))"
  by (simp add: answer_memory_def queue_intros)

lemma same_queue_answer_session_query [queue_intros]:
  assumes "same_queue a b"
  shows "same_queue a (snd (answer_session_query w run call b))"
proof (cases "st_session (a_state b)")
  case None
  then show ?thesis using assms by (simp add: answer_session_query_def same_queue_record)
next
  case (Some session)
  obtain x c where x: "read_store w (store_branch_events session) b = (x, c)" by force
  then have "same_queue a c" using same_queue_read [OF assms, of w "store_branch_events session"] by simp
  then show ?thesis
    by (cases x) (simp_all add: answer_session_query_def Some x same_queue_record)
qed

lemma same_queue_prepare_children [queue_intros]:
  "same_queue a b \<Longrightarrow> same_queue a (snd (prepare_children w session c p m reqs b))"
proof (induction reqs arbitrary: b)
  case (Cons req reqs)
  have rest: "same_queue a (snd (case prepare_children w session c p m reqs d of
      (None, a) \<Rightarrow> (None, a) | (Some specs, a) \<Rightarrow> (Some (f specs), a)))"
    if "same_queue a d" for d and f :: "ChildSpec list \<Rightarrow> ChildSpec list"
    using Cons.IH [OF that] by (auto split: prod.split option.split)
  show ?case
  proof (cases "resolve_child_route w (req\<lparr>req_policy := clamp_policy c (req_policy req)\<rparr>)")
    case None
    then show ?thesis using rest Cons.prems by (simp add: Let_def queue_intros)
  next
    case (Some x)
    obtain name reason p' m' where "x = (name, reason, p', m')" by (cases x)
    with Some show ?thesis using Cons.prems
      by (simp add: Let_def) (rule same_queue_persist_or_snd; simp add: queue_intros rest)
  qed
qed simp

lemma same_queue_charge [queue_intros]:
  "same_queue a b \<Longrightarrow> same_queue a (snd (charge_envelope w run call b))"
  by (rule same_queue_calm [OF _ calm_charge_envelope [OF calm_refl]])

lemma same_queue_start_spawn [queue_intros]:
  "same_queue a b \<Longrightarrow> same_queue a (snd (start_spawn w run call b))"
  unfolding start_spawn_def by (auto split: option.split sum.split intro!: queue_intros)

lemma same_queue_start_tool [queue_intros]:
  "same_queue a b \<Longrightarrow> same_queue a (snd (start_tool w run call spec b))"
  unfolding start_tool_def Let_def by (auto split: option.split sum.split intro!: queue_intros)

lemma same_queue_hold [queue_intros]:
  "same_queue a b \<Longrightarrow> same_queue a (hold_for_approval w run approval call spec preview b)"
  unfolding hold_for_approval_def by (auto split: option.split intro!: queue_intros)

lemma same_queue_dispose_gated [queue_intros]:
  "same_queue a b \<Longrightarrow> same_queue a (snd (dispose_gated w run call spec preview authorised b))"
  unfolding dispose_gated_def Let_def
  by (auto split: option.split PolicyDecision.split intro!: queue_intros)

lemma same_queue_dispose [queue_intros]:
  "same_queue a b \<Longrightarrow> same_queue a (snd (dispose_proposal w run call spec preview b))"
  unfolding dispose_proposal_def
  by (auto split: option.split sum.split intro!: queue_intros)

lemma same_queue_reserve [queue_intros]:
  "same_queue a b \<Longrightarrow> same_queue a (snd (reserve_tool_call w run b))"
  unfolding reserve_tool_call_def by (auto split: option.split intro!: queue_intros)

lemma same_queue_prepare [queue_intros]:
  "same_queue a b \<Longrightarrow> same_queue a (snd (prepare_tool w run call b))"
  unfolding prepare_tool_def
  by (auto split: option.split sum.split ToolError.split intro!: queue_intros)

lemma same_queue_drive_tool [queue_intros]:
  "same_queue a b \<Longrightarrow> same_queue a (snd (drive_tool w run call b))"
  unfolding drive_tool_def Let_def
  by (auto split: bool.split ToolPreparation.split intro!: queue_intros)

section \<open>The loop\<close>

definition pending_count :: "RunId \<Rightarrow> Actor \<Rightarrow> nat" where
  "pending_count run a = (case active_run run a of None \<Rightarrow> 0 | Some r \<Rightarrow> Suc (length (pending_tools r)))"

lemma same_queue_pending: "same_queue a b \<Longrightarrow> pending_count run b \<le> pending_count run a"
  unfolding same_queue_def pending_count_def active_run_def
  by (auto split: option.split)

function drive_tools :: "World \<Rightarrow> RunId \<Rightarrow> Actor \<Rightarrow> Actor" where
  "drive_tools w run a = (case active_run run a of
      None \<Rightarrow> a
    | Some r \<Rightarrow> (case pending_tools r of
        [] \<Rightarrow> begin_provider_turn w run a
      | call # rest \<Rightarrow>
          (case drive_tool w run call (upd_run run (\<lambda>r. r\<lparr>pending_tools := rest\<rparr>) a) of
             (True, b) \<Rightarrow> b
           | (False, b) \<Rightarrow> drive_tools w run b)))"
  by pat_completeness auto

termination
proof (relation "measure (\<lambda>(w, run, a). pending_count run a)", goal_cases)
  case (2 w run a r call rest p b)
  let ?a = "upd_run run (\<lambda>r. r\<lparr>pending_tools := rest\<rparr>) a"
  have "drive_tool w run call ?a = (False, b)" using 2 by simp
  then have "same_queue ?a b" using same_queue_drive_tool [OF same_queue_refl, of ?a w run call] by simp
  then have "pending_count run b \<le> pending_count run ?a" by (rule same_queue_pending)
  also have "\<dots> < pending_count run a"
    using 2(1,2) by (auto simp: pending_count_def active_run_def upd_run_def split: option.splits if_splits)
  finally show ?case by simp
qed simp

declare drive_tools.simps [simp del]

end
