(* ===== verification/Run_Outcome.thy ===== *)
theory Run_Outcome
  imports Run_Drive
begin

text \<open>
  What the operations on tool calls leave a run in, and that an operation which starts a tool
  or waits for a human has first written the log that says so.
\<close>

section \<open>Recording a result settles the tool\<close>

definition settled :: "ActiveRun \<Rightarrow> Actor \<Rightarrow> Actor \<Rightarrow> bool" where
  "settled r a b \<longleftrightarrow> starts b = starts a \<and> (running r None b \<or> idle b)"

lemma settled_stopped: "stopped a b \<Longrightarrow> settled r a b"
  by (simp add: settled_def stopped_def)

lemma running_emit: "running r work a \<Longrightarrow> running r work (emit out a)"
  by (auto simp: running_def in_run_def emit_def)

lemma running_tools: "running r work a \<Longrightarrow> running r work (a\<lparr>a_tools := x\<rparr>)"
  by (auto simp: running_def in_run_def)

lemma starts_push_result [simp]: "starts (push_result w call n result a) = starts a"
  by (simp add: push_result_def)

lemma calm_push_result [calm_intros]: "calm a b \<Longrightarrow> calm a (push_result w call n result b)"
  unfolding push_result_def push_message_def by (intro calm_intros) simp_all

lemma running_push_result: "running r work a \<Longrightarrow> running r work (push_result w call n result a)"
  by (rule running_calm) (auto intro: calm_intros)

lemma idle_push_result: "idle a \<Longrightarrow> idle (push_result w call n result a)"
  by (rule idle_calm) (auto intro: calm_intros)

lemma settled_push_result: "settled r a b \<Longrightarrow> settled r a (push_result w call n result b)"
  by (auto simp: settled_def intro: running_push_result idle_push_result)

lemma settled_starts: "starts b = starts a \<Longrightarrow> settled r b c \<Longrightarrow> settled r a c"
  by (simp add: settled_def)

lemma load_if_authorised_settled:
  assumes "running r None a"
  shows "settled r a (load_if_authorised w session (run_id r) call authority a)"
proof -
  have "settled r a (agent_load_extension w session (run_id r) name authority a)" for name authority
  proof (cases "map_of (a_tools a) name \<noteq> None \<or> extension_catalog w name = None")
    case True
    with assms show ?thesis
      by (auto simp: agent_load_extension_def register_extension_def settled_def)
  next
    case False
    then obtain command spec where c: "extension_catalog w name = Some (command, spec)"
      "map_of (a_tools a) name = None" by auto
    have "settled r a (case persist_or w e (\<lambda>err a. (Inl err, a))
          (\<lambda>_ a. (Inr (Loaded command), a\<lparr>a_tools := a_tools a @ [(name, spec)]\<rparr>)) a of
        (Inl err, a) \<Rightarrow> fail_store w (run_id r) err a | (Inr _, a) \<Rightarrow> a)"
      if "quiet e" for e
      by (rule persist_or_cases)
        (use assms that in \<open>auto simp: settled_def fail_store_def wrote_def
          intro: running_idle_halt running_tools dest: running_persisted starts_calm starts_kept\<close>)
    with c show ?thesis by (simp add: agent_load_extension_def register_extension_def)
  qed
  with assms show ?thesis
    by (auto simp: load_if_authorised_def settled_def split: option.split)
qed

text \<open>A write about a tool of a run that runs, with a broken store ending it.\<close>

lemma persisted_outcome:
  assumes "running r work a" "event_session e = run_session r"
    and "track e (Some \<lparr>open_id = run_id r, open_tool = work\<rparr>)
           = Some \<lparr>open_id = run_id r, open_tool = work'\<rparr>"
    and "\<And>err b. idle (fail_store w (run_id r) err b) \<Longrightarrow> starts b = starts a \<Longrightarrow> P (failed err b)"
    and "\<And>stored b. running r work' b \<Longrightarrow> starts b = starts a \<Longrightarrow> P (persisted stored b)"
  shows "P (persist_or w e failed persisted a)"
proof (rule persist_or_cases)
  fix err b
  assume b: "calm a b \<or> wrote e a b"
  then have "active_run (run_id r) b = active_run (run_id r) a"
    using active_run_calm active_run_wrote by blast
  then have "active_run (run_id r) b \<noteq> None" using running_active [OF assms(1)] by auto
  moreover have "starts b = starts a" using b by (auto simp: wrote_def dest: starts_calm starts_kept)
  moreover have "store_sound (a_store b)"
    using in_run_sound b assms(1) unfolding running_def by blast
  ultimately show "P (failed err b)" using assms(4) by (simp add: fail_store_def idle_halt)
next
  fix stored b
  assume b: "wrote e a b"
  obtain r' where r': "same_run r r'" "in_run r' work a" using assms(1) by (auto simp: running_def)
  then have "in_run r' work' b"
    using in_run_wrote [OF r'(2) b] assms(2,3) by (simp add: same_run_def)
  with r' have "running r work' b" by (auto simp: running_def)
  moreover have "starts b = starts a" using b by (auto simp: wrote_def dest: starts_kept)
  ultimately show "P (persisted stored b)" by (rule assms(5))
qed

lemma take_load_authority_running:
  assumes "running r work a" "take_load_authority (run_id r) call a = (x, b)"
  shows "running r work b \<and> starts b = starts a"
  using assms
  by (auto simp: take_load_authority_def same_run_def split: option.splits if_splits
      intro!: running_upd_run)

text \<open>The answer of a recording operation is whether the run may go on.\<close>

definition records :: "ActiveRun \<Rightarrow> Actor \<Rightarrow> bool \<times> Actor \<Rightarrow> bool" where
  "records r a p \<longleftrightarrow> settled r a (snd p) \<and> (\<not> fst p \<longrightarrow> idle (snd p))"

lemma records_simps [simp]:
  "records r a (True, b) \<longleftrightarrow> settled r a b"
  "records r a (False, b) \<longleftrightarrow> stopped a b"
  by (auto simp: records_def settled_def stopped_def)

lemma records_settled: "records r a p \<Longrightarrow> settled r a (snd p)"
  by (simp add: records_def)

lemma record_tool_result_records:
  assumes "running r work a"
  shows "records r a (record_tool_result w (run_id r) call result a)"
proof -
  obtain x b where b: "take_load_authority (run_id r) call a = (x, b)" by force
  note rb = take_load_authority_running [OF assms b]
  obtain r' where r': "active_run (run_id r) b = Some r'" "same_run r r'"
    using running_active rb by blast
  then have s: "run_session r' = run_session r" by (simp add: same_run_def)
  have load: "settled r c (load_if_authorised w session (run_id r) call x (upd_state (note_effect stored i eff) c))"
    if "running r None c" for session stored i eff c
  proof -
    have "running r None (upd_state (note_effect stored i eff) c)"
      using that by (rule running_upd_state) (auto simp: note_effect_def split: ToolEffect.split)
    from load_if_authorised_settled [OF this] show ?thesis by (simp add: settled_def)
  qed
  show ?thesis
    unfolding record_tool_result_def Let_def b prod.case r'(1) option.case s
  proof (rule persisted_outcome [where r = r and work = work and work' = None])
    show "running r work b" using rb ..
  next
    fix stored c
    assume "running r None c" "starts c = starts b"
    then show "records r a (True, push_result w call (stored_sequence stored)
        ((bound_result w result)\<lparr>evidence_event_id := Some (show_uuid_of w (event_uuid (stored_id stored)))\<rparr>)
        (if ToolOutcome_is_ok (result_outcome (bound_result w result))
         then load_if_authorised w (run_session r) (run_id r) call x
           (upd_state (note_effect stored (show_uuid_of w (event_uuid (stored_id stored)))
             (effect (bound_result w result))) c) else c))"
      using rb load [of c]
      by (auto intro!: settled_push_result intro: settled_starts [of c] simp: settled_def [of r a c])
  qed (use rb in \<open>simp_all add: event_session_def track_def settle_def stopped_def fail_store_def\<close>)
qed

lemma record_tool_error_records:
  assumes "running r work a"
  shows "records r a (record_tool_error w (run_id r) call err a)"
proof -
  obtain r' where r': "active_run (run_id r) a = Some r'" "same_run r r'"
    using running_active [OF assms] by blast
  then have s: "run_session r' = run_session r" by (simp add: same_run_def)
  show ?thesis
    unfolding record_tool_error_def r'(1) option.case s
    by (rule persisted_outcome [OF assms, where work' = None])
      (auto simp: event_session_def track_def settle_def settled_def fail_store_def stopped_def
        intro: running_push_result)
qed

section \<open>Starting a tool\<close>

text \<open>
  A tool under way, with what the log says of it. Starting a tool launches it or settles it by
  a recorded refusal; only for a spawn does the answer claim a task when there is none.
\<close>

definition launched :: "ActiveRun \<Rightarrow> PendingWork option \<Rightarrow> ToolCall \<Rightarrow> Actor \<Rightarrow> Actor \<Rightarrow> bool" where
  "launched r work call a b \<longleftrightarrow> (\<exists>r' out. same_run r r' \<and> in_run r' work b \<and> run_phase r' = ToolPhase
     \<and> starts b = starts a @ [out]
     \<and> (out = StartTool (run_id r) call \<or> (\<exists>children. out = StartChildren (run_id r) call children)))"

definition started ::
  "ActiveRun \<Rightarrow> PendingWork option \<Rightarrow> ToolCall \<Rightarrow> Actor \<Rightarrow> bool \<times> Actor \<Rightarrow> bool" where
  "started r work call a p \<longleftrightarrow> fst p \<and> launched r work call a (snd p)
     \<or> settled r a (snd p) \<and> (fst p \<longrightarrow> call_name call = SPAWN_SUBAGENT \<or> idle (snd p))"

lemma calm_prepare_children [calm_intros]:
  "calm a b \<Longrightarrow> calm a (snd (prepare_children w session c p m reqs b))"
proof (induction reqs arbitrary: b)
  case (Cons req reqs)
  have rest: "calm a (snd (case prepare_children w session c p m reqs d of
      (None, a) \<Rightarrow> (None, a) | (Some specs, a) \<Rightarrow> (Some (f specs), a)))"
    if "calm a d" for d and f :: "ChildSpec list \<Rightarrow> ChildSpec list"
    using Cons.IH [OF that] by (auto split: prod.split option.split)
  show ?case
  proof (cases "resolve_child_route w (req\<lparr>req_policy := clamp_policy c (req_policy req)\<rparr>)")
    case None
    then show ?thesis using rest Cons.prems by (simp add: Let_def calm_intros)
  next
    case (Some x)
    obtain name reason p' m' where "x = (name, reason, p', m')" by (cases x)
    with Some show ?thesis using Cons.prems
      by (simp add: Let_def) (rule calm_persist_or_snd; simp add: calm_intros rest)
  qed
qed simp

lemma launched_emit:
  assumes "running r work a" "starts a = starts a0"
    and "\<forall>r'. active_run (run_id r) a = Some r' \<longrightarrow> run_phase r' = ToolPhase"
    and "out = StartTool (run_id r) call \<or> out = StartChildren (run_id r) call children"
  shows "launched r work call a0 (emit out a)"
proof -
  obtain r' where r': "active_run (run_id r) a = Some r'" "same_run r r'" "in_run r' work a"
    using running_active [OF assms(1)] by blast
  moreover have "in_run r' work (emit out a)" using r'(3) by (simp add: in_run_def emit_def)
  ultimately show ?thesis using assms(2-4) by (auto simp: launched_def)
qed

lemma start_spawn_started:
  assumes "running r work a" "call_name call = SPAWN_SUBAGENT"
    and phase: "\<forall>r'. active_run (run_id r) a = Some r' \<longrightarrow> run_phase r' = ToolPhase"
  shows "started r work call a (start_spawn w (run_id r) call a)"
proof -
  have rec: "started r work call a (record_tool_result w (run_id r) call result b)"
    if "running r work b" "starts b = starts a" for result b
    using record_tool_result_records [OF that(1), of w call result] that(2) assms(2)
    by (auto simp: started_def records_def settled_def)
  have go: "started r work call a (let (c, b) = charge_envelope w (run_id r) call a in
      case prepare_children w session c p m requests b of
        (None, b) \<Rightarrow> record_tool_result w (run_id r) call result b
      | (Some specs, b) \<Rightarrow> (True, emit (StartChildren (run_id r) call specs) b))" for session p m requests result
  proof -
    obtain c b where b: "charge_envelope w (run_id r) call a = (c, b)" by force
    obtain x d where d: "prepare_children w session c p m requests b = (x, d)" by force
    have "calm a b" using calm_charge_envelope [OF calm_refl, of a w "run_id r" call] b by simp
    then have ad: "calm a d" using calm_prepare_children [of a b w session c p m requests] d by simp
    have rd: "running r work d" "starts d = starts a"
      using running_calm [OF assms(1) ad] starts_calm [OF ad] by auto
    show ?thesis
    proof (cases x)
      case None
      with b d rec [OF rd] show ?thesis by simp
    next
      case (Some specs)
      have "launched r work call a (emit (StartChildren (run_id r) call specs) d)"
        using rd phase active_run_calm [OF ad] by (intro launched_emit) auto
      with Some b d show ?thesis by (simp add: started_def)
    qed
  qed
  show ?thesis
    unfolding start_spawn_def
    using rec [OF assms(1) refl] go
    by (auto split: option.split sum.split)
qed

lemma recorded_started:
  assumes "running r work a"
  shows "started r work call a (recorded w (run_id r) call result a)"
  using records_settled [OF record_tool_result_records [OF assms]]
  by (auto simp: started_def recorded_def)

lemma started_starts: "starts b = starts a \<Longrightarrow> started r work call b p \<Longrightarrow> started r work call a p"
  by (simp add: started_def launched_def settled_def)

lemma start_tool_started:
  assumes "running r work a"
  shows "started r work call a (start_tool w (run_id r) call spec a)"
proof -
  define b where "b = upd_run (run_id r) (\<lambda>r. r\<lparr>run_phase := ToolPhase\<rparr>) a"
  have b: "running r work b" "starts b = starts a"
    using assms by (auto simp: b_def same_run_def intro: running_upd_run)
  have phase: "\<forall>r'. active_run (run_id r) b = Some r' \<longrightarrow> run_phase r' = ToolPhase"
    by (auto simp: b_def active_run_def upd_run_def split: option.splits if_splits)
  have act: "active_run (run_id r) a \<noteq> None" using running_active [OF assms] by auto
  have rec: "started r work call a (recorded w (run_id r) call result a)" for result
    using recorded_started [OF assms] .
  have rec': "started r work call a (recorded w (run_id r) call result c)"
    if "calm b c" for result c
    using recorded_started [OF running_calm [OF b(1) that]] started_starts starts_calm [OF that] b(2) by metis
  have query: "started r work call a (answer_session_query w (run_id r) call b)"
  proof (cases "st_session (a_state b)")
    case None
    then show ?thesis using rec' [OF calm_refl] by (simp add: answer_session_query_def recorded_def)
  next
    case (Some session)
    obtain x c where x: "read_store w (store_branch_events session) b = (x, c)" by force
    then have "calm b c" using calm_read_store [OF calm_refl, of b w "store_branch_events session"] by simp
    from rec' [OF this] show ?thesis
      by (cases x) (simp_all add: answer_session_query_def Some x recorded_def)
  qed
  have memory: "started r work call a (answer_memory w (run_id r) call b)"
    using rec' [OF calm_next_tick [OF calm_refl]] by (simp add: answer_memory_def recorded_def)
  have spawn: "started r work call a (start_spawn w (run_id r) call b)"
    if "call_name call = SPAWN_SUBAGENT"
    using start_spawn_started [OF b(1) that phase] started_starts [OF b(2)] by blast
  have tool: "started r work call a (True, emit (StartTool (run_id r) call) b)"
    using launched_emit [OF b phase, of "StartTool (run_id r) call"] by (auto simp: started_def)
  show ?thesis
    unfolding start_tool_def
    using rec act query memory spawn tool
    by (auto simp: Let_def b_def [symmetric] split: sum.split option.split)
qed

section \<open>A proposal\<close>

text \<open>A run that waits for a human: the log holds the proposal, the run the call, the client a copy.\<close>

definition held :: "ActiveRun \<Rightarrow> Actor \<Rightarrow> Actor \<Rightarrow> bool" where
  "held r a b \<longleftrightarrow> (\<exists>r' i call spec preview.
     run_id r' = run_id r \<and> run_session r' = run_session r \<and> pending_tools r' = pending_tools r
     \<and> in_run r' (Some (AwaitingApproval i call (tool_tier spec) preview)) b
     \<and> run_phase r' = ApprovalPhase
     \<and> awaiting_approval r' = Some \<lparr>pt_approval = i, pt_call = call, pt_tool = spec\<rparr>
     \<and> st_pending_approval (a_state b) = Some \<lparr>pending_id = i, pending_tool_name = call_name call,
         pending_tier = tool_tier spec, pending_preview = preview\<rparr>
     \<and> starts b = starts a)"

lemma hold_for_approval_held:
  assumes "running r (Some (AwaitingApproval i call (tool_tier spec) preview)) a" "starts a = starts a0"
  shows "held r a0 (hold_for_approval w (run_id r) (Some i) call spec preview a)"
proof -
  obtain r' where r': "active_run (run_id r) a = Some r'" "same_run r r'"
    "in_run r' (Some (AwaitingApproval i call (tool_tier spec) preview)) a"
    using running_active [OF assms(1)] by blast
  let ?f = "\<lambda>r. r\<lparr>run_phase := ApprovalPhase,
    awaiting_approval := Some \<lparr>pt_approval = i, pt_call = call, pt_tool = spec\<rparr>\<rparr>"
  have "in_run (?f r') (Some (AwaitingApproval i call (tool_tier spec) preview))
      (hold_for_approval w (run_id r) (Some i) call spec preview a)"
    using r' by (auto simp: hold_for_approval_def in_run_def upd_state_def upd_run_def same_run_def)
  then show ?thesis
    unfolding held_def
    by (intro exI [of _ "?f r'"] exI [of _ i] exI [of _ call] exI [of _ spec] exI [of _ preview])
      (use r' assms(2) in \<open>auto simp: same_run_def hold_for_approval_def upd_state_def upd_run_def starts_def\<close>)
qed

text \<open>
  What a proposal comes to: the tool is under way and the log says under which authority, it
  waits for a human, or it was settled.
\<close>

definition disposed :: "ActiveRun \<Rightarrow> ToolCall \<Rightarrow> Actor \<Rightarrow> bool \<times> Actor \<Rightarrow> bool" where
  "disposed r call a p \<longleftrightarrow>
     (fst p \<and> (\<exists>tier preview. launched r (Some (Started PolicyAuthority call tier preview)) call a (snd p)))
     \<or> (fst p \<and> held r a (snd p))
     \<or> (settled r a (snd p) \<and> (fst p \<longrightarrow> call_name call = SPAWN_SUBAGENT \<or> idle (snd p)))"

lemma disposed_started:
  "started r (Some (Started PolicyAuthority call tier preview)) call a p \<Longrightarrow> disposed r call a p"
  by (auto simp: started_def disposed_def)

lemma disposed_idle: "idle b \<Longrightarrow> starts b = starts a \<Longrightarrow> disposed r call a (True, b)"
  by (simp add: disposed_def settled_def)

lemma disposed_starts: "starts b = starts a \<Longrightarrow> disposed r call b p \<Longrightarrow> disposed r call a p"
  by (simp add: disposed_def launched_def held_def settled_def)

lemma disposed_refused:
  assumes "running r work a"
  shows "disposed r call a (case record_tool_result w (run_id r) call result a of (ok, b) \<Rightarrow> (\<not> ok, b))"
  using record_tool_result_records [OF assms, of w call result]
  by (auto simp: disposed_def records_def split: prod.split)

lemma mark_load_authority_running:
  "running r work a \<Longrightarrow> running r work (mark_load_authority (run_id r) call authority a)
     \<and> starts (mark_load_authority (run_id r) call authority a) = starts a"
  by (auto simp: mark_load_authority_def same_run_def intro!: running_upd_run)

lemma auto_approved_disposed:
  assumes "running r (Some (AwaitingApproval i call tier preview)) a"
  shows "disposed r call a (persist_or w
      (MjolnrEvent.ApprovalResolved (run_session r) (run_id r) i ApprovalDecision.AutoByPolicy)
      (\<lambda>err a. (True, fail_store w (run_id r) err a))
      (\<lambda>_ a. start_tool w (run_id r) call spec
         (mark_load_authority (run_id r) call ExtensionLoadAuthority.FullAuto a)) a)"
proof (rule persisted_outcome [OF assms, where work' = "Some (Started PolicyAuthority call tier preview)"])
  fix err b
  assume "idle (fail_store w (run_id r) err b)" "starts b = starts a"
  then show "disposed r call a (True, fail_store w (run_id r) err b)"
    by (intro disposed_idle) (simp_all add: fail_store_def)
next
  fix stored :: StoredEvent and b
  assume b: "running r (Some (Started PolicyAuthority call tier preview)) b" "starts b = starts a"
  let ?b = "mark_load_authority (run_id r) call ExtensionLoadAuthority.FullAuto b"
  have m: "running r (Some (Started PolicyAuthority call tier preview)) ?b" "starts ?b = starts b"
    using mark_load_authority_running [OF b(1)] by auto
  show "disposed r call a (start_tool w (run_id r) call spec ?b)"
    by (rule disposed_started, rule started_starts [OF _ start_tool_started [OF m(1)]])
      (simp add: m(2) b(2))
qed (simp_all add: event_session_def track_def tracker_resolve_approval_def)

lemma dispose_gated_disposed:
  assumes "running r None a"
  shows "disposed r call a (dispose_gated w (run_id r) call spec preview authorised a)"
proof -
  define verdict where "verdict = gate_decision (a_state a) call spec authorised"
  define auto_approval where "auto_approval \<longleftrightarrow> is_full_auto (st_policy (a_state a)) \<and> verdict = Allow
    \<and> tool_tier spec \<noteq> ToolTier.Read"
  define asks where "asks \<longleftrightarrow> verdict = PolicyDecision.Ask \<or> auto_approval"
  define i where "i = ApprovalId (fresh_at w (a_ticks a))"
  define b where "b = (if asks then next_tick a else a)"
  let ?approval = "if asks then Some i else None"
  have ab: "calm a b" by (simp add: b_def calm_next_tick)
  then have rb: "running r None b" "starts b = starts a"
    using running_calm [OF assms] starts_calm by auto
  obtain r' where "same_run r r'" "in_run r' None b" using rb(1) by (auto simp: running_def)
  then have session: "st_session (a_state b) = Some (run_session r)"
    by (simp add: in_run_def same_run_def)
  let ?work = "case ?approval of Some i \<Rightarrow> AwaitingApproval i call (tool_tier spec) preview
    | None \<Rightarrow> Started PolicyAuthority call (tool_tier spec) preview"
  have u: "dispose_gated w (run_id r) call spec preview authorised a = persist_or w
      (MjolnrEvent.ToolProposed (run_session r) (run_id r) ?approval call (tool_tier spec) preview)
      (\<lambda>err a. (True, fail_store w (run_id r) err a))
      (\<lambda>_ a. case verdict of
          PolicyDecision.Deny code \<Rightarrow> (case record_tool_result w (run_id r) call
              (ToolResult_refused code ''current policy denied this tool'') a of (ok, a) \<Rightarrow> (\<not> ok, a))
        | PolicyDecision.Ask \<Rightarrow> (True, hold_for_approval w (run_id r) ?approval call spec preview a)
        | Allow \<Rightarrow>
            if auto_approval
            then (case ?approval of
                None \<Rightarrow> (True, fail_run w (run_id r) ReasonCode.ToolExecution
                  ''full-auto resolution had no approval identity'' a)
              | Some i \<Rightarrow> persist_or w
                  (MjolnrEvent.ApprovalResolved (run_session r) (run_id r) i ApprovalDecision.AutoByPolicy)
                  (\<lambda>err a. (True, fail_store w (run_id r) err a))
                  (\<lambda>_ a. start_tool w (run_id r) call spec
                     (mark_load_authority (run_id r) call ExtensionLoadAuthority.FullAuto a)) a)
            else start_tool w (run_id r) call spec a) b"
    unfolding dispose_gated_def Let_def verdict_def [symmetric] auto_approval_def [symmetric]
      asks_def [symmetric] i_def [symmetric]
    using session by (cases asks) (simp_all add: b_def)
  show ?thesis
    unfolding u
  proof (rule disposed_starts [OF rb(2)],
      rule persisted_outcome [OF rb(1), where work' = "Some ?work"])
    fix err c
    assume "idle (fail_store w (run_id r) err c)" "starts c = starts b"
    then show "disposed r call b (True, fail_store w (run_id r) err c)"
      by (intro disposed_idle) (simp_all add: fail_store_def)
  next
    fix stored c
    assume c: "running r (Some ?work) c" "starts c = starts b"
    show "disposed r call b (case verdict of
          PolicyDecision.Deny code \<Rightarrow> (case record_tool_result w (run_id r) call
              (ToolResult_refused code ''current policy denied this tool'') c of (ok, a) \<Rightarrow> (\<not> ok, a))
        | PolicyDecision.Ask \<Rightarrow> (True, hold_for_approval w (run_id r) ?approval call spec preview c)
        | Allow \<Rightarrow>
            if auto_approval
            then (case ?approval of
                None \<Rightarrow> (True, fail_run w (run_id r) ReasonCode.ToolExecution
                  ''full-auto resolution had no approval identity'' c)
              | Some i \<Rightarrow> persist_or w
                  (MjolnrEvent.ApprovalResolved (run_session r) (run_id r) i ApprovalDecision.AutoByPolicy)
                  (\<lambda>err a. (True, fail_store w (run_id r) err a))
                  (\<lambda>_ a. start_tool w (run_id r) call spec
                     (mark_load_authority (run_id r) call ExtensionLoadAuthority.FullAuto a)) c)
            else start_tool w (run_id r) call spec c)"
    proof (cases verdict)
      case (Deny code)
      then show ?thesis using disposed_starts [OF c(2) disposed_refused [OF c(1)]] by simp
    next
      case Ask
      then have "asks" by (simp add: asks_def)
      then have "held r b (hold_for_approval w (run_id r) (Some i) call spec preview c)"
        using c by (intro hold_for_approval_held) auto
      with Ask \<open>asks\<close> show ?thesis by (simp add: disposed_def)
    next
      case Allow
      show ?thesis
      proof (cases auto_approval)
        case True
        then have "asks" by (simp add: asks_def)
        then have "running r (Some (AwaitingApproval i call (tool_tier spec) preview)) c" using c by simp
        from disposed_starts [OF c(2) auto_approved_disposed [OF this]] Allow True \<open>asks\<close>
        show ?thesis by simp
      next
        case False
        with Allow have "\<not> asks" by (simp add: asks_def)
        then have "running r (Some (Started PolicyAuthority call (tool_tier spec) preview)) c" using c by simp
        from disposed_started [OF start_tool_started [OF this]] disposed_starts [OF c(2)] Allow False
        show ?thesis by auto
      qed
    qed
  qed (simp_all add: event_session_def track_def propose_def)
qed

lemma dispose_proposal_disposed:
  assumes "running r None a"
  shows "disposed r call a (dispose_proposal w (run_id r) call spec preview a)"
  unfolding dispose_proposal_def
  using dispose_gated_disposed [OF assms] disposed_refused [OF assms]
  by (auto split: option.split sum.split)

section \<open>The loop over the pending calls\<close>

text \<open>Preparing a call leaves the run as it was, answers the call, or ends the run.\<close>

lemma reserve_tool_call_running:
  assumes "running r None a" "reserve_tool_call w (run_id r) a = (ok, b)"
  shows "starts b = starts a \<and> (if ok then running r None b else idle b)"
proof -
  obtain r' where r': "active_run (run_id r) a = Some r'" using running_active [OF assms(1)] by blast
  show ?thesis
  proof (cases "run_tool_calls r' \<ge> limit_tool_calls (limits w)")
    case True
    with assms r' show ?thesis
      by (auto simp: reserve_tool_call_def intro: running_idle_exhaust)
  next
    case False
    have "running r None (upd_state (\<lambda>st. st\<lparr>st_budget := (st_budget st)\<lparr>used_tool_calls := n\<rparr>\<rparr>)
        (upd_run (run_id r) (\<lambda>r. r\<lparr>run_tool_calls := run_tool_calls r + 1\<rparr>) a))" for n
      by (rule running_upd_state, rule running_upd_run [OF assms(1)]) (simp_all add: same_run_def)
    with False assms r' show ?thesis by (auto simp: reserve_tool_call_def)
  qed
qed

definition prepared :: "ActiveRun \<Rightarrow> Actor \<Rightarrow> ToolPreparation \<times> Actor \<Rightarrow> bool" where
  "prepared r a p \<longleftrightarrow> starts (snd p) = starts a \<and> (case fst p of
      Ready _ _ \<Rightarrow> running r None (snd p)
    | Continue \<Rightarrow> settled r a (snd p)
    | ToolPreparation.Stop \<Rightarrow> idle (snd p))"

lemma recorded_preparation_prepared:
  assumes "running r None a"
  shows "prepared r a (recorded_preparation w (run_id r) call result a)"
  using record_tool_result_records [OF assms, of w call result]
  by (auto simp: recorded_preparation_def prepared_def records_def settled_def split: prod.split bool.split)

lemma prepare_tool_prepared:
  assumes "running r None a"
  shows "prepared r a (prepare_tool w (run_id r) call a)"
proof -
  have n: "running r None (next_tick a)" using assms by (rule running_calm) (intro calm_intros)
  have "prepared r a (recorded_preparation w (run_id r) call result (next_tick a))" for result
    using recorded_preparation_prepared [OF n, of w call result]
    by (auto simp: prepared_def settled_def split: ToolPreparation.splits)
  moreover have "prepared r a (Ready spec preview, next_tick a)" for spec preview
    using n by (simp add: prepared_def)
  ultimately show ?thesis
    unfolding prepare_tool_def using recorded_preparation_prepared [OF assms]
    by (simp split: option.split sum.split ToolError.split)
qed

text \<open>
  Where a driven run ends up: it was ended; it waits for a human; the provider was asked; a
  tool is under way that its log says was authorised; or it goes on without anything started.
\<close>

definition outcome :: "ActiveRun \<Rightarrow> Actor \<Rightarrow> Actor \<Rightarrow> bool" where
  "outcome r a b \<longleftrightarrow> stopped a b \<or> held r a b \<or> asking r None a b
     \<or> (\<exists>authority call tier preview. launched r (Some (Started authority call tier preview)) call a b)
     \<or> (running r None b \<and> starts b = starts a)"

lemma outcome_starts: "starts b = starts a \<Longrightarrow> outcome r b c \<Longrightarrow> outcome r a c"
  by (simp add: outcome_def stopped_def held_def asking_def launched_def)

lemma outcome_settled: "settled r a b \<Longrightarrow> outcome r a b"
  by (auto simp: outcome_def settled_def stopped_def)

lemma outcome_disposed: "disposed r call a p \<Longrightarrow> outcome r a (snd p)"
  by (auto simp: disposed_def outcome_def settled_def stopped_def)

lemma begin_provider_turn_driven: "running r None a \<Longrightarrow> outcome r a (begin_provider_turn w (run_id r) a)"
  using begin_provider_turn_outcome [of r None a w] by (auto simp: outcome_def stalled_def)

text \<open>
  A run makes progress unless it hangs: not ended, nothing under way, nobody asked. A store that
  failed may leave it so, and a spawn that was refused does.
\<close>

definition progressed :: "ActiveRun \<Rightarrow> Actor \<Rightarrow> Actor \<Rightarrow> bool" where
  "progressed r a b \<longleftrightarrow> stopped a b \<or> held r a b \<or> asking r None a b
     \<or> (\<exists>authority call tier preview. launched r (Some (Started authority call tier preview)) call a b)
     \<or> stalled r None a b"

lemma progressed_starts: "starts b = starts a \<Longrightarrow> progressed r b c \<Longrightarrow> progressed r a c"
  by (simp add: progressed_def stopped_def held_def asking_def launched_def stalled_def)

lemma progressed_disposed:
  "disposed r call a (True, b) \<Longrightarrow> call_name call \<noteq> SPAWN_SUBAGENT \<Longrightarrow> progressed r a b"
  by (auto simp: disposed_def progressed_def settled_def stopped_def)

lemma begin_provider_turn_progressed: "running r None a \<Longrightarrow> progressed r a (begin_provider_turn w (run_id r) a)"
  using begin_provider_turn_outcome [of r None a w] by (auto simp: progressed_def)

lemma call_name_normalize [simp]: "call_name (normalize_call st call) = call_name call"
  by (simp add: normalize_call_def)

lemma drive_tool_outcome:
  assumes "running r None a" "drive_tool w (run_id r) call a = (done, b)"
  shows "outcome r a b" "\<not> done \<Longrightarrow> settled r a b"
    "done \<Longrightarrow> call_name call \<noteq> SPAWN_SUBAGENT \<Longrightarrow> progressed r a b"
proof -
  let ?call = "normalize_call (a_state a) call"
  obtain ok c where c: "reserve_tool_call w (run_id r) a = (ok, c)" by force
  note rc = reserve_tool_call_running [OF assms(1) c]
  have "outcome r a b \<and> (\<not> done \<longrightarrow> settled r a b) \<and> (done \<longrightarrow> call_name call \<noteq> SPAWN_SUBAGENT \<longrightarrow> progressed r a b)"
  proof (cases ok)
    case False
    with assms(2) c rc show ?thesis by (auto simp: drive_tool_def outcome_def progressed_def stopped_def)
  next
    case True
    with rc have run_c: "running r None c" "starts c = starts a" by auto
    obtain x d where d: "prepare_tool w (run_id r) ?call c = (x, d)" by force
    have pd: "prepared r c (x, d)" using prepare_tool_prepared [OF run_c(1), of w ?call] d by simp
    show ?thesis
    proof (cases x)
      case (Ready spec preview)
      with pd have run_d: "running r None d" "starts d = starts a"
        using run_c by (simp_all add: prepared_def)
      have "disposed r ?call a (done, b)"
        using disposed_starts [OF run_d(2) dispose_proposal_disposed [OF run_d(1), of ?call w spec preview]] assms(2) c d True Ready
        by (simp add: drive_tool_def)
      then have "outcome r a b" "\<not> done \<Longrightarrow> settled r a b"
        "done \<Longrightarrow> call_name call \<noteq> SPAWN_SUBAGENT \<Longrightarrow> progressed r a b"
        using outcome_disposed [of r ?call a "(done, b)"] progressed_disposed [of r ?call a b] by (auto simp: disposed_def)
      then show ?thesis by blast
    qed (use assms(2) c d True pd run_c in
        \<open>auto simp: drive_tool_def prepared_def outcome_def progressed_def stopped_def settled_def\<close>)
  qed
  then show "outcome r a b" "\<not> done \<Longrightarrow> settled r a b"
    "done \<Longrightarrow> call_name call \<noteq> SPAWN_SUBAGENT \<Longrightarrow> progressed r a b" by auto
qed

definition no_spawn :: "ActiveRun \<Rightarrow> bool" where
  "no_spawn r \<longleftrightarrow> list_all (\<lambda>call. call_name call \<noteq> SPAWN_SUBAGENT) (pending_tools r)"

definition drives :: "ActiveRun \<Rightarrow> Actor \<Rightarrow> Actor \<Rightarrow> bool" where
  "drives r a b \<longleftrightarrow> (\<exists>q. outcome (r\<lparr>pending_tools := q\<rparr>) a b
     \<and> (no_spawn r \<longrightarrow> progressed (r\<lparr>pending_tools := q\<rparr>) a b))"

lemma drives_starts: "starts b = starts a \<Longrightarrow> drives r b c \<Longrightarrow> drives r a c"
  by (auto simp: drives_def intro: outcome_starts progressed_starts)

lemma drives_rest: "drives (r\<lparr>pending_tools := rest\<rparr>) a b \<Longrightarrow> (no_spawn r \<Longrightarrow> no_spawn (r\<lparr>pending_tools := rest\<rparr>)) \<Longrightarrow> drives r a b"
  by (auto simp: drives_def)

lemma drives_stopped: "stopped a b \<Longrightarrow> drives r a b"
  by (simp add: drives_def outcome_def progressed_def)

lemma drive_tools_drives: "running r None a \<Longrightarrow> drives r a (drive_tools w (run_id r) a)"
proof (induction w "run_id r" a arbitrary: r rule: drive_tools.induct)
  case (1 w a)
  obtain r' where r': "active_run (run_id r) a = Some r'" "same_run r r'" "in_run r' None a"
    using running_active [OF 1(2)] by blast
  show ?case
  proof (cases "pending_tools r'")
    case Nil
    have "drives (r\<lparr>pending_tools := pending_tools r\<rparr>) a (begin_provider_turn w (run_id r) a)"
      unfolding drives_def
      using begin_provider_turn_driven [OF 1(2), of w] begin_provider_turn_progressed [OF 1(2), of w]
      by (intro exI [of _ "pending_tools r"]) simp
    with Nil r' show ?thesis by (simp add: drive_tools.simps [of w "run_id r" a])
  next
    case (Cons call rest)
    let ?r = "r\<lparr>pending_tools := rest\<rparr>"
    let ?a = "upd_run (run_id r) (\<lambda>r. r\<lparr>pending_tools := rest\<rparr>) a"
    have names: "no_spawn r \<longleftrightarrow> call_name call \<noteq> SPAWN_SUBAGENT \<and> no_spawn ?r"
    proof -
      have "pending_tools r = call # rest" using r'(2) Cons by (simp add: same_run_def)
      then show ?thesis by (simp add: no_spawn_def)
    qed
    have "in_run (r'\<lparr>pending_tools := rest\<rparr>) None ?a" "same_run ?r (r'\<lparr>pending_tools := rest\<rparr>)"
      using r' by (auto simp: in_run_def same_run_def upd_run_def)
    then have run: "running ?r None ?a" by (auto simp: running_def)
    obtain x b where b: "drive_tool w (run_id r) call ?a = (x, b)" by force
    have ob: "outcome ?r ?a b" "\<not> x \<Longrightarrow> settled ?r ?a b"
      "x \<Longrightarrow> call_name call \<noteq> SPAWN_SUBAGENT \<Longrightarrow> progressed ?r ?a b"
      using drive_tool_outcome [OF run, of w call x b] b by simp_all
    have sa: "starts ?a = starts a" by simp
    have "drives ?r ?a (drive_tools w (run_id r) a)" if x: "\<not> x"
    proof -
      from x b r' Cons have step: "drive_tools w (run_id r) a = drive_tools w (run_id r) b"
        by (simp add: drive_tools.simps [of w "run_id r" a])
      note s = ob(2) [OF x]
      then have starts: "starts b = starts ?a" by (simp add: settled_def)
      show ?thesis
      proof (cases "idle b")
        case True
        then have "drive_tools w (run_id r) b = b"
          by (simp add: drive_tools.simps [of w "run_id r" b] active_run_def idle_def)
        with True starts show ?thesis by (simp add: step drives_stopped stopped_def)
      next
        case False
        with s have "running ?r None b" by (simp add: settled_def)
        with 1(1) [OF r'(1) Cons b [symmetric], of ?r] x drives_starts [OF starts] show ?thesis by (simp add: step)
      qed
    qed
    moreover have "drives r ?a (drive_tools w (run_id r) a)" if x: x
    proof -
      from x b r' Cons have "drive_tools w (run_id r) a = b"
        by (simp add: drive_tools.simps [of w "run_id r" a])
      with ob(1,3) x names show ?thesis by (auto simp: drives_def)
    qed
    ultimately have "drives r ?a (drive_tools w (run_id r) a)"
      using drives_rest names by blast
    from drives_starts [OF sa this] show ?thesis .
  qed
qed

lemma drive_tools_outcome:
  "running r None a \<Longrightarrow> \<exists>q. outcome (r\<lparr>pending_tools := q\<rparr>) a (drive_tools w (run_id r) a)"
  by (drule drive_tools_drives [of r a w]) (auto simp: drives_def)

end
