(* ===== verification/Run_Handlers.thy ===== *)
theory Run_Handlers
  imports Run_Outcome
begin

text \<open>
  The handlers of a run's mail and commands: the events and the end of a provider stream
  (\<^verbatim>\<open>runtime/provider_loop.rs\<close>), the end of a tool and the resolution of an approval
  (\<^verbatim>\<open>runtime/tool_loop.rs\<close>), the start of a run (\<^verbatim>\<open>start_run\<close> of \<^verbatim>\<open>runtime/mod.rs\<close>) and of a handoff
  (\<^verbatim>\<open>runtime/continuation.rs\<close>), and the notices of the child orchestration
  (\<^verbatim>\<open>runtime/subagent/mod.rs\<close>). The refresh of the repository projection after a write, the
  structured planning run and the publishing of snapshots are left out.
\<close>

section \<open>The events of a stream\<close>

definition upd_accumulator :: "RunId \<Rightarrow> (StreamAccumulator \<Rightarrow> StreamAccumulator) \<Rightarrow> Actor \<Rightarrow> Actor" where
  "upd_accumulator run f = upd_run run (\<lambda>r. r\<lparr>accumulator := f (accumulator r)\<rparr>)"

definition handle_provider_event :: "World \<Rightarrow> RunId \<Rightarrow> ProviderEvent \<Rightarrow> Actor \<Rightarrow> Actor" where
  "handle_provider_event w run e a = (case active_run run a of
      None \<Rightarrow> a
    | Some r \<Rightarrow> (let session = run_session r in case e of
        ProviderEvent.Started \<Rightarrow> a
      | ProviderEvent.Failed _ \<Rightarrow> a
      | ProviderEvent.Finished _ \<Rightarrow> a
      | ProviderEvent.TextDelta t \<Rightarrow>
          broadcast (MjolnrEvent.TextDelta session run t) (upd_accumulator run (push_text t) a)
      | ProviderEvent.ReasoningDelta t \<Rightarrow> broadcast (MjolnrEvent.ReasoningDelta session run t) a
      | ProviderEvent.ToolCallStarted i name \<Rightarrow>
          broadcast (MjolnrEvent.ToolAssembling session run name)
            (upd_accumulator run (start_tool_call i) a)
      | ProviderEvent.ToolArgumentsDelta i fragment \<Rightarrow> upd_accumulator run (push_arguments i fragment) a
      | ProviderEvent.ToolCallCompleted call \<Rightarrow> upd_accumulator run (complete_tool_call call) a
      | ProviderEvent.UsageEvent u \<Rightarrow>
          persist_or w (MjolnrEvent.UsageReported session run u) (halt_for_store w run)
            (\<lambda>_. upd_state (\<lambda>st. st\<lparr>st_usage := (st_usage st)\<lparr>
               input_tokens := input_tokens (st_usage st) + input_tokens u,
               output_tokens := output_tokens (st_usage st) + output_tokens u\<rparr>\<rparr>))
            (upd_accumulator run (set_usage u) a)
      | ProviderEvent.Quota snapshot \<Rightarrow>
          observe_quota w run snapshot (broadcast (MjolnrEvent.QuotaReported session run snapshot) a)
      | ProviderEvent.UnknownUpstream kind \<Rightarrow> upd_accumulator run (note_unknown kind) a))"

section \<open>The end of a provider turn\<close>

text \<open>How the task of a stream ended: the adapter's answer, its error, or a task that was lost.\<close>

datatype StreamOutcome = Completed FinishReason | Errored ProviderError | Lost string

definition route_provider_outcome ::
  "World \<Rightarrow> RunId \<Rightarrow> StreamOutcome \<Rightarrow> ToolCall list \<Rightarrow> (RunIntent \<times> bool \<times> bool) option \<Rightarrow> Actor \<Rightarrow> Actor"
where
  "route_provider_outcome w run result calls state a = (case result of
      Completed reason \<Rightarrow>
        (let a = note_route_provider_success w a
         in if calls \<noteq> [] \<or> reason = FinishReason.ToolCalls
            then if calls = []
              then fail_run w run ReasonCode.ProviderProtocol
                ''provider reported tool calls without a completed call'' a
              else drive_tools w run (upd_run run (\<lambda>r. r\<lparr>pending_tools := pending_tools r @ calls\<rparr>) a)
            else if state = Some (Normal, False, True) then begin_provider_turn w run a
            else finish_run w run reason a)
    | Errored err \<Rightarrow>
        if err = ProviderError.Cancelled then finish_run w run FinishReason.Cancelled a
        else
          (case note_route_provider_failure w run (ProviderError_reason_code err) a of
            (RouteMoved, a) \<Rightarrow> begin_provider_turn w run a
          | (RouteSpent, a) \<Rightarrow> a
          | (NotRouted, a) \<Rightarrow> fail_run w run (ProviderError_reason_code err) (ProviderError_display err) a)
    | Lost detail \<Rightarrow> fail_run w run ReasonCode.ProviderProtocol
        (''provider task did not complete: '' @ detail) a)"

text \<open>The answer of the turn goes into the log, and answers the review request that asked for it.\<close>

definition record_answer ::
  "World \<Rightarrow> RunId \<Rightarrow> SessionId \<Rightarrow> ReviewThreadId list \<Rightarrow> CanonicalMessage option \<Rightarrow> Actor \<Rightarrow> bool \<times> Actor" where
  "record_answer w run session answering answer a = (case answer of
      None \<Rightarrow> (True, a)
    | Some message \<Rightarrow> persist_or w (MjolnrEvent.MessageAppended session message)
        (\<lambda>err a. (False, halt_for_store w run err a))
        (\<lambda>stored a.
           let a = upd_state (push_message (Some (stored_sequence stored)) message) a;
               answered = MjolnrEvent.ReviewRequestAnswered session answering (message_id message)
           in if answering = [] then (True, a)
              else persist_or w answered (\<lambda>err a. (False, halt_for_store w run err a))
                (\<lambda>_ a. (True, upd_state (\<lambda>st. st\<lparr>st_review_threads :=
                   review_apply (show_uuid_of w) answered (st_review_threads st)\<rparr>) a)) a) a)"

definition handle_provider_turn_ended :: "World \<Rightarrow> RunId \<Rightarrow> StreamOutcome \<Rightarrow> Actor \<Rightarrow> Actor" where
  "handle_provider_turn_ended w run result a = (case active_run run a of
      None \<Rightarrow> a
    | Some r \<Rightarrow>
        (let answer = finish (fresh_at w (a_ticks a)) (clock_at w (a_ticks a)) (accumulator r)
               (run_provider r) (run_model r);
             calls = (case answer of None \<Rightarrow> [] | Some m \<Rightarrow> message_tool_calls m)
         in case record_answer w run (run_session r) (pending_review_threads r) answer
              (next_tick (upd_run run (\<lambda>r. r\<lparr>accumulator := StreamAccumulator_default,
                 pending_review_threads := []\<rparr>) a)) of
             (False, a) \<Rightarrow> a
           | (True, a) \<Rightarrow>
              (let state = map_option (\<lambda>r. (run_intent r, hard_stop r \<noteq> None, pending_drain r \<noteq> None))
                     (active_run run a)
               in case state of
                    Some (Normal, True, _) \<Rightarrow> stop_for_quota w run a
                  | _ \<Rightarrow> route_provider_outcome w run result calls state a)))"

section \<open>The end of a tool\<close>

datatype ToolTaskOutcome = ToolReturned ToolResult | ToolErred ToolError | ToolLost string

definition drive_if :: "World \<Rightarrow> RunId \<Rightarrow> bool \<times> Actor \<Rightarrow> Actor" where
  "drive_if w run p = (case p of (True, a) \<Rightarrow> drive_tools w run a | (False, a) \<Rightarrow> a)"

definition is_completion :: "ToolResult \<Rightarrow> bool" where
  "is_completion result \<longleftrightarrow> ToolOutcome_is_ok (result_outcome result)
     \<and> (case effect result of ToolEffect.Completion _ \<Rightarrow> True | _ \<Rightarrow> False)"

definition handle_tool_success :: "World \<Rightarrow> RunId \<Rightarrow> ToolCall \<Rightarrow> ToolResult \<Rightarrow> Actor \<Rightarrow> Actor" where
  "handle_tool_success w run call result0 a =
     (let result = bound_result w result0 in
      case record_tool_result w run call result a of
        (False, a) \<Rightarrow> a
      | (True, a) \<Rightarrow> if is_completion result then finish_run w run FinishReason.Stop a
          else drive_tools w run a)"

definition handle_tool_ended :: "World \<Rightarrow> RunId \<Rightarrow> ToolCall \<Rightarrow> ToolTaskOutcome \<Rightarrow> Actor \<Rightarrow> Actor" where
  "handle_tool_ended w run call result a =
     (if active_run run a = None then a
      else case result of
        ToolReturned r \<Rightarrow> handle_tool_success w run call r a
      | ToolErred ToolError.Cancelled \<Rightarrow> finish_run w run FinishReason.Cancelled a
      | ToolErred err \<Rightarrow> drive_if w run (record_tool_error w run call err a)
      | ToolLost detail \<Rightarrow> drive_if w run (record_tool_error w run call
          (ToolError.Execution (''tool task did not complete: '' @ detail)) a))"

section \<open>The resolution of an approval\<close>

definition resolve_approval :: "World \<Rightarrow> ApprovalId \<Rightarrow> ApprovalDecision \<Rightarrow> Actor \<Rightarrow> Actor" where
  "resolve_approval w approval answer a =
     (if answer = ApprovalDecision.AutoByPolicy then a
      else case a_run a of
        None \<Rightarrow> a
      | Some r \<Rightarrow> (case awaiting_approval r of
          None \<Rightarrow> a
        | Some pending \<Rightarrow>
            if pt_approval pending \<noteq> approval then a
            else persist_or w
              (MjolnrEvent.ApprovalResolved (run_session r) (run_id r) approval answer)
              (fail_store w (run_id r))
              (\<lambda>_ a.
                 let run = run_id r; call = pt_call pending;
                     a = upd_state (\<lambda>st. st\<lparr>st_pending_approval := None\<rparr>) a
                 in case answer of
                      ApprovalDecision.Deny \<Rightarrow> drive_if w run (record_tool_result w run call
                        (ToolResult_refused ReasonCode.ApprovalDenied
                          ''the user denied this exact proposal'') a)
                    | _ \<Rightarrow>
                        (let a = (case (answer, command_spec call) of
                               (ApprovalDecision.ApproveExactForSession, Some c) \<Rightarrow>
                                 upd_state (\<lambda>st. st\<lparr>st_exact_commands := insert c (st_exact_commands st)\<rparr>) a
                             | _ \<Rightarrow> a)
                         in case start_tool w run call (pt_tool pending)
                              (mark_load_authority run call ExtensionLoadAuthority.Approved a) of
                             (True, a) \<Rightarrow> a
                           | (False, a) \<Rightarrow> drive_tools w run a))
              (a\<lparr>a_run := Some (r\<lparr>awaiting_approval := None\<rparr>)\<rparr>)))"

section \<open>The start of a run\<close>

definition DIRECTIVE_TITLE_MAX_CHARS :: nat where "DIRECTIVE_TITLE_MAX_CHARS = 60"

definition title_from_directive :: "string \<Rightarrow> string" where
  "title_from_directive text = (case find (\<lambda>line. line \<noteq> []) (map trim (str_lines text)) of
      None \<Rightarrow> []
    | Some line \<Rightarrow>
        if char_count line \<le> DIRECTIVE_TITLE_MAX_CHARS then line
        else concat (take DIRECTIVE_TITLE_MAX_CHARS (str_chars line)) @ [CHR 0xE2, CHR 0x80, CHR 0xA6])"

definition directive_names_session :: "DirectiveSource \<Rightarrow> bool" where
  "directive_names_session source \<longleftrightarrow> source = Human"

definition new_run ::
  "RunId \<Rightarrow> SessionId \<Rightarrow> ProviderId \<Rightarrow> ModelId \<Rightarrow> RunIntent \<Rightarrow> (ProviderId \<times> ModelId) option \<Rightarrow> ActiveRun" where
  "new_run run session provider model intent target = \<lparr>run_id = run, run_session = session,
     run_provider = provider, run_model = model, accumulator = StreamAccumulator_default,
     pending_tools = [], awaiting_approval = None, pending_load_authority = None,
     run_phase = Provider, run_provider_turns = 0, run_tool_calls = 0, run_intent = intent,
     pending_drain = None, hard_stop = None, handoff_target = target, pending_review_threads = []\<rparr>"

text \<open>The first event after a rewind opens the branch.\<close>

definition persist_branching_or ::
  "World \<Rightarrow> MjolnrEvent \<Rightarrow> (StoreError \<Rightarrow> Actor \<Rightarrow> 'x) \<Rightarrow> (StoredEvent \<Rightarrow> Actor \<Rightarrow> 'x) \<Rightarrow> Actor \<Rightarrow> 'x" where
  "persist_branching_or w e failed persisted a = (case persist_branching w e a of
      (Inl err, a) \<Rightarrow> failed err a
    | (Inr stored, a) \<Rightarrow> persisted stored a)"

text \<open>The ceilings of a directive: where it came from, and the model that is to follow it.\<close>

definition cap_directive :: "World \<Rightarrow> DirectiveSource \<Rightarrow> Actor \<Rightarrow> Actor" where
  "cap_directive w source a =
     (let capped = directive_policy_ceiling source (st_policy (a_state a))
      in apply_governance_floor w
           (if capped \<noteq> st_policy (a_state a) then set_policy w capped a else a))"

text \<open>The run is durable before the provider is asked, and its timer runs.\<close>

definition launch_run :: "World \<Rightarrow> ActiveRun \<Rightarrow> Actor \<Rightarrow> Actor" where
  "launch_run w r a = begin_provider_turn w (run_id r) (emit (StartTimer (run_id r) (max_wall_time (limits w)))
     (upd_state (\<lambda>st. st\<lparr>st_budget := (st_budget st)\<lparr>used_provider_turns := 0, used_tool_calls := 0\<rparr>\<rparr>)
       (a\<lparr>a_run := Some r\<rparr>)))"

text \<open>The first directive of its owner names the session; a failed rename is ignored.\<close>

definition name_session :: "World \<Rightarrow> SessionId \<Rightarrow> DirectiveSource \<Rightarrow> string \<Rightarrow> Actor \<Rightarrow> Actor" where
  "name_session w session source text a =
     (if length (st_messages (a_state a)) = 1 \<and> directive_names_session source
        \<and> title_from_directive text \<noteq> []
      then snd (write_store w (unit_op (store_rename_session (clock_at w (a_ticks a)) session
        (title_from_directive text))) a)
      else a)"

definition begin_run ::
  "World \<Rightarrow> SessionId \<Rightarrow> ProviderId \<Rightarrow> ModelId \<Rightarrow> DirectiveSource \<Rightarrow> string \<Rightarrow> Actor \<Rightarrow> Actor" where
  "begin_run w session provider model source text a =
     (let run = RunId (fresh_at w (a_ticks a));
          a = next_tick a;
          message = message_user (fresh_at w (a_ticks a)) (clock_at w (a_ticks a)) text
      in persist_branching_or w (MjolnrEvent.MessageAppended session message) (note_store_failure w)
           (\<lambda>stored a. persist_or w (MjolnrEvent.RunStarted session run) (note_store_failure w)
              (\<lambda>_ a. launch_run w (new_run run session provider model Normal None)
                 (upd_state (\<lambda>st. st\<lparr>st_pending_approval := None\<rparr>) a))
              (name_session w session source text
                 (upd_state (push_message (Some (stored_sequence stored)) message) a)))
           (next_tick a))"

definition start_run :: "World \<Rightarrow> string \<Rightarrow> DirectiveSource \<Rightarrow> Actor \<Rightarrow> Actor" where
  "start_run w text source a =
     (case (st_session (a_state a), st_provider (a_state a), st_model (a_state a)) of
        (Some session, Some provider, Some model) \<Rightarrow>
          if a_run a \<noteq> None then a
          else
            (let a = cap_directive w source a
             in if blocked w a \<noteq> None \<or> \<not> has_provider w provider then a
                else begin_run w session provider model source text a)
      | _ \<Rightarrow> a)"

definition send_user_message :: "World \<Rightarrow> string \<Rightarrow> DirectiveSource \<Rightarrow> Actor \<Rightarrow> Actor" where
  "send_user_message w text source a = start_run w (frame source text) source a"

definition queue_steering :: "World \<Rightarrow> string \<Rightarrow> Actor \<Rightarrow> Actor" where
  "queue_steering w text a =
     (if a_run a \<noteq> None then upd_state (\<lambda>st. st\<lparr>st_steering := st_steering st @ [text]\<rparr>) a
      else start_run w text Human a)"

section \<open>A handoff\<close>

definition handoff_target_of :: "World \<Rightarrow> string \<Rightarrow> SessionState \<Rightarrow> (ProviderId \<times> ModelId) option" where
  "handoff_target_of w target st = (case resolve (route_table w) (Some target) (Some target) [] of
      Some (route, _) \<Rightarrow> map_option (\<lambda>hop. (hop_provider hop, hop_model hop)) (route_hop route 0)
    | None \<Rightarrow> (case split_once CHR ''/'' target of
        Some (p, m) \<Rightarrow> Some (ProviderId p, ModelId m)
      | None \<Rightarrow> (case split_once CHR '':'' target of
          Some (p, m) \<Rightarrow> Some (ProviderId p, ModelId m)
        | None \<Rightarrow> map_option (\<lambda>p. (p, ModelId target)) (st_provider st))))"

definition start_handoff :: "World \<Rightarrow> string option \<Rightarrow> Actor \<Rightarrow> Actor" where
  "start_handoff w target a =
     (case (st_session (a_state a), st_provider (a_state a), st_model (a_state a)) of
        (Some session, Some provider, Some model) \<Rightarrow>
          (let swap = Option.bind target (\<lambda>t. handoff_target_of w t (a_state a))
           in if a_run a \<noteq> None \<or> blocked w a \<noteq> None \<or> \<not> has_provider w provider
              then a\<lparr>a_run := map_option (\<lambda>r. r\<lparr>handoff_target := swap,
                     run_intent := (if run_intent r = Normal then ManualHandoff else run_intent r)\<rparr>) (a_run a)\<rparr>
              else
                (let run = RunId (fresh_at w (a_ticks a))
                 in persist_or w (MjolnrEvent.RunStarted session run) (note_store_failure w)
                      (\<lambda>_. launch_run w (new_run run session provider model ManualHandoff swap))
                      (next_tick a)))
      | _ \<Rightarrow> a)"

section \<open>Notices of the child orchestration\<close>

datatype SubagentNotice =
    Spawned RunId SessionId string PolicyMode string string
  | Late SessionId string
  | Collision SessionId SessionId string

definition notice_event :: "SessionId \<Rightarrow> SubagentNotice \<Rightarrow> MjolnrEvent" where
  "notice_event session n = (case n of
      Spawned run child directive policy branch worktree \<Rightarrow>
        MjolnrEvent.SubagentSpawned session run child directive policy branch worktree
    | Late child detail \<Rightarrow> MjolnrEvent.SubagentResultLate session child detail
    | Collision reader writer path \<Rightarrow> MjolnrEvent.ReadSetCollision session reader writer path)"

definition handle_subagent_notice :: "World \<Rightarrow> SubagentNotice \<Rightarrow> Actor \<Rightarrow> Actor" where
  "handle_subagent_notice w n a = (case st_session (a_state a) of
      None \<Rightarrow> a
    | Some session \<Rightarrow> persist_or w (notice_event session n) (note_store_failure w) (\<lambda>_ a. a) a)"

end
