(* ===== verification/Actor_Lifecycle.thy ===== *)
theory Actor_Lifecycle
  imports Run_Handlers
begin

text \<open>
  The life of a session in the actor (\<^verbatim>\<open>runtime/durability.rs\<close>): opening a project, creating,
  resuming, ending, releasing and reclaiming a session, resolving a recovery, rewinding and
  forking; and the choice of a resume with the new session made of a handoff
  (\<^verbatim>\<open>runtime/continuation.rs\<close>). The projections only a client reads (the list of sessions, the
  tree, the branch that was left, the repository, the reports of a reload or a load) are not
  part of the state here; where one is read from the store, the read may fail and is kept.
\<close>

section \<open>Projects\<close>

definition refuse :: "World \<Rightarrow> string \<Rightarrow> Actor \<Rightarrow> Actor" where
  "refuse w detail = note_store_failure w (StoreError.Unavailable detail)"

definition refresh_session_list :: "World \<Rightarrow> Actor \<Rightarrow> Actor" where
  "refresh_session_list w a = (case read_store w list_sessions a of
      (Inl err, a) \<Rightarrow> note_store_failure w err a
    | (Inr _, a) \<Rightarrow> a)"

definition open_project :: "World \<Rightarrow> string \<Rightarrow> Actor \<Rightarrow> (unit, ReasonCode \<times> string) result \<times> Actor" where
  "open_project w root a =
     (if a_run a \<noteq> None then (Inl (ReasonCode.RunActive,
        ''the workspace root cannot change while a run is active; cancel the run first''), a)
      else if st_session (a_state a) \<noteq> None then (Inl (ReasonCode.WorkspaceRootLocked,
        ''a session is already open on this workspace root; leave the session before ''
        @ ''opening a different one''), a)
      else case canonical_root_at w (a_ticks a) root of
        Inr canonical \<Rightarrow> (Inr (), refresh_session_list w
          (upd_state (\<lambda>st. st\<lparr>st_workspace_root := Some canonical\<rparr>) (next_tick a)))
      | Inl detail \<Rightarrow> (Inl (ReasonCode.PathOutsideWorkspace, detail), next_tick a))"

section \<open>Creating a session\<close>

definition file_name :: "string \<Rightarrow> string option" where
  "file_name p = (case rev (path_components p) of
      (CHR 0x04 # name) # _ \<Rightarrow> Some name
    | _ \<Rightarrow> None)"

definition default_title :: "SessionState \<Rightarrow> string" where
  "default_title st = (case Option.bind (st_workspace_root st) file_name of
      None \<Rightarrow> ''session'' | Some name \<Rightarrow> name)"

text \<open>A write whose failure is noted and ends the operation.\<close>

definition write_or_note ::
  "World \<Rightarrow> (Inner \<Rightarrow> ('x \<times> Inner, StoreError) result) \<Rightarrow> ('x \<Rightarrow> Actor \<Rightarrow> Actor) \<Rightarrow> Actor \<Rightarrow> Actor" where
  "write_or_note w f g a = (case write_store w f a of
      (Inl err, a) \<Rightarrow> note_store_failure w err a
    | (Inr x, a) \<Rightarrow> g x a)"

definition opened :: "World \<Rightarrow> SessionId \<Rightarrow> ProviderId \<Rightarrow> ModelId \<Rightarrow> SessionLease \<Rightarrow> Actor \<Rightarrow> Actor" where
  "opened w session provider model lease a =
     (upd_state (\<lambda>st. st\<lparr>st_session := Some session, st_provider := Some provider,
        st_model := Some model, st_budget := BudgetStatus_default\<lparr>
          budget_max_provider_turns := limit_provider_turns (limits w),
          budget_max_tool_calls := limit_tool_calls (limits w)\<rparr>\<rparr>) a)\<lparr>a_lease := Some lease, a_recovery := Clean\<rparr>"

definition announce_session :: "World \<Rightarrow> SessionId \<Rightarrow> ProviderId \<Rightarrow> ModelId \<Rightarrow> PolicyMode \<Rightarrow> Actor \<Rightarrow> Actor" where
  "announce_session w session provider model policy =
     persist_or w (MjolnrEvent.SessionCreated session provider model) (note_store_failure w)
       (\<lambda>_ a. if policy \<noteq> PolicyMode_default
          then persist_or w (MjolnrEvent.PolicyChanged session policy) (note_store_failure w)
            (\<lambda>_. refresh_session_list w) a
          else refresh_session_list w a)"

definition take_identity :: "World \<Rightarrow> Actor \<Rightarrow> SessionId \<times> Actor" where
  "take_identity w a = (case a_child_link a of
      Some link \<Rightarrow> (link_session link, a)
    | None \<Rightarrow> (SessionId (fresh_at w (a_ticks a)), next_tick a))"

definition create_session :: "World \<Rightarrow> ProviderId \<Rightarrow> ModelId \<Rightarrow> Actor \<Rightarrow> Actor" where
  "create_session w provider model a =
     (if st_session (a_state a) \<noteq> None \<or> a_lease a \<noteq> None
      then refuse w ''leave the open session before creating another one'' a
      else if st_store_failure (a_state a) \<noteq> None then a
      else case st_workspace_root (a_state a) of
        None \<Rightarrow> refuse w ''open a project before creating a session'' a
      | Some root \<Rightarrow>
          (let policy = carried_forward (st_policy (a_state a));
               a = upd_state (\<lambda>st. (reset_keeping_project st)\<lparr>st_policy := policy\<rparr>) a;
               (session, a) = take_identity w a
           in write_or_note w (\<lambda>st. Inr (store_open_project (fresh_at w (a_ticks a)) root st))
                (\<lambda>project a. write_or_note w
                   (unit_op (\<lambda>st. Inr (store_create_session (clock_at w (a_ticks a)) session project
                      (default_title (a_state a)) (map_option link_parent (a_child_link a)) st)))
                   (\<lambda>_ a. write_or_note w
                      (store_acquire_session (show_uuid_of w) (fresh_at w (a_ticks a)) session)
                      (\<lambda>lease a. announce_session w session provider model policy
                         (opened w session provider model lease a)) a) a) a))"

section \<open>Resuming a session\<close>

definition estimate_context_tokens :: "TranscriptEntry list \<Rightarrow> u64" where
  "estimate_context_tokens messages =
     (let characters = sum_list (map (\<lambda>e. char_count (message_text (entry_message e))) messages);
          tokens = (characters + 3) div 4
      in if tokens < 2 ^ 64 then of_nat tokens else - 1)"

definition resume_advice :: "instant \<Rightarrow> SessionSummary \<Rightarrow> SessionState \<Rightarrow> ResumeAdvice option" where
  "resume_advice now summary st =
     (let seconds = (now - summary_updated_at summary) div int second_ns;
          warning = (if reserve_phase (st_quota_reserve st) = QuotaReservePhase.Stopped
            then Some (QuotaStopped (reserve_resets_at (st_quota_reserve st)))
            else if seconds \<ge> 24 * 60 * 60 then Some (Stale (of_int seconds)) else None)
      in map_option (\<lambda>w. \<lparr>advice_warning = w,
           estimated_full_resume_tokens = estimate_context_tokens (st_messages st),
           advice_handoff = map_option ho_id (st_handoff st)\<rparr>) warning)"

text \<open>The stored root and the one of the checkpoint agree, and the path still names itself.\<close>

definition canonical_project :: "World \<Rightarrow> string \<Rightarrow> Actor \<Rightarrow> (string, StoreError) result \<times> Actor" where
  "canonical_project w expected a = (case canonical_root_at w (a_ticks a) expected of
      Inl detail \<Rightarrow> (Inl (StoreError.Unavailable detail), next_tick a)
    | Inr canonical \<Rightarrow>
        if canonical \<noteq> expected
        then (Inl (StoreError.Unavailable (''session project '' @ expected @ '' now resolves to ''
          @ canonical @ ''; refusing to change its workspace identity'')), next_tick a)
        else (Inr canonical, next_tick a))"

definition session_root ::
  "World \<Rightarrow> SessionSummary \<Rightarrow> string option \<Rightarrow> Actor \<Rightarrow> (string, StoreError) result \<times> Actor" where
  "session_root w summary from_checkpoint a =
     (let expected = summary_root summary in
      case from_checkpoint of
        Some root \<Rightarrow>
          if root \<noteq> expected
          then (Inl (StoreError.Decode (''checkpoint root '' @ root
            @ '' does not match session project '' @ expected)), a)
          else canonical_project w expected a
      | None \<Rightarrow> canonical_project w expected a)"

definition session_summary :: "World \<Rightarrow> SessionId \<Rightarrow> Actor \<Rightarrow> (SessionSummary, StoreError) result \<times> Actor" where
  "session_summary w session a = (case read_store w list_sessions a of
      (Inl err, a) \<Rightarrow> (Inl err, a)
    | (Inr summaries, a) \<Rightarrow>
        (ok_or (UnknownSession session) (find (\<lambda>s. summary_id s = session) summaries), a))"

text \<open>A read under the lease whose failure gives the lease back.\<close>

definition read_resuming :: "World \<Rightarrow> (Inner \<Rightarrow> 'x) \<Rightarrow> ('x \<Rightarrow> Actor \<Rightarrow> Actor) \<Rightarrow> Actor \<Rightarrow> Actor" where
  "read_resuming w f g a = (case read_store w f a of
      (Inl err, a) \<Rightarrow> resume_failed w err a
    | (Inr x, a) \<Rightarrow> g x a)"

definition has_ended :: "World \<Rightarrow> SessionId \<Rightarrow> string" where
  "has_ended w session = ''session '' @ show_uuid_of w (session_uuid session)
     @ '' has ended and cannot accept new work''"

definition minted :: "World \<Rightarrow> nat \<Rightarrow> StoredEvent \<Rightarrow> uuid \<times> instant" where
  "minted w n stored = (let k = n + unat (stored_sequence stored) in (fresh_at w k, clock_at w k))"

text \<open>The recovered session becomes the open one.\<close>

definition install_session :: "World \<Rightarrow> SessionId \<Rightarrow> SessionSummary \<Rightarrow> string \<Rightarrow> Recovered \<Rightarrow> Actor \<Rightarrow> Actor" where
  "install_session w session summary root recovered a =
     (let st = (recovered_state recovered)\<lparr>st_session := Some session, st_workspace_root := Some root\<rparr>;
          st = st\<lparr>st_budget := (st_budget st)\<lparr>
            budget_max_provider_turns := limit_provider_turns (limits w),
            budget_max_tool_calls := limit_tool_calls (limits w)\<rparr>\<rparr>;
          st = st\<lparr>st_resume_advice := resume_advice (clock_at w (a_ticks a)) summary st\<rparr>;
          a = (next_tick a)\<lparr>a_state := st, a_recovery := recovered_recovery recovered\<rparr>
      in refresh_session_list w (case recovered_recovery recovered of
           Required work \<Rightarrow> persist_or w (MjolnrEvent.RecoveryRequired session work)
             (note_store_failure w) (\<lambda>_ a. a) a
         | Clean \<Rightarrow> a))"

definition resume_projected ::
  "World \<Rightarrow> SessionId \<Rightarrow> SessionSummary \<Rightarrow> (Recovered, ToolError) result \<Rightarrow> Actor \<Rightarrow> Actor" where
  "resume_projected w session summary projected a = (case projected of
      Inl err \<Rightarrow> resume_failed w (StoreError.Decode (ToolError_display err)) a
    | Inr recovered \<Rightarrow> read_resuming w (store_branch_events session)
        (\<lambda>events a. case rebuild_durable_records_from events (recovered_state recovered) of
            Inl refusal \<Rightarrow> resume_failed w (StoreError.Decode (replay_text w refusal)) a
          | Inr st \<Rightarrow> (case session_root w summary (st_workspace_root st) a of
              (Inl err, a) \<Rightarrow> resume_failed w err a
            | (Inr root, a) \<Rightarrow>
                if recovered_status recovered = Ended
                then resume_failed w (StoreError.Unavailable (has_ended w session)) a
                else install_session w session summary root (recovered\<lparr>recovered_state := st\<rparr>) a)) a)"

text \<open>What a checkpoint does not cover is replayed on it; one of another branch is dropped.\<close>

definition resume_leased :: "World \<Rightarrow> SessionId \<Rightarrow> SessionSummary \<Rightarrow> Actor \<Rightarrow> Actor" where
  "resume_leased w session summary =
     read_resuming w (store_latest_checkpoint session) (\<lambda>cp.
     read_resuming w (store_branch_events_from session
         (case cp of None \<Rightarrow> 0 | Some c \<Rightarrow> checkpoint_sequence c)) (\<lambda>tail a. case tail of
       Some resume \<Rightarrow> resume_projected w session summary
         (project (show_uuid_of w) (minted w (a_ticks a)) (map_option stored_checkpoint cp)
           (covered_message_sequences resume) (resume_events resume)) a
     | None \<Rightarrow> read_resuming w (store_branch_events session) (\<lambda>events a.
         resume_projected w session summary
           (project (show_uuid_of w) (minted w (a_ticks a)) None [] events) a) a))"

definition resume_session :: "World \<Rightarrow> SessionId \<Rightarrow> Actor \<Rightarrow> Actor" where
  "resume_session w session a =
     (if a_run a \<noteq> None \<or> st_session (a_state a) \<noteq> None \<or> a_lease a \<noteq> None
      then refuse w ''leave the open session before resuming another one'' a
      else case session_summary w session a of
        (Inl err, a) \<Rightarrow> note_store_failure w err a
      | (Inr summary, a) \<Rightarrow>
          if summary_status summary = Ended then refuse w (has_ended w session) a
          else write_or_note w (store_acquire_session (show_uuid_of w) (fresh_at w (a_ticks a)) session)
            (\<lambda>lease a. resume_leased w session summary (a\<lparr>a_lease := Some lease\<rparr>)) a)"

definition resume_compact ::
  "World \<Rightarrow> SessionId \<Rightarrow> ProviderId option \<Rightarrow> ModelId option \<Rightarrow> Actor \<Rightarrow> Actor" where
  "resume_compact w session provider model a0 =
     (let a = resume_session w session a0;
          compacted = (\<lambda>a. case compact w 2 a of
              (False, a) \<Rightarrow> refuse w ''compact resume requires a durable handoff; run /handoff first'' a
            | (True, a) \<Rightarrow> upd_state (\<lambda>st. st\<lparr>st_resume_advice := None\<rparr>) a)
      in if st_session (a_state a) \<noteq> Some session then a
         else case (provider, model) of
           (Some provider, Some model) \<Rightarrow> (case select_model w provider model a of
               (False, a) \<Rightarrow> a | (True, a) \<Rightarrow> compacted a)
         | (None, None) \<Rightarrow> compacted a
         | _ \<Rightarrow> refuse w ''compact cross-model resume requires both provider and model'' a)"

section \<open>Leaving a session\<close>

definition leave_session :: "World \<Rightarrow> Actor \<Rightarrow> Actor" where
  "leave_session w a =
     refresh_session_list w (upd_state reset_keeping_project (a\<lparr>a_recovery := Clean\<rparr>))"

definition end_session :: "World \<Rightarrow> Actor \<Rightarrow> Actor" where
  "end_session w a =
     (if a_run a \<noteq> None then a
      else case st_session (a_state a) of
        None \<Rightarrow> a
      | Some session \<Rightarrow> persist_or w (MjolnrEvent.SessionEnded session) (note_store_failure w)
          (\<lambda>_ a. write_or_note w (unit_op (store_end_session (clock_at w (a_ticks a)) session))
             (\<lambda>_ a. case actor_checkpoint w Ended a of
                (Inl err, a) \<Rightarrow> snd (release_lease w (note_store_failure w err a))
              | (Inr _, a) \<Rightarrow> (case release_lease w a of
                  (Inl err, a) \<Rightarrow> note_store_failure w err a
                | (Inr _, a) \<Rightarrow> leave_session w a)) a) a)"

definition release_session :: "World \<Rightarrow> Actor \<Rightarrow> Actor" where
  "release_session w a =
     (if a_run a \<noteq> None then refuse w ''cancel the active run before leaving this session'' a
      else if st_session (a_state a) = None then a
      else if is_required (a_recovery a)
      then refuse w ''resolve the pending recovery decision before leaving this session'' a
      else case actor_checkpoint w Active a of
        (Inl err, a) \<Rightarrow> note_store_failure w err a
      | (Inr _, a) \<Rightarrow> (case release_lease w a of
          (Inl err, a) \<Rightarrow> note_store_failure w err a
        | (Inr _, a) \<Rightarrow> leave_session w a))"

definition reclaim_session :: "World \<Rightarrow> SessionId \<Rightarrow> Actor \<Rightarrow> Actor" where
  "reclaim_session w session a =
     (if a_run a \<noteq> None \<or> st_session (a_state a) \<noteq> None
      then refuse w ''leave the open session before reclaiming another one'' a
      else write_or_note w (unit_op (\<lambda>st. Inr (store_break_lease session st)))
        (\<lambda>_ a. refresh_session_list w (upd_state (\<lambda>st. st\<lparr>st_store_failure := None\<rparr>) a)) a)"

definition resolve_recovery :: "World \<Rightarrow> RecoveryDecision \<Rightarrow> Actor \<Rightarrow> Actor" where
  "resolve_recovery w chosen a = (case st_session (a_state a) of
      None \<Rightarrow> a
    | Some session \<Rightarrow>
        if \<not> is_required (a_recovery a) then a
        else persist_or w (MjolnrEvent.RecoveryResolved session chosen) (note_store_failure w)
          (\<lambda>_ a. let a = a\<lparr>a_recovery := Clean\<rparr> in
             if chosen = EndSession then end_session w a else a) a)"

section \<open>Branches\<close>

text \<open>The branch that is left is summarised first; a store that cannot answer is ignored.\<close>

definition summarise_current_branch :: "World \<Rightarrow> SessionId \<Rightarrow> Actor \<Rightarrow> BranchSummary option \<times> Actor" where
  "summarise_current_branch w session a =
     (case List.map_filter entry_sequence (rev (st_messages (a_state a))) of
        [] \<Rightarrow> (None, a)
      | leaf # _ \<Rightarrow> (case read_store w (store_branch_summary session leaf) a of
          (Inl _, a) \<Rightarrow> (None, a)
        | (Inr summary, a) \<Rightarrow> (if BranchSummary_is_empty summary then None else Some summary, a)))"

definition move_leaf ::
  "World \<Rightarrow> SessionId \<Rightarrow> u64 option \<Rightarrow> (SessionState \<Rightarrow> SessionState) \<Rightarrow> Actor \<Rightarrow> Actor" where
  "move_leaf w session leaf f a0 =
     (let (left, a) = summarise_current_branch w session a0
      in write_or_note w (unit_op (\<lambda>st. Inr (store_set_active_leaf session leaf st)))
           (\<lambda>_ a. case read_store w (store_branch_events session) a of
              (Inl err, a) \<Rightarrow> note_store_failure w err a
            | (Inr events, a) \<Rightarrow> (case rebuild_messages_from events (a_state a) of
                Inl refusal \<Rightarrow> note_store_failure w (StoreError.Decode (replay_text w refusal)) a
              | Inr st \<Rightarrow> next_tick (a\<lparr>a_state := f st\<rparr>))) a)"

definition rewind_to :: "World \<Rightarrow> u64 \<Rightarrow> Actor \<Rightarrow> Actor" where
  "rewind_to w sequence a = (case st_session (a_state a) of
      None \<Rightarrow> a
    | Some session \<Rightarrow>
        if a_run a \<noteq> None then a
        else (let leaf = (if sequence = 0 then None else Some (sequence - 1))
              in move_leaf w session leaf (\<lambda>st. st\<lparr>st_branch_parent := Some leaf\<rparr>) a))"

definition follow_branch :: "World \<Rightarrow> u64 \<Rightarrow> Actor \<Rightarrow> Actor" where
  "follow_branch w sequence a = (case st_session (a_state a) of
      None \<Rightarrow> a
    | Some session \<Rightarrow>
        if a_run a \<noteq> None then a
        else move_leaf w session (Some sequence) (\<lambda>st. st\<lparr>st_branch_parent := None\<rparr>) a)"

section \<open>Forking\<close>

text \<open>The messages that cross: those before the cut, and those without a place in the log.\<close>

definition carried_messages :: "u64 option \<Rightarrow> SessionState \<Rightarrow> CanonicalMessage list" where
  "carried_messages before st = map entry_message (filter (\<lambda>e.
     case (before, entry_sequence e) of
       (Some point, Some sequence) \<Rightarrow> sequence < point
     | _ \<Rightarrow> True) (st_messages st))"

primrec append_messages :: "World \<Rightarrow> SessionId \<Rightarrow> CanonicalMessage list \<Rightarrow> (Actor \<Rightarrow> Actor) \<Rightarrow> Actor \<Rightarrow> Actor" where
  "append_messages w session [] g a = g a"
| "append_messages w session (m # ms) g a =
     persist_or w (MjolnrEvent.MessageAppended session m) (note_store_failure w)
       (\<lambda>_. append_messages w session ms g) a"

definition carry_into ::
  "World \<Rightarrow> SessionId \<Rightarrow> (string \<times> string) list \<Rightarrow> SessionState \<Rightarrow> Actor \<Rightarrow> Actor" where
  "carry_into w session read_set before a = (case read_store w (store_branch_events session) a of
      (Inl err, a) \<Rightarrow> note_store_failure w err a
    | (Inr events, a) \<Rightarrow> (case rebuild_messages_from events (a_state a) of
        Inl refusal \<Rightarrow> note_store_failure w (StoreError.Decode (replay_text w refusal)) a
      | Inr st \<Rightarrow> (case ReadSet_restore read_set of
          Inl err \<Rightarrow> refuse w (ToolError_display err) (a\<lparr>a_state := st\<rparr>)
        | Inr rs \<Rightarrow> a\<lparr>a_state := st\<lparr>st_read_set := rs,
            st_activated_skills := st_activated_skills before,
            st_workspace_trusted := st_workspace_trusted before,
            st_handoff := st_handoff before\<rparr>\<rparr>)))"

definition fork_session :: "World \<Rightarrow> u64 option \<Rightarrow> Actor \<Rightarrow> Actor" where
  "fork_session w before a =
     (case (st_session (a_state a), st_provider (a_state a), st_model (a_state a),
            st_workspace_root (a_state a)) of
        (Some _, Some provider, Some model, Some root) \<Rightarrow>
          if a_run a \<noteq> None \<or> blocked w a \<noteq> None then a
          else (case ReadSet_entries (st_read_set (a_state a)) of
            Inl err \<Rightarrow> refuse w (ToolError_display err) a
          | Inr read_set \<Rightarrow>
              (let old = a_state a in
               case release_lease w a of
                 (Inl err, a) \<Rightarrow> note_store_failure w err a
               | (Inr _, a) \<Rightarrow>
                  (let a = create_session w provider model
                         (upd_state (\<lambda>st. (reset_keeping_project st)\<lparr>st_workspace_root := Some root,
                            st_policy := st_policy old\<rparr>) a)
                   in case st_session (a_state a) of
                        None \<Rightarrow> a
                      | Some session \<Rightarrow> append_messages w session (carried_messages before old)
                          (carry_into w session read_set old) a)))
      | _ \<Rightarrow> a)"

section \<open>The choice of a resume\<close>

definition seed_from_handoff :: "World \<Rightarrow> SessionId \<Rightarrow> HandoffCheckpoint \<Rightarrow> Actor \<Rightarrow> Actor" where
  "seed_from_handoff w session handoff a =
     (let seed = message_system (fresh_at w (a_ticks a)) (clock_at w (a_ticks a))
            (compact_seed (show_uuid_of w) (show_instant_of w) handoff)
      in persist_or w (MjolnrEvent.MessageAppended session seed) (note_store_failure w)
           (\<lambda>stored a. persist_or w (MjolnrEvent.HandoffCreated session handoff) (note_store_failure w)
              (\<lambda>_ a. upd_state (\<lambda>st. st\<lparr>st_resume_advice := None\<rparr>)
                 (snd (compact w 0 (upd_state (\<lambda>st. st\<lparr>st_handoff := Some handoff\<rparr>) a))))
              (upd_state (push_message (Some (stored_sequence stored)) seed) a))
           (next_tick a))"

definition new_session_from_handoff :: "World \<Rightarrow> Actor \<Rightarrow> Actor" where
  "new_session_from_handoff w a = (case (st_handoff (a_state a), st_workspace_root (a_state a)) of
      (Some handoff, Some root) \<Rightarrow>
        (let provider = (case st_provider (a_state a) of None \<Rightarrow> ho_provider handoff | Some p \<Rightarrow> p);
             model = (case st_model (a_state a) of None \<Rightarrow> ho_model handoff | Some m \<Rightarrow> m)
         in case release_lease w a of
              (Inl err, a) \<Rightarrow> note_store_failure w err a
            | (Inr _, a) \<Rightarrow>
               (let a = create_session w provider model
                      (upd_state (\<lambda>st. (reset_keeping_project st)\<lparr>st_workspace_root := Some root\<rparr>) a)
                in case st_session (a_state a) of
                     None \<Rightarrow> a
                   | Some session \<Rightarrow> seed_from_handoff w session handoff a))
    | _ \<Rightarrow> a)"

definition resolve_resume :: "World \<Rightarrow> ResumeChoice \<Rightarrow> Actor \<Rightarrow> Actor" where
  "resolve_resume w choice a =
     (if a_run a \<noteq> None \<or> st_resume_advice (a_state a) = None then a
      else case choice of
        Compact \<Rightarrow> (case compact w COMPACT_RECENT_TURNS a of
            (True, a) \<Rightarrow> upd_state (\<lambda>st. st\<lparr>st_resume_advice := None\<rparr>) a
          | (False, a) \<Rightarrow> a)
      | Full \<Rightarrow> upd_state (\<lambda>st. (disable_compact_context st)\<lparr>st_resume_advice := None\<rparr>) a
      | NewFromHandoff \<Rightarrow> new_session_from_handoff w a)"

definition load_extension :: "World \<Rightarrow> string \<Rightarrow> Actor \<Rightarrow> Actor" where
  "load_extension w name a =
     (if a_run a \<noteq> None then a
      else case st_session (a_state a) of
        None \<Rightarrow> a
      | Some session \<Rightarrow> (case register_extension w session name ExtensionLoadAuthority.Command a of
          (Inl err, a) \<Rightarrow> note_store_failure w err a
        | (Inr _, a) \<Rightarrow> a))"

end
