(* ===== verification/Run_Reactions.thy ===== *)
theory Run_Reactions
  imports Actor_Lifecycle
begin

text \<open>
  What the handlers of a run's mail leave the actor in: the run goes on as the log says, with
  what was started for it, or the actor is idle.
\<close>

section \<open>Driven runs\<close>

definition driven :: "RunId \<Rightarrow> SessionId \<Rightarrow> Actor \<Rightarrow> Actor \<Rightarrow> bool" where
  "driven run session a b \<longleftrightarrow> (\<exists>r. run_id r = run \<and> run_session r = session
     \<and> awaiting_approval r = None \<and> outcome r a b)"

definition free :: "RunId \<Rightarrow> SessionId \<Rightarrow> PendingWork option \<Rightarrow> Actor \<Rightarrow> bool" where
  "free run session work a \<longleftrightarrow> (\<exists>r. run_id r = run \<and> run_session r = session
     \<and> awaiting_approval r = None \<and> running r work a)"

lemma freeE:
  assumes "free run session work a"
  obtains r where "run_id r = run" "run_session r = session" "awaiting_approval r = None" "running r work a"
  using assms by (auto simp: free_def)

lemma free_calm: "free run session work a \<Longrightarrow> calm a b \<Longrightarrow> free run session work b"
  by (auto simp: free_def intro: running_calm)

lemma free_upd_state:
  "free run session work a \<Longrightarrow> st_session (f (a_state a)) = st_session (a_state a) \<Longrightarrow>
     free run session work (upd_state f a)"
  by (auto simp: free_def intro: running_upd_state)

lemma free_active:
  "free run session work a \<Longrightarrow> \<exists>r. active_run run a = Some r \<and> run_session r = session
     \<and> run_id r = run \<and> awaiting_approval r = None"
  by (auto simp: free_def same_run_def dest!: running_active)

text \<open>A change of the run that leaves its identity and answers no approval.\<close>

lemma free_upd_run:
  assumes "free run session work a"
    and "\<And>r. run_id (f r) = run_id r \<and> run_session (f r) = run_session r
               \<and> (awaiting_approval r = None \<longrightarrow> awaiting_approval (f r) = None)"
  shows "free run session work (upd_run run f a)"
proof -
  obtain r r' where r: "run_id r = run" "run_session r = session" "awaiting_approval r = None"
    "same_run r r'" "in_run r' work a"
    using assms(1) by (auto simp: free_def running_def)
  then have "in_run (f r') work (upd_run run f a)"
    using assms(2) [of r'] by (auto simp: in_run_def upd_run_def same_run_def)
  with r assms(2) [of r'] show ?thesis
    by (auto simp: free_def same_run_def intro!: exI [of _ "f r'"] running_in_run)
qed

lemma free_idle:
  assumes "free run session work a"
  shows "idle (fail_run w run code detail a)" "idle (finish_run w run reason a)"
    "idle (exhaust_budget w run a)" "idle (halt_for_store w run err a)"
  using assms running_idle_fail running_idle_finish running_idle_exhaust running_idle_halt
  by (auto simp: free_def)

lemma driven_stopped: "stopped a b \<Longrightarrow> driven run session a b"
  by (auto simp: driven_def outcome_def
      intro!: exI [of _ "new_run run session p m i t" for p m i t] simp: new_run_def)

lemma driven_idle: "idle b \<Longrightarrow> starts b = starts a \<Longrightarrow> driven run session a b"
  by (simp add: driven_stopped stopped_def)

lemma driven_starts: "starts b = starts a \<Longrightarrow> driven run session b c \<Longrightarrow> driven run session a c"
  by (auto simp: driven_def intro: outcome_starts)

lemma driven_free: "free run session None b \<Longrightarrow> starts b = starts a \<Longrightarrow> driven run session a b"
  by (auto simp: free_def driven_def outcome_def)

lemma driven_begin: "free run session None a \<Longrightarrow> driven run session a (begin_provider_turn w run a)"
  by (auto simp: free_def driven_def intro: begin_provider_turn_driven)

lemma driven_tools: "free run session None a \<Longrightarrow> driven run session a (drive_tools w run a)"
proof -
  assume "free run session None a"
  then obtain r where r: "run_id r = run" "run_session r = session" "awaiting_approval r = None"
    "running r None a" by (rule freeE)
  obtain q where "outcome (r\<lparr>pending_tools := q\<rparr>) a (drive_tools w run a)"
    using drive_tools_outcome [OF r(4), of w] r(1) by auto
  with r show ?thesis by (auto simp: driven_def intro!: exI [of _ "r\<lparr>pending_tools := q\<rparr>"])
qed

lemma drive_tools_idle: "idle a \<Longrightarrow> drive_tools w run a = a"
  by (simp add: drive_tools.simps [of w run a] active_run_def idle_def)

lemma driven_settled:
  assumes "settled r a b" "run_id r = run" "run_session r = session" "awaiting_approval r = None"
  shows "driven run session a (drive_tools w run b)"
proof -
  have s: "starts b = starts a" using assms(1) by (simp add: settled_def)
  show ?thesis
  proof (cases "idle b")
    case True
    with s show ?thesis by (simp add: drive_tools_idle driven_idle)
  next
    case False
    with assms have "free run session None b" by (auto simp: settled_def free_def)
    from driven_starts [OF s driven_tools [OF this]] show ?thesis .
  qed
qed

text \<open>A write of the run itself, with the run halted when it fails.\<close>

lemma free_persisted:
  assumes "free run session work a" "quiet e"
    and "\<And>err b. idle (halt_for_store w run err b) \<Longrightarrow> starts b = starts a \<Longrightarrow> P (failed err b)"
    and "\<And>stored b. free run session work b \<Longrightarrow> starts b = starts a \<Longrightarrow> P (persisted stored b)"
  shows "P (persist_or w e failed persisted a)"
proof (rule persist_or_cases)
  fix err b
  assume "calm a b \<or> wrote e a b"
  then have c: "calm a b" using wrote_quiet [OF _ assms(2)] by blast
  show "P (failed err b)"
    using assms(3) free_idle(4) [OF free_calm [OF assms(1) c]] starts_calm [OF c] by blast
next
  fix stored b
  assume "wrote e a b"
  then have c: "calm a b" using wrote_quiet [OF _ assms(2)] by blast
  show "P (persisted stored b)"
    using assms(4) free_calm [OF assms(1) c] starts_calm [OF c] by blast
qed

section \<open>The events of a stream\<close>

text \<open>An event of a stream leaves its run to go on, or ends it, and starts nothing.\<close>

definition undisturbed :: "RunId \<Rightarrow> SessionId \<Rightarrow> PendingWork option \<Rightarrow> Actor \<Rightarrow> Actor \<Rightarrow> bool" where
  "undisturbed run session work a b \<longleftrightarrow> starts b = starts a \<and> (free run session work b \<or> idle b)"

lemma observe_quota_undisturbed:
  assumes "free run session work a"
  shows "undisturbed run session work a (observe_quota w run snapshot a)"
proof (cases "worst_window (windows snapshot)")
  case None
  with assms show ?thesis by (simp add: observe_quota_def undisturbed_def)
next
  case (Some worst)
  define reserve where "reserve = reserve_of w (ProviderReported (window_label worst))
    (window_used_fraction worst) (window_resets_at worst)"
  define b where "b = upd_state (\<lambda>st. st\<lparr>st_quota_reserve := reserve, st_quota := Some snapshot\<rparr>) a"
  have b: "free run session work b" "starts b = starts a"
    using assms by (auto simp: b_def intro: free_upd_state)
  have "undisturbed run session work a (persist_or w (MjolnrEvent.QuotaBoundaryReached session run reserve)
      (halt_for_store w run)
      (\<lambda>_. upd_run run (\<lambda>r. case reserve_phase reserve of
         Draining \<Rightarrow> if run_intent r = Normal then r\<lparr>pending_drain := Some reserve\<rparr> else r
       | QuotaReservePhase.Stopped \<Rightarrow> r\<lparr>hard_stop := Some reserve\<rparr>
       | Monitoring \<Rightarrow> r)) b)"
    by (rule free_persisted [OF b(1)])
      (auto simp: undisturbed_def b(2) intro!: free_upd_run split: QuotaReservePhase.split)
  moreover obtain r where "in_run r work b" "run_session r = session"
    using b(1) by (auto simp: free_def running_def same_run_def)
  ultimately show ?thesis
    using b by (simp add: observe_quota_def Some Let_def undisturbed_def in_run_def
        flip: reserve_def b_def)
qed

lemma free_accumulator: "free run session work a \<Longrightarrow> free run session work (upd_accumulator run f a)"
  by (simp add: upd_accumulator_def free_upd_run)

lemma starts_upd_accumulator [simp]: "starts (upd_accumulator run f a) = starts a"
  by (simp add: upd_accumulator_def)

lemma starts_broadcast [simp]: "starts (broadcast e a) = starts a"
  by (simp add: broadcast_def)

lemma free_broadcast: "free run session work a \<Longrightarrow> free run session work (broadcast e a)"
  by (auto simp: broadcast_def intro: free_calm calm_intros)

lemma provider_event_undisturbed:
  assumes "free run session work a"
  shows "undisturbed run session work a (handle_provider_event w run e a)"
proof -
  obtain r where r: "active_run run a = Some r" "run_session r = session"
    using free_active [OF assms] by blast
  have quota: "undisturbed run session work a (observe_quota w run snapshot (broadcast e' a))" for snapshot e'
    using observe_quota_undisturbed [OF free_broadcast [OF assms, of e'], of w snapshot]
    by (simp add: undisturbed_def broadcast_def)
  have usage: "undisturbed run session work a
      (persist_or w (MjolnrEvent.UsageReported session run u) (halt_for_store w run) (\<lambda>_. upd_state f)
        (upd_accumulator run g a))"
    if "\<And>st. st_session (f st) = st_session st" for u f g
    by (rule free_persisted [OF free_accumulator [OF assms]])
      (auto simp: undisturbed_def that intro: free_upd_state)
  show ?thesis
    unfolding handle_provider_event_def r option.case Let_def
    using assms quota usage
    by (auto simp: undisturbed_def free_accumulator free_broadcast
        split: ProviderEvent.split)
qed

section \<open>The end of a provider turn\<close>

lemma record_answer_free:
  assumes "free run session None a" "record_answer w run session answering answer a = (ok, b)"
  shows "starts b = starts a \<and> (if ok then free run session None b else idle b)"
proof -
  define P where "P = (\<lambda>(ok, b). starts b = starts a \<and> (if ok then free run session None b else idle b))"
  have "P (record_answer w run session answering answer a)"
  proof (cases answer)
    case None
    with assms(1) show ?thesis by (simp add: record_answer_def P_def)
  next
    case (Some message)
    have answered: "P (persist_or w e (\<lambda>err a. (False, halt_for_store w run err a))
        (\<lambda>_ a. (True, upd_state (\<lambda>st. st\<lparr>st_review_threads := f (st_review_threads st)\<rparr>) a)) b)"
      if "free run session None b" "starts b = starts a" "quiet e" for e b and f :: "ReviewThreads \<Rightarrow> ReviewThreads"
      by (rule free_persisted [OF that(1,3)]) (auto simp: P_def that(2) intro: free_upd_state)
    show ?thesis
      unfolding record_answer_def Some option.case
    proof (rule free_persisted [OF assms(1)])
      fix stored b
      assume b: "free run session None b" "starts b = starts a"
      let ?b = "upd_state (push_message (Some (stored_sequence stored)) message) b"
      have "free run session None ?b" "starts ?b = starts a"
        using b by (auto intro: free_upd_state simp: push_message_def)
      with answered show "P (let a = ?b;
             answered = MjolnrEvent.ReviewRequestAnswered session answering (message_id message)
         in if answering = [] then (True, a)
            else persist_or w answered (\<lambda>err a. (False, halt_for_store w run err a))
              (\<lambda>_ a. (True, upd_state (\<lambda>st. st\<lparr>st_review_threads :=
                 review_apply (show_uuid_of w) answered (st_review_threads st)\<rparr>) a)) a)"
        by (simp add: Let_def P_def)
    qed (auto simp: P_def)
  qed
  with assms(2) show ?thesis by (simp add: P_def)
qed

lemma calm_note_route_success [calm_intros]: "calm a b \<Longrightarrow> calm a (note_route_provider_success w b)"
  unfolding note_route_provider_success_def by (auto split: option.split intro!: calm_intros)

lemma note_route_failure_free:
  assumes "free run session None a" "note_route_provider_failure w run code a = (t, b)"
  shows "starts b = starts a \<and> (if t = RouteSpent then idle b else free run session None b)"
proof (cases "st_route (a_state a)")
  case None
  with assms show ?thesis by (simp add: note_route_provider_failure_def)
next
  case (Some rt)
  define c where "c = (case st_provider (a_state a) of None \<Rightarrow> a
    | Some provider \<Rightarrow> snd (with_breaker w provider on_failure a))"
  have "calm a c" by (auto simp: c_def split: option.split intro!: calm_intros)
  then have c: "free run session None c" "starts c = starts a"
    using free_calm [OF assms(1)] starts_calm by auto
  have tb: "try_advance_route w run (ProviderFailure code) c = (t, b)"
    using assms(2) Some by (simp add: note_route_provider_failure_def c_def)
  obtain r where r: "run_id r = run" "run_session r = session" "awaiting_approval r = None" "running r None c"
    using c(1) by (rule freeE)
  have "attempted r None c (t, b)" "starts b = starts c"
    using try_advance_running [OF r(4), of w "ProviderFailure code"] starts_try_advance [of w run] r(1) tb
    by (metis snd_conv)+
  with r c show ?thesis by (auto simp: attempted_def free_def split: RouteAttemptOutcome.splits)
qed

lemma route_outcome_driven:
  assumes "free run session None a"
  shows "driven run session a (route_provider_outcome w run result calls state a)"
proof (cases result)
  case (Completed reason)
  define b where "b = note_route_provider_success w a"
  have ab: "calm a b" by (auto simp: b_def intro: calm_intros)
  then have b: "free run session None b" "starts b = starts a"
    using free_calm [OF assms] starts_calm by auto
  have tools: "driven run session a (drive_tools w run (upd_run run (\<lambda>r. r\<lparr>pending_tools := f r\<rparr>) b))" for f
  proof -
    have "free run session None (upd_run run (\<lambda>r. r\<lparr>pending_tools := f r\<rparr>) b)"
      using b(1) by (rule free_upd_run) simp
    from driven_starts [OF _ driven_tools [OF this]] b(2) show ?thesis by simp
  qed
  have "driven run session a (begin_provider_turn w run b)"
    "driven run session a (fail_run w run code detail b)" "driven run session a (finish_run w run reason b)"
    for code detail
    using driven_starts [OF b(2) driven_begin [OF b(1)]] b(2) free_idle [OF b(1)] by (auto intro: driven_idle)
  with tools show ?thesis
    by (simp add: route_provider_outcome_def Completed Let_def flip: b_def)
next
  case (Errored err)
  obtain t b where t: "note_route_provider_failure w run (ProviderError_reason_code err) a = (t, b)" by force
  note tb = note_route_failure_free [OF assms t]
  show ?thesis
  proof (cases "err = ProviderError.Cancelled")
    case True
    with assms show ?thesis
      by (simp add: route_provider_outcome_def Errored driven_idle free_idle)
  next
    case False
    with tb t show ?thesis
      by (cases t) (auto simp: route_provider_outcome_def Errored
          intro!: driven_starts [OF conjunct1 [OF tb]] driven_idle driven_begin free_idle)
  qed
next
  case (Lost detail)
  with assms show ?thesis by (simp add: route_provider_outcome_def driven_idle free_idle)
qed

lemma stop_for_quota_driven:
  assumes "free run session None a" "Option.bind (active_run run a) hard_stop \<noteq> None"
  shows "driven run session a (stop_for_quota w run a)"
proof -
  obtain r where r: "run_id r = run" "run_session r = session" "awaiting_approval r = None" "running r None a"
    using assms(1) by (rule freeE)
  obtain g b where g: "stop_for_quota_step w run a = (g, b)" by force
  have "gated r None a (g, b)" using stop_for_quota_gated [OF r(4)] r(1) assms(2) g by metis
  moreover have "free run session None b" if "running r None b"
    using r that by (auto simp: free_def)
  ultimately show ?thesis
    using g driven_starts [of b a run session "begin_provider_turn w run b"] driven_begin [of run session b w]
    by (cases g) (auto simp: stop_for_quota_def stopped_def stalled_def intro: driven_idle driven_free)
qed

lemma turn_ended_driven:
  assumes "free run session None a"
  shows "driven run session a (handle_provider_turn_ended w run result a)"
proof -
  obtain r where r: "active_run run a = Some r" "run_session r = session"
    using free_active [OF assms] by blast
  let ?a = "next_tick (upd_run run (\<lambda>r. r\<lparr>accumulator := StreamAccumulator_default,
    pending_review_threads := []\<rparr>) a)"
  have a: "free run session None ?a"
    by (rule free_calm [OF _ calm_next_tick [OF calm_refl]], rule free_upd_run [OF assms]) simp
  define answer where "answer = finish (fresh_at w (a_ticks a)) (clock_at w (a_ticks a)) (accumulator r)
    (run_provider r) (run_model r)"
  obtain ok b where b: "record_answer w run session (pending_review_threads r) answer ?a = (ok, b)" by force
  note ab = record_answer_free [OF a b]
  show ?thesis
  proof (cases ok)
    case False
    with ab b r show ?thesis
      by (simp add: handle_provider_turn_ended_def Let_def driven_idle flip: answer_def)
  next
    case True
    with ab have fb: "free run session None b" "starts b = starts a" by auto
    obtain r' where r': "active_run run b = Some r'" using free_active [OF fb(1)] by blast
    have "driven run session b (stop_for_quota w run b)" if "hard_stop r' \<noteq> None"
      using stop_for_quota_driven [OF fb(1)] r' that by simp
    with route_outcome_driven [OF fb(1)] r r' b True show ?thesis
      by (auto simp: handle_provider_turn_ended_def Let_def simp flip: answer_def
          intro!: driven_starts [OF fb(2)] split: RunIntent.split bool.split)
  qed
qed

section \<open>The end of a tool\<close>

lemma recorded_driven:
  assumes "records r a p" "run_id r = run" "run_session r = session" "awaiting_approval r = None"
  shows "driven run session a (drive_if w run p)"
proof (cases p)
  case (Pair ok b)
  with assms driven_settled [of r a b run session w] show ?thesis
    by (cases ok) (auto simp: drive_if_def stopped_def intro: driven_idle)
qed

lemma finish_run_gone: "idle a \<Longrightarrow> finish_run w run FinishReason.Stop a = a"
  by (simp add: finish_run_def or_halt_def finish_landed_def idle_def active_run_def landed_reason_def Let_def)

lemma tool_success_driven:
  assumes "free run session work a"
  shows "driven run session a (handle_tool_success w run call result a)"
proof -
  obtain r where r: "run_id r = run" "run_session r = session" "awaiting_approval r = None" "running r work a"
    using assms by (rule freeE)
  obtain ok b where b: "record_tool_result w run call (bound_result w result) a = (ok, b)" by force
  have rec: "records r a (ok, b)" using record_tool_result_records [OF r(4)] r(1) b by metis
  have finish: "driven run session a (finish_run w run FinishReason.Stop b)" if "settled r a b"
  proof (cases "idle b")
    case True
    with that show ?thesis by (auto simp: settled_def finish_run_gone intro: driven_idle)
  next
    case False
    with that r have "free run session None b" by (auto simp: settled_def free_def)
    with that show ?thesis by (auto simp: settled_def intro!: driven_idle free_idle)
  qed
  from rec finish driven_settled [of r a b run session w] r b show ?thesis
    by (cases ok) (auto simp: handle_tool_success_def Let_def stopped_def intro: driven_idle)
qed

lemma tool_ended_driven:
  assumes "free run session work a"
  shows "driven run session a (handle_tool_ended w run call result a)"
proof -
  obtain r where r: "run_id r = run" "run_session r = session" "awaiting_approval r = None" "running r work a"
    using assms by (rule freeE)
  have err: "driven run session a (drive_if w run (record_tool_error w run call e a))" for e
    using recorded_driven [OF record_tool_error_records [OF r(4), of w call e]] r by simp
  have "active_run run a \<noteq> None" using free_active [OF assms] by auto
  then show ?thesis
    using tool_success_driven [OF assms] err free_idle(2) [OF assms]
    by (auto simp: handle_tool_ended_def driven_idle split: ToolTaskOutcome.split ToolError.split)
qed

section \<open>The resolution of an approval\<close>

lemma started_driven:
  assumes "started r (Some (Started authority call tier preview)) call' a (ok, b)"
    and "call' = call" "run_id r = run" "run_session r = session" "awaiting_approval r = None"
  shows "driven run session a (if ok then b else drive_tools w run b)"
proof (cases ok)
  case True
  with assms show ?thesis
    by (auto simp: started_def driven_def outcome_def stopped_def settled_def)
next
  case False
  with assms driven_settled [of r a b run session w] show ?thesis by (auto simp: started_def)
qed

text \<open>The answer of a human moves the log from the proposal to its start or past it.\<close>

lemma approval_resolved_track:
  "chosen \<noteq> ApprovalDecision.AutoByPolicy \<Longrightarrow>
   track (MjolnrEvent.ApprovalResolved session run i chosen)
     (Some \<lparr>open_id = run, open_tool = Some (AwaitingApproval i call tier preview)\<rparr>)
   = Some \<lparr>open_id = run, open_tool = (if chosen = ApprovalDecision.Deny then None
       else Some (Started (Approval i) call tier preview))\<rparr>"
  by (cases chosen) (simp_all add: track_def tracker_resolve_approval_def)

lemma resolve_approval_driven:
  assumes "in_run r (Some (AwaitingApproval i call tier preview)) a"
    and "awaiting_approval r = Some \<lparr>pt_approval = i, pt_call = call, pt_tool = spec\<rparr>"
  shows "resolve_approval w approval chosen a = a
     \<or> driven (run_id r) (run_session r) a (resolve_approval w approval chosen a)"
proof (cases "chosen = ApprovalDecision.AutoByPolicy \<or> i \<noteq> approval")
  case True
  with assms show ?thesis by (auto simp: resolve_approval_def in_run_def)
next
  case False
  then have chosen: "chosen \<noteq> ApprovalDecision.AutoByPolicy" "approval = i" by auto
  let ?r = "r\<lparr>awaiting_approval := None\<rparr>" and ?a = "a\<lparr>a_run := Some (r\<lparr>awaiting_approval := None\<rparr>)\<rparr>"
  let ?work = "if chosen = ApprovalDecision.Deny then None else Some (Started (Approval i) call tier preview)"
  define mark where "mark = (\<lambda>b. mark_load_authority (run_id r) call ExtensionLoadAuthority.Approved
    (case (chosen, command_spec call) of
       (ApprovalDecision.ApproveExactForSession, Some c) \<Rightarrow>
         upd_state (\<lambda>st. st\<lparr>st_exact_commands := insert c (st_exact_commands st)\<rparr>) b
     | _ \<Rightarrow> b))"
  have run: "running ?r (Some (AwaitingApproval i call tier preview)) ?a" "starts ?a = starts a"
    using assms(1) by (auto simp: in_run_def intro!: running_in_run)
  have "driven (run_id r) (run_session r) a (persist_or w
      (MjolnrEvent.ApprovalResolved (run_session r) (run_id r) i chosen) (fail_store w (run_id r))
      (\<lambda>_ a. if chosen = ApprovalDecision.Deny
        then drive_if w (run_id r) (record_tool_result w (run_id r) call
          (ToolResult_refused ReasonCode.ApprovalDenied ''the user denied this exact proposal'')
          (upd_state (\<lambda>st. st\<lparr>st_pending_approval := None\<rparr>) a))
        else (case start_tool w (run_id r) call spec (mark (upd_state (\<lambda>st. st\<lparr>st_pending_approval := None\<rparr>) a)) of
            (True, a) \<Rightarrow> a | (False, a) \<Rightarrow> drive_tools w (run_id r) a)) ?a)"
  proof (rule persisted_outcome [OF run(1), where work' = ?work])
    show "track (MjolnrEvent.ApprovalResolved (run_session r) (run_id r) i chosen)
        (Some \<lparr>open_id = run_id ?r, open_tool = Some (AwaitingApproval i call tier preview)\<rparr>)
      = Some \<lparr>open_id = run_id ?r, open_tool = ?work\<rparr>"
      using approval_resolved_track [OF chosen(1)] by simp
  next
    fix err b
    assume "idle (fail_store w (run_id ?r) err b)" "starts b = starts ?a"
    then show "driven (run_id r) (run_session r) a (fail_store w (run_id r) err b)"
      using run(2) by (intro driven_idle) (simp_all add: fail_store_def)
  next
    fix stored :: StoredEvent and b
    assume b: "running ?r ?work b" "starts b = starts ?a"
    let ?b = "upd_state (\<lambda>st. st\<lparr>st_pending_approval := None\<rparr>) b"
    have rb: "running ?r ?work ?b" "starts ?b = starts a"
      using b run(2) by (auto intro: running_upd_state)
    have deny: "driven (run_id r) (run_session r) a
        (drive_if w (run_id r) (record_tool_result w (run_id r) call result ?b))" for result
      using driven_starts [OF rb(2) recorded_driven [OF record_tool_result_records [OF rb(1)], of "run_id r"]] by simp
    have rm: "running ?r ?work (mark ?b)" "starts (mark ?b) = starts a"
      using mark_load_authority_running [of ?r ?work] rb running_upd_state [OF rb(1)]
      by (auto simp: mark_def split: option.split ApprovalDecision.split)
    obtain ok c where c: "start_tool w (run_id r) call spec (mark ?b) = (ok, c)" by force
    have "driven (run_id r) (run_session r) a (if ok then c else drive_tools w (run_id r) c)"
      if "chosen \<noteq> ApprovalDecision.Deny"
      using driven_starts [OF rm(2) started_driven [OF _ refl, of ?r "Approval i" call tier preview]]
        start_tool_started [OF rm(1), of call w spec] that c by simp
    with deny c show "driven (run_id r) (run_session r) a
      (if chosen = ApprovalDecision.Deny
        then drive_if w (run_id r) (record_tool_result w (run_id r) call
          (ToolResult_refused ReasonCode.ApprovalDenied ''the user denied this exact proposal'') ?b)
        else (case start_tool w (run_id r) call spec (mark ?b) of
            (True, a) \<Rightarrow> a | (False, a) \<Rightarrow> drive_tools w (run_id r) a))"
      by (cases ok) auto
  qed (simp add: event_session_def)
  moreover have "resolve_approval w approval chosen a = persist_or w
      (MjolnrEvent.ApprovalResolved (run_session r) (run_id r) i chosen) (fail_store w (run_id r))
      (\<lambda>_ a. if chosen = ApprovalDecision.Deny
        then drive_if w (run_id r) (record_tool_result w (run_id r) call
          (ToolResult_refused ReasonCode.ApprovalDenied ''the user denied this exact proposal'')
          (upd_state (\<lambda>st. st\<lparr>st_pending_approval := None\<rparr>) a))
        else (case start_tool w (run_id r) call spec (mark (upd_state (\<lambda>st. st\<lparr>st_pending_approval := None\<rparr>) a)) of
            (True, a) \<Rightarrow> a | (False, a) \<Rightarrow> drive_tools w (run_id r) a)) ?a"
    using assms chosen
    by (cases chosen) (auto simp: resolve_approval_def in_run_def mark_def Let_def)
  ultimately show ?thesis by simp
qed

section \<open>The start of a run\<close>

definition begun :: "Actor \<Rightarrow> Actor \<Rightarrow> bool" where
  "begun a b \<longleftrightarrow> idle b \<and> starts b = starts a \<or> (\<exists>run session. driven run session a b)"

lemma begun_starts: "starts b = starts a \<Longrightarrow> begun b c \<Longrightarrow> begun a c"
  by (auto simp: begun_def intro: driven_starts)

lemma begun_idle: "idle b \<Longrightarrow> starts b = starts a \<Longrightarrow> begun a b"
  by (simp add: begun_def)

lemma begun_calm: "idle a \<Longrightarrow> calm a b \<Longrightarrow> begun a b"
  by (auto intro: begun_idle idle_calm dest: starts_calm)

lemma idle_note_store_failure:
  "a_run a = None \<Longrightarrow> st_pending_approval (a_state a) = None \<Longrightarrow> store_sound (a_store a) \<Longrightarrow>
     idle (note_store_failure w err a)"
  by (simp add: idle_def note_store_failure_def upd_state_def)

lemma idle_kept:
  "idle a \<Longrightarrow> kept a b \<Longrightarrow> a_run b = None \<and> st_pending_approval (a_state b) = None \<and> store_sound (a_store b)"
  by (simp add: idle_def kept_def store_grown_def)

lemma idle_noted: "idle a \<Longrightarrow> calm a b \<or> wrote e a b \<Longrightarrow> idle (note_store_failure w err b)"
  using idle_kept [of a b] idle_note_store_failure [of b] by (auto simp: calm_def wrote_def)

lemma blocked_None: "blocked w a = None \<Longrightarrow> a_recovery a = Clean \<and> st_store_failure (a_state a) = None"
  by (simp add: blocked_def split: option.splits RecoveryState.splits)

lemma run_id_new_run [simp]: "run_id (new_run run session p m intent target) = run"
  by (simp add: new_run_def)

text \<open>Once the start of a run is in the log, the run is driven.\<close>

lemma launch_begun:
  assumes "idle a" "st_session (a_state a) = Some session" "a_recovery a = Clean"
    and f: "\<And>b. f b = b \<or> f b = upd_state (\<lambda>st. st\<lparr>st_pending_approval := None\<rparr>) b"
  shows "begun a (persist_or w (MjolnrEvent.RunStarted session run) (note_store_failure w)
    (\<lambda>_ b. launch_run w (new_run run session p m intent target) (f b)) a)"
proof (rule persist_or_cases)
  fix err b
  assume b: "calm a b \<or> wrote (MjolnrEvent.RunStarted session run) a b"
  then have "starts b = starts a" by (auto simp: wrote_def dest: starts_calm starts_kept)
  with idle_noted [OF assms(1) b] show "begun a (note_store_failure w err b)"
    by (intro begun_idle) simp_all
next
  fix stored :: StoredEvent and b
  let ?e = "MjolnrEvent.RunStarted session run"
  assume b: "wrote ?e a b"
  define r where "r = new_run run session p m intent target"
  define c where "c = emit (StartTimer run (max_wall_time (limits w)))
    (upd_state (\<lambda>st. st\<lparr>st_budget := (st_budget st)\<lparr>used_provider_turns := 0, used_tool_calls := 0\<rparr>\<rparr>)
      ((f b)\<lparr>a_run := Some r\<rparr>))"
  have fb: "a_store (f b) = a_store b" "a_recovery (f b) = a_recovery b"
    "st_session (a_state (f b)) = st_session (a_state b)" "starts (f b) = starts b"
    using f [of b] by (auto simp: upd_state_def starts_def)
  have "tracker_of b session = Some \<lparr>open_id = run, open_tool = None\<rparr>"
    using b by (simp add: wrote_def event_session_def track_def open_run_def)
  moreover have "store_sound (a_store b)" "a_recovery b = Clean" "st_session (a_state b) = Some session"
    using b assms by (auto simp: wrote_def kept_def idle_def store_grown_def)
  ultimately have "in_run r None c"
    using fb by (simp add: in_run_def c_def emit_def upd_state_def tracker_of_def r_def new_run_def)
  then have "free run session None c"
    unfolding free_def by (intro exI [of _ r]) (simp add: r_def new_run_def running_in_run)
  from driven_begin [OF this] have d: "begun c (begin_provider_turn w run c)"
    by (auto simp: begun_def)
  have s: "starts c = starts a"
    using b fb by (auto simp: c_def wrote_def dest: starts_kept)
  have l: "launch_run w (new_run run session p m intent target) (f b) = begin_provider_turn w run c"
    by (simp only: launch_run_def c_def r_def run_id_new_run)
  show "begun a (launch_run w (new_run run session p m intent target) (f b))"
    unfolding l by (rule begun_starts [OF s d])
qed

lemma tracker_append_quiet:
  assumes "store_append_after i now e parent st = Inr (s, st')" "quiet e"
  shows "store_grown st st' \<and> (\<forall>session. log_tracker (mem_log st' session) = log_tracker (mem_log st session))"
  using store_append_after_grown [OF assms(1)] tracker_append [of i now e st s st'] assms
  by (simp add: store_append_after_def quiet_def)

lemma calm_persist_branching:
  assumes "quiet e" "persist_branching w e a = (x, b)"
  shows "calm a b"
proof (cases "st_branch_parent (a_state a)")
  case None
  with assms have p: "persist w e a = (x, b)" by (simp add: persist_branching_def)
  then show ?thesis
    using persist_failed persist_done wrote_quiet [OF _ assms(1)] by (cases x) blast+
next
  case (Some parent)
  let ?a = "upd_state (\<lambda>st. st\<lparr>st_branch_parent := None\<rparr>) a"
  have "calm a (snd (write_store w (store_append_after (EventId (fresh_at w (a_ticks ?a)))
      (clock_at w (a_ticks ?a)) e parent) ?a))"
    by (rule calm_write_store) (auto intro: calm_intros dest: tracker_append_quiet [OF _ assms(1)])
  with assms(2) Some show ?thesis
    by (auto simp: persist_branching_def Let_def broadcast_def intro: calm_intros split: prod.splits sum.splits)
qed

lemma calm_cap_directive [calm_intros]: "calm a b \<Longrightarrow> calm a (cap_directive w source b)"
  unfolding cap_directive_def Let_def by (auto intro!: calm_intros)

lemma calm_rename:
  "calm a b \<Longrightarrow> calm a (snd (write_store w (unit_op (store_rename_session now session title)) b))"
  by (rule calm_write_store) (auto simp: unit_op_def map_ok_Inr dest: store_rename_same)

lemma calm_name_session [calm_intros]: "calm a b \<Longrightarrow> calm a (name_session w session source text b)"
  unfolding name_session_def by (auto intro: calm_rename)

lemma begin_run_begun:
  assumes "idle a" "st_session (a_state a) = Some session" "a_recovery a = Clean"
  shows "begun a (begin_run w session p m source text a)"
proof -
  define message where "message = message_user (fresh_at w (a_ticks (next_tick a)))
    (clock_at w (a_ticks (next_tick a))) text"
  obtain x d where d: "persist_branching w (MjolnrEvent.MessageAppended session message)
    (next_tick (next_tick a)) = (x, d)" by force
  have "calm (next_tick (next_tick a)) d" using calm_persist_branching [OF _ d] by simp
  then have ad: "calm a d" by (rule calm_trans [rotated]) (intro calm_intros)
  have "begun a (note_store_failure w err d)" for err
    using begun_calm [OF assms(1) calm_note_store_failure [OF ad]] .
  moreover have "begun a (persist_or w (MjolnrEvent.RunStarted session run) (note_store_failure w)
      (\<lambda>_ b. launch_run w (new_run run session p m Normal None)
        (upd_state (\<lambda>st. st\<lparr>st_pending_approval := None\<rparr>) b))
      (name_session w session source text (upd_state (push_message s message) d)))"
    (is "begun a (persist_or w _ _ _ ?b)") for run s
  proof -
    have n: "calm a ?b" using ad by (auto simp: push_message_def intro!: calm_intros)
    have "st_session (a_state ?b) = Some session" "a_recovery ?b = Clean"
      using n assms by (simp_all only: calm_def kept_def)
    from launch_begun [OF idle_calm [OF assms(1) n] this] show ?thesis
      by (intro begun_starts [OF starts_calm [OF n]]) blast
  qed
  ultimately show ?thesis
    unfolding begin_run_def Let_def persist_branching_or_def message_def [symmetric] d prod.case
    by (cases x) simp_all
qed

lemma start_run_begun:
  assumes "idle a"
  shows "begun a (start_run w text source a)"
proof (cases "st_session (a_state a)")
  case None
  with assms show ?thesis by (simp add: start_run_def begun_idle)
next
  case (Some session)
  define b where "b = cap_directive w source a"
  have ab: "calm a b" by (auto simp: b_def intro: calm_intros)
  have "begun a (begin_run w session p m source text b)" if "blocked w b = None" for p m
  proof -
    have "st_session (a_state b) = Some session" using ab Some by (simp add: calm_def kept_def)
    with blocked_None [OF that] show ?thesis
      by (intro begun_starts [OF starts_calm [OF ab]] begin_run_begun idle_calm [OF assms ab]) auto
  qed
  with begun_calm [OF assms ab] begun_calm [OF assms calm_refl] Some show ?thesis
    by (cases "blocked w b") (auto simp: start_run_def Let_def simp flip: b_def split: option.split)
qed

lemma start_handoff_begun:
  assumes "idle a"
  shows "begun a (start_handoff w target a)"
proof (cases "st_session (a_state a)")
  case None
  with assms show ?thesis by (simp add: start_handoff_def begun_idle)
next
  case (Some session)
  have run: "a_run a = None" using assms by (simp add: idle_def)
  have "begun a a" using begun_calm [OF assms calm_refl] .
  moreover have "a\<lparr>a_run := None\<rparr> = a" using run by (cases a) simp
  ultimately have a: "begun a (a\<lparr>a_run := None\<rparr>)" by metis
  have t: "calm a (next_tick a)" by (intro calm_intros)
  have "begun a (persist_or w (MjolnrEvent.RunStarted session run) (note_store_failure w)
      (\<lambda>_. launch_run w (new_run run session p m ManualHandoff swap)) (next_tick a))"
    if "blocked w a = None" for run p m swap
    using begun_starts [OF starts_calm [OF t] launch_begun [OF idle_calm [OF assms t], where f = "\<lambda>b. b"]]
      blocked_None [OF that] Some t by (simp add: calm_def kept_def)
  with begun_calm [OF assms calm_refl] Some run a show ?thesis
    by (cases "blocked w a") (auto simp: start_handoff_def Let_def split: option.split)
qed

end
