(* ===== verification/Lifecycle_Idle.thy ===== *)
theory Lifecycle_Idle
  imports Run_Reactions
begin

text \<open>
  The operations on a session keep an idle actor idle and start nothing: creating, resuming,
  ending, leaving, reclaiming, resolving a recovery, moving along branches, forking and the
  choice of a resume. A session that is resumed has for recovery exactly what its log leaves
  in flight, whatever checkpoint the replay starts from.
\<close>

section \<open>Resting\<close>

definition rests :: "Actor \<Rightarrow> Actor \<Rightarrow> bool" where
  "rests a b \<longleftrightarrow> idle b \<and> starts b = starts a"

lemma rests_refl: "idle a \<Longrightarrow> rests a a"
  by (simp add: rests_def)

lemma rests_trans: "rests a b \<Longrightarrow> rests b c \<Longrightarrow> rests a c"
  by (simp add: rests_def)

lemma rests_begun: "rests a b \<Longrightarrow> begun a b"
  by (simp add: rests_def begun_def)

lemma rests_calm: "idle a \<Longrightarrow> calm a b \<Longrightarrow> rests a b"
  by (simp add: rests_def idle_calm starts_calm)

lemma rests_calm_trans: "rests a b \<Longrightarrow> calm b c \<Longrightarrow> rests a c"
  by (auto simp: rests_def intro: idle_calm dest: starts_calm)

lemma idle_upd_state:
  "idle a \<Longrightarrow> st_session (f (a_state a)) = st_session (a_state a) \<Longrightarrow>
     st_pending_approval (f (a_state a)) = st_pending_approval (a_state a) \<Longrightarrow>
     st_store_failure (f (a_state a)) = st_store_failure (a_state a) \<Longrightarrow> idle (upd_state f a)"
  by (auto simp: idle_def log_settled_def upd_state_def tracker_of_def)

lemma rests_upd_state:
  "rests a b \<Longrightarrow> st_session (f (a_state b)) = st_session (a_state b) \<Longrightarrow>
     st_pending_approval (f (a_state b)) = st_pending_approval (a_state b) \<Longrightarrow>
     st_store_failure (f (a_state b)) = st_store_failure (a_state b) \<Longrightarrow> rests a (upd_state f b)"
  by (simp add: rests_def idle_upd_state)

text \<open>An actor without a session has nothing to settle.\<close>

lemma idle_closed:
  "a_run a = None \<Longrightarrow> st_pending_approval (a_state a) = None \<Longrightarrow> store_sound (a_store a) \<Longrightarrow>
     st_session (a_state a) = None \<Longrightarrow> idle a"
  by (simp add: idle_def log_settled_def)

lemma idle_run [simp]: "idle a \<Longrightarrow> a_run a = None"
  by (simp add: idle_def)

lemma idle_store: "idle a \<Longrightarrow> store_sound (a_store a)"
  by (simp add: idle_def)

lemma rests_noted: "idle a \<Longrightarrow> calm a b \<or> wrote e a b \<Longrightarrow> rests a (note_store_failure w err b)"
  by (auto simp: rests_def wrote_def idle_noted dest: starts_calm starts_kept)

lemma rests_note: "rests a b \<Longrightarrow> rests a (note_store_failure w err b)"
  by (simp add: rests_def) (simp add: idle_def note_store_failure_def upd_state_def)

lemma calm_refuse [calm_intros]: "calm a b \<Longrightarrow> calm a (refuse w detail b)"
  unfolding refuse_def by (intro calm_intros)

lemma rests_refuse: "idle a \<Longrightarrow> rests a (refuse w detail a)"
  by (intro rests_calm calm_intros)

lemma calm_refresh_session_list [calm_intros]: "calm a b \<Longrightarrow> calm a (refresh_session_list w b)"
  using calm_read_store [of a b w list_sessions]
  by (auto simp: refresh_session_list_def split: prod.split sum.split intro: calm_note_store_failure)

lemma calm_open_project: "calm a (snd (open_project w root a))"
  unfolding open_project_def by (auto split: sum.split intro!: calm_intros)

section \<open>Leases\<close>

text \<open>Operations that change no log: the store stays sound and its logs stay the same.\<close>

lemma idle_write_same:
  assumes "idle a" "\<And>x st. f (a_store a) = Inr (x, st) \<Longrightarrow> store_grown (a_store a) st \<and> mem_log st = mem_log (a_store a)"
  shows "calm a (snd (write_store w f a))"
  by (rule calm_write_store) (use assms(2) in \<open>auto intro: calm_refl\<close>)

lemma idle_lease: "idle a \<Longrightarrow> idle (a\<lparr>a_lease := l\<rparr>)"
  by (simp add: idle_def log_settled_def tracker_of_def)

lemma starts_lease [simp]: "starts (a\<lparr>a_lease := l\<rparr>) = starts a"
  by (simp add: starts_def)

lemma release_lease_rests:
  assumes "idle a" "release_lease w a = (x, b)"
  shows "rests a b \<and> a_state b = a_state a"
proof (cases "a_lease a")
  case None
  with assms show ?thesis by (simp add: release_lease_def rests_refl)
next
  case (Some lease)
  let ?f = "unit_op (\<lambda>st. Inr (store_release_session lease st))"
  have c: "calm a (snd (write_store w ?f a))"
    by (rule idle_write_same [OF assms(1)]) (auto simp: unit_op_def map_ok_Inr store_release_same)
  have s: "a_state (snd (write_store w ?f a)) = a_state a"
    by (auto simp: write_store_def next_tick_def split: sum.split option.split)
  have r: "rests a (snd (write_store w ?f a))" by (rule rests_calm [OF assms(1) c])
  obtain y d where d: "write_store w ?f a = (y, d)" by force
  show ?thesis
    using assms(2) Some d s r by (cases y) (auto simp: release_lease_def rests_def idle_lease)
qed

lemma write_or_note_rests:
  assumes "idle a" "\<And>x st. f (a_store a) = Inr (x, st) \<Longrightarrow> store_grown (a_store a) st \<and> mem_log st = mem_log (a_store a)"
    and "\<And>x b. calm a b \<Longrightarrow> (\<exists>st. f (a_store a) = Inr (x, st)) \<Longrightarrow> rests a (g x b)"
  shows "rests a (write_or_note w f g a)"
proof -
  have c: "calm a (snd (write_store w f a))" by (rule idle_write_same [OF assms(1,2)])
  obtain r b where b: "write_store w f a = (r, b)" by force
  show ?thesis
  proof (cases r)
    case (Inl err)
    with b c show ?thesis
      using rests_noted [OF assms(1), of b] by (simp add: write_or_note_def)
  next
    case (Inr x)
    then have "\<exists>st. f (a_store a) = Inr (x, st)"
      using b by (auto simp: write_store_def split: sum.splits option.splits prod.splits)
    with b c assms(3) Inr show ?thesis by (simp add: write_or_note_def)
  qed
qed


section \<open>Creating a session\<close>

lemma rests_write:
  assumes "a_run a = None" "st_pending_approval (a_state a) = None" "store_sound (a_store a)"
    and "st_session (a_state a) = None"
    and "\<And>x st. f (a_store a) = Inr (x, st) \<Longrightarrow> store_sound st"
    and "\<And>x b. a_run b = None \<Longrightarrow> a_state b = a_state a \<Longrightarrow> starts b = starts a \<Longrightarrow>
           f (a_store a) = Inr (x, a_store b) \<Longrightarrow> rests a (g x b)"
  shows "rests a (write_or_note w f g a)"
proof -
  have failed: "rests a (note_store_failure w err (next_tick b))"
    if "b = a \<or> (\<exists>x st. f (a_store a) = Inr (x, st) \<and> b = a\<lparr>a_store := st\<rparr>)" for err b
    using that assms(1-3,5)
    by (auto simp: rests_def next_tick_def starts_def note_store_failure_def upd_state_def idle_def)
  have stored: "rests a (g x (next_tick (a\<lparr>a_store := st\<rparr>)))" if "f (a_store a) = Inr (x, st)" for x st
    using that assms(1) by (intro assms(6)) (simp_all add: next_tick_def starts_def)
  show ?thesis
    unfolding write_or_note_def write_store_def
    using failed stored by (auto split: sum.split option.split)
qed

lemma calm_announce_session: "idle a \<Longrightarrow> rests a (announce_session w session p m policy a)"
  unfolding announce_session_def
  by (rule rests_calm) (auto intro!: calm_intros)

lemma rests_opened:
  assumes "a_run b = None" "st_pending_approval (a_state b) = None" "store_sound (a_store b)"
    and "mem_log (a_store b) session = []"
  shows "idle (opened w session p m lease b)"
  using assms by (simp add: opened_def idle_def log_settled_def upd_state_def tracker_of_def
      log_tracker_def tracker_finish_def)

lemma starts_opened [simp]: "starts (opened w session p m lease b) = starts b"
  by (simp add: opened_def starts_def upd_state_def)

lemma reset_keeping_project_fields [simp]:
  "st_session (reset_keeping_project st) = None" "st_pending_approval (reset_keeping_project st) = None"
  "st_store_failure (reset_keeping_project st) = None"
  by (simp_all add: reset_keeping_project_def SessionState_default_def)

lemma create_session_rests:
  assumes "idle a"
  shows "rests a (create_session w p m a)"
proof -
  have fresh: "rests a (write_or_note w (\<lambda>st. Inr (store_open_project i root st))
      (\<lambda>project a. write_or_note w
         (unit_op (\<lambda>st. Inr (store_create_session (clock_at w (a_ticks a)) session project
            (default_title (a_state a)) (parent a) st)))
         (\<lambda>_ a. write_or_note w (store_acquire_session (show_uuid_of w) (fresh_at w (a_ticks a)) session)
            (\<lambda>lease a. announce_session w session p m policy (opened w session p m lease a)) a) a) c)"
    if "a_run c = None" "st_pending_approval (a_state c) = None" "store_sound (a_store c)"
      "st_session (a_state c) = None" "starts c = starts a"
    for c root session policy i and parent :: "Actor \<Rightarrow> SessionId option"
  proof -
    note c = that
    have acquire: "rests d (write_or_note w (store_acquire_session (show_uuid_of w) (fresh_at w (a_ticks d)) session)
        (\<lambda>lease a. announce_session w session p m policy (opened w session p m lease a)) d)"
      if d: "a_run d = None" "a_state d = a_state c" "store_sound (a_store d)" "mem_log (a_store d) session = []" for d
    proof (rule rests_write)
      fix x b
      assume b: "a_run b = None" "a_state b = a_state d" "starts b = starts d"
        "store_acquire_session (show_uuid_of w) (fresh_at w (a_ticks d)) session (a_store d) = Inr (x, a_store b)"
      then have "idle (opened w session p m x b)"
        using d c(2) store_acquire_same [OF b(4)]
        by (intro rests_opened) (simp_all add: store_grown_def)
      from calm_announce_session [OF this] b(3)
      show "rests d (announce_session w session p m policy (opened w session p m x b))"
        by (simp add: rests_def)
    qed (use c d in \<open>auto dest: store_acquire_same simp: store_grown_def\<close>)
    have create: "rests d (write_or_note w
        (unit_op (\<lambda>st. Inr (store_create_session (clock_at w (a_ticks d)) session project
            (default_title (a_state d)) (parent d) st)))
        (\<lambda>_ a. write_or_note w (store_acquire_session (show_uuid_of w) (fresh_at w (a_ticks a)) session)
            (\<lambda>lease a. announce_session w session p m policy (opened w session p m lease a)) a) d)"
      if d: "a_run d = None" "a_state d = a_state c" "store_sound (a_store d)" for d project
    proof (rule rests_write)
      fix x b
      assume b: "a_run b = None" "a_state b = a_state d" "starts b = starts d"
        "unit_op (\<lambda>st. Inr (store_create_session (clock_at w (a_ticks d)) session project
            (default_title (a_state d)) (parent d) st)) (a_store d) = Inr (x, a_store b)"
      then have "a_store b = store_create_session (clock_at w (a_ticks d)) session project
          (default_title (a_state d)) (parent d) (a_store d)"
        by (simp add: unit_op_def)
      then have "store_sound (a_store b)" "mem_log (a_store b) session = []"
        using store_create_sound [OF d(3)] by (simp_all add: store_create_log)
      with b d show "rests d (write_or_note w (store_acquire_session (show_uuid_of w) (fresh_at w (a_ticks b)) session)
          (\<lambda>lease a. announce_session w session p m policy (opened w session p m lease a)) b)"
        using acquire [of b] by (auto simp: rests_def)
    qed (use c d in \<open>auto simp: unit_op_def map_ok_Inr intro: store_create_sound\<close>)
    have "rests c (write_or_note w (\<lambda>st. Inr (store_open_project i root st))
      (\<lambda>project a. write_or_note w
         (unit_op (\<lambda>st. Inr (store_create_session (clock_at w (a_ticks a)) session project
            (default_title (a_state a)) (parent a) st)))
         (\<lambda>_ a. write_or_note w (store_acquire_session (show_uuid_of w) (fresh_at w (a_ticks a)) session)
            (\<lambda>lease a. announce_session w session p m policy (opened w session p m lease a)) a) a) c)"
    proof (rule rests_write)
      fix x b
      assume b: "a_run b = None" "a_state b = a_state c" "starts b = starts c"
        "Inr (store_open_project i root (a_store c)) = (Inr (x, a_store b) :: (_, StoreError) result)"
      then have "store_sound (a_store b)"
        using store_open_project_same [of _ root "a_store c"] c(3) by (auto simp: store_grown_def)
      with b show "rests c (write_or_note w
         (unit_op (\<lambda>st. Inr (store_create_session (clock_at w (a_ticks b)) session x
            (default_title (a_state b)) (parent b) st)))
         (\<lambda>_ a. write_or_note w (store_acquire_session (show_uuid_of w) (fresh_at w (a_ticks a)) session)
            (\<lambda>lease a. announce_session w session p m policy (opened w session p m lease a)) a) b)"
        using create [of b] by (auto simp: rests_def)
    qed (use c in \<open>auto dest: store_open_project_same simp: store_grown_def\<close>)
    with c(5) show ?thesis by (simp add: rests_def)
  qed
  have "a_run a = None" "store_sound (a_store a)" using assms by (simp_all add: idle_def)
  with fresh show ?thesis
    unfolding create_session_def Let_def take_identity_def
    by (auto simp: rests_refuse [OF assms] rests_refl [OF assms] upd_state_def next_tick_def starts_def
        split: option.split)
qed

section \<open>Resuming a session\<close>

text \<open>A use of the actor that also leaves what every log says to be in flight.\<close>

definition reread :: "Actor \<Rightarrow> Actor \<Rightarrow> bool" where
  "reread a b \<longleftrightarrow> rests a b \<and> tracker_of b = tracker_of a"

lemma reread_trans: "reread a b \<Longrightarrow> reread b c \<Longrightarrow> reread a c"
  by (auto simp: reread_def intro: rests_trans)

lemma reread_calm: "idle a \<Longrightarrow> calm a b \<Longrightarrow> reread a b"
  by (auto simp: reread_def rests_calm calm_def)

lemma tracker_of_store: "a_store b = a_store a \<Longrightarrow> tracker_of b = tracker_of a"
  by (simp add: tracker_of_def fun_eq_iff)

lemma tracker_of_note [simp]: "tracker_of (note_store_failure w err a) = tracker_of a"
  by (rule tracker_of_store) (simp add: note_store_failure_def upd_state_def)

lemma calm_write_tracker: "calm a b \<Longrightarrow> tracker_of b = tracker_of a"
  by (simp add: calm_def)

lemma release_lease_reread:
  assumes "idle a" "release_lease w a = (x, b)"
  shows "reread a b"
proof -
  have "tracker_of (snd (write_store w (unit_op (\<lambda>st. Inr (store_release_session lease st))) a)) = tracker_of a" for lease
    by (rule calm_write_tracker, rule idle_write_same [OF assms(1)])
      (auto simp: unit_op_def map_ok_Inr store_release_same)
  then have "tracker_of (snd (release_lease w a)) = tracker_of a"
    by (auto simp: release_lease_def tracker_of_def fun_eq_iff split: option.split prod.split sum.split)
      (metis snd_conv)+
  with release_lease_rests [OF assms] assms(2) show ?thesis by (simp add: reread_def)
qed

lemma resume_failed_reread:
  assumes "idle a"
  shows "reread a (resume_failed w err a)"
proof -
  obtain x b where b: "release_lease w a = (x, b)" by force
  with release_lease_reread [OF assms b] show ?thesis
    by (auto simp: resume_failed_def reread_def intro: rests_note split: sum.split)
qed

lemma read_resuming_reread:
  assumes "idle a" "reread a (g (f (a_store a)) (next_tick a))"
  shows "reread a (read_resuming w f g a)"
proof -
  have t: "reread a (next_tick a)" by (rule reread_calm [OF assms(1)]) (intro calm_intros)
  then have "idle (next_tick a)" by (simp add: reread_def rests_def)
  from reread_trans [OF t resume_failed_reread [OF this]] assms(2) show ?thesis
    by (auto simp: read_resuming_def read_store_def split: option.split)
qed

text \<open>What a log read from its end is replayed into.\<close>

definition recovers :: "SessionId \<Rightarrow> Recovered \<Rightarrow> Inner \<Rightarrow> bool" where
  "recovers session r st \<longleftrightarrow> st_pending_approval (recovered_state r) = None
     \<and> (short (mem_log st session) \<longrightarrow> recovered_recovery r = tracker_finish (log_tracker (mem_log st session)))"

lemma project_recovery:
  assumes "project show_uuid mint cp covered es = Inr r"
  shows "recovered_recovery r = tracker_finish (log_tracker es) \<and> st_pending_approval (recovered_state r) = None"
proof -
  obtain st status st' tr' status' where b: "base_state cp covered = Inr (st, status)"
    and p: "replay (projection_apply show_uuid mint) es (st, None, status) = Inr (st', tr', status')"
    and r: "r = \<lparr>recovered_state = st'\<lparr>st_policy := carried_forward (st_policy st')\<rparr>,
      recovered_recovery = tracker_finish tr', recovered_status = status'\<rparr>"
    using assms by (auto simp: project_def and_then_Inr map_ok_Inr)
  have "ungranted st'"
    using projection_replay_ungranted [OF p] base_state_ungranted [OF b] by simp
  with r replay_track [OF p] show ?thesis by (simp add: ungranted_def log_tracker_def)
qed

lemma install_session_reread:
  assumes "idle a" "recovers session r (a_store a)"
  shows "reread a (install_session w session summary root r a)"
proof -
  define st where "st = (let st = (recovered_state r)\<lparr>st_session := Some session, st_workspace_root := Some root\<rparr>;
      st = st\<lparr>st_budget := (st_budget st)\<lparr>
        budget_max_provider_turns := limit_provider_turns (limits w),
        budget_max_tool_calls := limit_tool_calls (limits w)\<rparr>\<rparr>
    in st\<lparr>st_resume_advice := resume_advice (clock_at w (a_ticks a)) summary st\<rparr>)"
  define b where "b = (next_tick a)\<lparr>a_state := st, a_recovery := recovered_recovery r\<rparr>"
  have b: "a_run b = None" "a_store b = a_store a" "st_session (a_state b) = Some session"
    "st_pending_approval (a_state b) = None" "a_recovery b = recovered_recovery r" "starts b = starts a"
    using assms by (simp_all add: b_def st_def Let_def next_tick_def recovers_def starts_def)
  then have "idle b"
    using assms(2) idle_store [OF assms(1)]
    by (simp add: idle_def log_settled_def recovers_def tracker_of_def)
  have "calm b (persist_or w (MjolnrEvent.RecoveryRequired session work)
      (note_store_failure w) (\<lambda>_ a. a) b)" for work
    by (intro calm_intros) simp_all
  then have "calm b (refresh_session_list w (case recovered_recovery r of
      Required work \<Rightarrow> persist_or w (MjolnrEvent.RecoveryRequired session work)
        (note_store_failure w) (\<lambda>_ a. a) b
    | Clean \<Rightarrow> b))"
    by (intro calm_intros) (simp split: RecoveryState.split)
  moreover have "install_session w session summary root r a = refresh_session_list w (case recovered_recovery r of
      Required work \<Rightarrow> persist_or w (MjolnrEvent.RecoveryRequired session work)
        (note_store_failure w) (\<lambda>_ a. a) b
    | Clean \<Rightarrow> b)"
    by (simp only: install_session_def Let_def b_def st_def)
  ultimately show ?thesis
    using reread_calm [OF \<open>idle b\<close>] tracker_of_store [OF b(2)] b(6)
    by (simp add: reread_def rests_def)
qed

lemma session_root_ticks: "session_root w summary from a = (x, b) \<Longrightarrow> b = a \<or> b = next_tick a"
  by (auto simp: session_root_def canonical_project_def Let_def split: option.splits if_splits sum.splits)

lemma idle_next_tick: "idle a \<Longrightarrow> idle (next_tick a)"
  using idle_calm [OF _ calm_next_tick [OF calm_refl]] .

lemma store_next_tick [simp]: "a_store (next_tick a) = a_store a"
  by (simp add: next_tick_def)

lemma reread_next_tick: "reread (next_tick a) b \<Longrightarrow> reread a b"
  by (simp add: reread_def rests_def tracker_of_store [of "next_tick a" a])

lemma recovers_rebuilt:
  "recovers session r st \<Longrightarrow> rebuild_durable_records_from es (recovered_state r) = Inr s \<Longrightarrow>
     recovers session (r\<lparr>recovered_state := s\<rparr>) st"
  by (auto simp: recovers_def rebuild_durable_records_from_def map_ok_Inr)

lemma resume_projected_reread:
  assumes "idle a" "\<And>r. projected = Inr r \<Longrightarrow> recovers session r (a_store a)"
  shows "reread a (resume_projected w session summary projected a)"
proof (cases projected)
  case (Inl err)
  with resume_failed_reread [OF assms(1)] show ?thesis by (simp add: resume_projected_def)
next
  case (Inr r)
  note r = assms(2) [OF Inr]
  have installed: "reread b (case session_root w summary root b of
        (Inl err, a) \<Rightarrow> resume_failed w err a
      | (Inr root, a) \<Rightarrow> if recovered_status r = Ended
          then resume_failed w (StoreError.Unavailable (has_ended w session)) a
          else install_session w session summary root (r\<lparr>recovered_state := s\<rparr>) a)"
    if b: "idle b" "a_store b = a_store a" and s: "recovers session (r\<lparr>recovered_state := s\<rparr>) (a_store a)" for b s root
  proof -
    obtain x c where c: "session_root w summary root b = (x, c)" by force
    have i: "idle c \<and> a_store c = a_store a \<and> (reread c d \<longrightarrow> reread b d)" for d
      using session_root_ticks [OF c] b by (auto intro: idle_next_tick reread_next_tick)
    with resume_failed_reread [of c w] install_session_reread [of c session "r\<lparr>recovered_state := s\<rparr>" w summary] s
    show ?thesis by (auto simp: c split: sum.split)
  qed
  let ?a = "next_tick a"
  have ia: "idle ?a" "a_store ?a = a_store a" using idle_next_tick [OF assms(1)] by simp_all
  have body: "reread a (case rebuild_durable_records_from (store_branch_events session (a_store a)) (recovered_state r) of
        Inl refusal \<Rightarrow> resume_failed w (StoreError.Decode (replay_text w refusal)) ?a
      | Inr st \<Rightarrow> (case session_root w summary (st_workspace_root st) ?a of
          (Inl err, a) \<Rightarrow> resume_failed w err a
        | (Inr root, a) \<Rightarrow>
            if recovered_status r = Ended
            then resume_failed w (StoreError.Unavailable (has_ended w session)) a
            else install_session w session summary root (r\<lparr>recovered_state := st\<rparr>) a))"
  proof (cases "rebuild_durable_records_from (store_branch_events session (a_store a)) (recovered_state r)")
    case (Inl refusal)
    with reread_next_tick [OF resume_failed_reread [OF ia(1)]] show ?thesis by simp
  next
    case (Inr st)
    with reread_next_tick [OF installed [OF ia recovers_rebuilt [OF r Inr]]] show ?thesis by simp
  qed
  show ?thesis
    unfolding resume_projected_def Inr sum.case by (rule read_resuming_reread [OF assms(1)]) (rule body)
qed

lemma resume_leased_reread:
  assumes "idle a"
  shows "reread a (resume_leased w session summary a)"
proof -
  have sound: "store_sound (a_store a)" using assms by (rule idle_store)
  define cp where "cp = store_latest_checkpoint session (a_store a)"
  define start where "start = (case cp of None \<Rightarrow> 0 | Some c \<Rightarrow> checkpoint_sequence c)"
  obtain resume where resume: "store_branch_events_from session start (a_store a) = Some resume"
    "resume_events resume = store_events_from session start (a_store a)"
    by (simp add: store_branch_events_from_def)
  have "recovers session r (a_store a)"
    if "project (show_uuid_of w) mint c covered (resume_events resume) = Inr r" for c covered r mint
  proof -
    have "cp = None \<and> start = 0 \<or> (\<exists>c. cp = Some c \<and> store_latest_checkpoint session (a_store a) = Some c
        \<and> start = checkpoint_sequence c)"
      by (auto simp: start_def cp_def split: option.split)
    then have "log_tracker (store_events_from session start (a_store a)) = log_tracker (mem_log (a_store a) session)"
      if "short (mem_log (a_store a) session)"
      using tail_tracker [OF sound that] by blast
    with project_recovery [OF that] resume(2) show ?thesis by (simp add: recovers_def)
  qed
  then have p: "reread (next_tick (next_tick a)) (resume_projected w session summary
      (project (show_uuid_of w) mint c covered (resume_events resume)) (next_tick (next_tick a)))" for mint c covered
    using assms by (intro resume_projected_reread idle_next_tick) simp_all
  have "reread (next_tick a) (read_resuming w (store_branch_events_from session start)
     (\<lambda>tail a. case tail of
       Some resume \<Rightarrow> resume_projected w session summary
         (project (show_uuid_of w) (minted w (a_ticks a)) (map_option stored_checkpoint cp)
           (covered_message_sequences resume) (resume_events resume)) a
     | None \<Rightarrow> read_resuming w (store_branch_events session) (\<lambda>events a.
         resume_projected w session summary
           (project (show_uuid_of w) (minted w (a_ticks a)) None [] events) a) a) (next_tick a))"
    by (rule read_resuming_reread [OF idle_next_tick [OF assms]])
      (use p in \<open>simp add: resume(1) reread_next_tick\<close>)
  then show ?thesis
    unfolding resume_leased_def
    by (intro read_resuming_reread [OF assms], unfold cp_def [symmetric] start_def [symmetric])
      (rule reread_next_tick)
qed

lemma idle_leased: "idle a \<Longrightarrow> reread (a\<lparr>a_lease := l\<rparr>) b \<Longrightarrow> reread a b"
  by (simp add: reread_def rests_def tracker_of_store [of "a\<lparr>a_lease := l\<rparr>" a])

lemma resume_session_reread:
  assumes "idle a"
  shows "reread a (resume_session w session a)"
proof -
  obtain x b where b: "session_summary w session a = (x, b)" by force
  have ab: "calm a b"
    using b calm_read_store [OF calm_refl, of a w list_sessions]
    by (auto simp: session_summary_def split: prod.splits sum.splits)
  note rb = reread_calm [OF assms ab]
  have ib: "idle b" using assms ab by (rule idle_calm)
  let ?f = "store_acquire_session (show_uuid_of w) (fresh_at w (a_ticks b)) session"
  have acquired: "reread b (write_or_note w ?f (\<lambda>lease a. resume_leased w session summary (a\<lparr>a_lease := Some lease\<rparr>)) b)"
    for summary
  proof -
    have c: "calm b (snd (write_store w ?f b))"
      by (rule idle_write_same [OF ib]) (rule store_acquire_same)
    then have i: "idle (snd (write_store w ?f b))" by (rule idle_calm [OF ib])
    have "reread b (note_store_failure w err (snd (write_store w ?f b)))" for err
      using reread_calm [OF ib calm_note_store_failure [OF c]] .
    moreover have "reread b (resume_leased w session summary ((snd (write_store w ?f b))\<lparr>a_lease := l\<rparr>))" for l
      using reread_trans [OF reread_calm [OF ib c] idle_leased [OF i resume_leased_reread [OF idle_lease [OF i]]]] .
    ultimately show ?thesis
      by (auto simp: write_or_note_def split: prod.split sum.split)
  qed
  have refused: "reread c (refuse w detail c)" if "idle c" for c detail
    by (rule reread_calm [OF that]) (intro calm_intros)
  show ?thesis
    using refused [OF assms] b reread_trans [OF rb acquired] reread_trans [OF rb refused [OF ib]]
      reread_trans [OF rb reread_calm [OF ib calm_note_store_failure [OF calm_refl]]]
    by (auto simp: resume_session_def split: sum.split)
qed

section \<open>The model and the route\<close>

lemma calm_persisted:
  assumes "quiet e" "\<And>err b. calm a b \<Longrightarrow> P (failed err b)" "\<And>stored b. calm a b \<Longrightarrow> P (persisted stored b)"
  shows "P (persist_or w e failed persisted a)"
  by (rule persist_or_cases) (use assms wrote_quiet in blast)+

lemma attach_route_rests:
  assumes "idle a"
  shows "rests a (attach_route w requested tag task a)"
proof -
  have "rests a (persist_or w (MjolnrEvent.RouteSelected s None n k i m reason) (note_store_failure w)
      (\<lambda>_. upd_state f) a)"
    if "\<And>st. st_session (f st) = st_session st \<and> st_pending_approval (f st) = st_pending_approval st
           \<and> st_store_failure (f st) = st_store_failure st" for s n k i m reason f
    by (rule calm_persisted)
      (use that assms in \<open>auto intro!: rests_upd_state intro: rests_calm calm_note_store_failure\<close>)
  then show ?thesis
    unfolding attach_route_def by (auto simp: rests_refl [OF assms] split: option.split)
qed

lemma calm_select_model:
  assumes "a_run a = None"
  shows "calm a (snd (select_model w p m a))"
proof -
  have refuse: "calm a (refuse_model_change w s p m code detail None a)" for s code detail
    unfolding refuse_model_change_def by (auto intro!: calm_intros)
  have "calm a (snd (persist_or w (MjolnrEvent.ModelChanged s p m) (\<lambda>err a. (False, note_store_failure w err a))
      (\<lambda>_ a. (True, apply_governance_floor w (upd_state (\<lambda>st. st\<lparr>st_provider := Some p, st_model := Some m,
         st_quota_reserve := QuotaReserveStatus_default\<rparr>) a))) a))" for s
    by (rule calm_persist_or_snd) (auto intro!: calm_intros)
  with refuse assms show ?thesis
    unfolding select_model_def Let_def by (auto split: option.split)
qed

lemma resume_compact_reread:
  assumes "idle a"
  shows "reread a (resume_compact w session p m a)"
proof -
  define b where "b = resume_session w session a"
  have ab: "reread a b" using resume_session_reread [OF assms] by (simp add: b_def)
  then have ib: "idle b" by (simp add: reread_def rests_def)
  have compacted: "calm b (case compact w 2 c of
      (False, a) \<Rightarrow> refuse w detail a | (True, a) \<Rightarrow> upd_state (\<lambda>st. st\<lparr>st_resume_advice := None\<rparr>) a)"
    if "calm b c" for c detail
    using calm_compact [OF that, of w 2]
    by (auto split: prod.split bool.split intro!: calm_intros)
  obtain x c where c: "select_model w (the p) (the m) b = (x, c)" by force
  have bc: "calm b c" using calm_select_model [of b w "the p" "the m"] ib c by simp
  have "calm b (resume_compact w session p m a)"
    unfolding resume_compact_def Let_def b_def [symmetric]
    using compacted [OF bc] compacted [OF calm_refl] bc c
    by (auto split: option.split bool.split intro!: calm_intros)
  from reread_trans [OF ab reread_calm [OF ib this]] show ?thesis .
qed

section \<open>Leaving a session\<close>

lemma leave_session_rests:
  assumes "idle a"
  shows "rests a (leave_session w a)"
proof -
  let ?b = "upd_state reset_keeping_project (a\<lparr>a_recovery := Clean\<rparr>)"
  have "idle ?b" using assms by (intro idle_closed) (simp_all add: upd_state_def idle_def)
  moreover have "starts ?b = starts a" by (simp add: upd_state_def starts_def)
  ultimately have "rests a ?b" by (simp add: rests_def)
  then show ?thesis
    unfolding leave_session_def by (rule rests_calm_trans) (intro calm_intros)
qed

lemma settled_leave:
  assumes "idle a"
  shows "rests a (case release_lease w a of
      (Inl err, a) \<Rightarrow> note_store_failure w err a | (Inr _, a) \<Rightarrow> leave_session w a)"
proof -
  obtain x b where b: "release_lease w a = (x, b)" by force
  have ab: "rests a b" using release_lease_rests [OF assms b] by simp
  then have "rests a (leave_session w b)"
    using rests_trans [OF ab leave_session_rests] by (simp add: rests_def)
  with rests_note [OF ab] b show ?thesis by (simp split: sum.split)
qed

lemma release_session_rests:
  assumes "idle a"
  shows "rests a (release_session w a)"
proof -
  obtain x b where b: "actor_checkpoint w Active a = (x, b)" by force
  have "calm a b" using calm_actor_checkpoint [OF assms, of w Active] b by simp
  then have ab: "rests a b" by (rule rests_calm [OF assms])
  then have "rests a (case release_lease w b of
      (Inl err, a) \<Rightarrow> note_store_failure w err a | (Inr _, a) \<Rightarrow> leave_session w a)"
    using rests_trans [OF ab settled_leave] by (simp add: rests_def)
  with rests_note [OF ab] b show ?thesis
    by (auto simp: release_session_def rests_refl [OF assms] rests_refuse [OF assms] assms split: sum.split)
qed

text \<open>An actor that knows its record to be broken has nothing left to settle.\<close>

lemma rests_broken:
  "a_run b = None \<Longrightarrow> st_pending_approval (a_state b) = None \<Longrightarrow> store_sound (a_store b) \<Longrightarrow>
     starts b = starts a \<Longrightarrow> rests a (note_store_failure w err b)"
  by (simp add: rests_def idle_note_store_failure)

lemma checkpoint_refused:
  "st_session (a_state a) \<noteq> None \<Longrightarrow> is_required (a_recovery a) \<Longrightarrow>
     \<exists>err. actor_checkpoint w status a = (Inl err, a)"
  by (auto simp: actor_checkpoint_def)

lemma tracker_of_ended: "track (MjolnrEvent.SessionEnded session) tr = None"
  by (simp add: track_def clear_def)

lemma idle_ended:
  assumes "idle a" "wrote (MjolnrEvent.SessionEnded session) a b" "st_session (a_state a) = Some session"
    and "a_recovery a = Clean"
  shows "idle b"
proof -
  have k: "kept a b" and t: "tracker_of b session = None"
    using assms(2) by (simp_all add: wrote_def event_session_def tracker_of_ended)
  have "st_session (a_state b) = Some session" "a_recovery b = Clean"
    using k assms(3,4) by (simp_all add: kept_def)
  with idle_kept [OF assms(1) k] t show ?thesis
    by (simp add: idle_def log_settled_def tracker_finish_def)
qed

lemma end_session_rests:
  assumes "idle a"
  shows "rests a (end_session w a)"
proof (cases "st_session (a_state a)")
  case None
  with assms show ?thesis by (simp add: end_session_def rests_refl)
next
  case (Some session)
  let ?g = "\<lambda>_ a. case actor_checkpoint w Ended a of
      (Inl err, a) \<Rightarrow> snd (release_lease w (note_store_failure w err a))
    | (Inr _, a) \<Rightarrow> (case release_lease w a of
        (Inl err, a) \<Rightarrow> note_store_failure w err a | (Inr _, a) \<Rightarrow> leave_session w a)"
  have broken: "rests c (snd (release_lease w (note_store_failure w err c)))"
    if "rests c (note_store_failure w err c)" for c err
    using that release_lease_rests [of "note_store_failure w err c" w] rests_trans [OF that]
    by (metis prod.collapse rests_def)
  have clean: "rests b (write_or_note w (unit_op (store_end_session now session)) ?g b)"
    if ib: "idle b" for b now
  proof (rule write_or_note_rests [OF ib])
    fix x c
    assume "calm b c"
    then have bc: "rests b c" "idle c" using ib by (auto intro: rests_calm idle_calm)
    obtain y d where d: "actor_checkpoint w Ended c = (y, d)" by force
    have cd: "rests c d" using rests_calm [OF bc(2) calm_actor_checkpoint [OF bc(2)]] d by (metis snd_conv)
    then have "idle d" by (simp add: rests_def)
    then show "rests b (?g x c)"
      using bc(1) cd d rests_trans [OF cd settled_leave] rests_trans [OF cd broken [OF rests_note [OF rests_refl]]]
      by (auto intro: rests_trans split: sum.split)
  qed (auto simp: unit_op_def map_ok_Inr dest: store_end_same)
  have required: "rests b (write_or_note w (unit_op (store_end_session now session)) ?g b)"
    if b: "a_run b = None" "st_pending_approval (a_state b) = None" "store_sound (a_store b)"
      "st_session (a_state b) = Some session" "is_required (a_recovery b)" for b now
  proof -
    obtain x c where c: "write_store w (unit_op (store_end_session now session)) b = (x, c)" by force
    have "store_sound (a_store c)" "a_run c = None" "a_state c = a_state b" "a_recovery c = a_recovery b"
      "starts c = starts b"
      using c b(1,3) by (auto simp: write_store_def unit_op_def map_ok_Inr next_tick_def starts_def store_grown_def
          split: sum.splits option.splits if_splits prod.splits dest!: store_end_same)
    then have cb: "rests c (note_store_failure w err c)" "rests b (note_store_failure w err c)" for err
      using b by (auto intro: rests_broken)
    obtain err where "actor_checkpoint w Ended c = (Inl err, c)"
      using checkpoint_refused [of c w Ended] b \<open>a_state c = a_state b\<close> \<open>a_recovery c = a_recovery b\<close> by auto
    with c cb broken [OF cb(1)] \<open>starts c = starts b\<close> show ?thesis
      by (auto simp: write_or_note_def rests_def split: sum.split)
  qed
  have "rests a (persist_or w (MjolnrEvent.SessionEnded session) (note_store_failure w)
      (\<lambda>_ a. write_or_note w (unit_op (store_end_session (clock_at w (a_ticks a)) session)) ?g a) a)"
  proof (rule persist_or_cases)
    fix stored :: StoredEvent and b
    assume b: "wrote (MjolnrEvent.SessionEnded session) a b"
    then have k: "kept a b" by (simp add: wrote_def)
    then have s: "starts b = starts a" "st_session (a_state b) = Some session" "a_recovery b = a_recovery a"
      using Some starts_kept [OF k] by (simp_all add: kept_def)
    show "rests a (write_or_note w (unit_op (store_end_session (clock_at w (a_ticks b)) session)) ?g b)"
    proof (cases "a_recovery a")
      case Clean
      with clean [OF idle_ended [OF assms b Some]] s show ?thesis by (simp add: rests_def)
    next
      case (Required work)
      with required [of b] idle_kept [OF assms k] s show ?thesis by (simp add: rests_def is_required_def)
    qed
  qed (use rests_noted [OF assms] in blast)
  with assms Some show ?thesis by (simp add: end_session_def)
qed

lemma reclaim_session_rests:
  assumes "idle a"
  shows "rests a (reclaim_session w session a)"
proof -
  have "rests a (write_or_note w (unit_op (\<lambda>st. Inr (store_break_lease session st)))
      (\<lambda>_ a. refresh_session_list w (upd_state (\<lambda>st. st\<lparr>st_store_failure := None\<rparr>) a)) a)"
    if "st_session (a_state a) = None"
  proof (rule write_or_note_rests [OF assms])
    fix x b
    assume "calm a b"
    then have b: "rests a b" "st_session (a_state b) = None"
      using rests_calm [OF assms] that by (blast, simp add: calm_def kept_def)
    then have "idle (upd_state (\<lambda>st. st\<lparr>st_store_failure := None\<rparr>) b)"
      by (auto simp: rests_def idle_def log_settled_def upd_state_def)
    with b(1) have "rests a (upd_state (\<lambda>st. st\<lparr>st_store_failure := None\<rparr>) b)" by (simp add: rests_def)
    then show "rests a (refresh_session_list w (upd_state (\<lambda>st. st\<lparr>st_store_failure := None\<rparr>) b))"
      by (rule rests_calm_trans) (intro calm_intros)
  qed (auto simp: unit_op_def map_ok_Inr store_break_same)
  then show ?thesis by (simp add: reclaim_session_def rests_refuse [OF assms])
qed

lemma resolve_recovery_rests:
  assumes "idle a"
  shows "rests a (resolve_recovery w chosen a)"
proof -
  have "rests a (persist_or w (MjolnrEvent.RecoveryResolved session chosen) (note_store_failure w)
      (\<lambda>_ a. let a = a\<lparr>a_recovery := Clean\<rparr> in if chosen = EndSession then end_session w a else a) a)"
    if s: "st_session (a_state a) = Some session" for session
  proof (rule persist_or_cases)
    fix stored :: StoredEvent and b
    assume b: "wrote (MjolnrEvent.RecoveryResolved session chosen) a b"
    let ?b = "b\<lparr>a_recovery := Clean\<rparr>"
    have k: "kept a b" "tracker_of b session = None"
      using b by (auto simp: wrote_def event_session_def track_def clear_def)
    then have "idle ?b"
      using idle_kept [OF assms k(1)] s k
      by (simp add: idle_def log_settled_def kept_def tracker_finish_def tracker_of_def)
    moreover have "starts ?b = starts a" using starts_kept [OF k(1)] by (simp add: starts_def)
    ultimately show "rests a (let a = ?b in if chosen = EndSession then end_session w a else a)"
      using end_session_rests [of ?b w] by (auto simp: rests_def Let_def)
  qed (use rests_noted [OF assms] in blast)
  then show ?thesis
    by (auto simp: resolve_recovery_def rests_refl [OF assms] split: option.split)
qed

section \<open>Branches\<close>

lemma rebuild_messages_fields:
  "rebuild_messages_from es st = Inr st' \<Longrightarrow> st_session st' = st_session st \<and> st_route st' = st_route st
     \<and> st_pending_approval st' = st_pending_approval st \<and> st_store_failure st' = st_store_failure st"
  by (auto simp: rebuild_messages_from_def map_ok_Inr)

lemma calm_summarise [calm_intros]: "calm a b \<Longrightarrow> calm a (snd (summarise_current_branch w session b))"
proof -
  assume "calm a b"
  then have "calm a (snd (read_store w (store_branch_summary session leaf) b))" for leaf by (intro calm_intros)
  then show ?thesis
    using \<open>calm a b\<close> unfolding summarise_current_branch_def
    by (auto split: list.split prod.split sum.split) (metis snd_conv)+
qed

lemma calm_state:
  "calm a b \<Longrightarrow> st_session st = st_session (a_state b) \<Longrightarrow> st_route st = st_route (a_state b) \<Longrightarrow>
     st_pending_approval st = st_pending_approval (a_state b) \<Longrightarrow>
     st_store_failure st = st_store_failure (a_state b) \<Longrightarrow> calm a (b\<lparr>a_state := st\<rparr>)"
  using calm_upd_state [of a b "\<lambda>_. st"] by (simp add: upd_state_def)

lemma calm_move_leaf:
  assumes "\<And>st. st_session (f st) = st_session st \<and> st_route (f st) = st_route st
      \<and> st_pending_approval (f st) = st_pending_approval st \<and> st_store_failure (f st) = st_store_failure st"
  shows "calm a (move_leaf w session leaf f a)"
proof -
  obtain l b where b: "summarise_current_branch w session a = (l, b)" by force
  have ab: "calm a b" using calm_summarise [OF calm_refl, of a w session] b by simp
  have c: "calm a (snd (write_store w (unit_op (\<lambda>st. Inr (store_set_active_leaf session leaf st))) b))"
    by (rule calm_write_store [OF ab]) (auto simp: unit_op_def store_set_active_leaf_def)
  have r: "calm a (case read_store w (store_branch_events session) c of
      (Inl err, a) \<Rightarrow> note_store_failure w err a
    | (Inr events, a) \<Rightarrow> (case rebuild_messages_from events (a_state a) of
        Inl refusal \<Rightarrow> note_store_failure w (StoreError.Decode (replay_text w refusal)) a
      | Inr st \<Rightarrow> next_tick (a\<lparr>a_state := f st\<rparr>)))" if "calm a c" for c
  proof -
    obtain x d where d: "read_store w (store_branch_events session) c = (x, d)" by force
    have "calm a d" using calm_read_store [OF that, of w "store_branch_events session"] d by simp
    then show ?thesis
      using assms rebuild_messages_fields
      by (auto simp: d intro!: calm_next_tick calm_note_store_failure calm_state split: sum.split)
  qed
  obtain x d where d: "write_store w (unit_op (\<lambda>st. Inr (store_set_active_leaf session leaf st))) b = (x, d)"
    by force
  with c have ad: "calm a d" by simp
  show ?thesis
  proof (cases x)
    case (Inl err)
    with calm_note_store_failure [OF ad] show ?thesis by (simp add: move_leaf_def b d write_or_note_def)
  next
    case (Inr y)
    with r [OF ad] show ?thesis by (simp add: move_leaf_def b d write_or_note_def)
  qed
qed

lemma calm_rewind: "calm a (rewind_to w sequence a)"
  unfolding rewind_to_def Let_def by (auto split: option.split intro!: calm_move_leaf)

lemma calm_follow: "calm a (follow_branch w sequence a)"
  unfolding follow_branch_def by (auto split: option.split intro!: calm_move_leaf)

section \<open>Forking and starting over\<close>

lemma calm_append_messages:
  "(\<And>b. calm a b \<Longrightarrow> calm a (g b)) \<Longrightarrow> calm a b \<Longrightarrow> calm a (append_messages w session ms g b)"
proof (induction ms arbitrary: b)
  case (Cons m ms)
  from Cons.IH [OF Cons.prems(1)] show ?case
    unfolding append_messages.simps
    by (intro calm_persist_or Cons.prems(2) calm_note_store_failure) simp_all
qed simp

lemma calm_carry_into: "calm a b \<Longrightarrow> calm a (carry_into w session rs before b)"
proof -
  assume b: "calm a b"
  obtain x d where d: "read_store w (store_branch_events session) b = (x, d)" by force
  have "calm a d" using calm_read_store [OF b, of w "store_branch_events session"] d by simp
  then show ?thesis
    using rebuild_messages_fields
    by (auto simp: carry_into_def d intro!: calm_note_store_failure calm_refuse calm_state split: sum.split)
qed

lemma rests_fresh:
  assumes "idle a" "st_session st = None" "st_pending_approval st = None"
  shows "rests a (upd_state (\<lambda>_. st) a)"
  using assms by (auto simp: rests_def upd_state_def starts_def intro!: idle_closed dest: idle_store)

lemma fork_session_rests:
  assumes "idle a"
  shows "rests a (fork_session w before a)"
proof -
  have forked: "rests a (case release_lease w a of
      (Inl err, a) \<Rightarrow> note_store_failure w err a
    | (Inr _, a) \<Rightarrow>
       (let a = create_session w p m (upd_state (\<lambda>st. (reset_keeping_project st)\<lparr>st_workspace_root := Some root,
            st_policy := policy\<rparr>) a)
        in case st_session (a_state a) of
             None \<Rightarrow> a
           | Some session \<Rightarrow> append_messages w session ms (carry_into w session read_set old) a))"
    for p m root policy ms read_set old
  proof -
    obtain x b where b: "release_lease w a = (x, b)" by force
    have ab: "rests a b" using release_lease_rests [OF assms b] by simp
    let ?c = "upd_state (\<lambda>st. (reset_keeping_project st)\<lparr>st_workspace_root := Some root, st_policy := policy\<rparr>) b"
    have "rests b ?c"
      using ab rests_fresh [of b "(reset_keeping_project (a_state b))\<lparr>st_workspace_root := Some root, st_policy := policy\<rparr>"]
      by (simp add: rests_def upd_state_def)
    then have c: "rests a ?c" using ab rests_trans by blast
    define d where "d = create_session w p m ?c"
    have d: "rests a d" using rests_trans [OF c create_session_rests] c by (simp add: d_def rests_def)
    have "calm d (append_messages w session ms (carry_into w session read_set old) d)" for session
      by (rule calm_append_messages) (simp_all add: calm_carry_into)
    with d have "rests a (append_messages w session ms (carry_into w session read_set old) d)" for session
      by (rule rests_calm_trans)
    with d rests_note [OF ab] b show ?thesis
      by (simp add: Let_def split: sum.split option.split flip: d_def)
  qed
  show ?thesis
    unfolding fork_session_def
    using forked by (auto simp: Let_def rests_refl [OF assms] rests_refuse [OF assms] split: option.split sum.split)
qed

lemma new_session_rests:
  assumes "idle a"
  shows "rests a (new_session_from_handoff w a)"
proof -
  have "rests a (case release_lease w a of
      (Inl err, a) \<Rightarrow> note_store_failure w err a
    | (Inr _, a) \<Rightarrow>
       (let a = create_session w p m (upd_state (\<lambda>st. (reset_keeping_project st)\<lparr>st_workspace_root := Some root\<rparr>) a)
        in case st_session (a_state a) of
             None \<Rightarrow> a
           | Some session \<Rightarrow> seed_from_handoff w session handoff a))" for p m root handoff
  proof -
    obtain x b where b: "release_lease w a = (x, b)" by force
    have ab: "rests a b" using release_lease_rests [OF assms b] by simp
    let ?c = "upd_state (\<lambda>st. (reset_keeping_project st)\<lparr>st_workspace_root := Some root\<rparr>) b"
    have "rests b ?c"
      using ab rests_fresh [of b "(reset_keeping_project (a_state b))\<lparr>st_workspace_root := Some root\<rparr>"]
      by (simp add: rests_def upd_state_def)
    then have c: "rests a ?c" using ab rests_trans by blast
    define d where "d = create_session w p m ?c"
    have d: "rests a d" using rests_trans [OF c create_session_rests] c by (simp add: d_def rests_def)
    have "calm d (seed_from_handoff w session handoff d)" for session
      unfolding seed_from_handoff_def Let_def push_message_def by (auto intro!: calm_intros)
    with d have "rests a (seed_from_handoff w session handoff d)" for session by (rule rests_calm_trans)
    with d rests_note [OF ab] b show ?thesis
      by (simp add: Let_def split: sum.split option.split flip: d_def)
  qed
  then show ?thesis
    unfolding new_session_from_handoff_def Let_def
    by (auto simp: rests_refl [OF assms] split: option.split)
qed

lemma resolve_resume_rests:
  assumes "idle a"
  shows "rests a (resolve_resume w choice a)"
proof -
  have "calm a (case compact w COMPACT_RECENT_TURNS a of
      (True, a) \<Rightarrow> upd_state (\<lambda>st. st\<lparr>st_resume_advice := None\<rparr>) a | (False, a) \<Rightarrow> a)"
    using calm_compact [OF calm_refl, of a w COMPACT_RECENT_TURNS]
    by (auto split: prod.split bool.split intro!: calm_intros)
  moreover have "calm a (upd_state (\<lambda>st. (disable_compact_context st)\<lparr>st_resume_advice := None\<rparr>) a)"
    by (auto simp: disable_compact_context_def intro!: calm_intros)
  ultimately show ?thesis
    using new_session_rests [OF assms] rests_calm [OF assms]
    by (auto simp: resolve_resume_def rests_refl [OF assms] split: ResumeChoice.split)
qed

lemma calm_tools: "calm a b \<Longrightarrow> calm a (b\<lparr>a_tools := ts\<rparr>)"
  by (simp add: calm_def kept_def tracker_of_def fun_eq_iff)

lemma calm_load_extension: "calm a (load_extension w name a)"
proof -
  have "calm a (snd (register_extension w session name authority a))" for session authority
    unfolding register_extension_def
    by (auto intro!: calm_intros calm_tools split: option.split)
  then show ?thesis
    unfolding load_extension_def
    by (auto split: option.split prod.split sum.split intro!: calm_intros) (metis snd_conv)+
qed

end
