(* ===== verification/Actor_System.thy ===== *)
theory Actor_System
  imports Lifecycle_Idle
begin

text \<open>
  The actor and what it has started. The commands of a client and the mail of the actor
  (\<open>\<^verbatim>\<close>\<open>core/command.rs\<close>, the mail of \<open>\<^verbatim>\<close>\<open>runtime/mod.rs\<close>) are dispatched to the handlers. A system is
  the actor with the tasks it has started and that have not ended; it moves by a command, by
  the mail of a task that is there, by the timer of a run, by a notice, and by the process ending
  between two mails, orderly or not, and starting again on the same store.

  Commands that only write files, credentials or a projection for clients are left out, as
  are the acknowledged families; a command that waits for a catalogue is delivered late.
\<close>

section \<open>Commands\<close>

datatype (plugins only: size) MjolnrCommand =
    CreateSession ProviderId ModelId
  | SelectModel ProviderId ModelId
  | AttachRoute "string option" "string option" string
  | SelectPersona "string option"
  | SetPolicy PolicyMode
  | ArmSpawnEnvelope SpawnEnvelope
  | ClearSpawnEnvelope
  | SendUserMessage string DirectiveSource
  | LoadExtension string
  | RewindTo u64
  | RollbackToCheckpoint u64 "string option"
  | ForkSession "u64 option"
  | FollowBranch u64
  | QueueSteeringMessage string
  | CreateHandoff "string option"
  | ResolveResume ResumeChoice
  | ResolveApproval ApprovalId ApprovalDecision
  | ResolveRecovery RecoveryDecision
  | CancelRun
  | EndSession
  | ReleaseSession
  | ReclaimSession SessionId
  | ResumeSession SessionId
  | ResumeCompact SessionId "ProviderId option" "ModelId option"

text \<open>The head is what the projected repository reports, where one is projected.\<close>

definition rollback_to_checkpoint ::
  "World \<Rightarrow> string option \<Rightarrow> u64 \<Rightarrow> string option \<Rightarrow> Actor \<Rightarrow> Actor" where
  "rollback_to_checkpoint w head target expected a =
     (if st_session (a_state a) = None \<or> a_run a \<noteq> None then a
      else case (expected, head) of
        (Some e, Some h) \<Rightarrow> if h \<noteq> e then a else rewind_to w target a
      | _ \<Rightarrow> rewind_to w target a)"

definition handle_command :: "World \<Rightarrow> string option \<Rightarrow> MjolnrCommand \<Rightarrow> Actor \<Rightarrow> Actor" where
  "handle_command w head command a = (case command of
      CreateSession provider model \<Rightarrow> create_session w provider model a
    | SelectModel provider model \<Rightarrow> snd (select_model w provider model a)
    | AttachRoute route role_tag task_class \<Rightarrow> attach_route w route role_tag task_class a
    | SelectPersona voice \<Rightarrow> upd_state (\<lambda>st. st\<lparr>st_persona_override := voice\<rparr>) a
    | SetPolicy mode \<Rightarrow> reconcile_envelope_with_policy w mode (set_policy w mode a)
    | ArmSpawnEnvelope env \<Rightarrow> arm_spawn_envelope w env a
    | ClearSpawnEnvelope \<Rightarrow> clear_spawn_envelope w Withdrawn a
    | SendUserMessage text source \<Rightarrow> send_user_message w text source a
    | LoadExtension name \<Rightarrow> load_extension w name a
    | RewindTo sequence \<Rightarrow> rewind_to w sequence a
    | RollbackToCheckpoint target expected \<Rightarrow> rollback_to_checkpoint w head target expected a
    | ForkSession before \<Rightarrow> fork_session w before a
    | FollowBranch sequence \<Rightarrow> follow_branch w sequence a
    | QueueSteeringMessage text \<Rightarrow> queue_steering w text a
    | CreateHandoff target \<Rightarrow> start_handoff w target a
    | ResolveResume choice \<Rightarrow> resolve_resume w choice a
    | ResolveApproval approval answer \<Rightarrow> resolve_approval w approval answer a
    | ResolveRecovery answer \<Rightarrow> resolve_recovery w answer a
    | CancelRun \<Rightarrow> cancel_run w a
    | MjolnrCommand.EndSession \<Rightarrow> end_session w a
    | ReleaseSession \<Rightarrow> release_session w a
    | ReclaimSession session \<Rightarrow> reclaim_session w session a
    | ResumeSession session \<Rightarrow> resume_session w session a
    | ResumeCompact session provider model \<Rightarrow> resume_compact w session provider model a)"

section \<open>Mail\<close>

datatype (plugins only: size) Mail =
    Command "string option" MjolnrCommand
  | OpenProject string
  | ProviderMail RunId ProviderEvent
  | ProviderTurnEnded RunId StreamOutcome
  | ToolEnded RunId ToolCall ToolTaskOutcome
  | BudgetExpired RunId
  | Subagent SubagentNotice

definition handle :: "World \<Rightarrow> Mail \<Rightarrow> Actor \<Rightarrow> Actor" where
  "handle w mail a = (case mail of
      Command head command \<Rightarrow> handle_command w head command a
    | OpenProject root \<Rightarrow> snd (open_project w root a)
    | ProviderMail run e \<Rightarrow> handle_provider_event w run e a
    | ProviderTurnEnded run result \<Rightarrow> handle_provider_turn_ended w run result a
    | ToolEnded run call result \<Rightarrow> handle_tool_ended w run call result a
    | BudgetExpired run \<Rightarrow> exhaust_budget w run a
    | Subagent n \<Rightarrow> handle_subagent_notice w n a)"

section \<open>The system\<close>

record System =
  sys_actor :: Actor
  sys_tasks :: "Output list"

text \<open>The actor of a new process on a store.\<close>

definition spawn_actor :: "World \<Rightarrow> Inner \<Rightarrow> (string \<times> ToolSpec) list \<Rightarrow> ChildLink option \<Rightarrow> nat \<Rightarrow> Output list \<Rightarrow> Actor" where
  "spawn_actor w store registry link ticks out = refresh_session_list w
     \<lparr>a_store = store, a_state = SessionState_default, a_run = None, a_recovery = Clean,
      a_lease = None, a_child_link = link, a_tools = registry, a_ticks = ticks, a_out = out\<rparr>"

definition restarted :: "World \<Rightarrow> (string \<times> ToolSpec) list \<Rightarrow> Actor \<Rightarrow> System" where
  "restarted w registry a = \<lparr>sys_actor = spawn_actor w (a_store a) registry (a_child_link a) (a_ticks a) (a_out a),
     sys_tasks = []\<rparr>"

definition task_run :: "Output \<Rightarrow> RunId option" where
  "task_run t = (case t of
      StartProvider run _ \<Rightarrow> Some run
    | StartTool run _ \<Rightarrow> Some run
    | StartChildren run _ _ \<Rightarrow> Some run
    | _ \<Rightarrow> None)"

text \<open>Whether the mail of a task's end is the one this task sends.\<close>

definition ends_task :: "Mail \<Rightarrow> Output \<Rightarrow> bool" where
  "ends_task mail t \<longleftrightarrow> (case (mail, t) of
      (ProviderTurnEnded run _, StartProvider run' _) \<Rightarrow> run = run'
    | (ToolEnded run call _, StartTool run' call') \<Rightarrow> run = run' \<and> call = call'
    | (ToolEnded run call _, StartChildren run' call' _) \<Rightarrow> run = run' \<and> call = call'
    | _ \<Rightarrow> False)"

text \<open>Mail a task has to have sent.\<close>

definition of_task :: "Mail \<Rightarrow> bool" where
  "of_task mail \<longleftrightarrow> (case mail of ProviderTurnEnded _ _ \<Rightarrow> True | ToolEnded _ _ _ \<Rightarrow> True | _ \<Rightarrow> False)"

definition streams :: "Mail \<Rightarrow> Output list \<Rightarrow> bool" where
  "streams mail ts \<longleftrightarrow> (case mail of
      ProviderMail run _ \<Rightarrow> (\<exists>request. StartProvider run request \<in> set ts)
    | _ \<Rightarrow> True)"

text \<open>The tasks left when a mail is handled, and those the handler adds.\<close>

definition spawned :: "Actor \<Rightarrow> Actor \<Rightarrow> Output list" where
  "spawned a b = drop (length (starts a)) (starts b)"

definition deliver :: "World \<Rightarrow> Mail \<Rightarrow> Output list \<Rightarrow> Actor \<Rightarrow> System" where
  "deliver w mail ts a =
     (let b = handle w mail a in \<lparr>sys_actor = b, sys_tasks = ts @ spawned a b\<rparr>)"

text \<open>A run is started under an id no task has.\<close>

definition new_id :: "Actor \<Rightarrow> Actor \<Rightarrow> Output list \<Rightarrow> bool" where
  "new_id a b ts \<longleftrightarrow> (case (a_run a, a_run b) of
      (None, Some r) \<Rightarrow> list_all (\<lambda>t. task_run t \<noteq> Some (run_id r)) ts
    | _ \<Rightarrow> True)"

inductive step :: "World \<Rightarrow> System \<Rightarrow> System \<Rightarrow> bool" for w where
  mail: "\<not> of_task m \<Longrightarrow> streams m (sys_tasks s) \<Longrightarrow>
      new_id (sys_actor s) (handle w m (sys_actor s)) (sys_tasks s) \<Longrightarrow>
      step w s (deliver w m (sys_tasks s) (sys_actor s))"
| ended: "sys_tasks s = before @ t # after \<Longrightarrow> ends_task m t \<Longrightarrow>
      step w s (deliver w m (before @ after) (sys_actor s))"
| stop: "step w s (restarted w registry (snd (shutdown w (sys_actor s))))"
| crash: "step w s (restarted w registry (sys_actor s))"

inductive reachable :: "World \<Rightarrow> System \<Rightarrow> bool" for w where
  start: "reachable w \<lparr>sys_actor = spawn_actor w Inner_default registry link 0 [], sys_tasks = []\<rparr>"
| more: "reachable w s \<Longrightarrow> step w s s' \<Longrightarrow> reachable w s'"

inductive_cases stepE: "step w s s'"

section \<open>What holds of a system\<close>

text \<open>
  The run of the actor and the tasks it has under way: a provider that is asked, nothing for a
  run that waits for a human or stalls, or the tool that the log says was started.
\<close>

definition attended :: "ActiveRun \<Rightarrow> Actor \<Rightarrow> Output list \<Rightarrow> bool" where
  "attended r a ts \<longleftrightarrow>
     (in_run r None a \<and> awaiting_approval r = None
        \<and> (ts = [] \<or> (\<exists>request. ts = [StartProvider (run_id r) request])))
     \<or> (\<exists>i call spec preview. in_run r (Some (AwaitingApproval i call (tool_tier spec) preview)) a
        \<and> awaiting_approval r = Some \<lparr>pt_approval = i, pt_call = call, pt_tool = spec\<rparr> \<and> ts = [])
     \<or> (\<exists>authority call tier preview. in_run r (Some (Started authority call tier preview)) a
        \<and> awaiting_approval r = None
        \<and> (ts = [StartTool (run_id r) call] \<or> (\<exists>children. ts = [StartChildren (run_id r) call children])))"

definition own_tasks :: "RunId \<Rightarrow> Output list \<Rightarrow> Output list" where
  "own_tasks run ts = filter (\<lambda>t. task_run t = Some run) ts"

definition coherent :: "Actor \<Rightarrow> Output list \<Rightarrow> bool" where
  "coherent a ts \<longleftrightarrow> (case a_run a of
      None \<Rightarrow> idle a
    | Some r \<Rightarrow> attended r a (own_tasks (run_id r) ts))"

lemma coherent_idle: "idle a \<Longrightarrow> coherent a ts"
  by (simp add: coherent_def)

lemma own_append [simp]: "own_tasks run (ts @ us) = own_tasks run ts @ own_tasks run us"
  by (simp add: own_tasks_def)

lemma own_none: "list_all (\<lambda>t. task_run t \<noteq> Some run) ts \<Longrightarrow> own_tasks run ts = []"
  by (simp add: own_tasks_def list_all_iff filter_empty_conv)

lemma own_simps [simp]:
  "own_tasks run [] = []"
  "own_tasks run (StartProvider run' request # ts)
     = (if run' = run then StartProvider run' request # own_tasks run ts else own_tasks run ts)"
  "own_tasks run (StartTool run' call # ts)
     = (if run' = run then StartTool run' call # own_tasks run ts else own_tasks run ts)"
  "own_tasks run (StartChildren run' call children # ts)
     = (if run' = run then StartChildren run' call children # own_tasks run ts else own_tasks run ts)"
  by (simp_all add: own_tasks_def task_run_def)

lemma spawned_append [simp]: "starts b = starts a @ ts \<Longrightarrow> spawned a b = ts"
  "starts b = starts a \<Longrightarrow> spawned a b = []"
  by (simp_all add: spawned_def)

lemma driven_coherent:
  assumes "driven run session a b" "a_run b \<noteq> None \<Longrightarrow> own_tasks run ts = []"
  shows "coherent b (ts @ spawned a b)"
proof -
  obtain r where r: "run_id r = run" "run_session r = session" "awaiting_approval r = None"
    and "outcome r a b"
    using assms(1) by (auto simp: driven_def)
  then consider "stopped a b" | "held r a b" | "asking r None a b"
    | authority call tier preview where "launched r (Some (Started authority call tier preview)) call a b"
    | "running r None b" "starts b = starts a"
    by (auto simp: outcome_def)
  then show ?thesis
  proof cases
    case 1
    then show ?thesis by (simp add: stopped_def coherent_idle)
  next
    case 2
    then obtain r' i call spec preview where h: "run_id r' = run_id r"
      "in_run r' (Some (AwaitingApproval i call (tool_tier spec) preview)) b"
      "awaiting_approval r' = Some \<lparr>pt_approval = i, pt_call = call, pt_tool = spec\<rparr>" "starts b = starts a"
      by (auto simp: held_def)
    then have "a_run b = Some r'" by (simp add: in_run_def)
    with h r assms(2) show ?thesis by (auto simp: coherent_def attended_def)
  next
    case 3
    then obtain r' request where h: "same_run r r'" "in_run r' None b"
      "starts b = starts a @ [StartProvider (run_id r) request]"
      by (auto simp: asking_def)
    then have "a_run b = Some r'" by (simp add: in_run_def)
    with h r assms(2) show ?thesis by (auto simp: coherent_def attended_def same_run_def)
  next
    case 4
    then obtain r' out where h: "same_run r r'" "in_run r' (Some (Started authority call tier preview)) b"
      "starts b = starts a @ [out]"
      "out = StartTool (run_id r) call \<or> (\<exists>children. out = StartChildren (run_id r) call children)"
      by (auto simp: launched_def)
    then have "a_run b = Some r'" by (simp add: in_run_def)
    with h r assms(2) show ?thesis by (auto simp: coherent_def attended_def same_run_def)
  next
    case 5
    then obtain r' where h: "same_run r r'" "in_run r' None b" by (auto simp: running_def)
    then have "a_run b = Some r'" by (simp add: in_run_def)
    with 5 h r assms(2) show ?thesis by (auto simp: coherent_def attended_def same_run_def)
  qed
qed

section \<open>Commands during a run\<close>

text \<open>A command leaves a run to go on as it was, or ends it; only an approval moves it.\<close>

definition stays :: "ActiveRun \<Rightarrow> PendingWork option \<Rightarrow> Actor \<Rightarrow> Actor \<Rightarrow> bool" where
  "stays r work a b \<longleftrightarrow> starts b = starts a \<and> (idle b \<or> (\<exists>r'. run_id r' = run_id r \<and> run_session r' = run_session r
     \<and> awaiting_approval r' = awaiting_approval r \<and> in_run r' work b))"

lemma stays_calm: "in_run r work a \<Longrightarrow> calm a b \<Longrightarrow> stays r work a b"
  by (auto simp: stays_def intro: in_run_calm starts_calm)

lemma stays_refl: "in_run r work a \<Longrightarrow> stays r work a a"
  by (auto simp: stays_def)

lemma in_run_facts:
  "in_run r work a \<Longrightarrow> a_run a = Some r \<and> st_session (a_state a) = Some (run_session r) \<and> a_recovery a = Clean"
  by (simp add: in_run_def)

lemma stays_select_model:
  assumes "in_run r work a"
  shows "stays r work a (snd (select_model w p m a)) \<and> \<not> fst (select_model w p m a)"
proof -
  have "stays r work a (refuse_model_change w s p m code detail (Some (run_id r)) a)" for s code detail
    unfolding refuse_model_change_def
  proof (rule calm_persisted)
    fix err b
    assume b: "calm a b"
    have "active_run (run_id r) b \<noteq> None" "store_sound (a_store b)"
      using in_run_calm [OF assms b] by (simp_all add: in_run_def active_run_def)
    then have "idle (halt_for_store w (run_id r) err b)" by (rule idle_halt)
    with starts_calm [OF b] show "stays r work a
        ((case Some (run_id r) of None \<Rightarrow> note_store_failure w err | Some run \<Rightarrow> halt_for_store w run err) b)"
      by (simp add: stays_def)
  qed (use stays_calm [OF assms] in auto)
  with in_run_facts [OF assms] show ?thesis by (simp add: select_model_def Let_def)
qed

lemma stays_cancel:
  assumes "in_run r work a"
  shows "stays r work a (cancel_run w a)"
proof -
  let ?a = "emit (CancelToken (run_id r)) a"
  have "in_run r work ?a" using assms by (simp add: in_run_def emit_def tracker_of_def)
  with running_idle_finish [OF running_in_run [OF this], of w] in_run_facts [OF assms] show ?thesis
    by (auto simp: cancel_run_def stays_def Let_def)
qed

lemma stays_handoff:
  assumes "in_run r work a"
  shows "stays r work a (start_handoff w target a)"
proof -
  have "stays r work a (a\<lparr>a_run := Some (r\<lparr>handoff_target := x, run_intent := y\<rparr>)\<rparr>)" for x y
    using assms by (auto simp: stays_def in_run_def tracker_of_def
        intro!: exI [of _ "r\<lparr>handoff_target := x, run_intent := y\<rparr>"])
  with in_run_facts [OF assms] stays_refl [OF assms] show ?thesis
    by (auto simp: start_handoff_def Let_def split: option.split)
qed

lemma stays_resume_compact:
  assumes "in_run r work a"
  shows "stays r work a (resume_compact w session p m a)"
proof -
  define b where "b = resume_session w session a"
  have ab: "calm a b"
    using in_run_facts [OF assms] unfolding b_def resume_session_def by (auto intro: calm_intros)
  then have ib: "in_run r work b" by (rule in_run_calm [OF assms])
  have cc: "calm b (case compact w 2 b of
      (False, a) \<Rightarrow> refuse w detail a | (True, a) \<Rightarrow> upd_state (\<lambda>st. st\<lparr>st_resume_advice := None\<rparr>) a)" for detail
    using calm_compact [OF calm_refl, of b w 2]
    by (auto split: prod.split bool.split intro!: calm_intros)
  obtain c where c: "select_model w (the p) (the m) b = (False, c)" "stays r work b c"
    using stays_select_model [OF ib, of w "the p" "the m"] by (metis prod.collapse)
  have "stays r work b (resume_compact w session p m a)"
    unfolding resume_compact_def Let_def b_def [symmetric]
    using c stays_calm [OF ib cc] stays_refl [OF ib] stays_calm [OF ib calm_refuse [OF calm_refl]]
    by (cases p; cases m) auto
  with starts_calm [OF ab] show ?thesis by (simp add: stays_def)
qed

lemma command_stays:
  assumes "in_run r work a" "\<And>i x. command \<noteq> ResolveApproval i x"
  shows "stays r work a (handle_command w head command a)"
proof -
  note facts = in_run_facts [OF assms(1)]
  have keep: "stays r work a b" if "calm a b" for b using stays_calm [OF assms(1) that] .
  have same: "stays r work a a" using stays_refl [OF assms(1)] .
  have voice: "calm a (upd_state (\<lambda>st. st\<lparr>st_persona_override := x\<rparr>) a)"
    "calm a (upd_state (\<lambda>st. st\<lparr>st_steering := y\<rparr>) a)" for x y
    by (auto intro: calm_intros)
  show ?thesis
  proof (cases command)
    case (CreateSession p m)
    with facts keep [OF calm_refuse [OF calm_refl]] show ?thesis by (simp add: handle_command_def create_session_def)
  next
    case (RollbackToCheckpoint t e)
    with facts same show ?thesis by (simp add: handle_command_def rollback_to_checkpoint_def)
  next
    case (ResolveApproval i x)
    with assms(2) show ?thesis by blast
  next
    case (SetPolicy mode)
    show ?thesis by (auto simp: handle_command_def SetPolicy intro!: keep calm_intros)
  next
    case (ArmSpawnEnvelope env)
    show ?thesis by (auto simp: handle_command_def ArmSpawnEnvelope intro!: keep calm_intros)
  next
    case ClearSpawnEnvelope
    show ?thesis by (auto simp: handle_command_def ClearSpawnEnvelope intro!: keep calm_intros)
  next
    case (QueueSteeringMessage t)
    with facts keep voice(2) show ?thesis by (auto simp: handle_command_def queue_steering_def upd_state_def)
  qed (use facts same keep voice(1) calm_load_extension calm_rewind calm_follow stays_cancel [OF assms(1)]
      stays_handoff [OF assms(1)] stays_select_model [OF assms(1)] stays_resume_compact [OF assms(1)]
      keep [OF calm_refuse [OF calm_refl]] in
    \<open>auto simp: handle_command_def attach_route_def send_user_message_def start_run_def fork_session_def
      resolve_resume_def resolve_recovery_def is_required_def end_session_def release_session_def
      reclaim_session_def resume_session_def split: option.split\<close>)
qed

section \<open>Commands without a run\<close>

lemma command_begun:
  assumes "idle a"
  shows "begun a (handle_command w head command a)"
proof -
  have none: "a_run a = None" using assms by simp
  have keep: "begun a b" if "calm a b" for b using begun_calm [OF assms that] .
  have rest: "begun a b" if "rests a b" for b using rests_begun [OF that] .
  have voice: "calm a (upd_state (\<lambda>st. st\<lparr>st_persona_override := x\<rparr>) a)" for x by (auto intro: calm_intros)
  show ?thesis
  proof (cases command)
    case (SetPolicy mode)
    show ?thesis by (auto simp: handle_command_def SetPolicy intro!: keep calm_intros)
  next
    case (ArmSpawnEnvelope env)
    show ?thesis by (auto simp: handle_command_def ArmSpawnEnvelope intro!: keep calm_intros)
  next
    case ClearSpawnEnvelope
    show ?thesis by (auto simp: handle_command_def ClearSpawnEnvelope intro!: keep calm_intros)
  next
    case (SelectModel p m)
    show ?thesis by (simp add: handle_command_def SelectModel keep calm_select_model none)
  next
    case (AttachRoute route tag task)
    show ?thesis by (simp add: handle_command_def AttachRoute rest attach_route_rests assms)
  next
    case (RollbackToCheckpoint target expected)
    show ?thesis
      by (auto simp: handle_command_def RollbackToCheckpoint rollback_to_checkpoint_def
          intro: keep calm_rewind calm_refl split: option.split)
  next
    case (ResolveApproval i x)
    show ?thesis
      by (simp add: handle_command_def ResolveApproval resolve_approval_def none keep calm_refl)
  next
    case CancelRun
    show ?thesis by (simp add: handle_command_def CancelRun cancel_run_def none keep calm_refl)
  next
    case (QueueSteeringMessage t)
    show ?thesis
      by (simp add: handle_command_def QueueSteeringMessage queue_steering_def none start_run_begun assms)
  next
    case (ResumeSession session)
    show ?thesis
      using resume_session_reread [OF assms, of w session]
      by (simp add: handle_command_def ResumeSession reread_def rest)
  next
    case (ResumeCompact session p m)
    show ?thesis
      using resume_compact_reread [OF assms, of w session p m]
      by (simp add: handle_command_def ResumeCompact reread_def rest)
  qed (simp_all add: handle_command_def keep rest voice create_session_rests send_user_message_def start_run_begun
      calm_load_extension calm_rewind fork_session_rests calm_follow start_handoff_begun resolve_resume_rests
      resolve_recovery_rests end_session_rests release_session_rests reclaim_session_rests assms)
qed

section \<open>Every step\<close>

lemma begun_coherent:
  assumes "begun a b" "a_run a = None" "new_id a b ts"
  shows "coherent b (ts @ spawned a b)"
  using assms(1) unfolding begun_def
proof
  assume "\<exists>run session. driven run session a b"
  then obtain run session where d: "driven run session a b" by blast
  have "own_tasks run ts = []" if "a_run b = Some r" for r
  proof -
    have "run_id r = run"
      using d that by (auto simp: driven_def outcome_def stopped_def idle_def held_def asking_def launched_def
          running_def in_run_def same_run_def)
    with assms(2,3) that show ?thesis by (auto simp: new_id_def intro: own_none)
  qed
  with d show ?thesis by (intro driven_coherent [OF d]) auto
qed (auto intro: coherent_idle)

text \<open>Of the three shapes of a run that is attended, what each says of it.\<close>

lemma attended_in_run: "attended r a ts \<Longrightarrow> \<exists>work. in_run r work a"
  by (auto simp: attended_def)

lemma attended_unique:
  assumes "in_run r work a" "attended r a ts" "in_run r' work b"
    and "run_id r' = run_id r" "run_session r' = run_session r" "awaiting_approval r' = awaiting_approval r"
  shows "attended r' b ts"
  using assms by (auto simp: attended_def in_run_def)

lemma stays_coherent:
  assumes "coherent a ts" "in_run r work a" "stays r work a b"
  shows "coherent b (ts @ spawned a b)"
proof -
  have a: "attended r a (own_tasks (run_id r) ts)" "a_run a = Some r"
    using assms(1,2) by (simp_all add: coherent_def in_run_def)
  from assms(3) show ?thesis
    unfolding stays_def
  proof (elim conjE disjE exE)
    fix r'
    assume r': "starts b = starts a" "run_id r' = run_id r" "run_session r' = run_session r"
      "awaiting_approval r' = awaiting_approval r" "in_run r' work b"
    then have "a_run b = Some r'" by (simp add: in_run_def)
    with attended_unique [OF assms(2) a(1) r'(5,2,3,4)] r' show ?thesis by (simp add: coherent_def)
  qed (simp add: coherent_idle)
qed

lemma calm_coherent:
  assumes "coherent a ts" "calm a b"
  shows "coherent b (ts @ spawned a b)"
proof (cases "a_run a")
  case None
  with assms(1) have "idle a" by (simp add: coherent_def)
  from idle_calm [OF this assms(2)] show ?thesis by (rule coherent_idle)
next
  case (Some r)
  with assms(1) obtain work where "in_run r work a"
    by (auto simp: coherent_def dest: attended_in_run)
  from stays_coherent [OF assms(1) this stays_calm [OF this assms(2)]] show ?thesis .
qed

lemma calm_subagent: "calm a (handle_subagent_notice w n a)"
  unfolding handle_subagent_notice_def notice_event_def
  by (auto intro!: calm_intros split: option.split SubagentNotice.split)

lemma in_run_free: "in_run r work a \<Longrightarrow> awaiting_approval r = None \<Longrightarrow> free (run_id r) (run_session r) work a"
  by (auto simp: free_def intro: running_in_run)

text \<open>The mail of a task that has not ended, and the commands.\<close>

lemma command_coherent:
  assumes "coherent a ts" "new_id a (handle_command w head command a) ts"
  shows "coherent (handle_command w head command a) (ts @ spawned a (handle_command w head command a))"
proof (cases "a_run a")
  case None
  with assms(1) have "idle a" by (simp add: coherent_def)
  from begun_coherent [OF command_begun [OF this] None assms(2)] show ?thesis .
next
  case (Some r)
  with assms(1) have at: "attended r a (own_tasks (run_id r) ts)" by (simp add: coherent_def)
  obtain work where r: "in_run r work a" using attended_in_run [OF at] by blast
  show ?thesis
  proof (cases "\<exists>i x. command = ResolveApproval i x")
    case False
    with stays_coherent [OF assms(1) r command_stays [OF r]] show ?thesis by blast
  next
    case True
    then obtain i x where c: "handle_command w head command a = resolve_approval w i x a"
      by (auto simp: handle_command_def)
    have same: "coherent a (ts @ spawned a a)" using assms(1) by simp
    show ?thesis
    proof (cases "awaiting_approval r = None")
      case True
      with Some have "resolve_approval w i x a = a" by (simp add: resolve_approval_def)
      with same c show ?thesis by simp
    next
      case False
      with at obtain j call spec preview where h: "in_run r (Some (AwaitingApproval j call (tool_tier spec) preview)) a"
        "awaiting_approval r = Some \<lparr>pt_approval = j, pt_call = call, pt_tool = spec\<rparr>"
        "own_tasks (run_id r) ts = []"
        by (auto simp: attended_def)
      from resolve_approval_driven [OF h(1,2), of w i x] show ?thesis
        using same driven_coherent [of "run_id r" "run_session r" a _ ts] h(3) c by auto
    qed
  qed
qed

lemma same_coherent: "coherent a ts \<Longrightarrow> coherent a (ts @ spawned a a)"
  by simp

lemma budget_coherent:
  assumes "coherent a ts"
  shows "coherent (exhaust_budget w run a) (ts @ spawned a (exhaust_budget w run a))"
proof (cases "active_run run a")
  case None
  then show ?thesis using assms by (simp add: exhaust_budget_def)
next
  case (Some r)
  then have r: "a_run a = Some r" "run_id r = run"
    by (auto simp: active_run_def split: option.splits if_splits)
  with assms obtain work where "in_run r work a"
    by (auto simp: coherent_def dest: attended_in_run)
  from running_idle_exhaust [OF running_in_run [OF this], of w] r show ?thesis
    by (simp add: coherent_idle)
qed

text \<open>The mail of another run's task is dropped.\<close>

lemma other_run:
  assumes "active_run run a = None"
  shows "handle_provider_event w run e a = a" "handle_provider_turn_ended w run result a = a"
    "handle_tool_ended w run call result' a = a"
  using assms by (simp_all add: handle_provider_event_def handle_provider_turn_ended_def handle_tool_ended_def)

lemma active_run_Some: "active_run run a = Some r \<longleftrightarrow> a_run a = Some r \<and> run_id r = run"
  by (auto simp: active_run_def split: option.splits)

lemma event_coherent:
  assumes "coherent a ts" "StartProvider run request \<in> set ts"
  shows "coherent (handle_provider_event w run e a) (ts @ spawned a (handle_provider_event w run e a))"
proof (cases "active_run run a")
  case None
  with assms(1) show ?thesis by (simp add: other_run)
next
  case (Some r)
  then have r: "a_run a = Some r" "run_id r = run" by (simp_all add: active_run_Some)
  with assms have at: "attended r a (own_tasks run ts)" "StartProvider run request \<in> set (own_tasks run ts)"
    by (auto simp: coherent_def own_tasks_def task_run_def)
  then obtain request' where h: "in_run r None a" "awaiting_approval r = None"
    "own_tasks run ts = [StartProvider run request']"
    using r(2) by (auto simp: attended_def)
  from provider_event_undisturbed [OF in_run_free [OF h(1,2)], of w e] r(2)
  consider "idle (handle_provider_event w run e a)"
    | "starts (handle_provider_event w run e a) = starts a" "free run (run_session r) None (handle_provider_event w run e a)"
    by (auto simp: undisturbed_def)
  then show ?thesis
  proof cases
    case 2
    then obtain r' where "in_run r' None (handle_provider_event w run e a)" "run_id r' = run"
      "awaiting_approval r' = None"
      by (auto simp: free_def running_def same_run_def)
    with 2(1) h(3) show ?thesis by (auto simp: coherent_def attended_def in_run_def)
  qed (rule coherent_idle)
qed

lemma own_remove:
  "own_tasks run (before @ t # after) = [t] \<Longrightarrow> task_run t = Some run \<Longrightarrow> own_tasks run (before @ after) = []"
  by (simp add: own_tasks_def append_eq_Cons_conv)

lemma own_other: "task_run t \<noteq> Some run \<Longrightarrow> own_tasks run (before @ t # after) = own_tasks run (before @ after)"
  by (simp add: own_tasks_def)

lemma ended_coherent:
  assumes "coherent a (before @ t # after)" "ends_task m t"
  shows "coherent (handle w m a) ((before @ after) @ spawned a (handle w m a))"
proof -
  obtain run where t: "task_run t = Some run" and m: "(\<exists>result. m = ProviderTurnEnded run result)
      \<or> (\<exists>call result. m = ToolEnded run call result)"
    using assms(2) by (cases t; cases m) (auto simp: ends_task_def task_run_def)
  show ?thesis
  proof (cases "active_run run a")
    case None
    then have same: "handle w m a = a" using m by (auto simp: handle_def other_run)
    have "coherent a (before @ after)"
      using assms(1) None t
      by (auto simp: coherent_def active_run_def own_other simp del: own_append split: option.splits if_splits)
    with same show ?thesis by simp
  next
    case (Some r)
    then have r: "a_run a = Some r" "run_id r = run" by (simp_all add: active_run_Some)
    then have at: "attended r a (own_tasks run (before @ t # after))"
      using assms(1) by (simp add: coherent_def)
    have t_in: "t \<in> set (own_tasks run (before @ t # after))" using t by (simp add: own_tasks_def)
    then have one: "own_tasks run (before @ t # after) = [t]" and aw: "awaiting_approval r = None"
      using at by (auto simp: attended_def simp del: own_append)
    have gone: "own_tasks run (before @ after) = []" using own_remove [OF one t] .
    obtain work where i: "in_run r work a" using attended_in_run [OF at] by blast
    have "driven run (run_session r) a (handle w m a)"
      using m
    proof
      assume "\<exists>result. m = ProviderTurnEnded run result"
      then obtain result where e: "m = ProviderTurnEnded run result" ..
      then obtain request where "t = StartProvider run request"
        using assms(2) t by (cases t) (auto simp: ends_task_def task_run_def)
      with at one r have "in_run r None a" by (auto simp: attended_def)
      from turn_ended_driven [OF in_run_free [OF this aw], of w result] e r show ?thesis by (simp add: handle_def)
    next
      assume "\<exists>call result. m = ToolEnded run call result"
      then show ?thesis
        using tool_ended_driven [OF in_run_free [OF i aw], of w] r by (auto simp: handle_def)
    qed
    from driven_coherent [OF this gone] show ?thesis .
  qed
qed

section \<open>The end of a process\<close>

lemma spawn_actor_idle:
  assumes "store_sound store"
  shows "idle (spawn_actor w store registry link ticks out)"
  unfolding spawn_actor_def
  by (rule idle_calm [OF idle_closed calm_refresh_session_list [OF calm_refl]])
    (use assms in \<open>simp_all add: SessionState_default_def\<close>)

lemma store_sound_default: "store_sound Inner_default"
  by (simp add: store_sound_def Inner_default_def bt_get_def)

lemma coherent_sound: "coherent a ts \<Longrightarrow> store_sound (a_store a)"
  by (auto simp: coherent_def idle_def in_run_def dest: attended_in_run split: option.splits)

lemma shutdown_sound:
  assumes "coherent a ts"
  shows "store_sound (a_store (snd (shutdown w a)))"
proof -
  define b where "b = (case a_run a of None \<Rightarrow> a | Some r \<Rightarrow> drop_run (run_id r) a)"
  define c where "c = snd (if a_run a \<noteq> None \<or> is_required (a_recovery b) \<or> st_store_failure (a_state b) \<noteq> None
    then (Inr (), b) else actor_checkpoint w Active b)"
  have sb: "store_sound (a_store b)"
    using coherent_sound [OF assms] by (auto simp: b_def drop_run_def emit_def split: option.split)
  have "store_sound (a_store (snd (actor_checkpoint w Active b)))" if "a_run a = None"
  proof -
    have "idle b" using assms that by (simp add: b_def coherent_def)
    from idle_calm [OF this calm_actor_checkpoint [OF this]] show ?thesis by (rule idle_store)
  qed
  with sb have sc: "store_sound (a_store c)" by (simp add: c_def)
  have "store_sound (a_store (snd (release_lease w d)))" if "a_store d = a_store c" for d
    using sc that store_release_same
    by (auto simp: release_lease_def write_store_def unit_op_def next_tick_def store_grown_def
        split: option.split prod.split sum.split)
  then have "store_sound (a_store (snd (release_lease w (snd (read_store w (\<lambda>_. ()) c)))))"
    by (simp add: read_store_def split: option.split)
  then show ?thesis
    unfolding shutdown_def Let_def case_prod_beta snd_conv c_def b_def .
qed

section \<open>Reachable systems\<close>

lemma step_coherent:
  assumes "step w s s'" "coherent (sys_actor s) (sys_tasks s)"
  shows "coherent (sys_actor s') (sys_tasks s')"
  using assms(1)
proof cases
  case (mail m)
  have "coherent (handle w m (sys_actor s)) (sys_tasks s @ spawned (sys_actor s) (handle w m (sys_actor s)))"
  proof (cases m)
    case (Command head command)
    with mail(4) command_coherent [OF assms(2)] show ?thesis by (simp add: handle_def)
  next
    case (OpenProject root)
    with calm_coherent [OF assms(2) calm_open_project] show ?thesis by (simp add: handle_def)
  next
    case (ProviderMail run e)
    with mail(3) event_coherent [OF assms(2)] show ?thesis by (auto simp: handle_def streams_def)
  next
    case (BudgetExpired run)
    with budget_coherent [OF assms(2)] show ?thesis by (simp add: handle_def)
  next
    case (Subagent n)
    with calm_coherent [OF assms(2) calm_subagent] show ?thesis by (simp add: handle_def)
  qed (use mail(2) in \<open>simp_all add: of_task_def\<close>)
  with mail(1) show ?thesis by (simp add: deliver_def Let_def)
next
  case (ended before t after m)
  with ended_coherent [of "sys_actor s" before t after m w] assms(2) show ?thesis
    by (simp add: deliver_def Let_def)
next
  case (stop registry)
  with spawn_actor_idle [OF shutdown_sound [OF assms(2)]] show ?thesis
    by (simp add: restarted_def coherent_idle)
next
  case (crash registry)
  with spawn_actor_idle [OF coherent_sound [OF assms(2)]] show ?thesis
    by (simp add: restarted_def coherent_idle)
qed

lemma reachable_coherent: "reachable w s \<Longrightarrow> coherent (sys_actor s) (sys_tasks s)"
proof (induction rule: reachable.induct)
  case (start registry link)
  show ?case by (simp add: coherent_idle spawn_actor_idle store_sound_default)
next
  case (more s s')
  then show ?case by (blast intro: step_coherent)
qed

end
