(* ===== verification/System_Facts.thy ===== *)
theory System_Facts
  imports Actor_System
begin

text \<open>
  What follows for a reachable system: what its logs say of the run of its actor, of an idle
  actor, of a process that is started again, and how a run comes to be started.
\<close>

section \<open>The log\<close>

definition session_log :: "Actor \<Rightarrow> SessionId \<Rightarrow> MjolnrEvent list" where
  "session_log a session = map stored_event (mem_log (a_store a) session)"

lemma log_matches: "matches_log (tracker_of a session) (session_log a session)"
  by (simp add: tracker_of_def log_tracker_def session_log_def fold_track_matches)

lemma log_started:
  "started_in run authority call tier preview (session_log a session)
    \<longleftrightarrow> tracker_of a session = Some \<lparr>open_id = run, open_tool = Some (Started authority call tier preview)\<rparr>"
  using log_matches [of a session] by (simp add: matches_log_def)

lemma log_waiting:
  "waiting_in run i call tier preview (session_log a session)
    \<longleftrightarrow> tracker_of a session = Some \<lparr>open_id = run, open_tool = Some (AwaitingApproval i call tier preview)\<rparr>"
  using log_matches [of a session] by (simp add: matches_log_def)

lemma log_open:
  "open_in run (session_log a session) \<longleftrightarrow> (\<exists>t. tracker_of a session = Some \<lparr>open_id = run, open_tool = t\<rparr>)"
  using log_matches [of a session] by (simp add: matches_log_def)

section \<open>The run of a reachable actor\<close>

lemma reachable_attended:
  "reachable w s \<Longrightarrow> a_run (sys_actor s) = Some r \<Longrightarrow> attended r (sys_actor s) (own_tasks (run_id r) (sys_tasks s))"
  using reachable_coherent [of w s] by (simp add: coherent_def)

definition runs_tool :: "RunId \<Rightarrow> ToolCall \<Rightarrow> Output \<Rightarrow> bool" where
  "runs_tool run call t \<longleftrightarrow> t = StartTool run call \<or> (\<exists>children. t = StartChildren run call children)"

lemma own_member: "t \<in> set ts \<Longrightarrow> task_run t = Some run \<Longrightarrow> t \<in> set (own_tasks run ts)"
  by (simp add: own_tasks_def)

lemma reachable_tool:
  assumes "reachable w s" "a_run (sys_actor s) = Some r" "t \<in> set (sys_tasks s)" "runs_tool (run_id r) call t"
  obtains authority tier preview
  where "in_run r (Some (Started authority call tier preview)) (sys_actor s)"
proof -
  have "task_run t = Some (run_id r)" using assms(4) by (auto simp: runs_tool_def task_run_def)
  with own_member [OF assms(3)] have t: "t \<in> set (own_tasks (run_id r) (sys_tasks s))" by simp
  from reachable_attended [OF assms(1,2)] obtain authority tier preview
    where "in_run r (Some (Started authority call tier preview)) (sys_actor s)"
    unfolding attended_def using t assms(4) by (auto simp: runs_tool_def)
  then show thesis by (rule that)
qed

lemma reachable_idle: "reachable w s \<Longrightarrow> a_run (sys_actor s) = None \<Longrightarrow> idle (sys_actor s)"
  using reachable_coherent [of w s] by (simp add: coherent_def)

lemma idle_recovery:
  assumes "idle a" "st_session (a_state a) = Some session" "st_store_failure (a_state a) = None"
    and "short (mem_log (a_store a) session)"
  shows "a_recovery a = tracker_finish (tracker_of a session)"
  using assms by (simp add: idle_def log_settled_def)

lemma finish_started:
  "tracker_finish tr = Required \<lparr>interrupted_run = run, interrupted_kind = EffectUncertain authority call tier preview\<rparr>
    \<longleftrightarrow> tr = Some \<lparr>open_id = run, open_tool = Some (Started authority call tier preview)\<rparr>"
  by (auto simp: tracker_finish_def split: option.split PendingWork.split)

lemma finish_waiting:
  "tracker_finish tr = Required \<lparr>interrupted_run = run, interrupted_kind = ProposalUnapproved call tier preview\<rparr>
    \<longleftrightarrow> (\<exists>i. tr = Some \<lparr>open_id = run, open_tool = Some (AwaitingApproval i call tier preview)\<rparr>)"
proof (cases tr)
  case (Some r)
  then show ?thesis
    by (cases r) (auto simp: tracker_finish_def split: option.split PendingWork.split)
qed (simp add: tracker_finish_def)

section \<open>A process that starts again\<close>

lemma spawn_actor_tracker:
  "store_sound store \<Longrightarrow> idle (spawn_actor w store registry link ticks out)
     \<and> (a_store a = store \<longrightarrow> tracker_of (spawn_actor w store registry link ticks out) = tracker_of a)"
proof -
  assume s: "store_sound store"
  let ?b = "\<lparr>a_store = store, a_state = SessionState_default, a_run = None, a_recovery = Clean,
      a_lease = None, a_child_link = link, a_tools = registry, a_ticks = ticks, a_out = out\<rparr>"
  have "calm ?b (spawn_actor w store registry link ticks out)"
    unfolding spawn_actor_def by (rule calm_refresh_session_list [OF calm_refl])
  then have "tracker_of (spawn_actor w store registry link ticks out) = tracker_of ?b" by (simp add: calm_def)
  with spawn_actor_idle [OF s] show ?thesis by (auto simp: tracker_of_store [of ?b a])
qed

text \<open>A shutdown during a run leaves its log as it is: no checkpoint, no end of the run.\<close>

lemma release_lease_store:
  assumes "release_lease w a = (x, b)"
  obtains "a_store b = a_store a" | lease where "a_store b = store_release_session lease (a_store a)"
proof (cases "a_lease a")
  case None
  with assms that(1) show thesis by (simp add: release_lease_def)
next
  case (Some lease)
  have "a_store b = a_store a \<or> a_store b = store_release_session lease (a_store a)"
    using assms Some by (auto simp: release_lease_def write_store_def unit_op_def next_tick_def map_ok_def
        split: option.splits sum.splits prod.splits if_splits)
  with that show thesis by blast
qed

definition same_entries :: "Inner \<Rightarrow> Inner \<Rightarrow> bool" where
  "same_entries st st' \<longleftrightarrow> mem_log st' = mem_log st \<and> (store_sound st \<longrightarrow> store_sound st')
     \<and> (\<forall>session. map_option mem_checkpoints (bt_get (sessions st') session)
         = map_option mem_checkpoints (bt_get (sessions st) session))"

lemma same_entries_refl [simp]: "same_entries st st"
  by (simp add: same_entries_def)

lemma same_entries_release: "same_entries st (store_release_session lease st)"
  using store_release_same [of st lease]
  by (auto simp: same_entries_def store_grown_def store_release_session_def option.map_comp comp_def)

lemma shutdown_live:
  assumes "a_run a \<noteq> None"
  shows "same_entries (a_store a) (a_store (snd (shutdown w a)))"
proof -
  obtain r where r: "a_run a = Some r" using assms by blast
  define b where "b = snd (read_store w (\<lambda>_. ()) (drop_run (run_id r) a))"
  have b: "a_store b = a_store a"
    by (simp add: b_def read_store_def drop_run_def next_tick_def emit_def split: option.split)
  obtain x c where c: "release_lease w b = (x, c)" by force
  have "a_store (snd (shutdown w a)) = a_store c"
    using r c by (simp add: shutdown_def Let_def case_prod_beta b_def)
  with b c show ?thesis
    by (metis release_lease_store same_entries_refl same_entries_release)
qed

definition starts_again :: "World \<Rightarrow> Actor \<Rightarrow> Actor \<Rightarrow> bool" where
  "starts_again w a b \<longleftrightarrow> (\<exists>registry. b = sys_actor (restarted w registry a)
     \<or> b = sys_actor (restarted w registry (snd (shutdown w a))))"

lemma starts_again_tracker:
  assumes "starts_again w a b" "in_run r work a"
  shows "idle b" "tracker_of b = tracker_of a"
proof -
  have e: "same_entries (a_store a) (a_store (snd (shutdown w a)))"
    using assms(2) by (intro shutdown_live) (simp add: in_run_def)
  have t: "tracker_of (snd (shutdown w a)) = tracker_of a"
    using e by (simp add: same_entries_def tracker_of_def fun_eq_iff)
  have s: "store_sound (a_store a)" "store_sound (a_store (snd (shutdown w a)))"
    using e assms(2) by (simp_all add: same_entries_def in_run_def)
  show "idle b" "tracker_of b = tracker_of a"
    using assms(1) spawn_actor_tracker [OF s(1)] spawn_actor_tracker [OF s(2)] t
    by (auto simp: starts_again_def restarted_def)
qed

lemma reclaim_session_reread:
  assumes "idle a"
  shows "reread a (reclaim_session w session a)"
proof -
  obtain x b where b: "write_store w (unit_op (\<lambda>st. Inr (store_break_lease session st))) a = (x, b)" by force
  have "calm a (snd (write_store w (unit_op (\<lambda>st. Inr (store_break_lease session st))) a))"
    by (rule idle_write_same [OF assms]) (auto simp: unit_op_def map_ok_Inr store_break_same)
  with b have t: "tracker_of b = tracker_of a" using calm_write_tracker by simp
  have "tracker_of (refresh_session_list w c) = tracker_of c" for c
    using calm_refresh_session_list [OF calm_refl, of c w] by (simp add: calm_def)
  then have "tracker_of (reclaim_session w session a) = tracker_of a"
    using t b by (simp add: reclaim_session_def write_or_note_def refuse_def broadcast_def tracker_of_def emit_def upd_state_def split: sum.split)
  with reclaim_session_rests [OF assms] show ?thesis by (simp add: reread_def)
qed

text \<open>What a resume after a restart reports is what the log held when the process ended.\<close>

lemma resumed_recovery:
  assumes "starts_again w a b" "in_run r work a"
    and "c = resume_session w session (reclaim_session w session b)"
    and "st_session (a_state c) = Some (run_session r)" "st_store_failure (a_state c) = None"
    and "short (mem_log (a_store c) (run_session r))"
  shows "idle c \<and> a_recovery c = tracker_finish (Some \<lparr>open_id = run_id r, open_tool = work\<rparr>)"
proof -
  note b = starts_again_tracker [OF assms(1,2)]
  note rb = reclaim_session_reread [OF b(1), of w session]
  then have "idle (reclaim_session w session b)" by (simp add: reread_def rests_def)
  from reread_trans [OF rb resume_session_reread [OF this]] assms(3)
  have c: "idle c" "tracker_of c = tracker_of b" by (simp_all add: reread_def rests_def)
  have "tracker_of a (run_session r) = Some \<lparr>open_id = run_id r, open_tool = work\<rparr>"
    using assms(2) by (simp add: in_run_def)
  with idle_recovery [OF c(1) assms(4-6)] c b(2) show ?thesis by simp
qed

section \<open>The ceilings of a run\<close>

definition failed_store :: "Actor \<Rightarrow> bool" where
  "failed_store a \<longleftrightarrow> (\<exists>d. st_store_failure (a_state a) = Some d)"

lemma persist_plain:
  assumes "\<And>st. apply_event e st = Inr st"
  shows "failed_store (persist_or w e (note_store_failure w) g a)
    \<or> (\<exists>stored c. persist_or w e (note_store_failure w) g a = g stored c \<and> a_state c = a_state a)"
proof -
  obtain x b where b: "write_store w (store_append (EventId (fresh_at w (a_ticks a))) (clock_at w (a_ticks a)) e) a = (x, b)"
    by force
  then have "a_state b = a_state a"
    by (auto simp: write_store_def next_tick_def split: sum.splits option.splits prod.splits)
  with b assms show ?thesis
    by (cases x; fastforce simp: failed_store_def persist_or_def persist_def note_store_failure_def upd_state_def
        broadcast_def emit_def)
qed

lemma policy_events_plain:
  "apply_event (MjolnrEvent.PolicyChanged session m) st = Inr st"
  "apply_event (MjolnrEvent.PolicyClamped session m m' p d t) st = Inr st"
  "apply_event (MjolnrEvent.SpawnEnvelopeCleared session reason) st = Inr st"
  by (simp_all add: apply_event_def validate_imported_comment_def apply_plan_event_def apply_council_event_def
      apply_board_event_def apply_imported_event_def apply_imported_act_event_def and_then_def map_ok_def)

lemma set_policy_sets:
  assumes "a_run a = None"
  shows "failed_store (set_policy w m a) \<or> a_state (set_policy w m a) = (a_state a)\<lparr>st_policy := m\<rparr>"
proof (cases "st_session (a_state a)")
  case None
  with assms show ?thesis by (simp add: set_policy_def upd_state_def)
next
  case (Some session)
  show ?thesis
    using persist_plain [OF policy_events_plain(1), where w = w and a = a
        and g = "\<lambda>_. upd_state (\<lambda>st. st\<lparr>st_policy := m\<rparr>)", of session m] assms Some
    by (fastforce simp: set_policy_def upd_state_def)
qed

lemma clear_envelope_policy:
  "failed_store (clear_spawn_envelope w reason a) \<or> st_policy (a_state (clear_spawn_envelope w reason a)) = st_policy (a_state a)"
proof (cases "st_session (a_state a)")
  case None
  then show ?thesis by (simp add: clear_spawn_envelope_def upd_state_def Let_def)
next
  case (Some session)
  show ?thesis
    using persist_plain [OF policy_events_plain(3), where w = w and g = "\<lambda>_ a. a"
        and a = "upd_state (\<lambda>st. st\<lparr>st_envelope := None\<rparr>) a", of session reason] Some
    by (auto simp: clear_spawn_envelope_def upd_state_def Let_def)
qed

definition governance_at :: "World \<Rightarrow> nat \<Rightarrow> SessionState \<Rightarrow> GovernanceTable" where
  "governance_at w n st = (case st_workspace_root st of
      None \<Rightarrow> GovernanceTable_default
    | Some root \<Rightarrow> fst (load_dir (governance_yaml w) (governance_file_at w n root)))"

lemma GovernanceTier_clamp_twice [simp]: "GovernanceTier_clamp t (GovernanceTier_clamp t m) = GovernanceTier_clamp t m"
  by (simp add: GovernanceTier_clamp_def narrower_of_def)

lemma directive_ceiling_clamp:
  "directive_policy_ceiling source m = m \<Longrightarrow>
     directive_policy_ceiling source (GovernanceTier_clamp t m) = GovernanceTier_clamp t m"
  by (cases source; cases m; cases t) (simp_all add: directive_policy_ceiling_def carried_forward_def
      GovernanceTier_clamp_def narrower_of_def policy_ceiling_def PolicyMode_width_def)

lemma directive_ceiling_twice:
  "directive_policy_ceiling source (directive_policy_ceiling source m) = directive_policy_ceiling source m"
  by (cases source; cases m) (simp_all add: directive_policy_ceiling_def carried_forward_def)

lemma governance_floor_clamps:
  assumes "st_session (a_state a) = Some session" "st_provider (a_state a) = Some p" "st_model (a_state a) = Some m"
  shows "failed_store (apply_governance_floor w a)
    \<or> (\<exists>n. st_policy (a_state (apply_governance_floor w a))
        = GovernanceTier_clamp (tier_for (governance_at w n (a_state a)) p m) (st_policy (a_state a)))"
proof -
  obtain table b where b: "governance_table w a = (table, b)" by force
  then have t: "table = governance_at w (a_ticks a) (a_state a)" "a_state b = a_state a"
    by (auto simp: governance_table_def governance_at_def next_tick_def split: option.splits)
  let ?to = "GovernanceTier_clamp (tier_for table p m) (st_policy (a_state a))"
  have rec: "failed_store (reconcile_envelope_with_policy w ?to c) \<or> st_policy (a_state (reconcile_envelope_with_policy w ?to c)) = ?to"
    if "st_policy (a_state c) = ?to" for c
    using clear_envelope_policy [of w PolicyNarrowed c] that
    by (auto simp: reconcile_envelope_with_policy_def split: option.split)
  have "failed_store (apply_governance_floor w a) \<or> st_policy (a_state (apply_governance_floor w a)) = ?to"
  proof (cases "?to = st_policy (a_state a)")
    case True
    then show ?thesis using assms b t by (simp add: apply_governance_floor_def Let_def)
  next
    case False
    let ?g = "\<lambda>(_ :: StoredEvent) a. reconcile_envelope_with_policy w ?to (upd_state (\<lambda>st. st\<lparr>st_policy := ?to\<rparr>) a)"
    have eq: "apply_governance_floor w a = persist_or w (MjolnrEvent.PolicyClamped session (st_policy (a_state a)) ?to p m
        (tier_for table p m)) (note_store_failure w) ?g b"
      using assms b t False by (simp add: apply_governance_floor_def Let_def)
    from persist_plain [OF policy_events_plain(2), where w = w and g = ?g and a = b]
    have "failed_store (apply_governance_floor w a)
        \<or> (\<exists>stored c. apply_governance_floor w a = ?g stored c)"
      unfolding eq by blast
    then show ?thesis
    proof (elim disjE exE)
      fix stored :: StoredEvent and c
      assume c: "apply_governance_floor w a = ?g stored c"
      have "st_policy (a_state (upd_state (\<lambda>st. st\<lparr>st_policy := ?to\<rparr>) c)) = ?to" by (simp add: upd_state_def)
      from rec [OF this] c show ?thesis by simp
    qed simp
  qed
  then show ?thesis unfolding t by blast
qed

lemma cap_directive_caps:
  assumes "st_session (a_state a) = Some session" "st_provider (a_state a) = Some p" "st_model (a_state a) = Some m"
    and "a_run a = None"
  shows "failed_store (cap_directive w source a)
    \<or> directive_policy_ceiling source (st_policy (a_state (cap_directive w source a))) = st_policy (a_state (cap_directive w source a))
      \<and> (\<exists>n. GovernanceTier_clamp (tier_for (governance_at w n (a_state a)) p m) (st_policy (a_state (cap_directive w source a)))
          = st_policy (a_state (cap_directive w source a)))"
proof -
  let ?capped = "directive_policy_ceiling source (st_policy (a_state a))"
  define b where "b = (if ?capped \<noteq> st_policy (a_state a) then set_policy w ?capped a else a)"
  have cap: "cap_directive w source a = apply_governance_floor w b" by (simp add: cap_directive_def b_def Let_def)
  show ?thesis
  proof (cases "failed_store b")
    case True
    have "calm b (apply_governance_floor w b)" by (intro calm_intros)
    with True show ?thesis by (auto simp: cap failed_store_def calm_def kept_def)
  next
    case False
    then have s: "a_state b = (a_state a)\<lparr>st_policy := ?capped\<rparr>"
      using set_policy_sets [OF assms(4), of w ?capped] by (auto simp: b_def)
    then have "st_session (a_state b) = Some session" "st_provider (a_state b) = Some p" "st_model (a_state b) = Some m"
      "\<And>n. governance_at w n (a_state b) = governance_at w n (a_state a)" "st_policy (a_state b) = ?capped"
      using assms by (simp_all add: governance_at_def)
    note b = this
    show ?thesis
      unfolding cap using governance_floor_clamps [OF b(1-3), of w]
    proof (elim disjE exE)
      fix n
      assume n: "st_policy (a_state (apply_governance_floor w b))
        = GovernanceTier_clamp (tier_for (governance_at w n (a_state b)) p m) (st_policy (a_state b))"
      show "failed_store (apply_governance_floor w b)
        \<or> directive_policy_ceiling source (st_policy (a_state (apply_governance_floor w b))) = st_policy (a_state (apply_governance_floor w b))
          \<and> (\<exists>n. GovernanceTier_clamp (tier_for (governance_at w n (a_state a)) p m) (st_policy (a_state (apply_governance_floor w b)))
              = st_policy (a_state (apply_governance_floor w b)))"
        unfolding n b(4,5) using directive_ceiling_clamp [OF directive_ceiling_twice] GovernanceTier_clamp_twice by blast
    qed blast
  qed
qed

section \<open>The gate of a tool call\<close>

lemma starts_fail_store [simp]: "starts (fail_store w run err a) = starts a"
  by (simp add: fail_store_def)

lemma starts_register [simp]: "starts (snd (register_extension w session name authority a)) = starts a"
  by (simp add: register_extension_def split: option.split prod.split)

lemma starts_agent_load [simp]: "starts (agent_load_extension w session run name authority a) = starts a"
proof -
  obtain x b where b: "register_extension w session name authority a = (x, b)" by force
  then have "starts b = starts a" using starts_register [of w session name authority a] by simp
  with b show ?thesis by (simp add: agent_load_extension_def split: sum.split)
qed

lemma starts_load [simp]: "starts (load_if_authorised w session run call authority a) = starts a"
  by (simp add: load_if_authorised_def split: option.split)

lemma starts_take_load [simp]: "starts (snd (take_load_authority run call a)) = starts a"
  by (auto simp: take_load_authority_def split: option.split)

lemma starts_record [simp]: "starts (snd (record_tool_result w run call result a)) = starts a"
proof -
  obtain x b where b: "take_load_authority run call a = (x, b)" by force
  then have "starts b = starts a" using starts_take_load [of run call a] by simp
  with b show ?thesis by (simp add: record_tool_result_def Let_def split: option.split)
qed

lemma starts_recorded_preparation [simp]: "starts (snd (recorded_preparation w run call result a)) = starts a"
proof -
  obtain x b where b: "record_tool_result w run call result a = (x, b)" by force
  then have "starts b = starts a" using starts_record [of w run call result a] by simp
  with b show ?thesis by (simp add: recorded_preparation_def split: bool.split)
qed

lemma starts_hold [simp]: "starts (hold_for_approval w run approval call spec preview a) = starts a"
  by (simp add: hold_for_approval_def split: option.split)

lemma starts_next_tick [simp]: "starts (next_tick a) = starts a"
  by (simp add: next_tick_def starts_def)

lemma prepare_tool_starts [simp]: "starts (snd (prepare_tool w run call a)) = starts a"
  by (simp add: prepare_tool_def split: option.split sum.split ToolError.split)

lemma prepare_tool_ready:
  assumes "prepare_tool w run call a = (Ready spec preview, b)"
  shows "map_of (a_tools a) (call_name call) = Some spec" "tool_check spec (call_arguments call) = Inr ()"
    "st_workspace_root (a_state a) \<noteq> None" "a_state b = a_state a"
  using assms
  by (auto simp: prepare_tool_def recorded_preparation_def next_tick_def
      split: option.splits sum.splits if_splits prod.splits bool.splits ToolError.splits)

lemma reserve_tool_state:
  assumes "reserve_tool_call w run a = (ok, b)"
  shows "starts b = starts a" "ok \<Longrightarrow> \<exists>n. a_state b = (a_state a)\<lparr>st_budget := n\<rparr> \<and> a_tools b = a_tools a"
  using assms by (auto simp: reserve_tool_call_def upd_state_def upd_run_def starts_def split: option.splits if_splits)
    (auto simp flip: starts_def)

text \<open>Only a call the gate allows is started from the loop.\<close>

lemma dispose_gated_starts:
  assumes "gate_decision (a_state a) call spec authorised \<noteq> Allow"
  shows "starts (snd (dispose_gated w run call spec preview authorised a)) = starts a"
proof -
  have deny: "starts (snd (case record_tool_result w run call result c of (ok, d) \<Rightarrow> (\<not> ok, d))) = starts c" for result c
    using starts_record [of w run call result c] by (simp add: case_prod_beta)
  show ?thesis
  proof (cases "gate_decision (a_state a) call spec authorised")
    case (Deny code)
    then show ?thesis by (simp add: dispose_gated_def Let_def deny split: option.split)
  next
    case Ask
    then show ?thesis by (simp add: dispose_gated_def Let_def split: option.split)
  qed (use assms in simp)
qed

lemma dispose_proposal_starts:
  assumes "starts (snd (dispose_proposal w run call spec preview a)) \<noteq> starts a"
  shows "gate_decision (a_state a) call spec (envelope_draw call (a_state a) = Some (Inr ())) = Allow"
proof (rule ccontr)
  assume gate: "\<not> ?thesis"
  have "starts (snd (case record_tool_result w run call result a of (ok, d) \<Rightarrow> (\<not> ok, d))) = starts a" for result
    using starts_record [of w run call result a] by (simp add: case_prod_beta)
  with assms gate dispose_gated_starts [of a call spec] show False
    by (cases "envelope_draw call (a_state a)") (auto simp: dispose_proposal_def split: sum.splits)
qed

lemma gate_budget [simp]:
  "gate_decision (st\<lparr>st_budget := n\<rparr>) call spec x = gate_decision st call spec x"
  "envelope_draw call (st\<lparr>st_budget := n\<rparr>) = envelope_draw call st"
  by (simp_all add: gate_decision_def envelope_draw_def split: option.split)

lemma drive_tool_gate:
  assumes "starts (snd (drive_tool w run proposed a)) \<noteq> starts a"
  shows "\<exists>spec. map_of (a_tools a) (call_name proposed) = Some spec
    \<and> tool_check spec (call_arguments (normalize_call (a_state a) proposed)) = Inr ()
    \<and> st_workspace_root (a_state a) \<noteq> None
    \<and> gate_decision (a_state a) (normalize_call (a_state a) proposed) spec
        (envelope_draw (normalize_call (a_state a) proposed) (a_state a) = Some (Inr ())) = Allow"
proof -
  let ?call = "normalize_call (a_state a) proposed"
  obtain ok b where b: "reserve_tool_call w run a = (ok, b)" by force
  obtain x c where c: "prepare_tool w run ?call b = (x, c)" by force
  have sc: "starts c = starts b" using prepare_tool_starts [of w run ?call b] c by simp
  note sb = reserve_tool_state [OF b]
  have ok using assms b sb(1) by (cases ok) (simp_all add: drive_tool_def Let_def)
  obtain spec preview where x: "x = Ready spec preview"
    using assms b c sb(1) sc \<open>ok\<close> by (cases x) (auto simp: drive_tool_def Let_def)
  note r = prepare_tool_ready [OF c [unfolded x]]
  have "starts (snd (dispose_proposal w run ?call spec preview c)) \<noteq> starts c"
    using assms b c x sb(1) sc \<open>ok\<close> by (simp add: drive_tool_def Let_def)
  from dispose_proposal_starts [OF this] r sb(2) [OF \<open>ok\<close>] show ?thesis by auto
qed

end
