(* ===== verification/System_Example.thy ===== *)
theory System_Example
  imports Actor_System
begin

text \<open>
  A run of the system, small enough to evaluate: a project is opened, a session created, a
  directive sent, and the provider answers with the call of one tool, which is read-only.
\<close>

definition demo_spec :: ToolSpec where
  "demo_spec = \<lparr>tool_tier = ToolTier.Read, tool_needs_trust = (\<lambda>_. False), tool_check = (\<lambda>_. Inr ()),
     tool_preview = (\<lambda>_ _. Inr ''read'')\<rparr>"

definition demo_call :: ToolCall where
  "demo_call = \<lparr>call_id = ''c1'', call_name = ''read_file'', call_arguments = JNull, provider_signature = None\<rparr>"

definition demo_world :: World where
  "demo_world = \<lparr>show_uuid_of = (\<lambda>_. ''u''), show_instant_of = (\<lambda>_. ''t''), replay_text = (\<lambda>_. []),
     reduction_text = (\<lambda>_. []), fresh_at = of_nat, clock_at = int, fault_at = (\<lambda>_. None),
     limits = BudgetLimits_default, governance_yaml = (\<lambda>_. Inl []), governance_file_at = (\<lambda>_ _. None),
     route_table = RouteTable_default, has_provider = (\<lambda>_. True), connected_at = (\<lambda>_ _. True),
     catalog_at = (\<lambda>_ _. []), images_at = (\<lambda>_ _ _ messages. Inr messages),
     canonical_root_at = (\<lambda>_ root. Inr root), extension_catalog = (\<lambda>_. None), query_text = (\<lambda>_ _. []),
     memory_answer_at = (\<lambda>_ _. ToolResult_ok [])\<rparr>"

lemmas open_defs = handle_def open_project_def demo_world_def refresh_session_list_def read_store_def
  upd_state_def next_tick_def emit_def spawn_actor_def list_sessions_def Inner_default_def SessionState_default_def


definition demo_opened :: Actor where
  "demo_opened = \<lparr>a_store = Inner_default, a_state = SessionState_default\<lparr>st_workspace_root := Some ''/p''\<rparr>,
     a_run = None, a_recovery = Clean, a_lease = None, a_child_link = None,
     a_tools = [(''read_file'', demo_spec)], a_ticks = 3, a_out = []\<rparr>"

lemma demo_1: "handle demo_world (OpenProject ''/p'') (spawn_actor demo_world Inner_default [(''read_file'', demo_spec)] None 0 [])
    = demo_opened"
  by (simp add: open_defs Let_def demo_opened_def)

lemma demo_reduced:
  "apply_event (MjolnrEvent.SessionCreated i p m) st = Inr st"
  "apply_event (MjolnrEvent.MessageAppended i message) st = Inr st"
  "apply_event (MjolnrEvent.RunStarted i r) st = Inr st"
  "apply_event (MjolnrEvent.ToolProposed i r x c t pv) st = Inr st"
  by (simp_all add: apply_event_def validate_imported_comment_def apply_plan_event_def apply_council_event_def apply_board_event_def apply_imported_event_def apply_imported_act_event_def and_then_def map_ok_def)

lemma demo_title: "file_name ''/p'' = Some ''p''"
  by code_simp

lemmas store_defs = write_or_note_def write_store_def
   store_open_project_def unit_op_def store_create_session_def store_acquire_session_def 
   persist_or_def persist_def store_append_def event_session_def bt_get_def bt_contains_def ok_or_def and_then_def broadcast_def session_summary_of_def active_model_def project_roots_def bt_values_def

lemmas create_defs = create_session_def take_identity_def reset_keeping_project_def opened_def announce_session_def
   default_title_def demo_title
   carried_forward_def PolicyMode_default_def  


definition demo_state :: SessionState where
  "demo_state = SessionState_default\<lparr>st_session := Some (SessionId 3), st_provider := Some (ProviderId ''a''),
     st_model := Some (ModelId ''m''), st_workspace_root := Some ''/p'', st_policy := PolicyMode.Ask,
     st_budget := BudgetStatus_default\<lparr>
       budget_max_provider_turns := limit_provider_turns BudgetLimits_default,
       budget_max_tool_calls := limit_tool_calls BudgetLimits_default\<rparr>\<rparr>"

definition demo_store :: "string \<Rightarrow> instant \<Rightarrow> StoredEvent list \<Rightarrow> Inner" where
  "demo_store title now events = \<lparr>projects = [(''/p'', ProjectId 4)],
     sessions = [(SessionId 3, \<lparr>mem_project = ProjectId 4, mem_title = title, mem_status = Active,
       mem_created_at = 5, mem_updated_at = now, mem_events = events, mem_checkpoints = [],
       mem_leased = True, mem_parent = None\<rparr>)]\<rparr>"

definition demo_created_event :: StoredEvent where
  "demo_created_event = \<lparr>stored_id = EventId 7, stored_sequence = 0, occurred_at = 7,
     stored_event = MjolnrEvent.SessionCreated (SessionId 3) (ProviderId ''a'') (ModelId ''m'')\<rparr>"

definition demo_created :: Actor where
  "demo_created = \<lparr>a_store = demo_store ''p'' 7 [demo_created_event], a_state = demo_state, a_run = None,
     a_recovery = Clean, a_lease = Some \<lparr>lease_session = SessionId 3, lease_token = 6\<rparr>,
     a_child_link = None, a_tools = [(''read_file'', demo_spec)], a_ticks = 9,
     a_out = [Broadcast (stored_event demo_created_event)]\<rparr>"

lemmas demo_defs = demo_opened_def demo_created_def demo_store_def demo_state_def demo_created_event_def

lemma demo_2: "handle demo_world (Command None (CreateSession (ProviderId ''a'') (ModelId ''m''))) demo_opened = demo_created"
  by (simp add: handle_def handle_command_def demo_defs open_defs create_defs store_defs Let_def demo_reduced)


lemma demo_frame: "frame Human ''go'' = ''go''"
  by (simp add: frame_def)


lemma demo_clamp: "GovernanceTier_clamp (tier_for (fst (load_dir yaml None)) p m) PolicyMode.Ask = PolicyMode.Ask"
  by (simp add: load_dir_def GovernanceTable_default_def tier_for_def GovernanceTier_clamp_def narrower_of_def policy_ceiling_def PolicyMode_width_def)

lemma demo_name: "title_from_directive ''go'' = ''go''"
  by code_simp

lemma demo_cap: "cap_directive demo_world Human demo_created = demo_created\<lparr>a_ticks := 10\<rparr>"
  by (simp add: cap_directive_def apply_governance_floor_def governance_table_def directive_policy_ceiling_def
    demo_defs demo_world_def next_tick_def demo_clamp Let_def)

lemmas begin_defs = begin_run_def persist_branching_or_def persist_branching_def
  name_session_def new_run_def directive_names_session_def with_session_def store_rename_session_def push_message_def

definition demo_run :: ActiveRun where
  "demo_run = new_run (RunId 10) (SessionId 3) (ProviderId ''a'') (ModelId ''m'') Normal None"

definition demo_events :: "StoredEvent list" where
  "demo_events = [demo_created_event,
     \<lparr>stored_id = EventId 12, stored_sequence = 1, occurred_at = 12,
      stored_event = MjolnrEvent.MessageAppended (SessionId 3) (message_user 11 11 ''go'')\<rparr>,
     \<lparr>stored_id = EventId 14, stored_sequence = 2, occurred_at = 14,
      stored_event = MjolnrEvent.RunStarted (SessionId 3) (RunId 10)\<rparr>]"

definition demo_said :: Actor where
  "demo_said = demo_created\<lparr>a_store := demo_store ''go'' 14 demo_events,
     a_state := demo_state\<lparr>st_messages := [\<lparr>entry_sequence = Some 1, entry_message = message_user 11 11 ''go''\<rparr>]\<rparr>,
     a_ticks := 15, a_out := a_out demo_created @ map (\<lambda>e. Broadcast (stored_event e)) (drop 1 demo_events)\<rparr>"

definition demo_asked :: Actor where
  "demo_asked = demo_said\<lparr>
     a_state := (a_state demo_said)\<lparr>st_budget := (st_budget demo_state)\<lparr>used_provider_turns := 1\<rparr>\<rparr>,
     a_run := Some (demo_run\<lparr>run_provider_turns := 1\<rparr>),
     a_ticks := 16,
     a_out := a_out demo_said @ [StartTimer (RunId 10) (max_wall_time BudgetLimits_default),
       StartProvider (RunId 10) \<lparr>request_provider = ProviderId ''a'', request_model = ModelId ''m'',
         request_messages = [message_user 11 11 ''go''], request_tools = [''read_file'']\<rparr>]\<rparr>"

lemmas run_defs = demo_asked_def demo_said_def demo_run_def new_run_def demo_events_def

lemma demo_begin: "begin_run demo_world (SessionId 3) (ProviderId ''a'') (ModelId ''m'') Human ''go'' (demo_created\<lparr>a_ticks := 10\<rparr>)
    = launch_run demo_world demo_run demo_said"
  by (simp add: begin_defs demo_defs open_defs store_defs Let_def demo_reduced demo_name run_defs)

lemma demo_launch: "launch_run demo_world demo_run demo_said = demo_asked"
  by (simp add: launch_run_def begin_provider_turn.simps before_turn_def deliver_steering_def apply_configured_quota_def
   gate_loop.simps route_breaker_gate_def send_turn_def start_turn_def run_defs
   demo_defs demo_world_def upd_run_def active_run_def emit_def upd_state_def next_tick_def
   SessionState_default_def QuotaReserveStatus_default_def BudgetLimits_default_def provider_messages_def plain_messages_def BudgetStatus_default_def)

lemma demo_created_fields:
  "st_session (a_state demo_created) = Some (SessionId 3)" "st_provider (a_state demo_created) = Some (ProviderId ''a'')"
  "st_model (a_state demo_created) = Some (ModelId ''m'')" "a_run demo_created = None" "a_recovery demo_created = Clean"
  "st_store_failure (a_state demo_created) = None" "st_resume_advice (a_state demo_created) = None"
  "has_provider demo_world p"
  by (simp_all add: demo_defs SessionState_default_def demo_world_def)

lemma demo_3: "handle demo_world (Command None (SendUserMessage ''go'' Human)) demo_created = demo_asked"
  by (simp add: handle_def handle_command_def send_user_message_def demo_frame start_run_def demo_cap demo_begin
    demo_launch blocked_def demo_created_fields Let_def)

definition demo_called :: Actor where
  "demo_called = demo_asked\<lparr>a_run := Some (demo_run\<lparr>run_provider_turns := 1,
     accumulator := StreamAccumulator_default\<lparr>completed_calls := [demo_call]\<rparr>\<rparr>)\<rparr>"

lemma demo_4: "handle demo_world (ProviderMail (RunId 10) (ProviderEvent.ToolCallCompleted demo_call)) demo_asked = demo_called"
  by (simp add: handle_def handle_provider_event_def active_run_def demo_called_def demo_asked_def demo_run_def new_run_def upd_run_def Let_def
   upd_accumulator_def complete_tool_call_def StreamAccumulator_default_def)

definition demo_answer :: CanonicalMessage where
  "demo_answer = message_assistant 16 16 [ToolCallBlock demo_call] (ProviderId ''a'') (ModelId ''m'')"

definition demo_answered_events :: "StoredEvent list" where
  "demo_answered_events = demo_events @ [\<lparr>stored_id = EventId 17, stored_sequence = 3, occurred_at = 17,
      stored_event = MjolnrEvent.MessageAppended (SessionId 3) demo_answer\<rparr>]"

definition demo_answered :: Actor where
  "demo_answered = demo_asked\<lparr>a_store := demo_store ''go'' 17 demo_answered_events,
     a_state := push_message (Some 3) demo_answer (a_state demo_asked),
     a_ticks := 18, a_out := a_out demo_asked @ [Broadcast (MjolnrEvent.MessageAppended (SessionId 3) demo_answer)]\<rparr>"

lemma demo_finish: "finish 16 16 (StreamAccumulator_default\<lparr>completed_calls := [demo_call]\<rparr>) (ProviderId ''a'') (ModelId ''m'') = Some demo_answer"
  by (simp add: finish_def StreamAccumulator_default_def demo_answer_def)

definition demo_turn :: ActiveRun where
  "demo_turn = demo_run\<lparr>run_provider_turns := 1\<rparr>"

lemma demo_turn_fields:
  "run_id demo_turn = RunId 10" "run_session demo_turn = SessionId 3" "run_provider demo_turn = ProviderId ''a''"
  "run_model demo_turn = ModelId ''m''" "pending_review_threads demo_turn = []" "run_intent demo_turn = Normal"
  "hard_stop demo_turn = None" "pending_drain demo_turn = None" "pending_tools demo_turn = []"
  "run_tool_calls demo_turn = 0"
  "demo_turn\<lparr>accumulator := StreamAccumulator_default, pending_review_threads := []\<rparr> = demo_turn"
  by (simp_all add: demo_turn_def demo_run_def new_run_def)

lemma demo_asked_fields:
  "a_ticks demo_asked = 16" "demo_called = demo_asked\<lparr>a_run := Some (demo_turn\<lparr>accumulator := StreamAccumulator_default\<lparr>completed_calls := [demo_call]\<rparr>\<rparr>)\<rparr>"
  "demo_asked\<lparr>a_run := Some demo_turn\<rparr> = demo_asked"
  "fresh_at demo_world n = of_nat n" "clock_at demo_world n = int n"
  by (simp_all add: demo_asked_def demo_called_def demo_turn_def demo_world_def)

lemma demo_record: "record_answer demo_world (RunId 10) (SessionId 3) [] (Some demo_answer)
   (demo_asked\<lparr>a_ticks := 17\<rparr>) = (True, demo_answered)"
  by (simp add: record_answer_def demo_answered_def run_defs store_defs demo_defs demo_world_def Let_def demo_reduced demo_answered_events_def
    next_tick_def emit_def upd_state_def)

lemma demo_answered_fields:
  "a_run demo_answered = Some demo_turn" "st_route (a_state demo_answered) = None"
  "message_tool_calls demo_answer = [demo_call]" "st_workspace_root (a_state demo_answered) = Some ''/p''"
  "a_tools demo_answered = [(''read_file'', demo_spec)]" "st_session (a_state demo_answered) = Some (SessionId 3)"
  "st_policy (a_state demo_answered) = PolicyMode.Ask"
  by (simp_all add: demo_answered_def demo_asked_def demo_turn_def demo_said_def demo_defs push_message_def SessionState_default_def
    message_tool_calls_def demo_answer_def message_assistant_def)

lemma demo_5: "handle demo_world (ProviderTurnEnded (RunId 10) (Completed FinishReason.ToolCalls)) demo_called =
    drive_tools demo_world (RunId 10) (demo_answered\<lparr>a_run := Some (demo_turn\<lparr>pending_tools := [demo_call]\<rparr>)\<rparr>)"
  by (simp add: handle_def handle_provider_turn_ended_def active_run_def demo_asked_fields upd_run_def Let_def demo_finish demo_record
   demo_turn_fields next_tick_def demo_answered_fields route_provider_outcome_def note_route_provider_success_def)

definition demo_started :: Actor where
  "demo_started = demo_answered\<lparr>
     a_store := demo_store ''go'' 19 (demo_answered_events @ [\<lparr>stored_id = EventId 19, stored_sequence = 4, occurred_at = 19,
      stored_event = MjolnrEvent.ToolProposed (SessionId 3) (RunId 10) None demo_call ToolTier.Read ''read''\<rparr>]),
     a_run := Some (demo_turn\<lparr>run_tool_calls := 1, run_phase := ToolPhase\<rparr>),
     a_state := (a_state demo_answered)\<lparr>st_budget := (st_budget (a_state demo_answered))\<lparr>used_tool_calls := 1\<rparr>\<rparr>,
     a_ticks := 20,
     a_out := a_out demo_answered @ [Broadcast (MjolnrEvent.ToolProposed (SessionId 3) (RunId 10) None demo_call ToolTier.Read ''read''),
       StartTool (RunId 10) demo_call]\<rparr>"

definition demo_reserved :: Actor where
  "demo_reserved = demo_answered\<lparr>
     a_run := Some (demo_turn\<lparr>run_tool_calls := 1\<rparr>),
     a_state := (a_state demo_answered)\<lparr>st_budget := (st_budget (a_state demo_answered))\<lparr>used_tool_calls := 1\<rparr>\<rparr>\<rparr>"

lemma demo_call_fields:
  "call_name demo_call = ''read_file''" "command_spec demo_call = None"
  "tool_check demo_spec x = Inr ()" "tool_preview demo_spec n x = Inr ''read''" "tool_tier demo_spec = ToolTier.Read"
  "tool_needs_trust demo_spec x = False"
  "''read_file'' \<noteq> SPAWN_SUBAGENT" "''read_file'' \<noteq> QUERY_SESSION" "''read_file'' \<notin> set MEMORY_TOOLS"
  "''read_file'' \<noteq> ''finish_task''"
  by (simp_all add: demo_call_def demo_spec_def command_spec_def SPAWN_SUBAGENT_def QUERY_SESSION_def MEMORY_TOOLS_def)

lemma demo_reserve: "reserve_tool_call demo_world (RunId 10) (demo_answered\<lparr>a_run := Some demo_turn\<rparr>) = (True, demo_reserved)"
  by (simp add: reserve_tool_call_def active_run_def demo_turn_fields demo_reserved_def upd_run_def upd_state_def
   demo_world_def BudgetLimits_default_def)

lemma demo_preview: "truncate_output ''read'' (max_tool_output_bytes (limits demo_world)) = (''read'', False)"
  by (simp add: demo_world_def BudgetLimits_default_def truncate_output_def)

lemma demo_prepare: "prepare_tool demo_world (RunId 10) demo_call demo_reserved = (Ready demo_spec ''read'', demo_reserved\<lparr>a_ticks := 19\<rparr>)"
  by (simp add: prepare_tool_def demo_call_fields demo_reserved_def demo_answered_fields demo_preview)
    (simp add: next_tick_def demo_answered_def)

lemma demo_gate: "gate_decision (a_state demo_reserved) demo_call demo_spec False = Allow"
  by (simp add: gate_decision_def demo_call_fields demo_reserved_def demo_answered_fields decide_def)

definition demo_proposed :: Actor where
  "demo_proposed = demo_started\<lparr>a_run := Some (demo_turn\<lparr>run_tool_calls := 1\<rparr>),
     a_out := butlast (a_out demo_started)\<rparr>"

lemma demo_persist: "persist_or demo_world (MjolnrEvent.ToolProposed (SessionId 3) (RunId 10) None demo_call ToolTier.Read ''read'')
    failed persisted (demo_reserved\<lparr>a_ticks := 19\<rparr>)
  = persisted \<lparr>stored_id = EventId 19, stored_sequence = 4, occurred_at = 19,
      stored_event = MjolnrEvent.ToolProposed (SessionId 3) (RunId 10) None demo_call ToolTier.Read ''read''\<rparr> demo_proposed"
  by (simp add: demo_reserved_def demo_proposed_def demo_started_def demo_answered_def run_defs store_defs demo_defs demo_world_def Let_def demo_reduced demo_answered_events_def
    next_tick_def emit_def upd_state_def push_message_def SessionState_default_def)

lemma demo_start: "start_tool demo_world (RunId 10) demo_call demo_spec demo_proposed = (True, demo_started)"
  by (simp add: start_tool_def demo_call_fields completion_refusal_def demo_proposed_def demo_started_def demo_answered_fields
   active_run_def demo_turn_fields upd_run_def emit_def butlast_append Let_def)

lemma demo_dispose: "dispose_gated demo_world (RunId 10) demo_call demo_spec ''read'' False (demo_reserved\<lparr>a_ticks := 19\<rparr>) = (True, demo_started)"
proof -
  have "st_session (a_state demo_reserved) = Some (SessionId 3)" by (simp add: demo_reserved_def demo_answered_fields)
  then show ?thesis
  by (simp add: dispose_gated_def demo_gate demo_call_fields demo_persist demo_start Let_def)
qed

lemma demo_turn_idle: "demo_turn\<lparr>pending_tools := []\<rparr> = demo_turn"
  by (simp add: demo_turn_def demo_run_def new_run_def)
lemma demo_drive: "drive_tools demo_world (RunId 10) (demo_answered\<lparr>a_run := Some (demo_turn\<lparr>pending_tools := [demo_call]\<rparr>)\<rparr>) = demo_started"
  by (simp add: drive_tools.simps active_run_def drive_tool_def demo_turn_fields demo_turn_idle upd_run_def normalize_call_def Let_def 
   demo_call_fields demo_reserve demo_prepare dispose_proposal_def envelope_draw_def demo_dispose)


lemma demo_6: "handle demo_world (ProviderTurnEnded (RunId 10) (Completed FinishReason.ToolCalls)) demo_called = demo_started"
  by (simp add: demo_5 demo_drive)

section \<open>The run as steps\<close>

definition demo_task :: Output where
  "demo_task = StartProvider (RunId 10) \<lparr>request_provider = ProviderId ''a'', request_model = ModelId ''m'',
     request_messages = [message_user 11 11 ''go''], request_tools = [''read_file'']\<rparr>"

lemma starts_demo:
  "starts (spawn_actor demo_world Inner_default [(''read_file'', demo_spec)] None 0 []) = []"
  "starts demo_opened = []" "starts demo_created = []" "starts demo_asked = [demo_task]" "starts demo_called = [demo_task]"
  "starts demo_started = [demo_task, StartTool (RunId 10) demo_call]"
  by (simp_all add: starts_def is_start_def spawn_actor_def open_defs demo_defs demo_asked_def demo_said_def demo_events_def demo_called_def
    demo_task_def demo_started_def demo_answered_def)

lemma demo_mail:
  assumes "reachable demo_world \<lparr>sys_actor = a, sys_tasks = ts\<rparr>" "handle demo_world m a = b"
    and "\<not> of_task m" "streams m ts" "new_id a b ts"
  shows "reachable demo_world \<lparr>sys_actor = b, sys_tasks = ts @ drop (length (starts a)) (starts b)\<rparr>"
  using reachable.more [OF assms(1) step.mail [OF assms(3)]] assms(2,4,5)
  by (simp add: deliver_def spawned_def)

lemma demo_run_of:
  "a_run (spawn_actor demo_world Inner_default [(''read_file'', demo_spec)] None 0 []) = None" "a_run demo_opened = None" "a_run demo_asked = Some demo_turn"
  by (simp_all add: spawn_actor_def open_defs demo_defs demo_asked_def demo_turn_def)

lemmas mail_simps = of_task_def streams_def new_id_def starts_demo demo_created_fields demo_run_of

lemma demo_reachable_created: "reachable demo_world \<lparr>sys_actor = demo_created, sys_tasks = []\<rparr>"
proof -
  have 0: "reachable demo_world \<lparr>sys_actor = spawn_actor demo_world Inner_default [(''read_file'', demo_spec)] None 0 [], sys_tasks = []\<rparr>"
    by (rule reachable.start)
  have 1: "reachable demo_world \<lparr>sys_actor = demo_opened, sys_tasks = []\<rparr>"
    using demo_mail [OF 0 demo_1] by (simp add: mail_simps)
  show ?thesis using demo_mail [OF 1 demo_2] by (simp add: mail_simps)
qed

lemma demo_reachable: "reachable demo_world \<lparr>sys_actor = demo_started, sys_tasks = [StartTool (RunId 10) demo_call]\<rparr>"
proof -
  have 3: "reachable demo_world \<lparr>sys_actor = demo_asked, sys_tasks = [demo_task]\<rparr>"
    using demo_mail [OF demo_reachable_created demo_3] by (simp add: mail_simps)
  have 4: "reachable demo_world \<lparr>sys_actor = demo_called, sys_tasks = [demo_task]\<rparr>"
    using demo_mail [OF 3 demo_4] by (simp add: mail_simps demo_task_def)
  have "ends_task (ProviderTurnEnded (RunId 10) (Completed FinishReason.ToolCalls)) demo_task"
    by (simp add: ends_task_def demo_task_def)
  from reachable.more [OF 4 step.ended [of _ "[]" demo_task "[]", OF _ this]] show ?thesis
    by (simp add: deliver_def demo_6 spawned_def starts_demo)
qed

end
