(* ===== verification/Restart_Example.thy ===== *)
theory Restart_Example
  imports System_Example
begin

text \<open>The example run, when its process is killed while the tool is under way.\<close>

definition demo_log :: "StoredEvent list" where
  "demo_log = demo_answered_events @ [\<lparr>stored_id = EventId 19, stored_sequence = 4, occurred_at = 19,
      stored_event = MjolnrEvent.ToolProposed (SessionId 3) (RunId 10) None demo_call ToolTier.Read ''read''\<rparr>]"

lemma demo_events_noop:
  "\<not> is_projection_noop (MjolnrEvent.SessionCreated i p m)" "\<not> is_projection_noop (MjolnrEvent.MessageAppended i message)"
  "\<not> is_projection_noop (MjolnrEvent.RunStarted i r)" "\<not> is_projection_noop (MjolnrEvent.ToolProposed i r x c t pv)"
  by (simp_all add: is_projection_noop_def)

lemma demo_project: "\<exists>r. project show_uuid mint None [] demo_log = Inr r \<and> recovered_status r = Active
    \<and> st_workspace_root (recovered_state r) = None \<and> st_store_failure (recovered_state r) = None
    \<and> recovered_recovery r = Required \<lparr>interrupted_run = RunId 10,
        interrupted_kind = EffectUncertain PolicyAuthority demo_call ToolTier.Read ''read''\<rparr>"
  by (simp add: project_def base_state_def and_then_def map_ok_def demo_log_def demo_answered_events_def
      demo_events_def demo_created_event_def projection_apply_def demo_events_noop Let_def push_message_def
      SessionState_default_def tracker_finish_def propose_def open_run_def)

lemma demo_records: "rebuild_durable_records_from demo_log st
    = Inr (st\<lparr>st_plan := None, st_council := None, st_tickets := [], st_items := [], st_acts := []\<rparr>)"
  by (simp add: rebuild_durable_records_from_def demo_log_def demo_answered_events_def demo_events_def
      demo_created_event_def rebuild_records_step_def and_then_def map_ok_def map_err_def Let_def
      apply_plan_event_def apply_council_event_def apply_board_event_def apply_imported_event_def
      apply_imported_act_event_def)

definition demo_died :: Actor where
  "demo_died = sys_actor (restarted demo_world [] demo_started)"

lemma demo_died_fields:
  "a_store demo_died = demo_store ''go'' 19 demo_log" "a_run demo_died = None" "a_lease demo_died = None"
  "a_state demo_died = SessionState_default"
  by (simp_all add: demo_died_def restarted_def spawn_actor_def refresh_session_list_def read_store_def
      demo_world_def demo_started_def next_tick_def demo_log_def)

definition demo_free_store :: Inner where
  "demo_free_store = store_break_lease (SessionId 3) (demo_store ''go'' 19 demo_log)"

lemma demo_world_fields: "fault_at demo_world n = None" "canonical_root_at demo_world n root = Inr root"
  by (simp_all add: demo_world_def)

definition demo_reclaimed :: Actor where
  "demo_reclaimed = reclaim_session demo_world (SessionId 3) demo_died"

lemma demo_reclaimed_fields:
  "a_store demo_reclaimed = demo_free_store" "a_run demo_reclaimed = None" "a_lease demo_reclaimed = None"
  "st_session (a_state demo_reclaimed) = None"
  by (simp_all add: demo_reclaimed_def reclaim_session_def demo_died_fields write_or_note_def write_store_def unit_op_def
    map_ok_def refresh_session_list_def read_store_def upd_state_def next_tick_def demo_world_fields SessionState_default_def demo_free_store_def)

lemma demo_free_lookup: "bt_get (sessions demo_free_store) (SessionId 3)
    = Some \<lparr>mem_project = ProjectId 4, mem_title = ''go'', mem_status = Active, mem_created_at = 5,
         mem_updated_at = 19, mem_events = demo_log, mem_checkpoints = [], mem_leased = False, mem_parent = None\<rparr>"
  by (simp add: demo_free_store_def store_break_lease_def demo_store_def bt_get_def)

lemma demo_summary: "\<exists>s. find (\<lambda>s. summary_id s = SessionId 3) (list_sessions demo_free_store) = Some s
    \<and> summary_status s = Active \<and> summary_root s = ''/p''"
  by (simp add: demo_free_store_def store_break_lease_def demo_store_def list_sessions_def session_summary_of_def
      project_roots_def bt_get_def bt_values_def Let_def)

lemma demo_leased_store: "\<exists>lease st e. store_acquire_session show_uuid token (SessionId 3) demo_free_store = Inr (lease, st)
    \<and> bt_get (sessions st) (SessionId 3) = Some e \<and> mem_events e = demo_log \<and> mem_checkpoints e = []"
  by (simp add: store_acquire_session_def demo_free_lookup ok_or_def and_then_def)

lemma demo_reads:
  assumes "bt_get (sessions st) (SessionId 3) = Some e" "mem_events e = demo_log" "mem_checkpoints e = []"
  shows "store_latest_checkpoint (SessionId 3) st = None" "store_branch_events (SessionId 3) st = demo_log"
    "store_branch_events_from (SessionId 3) 0 st = Some \<lparr>covered_message_sequences = [], resume_events = demo_log\<rparr>"
  using assms by (simp_all add: store_latest_checkpoint_def store_branch_events_def store_branch_events_from_def
      store_events_def store_events_from_def)

lemma demo_required_reduced: "apply_event (MjolnrEvent.RecoveryRequired i work) st = Inr st"
  by (simp add: apply_event_def validate_imported_comment_def apply_plan_event_def apply_council_event_def apply_board_event_def
      apply_imported_event_def apply_imported_act_event_def and_then_def map_ok_def)

lemma demo_projected:
  assumes "bt_get (sessions (a_store b)) (SessionId 3) = Some e" "mem_events e = demo_log"
    and "summary_root s = ''/p''"
  shows "st_session (a_state (resume_projected demo_world (SessionId 3) s (project show_uuid mint None [] demo_log) b)) = Some (SessionId 3)
    \<and> st_store_failure (a_state (resume_projected demo_world (SessionId 3) s (project show_uuid mint None [] demo_log) b)) = None
    \<and> length (mem_log (a_store (resume_projected demo_world (SessionId 3) s (project show_uuid mint None [] demo_log) b)) (SessionId 3)) = 6"
proof -
  obtain r where r: "project show_uuid mint None [] demo_log = Inr r" "recovered_status r = Active"
    "st_workspace_root (recovered_state r) = None" "st_store_failure (recovered_state r) = None"
    "recovered_recovery r = Required \<lparr>interrupted_run = RunId 10,
        interrupted_kind = EffectUncertain PolicyAuthority demo_call ToolTier.Read ''read''\<rparr>"
    using demo_project by blast
  have log: "store_branch_events (SessionId 3) (a_store b) = demo_log"
    using assms(1,2) by (simp add: store_branch_events_def store_events_def store_events_from_def)
  have six: "length demo_log = 5" by (simp add: demo_log_def demo_answered_events_def demo_events_def)
  show ?thesis
    by (simp add: resume_projected_def r read_resuming_def read_store_def demo_world_fields log demo_records session_root_def
        canonical_project_def assms install_session_def Let_def persist_or_def persist_def write_store_def
        store_append_def event_session_def ok_or_def and_then_def demo_required_reduced refresh_session_list_def
        next_tick_def upd_state_def broadcast_def emit_def mem_log_def six)
qed

definition demo_resumed :: Actor where
  "demo_resumed = resume_session demo_world (SessionId 3) demo_reclaimed"

lemma demo_resumed_fields: "st_session (a_state demo_resumed) = Some (SessionId 3) \<and> st_store_failure (a_state demo_resumed) = None
    \<and> length (mem_log (a_store demo_resumed) (SessionId 3)) = 6"
proof -
  obtain s where s: "find (\<lambda>s. summary_id s = SessionId 3) (list_sessions demo_free_store) = Some s"
    "summary_status s = Active" "summary_root s = ''/p''" using demo_summary by blast
  obtain lease st e where l: "store_acquire_session (show_uuid_of demo_world) (fresh_at demo_world (Suc (a_ticks demo_reclaimed))) (SessionId 3) demo_free_store = Inr (lease, st)"
    and e: "bt_get (sessions st) (SessionId 3) = Some e" "mem_events e = demo_log" "mem_checkpoints e = []"
    using demo_leased_store by blast
  show ?thesis
    by (simp add: demo_resumed_def resume_session_def demo_reclaimed_fields session_summary_def read_store_def
        demo_world_fields ok_or_def s next_tick_def write_or_note_def write_store_def l resume_leased_def
        read_resuming_def demo_reads [OF e] demo_projected e)
qed
end
