(* ===== verification/System_Properties.thy ===== *)
theory System_Properties
  imports System_Facts Restart_Example
begin

text \<open>
  The properties of a reachable system, each with an instance at the example run: what is under
  way and what the logs say of it, what is reported after a restart, what starts a run and what
  stops one.
\<close>

section \<open>What is under way\<close>

text \<open>
  C2: In every reachable system a tool that is under way for the actor's run is one that the log
  of the run's session shows as authorised, by policy or by a named approval, in that open run,
  and as not yet settled; so nothing has an effect before the record of its authority is durable.
\<close>

theorem tool_under_way_is_in_the_log:
  assumes "reachable w s" "a_run (sys_actor s) = Some r"
    and "t \<in> set (sys_tasks s)" "runs_tool (run_id r) call t"
  shows "st_session (a_state (sys_actor s)) = Some (run_session r)
    \<and> (\<exists>authority tier preview. started_in (run_id r) authority call tier preview
        (session_log (sys_actor s) (run_session r)))"
proof -
  obtain authority tier preview
    where i: "in_run r (Some (Started authority call tier preview)) (sys_actor s)"
    using reachable_tool [OF assms] .
  then have "started_in (run_id r) authority call tier preview (session_log (sys_actor s) (run_session r))"
    by (simp add: log_started in_run_def)
  with i show ?thesis by (auto simp: in_run_def)
qed

lemma demo_started_run: "a_run demo_started = Some (demo_turn\<lparr>run_tool_calls := 1, run_phase := ToolPhase\<rparr>)"
  by (simp add: demo_started_def)

lemma demo_runs: "runs_tool (RunId 10) demo_call (StartTool (RunId 10) demo_call)"
  by (simp add: runs_tool_def)

theorem tool_under_way_is_in_the_log_witness:
  "\<exists>authority tier preview. started_in (RunId 10) authority demo_call tier preview
     (session_log demo_started (SessionId 3))"
  using tool_under_way_is_in_the_log [OF demo_reachable, of _ "StartTool (RunId 10) demo_call" demo_call]
  by (simp add: demo_started_run demo_turn_fields demo_runs)

text \<open>
  C10: A run of a reachable system has at most one task under way. While it waits for a human it
  has none, and the log holds the very proposal, with its tier, as still waiting.
\<close>

theorem one_thing_under_way:
  assumes "reachable w s" "a_run (sys_actor s) = Some r"
  shows "case awaiting_approval r of
      None \<Rightarrow> length (own_tasks (run_id r) (sys_tasks s)) \<le> 1
    | Some p \<Rightarrow> own_tasks (run_id r) (sys_tasks s) = []
        \<and> (\<exists>preview. waiting_in (run_id r) (pt_approval p) (pt_call p) (tool_tier (pt_tool p)) preview
            (session_log (sys_actor s) (run_session r)))"
  using reachable_attended [OF assms]
  by (auto simp: attended_def log_waiting in_run_def)

theorem one_thing_under_way_witness:
  "length (own_tasks (RunId 10) [StartTool (RunId 10) demo_call]) \<le> 1"
  using one_thing_under_way [OF demo_reachable, of "demo_turn\<lparr>run_tool_calls := 1, run_phase := ToolPhase\<rparr>"]
  by (simp add: demo_started_run demo_turn_def demo_run_def new_run_def)

section \<open>What is reported\<close>

text \<open>
  C3: An actor of a reachable system that is idle on an open session of fewer than 2^64 events
  either noted that its store failed, and then it is blocked whatever it reports, or it reports
  exactly what its log holds: an effect as uncertain iff the log authorised it in a run that is
  open and nothing settled it, a proposal as unapproved iff it still waits, and nothing iff no
  run is open. So a human decides what became of every interrupted effect.
\<close>

theorem idle_actor_reports_its_log:
  assumes "reachable w s" "a_run (sys_actor s) = None"
    and "st_session (a_state (sys_actor s)) = Some session"
    and "short (mem_log (a_store (sys_actor s)) session)"
  shows "case st_store_failure (a_state (sys_actor s)) of
      Some detail \<Rightarrow> blocked w (sys_actor s) = Some (ReasonCode.ToolExecution, detail)
    | None \<Rightarrow> (a_recovery (sys_actor s) = Required \<lparr>interrupted_run = run,
          interrupted_kind = EffectUncertain authority call tier preview\<rparr>)
          = started_in run authority call tier preview (session_log (sys_actor s) session)
      \<and> (a_recovery (sys_actor s) = Required \<lparr>interrupted_run = run,
          interrupted_kind = ProposalUnapproved call tier preview\<rparr>)
          = (\<exists>i. waiting_in run i call tier preview (session_log (sys_actor s) session))
      \<and> (a_recovery (sys_actor s) = Clean) = (\<forall>other. \<not> open_in other (session_log (sys_actor s) session))"
proof (cases "st_store_failure (a_state (sys_actor s))")
  case None
  have "tracker_of (sys_actor s) session = Some tr \<Longrightarrow> \<exists>t. tr = \<lparr>open_id = open_id tr, open_tool = t\<rparr>" for tr
    by (cases tr) simp
  then have "(tracker_of (sys_actor s) session = None) = (\<forall>other. \<not> open_in other (session_log (sys_actor s) session))"
    unfolding log_open by (cases "tracker_of (sys_actor s) session") (simp, metis option.simps(3))
  with None show ?thesis
    unfolding idle_recovery [OF reachable_idle [OF assms(1,2)] assms(3) None assms(4)]
    by (simp add: finish_started finish_waiting tracker_finish_Clean log_started log_waiting)
next
  case (Some detail)
  then show ?thesis by (simp add: blocked_def)
qed

lemma demo_created_short: "short (mem_log (a_store demo_created) (SessionId 3))"
  by (simp add: short_def mem_log_def demo_defs bt_get_def)

theorem idle_actor_reports_its_log_witness:
  "\<forall>other. \<not> open_in other (session_log demo_created (SessionId 3))"
  using idle_actor_reports_its_log [OF demo_reachable_created, of "SessionId 3"]
  by (simp add: demo_created_fields demo_created_short)

text \<open>
  C1: Whatever way a process ends while a tool is under way, killed between two messages or shut
  down in order, the next process that reclaims and resumes the session reports the effect of
  that call as uncertain, under the authority its log shows, and is blocked until a human decides.
\<close>

theorem interrupted_tool_is_reported:
  assumes "reachable w s" "a_run (sys_actor s) = Some r"
    and "t \<in> set (sys_tasks s)" "runs_tool (run_id r) call t"
    and "starts_again w (sys_actor s) b"
    and "c = resume_session w session (reclaim_session w session b)"
    and "st_session (a_state c) = Some (run_session r)" "st_store_failure (a_state c) = None"
    and "short (mem_log (a_store c) (run_session r))"
  shows "blocked w c \<noteq> None \<and> (\<exists>authority tier preview.
      started_in (run_id r) authority call tier preview (session_log (sys_actor s) (run_session r))
      \<and> a_recovery c = Required \<lparr>interrupted_run = run_id r,
          interrupted_kind = EffectUncertain authority call tier preview\<rparr>)"
proof -
  obtain authority tier preview
    where i: "in_run r (Some (Started authority call tier preview)) (sys_actor s)"
    using reachable_tool [OF assms(1-4)] .
  then have "started_in (run_id r) authority call tier preview (session_log (sys_actor s) (run_session r))"
    by (simp add: log_started in_run_def)
  moreover have rc: "a_recovery c = Required \<lparr>interrupted_run = run_id r,
      interrupted_kind = EffectUncertain authority call tier preview\<rparr>"
    using resumed_recovery [OF assms(5) i assms(6-9)] by (simp add: finish_started)
  ultimately show ?thesis using assms(8) by (auto simp: blocked_def)
qed

lemma demo_starts_again: "starts_again demo_world demo_started demo_died"
  by (auto simp: starts_again_def demo_died_def)

theorem interrupted_tool_is_reported_witness:
  "blocked demo_world demo_resumed \<noteq> None \<and> (\<exists>authority tier preview.
      started_in (RunId 10) authority demo_call tier preview (session_log demo_started (SessionId 3))
      \<and> a_recovery demo_resumed = Required \<lparr>interrupted_run = RunId 10,
          interrupted_kind = EffectUncertain authority demo_call tier preview\<rparr>)"
  using interrupted_tool_is_reported [OF demo_reachable, of _ "StartTool (RunId 10) demo_call" demo_call demo_died
      demo_resumed "SessionId 3"] demo_resumed_fields demo_starts_again
  by (simp add: demo_started_run demo_turn_fields demo_runs demo_resumed_def demo_reclaimed_def short_def)

text \<open>
  Shutting the runtime down while a run is live changes no log and writes no checkpoint, in
  whatever state the rest of the actor is: the end of the run is left to the next process.
\<close>

theorem shutdown_during_a_run:
  assumes "a_run a \<noteq> None"
  shows "mem_log (a_store (snd (shutdown w a))) session = mem_log (a_store a) session
    \<and> map_option mem_checkpoints (bt_get (sessions (a_store (snd (shutdown w a)))) session)
      = map_option mem_checkpoints (bt_get (sessions (a_store a)) session)"
  using shutdown_live [OF assms, of w] by (simp add: same_entries_def)

theorem shutdown_during_a_run_witness:
  "mem_log (a_store (snd (shutdown demo_world demo_started))) (SessionId 3) = demo_log"
  using shutdown_during_a_run [of demo_started demo_world "SessionId 3"]
  by (simp add: demo_started_run mem_log_def) (simp add: demo_started_def demo_store_def bt_get_def demo_log_def)

section \<open>What a store holds\<close>

text \<open>
  C9: In every reachable system the log of each session is numbered without gaps, and, as long as
  it has fewer than 2^64 events, no checkpoint of the session covers the beginning of a run that
  is still open there: what a checkpoint replaces is always settled, so a resume from a
  checkpoint never overlooks an interrupted effect.
\<close>

theorem checkpoints_cover_settled_history:
  assumes "reachable w s" "bt_get (sessions (a_store (sys_actor s))) session = Some e"
  shows "map stored_sequence (mem_events e) = map of_nat [0..<length (mem_events e)]
    \<and> (short (mem_events e) \<longrightarrow> (\<forall>(n, cp) \<in> set (mem_checkpoints e). unat n \<le> length (mem_events e)
        \<and> (\<forall>run. \<not> open_in run (map stored_event (take (unat n) (mem_events e))))))"
proof -
  have e: "entry_sound e"
    using coherent_sound [OF reachable_coherent [OF assms(1)]] assms(2) by (auto simp: store_sound_def)
  have "unat n \<le> length (mem_events e) \<and> (\<forall>run. \<not> open_in run (map stored_event (take (unat n) (mem_events e))))"
    if "short (mem_events e)" "(n, cp) \<in> set (mem_checkpoints e)" for n cp
  proof -
    have c: "covers_settled (mem_events e) n" using e that by (auto simp: entry_sound_def)
    then have "matches_log None (map stored_event (take (unat n) (mem_events e)))"
      using fold_track_matches [of "map stored_event (take (unat n) (mem_events e))"]
      by (simp add: covers_settled_def log_tracker_def)
    with c show ?thesis by (simp add: matches_log_def covers_settled_def)
  qed
  with e show ?thesis by (auto simp: entry_sound_def contiguous_def)
qed

definition demo_closed :: System where
  "demo_closed = restarted demo_world [] (snd (shutdown demo_world demo_created))"

lemma demo_closed_reachable: "reachable demo_world demo_closed"
  using reachable.more [OF demo_reachable_created step.stop] by (simp add: demo_closed_def)

lemma demo_checkpoint: "\<exists>cp. build_checkpoint (SessionId 3) Active (a_state demo_created) = Inr cp \<and> cp_session cp = SessionId 3"
  by (simp add: build_checkpoint_def map_ok_def ReadSet_entries_def demo_created_def demo_state_def
      SessionState_default_def ReadSet_default_def)

lemma demo_created_store: "a_store demo_created = demo_store ''p'' 7 [demo_created_event]"
  "a_lease demo_created = Some \<lparr>lease_session = SessionId 3, lease_token = 6\<rparr>"
  by (simp_all add: demo_created_def)

lemma demo_closed_entry: "\<exists>e cp. bt_get (sessions (a_store (sys_actor demo_closed))) (SessionId 3) = Some e
    \<and> mem_events e = [demo_created_event] \<and> mem_checkpoints e = [(1, cp)]"
proof -
  obtain cp where cp: "build_checkpoint (SessionId 3) Active (a_state demo_created) = Inr cp" "cp_session cp = SessionId 3"
    using demo_checkpoint by blast
  have "is_required Clean = False" by (simp add: is_required_def)
  then show ?thesis
    by (simp add: demo_closed_def restarted_def spawn_actor_def shutdown_def demo_created_fields Let_def
        actor_checkpoint_def cp write_store_def demo_world_fields store_write_checkpoint_def demo_created_store
        next_tick_def read_store_def release_lease_def unit_op_def map_ok_def and_then_def ok_or_def
        refresh_session_list_def store_release_session_def upd_state_def demo_store_def bt_get_def)
qed

theorem checkpoints_cover_settled_history_witness:
  "\<exists>e cp. bt_get (sessions (a_store (sys_actor demo_closed))) (SessionId 3) = Some e
     \<and> map stored_sequence (mem_events e) = [0] \<and> mem_checkpoints e = [(1, cp)]
     \<and> \<not> open_in (RunId 10) (map stored_event (mem_events e))"
proof -
  obtain e cp where e: "bt_get (sessions (a_store (sys_actor demo_closed))) (SessionId 3) = Some e"
    "mem_events e = [demo_created_event]" "mem_checkpoints e = [(1, cp)]"
    using demo_closed_entry by blast
  with checkpoints_cover_settled_history [OF demo_closed_reachable e(1)] show ?thesis
    by (simp add: short_def)
qed

text \<open>
  The live state that the checkpoint of the example was written from has a workspace, a budget and
  a policy its log does not hold, and on record exactly what the log replays to.
\<close>

lemma demo_state_is_logged:
  "\<exists>u. replay (projection_apply (show_uuid_of demo_world) (\<lambda>_. (0, 0))) [demo_created_event]
      (SessionState_default, None, Active) = Inr (u, None, Active) \<and> log_part (a_state demo_created) = log_part u
    \<and> state_wf (a_state demo_created) \<and> st_workspace_root (a_state demo_created) = Some ''/p''"
  by (simp add: demo_created_event_def projection_apply_def is_projection_noop_def log_part_def demo_created_def
      demo_state_def SessionState_default_def state_wf_def ReadSet_wf_def ReadSet_default_def)

section \<open>What goes on\<close>

text \<open>
  C7: The loop over the pending calls of a run, none of which is a spawn, never leaves it hanging:
  unless the store fails, the run has ended, or it waits for the approval the client is shown, or
  exactly one new task is under way for it. (A call that spawns children is outside this: the one
  that is refused does leave the run hanging.)
\<close>

theorem tool_loop_makes_progress:
  assumes "in_run r None a" "awaiting_approval r = None" "no_spawn r"
    and "b = drive_tools w (run_id r) a"
  shows "(a_run b = None \<and> starts b = starts a)
    \<or> (\<exists>r' p shown. a_run b = Some r' \<and> awaiting_approval r' = Some p
        \<and> st_pending_approval (a_state b) = Some shown \<and> pending_id shown = pt_approval p
        \<and> pending_tier shown = tool_tier (pt_tool p) \<and> starts b = starts a)
    \<or> (\<exists>r' t. a_run b = Some r' \<and> run_id r' = run_id r \<and> starts b = starts a @ [t] \<and> task_run t = Some (run_id r))
    \<or> (\<exists>detail. st_store_failure (a_state b) = Some detail)"
proof -
  from drive_tools_drives [OF running_in_run [OF assms(1)], of w] assms(3)
  obtain q where "progressed (r\<lparr>pending_tools := q\<rparr>) a b" by (auto simp: drives_def assms(4))
  then consider "stopped a b" | "held (r\<lparr>pending_tools := q\<rparr>) a b" | "asking (r\<lparr>pending_tools := q\<rparr>) None a b"
    | authority call tier preview
      where "launched (r\<lparr>pending_tools := q\<rparr>) (Some (Started authority call tier preview)) call a b"
    | "stalled (r\<lparr>pending_tools := q\<rparr>) None a b"
    by (auto simp: progressed_def)
  then show ?thesis
  proof cases
    case 2
    then show ?thesis by (auto simp: held_def in_run_def)
  next
    case 3
    then show ?thesis by (auto simp: asking_def in_run_def same_run_def task_run_def)
  next
    case 4
    then show ?thesis by (fastforce simp: launched_def in_run_def same_run_def task_run_def)
  qed (auto simp: stopped_def idle_def stalled_def)
qed

definition demo_pending :: Actor where
  "demo_pending = demo_answered\<lparr>a_run := Some (demo_turn\<lparr>pending_tools := [demo_call]\<rparr>)\<rparr>"

lemma demo_in_run: "in_run (demo_turn\<lparr>pending_tools := [demo_call]\<rparr>) None demo_pending"
proof -
  have "a_store demo_pending = demo_store ''go'' 17 demo_answered_events"
    by (simp add: demo_pending_def demo_answered_def)
  moreover have "store_sound (demo_store ''go'' 17 demo_answered_events)"
    by (simp add: store_sound_def entry_sound_def demo_store_def bt_get_def contiguous_def demo_answered_events_def
        demo_events_def demo_created_event_def upt_rec)
  moreover have "log_tracker demo_answered_events = Some \<lparr>open_id = RunId 10, open_tool = None\<rparr>"
    by (simp add: log_tracker_def demo_answered_events_def demo_events_def demo_created_event_def track_def open_run_def)
  ultimately show ?thesis
    by (simp add: in_run_def demo_turn_fields tracker_of_def mem_log_def)
      (simp add: demo_pending_def demo_answered_def demo_asked_def demo_said_def demo_created_def demo_state_def
        push_message_def demo_store_def bt_get_def)
qed

lemma demo_pending_drives: "drive_tools demo_world (RunId 10) demo_pending = demo_started"
  by (simp add: demo_pending_def demo_drive)

lemma demo_started_fields: "st_store_failure (a_state demo_started) = None" "awaiting_approval demo_turn = None"
  by (simp_all add: demo_started_def demo_answered_def demo_asked_def demo_said_def demo_created_def demo_state_def
      push_message_def SessionState_default_def demo_turn_def demo_run_def new_run_def)

theorem tool_loop_makes_progress_witness:
  "\<exists>t. starts demo_started = starts demo_pending @ [t]"
  using tool_loop_makes_progress [OF demo_in_run _ _ refl, of demo_world]
  by (auto simp: demo_turn_fields no_spawn_def demo_call_fields demo_pending_drives demo_started_run demo_started_fields)

section \<open>What starts\<close>

text \<open>
  C6: The loop starts a tool only for a call whose name is registered, whose arguments pass the
  tool's schema, in an open workspace, and which the gate allows under the session's policy, its
  exact-command grants, the trust of the workspace and the drawn spawn envelope; every other call
  is refused, or held for a human, and nothing is started for it.
\<close>

theorem gate_before_every_start:
  assumes "starts (snd (drive_tool w run proposed a)) \<noteq> starts a"
    and "call = normalize_call (a_state a) proposed"
  shows "\<exists>spec. map_of (a_tools a) (call_name proposed) = Some spec
    \<and> tool_check spec (call_arguments call) = Inr () \<and> st_workspace_root (a_state a) \<noteq> None
    \<and> gate_decision (a_state a) call spec (envelope_draw call (a_state a) = Some (Inr ())) = Allow"
  using drive_tool_gate [OF assms(1)] assms(2) by simp

lemma demo_turn_drive:
  "drive_tool demo_world (RunId 10) demo_call (demo_answered\<lparr>a_run := Some demo_turn\<rparr>) = (True, demo_started)"
  by (simp add: drive_tool_def normalize_call_def Let_def demo_call_fields demo_reserve demo_prepare
      dispose_proposal_def envelope_draw_def demo_dispose)

lemma demo_answered_starts: "starts demo_answered = [demo_task]" "starts demo_proposed = [demo_task]"
  by (simp_all add: demo_answered_def demo_proposed_def demo_started_def starts_demo butlast_append)
    (simp_all add: starts_def demo_asked_def demo_said_def demo_events_def demo_created_def demo_task_def)

theorem gate_before_every_start_witness:
  "\<exists>spec. map_of (a_tools demo_answered) ''read_file'' = Some spec
    \<and> gate_decision (a_state demo_answered) demo_call spec False = Allow"
  using gate_before_every_start [of demo_world "RunId 10" demo_call "demo_answered\<lparr>a_run := Some demo_turn\<rparr>" demo_call]
  by (auto simp: demo_turn_drive demo_answered_starts starts_demo normalize_call_def demo_call_fields envelope_draw_def)








text \<open>
  C23: An actor that is blocked, by a store that failed or by interrupted work nobody decided,
  starts no run: not for a directive, whatever its source, and not for a handoff.
\<close>

theorem blocked_actor_starts_nothing:
  assumes "a_run a = None" "(\<exists>d. st_store_failure (a_state a) = Some d) \<or> (\<exists>work. a_recovery a = Required work)"
  shows "starts (start_run w text source a) = starts a \<and> a_run (start_run w text source a) = None
    \<and> starts (start_handoff w target a) = starts a \<and> a_run (start_handoff w target a) = None"
proof -
  have calm: "calm a (cap_directive w source a)" by (intro calm_intros)
  then have "blocked w (cap_directive w source a) \<noteq> None" "blocked w a \<noteq> None"
    using assms(2) by (auto simp: blocked_def calm_def kept_def split: option.split RecoveryState.split)
  with assms(1) calm show ?thesis
    by (auto simp: start_run_def start_handoff_def Let_def calm_def kept_def starts_calm [OF calm] split: option.split)
qed

theorem blocked_actor_starts_nothing_witness:
  "a_run (start_run demo_world ''go'' Human (demo_created\<lparr>a_recovery := Required
     \<lparr>interrupted_run = RunId 1, interrupted_kind = ProviderTurnInterrupted\<rparr>\<rparr>)) = None"
  using blocked_actor_starts_nothing [of "demo_created\<lparr>a_recovery := Required
     \<lparr>interrupted_run = RunId 1, interrupted_kind = ProviderTurnInterrupted\<rparr>\<rparr>" demo_world "''go''" Human]
  by (simp add: demo_created_fields)

section \<open>What is rebuilt\<close>

text \<open>
  C25: Every list of stored events, on a checkpoint or from the beginning, projects into a session
  state, and the state is well formed: its read set is readable, and its ordered maps are sorted
  and keyed by what their values name. So a resume never fails on its own log.
\<close>

theorem recovered_state_is_well_formed:
  "\<exists>r. project show_uuid mint cp covered events = Inr r \<and> state_wf (recovered_state r)"
proof -
  obtain st status where b: "base_state cp covered = Inr (st, status)" "state_wf st"
    using base_state_total by blast
  from projection_replay_total [of "(st, None, status)" show_uuid mint events] b(2)
  obtain st' tr' status' where "replay (projection_apply show_uuid mint) events (st, None, status) = Inr (st', tr', status')"
    "state_wf st'" by (auto simp: projection_wf_def)
  with b show ?thesis by (simp add: project_def and_then_def map_ok_def state_wf_def)
qed

end
