(* ===== verification/Std_Path.thy ===== *)
theory Std_Path
  imports Rust_Str "HOL-Library.Sublist" "HOL-Library.List_Lexorder"
begin

text \<open>
  \<^verbatim>\<open>std::path\<close> on Unix, as far as the program uses it: a path is its byte string, its
  components are what \<^verbatim>\<open>Path::components\<close> yields (empty segments dropped, \<^verbatim>\<open>.\<close> dropped
  unless it comes first), and joining, taking the parent or the file name and the prefix
  test go by them. The rest of the theory relates the strings of absolute, normal paths
  with the lists of their names.
\<close>

section \<open>Segments and components\<close>

datatype Component = RootDir | CurDir | ParentDir | Normal string

fun segments :: "string \<Rightarrow> string list" where
  "segments [] = [[]]"
| "segments (c # cs) = (if c = CHR ''/'' then [] # segments cs
     else case segments cs of [] \<Rightarrow> [[c]] | s # ss \<Rightarrow> (c # s) # ss)"

definition is_absolute :: "string \<Rightarrow> bool" where
  "is_absolute p = (case p of [] \<Rightarrow> False | c # _ \<Rightarrow> c = CHR ''/'')"

fun segment_components :: "string list \<Rightarrow> Component list" where
  "segment_components [] = []"
| "segment_components (s # ss) =
     (if s = [] \<or> s = ''.'' then segment_components ss
      else (if s = ''..'' then ParentDir else Normal s) # segment_components ss)"

definition components :: "string \<Rightarrow> Component list" where
  "components p = (if is_absolute p then [RootDir] else if hd (segments p) = ''.'' then [CurDir] else [])
     @ segment_components (segments p)"

definition path_push :: "string \<Rightarrow> string \<Rightarrow> string" where
  "path_push p q = (if is_absolute q then q
     else if p = [] \<or> last p = CHR ''/'' then p @ q else p @ ''/'' @ q)"

definition path_starts_with :: "string \<Rightarrow> string \<Rightarrow> bool" where
  "path_starts_with p base = prefix (components base) (components p)"

text \<open>
  The last component and what is left of it, with what separates them trimmed: the first
  segment stands for the root (when it is empty), or for a leading \<^verbatim>\<open>.\<close>.
\<close>

fun trim_segments :: "string list \<Rightarrow> string list" where
  "trim_segments [] = []"
| "trim_segments (s # ss) = (if (s = [] \<or> s = ''.'') \<and> ss \<noteq> [] then trim_segments ss else s # ss)"

fun join_segments :: "string list \<Rightarrow> string" where
  "join_segments [] = []"
| "join_segments [s] = s"
| "join_segments (s # t # ss) = s @ ''/'' @ join_segments (t # ss)"

definition segments_path :: "string list \<Rightarrow> string" where
  "segments_path ss = (if ss = [[]] then ''/'' else join_segments ss)"

definition path_parent :: "string \<Rightarrow> string option" where
  "path_parent p = (case trim_segments (rev (segments p)) of
      [] \<Rightarrow> None
    | [s] \<Rightarrow> if s = [] then None else Some []
    | s # ss \<Rightarrow> Some (segments_path (rev (trim_segments ss))))"

definition path_file_name :: "string \<Rightarrow> string option" where
  "path_file_name p = (case trim_segments (rev (segments p)) of
      [] \<Rightarrow> None
    | s # _ \<Rightarrow> if s = [] \<or> s = ''.'' \<or> s = ''..'' then None else Some s)"

section \<open>The strings of absolute paths\<close>

definition name_ok :: "string \<Rightarrow> bool" where
  "name_ok s \<longleftrightarrow> s \<noteq> [] \<and> CHR ''/'' \<notin> set s \<and> s \<noteq> ''.'' \<and> s \<noteq> ''..''"

definition path_of :: "string list \<Rightarrow> string" where
  "path_of l = (if l = [] then ''/'' else concat (map ((#) CHR ''/'') l))"

lemma segments_not_Nil [simp]: "segments p \<noteq> []"
  by (cases p) (auto split: list.split)

lemma segments_plain: "CHR ''/'' \<notin> set s \<Longrightarrow> segments s = [s]"
  by (induction s) auto

lemma segments_append:
  "segments (a @ CHR ''/'' # b) = segments a @ segments b"
  by (induction a) (auto split: list.split)

lemma segments_glued:
  "CHR ''/'' \<notin> set s \<Longrightarrow> segments (a @ s) = butlast (segments a) @ [last (segments a) @ s]"
  by (induction a) (auto simp: segments_plain split: list.split)

lemma segments_no_slash: "s \<in> set (segments p) \<Longrightarrow> CHR ''/'' \<notin> set s"
  by (induction p arbitrary: s) (auto split: list.splits if_splits)

lemma segment_components_append [simp]:
  "segment_components (a @ b) = segment_components a @ segment_components b"
  by (induction a) auto

lemma segment_components_ok: "\<forall>s \<in> set ss. name_ok s \<Longrightarrow> segment_components ss = map Normal ss"
  by (induction ss) (auto simp: name_ok_def)

lemma segment_components_Normal: "Normal s \<in> set (segment_components ss) \<Longrightarrow> s \<in> set ss \<and> s \<noteq> [] \<and> s \<noteq> ''.'' \<and> s \<noteq> ''..''"
  by (induction ss) (auto split: if_splits)

lemma components_Normal: "Normal s \<in> set (components p) \<Longrightarrow> name_ok s"
  by (auto simp: components_def name_ok_def dest!: segment_components_Normal dest: segments_no_slash split: if_splits)

lemma path_of_append: "l \<noteq> [] \<Longrightarrow> path_of (l @ [s]) = path_of l @ CHR ''/'' # s"
  by (simp add: path_of_def)

lemma path_of_single [simp]: "path_of [s] = CHR ''/'' # s"
  by (simp add: path_of_def)

lemma path_of_Nil [simp]: "path_of [] = ''/''"
  by (simp add: path_of_def)

lemma is_absolute_path_of [simp]: "is_absolute (path_of l)"
  by (cases l) (simp_all add: path_of_def is_absolute_def)

lemma segments_path_of: "\<forall>s \<in> set l. name_ok s \<Longrightarrow> segments (path_of l) = (if l = [] then [[], []] else [] # l)"
proof (induction l rule: rev_induct)
  case Nil
  show ?case by simp
next
  case (snoc s l)
  then have s: "segments s = [s]" by (simp add: name_ok_def segments_plain)
  show ?case
  proof (cases "l = []")
    case True
    with s show ?thesis by simp
  next
    case False
    with snoc s show ?thesis by (simp add: path_of_append segments_append)
  qed
qed

lemma components_path_of:
  assumes "\<forall>s \<in> set l. name_ok s"
  shows "components (path_of l) = RootDir # map Normal l"
  using assms by (simp add: components_def segments_path_of segment_components_ok)

lemma map_Normal_eq: "map Normal l = map Normal m \<longleftrightarrow> l = m"
  by (rule inj_map_eq_map) (simp add: inj_def)

lemma path_of_inj:
  assumes "\<forall>s \<in> set l. name_ok s" "\<forall>s \<in> set m. name_ok s" "path_of l = path_of m"
  shows "l = m"
proof -
  have "map Normal l = map Normal m"
    using components_path_of [OF assms(1)] components_path_of [OF assms(2)] assms(3) by simp
  then show ?thesis by (simp only: map_Normal_eq)
qed

lemma starts_with_path_of:
  assumes "\<forall>s \<in> set l. name_ok s" "\<forall>s \<in> set m. name_ok s"
  shows "path_starts_with (path_of l) (path_of m) \<longleftrightarrow> prefix m l"
proof -
  have "path_starts_with (path_of l) (path_of m) \<longleftrightarrow> prefix (map Normal m) (map Normal l)"
    by (simp add: path_starts_with_def components_path_of assms)
  also have "\<dots> \<longleftrightarrow> prefix m l"
  proof
    assume "prefix (map Normal m) (map Normal l)"
    then obtain r where "map Normal l = map Normal m @ r" by (auto simp: prefix_def)
    then obtain a b where "l = a @ b" "map Normal a = map Normal m" by (auto simp: map_eq_append_conv)
    then show "prefix m l" by (simp add: map_Normal_eq)
  qed (simp add: map_mono_prefix)
  finally show ?thesis .
qed

lemma is_absolute_name: "name_ok s \<Longrightarrow> \<not> is_absolute s"
  by (cases s) (auto simp: name_ok_def is_absolute_def)

lemma path_push_name:
  assumes "\<forall>s \<in> set l. name_ok s" "name_ok s"
  shows "path_push (path_of l) s = path_of (l @ [s])"
proof (cases l rule: rev_cases)
  case Nil
  with assms show ?thesis by (simp add: path_push_def is_absolute_name)
next
  case (snoc k n)
  with assms have "n \<noteq> []" "CHR ''/'' \<notin> set n" by (simp_all add: name_ok_def)
  then have "last (path_of l) = last n" "last n \<in> set n"
    using snoc by (auto simp: path_of_def)
  with \<open>CHR ''/'' \<notin> set n\<close> have "last (path_of l) \<noteq> CHR ''/''" by auto
  moreover have "path_of l \<noteq> []" by (simp add: path_of_def snoc)
  ultimately show ?thesis using assms snoc
    by (simp add: path_push_def is_absolute_name path_of_append del: append_assoc)
qed

lemma join_segments_snoc: "ss \<noteq> [] \<Longrightarrow> join_segments (ss @ [s]) = join_segments ss @ ''/'' @ s"
  by (induction ss rule: join_segments.induct) auto

lemma join_segments_path_of: "l \<noteq> [] \<Longrightarrow> join_segments ([] # l) = path_of l"
proof (induction l rule: rev_induct)
  case (snoc s l)
  have "join_segments ([] # l @ [s]) = join_segments ([] # l) @ ''/'' @ s"
    using join_segments_snoc [of "[] # l" s] by simp
  with snoc show ?case by (cases "l = []") (auto simp: path_of_append)
qed simp

lemma trim_segments_ok: "name_ok s \<Longrightarrow> trim_segments (s # ss) = s # ss"
  by (simp add: name_ok_def)

lemma parent_path_of:
  assumes "\<forall>s \<in> set l. name_ok s" "name_ok s"
  shows "path_parent (path_of (l @ [s])) = Some (path_of l)" "path_file_name (path_of (l @ [s])) = Some s"
proof -
  have g: "segments (path_of (l @ [s])) = [] # l @ [s]"
    using segments_path_of [of "l @ [s]"] assms by simp
  have "trim_segments (rev l @ [[]]) = rev l @ [[]]"
    using assms(1) by (cases l rule: rev_cases) (auto simp: name_ok_def)
  moreover have "segments_path ([] # l) = path_of l"
    by (cases "l = []") (simp_all add: segments_path_def join_segments_path_of)
  moreover obtain x xs where x: "rev l @ [[]] = x # xs" by (cases "rev l @ [[]]") auto
  moreover have "rev xs @ [x] = [] # l" using arg_cong [OF x, of rev] by simp
  ultimately show "path_parent (path_of (l @ [s])) = Some (path_of l)"
    using g assms by (simp add: path_parent_def trim_segments_ok del: trim_segments.simps(2))
  from g assms show "path_file_name (path_of (l @ [s])) = Some s"
    by (auto simp: path_file_name_def trim_segments_ok name_ok_def simp del: trim_segments.simps(2))
qed

lemma path_parent_root [simp]: "path_parent ''/'' = None" "path_file_name ''/'' = None"
  by (simp_all add: path_parent_def path_file_name_def)

lemma trim_segments_subset: "set (trim_segments ss) \<subseteq> set ss"
  by (induction ss) auto

lemma path_file_name_ok: "path_file_name p = Some s \<Longrightarrow> name_ok s"
  using trim_segments_subset [of "rev (segments p)"]
  by (auto simp: path_file_name_def name_ok_def split: list.splits if_splits dest: segments_no_slash)

section \<open>Parents are shorter\<close>

lemma join_segments_segments [simp]: "join_segments (segments p) = p"
proof (induction p)
  case Nil
  show ?case by simp
next
  case (Cons c p)
  obtain s ss where s: "segments p = s # ss" by (cases "segments p") auto
  with Cons show ?case by (cases ss) auto
qed

lemma join_segments_append:
  "a \<noteq> [] \<Longrightarrow> b \<noteq> [] \<Longrightarrow> join_segments (a @ b) = join_segments a @ ''/'' @ join_segments b"
proof (induction a rule: join_segments.induct)
  case (2 s)
  then show ?case by (cases b) auto
qed auto

lemma trim_segments_suffix: "ss \<noteq> [] \<Longrightarrow> suffix (trim_segments ss) ss \<and> trim_segments ss \<noteq> []"
  by (induction ss) (auto simp: suffix_Cons)

lemma join_prefix_length:
  assumes "a \<noteq> []" "prefix a b"
  shows "length (join_segments a) + (if a = b then 0 else 1) \<le> length (join_segments b)"
proof -
  obtain c where c: "b = a @ c" using assms(2) by (auto simp: prefix_def)
  show ?thesis
  proof (cases "c = []")
    case False
    with assms(1) c show ?thesis by (simp add: join_segments_append)
  qed (simp add: c)
qed

lemma path_parent_shorter:
  assumes "path_parent p = Some q"
  shows "length q < length p"
proof -
  let ?t = "trim_segments (rev (segments p))"
  have t: "suffix ?t (rev (segments p))" "?t \<noteq> []"
    using trim_segments_suffix [of "rev (segments p)"] by auto
  show ?thesis
  proof (cases ?t)
    case (Cons s ss)
    show ?thesis
    proof (cases "ss = []")
      case True
      have "prefix [s] (segments p)" using t(1) Cons True by (simp add: suffix_to_prefix)
      with join_prefix_length [of "[s]" "segments p"] have "length s \<le> length p" by simp
      with assms Cons True show ?thesis by (auto simp: path_parent_def split: if_splits)
    next
      case False
      let ?u = "rev (trim_segments ss)"
      have u: "suffix (trim_segments ss) ss" "trim_segments ss \<noteq> []" using trim_segments_suffix [OF False] by auto
      have "suffix ss (rev (segments p))" using t(1) Cons suffix_ConsD by metis
      with u(1) have "suffix (trim_segments ss) (rev (segments p))" using suffix_order.trans by blast
      then have p: "prefix ?u (segments p)" by (simp add: suffix_to_prefix)
      have "length (trim_segments ss) \<le> length ss" using u(1) by (simp add: suffix_length_le)
      moreover have "length (s # ss) \<le> length (segments p)" using t(1) Cons suffix_length_le by fastforce
      ultimately have n: "?u \<noteq> segments p" by (metis Suc_n_not_le_n length_Cons length_rev order_trans)
      with join_prefix_length [OF _ p] u(2) have l: "length (join_segments ?u) < length p" by simp
      have q: "q = segments_path ?u" using assms Cons False by (auto simp: path_parent_def split: list.splits)
      show ?thesis
      proof (cases "?u = [[]]")
        case True
        have "2 \<le> length p"
        proof (rule ccontr)
          assume "\<not> 2 \<le> length p"
          then have "p = [] \<or> (\<exists>c. p = [c])" by (cases p) (auto simp: length_Suc_conv not_le less_Suc_eq)
          then have "segments p = [[]] \<or> segments p = [[], []] \<or> (\<exists>c. segments p = [[c]])"
            by (elim disjE exE) auto
          with Cons False True show False by auto
        qed
        with q True show ?thesis by (simp add: segments_path_def)
      qed (use q l in \<open>auto simp: segments_path_def\<close>)
    qed
  qed (use t in auto)
qed

section \<open>The names of a path\<close>

fun normals :: "Component list \<Rightarrow> string list" where
  "normals [] = []"
| "normals (Normal s # cs) = s # normals cs"
| "normals (_ # cs) = normals cs"

definition real_segment :: "string \<Rightarrow> bool" where
  "real_segment s \<longleftrightarrow> s \<noteq> [] \<and> s \<noteq> ''.''"

lemma normals_append [simp]: "normals (a @ b) = normals a @ normals b"
  by (induction a rule: normals.induct) auto

lemma normals_map [simp]: "normals (map Normal l) = l"
  by (induction l) auto

lemma segment_components_plain:
  "ParentDir \<notin> set (segment_components ss) \<Longrightarrow> segment_components ss = map Normal (filter real_segment ss)"
  by (induction ss) (auto simp: real_segment_def)

lemma segment_components_ParentDir: "''..'' \<in> set ss \<longleftrightarrow> ParentDir \<in> set (segment_components ss)"
  by (induction ss) auto

lemma absolute_segments: "is_absolute p \<Longrightarrow> \<exists>ss. segments p = [] # ss \<and> ss \<noteq> []"
  by (cases p) (auto simp: is_absolute_def)

lemma absolute_components:
  assumes "is_absolute p" "ParentDir \<notin> set (components p)"
  shows "components p = RootDir # map Normal (normals (components p))"
    "normals (components p) = filter real_segment (segments p)" "''..'' \<notin> set (segments p)"
proof -
  have n: "ParentDir \<notin> set (segment_components (segments p))"
    using assms by (simp add: components_def)
  with assms(1) show "components p = RootDir # map Normal (normals (components p))"
    "normals (components p) = filter real_segment (segments p)"
    using segment_components_plain [OF n] by (simp_all add: components_def)
  from n show "''..'' \<notin> set (segments p)" by (simp add: segment_components_ParentDir)
qed

lemma segments_join: "us \<noteq> [] \<Longrightarrow> \<forall>s \<in> set us. CHR ''/'' \<notin> set s \<Longrightarrow> segments (join_segments us) = us"
  by (induction us rule: join_segments.induct) (auto simp: segments_plain segments_append)

lemma segment_components_trim: "segment_components (rev (trim_segments ss)) = segment_components (rev ss)"
  by (induction ss) auto

lemma trim_segments_last: "ss \<noteq> [] \<Longrightarrow> last (trim_segments ss) = last ss"
  by (induction ss) auto

lemma parent_components:
  assumes "is_absolute p" "path_parent p = Some q" "path_file_name p = Some s"
  shows "is_absolute q" "components q @ [Normal s] = components p"
proof -
  obtain us where us: "segments p = [] # us" "us \<noteq> []" using absolute_segments [OF assms(1)] by blast
  let ?t = "trim_segments (rev (segments p))"
  have c: "segment_components (rev ?t) = segment_components (segments p)"
    using segment_components_trim [of "rev (segments p)"] by simp
  have l: "last ?t = []" using trim_segments_last [of "rev (segments p)"] us by simp
  obtain ss where t: "?t = s # ss" "s \<noteq> []" "s \<noteq> ''.''" "s \<noteq> ''..''"
    using assms(3) by (auto simp: path_file_name_def split: list.splits if_splits)
  with l have ss: "ss \<noteq> []" "last ss = []" by (auto split: if_splits)
  let ?u = "rev (trim_segments ss)"
  have u: "?u \<noteq> []" "hd ?u = []"
    using trim_segments_suffix [OF ss(1)] trim_segments_last [OF ss(1)] ss(2) by (auto simp: hd_rev)
  have q: "q = segments_path ?u" using assms(2) t(1) ss(1) by (auto simp: path_parent_def split: list.splits)
  have "set ?u \<subseteq> set (segments p)"
    using trim_segments_subset [of ss] trim_segments_subset [of "rev (segments p)"] t(1) by auto
  then have "\<forall>x \<in> set ?u. CHR ''/'' \<notin> set x" using segments_no_slash by blast
  with u(1) have j: "segments (join_segments ?u) = ?u" by (rule segments_join)
  have e: "segment_components ?u @ [Normal s] = segment_components (segments p)"
    using c t by (simp add: segment_components_trim)
  show "is_absolute q" "components q @ [Normal s] = components p"
  proof -
    have "is_absolute q \<and> segment_components (segments q) = segment_components ?u"
    proof (cases "?u = [[]]")
      case True
      with q show ?thesis by (simp add: segments_path_def is_absolute_def)
    next
      case False
      with u obtain x xs where "?u = [] # x # xs" by (metis hd_Cons_tl list.exhaust)
      then have "is_absolute (join_segments ?u)" by (simp add: is_absolute_def)
      with q False j show ?thesis by (simp add: segments_path_def)
    qed
    with e assms(1) show "is_absolute q" "components q @ [Normal s] = components p"
      by (simp_all add: components_def)
  qed
qed

end
