(* ===== verification/File_System.thy ===== *)
theory File_System
  imports Std_Path Tool Display
begin

text \<open>
  \<^verbatim>\<open>std::fs\<close> over a Unix file system, as far as the built-in tools use it. The tree is a map
  from locations (the names from the root down) to files, directories and symbolic links;
  names are resolved one by one, links followed, at most forty of them, and a path of 4096 bytes
  or more is refused. Every call is one
  step of the host: before it other processes may have changed the tree (\<^verbatim>\<open>o_meddle\<close>), and it
  may fail on its own (\<^verbatim>\<open>o_fault\<close>); both depend on the number of the call. A write opens and
  empties the file before it writes, so one that fails may leave the file with a beginning of
  what was to be written (\<^verbatim>\<open>o_torn\<close>), and one entry of a directory may fail to be read while
  the others are (\<^verbatim>\<open>o_entry\<close>). The files the session has read are kept with the host.
\<close>

section \<open>The tree\<close>

datatype Node = File string | Directory | Symlink string

type_synonym location = "string list"
type_synonym fs = "(location, Node) btree_map"

datatype IoError = ENOENT | ENOTDIR | EISDIR | EEXIST | ELOOP | ENAMETOOLONG | OsError string

definition IoError_display :: "IoError \<Rightarrow> string" where
  "IoError_display e = (case e of
      ENOENT \<Rightarrow> ''No such file or directory (os error 2)''
    | ENOTDIR \<Rightarrow> ''Not a directory (os error 20)''
    | EISDIR \<Rightarrow> ''Is a directory (os error 21)''
    | EEXIST \<Rightarrow> ''File exists (os error 17)''
    | ELOOP \<Rightarrow> ''Too many levels of symbolic links (os error 40)''
    | ENAMETOOLONG \<Rightarrow> ''File name too long (os error 36)''
    | OsError detail \<Rightarrow> detail)"

definition node_at :: "fs \<Rightarrow> location \<Rightarrow> Node option" where
  "node_at fs l = (if l = [] then Some Directory else bt_get fs l)"

definition MAX_LINKS :: nat where
  "MAX_LINKS = 40"

definition PATH_MAX :: int where
  "PATH_MAX = 4096"

text \<open>
  Where a path leads, from a directory: the last name may be missing. A link in last place is
  followed on demand.
\<close>

function place :: "fs \<Rightarrow> bool \<Rightarrow> nat \<Rightarrow> location \<Rightarrow> string list \<Rightarrow> (location, IoError) result" where
  "place fs follow n cur [] = Inr cur"
| "place fs follow n cur (s # ss) =
     (if node_at fs cur \<noteq> Some Directory then Inl ENOTDIR
      else if s = [] \<or> s = ''.'' then place fs follow n cur ss
      else if s = ''..'' then place fs follow n (butlast cur) ss
      else case node_at fs (cur @ [s]) of
          None \<Rightarrow> if ss = [] then Inr (cur @ [s]) else Inl ENOENT
        | Some (Symlink target) \<Rightarrow>
            if ss = [] \<and> \<not> follow then Inr (cur @ [s])
            else if n = 0 then Inl ELOOP
            else place fs follow (n - 1) (if is_absolute target then [] else cur) (segments target @ ss)
        | Some _ \<Rightarrow> place fs follow n (cur @ [s]) ss)"
  by pat_completeness auto
termination by (relation "(\<lambda>(_, _, n, _, _). n) <*mlex*> measure (\<lambda>(_, _, _, _, ss). length ss)") (auto simp: mlex_prod_def)

definition locate :: "fs \<Rightarrow> location \<Rightarrow> bool \<Rightarrow> string \<Rightarrow> (location, IoError) result" where
  "locate fs cwd follow p = (if p = [] then Inl ENOENT
     else if PATH_MAX \<le> int (length p) then Inl ENAMETOOLONG
     else place fs follow MAX_LINKS (if is_absolute p then [] else cwd) (segments p))"

definition lookup :: "fs \<Rightarrow> location \<Rightarrow> bool \<Rightarrow> string \<Rightarrow> (location \<times> Node, IoError) result" where
  "lookup fs cwd follow p = and_then (locate fs cwd follow p)
     (\<lambda>l. case node_at fs l of None \<Rightarrow> Inl ENOENT | Some v \<Rightarrow> Inr (l, v))"

definition children :: "fs \<Rightarrow> location \<Rightarrow> string list" where
  "children fs l = map (last \<circ> fst) (filter (\<lambda>(k, _). k \<noteq> [] \<and> butlast k = l \<and> name_ok (last k)) fs)"

section \<open>The host\<close>

record Host =
  h_files :: fs
  h_cwd :: location
  h_time :: nat
  h_reads :: ReadSet

record Outside =
  o_meddle :: "nat \<Rightarrow> fs \<Rightarrow> fs"
  o_fault :: "nat \<Rightarrow> IoError option"
  o_torn :: "nat \<Rightarrow> nat option"
  o_entry :: "nat \<Rightarrow> string \<Rightarrow> IoError option"
  o_cancel :: "nat \<Rightarrow> bool"
  o_dir_len :: nat
  o_sha256 :: "string \<Rightarrow> string"
  o_diff :: "string \<Rightarrow> string \<Rightarrow> string \<Rightarrow> string \<Rightarrow> string"

text \<open>
  What the tools take from outside the program: the other processes, the failures of calls,
  how many bytes a failing write still wrote (none, when it failed to open the file), the
  failures of directory entries, by call and name, the cancellation of the run, the length a
  directory is reported with, and two libraries:
  the SHA-256 digest (\<^verbatim>\<open>sha2\<close>) and the unified diff of two texts under two headers
  (\<^verbatim>\<open>similar\<close>).
\<close>

type_synonym ('a, 'e) io = "Host \<Rightarrow> ('a, 'e) result \<times> Host"

definition syscall :: "Outside \<Rightarrow> ('a, IoError) io \<Rightarrow> ('a, IoError) io" where
  "syscall w f h = (let h' = h\<lparr>h_files := o_meddle w (h_time h) (h_files h), h_time := Suc (h_time h)\<rparr> in
     case o_fault w (h_time h) of Some e \<Rightarrow> (Inl e, h') | None \<Rightarrow> f h')"

definition query :: "Outside \<Rightarrow> (fs \<Rightarrow> location \<Rightarrow> ('a, IoError) result) \<Rightarrow> ('a, IoError) io" where
  "query w q = syscall w (\<lambda>h. (q (h_files h) (h_cwd h), h))"

definition fs_canonicalize :: "Outside \<Rightarrow> string \<Rightarrow> (string, IoError) io" where
  "fs_canonicalize w p = query w (\<lambda>fs cwd. map_ok (\<lambda>(l, _). path_of l) (lookup fs cwd True p))"

definition fs_metadata :: "Outside \<Rightarrow> string \<Rightarrow> (Node, IoError) io" where
  "fs_metadata w p = query w (\<lambda>fs cwd. map_ok snd (lookup fs cwd True p))"

definition fs_symlink_metadata :: "Outside \<Rightarrow> string \<Rightarrow> (Node, IoError) io" where
  "fs_symlink_metadata w p = query w (\<lambda>fs cwd. map_ok snd (lookup fs cwd False p))"

definition node_len :: "Outside \<Rightarrow> Node \<Rightarrow> nat" where
  "node_len w v = (case v of File c \<Rightarrow> length c | Directory \<Rightarrow> o_dir_len w | Symlink t \<Rightarrow> length t)"

definition path_exists :: "Outside \<Rightarrow> string \<Rightarrow> Host \<Rightarrow> bool \<times> Host" where
  "path_exists w p h = (case fs_metadata w p h of (r, h) \<Rightarrow> (is_ok r, h))"

definition path_is_dir :: "Outside \<Rightarrow> string \<Rightarrow> Host \<Rightarrow> bool \<times> Host" where
  "path_is_dir w p h = (case fs_metadata w p h of (r, h) \<Rightarrow> (r = Inr Directory, h))"

definition fs_read :: "Outside \<Rightarrow> string \<Rightarrow> (string, IoError) io" where
  "fs_read w p = query w (\<lambda>fs cwd. and_then (lookup fs cwd True p) (\<lambda>(_, v).
     case v of File c \<Rightarrow> Inr c | Directory \<Rightarrow> Inl EISDIR | Symlink _ \<Rightarrow> Inl ELOOP))"

text \<open>
  The names in a directory, each read or failed; the program gets them in the order of the
  tree, which stays the same between calls.
\<close>

definition read_entry :: "Outside \<Rightarrow> nat \<Rightarrow> string \<Rightarrow> (string, IoError) result" where
  "read_entry w n name = (case o_entry w n name of Some e \<Rightarrow> Inl e | None \<Rightarrow> Inr name)"

definition fs_read_dir :: "Outside \<Rightarrow> string \<Rightarrow> ((string, IoError) result list, IoError) io" where
  "fs_read_dir w p h = query w (\<lambda>fs cwd. and_then (lookup fs cwd True p) (\<lambda>(l, v).
     case v of Directory \<Rightarrow> Inr (map (read_entry w (h_time h)) (children fs l)) | _ \<Rightarrow> Inl ENOTDIR)) h"

definition result_ok :: "('a, 'e) result \<Rightarrow> 'a option" where
  "result_ok r = (case r of Inl _ \<Rightarrow> None | Inr x \<Rightarrow> Some x)"

text \<open>
  \<^verbatim>\<open>std::fs::write\<close>. It may fail without having opened the file, or after it emptied the file
  and wrote a beginning of the content.
\<close>

definition replace_file :: "string \<Rightarrow> string \<Rightarrow> (unit, IoError) result \<Rightarrow> (unit, IoError) io" where
  "replace_file p content reply h = (case locate (h_files h) (h_cwd h) True p of
      Inl e \<Rightarrow> (Inl e, h)
    | Inr l \<Rightarrow> if node_at (h_files h) l = Some Directory then (Inl EISDIR, h)
        else (reply, h\<lparr>h_files := bt_insert l (File content) (h_files h)\<rparr>))"

definition fs_write :: "Outside \<Rightarrow> string \<Rightarrow> string \<Rightarrow> (unit, IoError) io" where
  "fs_write w p content h =
     (let h' = h\<lparr>h_files := o_meddle w (h_time h) (h_files h), h_time := Suc (h_time h)\<rparr> in
      case o_fault w (h_time h) of
        None \<Rightarrow> replace_file p content (Inr ()) h'
      | Some e \<Rightarrow> (case o_torn w (h_time h) of
            None \<Rightarrow> (Inl e, h')
          | Some k \<Rightarrow> replace_file p (take k content) (Inl e) h'))"

definition fs_mkdir :: "Outside \<Rightarrow> string \<Rightarrow> (unit, IoError) io" where
  "fs_mkdir w p = syscall w (\<lambda>h. case locate (h_files h) (h_cwd h) False p of
      Inl e \<Rightarrow> (Inl e, h)
    | Inr l \<Rightarrow> if node_at (h_files h) l \<noteq> None then (Inl EEXIST, h)
        else (Inr (), h\<lparr>h_files := bt_insert l Directory (h_files h)\<rparr>))"

text \<open>\<^verbatim>\<open>std::fs::create_dir_all\<close>: the parents first, unless the directory is there.\<close>

definition mkdir_unless_dir :: "Outside \<Rightarrow> string \<Rightarrow> (unit, IoError) io" where
  "mkdir_unless_dir w p h = (case fs_mkdir w p h of
      (Inr u, h) \<Rightarrow> (Inr u, h)
    | (Inl e, h) \<Rightarrow> (case path_is_dir w p h of (d, h) \<Rightarrow> (if d then Inr () else Inl e, h)))"

function fs_create_dir_all :: "Outside \<Rightarrow> string \<Rightarrow> (unit, IoError) io" where
  "fs_create_dir_all w p h =
     (if components p = [] then (Inr (), h)
      else case fs_mkdir w p h of
          (Inr u, h) \<Rightarrow> (Inr u, h)
        | (Inl e, h) \<Rightarrow>
            if e \<noteq> ENOENT then (case path_is_dir w p h of (d, h) \<Rightarrow> (if d then Inr () else Inl e, h))
            else (case path_parent p of
                None \<Rightarrow> (Inl (OsError ''failed to create whole tree''), h)
              | Some q \<Rightarrow> (case fs_create_dir_all w q h of
                    (Inl e, h) \<Rightarrow> (Inl e, h)
                  | (Inr _, h) \<Rightarrow> mkdir_unless_dir w p h)))"
  by pat_completeness auto
termination by (relation "measure (\<lambda>(_, p, _). length p)") (auto simp: path_parent_shorter)

declare fs_create_dir_all.simps [simp del]

section \<open>Locations\<close>

definition names_ok :: "location \<Rightarrow> bool" where
  "names_ok l \<longleftrightarrow> (\<forall>s \<in> set l. name_ok s)"

text \<open>All directories on the way to a location are there, none of them through a link.\<close>

definition chain :: "fs \<Rightarrow> location \<Rightarrow> bool" where
  "chain fs l \<longleftrightarrow> (\<forall>k < length l. node_at fs (take k l) = Some Directory)"

lemma names_ok_simps [simp]:
  "names_ok []" "names_ok (l @ m) \<longleftrightarrow> names_ok l \<and> names_ok m" "names_ok (s # l) \<longleftrightarrow> name_ok s \<and> names_ok l"
  by (auto simp: names_ok_def)

lemma names_ok_butlast: "names_ok l \<Longrightarrow> names_ok (butlast l)"
  by (auto simp: names_ok_def dest: in_set_butlastD)

lemma chain_Nil [simp]: "chain fs []"
  by (simp add: chain_def)

lemma chain_snoc: "chain fs (l @ [s]) \<longleftrightarrow> chain fs l \<and> node_at fs l = Some Directory"
  by (auto simp: chain_def less_Suc_eq)

lemma chain_butlast: "chain fs l \<Longrightarrow> chain fs (butlast l)"
  by (cases l rule: rev_cases) (simp_all add: chain_snoc)

lemma chain_prefix: "chain fs l \<Longrightarrow> prefix m l \<Longrightarrow> chain fs m"
proof -
  assume c: "chain fs l" and p: "prefix m l"
  obtain r where r: "l = m @ r" using p by (auto simp: prefix_def)
  show "chain fs m" unfolding chain_def
  proof (intro allI impI)
    fix k assume "k < length m"
    with c r have "node_at fs (take k (m @ r)) = Some Directory" by (simp add: chain_def del: take_append)
    with \<open>k < length m\<close> show "node_at fs (take k m) = Some Directory" by simp
  qed
qed

lemma chain_strict: "chain fs l \<Longrightarrow> strict_prefix m l \<Longrightarrow> node_at fs m = Some Directory"
proof -
  assume c: "chain fs l" and p: "strict_prefix m l"
  obtain x r where r: "l = m @ x # r" using p by (rule strict_prefixE')
  then have "length m < length l" by simp
  with c have "node_at fs (take (length m) l) = Some Directory" by (simp add: chain_def)
  with r show ?thesis by simp
qed

lemma node_at_Nil [simp]: "node_at fs [] = Some Directory"
  by (simp add: node_at_def)

lemma node_at_insert: "l \<noteq> [] \<Longrightarrow> node_at (bt_insert l v fs) k = (if k = l then Some v else node_at fs k)"
  by (simp add: node_at_def)

lemma place_ok:
  "place fs follow n cur ss = Inr l \<Longrightarrow> names_ok cur \<Longrightarrow> \<forall>s \<in> set ss. CHR ''/'' \<notin> set s \<Longrightarrow> names_ok l"
proof (induction fs follow n cur ss rule: place.induct)
  case (2 fs follow n cur s ss)
  then have "\<forall>x \<in> set (segments target @ ss). CHR ''/'' \<notin> set x" for target
    by (auto dest: segments_no_slash)
  with 2 show ?case
    by (auto simp: names_ok_butlast name_ok_def split: if_splits option.splits Node.splits)
qed simp

lemma place_chain: "place fs follow n cur ss = Inr l \<Longrightarrow> chain fs cur \<Longrightarrow> chain fs l"
  by (induction fs follow n cur ss rule: place.induct)
    (auto simp: chain_snoc chain_butlast split: if_splits option.splits Node.splits)

lemma place_parent: "place fs follow n cur ss = Inr l \<Longrightarrow> node_at fs l = None \<Longrightarrow> node_at fs cur \<noteq> None \<Longrightarrow> l \<noteq> []"
  by (cases "l = []") simp_all

lemma place_follows:
  "place fs True n cur ss = Inr l \<Longrightarrow> (\<forall>t. node_at fs cur \<noteq> Some (Symlink t)) \<Longrightarrow> chain fs cur \<Longrightarrow>
     node_at fs l \<noteq> Some (Symlink t)"
proof (induction fs True n cur ss rule: place.induct)
  case (2 fs n cur s ss)
  have b: "node_at fs (butlast cur) \<noteq> Some (Symlink t)" for t
    using "2.prems"(3) by (cases cur rule: rev_cases) (simp_all add: chain_snoc)
  from 2 b show ?case
    by (auto simp: chain_snoc chain_butlast split: if_splits option.splits Node.splits)
qed simp

text \<open>The path of a location without links on the way leads there.\<close>

lemma place_direct:
  "chain fs (cur @ ss) \<Longrightarrow> names_ok ss \<Longrightarrow> \<not> follow \<or> (\<forall>t. node_at fs (cur @ ss) \<noteq> Some (Symlink t)) \<Longrightarrow>
     place fs follow n cur ss = Inr (cur @ ss)"
proof (induction ss arbitrary: cur)
  case (Cons s ss)
  have c: "node_at fs cur = Some Directory"
    using Cons.prems(1) by (rule chain_strict) (simp add: strict_prefix_def)
  have s: "s \<noteq> []" "s \<noteq> ''.''" "s \<noteq> ''..''" using Cons.prems(2) by (auto simp: name_ok_def)
  have i: "place fs follow n (cur @ [s]) ss = Inr (cur @ s # ss)"
    using Cons.IH [of "cur @ [s]"] Cons.prems by simp
  show ?case
  proof (cases "ss = []")
    case True
    with c s Cons.prems(3) show ?thesis by (auto split: option.split Node.split)
  next
    case False
    then have "node_at fs (cur @ [s]) = Some Directory"
      using Cons.prems(1) by (intro chain_strict [of fs "cur @ s # ss"]) (auto simp: strict_prefix_def)
    with c s i show ?thesis by simp
  qed
qed simp

lemma locate_direct:
  assumes "chain fs l" "names_ok l" "\<not> follow \<or> (\<forall>t. node_at fs l \<noteq> Some (Symlink t))" "int (length (path_of l)) < PATH_MAX"
  shows "locate fs cwd follow (path_of l) = Inr l"
proof -
  have "segments (path_of l) = (if l = [] then [[], []] else [] # l)"
    using assms(2) by (simp add: segments_path_of names_ok_def)
  moreover have "path_of l \<noteq> []" by (simp add: path_of_def)
  ultimately show ?thesis using place_direct [of fs "[]" l follow MAX_LINKS] assms
    by (auto simp: locate_def)
qed

lemma locate_short: "locate fs cwd follow p = Inr l \<Longrightarrow> int (length p) < PATH_MAX"
  by (auto simp: locate_def split: if_splits)

lemma locate_real:
  "locate fs cwd follow (path_of l) = Inr m \<Longrightarrow> chain fs l \<Longrightarrow> names_ok l \<Longrightarrow>
     \<not> follow \<or> (\<forall>t. node_at fs l \<noteq> Some (Symlink t)) \<Longrightarrow> m = l"
  using locate_direct [of fs l follow cwd] by (auto dest: locate_short)

lemma locate_ok: "locate fs cwd follow p = Inr l \<Longrightarrow> names_ok cwd \<Longrightarrow> names_ok l"
  unfolding locate_def using segments_no_slash
  by (auto split: if_splits elim!: place_ok)

text \<open>The working directory is a real one.\<close>

definition cwd_ok :: "fs \<Rightarrow> location \<Rightarrow> bool" where
  "cwd_ok fs cwd \<longleftrightarrow> chain fs cwd \<and> node_at fs cwd = Some Directory"

lemma locate_chain: "locate fs cwd follow p = Inr l \<Longrightarrow> is_absolute p \<or> cwd_ok fs cwd \<Longrightarrow> chain fs l"
  unfolding locate_def cwd_ok_def by (auto split: if_splits elim!: place_chain)

lemma locate_follows:
  "locate fs cwd True p = Inr l \<Longrightarrow> is_absolute p \<or> cwd_ok fs cwd \<Longrightarrow> node_at fs l \<noteq> Some (Symlink t)"
  unfolding locate_def cwd_ok_def by (auto split: if_splits dest!: place_follows)

lemma lookup_Inr: "lookup fs cwd follow p = Inr (l, v) \<longleftrightarrow> locate fs cwd follow p = Inr l \<and> node_at fs l = Some v"
  by (auto simp: lookup_def and_then_def split: sum.splits option.splits)

section \<open>Calls that only read\<close>

text \<open>The host as other processes leave it, while a call that changes nothing runs.\<close>

definition tick :: "Outside \<Rightarrow> Host \<Rightarrow> Host" where
  "tick w h = h\<lparr>h_files := o_meddle w (h_time h) (h_files h), h_time := Suc (h_time h)\<rparr>"

lemma tick_simps [simp]:
  "h_cwd (tick w h) = h_cwd h" "h_reads (tick w h) = h_reads h" "h_time (tick w h) = Suc (h_time h)"
  by (simp_all add: tick_def)

lemma query_tick: "query w q h = (case o_fault w (h_time h) of
    Some e \<Rightarrow> Inl e | None \<Rightarrow> q (h_files (tick w h)) (h_cwd h), tick w h)"
  by (simp add: query_def syscall_def tick_def Let_def split: option.split)

text \<open>Nothing else touches the files; and no call fails on its own.\<close>

definition still :: "Outside \<Rightarrow> bool" where
  "still w \<longleftrightarrow> (\<forall>n fs. o_meddle w n fs = fs)"

definition quiet :: "Outside \<Rightarrow> bool" where
  "quiet w \<longleftrightarrow> still w \<and> (\<forall>n. o_fault w n = None)"

lemma still_tick: "still w \<Longrightarrow> h_files (tick w h) = h_files h"
  by (simp add: still_def tick_def)

lemma quiet_still: "quiet w \<Longrightarrow> still w"
  by (simp add: quiet_def)

lemma quiet_query: "quiet w \<Longrightarrow> query w q h = (q (h_files h) (h_cwd h), tick w h)"
  by (simp add: query_tick still_tick quiet_def)

section \<open>Locations reached without links\<close>

definition clear :: "fs \<Rightarrow> location \<Rightarrow> bool" where
  "clear fs l \<longleftrightarrow> (\<forall>m t. prefix m l \<longrightarrow> node_at fs m \<noteq> Some (Symlink t))"

lemma clear_prefix: "clear fs l \<Longrightarrow> prefix m l \<Longrightarrow> clear fs m"
  by (auto simp: clear_def)

lemma place_plain:
  "place fs follow n cur ss = Inr l \<Longrightarrow> ''..'' \<notin> set ss \<Longrightarrow> clear fs (cur @ filter real_segment ss) \<Longrightarrow>
     l = cur @ filter real_segment ss"
proof (induction ss arbitrary: cur)
  case (Cons s ss)
  show ?case
  proof (cases "real_segment s")
    case True
    have "node_at fs (cur @ [s]) \<noteq> Some (Symlink t)" for t
      using Cons.prems(3) True by (simp add: clear_def)
    with Cons.prems True Cons.IH [of "cur @ [s]"] show ?thesis
      by (auto simp: real_segment_def split: if_splits option.splits Node.splits)
  next
    case False
    with Cons show ?thesis by (auto simp: real_segment_def split: if_splits)
  qed
qed simp

lemma locate_plain:
  assumes "locate fs cwd follow p = Inr l" "is_absolute p" "ParentDir \<notin> set (components p)"
    "clear fs (normals (components p))"
  shows "l = normals (components p)"
  using assms place_plain [of fs follow MAX_LINKS "[]" "segments p" l] absolute_components [OF assms(2,3)]
  by (simp add: locate_def split: if_splits)

lemma normals_path_of: "names_ok l \<Longrightarrow> normals (components (path_of l)) = l"
  by (simp add: components_path_of names_ok_def)

lemma locate_path_of:
  "locate fs cwd follow (path_of l) = Inr m \<Longrightarrow> names_ok l \<Longrightarrow> clear fs l \<Longrightarrow> m = l"
  using locate_plain [of fs cwd follow "path_of l" m] by (auto simp: components_path_of names_ok_def)

text \<open>Files and directories are in directories.\<close>

definition fs_wf :: "fs \<Rightarrow> bool" where
  "fs_wf fs \<longleftrightarrow> (\<forall>l s. node_at fs (l @ [s]) \<noteq> None \<longrightarrow> node_at fs l = Some Directory)"

lemma fs_wf_chain: "fs_wf fs \<Longrightarrow> node_at fs l \<noteq> None \<Longrightarrow> chain fs l"
  by (induction l rule: rev_induct) (auto simp: chain_snoc fs_wf_def)

text \<open>Directories were added on the way to a location, and nothing else changed.\<close>

definition grown :: "fs \<Rightarrow> fs \<Rightarrow> location \<Rightarrow> bool" where
  "grown fs fs' l \<longleftrightarrow> (\<forall>m. node_at fs' m = node_at fs m
     \<or> (node_at fs m = None \<and> node_at fs' m = Some Directory \<and> prefix m l))"

lemma grown_refl [simp]: "grown fs fs l"
  by (simp add: grown_def)

lemma grown_trans: "grown a b l \<Longrightarrow> grown b c l \<Longrightarrow> grown a c l"
  unfolding grown_def by (metis option.distinct(1))

lemma grown_longer: "grown a b l \<Longrightarrow> prefix l m \<Longrightarrow> grown a b m"
  unfolding grown_def by (metis prefix_order.trans)

lemma grown_clear: "grown a b m \<Longrightarrow> clear a l \<Longrightarrow> clear b l"
  unfolding grown_def clear_def by (metis Node.distinct(5) option.inject)

definition frame :: "Host \<Rightarrow> Host \<Rightarrow> bool" where
  "frame h h' \<longleftrightarrow> h_cwd h' = h_cwd h \<and> h_reads h' = h_reads h"

lemma frame_refl [simp]: "frame h h"
  by (simp add: frame_def)

lemma frame_trans: "frame a b \<Longrightarrow> frame b c \<Longrightarrow> frame a c"
  by (simp add: frame_def)

lemma fs_mkdir_grown:
  assumes "still w" "names_ok l" "clear (h_files h) l" "fs_mkdir w (path_of l) h = (r, h')"
  shows "frame h h' \<and> grown (h_files h) (h_files h') l"
proof -
  have "m = l" if "locate (h_files h) (h_cwd h) False (path_of l) = Inr m" for m
    using locate_path_of [OF that assms(2,3)] .
  moreover have "l \<noteq> []" if "node_at (h_files h) l = None" using that by auto
  ultimately show ?thesis using assms(1,4)
    by (auto simp: fs_mkdir_def syscall_def Let_def still_def frame_def grown_def node_at_insert split: option.splits sum.splits if_splits)
qed

end
