(* ===== verification/Paths.thy ===== *)
theory Paths
  imports File_System
begin

text \<open>
  \<^verbatim>\<open>policy/paths.rs\<close>: the containment of the tools in the workspace. A requested path is
  first checked by its components, then resolved by the file system, and the resolved path
  must still begin with the root. A path that does not exist yet is resolved from its nearest
  existing ancestor.
\<close>

section \<open>Fallible steps of the host\<close>

definition io_bind :: "('a, 'e) io \<Rightarrow> ('a \<Rightarrow> ('b, 'e) io) \<Rightarrow> ('b, 'e) io" where
  "io_bind m f h = (case m h of (Inl e, h) \<Rightarrow> (Inl e, h) | (Inr x, h) \<Rightarrow> f x h)"

definition io_map_err :: "('e \<Rightarrow> 'g) \<Rightarrow> ('a, 'e) io \<Rightarrow> ('a, 'g) io" where
  "io_map_err g m h = (case m h of (r, h) \<Rightarrow> (map_err g r, h))"

definition io_lift :: "('a, 'e) result \<Rightarrow> ('a, 'e) io" where
  "io_lift r h = (r, h)"

definition io_total :: "(Host \<Rightarrow> 'a \<times> Host) \<Rightarrow> ('a, 'e) io" where
  "io_total m h = (case m h of (x, h) \<Rightarrow> (Inr x, h))"

section \<open>The definitions\<close>

record PathRefusal =
  refusal_code :: ReasonCode
  refusal_detail :: string

definition outside :: "string \<Rightarrow> string \<Rightarrow> PathRefusal" where
  "outside requested reason = \<lparr>refusal_code = ReasonCode.PathOutsideWorkspace,
     refusal_detail = requested @ '': '' @ reason\<rparr>"

definition canonical_root :: "Outside \<Rightarrow> string \<Rightarrow> (string, PathRefusal) io" where
  "canonical_root w root = io_bind
     (io_map_err (\<lambda>e. \<lparr>refusal_code = ReasonCode.PathOutsideWorkspace,
         refusal_detail = ''cannot open workspace '' @ root @ '': '' @ IoError_display e\<rparr>) (fs_canonicalize w root))
     (\<lambda>canonical. io_bind (io_total (path_is_dir w canonical))
        (\<lambda>d. io_lift (if \<not> d then Inl (outside root ''workspace root is not a directory'') else Inr canonical)))"

definition lexical_candidate :: "string \<Rightarrow> string \<Rightarrow> (string, PathRefusal) result" where
  "lexical_candidate root requested =
     (if ParentDir \<in> set (components requested)
      then Inl (outside requested ''parent-directory components are forbidden'')
      else let candidate = (if is_absolute requested then requested else path_push root requested) in
        if \<not> path_starts_with candidate root then Inl (outside requested ''path is outside the workspace'')
        else Inr candidate)"

definition contained :: "string \<Rightarrow> string \<Rightarrow> string \<Rightarrow> string \<Rightarrow> (string, PathRefusal) result" where
  "contained root requested lexical canonical =
     (if path_starts_with canonical root then Inr canonical
      else Inl \<lparr>refusal_code = (if path_starts_with lexical root then ReasonCode.PathSymlinkEscape
          else ReasonCode.PathOutsideWorkspace),
        refusal_detail = requested @ '' resolves outside the workspace''\<rparr>)"

definition existing :: "Outside \<Rightarrow> string \<Rightarrow> string \<Rightarrow> (string, PathRefusal) io" where
  "existing w root requested = io_bind (io_lift (lexical_candidate root requested)) (\<lambda>candidate.
     io_bind (io_map_err (\<lambda>e. \<lparr>refusal_code = ReasonCode.PathOutsideWorkspace,
         refusal_detail = ''cannot resolve '' @ requested @ '': '' @ IoError_display e\<rparr>) (fs_canonicalize w candidate))
     (\<lambda>canonical. io_lift (contained root requested candidate canonical)))"

text \<open>The nearest existing ancestor, and the names below it from the last up.\<close>

function find_ancestor :: "Outside \<Rightarrow> string \<Rightarrow> string \<Rightarrow> string list \<Rightarrow> (string \<times> string list, PathRefusal) io" where
  "find_ancestor w requested ancestor missing h = (case path_exists w ancestor h of (ex, h) \<Rightarrow>
     if ex then (Inr (ancestor, missing), h)
     else case path_file_name ancestor of
         None \<Rightarrow> (Inl (outside requested ''path has no existing ancestor''), h)
       | Some name \<Rightarrow> (case path_parent ancestor of
             None \<Rightarrow> (Inl (outside requested ''path has no existing parent''), h)
           | Some parent \<Rightarrow> find_ancestor w requested parent (missing @ [name]) h))"
  by pat_completeness auto
termination by (relation "measure (\<lambda>(_, _, p, _). length p)") (auto simp: path_parent_shorter)

declare find_ancestor.simps [simp del]

definition for_write :: "Outside \<Rightarrow> string \<Rightarrow> string \<Rightarrow> (string, PathRefusal) io" where
  "for_write w root requested = io_bind (io_lift (lexical_candidate root requested)) (\<lambda>candidate.
     io_bind (io_total (path_exists w candidate)) (\<lambda>ex.
       if ex then existing w root requested
       else io_bind (find_ancestor w requested candidate []) (\<lambda>(ancestor, missing).
         io_bind (io_map_err (\<lambda>e. \<lparr>refusal_code = ReasonCode.PathOutsideWorkspace,
             refusal_detail = ''cannot resolve parent of '' @ requested @ '': '' @ IoError_display e\<rparr>)
             (fs_canonicalize w ancestor)) (\<lambda>canonical_ancestor.
           io_lift (if \<not> path_starts_with canonical_ancestor root
             then Inl \<lparr>refusal_code = ReasonCode.PathSymlinkEscape,
               refusal_detail = requested @ '' resolves through a symlink outside the workspace''\<rparr>
             else Inr (fold (\<lambda>c p. path_push p c) (rev missing) canonical_ancestor))))))"

section \<open>Steps that change nothing\<close>

text \<open>The host after some steps during which only other processes acted.\<close>

definition ticks :: "Outside \<Rightarrow> Host \<Rightarrow> Host \<Rightarrow> bool" where
  "ticks w h h' \<longleftrightarrow> (\<exists>k. h' = (tick w ^^ k) h)"

lemma ticks_refl [simp]: "ticks w h h"
  unfolding ticks_def by (rule exI [of _ 0]) simp

lemma ticks_tick [simp]: "ticks w h (tick w h)"
  unfolding ticks_def by (rule exI [of _ 1]) simp

lemma ticks_trans: "ticks w g h \<Longrightarrow> ticks w h k \<Longrightarrow> ticks w g k"
  unfolding ticks_def by (metis comp_apply funpow_add)

lemma ticks_same: "ticks w h h' \<Longrightarrow> h_cwd h' = h_cwd h \<and> h_reads h' = h_reads h"
proof -
  have "h_cwd ((tick w ^^ k) h) = h_cwd h \<and> h_reads ((tick w ^^ k) h) = h_reads h" for k
    by (induction k) simp_all
  then show "ticks w h h' \<Longrightarrow> ?thesis" by (auto simp: ticks_def)
qed

lemma ticks_still: "still w \<Longrightarrow> ticks w h h' \<Longrightarrow> h_files h' = h_files h"
proof -
  assume s: "still w"
  have "h_files ((tick w ^^ k) h) = h_files h" for k
    by (induction k) (simp_all add: still_tick [OF s])
  then show "ticks w h h' \<Longrightarrow> ?thesis" by (auto simp: ticks_def)
qed

lemma query_ticks: "query w q h = (r, h') \<Longrightarrow> ticks w h h'"
  by (auto simp: query_tick)

lemma path_exists_ticks: "path_exists w p h = (b, h') \<Longrightarrow> ticks w h h'"
  by (auto simp: path_exists_def fs_metadata_def dest: query_ticks split: prod.splits)

lemma path_is_dir_ticks: "path_is_dir w p h = (b, h') \<Longrightarrow> ticks w h h'"
  by (auto simp: path_is_dir_def fs_metadata_def dest: query_ticks split: prod.splits)

lemma io_bind_Inr: "io_bind m f h = (Inr y, h2) \<longleftrightarrow> (\<exists>x h1. m h = (Inr x, h1) \<and> f x h1 = (Inr y, h2))"
  by (auto simp: io_bind_def split: prod.splits sum.splits)

lemma io_bind_Inl: "io_bind m f h = (Inl e, h2) \<longleftrightarrow>
    m h = (Inl e, h2) \<or> (\<exists>x h1. m h = (Inr x, h1) \<and> f x h1 = (Inl e, h2))"
  by (auto simp: io_bind_def split: prod.splits sum.splits)

lemma io_map_err_Inr: "io_map_err g m h = (Inr y, h2) \<longleftrightarrow> m h = (Inr y, h2)"
  by (auto simp: io_map_err_def map_err_def split: prod.splits sum.splits)

lemma io_map_err_Inl: "io_map_err g m h = (Inl e, h2) \<longleftrightarrow> (\<exists>e'. m h = (Inl e', h2) \<and> e = g e')"
  by (auto simp: io_map_err_def map_err_def split: prod.splits sum.splits)

lemma io_lift_eq: "io_lift r h = (x, h2) \<longleftrightarrow> r = x \<and> h2 = h"
  by (auto simp: io_lift_def)

lemma io_total_Inr: "io_total m h = (Inr y, h2) \<longleftrightarrow> m h = (y, h2)"
  by (auto simp: io_total_def split: prod.splits)

lemma io_total_not_Inl [simp]: "io_total m h \<noteq> (Inl e, h2)"
  by (simp add: io_total_def split: prod.splits)

lemmas io_Inr = io_bind_Inr io_map_err_Inr io_lift_eq io_total_Inr

definition only_looks :: "Outside \<Rightarrow> ('a, 'e) io \<Rightarrow> bool" where
  "only_looks w m \<longleftrightarrow> (\<forall>h. ticks w h (snd (m h)))"

lemma looksD: "only_looks w m \<Longrightarrow> m h = (r, h') \<Longrightarrow> ticks w h h'"
  unfolding only_looks_def by (metis snd_conv)

lemma looks_bind [intro]: "only_looks w m \<Longrightarrow> (\<And>x. only_looks w (f x)) \<Longrightarrow> only_looks w (io_bind m f)"
  unfolding only_looks_def io_bind_def
  by (auto split: prod.splits sum.splits) (metis snd_conv ticks_trans)+

lemma looks_map_err [intro]: "only_looks w m \<Longrightarrow> only_looks w (io_map_err g m)"
  by (auto simp: only_looks_def io_map_err_def split: prod.splits) (metis snd_conv)

lemma looks_lift [simp, intro]: "only_looks w (io_lift r)"
  by (simp add: only_looks_def io_lift_def)

lemma looks_total: "(\<And>h x h'. m h = (x, h') \<Longrightarrow> ticks w h h') \<Longrightarrow> only_looks w (io_total m)"
  by (auto simp: only_looks_def io_total_def split: prod.splits)

lemma looks_query [simp, intro]: "only_looks w (query w q)"
  by (simp add: only_looks_def query_tick)

lemma looks_canonicalize [simp, intro]: "only_looks w (fs_canonicalize w p)"
  by (simp add: fs_canonicalize_def)

lemma looks_exists [simp, intro]: "only_looks w (io_total (path_exists w p))"
  by (rule looks_total) (rule path_exists_ticks)

lemma looks_is_dir [simp, intro]: "only_looks w (io_total (path_is_dir w p))"
  by (rule looks_total) (rule path_is_dir_ticks)

lemma looks_if [intro]: "(b \<Longrightarrow> only_looks w m) \<Longrightarrow> (\<not> b \<Longrightarrow> only_looks w k) \<Longrightarrow> only_looks w (if b then m else k)"
  by simp

lemma looks_prod [intro]: "(\<And>a b. only_looks w (f a b)) \<Longrightarrow> only_looks w (case x of (a, b) \<Rightarrow> f a b)"
  by (cases x) simp

lemma looks_existing [simp, intro]: "only_looks w (existing w root requested)"
  unfolding existing_def by (intro looks_bind looks_map_err) auto

lemma find_ancestor_ticks: "find_ancestor w requested p missing h = (r, h') \<Longrightarrow> ticks w h h'"
proof (induction w requested p missing h rule: find_ancestor.induct)
  case (1 w requested p missing h)
  obtain ex k where e: "path_exists w p h = (ex, k)" by force
  note t = path_exists_ticks [OF e]
  show ?case
  proof (cases "\<exists>name parent. \<not> ex \<and> path_file_name p = Some name \<and> path_parent p = Some parent")
    case True
    then obtain name parent where n: "\<not> ex" "path_file_name p = Some name" "path_parent p = Some parent" by blast
    with "1.prems" e have "find_ancestor w requested parent (missing @ [name]) k = (r, h')"
      by (simp add: find_ancestor.simps [of w requested p])
    from ticks_trans [OF t "1.IH" [OF e [symmetric] n this]] show ?thesis .
  next
    case False
    with "1.prems" e t show ?thesis
      by (auto simp: find_ancestor.simps [of w requested p] split: if_splits option.splits)
  qed
qed

lemma looks_find [simp, intro]: "only_looks w (find_ancestor w requested p missing)"
  unfolding only_looks_def using find_ancestor_ticks prod.collapse by metis

lemma looks_for_write [simp, intro]: "only_looks w (for_write w root requested)"
  unfolding for_write_def by (intro looks_bind looks_if looks_prod looks_map_err) auto

lemma looks_canonical_root [simp, intro]: "only_looks w (canonical_root w root)"
  unfolding canonical_root_def by (intro looks_bind looks_map_err) auto

section \<open>What is resolved stays in the workspace\<close>

definition inside_workspace :: "string \<Rightarrow> string \<Rightarrow> bool" where
  "inside_workspace root p \<longleftrightarrow> path_starts_with p root \<and> ParentDir \<notin> set (components p)"

lemma canonicalize_Inr:
  "fs_canonicalize w p h = (Inr c, h') \<longleftrightarrow>
     h' = tick w h \<and> o_fault w (h_time h) = None
     \<and> (\<exists>l v. c = path_of l \<and> locate (h_files h') (h_cwd h) True p = Inr l \<and> node_at (h_files h') l = Some v)"
proof -
  have "map_ok (\<lambda>(l, _). path_of l) (lookup fs cwd True p) = Inr c \<longleftrightarrow> (\<exists>l v. c = path_of l \<and> lookup fs cwd True p = Inr (l, v))" for fs cwd
    by (auto simp: map_ok_def split: sum.splits)
  then show ?thesis by (auto simp: fs_canonicalize_def query_tick lookup_Inr split: option.splits)
qed

lemma components_names: "names_ok l \<Longrightarrow> ParentDir \<notin> set (components (path_of l))"
  by (auto simp: components_path_of names_ok_def)

lemma existing_contained:
  assumes "names_ok (h_cwd h)" "existing w root requested h = (Inr p, h')"
  shows "inside_workspace root p \<and> (\<exists>l. p = path_of l \<and> names_ok l)"
proof -
  obtain candidate k where "fs_canonicalize w candidate h = (Inr p, k)" "path_starts_with p root"
    using assms(2) by (auto simp: existing_def io_Inr contained_def split: if_splits)
  moreover from this obtain l where "p = path_of l" "names_ok l"
    using assms(1) by (auto simp: canonicalize_Inr dest: locate_ok)
  ultimately show ?thesis by (auto simp: inside_workspace_def components_names)
qed

lemma find_ancestor_names:
  "find_ancestor w requested p missing h = (Inr (a, m), h') \<Longrightarrow> names_ok missing \<Longrightarrow> names_ok m"
proof (induction w requested p missing h rule: find_ancestor.induct)
  case (1 w requested p missing h)
  obtain ex k where e: "path_exists w p h = (ex, k)" by force
  show ?case
  proof (cases "\<exists>name parent. \<not> ex \<and> path_file_name p = Some name \<and> path_parent p = Some parent")
    case True
    then obtain name parent where n: "\<not> ex" "path_file_name p = Some name" "path_parent p = Some parent" by blast
    with "1.prems" e have "find_ancestor w requested parent (missing @ [name]) k = (Inr (a, m), h')"
      by (simp add: find_ancestor.simps [of w requested p])
    from "1.IH" [OF e [symmetric] n this] "1.prems"(2) path_file_name_ok [OF n(2)] show ?thesis by simp
  next
    case False
    with "1.prems" e show ?thesis
      by (auto simp: find_ancestor.simps [of w requested p] split: if_splits option.splits)
  qed
qed

lemma push_names: "names_ok l \<Longrightarrow> names_ok m \<Longrightarrow> fold (\<lambda>c p. path_push p c) m (path_of l) = path_of (l @ m)"
proof (induction m arbitrary: l)
  case (Cons c m)
  then have "path_push (path_of l) c = path_of (l @ [c])"
    by (intro path_push_name) (auto simp: names_ok_def)
  with Cons show ?case by simp
qed simp

lemma starts_with_longer:
  assumes "names_ok l" "names_ok m" "path_starts_with (path_of l) root"
  shows "path_starts_with (path_of (l @ m)) root"
proof -
  have "components (path_of (l @ m)) = components (path_of l) @ map Normal m"
    using assms components_path_of [of l] components_path_of [of "l @ m"] by (simp add: names_ok_def ball_Un)
  with assms(3) show ?thesis by (simp add: path_starts_with_def)
qed

lemma for_write_contained:
  assumes "names_ok (h_cwd h)" "for_write w root requested h = (Inr p, h')"
  shows "inside_workspace root p \<and> (\<exists>l. p = path_of l \<and> names_ok l)"
proof -
  obtain candidate where c: "lexical_candidate root requested = Inr candidate"
    and f: "io_bind (io_total (path_exists w candidate)) (\<lambda>ex.
       if ex then existing w root requested
       else io_bind (find_ancestor w requested candidate []) (\<lambda>(ancestor, missing).
         io_bind (io_map_err (\<lambda>e. \<lparr>refusal_code = ReasonCode.PathOutsideWorkspace,
             refusal_detail = ''cannot resolve parent of '' @ requested @ '': '' @ IoError_display e\<rparr>)
             (fs_canonicalize w ancestor)) (\<lambda>canonical_ancestor.
           io_lift (if \<not> path_starts_with canonical_ancestor root
             then Inl \<lparr>refusal_code = ReasonCode.PathSymlinkEscape,
               refusal_detail = requested @ '' resolves through a symlink outside the workspace''\<rparr>
             else Inr (fold (\<lambda>c p. path_push p c) (rev missing) canonical_ancestor))))) h = (Inr p, h')"
    using assms(2) by (auto simp: for_write_def io_bind_Inr io_lift_eq)
  obtain ex k where e: "path_exists w candidate h = (ex, k)" by (metis prod.collapse)
  have cwd: "h_cwd k = h_cwd h" using ticks_same [OF path_exists_ticks [OF e]] by simp
  show ?thesis
  proof (cases ex)
    case True
    with f e have "existing w root requested k = (Inr p, h')" by (simp add: io_bind_def io_total_def)
    then show ?thesis using existing_contained assms(1) cwd by metis
  next
    case False
    with f e obtain a m k2 c2 k3 where
      fa: "find_ancestor w requested candidate [] k = (Inr (a, m), k2)"
      and can: "fs_canonicalize w a k2 = (Inr c2, k3)"
      and r: "path_starts_with c2 root" "p = fold (\<lambda>c p. path_push p c) (rev m) c2"
      by (auto simp: io_Inr split: if_splits)
    have "names_ok m" using find_ancestor_names [OF fa] by simp
    then have m: "names_ok (rev m)" by (simp add: names_ok_def)
    have "h_cwd k2 = h_cwd h" using ticks_same [OF find_ancestor_ticks [OF fa]] cwd by simp
    with can assms(1) obtain l where l: "c2 = path_of l" "names_ok l"
      by (auto simp: canonicalize_Inr dest: locate_ok)
    with m r have p: "p = path_of (l @ rev m)" by (simp add: push_names)
    moreover have "names_ok (l @ rev m)" using l m by simp
    moreover have "path_starts_with p root" using starts_with_longer [of l "rev m" root] l m r p by simp
    ultimately show ?thesis using components_names [of "l @ rev m"] unfolding inside_workspace_def by metis
  qed
qed

end
