(* ===== verification/Builtin_Files.thy ===== *)
theory Builtin_Files
  imports Paths Message
begin

text \<open>
  The built-in file tools: \<^verbatim>\<open>tools/arguments.rs\<close>, \<^verbatim>\<open>tools/files.rs\<close>, \<^verbatim>\<open>tools/read.rs\<close>,
  \<^verbatim>\<open>tools/write.rs\<close>, \<^verbatim>\<open>tools/edit.rs\<close> and \<^verbatim>\<open>tools/finish.rs\<close>. The body of a tool is a run of
  fallible host steps whose failure is its early return, an answer to the model or an error
  of the tool.
\<close>

section \<open>Arguments\<close>

definition json_as_bool :: "Json \<Rightarrow> bool option" where
  "json_as_bool v = (case v of JBool b \<Rightarrow> Some b | _ \<Rightarrow> None)"

definition required_string :: "Json \<Rightarrow> string \<Rightarrow> (string, ToolError) result" where
  "required_string args key =
     ok_or (ToolError.SchemaInvalid (''missing string argument `'' @ key @ ''`''))
       (Option.bind (json_get key args) json_as_str)"

definition optional_u64 :: "Json \<Rightarrow> string \<Rightarrow> u64 \<Rightarrow> u64" where
  "optional_u64 args key fallback =
     case_option fallback id (Option.bind (json_get key args) json_as_u64)"

definition optional_bool :: "Json \<Rightarrow> string \<Rightarrow> bool \<Rightarrow> bool" where
  "optional_bool args key fallback =
     case_option fallback id (Option.bind (json_get key args) json_as_bool)"

fun collect_strings :: "string \<Rightarrow> Json list \<Rightarrow> (string list, ToolError) result" where
  "collect_strings key [] = Inr []"
| "collect_strings key (v # vs) =
     and_then (ok_or (ToolError.SchemaInvalid (''`'' @ key @ ''` must contain only strings'')) (json_as_str v))
       (\<lambda>s. map_ok ((#) s) (collect_strings key vs))"

definition string_array :: "Json \<Rightarrow> string \<Rightarrow> (string list, ToolError) result" where
  "string_array args key =
     and_then (ok_or (ToolError.SchemaInvalid (''missing array argument `'' @ key @ ''`''))
         (Option.bind (json_get key args) json_as_array))
       (collect_strings key)"

section \<open>Files\<close>

definition MAX_FILE_BYTES :: int where
  "MAX_FILE_BYTES = 8 * 1024 * 1024"

definition between :: "nat \<Rightarrow> nat \<Rightarrow> char \<Rightarrow> bool" where
  "between lo hi c \<longleftrightarrow> lo \<le> (of_char c :: nat) \<and> (of_char c :: nat) \<le> hi"

text \<open>\<^verbatim>\<open>String::from_utf8\<close> succeeds: the well-formed byte sequences of Unicode, table 3-7.\<close>

function valid_utf8 :: "string \<Rightarrow> bool" where
  "valid_utf8 [] = True"
| "valid_utf8 (c # cs) =
     (if between 0 0x7F c then valid_utf8 cs
      else if between 0xC2 0xDF c then (case cs of x # r \<Rightarrow> is_cont x \<and> valid_utf8 r | _ \<Rightarrow> False)
      else if between 0xE0 0xEF c then (case cs of
          x # y # r \<Rightarrow> between (if between 0xE0 0xE0 c then 0xA0 else 0x80) (if between 0xED 0xED c then 0x9F else 0xBF) x
            \<and> is_cont y \<and> valid_utf8 r
        | _ \<Rightarrow> False)
      else if between 0xF0 0xF4 c then (case cs of
          x # y # z # r \<Rightarrow> between (if between 0xF0 0xF0 c then 0x90 else 0x80) (if between 0xF4 0xF4 c then 0x8F else 0xBF) x
            \<and> is_cont y \<and> is_cont z \<and> valid_utf8 r
        | _ \<Rightarrow> False)
      else False)"
  by pat_completeness auto
termination by (relation "measure length") auto

definition hex_digit :: "nat \<Rightarrow> char" where
  "hex_digit n = ''0123456789abcdef'' ! n"

definition file_hash :: "Outside \<Rightarrow> string \<Rightarrow> string" where
  "file_hash w bytes = concat (map (\<lambda>c. let n = of_char c in [hex_digit (n div 16), hex_digit (n mod 16)])
     (o_sha256 w bytes))"

definition read_text :: "Outside \<Rightarrow> string \<Rightarrow> (string \<times> string, ToolResult) io" where
  "read_text w path = io_bind
     (io_map_err (\<lambda>e. ToolResult_failed ReasonCode.ToolExecution
        (''cannot inspect '' @ path @ '': '' @ IoError_display e)) (fs_metadata w path))
     (\<lambda>metadata. if MAX_FILE_BYTES < int (node_len w metadata)
       then io_lift (Inl (ToolResult_failed ReasonCode.OutputTruncated (path @ '' exceeds the 8 MiB file limit'')))
       else io_bind (io_map_err (\<lambda>e. ToolResult_failed ReasonCode.ToolExecution
           (''cannot read '' @ path @ '': '' @ IoError_display e)) (fs_read w path))
         (\<lambda>bytes. io_lift
           (if CHR 0x00 \<in> set bytes
            then Inl (ToolResult_failed ReasonCode.ToolExecution (path @ '' is binary; text tools refuse it''))
            else if \<not> valid_utf8 bytes
            then Inl (ToolResult_failed ReasonCode.ToolExecution (path @ '' is not valid UTF-8''))
            else Inr (bytes, file_hash w bytes))))"

definition files_refusal :: "PathRefusal \<Rightarrow> ToolResult" where
  "files_refusal r = ToolResult_refused (refusal_code r) (refusal_detail r)"

definition preview_path_error :: "PathRefusal \<Rightarrow> ToolError" where
  "preview_path_error r = ToolError.Refused (refusal_code r) (refusal_detail r)"

definition preview_result_error :: "ToolResult \<Rightarrow> ToolError" where
  "preview_result_error result = (case result_outcome result of
      ToolOutcome.Refused code \<Rightarrow> ToolError.Refused code (result_content result)
    | ToolOutcome.Failed code \<Rightarrow> ToolError.Failed code (result_content result)
    | ToolOutcome.Ok \<Rightarrow> ToolError.Execution ''preflight unexpectedly received a successful result'')"

text \<open>A path below the root is shown relative to it; both are normal wherever it is called.\<close>

definition component_text :: "Component \<Rightarrow> string" where
  "component_text c = (case c of RootDir \<Rightarrow> ''/'' | CurDir \<Rightarrow> ''.'' | ParentDir \<Rightarrow> ''..'' | Normal s \<Rightarrow> s)"

definition display_path :: "string \<Rightarrow> string \<Rightarrow> string" where
  "display_path root path = (if path_starts_with path root
     then join_with ''/'' (map component_text (drop (length (components root)) (components path))) else path)"

definition requested_path :: "Json \<Rightarrow> (string, ToolError) result" where
  "requested_path args = required_string args ''path''"

definition observed_version :: "string \<Rightarrow> (string option, ToolResult) io" where
  "observed_version path h = (map_err (\<lambda>e. ToolResult_failed ReasonCode.ToolExecution (ToolError_display e))
     (ReadSet_version path (h_reads h)), h)"

definition check_version :: "string \<Rightarrow> string \<Rightarrow> string option \<Rightarrow> (unit, ToolResult) result" where
  "check_version path current observed = (case observed of
      None \<Rightarrow> Inl (ToolResult_refused ReasonCode.FileNotObserved (path @ '' must be read before it can be changed''))
    | Some seen \<Rightarrow> if seen \<noteq> current
        then Inl (ToolResult_refused ReasonCode.StaleFileVersion (path @ '' changed after it was read; read it again''))
        else Inr ())"

definition observed_text :: "Outside \<Rightarrow> string \<Rightarrow> (string \<times> string, ToolResult) io" where
  "observed_text w path = io_bind (read_text w path) (\<lambda>(text, current).
     io_bind (observed_version path) (\<lambda>observed.
     io_bind (io_lift (check_version path current observed)) (\<lambda>_. io_lift (Inr (text, current)))))"

definition review_diff :: "Outside \<Rightarrow> string \<Rightarrow> string \<Rightarrow> string \<Rightarrow> string" where
  "review_diff w path old new = o_diff w (''a/'' @ path) (''b/'' @ path) old new"

section \<open>Bodies of tools\<close>

record ToolContext =
  workspace_root :: string
  max_output_bytes :: nat
  command_timeout :: u64

type_synonym 'a body = "('a, (ToolResult, ToolError) result) io"

definition answer :: "ToolResult body \<Rightarrow> (ToolResult, ToolError) io" where
  "answer m h = (case m h of (Inl early, h) \<Rightarrow> (early, h) | (Inr result, h) \<Rightarrow> (Inr result, h))"

definition or_error :: "('e \<Rightarrow> ToolError) \<Rightarrow> ('a, 'e) io \<Rightarrow> 'a body" where
  "or_error f = io_map_err (\<lambda>e. Inl (f e))"

definition or_answer :: "('e \<Rightarrow> ToolResult) \<Rightarrow> ('a, 'e) io \<Rightarrow> 'a body" where
  "or_answer f = io_map_err (\<lambda>e. Inr (f e))"

definition unless_cancelled :: "Outside \<Rightarrow> unit body" where
  "unless_cancelled w h = (if o_cancel w (h_time h) then Inl (Inl ToolError.Cancelled) else Inr (), h)"

definition observe :: "string \<Rightarrow> string \<Rightarrow> (unit, ToolError) io" where
  "observe path sha256 h = (case ReadSet_observe path sha256 (h_reads h) of
      Inl e \<Rightarrow> (Inl e, h) | Inr rs \<Rightarrow> (Inr (), h\<lparr>h_reads := rs\<rparr>))"

definition touched :: "string \<Rightarrow> bool \<Rightarrow> ToolEffect \<Rightarrow> ToolResult" where
  "touched content t e = \<lparr>result_outcome = ToolOutcome.Ok, result_content = content, truncated = t,
     effect = e, evidence_event_id = None\<rparr>"

section \<open>Reading a file\<close>

definition read_preview :: "Json \<Rightarrow> (string, ToolError) result" where
  "read_preview args = map_ok (\<lambda>p. ''read '' @ p) (requested_path args)"

definition numbered :: "nat \<times> string \<Rightarrow> string" where
  "numbered x = (case x of (index, line) \<Rightarrow> (let n = show_nat (index + 1) in
     replicate (6 - length n) CHR 0x20 @ n @ ''  '' @ line))"

definition read_range :: "string \<Rightarrow> u64 \<Rightarrow> u64 \<Rightarrow> string" where
  "read_range text start count = join_with [CHR 0x0A]
     (map numbered (take (unat count) (drop (unat (sat_sub start 1)) (List.enumerate 0 (str_lines text)))))"

definition read_body :: "Outside \<Rightarrow> string \<Rightarrow> nat \<Rightarrow> string \<Rightarrow> u64 \<Rightarrow> u64 \<Rightarrow> ToolResult body" where
  "read_body w root max_output requested start count = io_bind (unless_cancelled w) (\<lambda>_.
     io_bind (or_answer files_refusal (existing w root requested)) (\<lambda>path.
     io_bind (or_answer id (read_text w path)) (\<lambda>(text, sha256).
     let (excerpt, t) = truncate_output (read_range text start count) max_output in
     io_bind (or_error id (observe path sha256)) (\<lambda>_.
     io_lift (Inr (touched excerpt t (ToolEffect.Read (display_path root path) sha256)))))))"

definition read_file :: "Outside \<Rightarrow> ToolContext \<Rightarrow> Json \<Rightarrow> (ToolResult, ToolError) io" where
  "read_file w ctx args = io_bind (io_lift (requested_path args)) (\<lambda>requested.
     answer (read_body w (workspace_root ctx) (max_output_bytes ctx) requested
       (optional_u64 args ''start_line'' 1) (optional_u64 args ''line_count'' 200)))"

section \<open>Writing a file\<close>

definition written :: "string \<Rightarrow> string \<Rightarrow> string \<Rightarrow> string \<Rightarrow> ToolResult" where
  "written verb root path sha256 = touched (verb @ '' '' @ display_path root path @ '' (sha256 '' @ sha256 @ '')'')
     False (ToolEffect.Mutation (display_path root path) sha256)"

definition write_preview :: "Outside \<Rightarrow> ToolContext \<Rightarrow> Json \<Rightarrow> (string, ToolError) io" where
  "write_preview w ctx args = io_bind (io_lift (requested_path args)) (\<lambda>requested.
     io_bind (io_lift (required_string args ''content'')) (\<lambda>new_text.
     let root = workspace_root ctx in
     io_bind (io_map_err preview_path_error (for_write w root requested)) (\<lambda>path.
     io_bind (io_total (path_exists w path)) (\<lambda>ex.
     io_bind (if ex then io_map_err preview_result_error (observed_text w path) else io_lift (Inr ([], [])))
       (\<lambda>(old, _). io_lift (Inr (fst (truncate_output
          (review_diff w (display_path root path) old new_text) (max_output_bytes ctx)))))))))"

definition write_body :: "Outside \<Rightarrow> string \<Rightarrow> string \<Rightarrow> string \<Rightarrow> ToolResult body" where
  "write_body w root requested new_text =
     io_bind (or_answer files_refusal (for_write w root requested)) (\<lambda>path.
     io_bind (io_total (path_exists w path)) (\<lambda>ex.
     io_bind (if ex then or_answer id (observed_text w path) else io_lift (Inr ([], []))) (\<lambda>_.
     io_bind (unless_cancelled w) (\<lambda>_.
     io_bind (io_lift (case path_parent path of
         None \<Rightarrow> Inl (Inr (ToolResult_failed ReasonCode.PathOutsideWorkspace ''write target has no parent''))
       | Some parent \<Rightarrow> Inr parent)) (\<lambda>parent.
     io_bind (or_error (\<lambda>e. ToolError.Execution (''cannot create '' @ parent @ '': '' @ IoError_display e))
       (fs_create_dir_all w parent)) (\<lambda>_.
     io_bind (or_answer files_refusal (for_write w root requested)) (\<lambda>path.
     io_bind (unless_cancelled w) (\<lambda>_.
     io_bind (or_error (\<lambda>e. ToolError.Execution (''cannot write '' @ path @ '': '' @ IoError_display e))
       (fs_write w path new_text)) (\<lambda>_.
     io_bind (or_error id (observe path (file_hash w new_text))) (\<lambda>_.
     io_lift (Inr (written ''wrote'' root path (file_hash w new_text)))))))))))))"

definition write_file :: "Outside \<Rightarrow> ToolContext \<Rightarrow> Json \<Rightarrow> (ToolResult, ToolError) io" where
  "write_file w ctx args = io_bind (io_lift (requested_path args)) (\<lambda>requested.
     io_bind (io_lift (required_string args ''content'')) (\<lambda>new_text.
     answer (write_body w (workspace_root ctx) requested new_text)))"

section \<open>Editing a file\<close>

text \<open>
  \<^verbatim>\<open>str::match_indices\<close> counts matches that do not overlap; the empty pattern matches at
  every character boundary.
\<close>

function match_count :: "string \<Rightarrow> string \<Rightarrow> nat" where
  "match_count old s =
     (if old = [] then Suc (char_count s)
      else if s = [] then 0
      else if starts_with s old then Suc (match_count old (drop (length old) s))
      else match_count old (tl s))"
  by pat_completeness auto
termination by (relation "measure (\<lambda>(_, s). length s)") auto

declare match_count.simps [simp del]

fun replace_first :: "string \<Rightarrow> string \<Rightarrow> string \<Rightarrow> string" where
  "replace_first old new s =
     (if starts_with s old then new @ drop (length old) s
      else case s of [] \<Rightarrow> [] | c # cs \<Rightarrow> c # replace_first old new cs)"

declare replace_first.simps [simp del]

definition exact_replacement :: "string \<Rightarrow> string \<Rightarrow> string \<Rightarrow> (string, ToolResult) result" where
  "exact_replacement current old new = (let matches = match_count old current in
     if matches \<noteq> 1 then Inl (ToolResult_refused ReasonCode.StaleFileVersion
       (''exact edit expected one match, found '' @ show_nat matches))
     else Inr (replace_first old new current))"

definition edit_preview :: "Outside \<Rightarrow> ToolContext \<Rightarrow> Json \<Rightarrow> (string, ToolError) io" where
  "edit_preview w ctx args = io_bind (io_lift (requested_path args)) (\<lambda>requested.
     io_bind (io_lift (required_string args ''old'')) (\<lambda>old.
     io_bind (io_lift (required_string args ''new'')) (\<lambda>new.
     let root = workspace_root ctx in
     io_bind (io_map_err preview_path_error (existing w root requested)) (\<lambda>path.
     io_bind (io_map_err preview_result_error (observed_text w path)) (\<lambda>(current, _).
     io_bind (io_map_err preview_result_error (io_lift (exact_replacement current old new))) (\<lambda>replacement.
     io_lift (Inr (fst (truncate_output (review_diff w (display_path root path) current replacement)
       (max_output_bytes ctx))))))))))"

definition edit_body :: "Outside \<Rightarrow> string \<Rightarrow> string \<Rightarrow> string \<Rightarrow> string \<Rightarrow> ToolResult body" where
  "edit_body w root requested old new =
     io_bind (or_answer files_refusal (existing w root requested)) (\<lambda>path.
     io_bind (or_answer id (observed_text w path)) (\<lambda>(current, _).
     io_bind (or_answer id (io_lift (exact_replacement current old new))) (\<lambda>replacement.
     io_bind (unless_cancelled w) (\<lambda>_.
     io_bind (or_answer files_refusal (existing w root requested)) (\<lambda>immediate.
     io_bind (io_lift (if immediate \<noteq> path
       then Inl (Inr (ToolResult_refused ReasonCode.StaleFileVersion ''the edit target moved after it was reviewed''))
       else Inr ())) (\<lambda>_.
     io_bind (or_error (\<lambda>e. ToolError.Execution (''cannot edit '' @ path @ '': '' @ IoError_display e))
       (fs_write w path replacement)) (\<lambda>_.
     io_bind (or_error id (observe path (file_hash w replacement))) (\<lambda>_.
     io_lift (Inr (written ''edited'' root path (file_hash w replacement)))))))))))"

definition edit_file :: "Outside \<Rightarrow> ToolContext \<Rightarrow> Json \<Rightarrow> (ToolResult, ToolError) io" where
  "edit_file w ctx args = io_bind (io_lift (requested_path args)) (\<lambda>requested.
     io_bind (io_lift (required_string args ''old'')) (\<lambda>old.
     io_bind (io_lift (required_string args ''new'')) (\<lambda>new.
     answer (edit_body w (workspace_root ctx) requested old new))))"

section \<open>Finishing\<close>

definition finish_preview :: "Json \<Rightarrow> (string, ToolError) result" where
  "finish_preview args = map_ok (\<lambda>outcome. ''finish as '' @ outcome) (required_string args ''outcome'')"

definition finish_task :: "Outside \<Rightarrow> Json \<Rightarrow> (ToolResult, ToolError) io" where
  "finish_task w args h =
     (if o_cancel w (h_time h) then Inl ToolError.Cancelled
      else and_then (required_string args ''outcome'') (\<lambda>outcome.
        map_ok (\<lambda>summary. with_effect (ToolResult_ok summary) (ToolEffect.Completion outcome))
          (required_string args ''summary'')), h)"

end
