(* ===== verification/Builtin_Facts.thy ===== *)
theory Builtin_Facts
  imports Builtin_Files
begin

text \<open>
  What the file tools do to the workspace. A body is a run of checks, which change nothing and
  whose early returns are never successes, and then its effect.
\<close>

section \<open>Checks\<close>

definition bad :: "(ToolResult, ToolError) result \<Rightarrow> bool" where
  "bad e \<longleftrightarrow> (\<forall>x. e = Inr x \<longrightarrow> result_outcome x \<noteq> ToolOutcome.Ok)"

lemma bad_simps [simp]: "bad (Inl e)" "bad (Inr x) \<longleftrightarrow> result_outcome x \<noteq> ToolOutcome.Ok"
  by (auto simp: bad_def)

definition checks :: "Outside \<Rightarrow> 'a body \<Rightarrow> bool" where
  "checks w m \<longleftrightarrow> (\<forall>h r h'. m h = (r, h') \<longrightarrow> ticks w h h' \<and> (\<forall>e. r = Inl e \<longrightarrow> bad e))"

definition holds :: "('a, 'e) io \<Rightarrow> Host \<Rightarrow> (('a, 'e) result \<Rightarrow> Host \<Rightarrow> bool) \<Rightarrow> bool" where
  "holds m h Q \<longleftrightarrow> (case m h of (r, k) \<Rightarrow> Q r k)"

lemma holdsD: "holds m h Q \<Longrightarrow> m h = (r, k) \<Longrightarrow> Q r k"
  by (simp add: holds_def)

lemma holds_bind:
  assumes "\<And>e k. m h = (Inl e, k) \<Longrightarrow> Q (Inl e) k" "\<And>x k. m h = (Inr x, k) \<Longrightarrow> holds (f x) k Q"
  shows "holds (io_bind m f) h Q"
proof (cases "m h")
  case (Pair r k)
  with assms show ?thesis by (cases r) (simp_all add: holds_def io_bind_def)
qed

lemma holds_check:
  assumes "checks w m" "\<And>e k. bad e \<Longrightarrow> ticks w h k \<Longrightarrow> Q (Inl e) k"
    "\<And>x k. m h = (Inr x, k) \<Longrightarrow> ticks w h k \<Longrightarrow> holds (f x) k Q"
  shows "holds (io_bind m f) h Q"
  using assms by (intro holds_bind) (auto simp: checks_def)

lemma holds_lift: "Q r h \<Longrightarrow> holds (io_lift r) h Q"
  by (simp add: holds_def io_lift_def)

lemma checks_map_err: "only_looks w m \<Longrightarrow> (\<And>e h h'. m h = (Inl e, h') \<Longrightarrow> bad (f e)) \<Longrightarrow> checks w (io_map_err f m)"
proof -
  assume m: "only_looks w m" and b: "\<And>e h h'. m h = (Inl e, h') \<Longrightarrow> bad (f e)"
  have "ticks w h h' \<and> (\<forall>e. r = Inl e \<longrightarrow> bad e)" if "io_map_err f m h = (r, h')" for h r h'
    using that b looksD [OF m] by (cases r) (auto simp: io_map_err_Inl io_map_err_Inr)
  then show ?thesis by (simp add: checks_def)
qed

lemma checks_or_error: "only_looks w m \<Longrightarrow> checks w (or_error f m)"
  unfolding or_error_def by (rule checks_map_err) auto

lemma checks_refusal: "only_looks w m \<Longrightarrow> checks w (or_answer files_refusal m)"
  unfolding or_answer_def by (rule checks_map_err) (auto simp: files_refusal_def ToolResult_refused_def)

lemma checks_cancelled: "checks w (unless_cancelled w)"
  by (auto simp: checks_def unless_cancelled_def)

lemma checks_lift: "(\<And>e. r = Inl e \<Longrightarrow> bad e) \<Longrightarrow> checks w (io_lift r)"
  by (auto simp: checks_def io_lift_def)

lemma checks_total: "(\<And>h x h'. m h = (x, h') \<Longrightarrow> ticks w h h') \<Longrightarrow> checks w (io_total m)"
  by (auto simp: checks_def io_total_def split: prod.splits)

lemma or_answer_Inr: "or_answer f m h = (Inr x, h') \<longleftrightarrow> m h = (Inr x, h')"
  by (simp add: or_answer_def io_map_err_Inr)

lemma or_error_Inr: "or_error f m h = (Inr x, h') \<longleftrightarrow> m h = (Inr x, h')"
  by (simp add: or_error_def io_map_err_Inr)

section \<open>Reading\<close>

lemma looks_metadata [simp, intro]: "only_looks w (fs_metadata w p)"
  by (simp add: fs_metadata_def)

lemma looks_fs_read [simp, intro]: "only_looks w (fs_read w p)"
  by (simp add: fs_read_def)

lemma looks_read_text [simp, intro]: "only_looks w (read_text w p)"
  unfolding read_text_def by (intro looks_bind looks_if looks_map_err) auto

lemma looks_observed_version [simp, intro]: "only_looks w (observed_version p)"
  by (simp add: only_looks_def observed_version_def)

lemma looks_observed_text [simp, intro]: "only_looks w (observed_text w p)"
  unfolding observed_text_def by (intro looks_bind looks_prod) auto

lemma read_text_Inl: "read_text w p h = (Inl e, h') \<Longrightarrow> result_outcome e \<noteq> ToolOutcome.Ok"
  by (auto simp: read_text_def io_bind_Inl io_map_err_Inl io_lift_eq ToolResult_failed_def split: if_splits)

lemma check_version_Inl: "check_version p c x = Inl e \<Longrightarrow> result_outcome e \<noteq> ToolOutcome.Ok"
  by (auto simp: check_version_def ToolResult_refused_def split: option.splits if_splits)

lemma check_version_Inr: "check_version p c x = Inr u \<longleftrightarrow> x = Some c"
  by (auto simp: check_version_def split: option.splits)

lemma observed_version_Inl: "observed_version p h = (Inl e, h') \<Longrightarrow> result_outcome e \<noteq> ToolOutcome.Ok"
  by (cases "ReadSet_version p (h_reads h)") (auto simp: observed_version_def ToolResult_failed_def)

lemma observed_version_Inr: "observed_version p h = (Inr x, h') \<longleftrightarrow> h' = h \<and> ReadSet_version p (h_reads h) = Inr x"
  by (cases "ReadSet_version p (h_reads h)") (auto simp: observed_version_def)

lemma observed_text_Inl: "observed_text w p h = (Inl e, h') \<Longrightarrow> result_outcome e \<noteq> ToolOutcome.Ok"
  by (auto simp: observed_text_def io_bind_Inl io_lift_eq dest: read_text_Inl observed_version_Inl check_version_Inl)

lemma checks_read_text: "checks w (or_answer id (read_text w p))"
  unfolding or_answer_def by (rule checks_map_err) (auto dest: read_text_Inl)

lemma checks_observed_text: "checks w (or_answer id (observed_text w p))"
  unfolding or_answer_def by (rule checks_map_err) (auto dest: observed_text_Inl)

lemma fs_read_Inr:
  assumes "still w" "fs_read w p h = (Inr t, h')"
  shows "\<exists>l. lookup (h_files h) (h_cwd h) True p = Inr (l, File t)"
  using assms by (auto simp: fs_read_def query_tick still_tick and_then_def split: option.splits sum.splits Node.splits)

lemma read_text_Inr:
  assumes "still w" "read_text w p h = (Inr (t, c), h')"
  shows "c = file_hash w t \<and> (\<exists>l. lookup (h_files h) (h_cwd h) True p = Inr (l, File t))"
proof -
  obtain v k where k: "fs_metadata w p h = (Inr v, k)" and r: "fs_read w p k = (Inr t, h')" and c: "c = file_hash w t"
    using assms(2) by (auto simp: read_text_def io_Inr split: if_splits)
  have "ticks w h k" using looksD [OF looks_metadata k] .
  with fs_read_Inr [OF assms(1) r] c show ?thesis
    by (simp add: ticks_still [OF assms(1)] ticks_same)
qed

lemma observed_text_Inr:
  assumes "still w" "observed_text w p h = (Inr (t, c), h')"
  shows "c = file_hash w t \<and> (\<exists>l. lookup (h_files h) (h_cwd h) True p = Inr (l, File t))
    \<and> bt_get (read_files (h_reads h)) p = Some c \<and> \<not> poisoned (h_reads h)"
proof -
  obtain k where k: "read_text w p h = (Inr (t, c), k)"
    and v: "ReadSet_version p (h_reads k) = Inr (Some c)"
    using assms(2) by (auto simp: observed_text_def io_Inr observed_version_Inr check_version_Inr)
  have "h_reads k = h_reads h" using ticks_same [OF looksD [OF looks_read_text k]] by simp
  with v have "ReadSet_version p (h_reads h) = Inr (Some c)" by simp
  with read_text_Inr [OF assms(1) k] show ?thesis by (auto simp: ReadSet_version_def split: if_splits)
qed

section \<open>Where a resolved path leads\<close>

lemma lexical_absolute:
  assumes "is_absolute root" "lexical_candidate root requested = Inr candidate"
  shows "is_absolute candidate"
  using assms by (auto simp: lexical_candidate_def Let_def path_push_def is_absolute_def split: if_splits list.splits)

lemma existing_real:
  assumes "still w" "is_absolute root" "names_ok (h_cwd h)" "existing w root requested h = (Inr p, h')"
  obtains l v where "p = path_of l" "names_ok l" "chain (h_files h) l" "node_at (h_files h) l = Some v"
    "\<forall>t. v \<noteq> Symlink t" "inside_workspace root (path_of l)"
proof -
  obtain candidate k where c: "lexical_candidate root requested = Inr candidate"
    and f: "fs_canonicalize w candidate h = (Inr p, k)"
    using assms(4) by (auto simp: existing_def io_Inr contained_def split: if_splits)
  have a: "is_absolute candidate" using lexical_absolute [OF assms(2) c] .
  have k: "h_files k = h_files h"
    using looksD [OF looks_canonicalize f] by (simp add: ticks_still [OF assms(1)])
  from f obtain l v where l: "p = path_of l" "locate (h_files k) (h_cwd h) True candidate = Inr l" "node_at (h_files k) l = Some v"
    by (auto simp: canonicalize_Inr)
  show thesis
  proof (rule that [of l v])
    show "\<forall>t. v \<noteq> Symlink t" using locate_follows [OF l(2)] l(3) a by auto
    show "inside_workspace root (path_of l)" using existing_contained [OF assms(3,4)] l(1) by simp
  qed (use l k a assms(3) in \<open>auto dest: locate_ok locate_chain\<close>)
qed

text \<open>A write that fails after it opened the file leaves a beginning of the content there.\<close>

definition torn :: "location \<Rightarrow> string \<Rightarrow> fs \<Rightarrow> fs \<Rightarrow> bool" where
  "torn l content fs fs' \<longleftrightarrow> (\<exists>k. fs' = bt_insert l (File (take k content)) fs)"

lemma replace_file_cases:
  assumes "replace_file p content reply h = (r, h')"
  shows "((\<exists>e. r = Inl e) \<and> h' = h)
    \<or> (\<exists>l. r = reply \<and> locate (h_files h) (h_cwd h) True p = Inr l \<and> node_at (h_files h) l \<noteq> Some Directory
         \<and> h' = h\<lparr>h_files := bt_insert l (File content) (h_files h)\<rparr>)"
  using assms by (auto simp: replace_file_def split: sum.splits if_splits)

lemma fs_write_cases:
  assumes "fs_write w p content h = (r, h')"
  shows "((\<exists>e. r = Inl e) \<and> h' = tick w h)
    \<or> (\<exists>l c. locate (h_files (tick w h)) (h_cwd h) True p = Inr l \<and> node_at (h_files (tick w h)) l \<noteq> Some Directory
         \<and> h' = (tick w h)\<lparr>h_files := bt_insert l (File c) (h_files (tick w h))\<rparr>
         \<and> (r = Inr () \<and> c = content \<or> (\<exists>e k. r = Inl e \<and> c = take k content)))"
proof -
  note w = assms [unfolded fs_write_def tick_def [symmetric] Let_def]
  show ?thesis
  proof (cases "o_fault w (h_time h)")
    case None
    with w have "replace_file p content (Inr ()) (tick w h) = (r, h')" by simp
    from replace_file_cases [OF this] show ?thesis by simp blast
  next
    case (Some e)
    show ?thesis
    proof (cases "o_torn w (h_time h)")
      case None
      with Some w show ?thesis by auto
    next
      case (Some k)
      with \<open>o_fault w (h_time h) = Some e\<close> w
      have "replace_file p (take k content) (Inl e) (tick w h) = (r, h')" by simp
      from replace_file_cases [OF this] show ?thesis by simp blast
    qed
  qed
qed

lemma fs_write_direct:
  assumes "still w" "chain (h_files h) l" "names_ok l" "\<forall>t. node_at (h_files h) l \<noteq> Some (Symlink t)"
    "fs_write w (path_of l) content h = (r, h')"
  shows "h_reads h' = h_reads h \<and> h_cwd h' = h_cwd h
    \<and> (case r of Inl _ \<Rightarrow> h_files h' = h_files h \<or> torn l content (h_files h) (h_files h')
      | Inr _ \<Rightarrow> node_at (h_files h) l \<noteq> Some Directory \<and> h_files h' = bt_insert l (File content) (h_files h))"
proof -
  have "m = l" if "locate (h_files h) (h_cwd h) True (path_of l) = Inr m" for m
    using locate_real [OF that assms(2,3)] assms(4) by simp
  with assms(5) show ?thesis
    by (auto dest!: fs_write_cases simp: still_tick [OF assms(1)] torn_def)
qed

lemma quiet_write: "quiet w \<Longrightarrow> fs_write w p content h = replace_file p content (Inr ()) (tick w h)"
  by (simp add: fs_write_def tick_def Let_def quiet_def)

section \<open>The replacement\<close>

lemma match_count_Cons: "old \<noteq> [] \<Longrightarrow> \<not> starts_with (c # s) old \<Longrightarrow> match_count old (c # s) = match_count old s"
  by (subst match_count.simps) simp

lemma match_count_Nil [simp]: "old \<noteq> [] \<Longrightarrow> match_count old [] = 0"
  by (subst match_count.simps) simp

lemma starts_with_Nil [simp]: "starts_with [] old \<longleftrightarrow> old = []"
  by (auto simp: starts_with_def)

lemma replace_first_split:
  "match_count old s \<noteq> 0 \<Longrightarrow> \<exists>pre post. s = pre @ old @ post \<and> replace_first old new s = pre @ new @ post
     \<and> (\<forall>p q. s = p @ old @ q \<longrightarrow> length pre \<le> length p)"
proof (induction s)
  case Nil
  then have "old = []" by (cases "old = []") auto
  then show ?case by (intro exI [of _ "[]"]) (simp add: replace_first.simps)
next
  case (Cons c s)
  show ?case
  proof (cases "starts_with (c # s) old")
    case True
    then have "c # s = old @ drop (length old) (c # s)" by (metis append_take_drop_id starts_with_def)
    with True show ?thesis
      by (intro exI [of _ "[]"] exI [of _ "drop (length old) (c # s)"]) (simp add: replace_first.simps [of old new "c # s"])
  next
    case False
    then have n: "old \<noteq> []" by (auto simp: starts_with_def)
    with Cons False obtain pre post where p: "s = pre @ old @ post" "replace_first old new s = pre @ new @ post"
      "\<forall>p q. s = p @ old @ q \<longrightarrow> length pre \<le> length p"
      by (auto simp: match_count_Cons)
    have "length (c # pre) \<le> length p" if "c # s = p @ old @ q" for p q
      using that False p(3) n by (cases p) (auto simp: starts_with_def)
    with p False show ?thesis
      by (intro exI [of _ "c # pre"] exI [of _ post])
        (simp add: replace_first.simps [of old new "c # pre @ old @ post"])
  qed
qed

lemma exact_replacement_Inr:
  "exact_replacement current old new = Inr s \<Longrightarrow>
     match_count old current = 1 \<and> (\<exists>pre post. current = pre @ old @ post \<and> s = pre @ new @ post)"
  using replace_first_split [of old current new] by (auto simp: exact_replacement_def Let_def split: if_splits)

section \<open>Editing\<close>

definition edit_target :: "Outside \<Rightarrow> string \<Rightarrow> Host \<Rightarrow> location \<Rightarrow> string \<Rightarrow> bool" where
  "edit_target w root h l current \<longleftrightarrow> inside_workspace root (path_of l)
     \<and> node_at (h_files h) l = Some (File current)
     \<and> bt_get (read_files (h_reads h)) (path_of l) = Some (file_hash w current)"

definition edit_failed :: "Outside \<Rightarrow> string \<Rightarrow> string \<Rightarrow> string \<Rightarrow> Host \<Rightarrow> ToolError \<Rightarrow> Host \<Rightarrow> bool" where
  "edit_failed w root old new h e h' \<longleftrightarrow> (\<exists>l pre post d. edit_target w root h l (pre @ old @ post)
     \<and> match_count old (pre @ old @ post) = 1
     \<and> torn l (pre @ new @ post) (h_files h) (h_files h') \<and> h_reads h' = h_reads h
     \<and> e = ToolError.Execution (''cannot edit '' @ path_of l @ '': '' @ d))"

definition edited :: "Outside \<Rightarrow> string \<Rightarrow> string \<Rightarrow> string \<Rightarrow> Host \<Rightarrow> ToolResult \<Rightarrow> Host \<Rightarrow> bool" where
  "edited w root old new h x h' \<longleftrightarrow> (\<exists>l pre post. edit_target w root h l (pre @ old @ post)
     \<and> match_count old (pre @ old @ post) = 1
     \<and> h_files h' = bt_insert l (File (pre @ new @ post)) (h_files h)
     \<and> h_reads h' = (h_reads h)\<lparr>read_files := bt_insert (path_of l) (file_hash w (pre @ new @ post)) (read_files (h_reads h))\<rparr>
     \<and> x = written ''edited'' root (path_of l) (file_hash w (pre @ new @ post)))"

lemma observe_eq: "\<not> poisoned (h_reads h) \<Longrightarrow> observe path v h =
    (Inr (), h\<lparr>h_reads := (h_reads h)\<lparr>read_files := bt_insert path v (read_files (h_reads h))\<rparr>\<rparr>)"
  by (simp add: observe_def ReadSet_observe_def)

lemma edit_body_holds:
  assumes s: "still w" and a: "is_absolute root" and c: "names_ok (h_cwd h)"
  shows "holds (edit_body w root requested old new) h (\<lambda>r k. case r of
      Inl e \<Rightarrow> bad e \<and> (h_files k = h_files h \<and> h_reads k = h_reads h
        \<or> (\<exists>x. e = Inl x \<and> edit_failed w root old new h x k))
    | Inr x \<Rightarrow> edited w root old new h x k)"
proof -
  have stay: "h_files k = h_files h \<and> h_reads k = h_reads h \<and> h_cwd k = h_cwd h" if "ticks w h k" for k
    using that ticks_still [OF s] ticks_same by blast
  have r: "checks w (or_answer id (io_lift (exact_replacement current old new)))" for current
    unfolding or_answer_def
    by (rule checks_map_err) (auto simp: io_lift_eq exact_replacement_def Let_def ToolResult_refused_def split: if_splits)
  show ?thesis unfolding edit_body_def
  proof (rule holds_check [OF checks_refusal [OF looks_existing]], goal_cases)
    case (2 path k1)
    note e = "2"(1) and t1 = "2"(2)
    show ?case
    proof (rule holds_check [OF checks_observed_text], goal_cases)
      case (2 y k2)
      obtain current v where y: "y = (current, v)" by force
      note o = "2"(1) [unfolded y] and t2 = ticks_trans [OF t1 "2"(2)]
      show ?case unfolding y prod.case
      proof (rule holds_check [OF r], goal_cases)
        case (2 replacement k3)
        note p = "2"(1) and t3 = ticks_trans [OF t2 "2"(2)]
        show ?case
        proof (rule holds_check [OF checks_cancelled], goal_cases)
          case (2 u k4)
          note t4 = ticks_trans [OF t3 "2"(2)]
          show ?case
          proof (rule holds_check [OF checks_refusal [OF looks_existing]], goal_cases)
            case (2 immediate k5)
            note t5 = ticks_trans [OF t4 "2"(2)]
            show ?case
            proof (rule holds_bind, goal_cases)
              case (2 u k6)
              then have m: "immediate = path" "k6 = k5" by (auto simp: io_lift_eq split: if_splits)
              obtain l v where l: "path = path_of l" "names_ok l" "chain (h_files h) l" "node_at (h_files h) l = Some v"
                "\<forall>t. v \<noteq> Symlink t" "inside_workspace root (path_of l)"
                using e s a c by (elim existing_real [of w root h requested path k1]) (simp_all add: or_answer_Inr)
              obtain m where lk: "lookup (h_files h) (h_cwd h) True path = Inr (m, File current)"
                and ob: "bt_get (read_files (h_reads h)) path = Some (file_hash w current)" "\<not> poisoned (h_reads h)"
                using observed_text_Inr [OF s, of path k1 current _ k2] o stay [OF t1] by (auto simp: or_answer_Inr)
              have "m = l" using lk l locate_real [of "h_files h" "h_cwd h" True l m] by (auto simp: lookup_Inr)
              with lk l(4) have v: "v = File current" by (simp add: lookup_Inr)
              obtain pre post where pp: "current = pre @ old @ post" "replacement = pre @ new @ post" "match_count old current = 1"
                using p exact_replacement_Inr [of current old new replacement] by (auto simp: or_answer_Inr io_lift_eq)
              show ?case
              proof (rule holds_bind, goal_cases)
                case (1 e k7)
                then obtain x where w: "fs_write w (path_of l) replacement k5 = (Inl x, k7)"
                  and b: "bad e" "e = Inl (ToolError.Execution (''cannot edit '' @ path_of l @ '': '' @ IoError_display x))"
                  using l(1) m by (auto simp: or_error_def io_map_err_Inl)
                from fs_write_direct [OF s _ _ _ w] l v stay [OF t5]
                have "h_reads k7 = h_reads h" "h_files k7 = h_files h \<or> torn l replacement (h_files h) (h_files k7)"
                  by simp_all
                with b l v ob pp show ?case by (auto simp: edit_failed_def edit_target_def)
              next
                case (2 z k7)
                then have "fs_write w (path_of l) replacement k5 = (Inr z, k7)" using l(1) m by (simp add: or_error_Inr)
                with fs_write_direct [OF s, of k5 l replacement "Inr z" k7] l v stay [OF t5]
                have k7: "h_reads k7 = h_reads h" "h_files k7 = bt_insert l (File replacement) (h_files h)" by simp_all
                then show ?case using l v ob pp
                  by (auto simp: io_bind_def or_error_def io_map_err_def observe_eq io_lift_def holds_def edited_def edit_target_def)
              qed
            qed (use stay [OF t5] in \<open>auto simp: io_lift_eq ToolResult_refused_def split: if_splits\<close>)
          qed (use stay [OF ticks_trans [OF t4]] in simp)
        qed (use stay [OF ticks_trans [OF t3]] in simp)
      qed (use stay [OF ticks_trans [OF t2]] in simp)
    qed (use stay [OF ticks_trans [OF t1]] in simp)
  qed (auto dest!: stay)
qed

lemma answer_holds:
  assumes "holds m h (\<lambda>r k. case r of Inl e \<Rightarrow> P e k | Inr x \<Rightarrow> Q x k)"
  shows "case answer m h of (r, k) \<Rightarrow> P r k \<or> (\<exists>x. r = Inr x \<and> Q x k)"
  using assms by (auto simp: holds_def answer_def split: prod.splits sum.splits)

lemma edit_file_effect:
  assumes "still w" "is_absolute (workspace_root ctx)" "names_ok (h_cwd h)"
    "edit_file w ctx args h = (r, h')"
  shows "(bad r \<and> h_files h' = h_files h \<and> h_reads h' = h_reads h)
    \<or> (\<exists>old new. required_string args ''old'' = Inr old \<and> required_string args ''new'' = Inr new
         \<and> ((\<exists>e. r = Inl e \<and> edit_failed w (workspace_root ctx) old new h e h')
          \<or> (\<exists>x. r = Inr x \<and> edited w (workspace_root ctx) old new h x h')))"
proof -
  consider e where "r = Inl e" "h' = h"
    | requested old new where "required_string args ''old'' = Inr old" "required_string args ''new'' = Inr new"
        "answer (edit_body w (workspace_root ctx) requested old new) h = (r, h')"
    using assms(4) by (auto simp: edit_file_def io_bind_def io_lift_def split: sum.splits)
  then show ?thesis
  proof cases
    case (2 requested old new)
    from answer_holds [OF edit_body_holds [OF assms(1-3), of requested old new]] 2 show ?thesis by auto
  qed simp
qed

end
