(* ===== verification/Listing.thy ===== *)
theory Listing
  imports Builtin_Facts
begin

text \<open>
  The tools that look around: \<^verbatim>\<open>tools/list.rs\<close> and \<^verbatim>\<open>tools/search.rs\<close>. A walk goes down as
  far as paths are short enough for the system, so it is defined with as many levels as a
  path has bytes; more levels change nothing.
\<close>

section \<open>Walks over directories\<close>

definition IGNORED_DIRECTORIES :: "string list" where
  "IGNORED_DIRECTORIES = [''.git'', ''target'', ''node_modules'', ''.next'', ''dist'', ''build'',
     ''__pycache__'', ''.venv'']"

definition ignored :: "string \<Rightarrow> bool" where
  "ignored path = (case path_file_name path of None \<Rightarrow> False | Some name \<Rightarrow> name \<in> set IGNORED_DIRECTORIES)"

type_synonym walk = "(string list, ToolError) io"

definition cancel_point :: "Outside \<Rightarrow> (unit, ToolError) io" where
  "cancel_point w h = (if o_cancel w (h_time h) then Inl ToolError.Cancelled else Inr (), h)"

definition describe :: "string \<Rightarrow> string \<Rightarrow> IoError \<Rightarrow> ToolError" where
  "describe what path e = ToolError.Execution (what @ path @ '': '' @ IoError_display e)"

text \<open>The paths of the entries that could be read; the others are passed over.\<close>

definition entry_paths :: "string \<Rightarrow> (string, IoError) result list \<Rightarrow> string list" where
  "entry_paths directory entries = map (path_push directory) (List.map_filter result_ok entries)"

primrec list_entries ::
  "(string \<Rightarrow> string list \<Rightarrow> walk) \<Rightarrow> Outside \<Rightarrow> string \<Rightarrow> bool \<Rightarrow> nat \<Rightarrow> string list \<Rightarrow> string list \<Rightarrow> walk" where
  "list_entries descend w root recursive max_results [] found = io_lift (Inr found)"
| "list_entries descend w root recursive max_results (path # paths) found =
     (if max_results \<le> length found then io_lift (Inr found)
      else io_bind (io_map_err (describe ''cannot inspect '' path) (fs_symlink_metadata w path)) (\<lambda>metadata.
        io_bind (case metadata of
            Symlink _ \<Rightarrow> io_lift (Inr found)
          | Directory \<Rightarrow> if recursive \<and> \<not> ignored path then descend path found else io_lift (Inr found)
          | File _ \<Rightarrow> io_lift (Inr (found @ [display_path root path])))
        (list_entries descend w root recursive max_results paths)))"

definition list_body ::
  "(string \<Rightarrow> string list \<Rightarrow> walk) \<Rightarrow> Outside \<Rightarrow> string \<Rightarrow> bool \<Rightarrow> nat \<Rightarrow> string \<Rightarrow> string list \<Rightarrow> walk" where
  "list_body descend w root recursive max_results directory found = io_bind (cancel_point w) (\<lambda>_.
     io_bind (io_map_err (describe ''cannot list '' directory) (fs_read_dir w directory)) (\<lambda>entries.
     list_entries descend w root recursive max_results (sort (entry_paths directory entries)) found))"

primrec list_walk :: "nat \<Rightarrow> Outside \<Rightarrow> string \<Rightarrow> bool \<Rightarrow> nat \<Rightarrow> string \<Rightarrow> string list \<Rightarrow> walk" where
  "list_walk 0 = (\<lambda>w root. list_body (\<lambda>_ found. io_lift (Inr found)) w root)"
| "list_walk (Suc levels) = (\<lambda>w root recursive max_results.
     list_body (list_walk levels w root True max_results) w root recursive max_results)"

definition requested_or_dot :: "Json \<Rightarrow> string" where
  "requested_or_dot args = case_option ''.'' id (Option.bind (json_get ''path'' args) json_as_str)"

definition list_preview :: "Json \<Rightarrow> string" where
  "list_preview args = ''list '' @ requested_or_dot args"

definition list_contents :: "Outside \<Rightarrow> string \<Rightarrow> nat \<Rightarrow> string \<Rightarrow> bool \<Rightarrow> nat \<Rightarrow> ToolResult body" where
  "list_contents w root max_output requested recursive max_results =
     io_bind (or_answer files_refusal (existing w root requested)) (\<lambda>start.
     io_bind (io_total (path_is_dir w start)) (\<lambda>d.
     if \<not> d then io_lift (Inl (Inr (ToolResult_failed ReasonCode.ToolExecution (requested @ '' is not a directory''))))
     else io_bind (or_error id (list_walk (nat PATH_MAX) w root recursive max_results start [])) (\<lambda>found.
       let (listing, t) = truncate_output (join_with [CHR 0x0A] (sort found)) max_output in
       io_lift (Inr (touched listing (max_results \<le> length found \<or> t) ToolEffect.NoEffect)))))"

definition list_files :: "Outside \<Rightarrow> ToolContext \<Rightarrow> Json \<Rightarrow> (ToolResult, ToolError) io" where
  "list_files w ctx args = answer (list_contents w (workspace_root ctx) (max_output_bytes ctx)
     (requested_or_dot args) (optional_bool args ''recursive'' True)
     (unat (optional_u64 args ''max_results'' 500)))"

section \<open>Searching without ripgrep\<close>

fun str_contains :: "string \<Rightarrow> string \<Rightarrow> bool" where
  "str_contains s q = (starts_with s q \<or> (case s of [] \<Rightarrow> False | _ # cs \<Rightarrow> str_contains cs q))"

declare str_contains.simps [simp del]

fun search_lines :: "string \<Rightarrow> string \<Rightarrow> nat \<Rightarrow> (nat \<times> string) list \<Rightarrow> string list \<Rightarrow> string list" where
  "search_lines shown needle max_results [] matches = matches"
| "search_lines shown needle max_results ((index, line) # lines) matches =
     (if str_contains line needle then
        let matches = matches @ [shown @ '':'' @ show_nat (index + 1) @ '':'' @ line] in
        if max_results \<le> length matches then matches
        else search_lines shown needle max_results lines matches
      else search_lines shown needle max_results lines matches)"

primrec search_children :: "(string \<Rightarrow> string list \<Rightarrow> walk) \<Rightarrow> nat \<Rightarrow> string list \<Rightarrow> string list \<Rightarrow> walk" where
  "search_children descend max_results [] matches = io_lift (Inr matches)"
| "search_children descend max_results (child # cs) matches =
     io_bind (descend child matches) (\<lambda>matches.
       if max_results \<le> length matches then io_lift (Inr matches)
       else search_children descend max_results cs matches)"

text \<open>A file that cannot be read as text is passed over.\<close>

definition search_file :: "Outside \<Rightarrow> string \<Rightarrow> string \<Rightarrow> string \<Rightarrow> nat \<Rightarrow> Node \<Rightarrow> string list \<Rightarrow> walk" where
  "search_file w root path needle max_results metadata matches h =
     (if int (node_len w metadata) \<le> MAX_FILE_BYTES then
        (case read_text w path h of
           (Inl _, h) \<Rightarrow> (Inr matches, h)
         | (Inr (text, _), h) \<Rightarrow> (Inr (search_lines (display_path root path) needle max_results
             (List.enumerate 0 (str_lines text)) matches), h))
      else (Inr matches, h))"

definition search_body ::
  "(string \<Rightarrow> string list \<Rightarrow> walk) \<Rightarrow> Outside \<Rightarrow> string \<Rightarrow> string \<Rightarrow> nat \<Rightarrow> string \<Rightarrow> string list \<Rightarrow> walk" where
  "search_body descend w root needle max_results path matches = io_bind (cancel_point w) (\<lambda>_.
     if max_results \<le> length matches then io_lift (Inr matches)
     else io_bind (io_map_err (describe ''cannot inspect '' path) (fs_symlink_metadata w path)) (\<lambda>metadata.
       case metadata of
         Symlink _ \<Rightarrow> io_lift (Inr matches)
       | Directory \<Rightarrow> io_bind (io_map_err (describe ''cannot search '' path) (fs_read_dir w path))
           (\<lambda>entries. search_children descend max_results (sort (entry_paths path entries)) matches)
       | File _ \<Rightarrow> search_file w root path needle max_results metadata matches))"

primrec fallback_walk :: "nat \<Rightarrow> Outside \<Rightarrow> string \<Rightarrow> string \<Rightarrow> nat \<Rightarrow> string \<Rightarrow> string list \<Rightarrow> walk" where
  "fallback_walk 0 = (\<lambda>w root needle. search_body (\<lambda>_ matches. io_lift (Inr matches)) w root needle)"
| "fallback_walk (Suc levels) = (\<lambda>w root needle max_results.
     search_body (fallback_walk levels w root needle max_results) w root needle max_results)"

section \<open>Searching with ripgrep\<close>

text \<open>
  The arguments the search passes to \<^verbatim>\<open>rg\<close>, and the events it prints, one JSON value per line
  (the parser of \<^verbatim>\<open>serde_json\<close> is a parameter).
\<close>

definition rg_arguments :: "string \<Rightarrow> string \<Rightarrow> string list" where
  "rg_arguments needle relative = [''--json'', ''--fixed-strings'', ''--line-number'', ''--color'', ''never'',
     ''--glob'', ''!.git/**'', ''--glob'', ''!target/**'', needle, relative]"

definition trim_end :: "string \<Rightarrow> string" where
  "trim_end s = concat (rev (dropWhile is_whitespace (rev (str_chars s))))"

definition rg_match :: "Json \<Rightarrow> string option" where
  "rg_match event = (if Option.bind (json_get ''type'' event) json_as_str \<noteq> Some ''match'' then None
     else let data = json_get ''data'' event;
       path = case_option ''?'' id (Option.bind (Option.bind (Option.bind data (json_get ''path'')) (json_get ''text'')) json_as_str);
       line_number = case_option 0 id (Option.bind (Option.bind data (json_get ''line_number'')) json_as_u64);
       snippet = trim_end (case_option [] id
         (Option.bind (Option.bind (Option.bind data (json_get ''lines'')) (json_get ''text'')) json_as_str))
     in Some (path @ '':'' @ show_u32 line_number @ '':'' @ snippet))"

fun rg_matches :: "(string \<Rightarrow> Json option) \<Rightarrow> nat \<Rightarrow> string list \<Rightarrow> string list \<Rightarrow> string list" where
  "rg_matches parse max_results [] matches = matches"
| "rg_matches parse max_results (line # lines) matches =
     (if max_results \<le> length matches then matches
      else case Option.bind (parse line) rg_match of
          None \<Rightarrow> rg_matches parse max_results lines matches
        | Some m \<Rightarrow> rg_matches parse max_results lines (matches @ [m]))"

definition render_rg :: "(string \<Rightarrow> Json option) \<Rightarrow> string \<Rightarrow> nat \<Rightarrow> nat \<Rightarrow> bool \<Rightarrow> ToolResult" where
  "render_rg parse raw max_results max_bytes upstream_truncated =
     (let matches = rg_matches parse max_results (str_lines raw) [];
        (shown, bytes) = truncate_output (join_with [CHR 0x0A] matches) max_bytes in
      touched shown (upstream_truncated \<or> max_results \<le> length matches \<or> bytes) ToolEffect.NoEffect)"

section \<open>The walk lists what is there\<close>

text \<open>
  The entries of a directory with names of a certain kind, and the files listed below it
  through entries with such names.
\<close>

definition entry :: "(string \<Rightarrow> bool) \<Rightarrow> fs \<Rightarrow> location \<Rightarrow> string \<Rightarrow> string \<Rightarrow> bool" where
  "entry ok fs cwd d p \<longleftrightarrow> (\<exists>l name. lookup fs cwd True d = Inr (l, Directory) \<and> name \<in> set (children fs l)
     \<and> ok name \<and> p = path_push d name)"

inductive listed :: "(string \<Rightarrow> bool) \<Rightarrow> fs \<Rightarrow> location \<Rightarrow> bool \<Rightarrow> string \<Rightarrow> string \<Rightarrow> bool"
  for ok :: "string \<Rightarrow> bool" and fs :: fs and cwd :: location where
  here: "entry ok fs cwd d p \<Longrightarrow> lookup fs cwd False p = Inr (l, File c) \<Longrightarrow> listed ok fs cwd recursive d p"
| below: "entry ok fs cwd d e \<Longrightarrow> lookup fs cwd False e = Inr (l, Directory) \<Longrightarrow> \<not> ignored e \<Longrightarrow>
    listed ok fs cwd True e p \<Longrightarrow> listed ok fs cwd True d p"

text \<open>Names that every reading of a directory gets.\<close>

definition readable :: "Outside \<Rightarrow> string \<Rightarrow> bool" where
  "readable w name \<longleftrightarrow> (\<forall>n. o_entry w n name = None)"

text \<open>
  What a walk adds, given what its descents add: only what is there, and all that it is sure
  to see.
\<close>

definition adds :: "fs \<Rightarrow> location \<Rightarrow> string \<Rightarrow> nat \<Rightarrow> (string \<Rightarrow> bool) \<Rightarrow> (string \<Rightarrow> bool) \<Rightarrow> string list \<Rightarrow> string list \<Rightarrow> bool" where
  "adds fs cwd root max_results P Q found found' \<longleftrightarrow> (\<exists>ps. found' = found @ map (display_path root) ps
     \<and> (\<forall>p \<in> set ps. P p) \<and> (length found' < max_results \<longrightarrow> (\<forall>p. Q p \<longrightarrow> p \<in> set ps))
     \<and> (length found \<le> max_results \<longrightarrow> length found' \<le> max_results))"

lemma fs_symlink_metadata_Inr:
  "still w \<Longrightarrow> fs_symlink_metadata w p h = (Inr v, k) \<Longrightarrow> \<exists>l. lookup (h_files h) (h_cwd h) False p = Inr (l, v)"
  by (auto simp: fs_symlink_metadata_def query_tick still_tick map_ok_def split: option.splits sum.splits)

lemma set_result_ok: "x \<in> set (List.map_filter result_ok rs) \<longleftrightarrow> Inr x \<in> set rs"
  by (induction rs) (auto simp: map_filter_simps result_ok_def split: sum.splits)

lemma fs_read_dir_Inr:
  assumes "still w" "fs_read_dir w d h = (Inr es, k)"
  shows "\<forall>p. entry (readable w) (h_files h) (h_cwd h) d p \<longrightarrow> p \<in> set (entry_paths d es)"
    "\<forall>p \<in> set (entry_paths d es). entry (\<lambda>_. True) (h_files h) (h_cwd h) d p"
proof -
  obtain l where l: "lookup (h_files h) (h_cwd h) True d = Inr (l, Directory)"
    "es = map (read_entry w (h_time h)) (children (h_files h) l)"
    using assms by (auto simp: fs_read_dir_def query_tick still_tick and_then_def split: option.splits sum.splits Node.splits)
  have s: "Inr x \<in> set es \<longleftrightarrow> x \<in> set (children (h_files h) l) \<and> o_entry w (h_time h) x = None" for x
    unfolding l(2) set_map image_iff by (auto simp: read_entry_def split: option.splits)
  then show "\<forall>p. entry (readable w) (h_files h) (h_cwd h) d p \<longrightarrow> p \<in> set (entry_paths d es)"
    using l(1) by (auto simp: entry_def entry_paths_def set_result_ok readable_def)
  from s show "\<forall>p \<in> set (entry_paths d es). entry (\<lambda>_. True) (h_files h) (h_cwd h) d p"
    using l(1) by (auto simp: entry_def entry_paths_def set_result_ok)
qed

lemma looks_symlink_metadata [simp, intro]: "only_looks w (fs_symlink_metadata w p)"
  by (simp add: fs_symlink_metadata_def)

lemma looks_read_dir [simp, intro]: "only_looks w (fs_read_dir w p)"
  unfolding only_looks_def fs_read_dir_def using looks_query [unfolded only_looks_def] by blast

lemma looks_cancel_point [simp, intro]: "only_looks w (cancel_point w)"
  by (simp add: only_looks_def cancel_point_def)

definition same_host :: "Host \<Rightarrow> Host \<Rightarrow> bool" where
  "same_host h h' \<longleftrightarrow> h_files h' = h_files h \<and> h_cwd h' = h_cwd h \<and> h_reads h' = h_reads h"

lemma looks_same: "still w \<Longrightarrow> only_looks w m \<Longrightarrow> m h = (r, k) \<Longrightarrow> same_host h k"
  using looksD ticks_still ticks_same unfolding same_host_def by blast

lemma push_longer: "name_ok n \<Longrightarrow> length d < length (path_push d n)"
  by (cases n) (auto simp: path_push_def is_absolute_name name_ok_def)

lemma children_ok: "n \<in> set (children fs l) \<Longrightarrow> name_ok n"
  by (auto simp: children_def)

lemma read_dir_longer:
  assumes "fs_read_dir w d h = (Inr es, k)" "e \<in> set (entry_paths d es)"
  shows "length d < length e" "int (length d) < PATH_MAX"
proof -
  obtain l where l: "lookup (h_files (tick w h)) (h_cwd h) True d = Inr (l, Directory)"
      "es = map (read_entry w (h_time h)) (children (h_files (tick w h)) l)"
    using assms(1) by (auto simp: fs_read_dir_def query_tick and_then_def split: option.splits sum.splits Node.splits)
  then show "length d < length e" using assms(2)
    by (auto simp: entry_paths_def set_result_ok read_entry_def intro!: push_longer children_ok split: option.splits)
  from l(1) show "int (length d) < PATH_MAX" by (auto simp: lookup_Inr dest: locate_short)
qed

lemma read_dir_short: "fs_read_dir w d h = (Inr es, k) \<Longrightarrow> int (length d) < PATH_MAX"
  by (auto simp: fs_read_dir_def query_tick and_then_def lookup_Inr dest: locate_short
      split: option.splits sum.splits Node.splits)

text \<open>Levels beyond the longest path change nothing, whatever happens to the files meanwhile.\<close>

lemma list_entries_cong:
  "(\<And>p found h. p \<in> set paths \<Longrightarrow> d1 p found h = d2 p found h) \<Longrightarrow>
     list_entries d1 w root recursive max_results paths found h = list_entries d2 w root recursive max_results paths found h"
proof (induction paths arbitrary: found h)
  case (Cons p paths)
  then have "list_entries d1 w root recursive max_results paths found h
      = list_entries d2 w root recursive max_results paths found h" for found h by simp
  then have "list_entries d1 w root recursive max_results paths = list_entries d2 w root recursive max_results paths"
    by (intro ext)
  moreover have "d1 p found h = d2 p found h" for found h using Cons.prems by simp
  then have "d1 p = d2 p" by (intro ext)
  ultimately show ?case by (simp only: list_entries.simps)
qed simp

lemma list_walk_levels:
  "PATH_MAX \<le> int (length d + levels) \<Longrightarrow>
     list_walk (Suc levels) w root recursive max_results d found h = list_walk levels w root recursive max_results d found h"
proof (induction levels arbitrary: recursive d found h)
  case 0
  have same: "io_bind (io_map_err g (fs_read_dir w d)) f k = io_bind (io_map_err g (fs_read_dir w d)) f' k" for f f' g k
  proof (cases "fs_read_dir w d k")
    case (Pair r k')
    with 0 read_dir_short [of w d k] show ?thesis
      by (cases r) (auto simp: io_bind_def io_map_err_def)
  qed
  show ?case
    by (auto simp: list_body_def io_bind_def [of "cancel_point w"] split: prod.split sum.split intro!: same)
next
  case (Suc levels)
  have "list_entries (list_walk (Suc levels) w root True max_results) w root recursive max_results (sort (entry_paths d es)) found k
      = list_entries (list_walk levels w root True max_results) w root recursive max_results (sort (entry_paths d es)) found k"
    if "fs_read_dir w d k' = (Inr es, k)" for es k k'
  proof (rule list_entries_cong)
    fix p found h assume "p \<in> set (sort (entry_paths d es))"
    then have "length d < length p" using read_dir_longer [OF that] by simp
    with Suc.prems show "list_walk (Suc levels) w root True max_results p found h = list_walk levels w root True max_results p found h"
      by (intro Suc.IH) simp
  qed
  then have "io_bind (io_map_err g (fs_read_dir w d)) (\<lambda>es. list_entries (list_walk (Suc levels) w root True max_results) w root recursive max_results (sort (entry_paths d es)) found) k
      = io_bind (io_map_err g (fs_read_dir w d)) (\<lambda>es. list_entries (list_walk levels w root True max_results) w root recursive max_results (sort (entry_paths d es)) found) k" for g k
    by (cases "fs_read_dir w d k"; cases "fst (fs_read_dir w d k)") (auto simp: io_bind_def io_map_err_def)
  then show ?case
    by (simp only: list_walk.simps list_body_def io_bind_def [of "cancel_point w"])
qed

text \<open>The entries of a directory, one by one.\<close>

definition entry_lists :: "fs \<Rightarrow> location \<Rightarrow> bool \<Rightarrow> (string \<Rightarrow> string \<Rightarrow> bool) \<Rightarrow> string \<Rightarrow> string \<Rightarrow> bool" where
  "entry_lists fs cwd recursive P e p \<longleftrightarrow> (p = e \<and> (\<exists>l c. lookup fs cwd False e = Inr (l, File c)))
     \<or> (recursive \<and> \<not> ignored e \<and> (\<exists>l. lookup fs cwd False e = Inr (l, Directory)) \<and> P e p)"

lemma adds_none: "(\<forall>p. \<not> Q p) \<or> max_results \<le> length found \<Longrightarrow> adds fs cwd root max_results P Q found found"
  unfolding adds_def by (rule exI [of _ "[]"]) auto

lemma adds_one: "P p \<Longrightarrow> (\<forall>q. Q q \<longrightarrow> q = p) \<Longrightarrow> length found < max_results \<Longrightarrow>
    adds fs cwd root max_results P Q found (found @ [display_path root p])"
  unfolding adds_def by (rule exI [of _ "[p]"]) auto

lemma adds_trans:
  assumes "adds fs cwd root m P Q a b" "adds fs cwd root m P' Q' b c"
  shows "adds fs cwd root m (\<lambda>p. P p \<or> P' p) (\<lambda>p. Q p \<or> Q' p) a c"
proof -
  from assms(1) obtain ps where ps: "b = a @ map (display_path root) ps" "\<forall>p \<in> set ps. P p"
    "length b < m \<longrightarrow> (\<forall>p. Q p \<longrightarrow> p \<in> set ps)" "length a \<le> m \<longrightarrow> length b \<le> m" by (auto simp: adds_def)
  from assms(2) obtain qs where qs: "c = b @ map (display_path root) qs" "\<forall>p \<in> set qs. P' p"
    "length c < m \<longrightarrow> (\<forall>p. Q' p \<longrightarrow> p \<in> set qs)" "length b \<le> m \<longrightarrow> length c \<le> m" by (auto simp: adds_def)
  have "length b \<le> length c" using qs(1) by simp
  show ?thesis unfolding adds_def
  proof (intro exI [of _ "ps @ qs"] conjI)
    show "c = a @ map (display_path root) (ps @ qs)" using ps(1) qs(1) by simp
    show "\<forall>p \<in> set (ps @ qs). P p \<or> P' p" using ps(2) qs(2) by auto
    show "length c < m \<longrightarrow> (\<forall>p. Q p \<or> Q' p \<longrightarrow> p \<in> set (ps @ qs))"
      using ps(3) qs(3) \<open>length b \<le> length c\<close> by (metis Un_iff order_le_less_trans set_append)
    show "length a \<le> m \<longrightarrow> length c \<le> m" using ps(4) qs(4) by blast
  qed
qed

lemma adds_mono: "adds fs cwd root m P Q a b \<Longrightarrow> (\<And>p. P p \<Longrightarrow> P' p) \<Longrightarrow> (\<And>p. Q' p \<Longrightarrow> Q p) \<Longrightarrow> adds fs cwd root m P' Q' a b"
  unfolding adds_def by (elim exE) (rule exI, blast)

lemma list_entries_adds:
  assumes s: "still w"
    and d: "\<And>e found h found' k. e \<in> set paths \<Longrightarrow> descend e found h = (Inr found', k) \<Longrightarrow>
      same_host h k \<and> adds (h_files h) (h_cwd h) root m (P (h_files h) (h_cwd h) e) (Q (h_files h) (h_cwd h) e) found found'"
    and r: "list_entries descend w root recursive m paths found h = (Inr found', k)"
  shows "same_host h k \<and> adds (h_files h) (h_cwd h) root m
    (\<lambda>p. \<exists>e \<in> set paths. entry_lists (h_files h) (h_cwd h) recursive (P (h_files h) (h_cwd h)) e p)
    (\<lambda>p. \<exists>e \<in> set paths. entry_lists (h_files h) (h_cwd h) recursive (Q (h_files h) (h_cwd h)) e p) found found'"
  using d r
proof (induction paths arbitrary: found h)
  case Nil
  then show ?case by (auto simp: io_lift_eq same_host_def intro: adds_none)
next
  case (Cons e paths)
  let ?fs = "h_files h" and ?cwd = "h_cwd h"
  let ?E = "entry_lists ?fs ?cwd recursive (P ?fs ?cwd)"
  let ?F = "entry_lists ?fs ?cwd recursive (Q ?fs ?cwd)"
  show ?case
  proof (cases "m \<le> length found")
    case True
    with Cons.prems(2) show ?thesis by (auto simp: io_lift_eq same_host_def intro!: adds_none)
  next
    case False
    with Cons.prems(2) obtain v k1 f1 k2 where
      v: "fs_symlink_metadata w e h = (Inr v, k1)"
      and b: "(case v of Symlink _ \<Rightarrow> io_lift (Inr found)
          | Directory \<Rightarrow> if recursive \<and> \<not> ignored e then descend e found else io_lift (Inr found)
          | File _ \<Rightarrow> io_lift (Inr (found @ [display_path root e]))) k1 = (Inr f1, k2)"
      and t: "list_entries descend w root recursive m paths f1 k2 = (Inr found', k)"
      by (auto simp: io_bind_Inr io_map_err_Inr)
    from fs_symlink_metadata_Inr [OF s v] obtain l where l: "lookup ?fs ?cwd False e = Inr (l, v)" by blast
    have k1: "same_host h k1" using looks_same [OF s looks_symlink_metadata v] .
    have one: "same_host h k2 \<and> adds ?fs ?cwd root m (?E e) (?F e) found f1"
    proof (cases v)
      case (File c)
      with b k1 l False show ?thesis
        by (auto simp: io_lift_eq adds_def entry_lists_def intro!: exI [of _ "[e]"])
    next
      case (Symlink t)
      with b k1 l show ?thesis by (auto simp: io_lift_eq entry_lists_def intro!: adds_none)
    next
      case Directory
      show ?thesis
      proof (cases "recursive \<and> \<not> ignored e")
        case True
        with b Directory have "descend e found k1 = (Inr f1, k2)" by simp
        from Cons.prems(1) [OF _ this] k1 have "same_host h k2 \<and> adds ?fs ?cwd root m (P ?fs ?cwd e) (Q ?fs ?cwd e) found f1"
          by (simp add: same_host_def)
        with True Directory l show ?thesis by (auto simp: entry_lists_def elim: adds_mono)
      next
        case False
        with b k1 l Directory show ?thesis by (auto simp: io_lift_eq entry_lists_def intro!: adds_none)
      qed
    qed
    from Cons.IH [OF Cons.prems(1) t] one
    have "same_host h k \<and> adds ?fs ?cwd root m (\<lambda>p. \<exists>e \<in> set paths. ?E e p) (\<lambda>p. \<exists>e \<in> set paths. ?F e p) f1 found'"
      by (auto simp: same_host_def)
    moreover have "(\<exists>x \<in> set (e # paths). ?E x p) \<longleftrightarrow> ?E e p \<or> (\<exists>x \<in> set paths. ?E x p)"
      "(\<exists>x \<in> set (e # paths). ?F x p) \<longleftrightarrow> ?F e p \<or> (\<exists>x \<in> set paths. ?F x p)" for p by simp_all
    ultimately show ?thesis using one adds_trans [of ?fs ?cwd root m "?E e" "?F e" found f1] by presburger
  qed
qed

lemma list_walk_adds:
  assumes "still w" "PATH_MAX \<le> int (length d + levels)"
    "list_walk levels w root recursive m d found h = (Inr found', k)"
  shows "same_host h k \<and> adds (h_files h) (h_cwd h) root m
    (listed (\<lambda>_. True) (h_files h) (h_cwd h) recursive d) (listed (readable w) (h_files h) (h_cwd h) recursive d) found found'"
  using assms(2,3)
proof (induction levels arbitrary: recursive d found h found' k)
  case 0
  then show ?case by (auto simp: list_body_def io_Inr dest: read_dir_short)
next
  case (Suc levels)
  obtain k1 es k2 where c: "cancel_point w h = (Inr (), k1)" and es: "fs_read_dir w d k1 = (Inr es, k2)"
    and r: "list_entries (list_walk levels w root True m) w root recursive m (sort (entry_paths d es)) found k2 = (Inr found', k)"
    using Suc.prems(2) by (auto simp: list_body_def io_Inr)
  have k2: "same_host h k2"
    using looks_same [OF assms(1) looks_cancel_point c] looks_same [OF assms(1) looks_read_dir es]
    by (simp add: same_host_def)
  have e: "\<forall>p. entry (readable w) (h_files h) (h_cwd h) d p \<longrightarrow> p \<in> set (entry_paths d es)"
    "\<forall>p \<in> set (entry_paths d es). entry (\<lambda>_. True) (h_files h) (h_cwd h) d p"
    using fs_read_dir_Inr [OF assms(1) es] looks_same [OF assms(1) looks_cancel_point c] by (simp_all add: same_host_def)
  have d: "same_host h k \<and> adds (h_files h) (h_cwd h) root m
      (listed (\<lambda>_. True) (h_files h) (h_cwd h) True e) (listed (readable w) (h_files h) (h_cwd h) True e) found found'"
    if "e \<in> set (sort (entry_paths d es))" "list_walk levels w root True m e found h = (Inr found', k)" for e found h found' k
  proof (rule Suc.IH [OF _ that(2)])
    show "PATH_MAX \<le> int (length e + levels)" using read_dir_longer(1) [OF es, of e] that(1) Suc.prems(1) by simp
  qed
  from list_entries_adds [where P = "\<lambda>fs cwd. listed (\<lambda>_. True) fs cwd True"
      and Q = "\<lambda>fs cwd. listed (readable w) fs cwd True", OF assms(1) d r] k2
  have "same_host h k" and a: "adds (h_files h) (h_cwd h) root m
    (\<lambda>p. \<exists>e \<in> set (entry_paths d es). entry_lists (h_files h) (h_cwd h) recursive (listed (\<lambda>_. True) (h_files h) (h_cwd h) True) e p)
    (\<lambda>p. \<exists>e \<in> set (entry_paths d es). entry_lists (h_files h) (h_cwd h) recursive (listed (readable w) (h_files h) (h_cwd h) True) e p)
    found found'"
    by (simp_all add: same_host_def)
  moreover have "\<exists>e \<in> set (entry_paths d es). entry_lists (h_files h) (h_cwd h) recursive (listed (readable w) (h_files h) (h_cwd h) True) e p"
    if "listed (readable w) (h_files h) (h_cwd h) recursive d p" for p
    using that e(1) by (cases rule: listed.cases) (auto simp: entry_lists_def)
  moreover have "listed (\<lambda>_. True) (h_files h) (h_cwd h) recursive d p"
    if "\<exists>e \<in> set (entry_paths d es). entry_lists (h_files h) (h_cwd h) recursive (listed (\<lambda>_. True) (h_files h) (h_cwd h) True) e p" for p
  proof -
    from that obtain x where x: "entry (\<lambda>_. True) (h_files h) (h_cwd h) d x"
      and l: "entry_lists (h_files h) (h_cwd h) recursive (listed (\<lambda>_. True) (h_files h) (h_cwd h) True) x p"
      using e(2) by blast
    show ?thesis
      using l listed.here [OF x] listed.below [OF x] by (cases recursive) (auto simp: entry_lists_def)
  qed
  ultimately show ?case by (intro conjI adds_mono [OF a]) assumption+
qed

section \<open>The answers\<close>

lemma list_files_answer:
  assumes "still w" "list_files w ctx args h = (Inr x, h')" "result_outcome x = ToolOutcome.Ok"
  shows "\<exists>start k ps. existing w (workspace_root ctx) (requested_or_dot args) h = (Inr start, k)
    \<and> same_host h h'
    \<and> (\<forall>p \<in> set ps. listed (\<lambda>_. True) (h_files h) (h_cwd h) (optional_bool args ''recursive'' True) start p)
    \<and> length ps \<le> unat (optional_u64 args ''max_results'' 500)
    \<and> result_content x = fst (truncate_output (join_with [CHR 0x0A] (sort (map (display_path (workspace_root ctx)) ps))) (max_output_bytes ctx))
    \<and> (\<not> truncated x \<longrightarrow> (\<forall>p. listed (readable w) (h_files h) (h_cwd h) (optional_bool args ''recursive'' True) start p \<longrightarrow> p \<in> set ps))"
proof -
  let ?root = "workspace_root ctx" and ?r = "optional_bool args ''recursive'' True"
    and ?m = "unat (optional_u64 args ''max_results'' 500)" and ?q = "requested_or_dot args"
  have no: "list_contents w ?root mx ?q ?r ?m h \<noteq> (Inl (Inr x), h')" for mx
    using assms(3) by (auto simp: list_contents_def io_bind_Inl or_answer_def or_error_def io_map_err_Inl
      files_refusal_def ToolResult_refused_def ToolResult_failed_def io_lift_eq Let_def split: if_splits prod.splits)
  with assms(2) have "list_contents w ?root (max_output_bytes ctx) ?q ?r ?m h = (Inr x, h')"
    by (auto simp: list_files_def answer_def split: prod.splits sum.splits)
  then obtain start k1 k2 found where s: "existing w ?root ?q h = (Inr start, k1)"
    and d: "path_is_dir w start k1 = (True, k2)"
    and wk: "list_walk (nat PATH_MAX) w ?root ?r ?m start [] k2 = (Inr found, h')"
    and x: "x = (let (listing, t) = truncate_output (join_with [CHR 0x0A] (sort found)) (max_output_bytes ctx) in
       touched listing (?m \<le> length found \<or> t) ToolEffect.NoEffect)"
    by (cases "truncate_output (join_with [CHR 0x0A] (sort (found :: string list))) (max_output_bytes ctx)")
      (auto simp: list_contents_def io_Inr or_answer_Inr or_error_Inr Let_def case_prod_beta split: if_splits)
  have k2: "same_host h k2"
    using looks_same [OF assms(1) looks_existing s] ticks_still [OF assms(1) path_is_dir_ticks [OF d]]
      ticks_same [OF path_is_dir_ticks [OF d]] by (simp add: same_host_def)
  have "PATH_MAX \<le> int (length start + nat PATH_MAX)" by simp
  from list_walk_adds [OF assms(1) this wk] k2 obtain ps where ps: "same_host h h'" "found = map (display_path ?root) ps"
    "\<forall>p \<in> set ps. listed (\<lambda>_. True) (h_files h) (h_cwd h) ?r start p"
    "length found < ?m \<longrightarrow> (\<forall>p. listed (readable w) (h_files h) (h_cwd h) ?r start p \<longrightarrow> p \<in> set ps)" "length found \<le> ?m"
    by (auto simp: adds_def same_host_def)
  have "truncated x \<longleftrightarrow> ?m \<le> length found \<or> snd (truncate_output (join_with [CHR 0x0A] (sort found)) (max_output_bytes ctx))"
    "result_content x = fst (truncate_output (join_with [CHR 0x0A] (sort found)) (max_output_bytes ctx))"
    using x by (auto simp: touched_def Let_def split: prod.splits)
  with s ps show ?thesis by (intro exI [of _ start] exI [of _ k1] exI [of _ ps]) auto
qed

text \<open>A search reports no more matches than it is asked for.\<close>

lemma search_lines_bound: "length matches < m \<Longrightarrow> length (search_lines shown needle m lines matches) \<le> m"
  by (induction shown needle m lines matches rule: search_lines.induct) (auto simp: Let_def)

lemma search_children_bound:
  assumes "\<And>c ms h ms' k. descend c ms h = (Inr ms', k) \<Longrightarrow> length ms \<le> m \<Longrightarrow> length ms' \<le> m"
  shows "search_children descend m cs ms h = (Inr ms', k) \<Longrightarrow> length ms \<le> m \<Longrightarrow> length ms' \<le> m"
  using assms by (induction cs arbitrary: ms h) (auto simp: io_bind_Inr io_lift_eq split: if_splits)

lemma search_file_bound:
  "search_file w root path needle m v ms h = (Inr ms', k) \<Longrightarrow> length ms < m \<Longrightarrow> length ms' \<le> m"
proof (cases "read_text w path h")
  case (Pair r k')
  assume "search_file w root path needle m v ms h = (Inr ms', k)" "length ms < m"
  with Pair show ?thesis by (cases r) (auto simp: search_file_def intro: search_lines_bound split: if_splits)
qed

lemma search_body_bound:
  assumes d: "\<And>c ms h ms' k. descend c ms h = (Inr ms', k) \<Longrightarrow> length ms \<le> m \<Longrightarrow> length ms' \<le> m"
    and r: "search_body descend w root needle m path ms h = (Inr ms', k)" and l: "length ms \<le> m"
  shows "length ms' \<le> m"
proof -
  have c: "length ms' \<le> m" if "search_children descend m cs ms h = (Inr ms', k)" for cs h k
    using search_children_bound [OF d that l] .
  show ?thesis
  proof (cases "m \<le> length ms")
    case True
    with r l show ?thesis by (auto simp: search_body_def io_bind_Inr io_lift_eq)
  next
    case False
    with r obtain v k1 where b: "(case v of Symlink _ \<Rightarrow> io_lift (Inr ms)
       | Directory \<Rightarrow> io_bind (io_map_err (describe ''cannot search '' path) (fs_read_dir w path))
           (\<lambda>entries. search_children descend m (sort (entry_paths path entries)) ms)
       | File _ \<Rightarrow> search_file w root path needle m v ms) k1 = (Inr ms', k)"
      by (auto simp: search_body_def io_bind_Inr [of "cancel_point w"] io_bind_Inr [of "io_map_err _ (fs_symlink_metadata w path)"])
    with False l show ?thesis
      by (cases v) (auto simp: io_lift_eq io_bind_Inr dest: c search_file_bound)
  qed
qed

lemma fallback_walk_bound:
  "fallback_walk levels w root needle m path ms h = (Inr ms', k) \<Longrightarrow> length ms \<le> m \<Longrightarrow> length ms' \<le> m"
proof (induction levels arbitrary: path ms h ms' k)
  case 0
  then show ?case by (auto simp: io_lift_eq elim!: search_body_bound [rotated])
next
  case (Suc levels)
  show ?case
    by (rule search_body_bound [OF Suc.IH, of _ _ _ _ _ w root needle path ms h]) (use Suc.prems in auto)
qed

text \<open>
  The needle is an argument of \<^verbatim>\<open>rg\<close> like any other: nothing before it ends the options, so a
  needle that begins with a dash is an option.
\<close>

lemma needle_among_options:
  "rg_arguments needle relative = take 9 (rg_arguments needle relative) @ [needle, relative]
     \<and> ''--'' \<notin> set (take 9 (rg_arguments needle relative))"
  by (simp add: rg_arguments_def)

end
