(* ===== verification/Extension.thy ===== *)
theory Extension
  imports Builtin_Files
begin

text \<open>
  \<^verbatim>\<open>core/extension.rs\<close> and the values of a call in \<^verbatim>\<open>tools/extension.rs\<close>: a named view onto one
  exact command whose arguments are templates. The YAML reader is a parameter of parsing.
  A reference reads a template into literals and parameters; substitution is shown to fill
  those in, once and within one argument.
\<close>

section \<open>Placeholders\<close>

definition MAX_PARAMETERS :: nat where
  "MAX_PARAMETERS = 64"

definition MAX_ARGUMENTS :: nat where
  "MAX_ARGUMENTS = 256"

record Parameter =
  parameter_name :: string
  parameter_description :: string

record ExtensionDefinition =
  ext_name :: string
  ext_description :: string
  ext_parameters :: "Parameter list"
  ext_program :: string
  ext_arguments :: "string list"

record RawExtension =
  raw_name :: string
  raw_description :: string
  raw_parameters :: "Parameter list"
  raw_program :: string
  raw_arguments :: "string list"

text \<open>\<^verbatim>\<open>str::find\<close> of a pattern: what is before its first occurrence and what is after it.\<close>

fun split_at :: "string \<Rightarrow> string \<Rightarrow> (string \<times> string) option" where
  "split_at pat s = (if starts_with s pat then Some ([], drop (length pat) s)
     else case s of [] \<Rightarrow> None | c # cs \<Rightarrow> map_option (\<lambda>(a, b). (c # a, b)) (split_at pat cs))"

declare split_at.simps [simp del]

definition OPEN :: string where
  "OPEN = ''${''"

definition CLOSE :: string where
  "CLOSE = ''}''"

lemma split_at_Some: "split_at pat s = Some (a, b) \<Longrightarrow> s = a @ pat @ b"
proof (induction pat s arbitrary: a rule: split_at.induct)
  case (1 pat s)
  show ?case
  proof (cases "starts_with s pat")
    case True
    with "1.prems" have "a = []" "b = drop (length pat) s" by (simp_all add: split_at.simps [of pat s])
    with True show ?thesis by (metis append_Nil append_take_drop_id starts_with_def)
  next
    case False
    with "1.prems" obtain c cs a' where "s = c # cs" "a = c # a'" "split_at pat cs = Some (a', b)"
      by (auto simp: split_at.simps [of pat s] split: list.splits)
    with "1.IH" [OF False] show ?thesis by simp
  qed
qed

function substitute_rest :: "string \<Rightarrow> (string, string) btree_map \<Rightarrow> string \<Rightarrow> (string, string) result" where
  "substitute_rest template vals rest = (case split_at OPEN rest of
      None \<Rightarrow> Inr rest
    | Some (before, after) \<Rightarrow> (case split_at CLOSE after of
          None \<Rightarrow> Inl (''unterminated placeholder in `'' @ template @ ''`'')
        | Some (name, later) \<Rightarrow> (case bt_get vals name of
              None \<Rightarrow> Inl (''no value for parameter `'' @ name @ ''`'')
            | Some v \<Rightarrow> map_ok (\<lambda>tail. before @ v @ tail) (substitute_rest template vals later))))"
  by pat_completeness auto
termination
  by (relation "measure (\<lambda>(_, _, rest). length rest)") (auto dest!: split_at_Some simp: OPEN_def)

declare substitute_rest.simps [simp del]

definition substitute :: "string \<Rightarrow> (string, string) btree_map \<Rightarrow> (string, string) result" where
  "substitute template vals = substitute_rest template vals template"

function scan_rest :: "string \<Rightarrow> string \<Rightarrow> (string list, string) result" where
  "scan_rest whole rest = (case split_at OPEN rest of
      None \<Rightarrow> Inr []
    | Some (_, after) \<Rightarrow> (case split_at CLOSE after of
          None \<Rightarrow> Inl (''unterminated `${` in `'' @ whole @ ''`'')
        | Some (name, later) \<Rightarrow> if name = [] then Inl (''empty placeholder `${}` in `'' @ whole @ ''`'')
            else map_ok ((#) name) (scan_rest whole later)))"
  by pat_completeness auto
termination
  by (relation "measure (\<lambda>(_, rest). length rest)") (auto dest!: split_at_Some simp: OPEN_def)

declare scan_rest.simps [simp del]

definition scan_placeholders :: "string \<Rightarrow> (string list, string) result" where
  "scan_placeholders s = scan_rest s s"

fun map_results :: "('a \<Rightarrow> ('b, 'e) result) \<Rightarrow> 'a list \<Rightarrow> ('b list, 'e) result" where
  "map_results f [] = Inr []"
| "map_results f (x # xs) = and_then (f x) (\<lambda>y. map_ok ((#) y) (map_results f xs))"

definition resolve :: "ExtensionDefinition \<Rightarrow> (string, string) btree_map \<Rightarrow> (string list, string) result" where
  "resolve d vals = map_results (\<lambda>argument. substitute argument vals) (ext_arguments d)"

section \<open>Validation\<close>

definition validate_text :: "string \<Rightarrow> string \<Rightarrow> nat \<Rightarrow> (unit, string) result" where
  "validate_text v field maximum = (let n = char_count v in
     if n = 0 \<or> maximum < n
     then Inl (''`'' @ field @ ''` must contain 1-'' @ show_nat maximum @ '' characters; found '' @ show_nat n)
     else Inr ())"

definition is_ascii_lower :: "char \<Rightarrow> bool" where
  "is_ascii_lower c \<longleftrightarrow> between 97 122 c"

definition is_ascii_digit :: "char \<Rightarrow> bool" where
  "is_ascii_digit c \<longleftrightarrow> between 48 57 c"

fun has_infix :: "string \<Rightarrow> string \<Rightarrow> bool" where
  "has_infix pat s = (split_at pat s \<noteq> None)"

definition validate_name :: "(string \<Rightarrow> string) \<Rightarrow> string \<Rightarrow> (unit, string) result" where
  "validate_name to_lowercase name = and_then (validate_text name ''name'' 64) (\<lambda>_.
     if name \<noteq> to_lowercase name then Inl ''extension name must be lowercase''
     else if starts_with name ''-'' \<or> strip_suffix name ''-'' \<noteq> None
     then Inl ''extension name cannot start or end with a hyphen''
     else if has_infix ''--'' name then Inl ''extension name cannot contain consecutive hyphens''
     else if \<not> list_all (\<lambda>c. is_ascii_lower c \<or> is_ascii_digit c \<or> c = CHR ''-'') name
     then Inl ''extension name may contain only lowercase ASCII letters, digits, and hyphens''
     else Inr ())"

definition validate_parameter_name :: "string \<Rightarrow> (unit, string) result" where
  "validate_parameter_name name = and_then (validate_text name ''parameter name'' 64) (\<lambda>_.
     if \<not> (case name of [] \<Rightarrow> False | c # _ \<Rightarrow> is_ascii_lower c)
     then Inl (''parameter name `'' @ name @ ''` must start with a lowercase ASCII letter'')
     else if \<not> list_all (\<lambda>c. is_ascii_lower c \<or> is_ascii_digit c \<or> c = CHR ''-'' \<or> c = CHR ''_'') name
     then Inl (''parameter name `'' @ name @ ''` may contain only lowercase ASCII letters, digits, hyphens, and underscores'')
     else Inr ())"

fun parse_parameters :: "string list \<Rightarrow> Parameter list \<Rightarrow> (Parameter list, string) result" where
  "parse_parameters seen [] = Inr []"
| "parse_parameters seen (p # ps) = (let name = trim (parameter_name p); description = trim (parameter_description p) in
     and_then (validate_parameter_name name) (\<lambda>_.
     if name \<in> set seen then Inl (''duplicate parameter `'' @ name @ ''`'')
     else and_then (validate_text description (''parameter `'' @ name @ ''` description'') 1024) (\<lambda>_.
       map_ok ((#) \<lparr>parameter_name = name, parameter_description = description\<rparr>)
         (parse_parameters (name # seen) ps))))"

fun check_references :: "string list \<Rightarrow> string list \<Rightarrow> (string list, string) result" where
  "check_references declared [] = Inr []"
| "check_references declared (argument # others) = and_then (scan_placeholders argument) (\<lambda>names.
     case List.find (\<lambda>n. n \<notin> set declared) names of
       Some n \<Rightarrow> Inl (''argument references undeclared parameter `'' @ n @ ''`'')
     | None \<Rightarrow> map_ok ((@) names) (check_references declared others))"

definition ExtensionDefinition_parse ::
  "(string \<Rightarrow> string) \<Rightarrow> (string \<Rightarrow> (RawExtension, string) result) \<Rightarrow> string \<Rightarrow> string \<Rightarrow> (ExtensionDefinition, string) result" where
  "ExtensionDefinition_parse to_lowercase from_yaml contents expected_name =
     and_then (map_err (\<lambda>e. ''invalid extension YAML: '' @ e) (from_yaml contents)) (\<lambda>raw.
     let name = trim (raw_name raw) in
     and_then (validate_name to_lowercase name) (\<lambda>_.
     if name \<noteq> expected_name then Inl (''extension name `'' @ name @ ''` does not match file `'' @ expected_name @ ''`'')
     else let description = trim (raw_description raw) in
     and_then (validate_text description ''description'' 1024) (\<lambda>_.
     if MAX_PARAMETERS < length (raw_parameters raw)
     then Inl (''an extension may declare at most '' @ show_nat MAX_PARAMETERS @ '' parameters'')
     else and_then (parse_parameters [] (raw_parameters raw)) (\<lambda>parameters.
     let prog = trim (raw_program raw) in
     if prog = [] then Inl ''`run.program` must not be empty''
     else if has_infix OPEN prog
     then Inl ''`run.program` may not contain a `${...}` placeholder; only arguments are parameterised''
     else if MAX_ARGUMENTS < length (raw_arguments raw)
     then Inl (''an extension command may have at most '' @ show_nat MAX_ARGUMENTS @ '' arguments'')
     else and_then (check_references (map parameter_name parameters) (raw_arguments raw)) (\<lambda>referenced.
     case List.find (\<lambda>p. parameter_name p \<notin> set referenced) parameters of
       Some p \<Rightarrow> Inl (''parameter `'' @ parameter_name p @ ''` is declared but never used in the command'')
     | None \<Rightarrow> Inr \<lparr>ext_name = name, ext_description = description, ext_parameters = parameters,
         ext_program = prog, ext_arguments = raw_arguments raw\<rparr>)))))"

section \<open>A call\<close>

fun extension_values :: "Parameter list \<Rightarrow> Json \<Rightarrow> (string, string) btree_map \<Rightarrow> ((string, string) btree_map, ToolError) result" where
  "extension_values [] args vals = Inr vals"
| "extension_values (p # ps) args vals =
     and_then (required_string args (parameter_name p)) (\<lambda>v. extension_values ps args (bt_insert (parameter_name p) v vals))"

definition extension_spec :: "ExtensionDefinition \<Rightarrow> Json \<Rightarrow> (CommandSpec, ToolError) result" where
  "extension_spec d args = and_then (extension_values (ext_parameters d) args []) (\<lambda>vals.
     map_ok (\<lambda>resolved. \<lparr>program = ext_program d, arguments = resolved\<rparr>)
       (map_err ToolError.SchemaInvalid (resolve d vals)))"

definition extension_preview :: "ExtensionDefinition \<Rightarrow> Json \<Rightarrow> (string, ToolError) result" where
  "extension_preview d args = map_ok CommandSpec_display (extension_spec d args)"

section \<open>Templates as literals and parameters\<close>

datatype piece = Literal string | Slot string

function pieces :: "string \<Rightarrow> piece list option" where
  "pieces s = (case split_at OPEN s of
      None \<Rightarrow> Some [Literal s]
    | Some (before, after) \<Rightarrow> (case split_at CLOSE after of
          None \<Rightarrow> None
        | Some (name, later) \<Rightarrow> map_option (\<lambda>ps. Literal before # Slot name # ps) (pieces later)))"
  by pat_completeness auto
termination by (relation "measure length") (auto dest!: split_at_Some simp: OPEN_def)

declare pieces.simps [simp del]

definition fill :: "(string \<Rightarrow> string option) \<Rightarrow> piece \<Rightarrow> string" where
  "fill f p = (case p of Literal s \<Rightarrow> s | Slot n \<Rightarrow> the (f n))"

definition slots :: "piece list \<Rightarrow> string set" where
  "slots ps = {n. Slot n \<in> set ps}"

lemma slots_simps [simp]:
  "slots [] = {}" "slots (Literal s # ps) = slots ps" "slots (Slot n # ps) = insert n (slots ps)"
  by (auto simp: slots_def)

lemma substitute_rest_pieces:
  "pieces s = Some ps \<Longrightarrow> \<forall>n \<in> slots ps. bt_get vals n \<noteq> None \<Longrightarrow>
     substitute_rest t vals s = Inr (concat (map (fill (bt_get vals)) ps))"
proof (induction s arbitrary: ps rule: pieces.induct)
  case (1 s)
  show ?case
  proof (cases "split_at OPEN s")
    case None
    with "1.prems"(1) show ?thesis
      by (auto simp: pieces.simps [of s] substitute_rest.simps [of t vals s] fill_def)
  next
    case (Some x)
    obtain before after where x: "x = (before, after)" by force
    show ?thesis
    proof (cases "split_at CLOSE after")
      case None
      with "1.prems"(1) Some x show ?thesis by (simp add: pieces.simps [of s])
    next
      case (Some y)
      obtain name later where y: "y = (name, later)" by force
      obtain qs where qs: "pieces later = Some qs" "ps = Literal before # Slot name # qs"
        using "1.prems"(1) \<open>split_at OPEN s = Some x\<close> x y Some by (auto simp: pieces.simps [of s])
      then have "substitute_rest t vals later = Inr (concat (map (fill (bt_get vals)) qs))"
        using "1.IH" [OF \<open>split_at OPEN s = Some x\<close> x [symmetric] Some y [symmetric]] "1.prems"(2) by simp
      with qs "1.prems"(2) \<open>split_at OPEN s = Some x\<close> x y Some show ?thesis
        by (auto simp: substitute_rest.simps [of t vals s] fill_def [of _ "Literal _"] fill_def [of _ "Slot _"])
    qed
  qed
qed

lemma scan_rest_pieces:
  "scan_rest t s = Inr names \<Longrightarrow> \<exists>ps. pieces s = Some ps \<and> slots ps = set names"
proof (induction t s arbitrary: names rule: scan_rest.induct)
  case (1 t s)
  show ?case
  proof (cases "split_at OPEN s")
    case None
    with "1.prems" show ?thesis by (simp add: pieces.simps [of s] scan_rest.simps [of t s])
  next
    case (Some x)
    obtain before after where x: "x = (before, after)" by force
    with "1.prems" Some obtain name later names' where y: "split_at CLOSE after = Some (name, later)" "name \<noteq> []"
      "scan_rest t later = Inr names'" "names = name # names'"
      by (auto simp: scan_rest.simps [of t s] map_ok_def split: option.splits prod.splits if_splits sum.splits)
    from "1.IH" [OF Some x [symmetric] y(1) refl y(2,3)] obtain ps where "pieces later = Some ps" "slots ps = set names'" by blast
    with Some x y show ?thesis by (simp add: pieces.simps [of s])
  qed
qed

lemma map_results_Inr:
  "(\<And>x. x \<in> set xs \<Longrightarrow> f x = Inr (g x)) \<Longrightarrow> map_results f xs = Inr (map g xs)"
  by (induction xs) auto

section \<open>A definition that parses resolves\<close>

definition well_formed :: "ExtensionDefinition \<Rightarrow> bool" where
  "well_formed d \<longleftrightarrow> distinct (map parameter_name (ext_parameters d)) \<and> length (ext_parameters d) \<le> MAX_PARAMETERS
     \<and> length (ext_arguments d) \<le> MAX_ARGUMENTS \<and> ext_program d \<noteq> [] \<and> \<not> has_infix OPEN (ext_program d)
     \<and> (\<forall>a \<in> set (ext_arguments d). \<exists>ps. pieces a = Some ps \<and> slots ps \<subseteq> parameter_name ` set (ext_parameters d))
     \<and> (\<forall>p \<in> set (ext_parameters d). \<exists>a \<in> set (ext_arguments d). \<exists>ps. pieces a = Some ps \<and> parameter_name p \<in> slots ps)"

lemma parse_parameters_Inr:
  "parse_parameters seen ps = Inr qs \<Longrightarrow>
     distinct (map parameter_name qs) \<and> set seen \<inter> parameter_name ` set qs = {} \<and> length qs = length ps"
  by (induction seen ps arbitrary: qs rule: parse_parameters.induct)
    (fastforce simp: Let_def and_then_def map_ok_def split: sum.splits if_splits)+

lemma find_None_iff_all: "List.find P xs = None \<longleftrightarrow> (\<forall>x \<in> set xs. \<not> P x)"
  by (auto simp: find_None_iff)

lemma check_references_Inr:
  "check_references declared as = Inr names \<Longrightarrow>
     (\<forall>a \<in> set as. \<exists>ps. pieces a = Some ps \<and> slots ps \<subseteq> set declared)
     \<and> set names = (\<Union>a \<in> set as. \<Union>ps \<in> set_option (pieces a). slots ps)"
proof (induction declared "as" arbitrary: names rule: check_references.induct)
  case (2 declared a others)
  from "2.prems" obtain ns rest where n: "scan_placeholders a = Inr ns" "\<forall>n \<in> set ns. n \<in> set declared"
    "check_references declared others = Inr rest" "names = ns @ rest"
    by (auto simp: and_then_def map_ok_def find_None_iff_all split: sum.splits option.splits)
  from scan_rest_pieces [of a a ns] n(1) obtain ps where "pieces a = Some ps" "slots ps = set ns"
    by (auto simp: scan_placeholders_def)
  moreover have "List.find (\<lambda>n. n \<notin> set declared) ns = None" using n(2) by (simp add: find_None_iff_all)
  ultimately show ?case using "2.IH" [OF _ n(3)] n by auto
qed simp

lemma parse_well_formed:
  assumes "ExtensionDefinition_parse to_lowercase from_yaml contents expected = Inr d"
  shows "well_formed d \<and> ext_name d = expected"
proof -
  obtain raw where "from_yaml contents = Inr raw"
    using assms by (auto simp: ExtensionDefinition_parse_def and_then_def split: sum.splits)
  with assms obtain parameters referenced where r: "parse_parameters [] (raw_parameters raw) = Inr parameters"
    "check_references (map parameter_name parameters) (raw_arguments raw) = Inr referenced"
    "\<forall>p \<in> set parameters. parameter_name p \<in> set referenced"
    "length (raw_parameters raw) \<le> MAX_PARAMETERS" "length (raw_arguments raw) \<le> MAX_ARGUMENTS"
    "trim (raw_program raw) \<noteq> []" "\<not> has_infix OPEN (trim (raw_program raw))"
    and d: "ext_name d = expected" "ext_parameters d = parameters" "ext_program d = trim (raw_program raw)"
      "ext_arguments d = raw_arguments raw"
    by (auto simp: ExtensionDefinition_parse_def Let_def and_then_def find_None_iff_all not_less
      simp del: has_infix.simps split: sum.splits if_splits option.splits)
  note p = parse_parameters_Inr [OF r(1)] and c = check_references_Inr [OF r(2)]
  show ?thesis unfolding well_formed_def d
  proof (intro conjI)
    show "\<forall>a \<in> set (raw_arguments raw). \<exists>ps. pieces a = Some ps \<and> slots ps \<subseteq> parameter_name ` set parameters"
      using c by simp
    show "\<forall>p \<in> set parameters. \<exists>a \<in> set (raw_arguments raw). \<exists>ps. pieces a = Some ps \<and> parameter_name p \<in> slots ps"
    proof
      fix q assume "q \<in> set parameters"
      with r(3) c have "parameter_name q \<in> (\<Union>a \<in> set (raw_arguments raw). \<Union>ps \<in> set_option (pieces a). slots ps)" by simp
      then show "\<exists>a \<in> set (raw_arguments raw). \<exists>ps. pieces a = Some ps \<and> parameter_name q \<in> slots ps"
        by (auto split: option.splits)
    qed
  qed (use p r in simp_all)
qed

text \<open>Each argument is one template filled in; the text of a value is not read again.\<close>

definition filled :: "(string \<Rightarrow> string option) \<Rightarrow> string \<Rightarrow> string" where
  "filled f a = concat (map (fill f) (the (pieces a)))"

lemma resolve_filled:
  assumes "well_formed d" "\<forall>p \<in> set (ext_parameters d). bt_get vals (parameter_name p) \<noteq> None"
  shows "resolve d vals = Inr (map (filled (bt_get vals)) (ext_arguments d))"
  unfolding resolve_def
proof (rule map_results_Inr)
  fix a assume "a \<in> set (ext_arguments d)"
  with assms(1) obtain ps where ps: "pieces a = Some ps" "slots ps \<subseteq> parameter_name ` set (ext_parameters d)"
    by (auto simp: well_formed_def)
  with assms(2) have "\<forall>n \<in> slots ps. bt_get vals n \<noteq> None" by auto
  from substitute_rest_pieces [OF ps(1) this] ps(1)
  show "substitute a vals = Inr (filled (bt_get vals) a)" by (simp add: substitute_def filled_def)
qed

lemma extension_values_Inr:
  "(\<forall>p \<in> set ps. \<exists>v. required_string args (parameter_name p) = Inr v) \<Longrightarrow> distinct (map parameter_name ps) \<Longrightarrow>
     \<exists>vals'. extension_values ps args vals = Inr vals'
       \<and> (\<forall>p \<in> set ps. map_ok Some (required_string args (parameter_name p)) = Inr (bt_get vals' (parameter_name p)))
       \<and> (\<forall>n. n \<notin> parameter_name ` set ps \<longrightarrow> bt_get vals' n = bt_get vals n)"
proof (induction ps arbitrary: vals)
  case (Cons p ps)
  then obtain v where v: "required_string args (parameter_name p) = Inr v" by auto
  from Cons.IH [of "bt_insert (parameter_name p) v vals"] Cons.prems
  obtain vals' where "extension_values ps args (bt_insert (parameter_name p) v vals) = Inr vals'"
    "\<forall>p \<in> set ps. map_ok Some (required_string args (parameter_name p)) = Inr (bt_get vals' (parameter_name p))"
    "\<forall>n. n \<notin> parameter_name ` set ps \<longrightarrow> bt_get vals' n = bt_get (bt_insert (parameter_name p) v vals) n"
    by auto
  with v Cons.prems(2) show ?case by (auto simp: map_ok_def)
qed simp

lemma extension_spec_filled:
  assumes "ExtensionDefinition_parse to_lowercase from_yaml contents expected = Inr d"
    "\<forall>p \<in> set (ext_parameters d). required_string args (parameter_name p) = Inr (f (parameter_name p))"
  shows "extension_spec d args = Inr \<lparr>program = ext_program d,
    arguments = map (filled (\<lambda>n. Some (f n))) (ext_arguments d)\<rparr>"
proof -
  have w: "well_formed d" using parse_well_formed [OF assms(1)] by simp
  then have "distinct (map parameter_name (ext_parameters d))" by (simp add: well_formed_def)
  with assms(2) extension_values_Inr [of "ext_parameters d" args "[]"] obtain vals where
    v: "extension_values (ext_parameters d) args [] = Inr vals"
    "\<forall>p \<in> set (ext_parameters d). map_ok Some (required_string args (parameter_name p)) = Inr (bt_get vals (parameter_name p))"
    by auto
  with assms(2) have b: "\<forall>p \<in> set (ext_parameters d). bt_get vals (parameter_name p) = Some (f (parameter_name p))"
    by (auto simp: map_ok_def)
  then have r: "resolve d vals = Inr (map (filled (bt_get vals)) (ext_arguments d))"
    by (intro resolve_filled [OF w]) auto
  have "filled (bt_get vals) a = filled (\<lambda>n. Some (f n)) a" if "a \<in> set (ext_arguments d)" for a
  proof -
    from w that obtain ps where ps: "pieces a = Some ps" "slots ps \<subseteq> parameter_name ` set (ext_parameters d)"
      by (auto simp: well_formed_def)
    have "fill (bt_get vals) p = fill (\<lambda>n. Some (f n)) p" if "p \<in> set ps" for p
    proof (cases p)
      case (Slot n)
      with that have "n \<in> slots ps" by (simp add: slots_def)
      with ps(2) b Slot show ?thesis by (auto simp: fill_def)
    qed (simp add: fill_def)
    then have "map (fill (bt_get vals)) ps = map (fill (\<lambda>n. Some (f n))) ps" by (intro map_cong) simp_all
    then show ?thesis by (simp only: filled_def ps(1) option.sel)
  qed
  with v(1) r show ?thesis by (simp add: extension_spec_def)
qed

end
