(* ===== verification/Command_Tool.thy ===== *)
theory Command_Tool
  imports Extension "HOL-Library.Sublist"
begin

text \<open>
  \<^verbatim>\<open>tools/command.rs\<close>, the call of a scripted extension in \<^verbatim>\<open>tools/extension.rs\<close> and the
  registry of \<^verbatim>\<open>tools/mod.rs\<close>. What the operating system does with a started process is an
  argument: the pieces its two outputs deliver, in the order they are read, and how it ended.
\<close>

section \<open>Captured output\<close>

text \<open>\<^verbatim>\<open>String::from_utf8_lossy\<close>: each maximal part that cannot be continued becomes U+FFFD.\<close>

definition utf8_need :: "char \<Rightarrow> nat" where
  "utf8_need c = (if between 0 0x7F c then 1 else if between 0xC2 0xDF c then 2 else if between 0xE0 0xEF c then 3
     else if between 0xF0 0xF4 c then 4 else 0)"

definition second_ok :: "char \<Rightarrow> char \<Rightarrow> bool" where
  "second_ok c x = (if between 0xE0 0xEF c
       then between (if between 0xE0 0xE0 c then 0xA0 else 0x80) (if between 0xED 0xED c then 0x9F else 0xBF) x
     else if between 0xF0 0xF4 c
       then between (if between 0xF0 0xF0 c then 0x90 else 0x80) (if between 0xF4 0xF4 c then 0x8F else 0xBF) x
     else is_cont x)"

definition utf8_have :: "char \<Rightarrow> string \<Rightarrow> nat" where
  "utf8_have c cs = (case cs of [] \<Rightarrow> 1
     | x # r \<Rightarrow> if \<not> second_ok c x then 1 else 2 + length (takeWhile is_cont (take (utf8_need c - 2) r)))"

definition REPLACEMENT :: string where
  "REPLACEMENT = [CHR 0xEF, CHR 0xBF, CHR 0xBD]"

function from_utf8_lossy :: "string \<Rightarrow> string" where
  "from_utf8_lossy [] = []"
| "from_utf8_lossy (c # cs) =
     (let need = utf8_need c in
      if need = 0 then REPLACEMENT @ from_utf8_lossy cs
      else if need = 1 then c # from_utf8_lossy cs
      else let have = utf8_have c cs in
        if have = need then c # take (need - 1) cs @ from_utf8_lossy (drop (need - 1) cs)
        else REPLACEMENT @ from_utf8_lossy (drop (have - 1) cs))"
  by pat_completeness auto
termination by (relation "measure length") auto

record CaptureBudget =
  remaining :: nat
  cut_short :: bool

definition CaptureBudget_new :: "nat \<Rightarrow> CaptureBudget" where
  "CaptureBudget_new limit = \<lparr>remaining = limit, cut_short = False\<rparr>"

text \<open>One read of either output, \<^verbatim>\<open>True\<close> for standard output.\<close>

definition capture_step :: "bool \<times> string \<Rightarrow> string \<times> string \<times> CaptureBudget \<Rightarrow> string \<times> string \<times> CaptureBudget" where
  "capture_step x s = (case (x, s) of ((from_stdout, chunk), (out, err, budget)) \<Rightarrow>
     let count = min (length chunk) (remaining budget); bytes = take count chunk;
       budget = budget\<lparr>remaining := remaining budget - count\<rparr>;
       budget = (if count < length chunk \<or> remaining budget = 0 then budget\<lparr>cut_short := True\<rparr> else budget) in
     if from_stdout then (out @ bytes, err, budget) else (out, err @ bytes, budget))"

definition capture_all :: "nat \<Rightarrow> (bool \<times> string) list \<Rightarrow> string \<times> string \<times> CaptureBudget" where
  "capture_all limit chunks = fold capture_step chunks ([], [], CaptureBudget_new limit)"

section \<open>A process\<close>

datatype Ending = Exited "i32 option" | Expired "i32 option" | Stopped "i32 option"

record ProcessTrace =
  trace_chunks :: "(bool \<times> string) list"
  trace_ending :: Ending
  trace_millis :: nat

record ProcessOutput =
  exit_code :: "i32 option"
  stdout :: string
  stderr :: string
  duration_millis :: nat
  was_truncated :: bool
  timed_out :: bool
  was_cancelled :: bool

definition process_output :: "nat \<Rightarrow> ProcessTrace \<Rightarrow> ProcessOutput" where
  "process_output limit trace = (case capture_all limit (trace_chunks trace) of (out, err, budget) \<Rightarrow>
     let (code, expired, stopped) = (case trace_ending trace of
         Exited c \<Rightarrow> (c, False, False) | Expired c \<Rightarrow> (c, True, False) | Stopped c \<Rightarrow> (c, False, True)) in
     \<lparr>exit_code = code, stdout = from_utf8_lossy out, stderr = from_utf8_lossy err,
       duration_millis = trace_millis trace, was_truncated = cut_short budget,
       timed_out = expired, was_cancelled = stopped\<rparr>)"

text \<open>The run of a process, which may fail to start or to be waited for.\<close>

type_synonym spawner = "string \<Rightarrow> string list \<Rightarrow> string \<Rightarrow> u64 \<Rightarrow> Host \<Rightarrow> (ProcessTrace, ToolError) result \<times> Host"

definition run_process :: "spawner \<Rightarrow> CommandSpec \<Rightarrow> string \<Rightarrow> u64 \<Rightarrow> nat \<Rightarrow> (ProcessOutput, ToolError) io" where
  "run_process spawn spec cwd timeout output_limit =
     io_bind (spawn (program spec) (arguments spec) cwd timeout)
       (\<lambda>trace. io_lift (Inr (process_output output_limit trace)))"

definition show_i32 :: "i32 \<Rightarrow> string" where
  "show_i32 c = (if sint c < 0 then ''-'' @ show_nat (nat (- sint c)) else show_nat (nat (sint c)))"

definition saturating_u64 :: "nat \<Rightarrow> u64" where
  "saturating_u64 n = (if int n < 2 ^ 64 then of_nat n else - 1)"

definition process_text :: "ProcessOutput \<Rightarrow> string" where
  "process_text r = ''exit_code: '' @ (case exit_code r of None \<Rightarrow> ''signal'' | Some c \<Rightarrow> show_i32 c) @ [CHR 0x0A]
     @ (if stdout r \<noteq> [] then ''stdout:'' @ [CHR 0x0A] @ stdout r else [])
     @ (if stderr r \<noteq> [] then [CHR 0x0A] @ ''stderr:'' @ [CHR 0x0A] @ stderr r else [])
     @ (if stdout r = [] \<and> stderr r = [] then ''(no output)'' else [])"

definition result_from_process :: "ProcessOutput \<Rightarrow> (ToolResult, ToolError) result" where
  "result_from_process r = (if was_cancelled r then Inl ToolError.Cancelled
     else let success = (exit_code r = Some 0 \<and> \<not> timed_out r);
       e = ToolEffect.Command (exit_code r) success (saturating_u64 (duration_millis r)) in
     Inr \<lparr>result_outcome = (if timed_out r then ToolOutcome.Failed ReasonCode.CommandTimeout
         else if success then ToolOutcome.Ok else ToolOutcome.Failed ReasonCode.ToolExecution),
       result_content = process_text r, truncated = was_truncated r, effect = e, evidence_event_id = None\<rparr>)"

section \<open>The workspace of a command\<close>

definition revalidate_workspace :: "Outside \<Rightarrow> string \<Rightarrow> (string, ToolError) io" where
  "revalidate_workspace w expected = io_bind (io_map_err preview_path_error (canonical_root w expected)) (\<lambda>canonical.
     io_lift (if canonical \<noteq> expected then Inl (ToolError.Refused ReasonCode.PathSymlinkEscape
         (''workspace '' @ expected @ '' now resolves to '' @ canonical @ ''; refusing to change command identity''))
       else Inr canonical))"

definition parse_spec :: "Json \<Rightarrow> (CommandSpec, ToolError) result" where
  "parse_spec args = and_then (required_string args ''program'') (\<lambda>p.
     map_ok (\<lambda>as. \<lparr>program = p, arguments = as\<rparr>) (string_array args ''arguments''))"

definition execute_spec :: "spawner \<Rightarrow> Outside \<Rightarrow> ToolContext \<Rightarrow> (CommandSpec, ToolError) result \<Rightarrow> (ToolResult, ToolError) io" where
  "execute_spec spawn w ctx spec = io_bind (io_lift spec) (\<lambda>spec.
     io_bind (revalidate_workspace w (workspace_root ctx)) (\<lambda>root.
     io_bind (run_process spawn spec root (command_timeout ctx) (max_output_bytes ctx)) (\<lambda>r.
     io_lift (result_from_process r))))"

definition run_command :: "spawner \<Rightarrow> Outside \<Rightarrow> ToolContext \<Rightarrow> Json \<Rightarrow> (ToolResult, ToolError) io" where
  "run_command spawn w ctx args = execute_spec spawn w ctx (parse_spec args)"

definition run_command_preview :: "Json \<Rightarrow> (string, ToolError) result" where
  "run_command_preview args = map_ok CommandSpec_display (parse_spec args)"

definition extension_execute :: "spawner \<Rightarrow> Outside \<Rightarrow> ToolContext \<Rightarrow> ExtensionDefinition \<Rightarrow> Json \<Rightarrow> (ToolResult, ToolError) io" where
  "extension_execute spawn w ctx d args = execute_spec spawn w ctx (extension_spec d args)"

section \<open>The registry\<close>

record ToolDefinition =
  tool_name :: string
  tool_description :: string
  tool_schema :: Json

type_synonym ToolRegistry = "ToolDefinition list"

definition registry_add :: "ToolDefinition \<Rightarrow> ToolRegistry \<Rightarrow> ToolRegistry" where
  "registry_add tool registry = (if list_all (\<lambda>t. tool_name t \<noteq> tool_name tool) registry then registry @ [tool] else registry)"

definition registry_get :: "string \<Rightarrow> ToolRegistry \<Rightarrow> ToolDefinition option" where
  "registry_get name registry = List.find (\<lambda>t. tool_name t = name) registry"

lemma registry_add_distinct: "distinct (map tool_name registry) \<Longrightarrow> distinct (map tool_name (registry_add tool registry))"
  by (auto simp: registry_add_def list_all_iff)

lemma registry_get_add: "registry_get name (registry_add tool registry) =
    (case registry_get name registry of Some t \<Rightarrow> Some t | None \<Rightarrow> if tool_name tool = name then Some tool else None)"
proof -
  have "List.find P (xs @ ys) = (case List.find P xs of Some t \<Rightarrow> Some t | None \<Rightarrow> List.find P ys)" for P :: "ToolDefinition \<Rightarrow> bool" and xs ys
    by (induction xs) auto
  moreover have "registry_get name registry \<noteq> None" if "\<not> list_all (\<lambda>t. tool_name t \<noteq> tool_name tool) registry" "tool_name tool = name"
    using that by (auto simp: registry_get_def find_None_iff list_all_iff)
  ultimately show ?thesis by (auto simp: registry_add_def registry_get_def split: option.split)
qed

section \<open>What is captured\<close>

definition stream :: "bool \<Rightarrow> (bool \<times> string) list \<Rightarrow> string" where
  "stream b chunks = concat (map snd (filter (\<lambda>(from_stdout, _). from_stdout = b) chunks))"

lemma capture_fold:
  assumes "fold capture_step chunks (out, err, budget) = (out', err', budget')"
  shows "\<exists>a b. out' = out @ a \<and> err' = err @ b \<and> prefix a (stream True chunks) \<and> prefix b (stream False chunks)
    \<and> length a + length b = min (remaining budget) (length (concat (map snd chunks)))
    \<and> remaining budget' = remaining budget - (length a + length b)
    \<and> (cut_short budget' \<longleftrightarrow> cut_short budget \<or> (chunks \<noteq> [] \<and> remaining budget \<le> length (concat (map snd chunks))))"
  using assms
proof (induction chunks arbitrary: out err budget)
  case Nil
  then show ?case by simp
next
  case (Cons x chunks)
  obtain o1 c where x: "x = (o1, c)" by force
  obtain out1 err1 b1 where s: "capture_step x (out, err, budget) = (out1, err1, b1)" by (metis prod_cases3)
  let ?n = "min (length c) (remaining budget)"
  have s1: "out1 = out @ (if o1 then take ?n c else [])" "err1 = err @ (if o1 then [] else take ?n c)"
    "remaining b1 = remaining budget - ?n"
    "cut_short b1 \<longleftrightarrow> cut_short budget \<or> ?n < length c \<or> remaining budget = ?n"
    using s x by (auto simp: capture_step_def Let_def split: if_splits)
  have "fold capture_step chunks (out1, err1, b1) = (out', err', budget')" using Cons.prems s by simp
  from Cons.IH [OF this] obtain a b where ab: "out' = out1 @ a" "err' = err1 @ b"
    "prefix a (stream True chunks)" "prefix b (stream False chunks)"
    "length a + length b = min (remaining b1) (length (concat (map snd chunks)))"
    "remaining budget' = remaining b1 - (length a + length b)"
    "cut_short budget' \<longleftrightarrow> cut_short b1 \<or> (chunks \<noteq> [] \<and> remaining b1 \<le> length (concat (map snd chunks)))"
    by (elim exE conjE) (rule that)
  show ?case
  proof (cases "length c \<le> remaining budget")
    case True
    then have n: "?n = length c" by simp
    show ?thesis
      using ab s1 x n True by (cases o1) (auto simp: stream_def min_def split: if_splits intro!: exI)
  next
    case False
    then have n: "?n = remaining budget" by simp
    with ab(5) s1(3) have "a = []" "b = []" by simp_all
    have "prefix (take (remaining budget) c) (c @ r)" for r
      by (rule prefix_order.trans [OF take_is_prefix]) simp
    with ab s1 x n False \<open>a = []\<close> \<open>b = []\<close> show ?thesis
      by (cases o1) (auto simp: stream_def min_def intro!: exI)
  qed
qed

lemma capture_all_spec:
  assumes "capture_all limit chunks = (out, err, budget)"
  shows "prefix out (stream True chunks) \<and> prefix err (stream False chunks)
    \<and> length out + length err = min limit (length (concat (map snd chunks)))
    \<and> (cut_short budget \<longleftrightarrow> chunks \<noteq> [] \<and> limit \<le> length (concat (map snd chunks)))"
  using capture_fold [OF assms [unfolded capture_all_def]] by (auto simp: CaptureBudget_new_def)

section \<open>Lossy decoding\<close>

lemma between_disjoint: "between a b c \<Longrightarrow> b < a' \<Longrightarrow> \<not> between a' b' c"
  by (auto simp: between_def)

lemma valid_utf8_step:
  assumes "valid_utf8 (c # cs)"
  shows "(utf8_need c = 1 \<and> valid_utf8 cs) \<or> (2 \<le> utf8_need c \<and> utf8_have c cs = utf8_need c
    \<and> utf8_need c - 1 \<le> length cs \<and> valid_utf8 (drop (utf8_need c - 1) cs))"
proof -
  consider "between 0 0x7F c" | "between 0xC2 0xDF c" | "between 0xE0 0xEF c" | "between 0xF0 0xF4 c"
    using assms by (auto split: if_splits)
  then show ?thesis
  proof cases
    case 2
    then have "\<not> between 0 0x7F c" "\<not> between 0xE0 0xEF c" "\<not> between 0xF0 0xF4 c" by (auto simp: between_def)
    with assms 2 show ?thesis by (auto simp: utf8_need_def utf8_have_def second_ok_def split: list.splits)
  next
    case 3
    then have "\<not> between 0 0x7F c" "\<not> between 0xC2 0xDF c" "\<not> between 0xF0 0xF4 c" by (auto simp: between_def)
    with assms 3 show ?thesis by (auto simp: utf8_need_def utf8_have_def second_ok_def split: list.splits)
  next
    case 4
    then have "\<not> between 0 0x7F c" "\<not> between 0xC2 0xDF c" "\<not> between 0xE0 0xEF c" by (auto simp: between_def)
    with assms 4 show ?thesis by (auto simp: utf8_need_def utf8_have_def second_ok_def numeral_eq_Suc split: list.splits)
  qed (use assms in \<open>simp add: utf8_need_def\<close>)
qed

lemma lossy_valid: "valid_utf8 s \<Longrightarrow> from_utf8_lossy s = s"
proof (induction s rule: length_induct)
  case (1 s)
  show ?case
  proof (cases s)
    case (Cons c cs)
    with "1.prems" have "valid_utf8 (c # cs)" by simp
    from valid_utf8_step [OF this] show ?thesis
    proof
      assume "utf8_need c = 1 \<and> valid_utf8 cs"
      with "1.IH" Cons show ?thesis by simp
    next
      assume a: "2 \<le> utf8_need c \<and> utf8_have c cs = utf8_need c \<and> utf8_need c - 1 \<le> length cs
        \<and> valid_utf8 (drop (utf8_need c - 1) cs)"
      then have "from_utf8_lossy (drop (utf8_need c - 1) cs) = drop (utf8_need c - 1) cs"
        using "1.IH" Cons by simp
      with a Cons show ?thesis by (simp add: Let_def)
    qed
  qed simp
qed

section \<open>Where a command runs\<close>

lemma revalidate_same: "revalidate_workspace w root h = (Inr r, k) \<Longrightarrow> r = root"
  by (auto simp: revalidate_workspace_def io_Inr split: if_splits)

lemma revalidate_real:
  assumes "still w" "is_absolute root" "names_ok (h_cwd h)" "revalidate_workspace w root h = (Inr r, k)"
  shows "\<exists>l. root = path_of l \<and> chain (h_files h) l \<and> node_at (h_files h) l = Some Directory \<and> ticks w h k"
proof -
  obtain k1 where c: "canonical_root w root h = (Inr root, k1)" and k: "k = k1"
    using assms(4) by (auto simp: revalidate_workspace_def io_Inr split: if_splits)
  then obtain k2 where f: "fs_canonicalize w root h = (Inr root, k2)" and d: "path_is_dir w root k2 = (True, k1)"
    by (auto simp: canonical_root_def io_Inr split: if_splits)
  have k2: "h_files k2 = h_files h" "h_cwd k2 = h_cwd h"
    using looksD [OF looks_canonicalize f] assms(1) ticks_still ticks_same by auto
  from f obtain l v where l: "root = path_of l" "locate (h_files h) (h_cwd h) True root = Inr l" "node_at (h_files h) l = Some v"
    using assms(1) by (auto simp: canonicalize_Inr still_tick)
  have "v = Directory"
    using d l k2 assms(1)
    by (auto simp: path_is_dir_def fs_metadata_def query_tick still_tick map_ok_def lookup_def split: option.splits sum.splits)
  with l locate_chain [OF l(2)] assms(2) looksD [OF looks_canonical_root c] k show ?thesis by auto
qed

text \<open>A command that runs, runs in the directory the session was opened on, as it still is.\<close>

lemma execute_spec_cases:
  assumes "execute_spec spawn w ctx spec h = (r, h')"
  shows "(\<exists>e. r = Inl e \<and> ticks w h h')
    \<or> (\<exists>s k. spec = Inr s \<and> revalidate_workspace w (workspace_root ctx) h = (Inr (workspace_root ctx), k)
         \<and> (case spawn (program s) (arguments s) (workspace_root ctx) (command_timeout ctx) k of
              (Inl e, k) \<Rightarrow> r = Inl e \<and> h' = k
            | (Inr trace, k) \<Rightarrow> r = result_from_process (process_output (max_output_bytes ctx) trace) \<and> h' = k))"
proof (cases spec)
  case (Inl e)
  with assms show ?thesis by (auto simp: execute_spec_def io_bind_def io_lift_def)
next
  case s: (Inr s)
  obtain v k where v: "revalidate_workspace w (workspace_root ctx) h = (v, k)" by force
  have t: "ticks w h k"
    using v unfolding revalidate_workspace_def
    by (rule looksD [rotated]) (intro looks_bind looks_map_err looks_canonical_root looks_lift)
  show ?thesis
  proof (cases v)
    case (Inl e)
    with assms s v t show ?thesis by (auto simp: execute_spec_def io_bind_def io_lift_def)
  next
    case (Inr root)
    then have root: "root = workspace_root ctx" using v revalidate_same by blast
    with assms s v Inr show ?thesis
      by (auto simp: execute_spec_def io_bind_def io_lift_def run_process_def split: prod.splits sum.splits)
  qed
qed

end
