(* ===== verification/Builtin_Write.thy ===== *)
theory Builtin_Write
  imports Builtin_Facts
begin

text \<open>
  What \<^verbatim>\<open>write_file\<close> does to the workspace: when no symbolic link is on the way to the
  requested location, only that file and the missing directories above it change, and a file
  that was there had been read. When the requested name is a link whose target is missing,
  the write goes through it, out of the workspace.
\<close>

section \<open>Resolving for a write\<close>

lemma find_ancestor_components:
  "find_ancestor w requested p missing h = (Inr (a, m), h') \<Longrightarrow> is_absolute p \<Longrightarrow>
     is_absolute a \<and> components a @ map Normal (rev m) = components p @ map Normal (rev missing)"
proof (induction w requested p missing h rule: find_ancestor.induct)
  case (1 w requested p missing h)
  obtain ex k where e: "path_exists w p h = (ex, k)" by force
  show ?case
  proof (cases "\<exists>name parent. \<not> ex \<and> path_file_name p = Some name \<and> path_parent p = Some parent")
    case True
    then obtain name parent where n: "\<not> ex" "path_file_name p = Some name" "path_parent p = Some parent" by blast
    with "1.prems" e have f: "find_ancestor w requested parent (missing @ [name]) k = (Inr (a, m), h')"
      by (simp add: find_ancestor.simps [of w requested p])
    note c = parent_components [OF "1.prems"(2) n(3,2)]
    from "1.IH" [OF e [symmetric] n f c(1)] c(2) show ?thesis by (metis append_Cons append_assoc append_Nil list.simps(9) rev.simps(2) rev_append rev_rev_ident append_Nil2 list.map(1) map_append rev_singleton_conv)
  next
    case False
    with "1.prems" e show ?thesis
      by (auto simp: find_ancestor.simps [of w requested p] split: if_splits option.splits)
  qed
qed

text \<open>The location a request names, before any link is followed.\<close>

definition lexical_location :: "string \<Rightarrow> string \<Rightarrow> location option" where
  "lexical_location root requested = (case lexical_candidate root requested of
      Inl _ \<Rightarrow> None | Inr candidate \<Rightarrow> Some (normals (components candidate)))"

lemma lexical_no_parent:
  "lexical_candidate root requested = Inr candidate \<Longrightarrow> is_absolute root \<Longrightarrow> ParentDir \<notin> set (components root) \<Longrightarrow>
     ParentDir \<notin> set (components candidate)"
proof -
  have c: "ParentDir \<in> set (components p) \<longleftrightarrow> ''..'' \<in> set (segments p)" for p
    by (simp add: components_def segment_components_ParentDir)
  assume l: "lexical_candidate root requested = Inr candidate" and r: "is_absolute root" "ParentDir \<notin> set (components root)"
  have q: "ParentDir \<notin> set (components requested)"
    using l by (auto simp: lexical_candidate_def split: if_splits)
  show ?thesis
  proof (cases "is_absolute requested")
    case True
    with l q show ?thesis by (auto simp: lexical_candidate_def Let_def split: if_splits)
  next
    case False
    with l have e: "candidate = path_push root requested"
      by (auto simp: lexical_candidate_def Let_def split: if_splits)
    have "set (segments (path_push root requested)) \<subseteq> set (segments root) \<union> set (segments requested)"
    proof (cases "last root = CHR ''/''")
      case True
      have "root \<noteq> []" using r(1) by (auto simp: is_absolute_def)
      with True have "root = butlast root @ ''/''" by (metis append_butlast_last_id)
      then obtain p where p: "root = p @ CHR ''/'' # []" by blast
      with False show ?thesis by (auto simp: path_push_def segments_append)
    next
      case ne: False
      with False r(1) show ?thesis by (auto simp: path_push_def segments_append is_absolute_def split: list.splits)
    qed
    with q r(2) e c show ?thesis by blast
  qed
qed

lemma for_write_clear:
  assumes s: "still w" and r: "is_absolute root" "ParentDir \<notin> set (components root)"
    and l: "lexical_location root requested = Some l" "clear (h_files h) l"
    and f: "for_write w root requested h = (Inr p, h')"
  shows "p = path_of l \<and> names_ok l"
proof -
  obtain c where c: "lexical_candidate root requested = Inr c" and lc: "l = normals (components c)"
    using l(1) by (auto simp: lexical_location_def split: sum.splits)
  have a: "is_absolute c" using lexical_absolute [OF r(1) c] .
  have n: "ParentDir \<notin> set (components c)" using lexical_no_parent [OF c r] .
  note comp = absolute_components(1) [OF a n]
  have ok: "names_ok l"
    using components_Normal lc comp by (metis imageI list.set_intros(2) list.set_map names_ok_def)
  obtain ex k where e: "path_exists w c h = (ex, k)" by force
  have k: "h_files k = h_files h" using ticks_still [OF s path_exists_ticks [OF e]] .
  show ?thesis
  proof (cases ex)
    case True
    with f c e have "existing w root requested k = (Inr p, h')"
      by (simp add: for_write_def io_bind_def io_lift_def io_total_def)
    then obtain k2 where "fs_canonicalize w c k = (Inr p, k2)"
      using c by (auto simp: existing_def io_Inr contained_def split: if_splits)
    then obtain m where "p = path_of m" "locate (h_files k) (h_cwd k) True c = Inr m"
      using s by (auto simp: canonicalize_Inr still_tick)
    with locate_plain [OF _ a n] l(2) k lc ok show ?thesis by auto
  next
    case False
    with f c e obtain b m k2 c2 k3 where
      fa: "find_ancestor w requested c [] k = (Inr (b, m), k2)"
      and can: "fs_canonicalize w b k2 = (Inr c2, k3)"
      and p: "p = fold (\<lambda>c p. path_push p c) (rev m) c2"
      by (auto simp: for_write_def io_Inr split: if_splits)
    have b: "is_absolute b" "components b @ map Normal (rev m) = components c"
      using find_ancestor_components [OF fa a] by simp_all
    have nb: "ParentDir \<notin> set (components b)" using n b(2) by (metis Un_iff set_append)
    have lb: "l = normals (components b) @ rev m" using lc b(2) by (metis normals_append normals_map)
    have k2: "h_files k2 = h_files h" using ticks_still [OF s find_ancestor_ticks [OF fa]] k by simp
    from can obtain x where x: "c2 = path_of x" "locate (h_files h) (h_cwd k2) True b = Inr x"
      using s k2 by (auto simp: canonicalize_Inr still_tick)
    have "clear (h_files h) (normals (components b))" using l(2) lb by (auto elim: clear_prefix)
    with locate_plain [OF x(2) b(1) nb] have "x = normals (components b)" by simp
    with x(1) p lb ok push_names [of x "rev m"] show ?thesis by simp
  qed
qed

section \<open>Creating the directories\<close>

lemma path_parent_path_of:
  "names_ok l \<Longrightarrow> path_parent (path_of l) = (if l = [] then None else Some (path_of (butlast l)))"
  by (cases l rule: rev_cases) (simp_all add: parent_path_of names_ok_def)

lemma is_dir_frame: "still w \<Longrightarrow> path_is_dir w p h = (d, h') \<Longrightarrow> frame h h' \<and> h_files h' = h_files h"
  using path_is_dir_ticks ticks_same ticks_still unfolding frame_def by blast

lemma create_dir_all_grown:
  assumes "still w" "names_ok l" "clear (h_files h) l" "fs_create_dir_all w (path_of l) h = (r, h')"
  shows "frame h h' \<and> grown (h_files h) (h_files h') l"
  using assms
proof (induction l arbitrary: h r h' rule: rev_induct)
  case Nil
  obtain e k where k: "fs_mkdir w ''/'' h = (e, k)" by force
  have g: "frame h k \<and> grown (h_files h) (h_files k) []" using fs_mkdir_grown [of w "[]" h e k] Nil k by simp
  obtain d j where j: "path_is_dir w ''/'' k = (d, j)" by force
  note i = is_dir_frame [OF Nil(1) j]
  from Nil(4) k j i g show ?case
    by (subst (asm) fs_create_dir_all.simps)
      (auto split: sum.splits if_splits intro: frame_trans)
next
  case (snoc s l)
  let ?l = "l @ [s]" and ?p = "path_of (l @ [s])"
  have n: "names_ok l" "clear (h_files h) l"
    using snoc.prems by (auto elim: clear_prefix)
  have pp: "path_parent ?p = Some (path_of l)" using path_parent_path_of [OF snoc.prems(2)] by simp
  obtain e k where k: "fs_mkdir w ?p h = (e, k)" by force
  note g = fs_mkdir_grown [OF snoc.prems(1-3) k]
  obtain d j where j: "path_is_dir w ?p k = (d, j)" by force
  note i = is_dir_frame [OF snoc.prems(1) j]
  obtain e2 k2 where k2: "fs_create_dir_all w (path_of l) k = (e2, k2)" by force
  have "clear (h_files k) l" using g n(2) grown_clear by blast
  note g2 = snoc.IH [OF snoc.prems(1) n(1) this k2]
  have g2': "frame h k2" "grown (h_files h) (h_files k2) ?l"
    using g g2 grown_trans [OF _ grown_longer [of "h_files k" "h_files k2" l ?l]] by (auto intro: frame_trans)
  obtain e3 k3 where k3: "fs_mkdir w ?p k2 = (e3, k3)" by force
  have "clear (h_files k2) ?l" using g2'(2) snoc.prems(3) grown_clear by blast
  note g3 = fs_mkdir_grown [OF snoc.prems(1,2) this k3]
  have g3': "frame h k3" "grown (h_files h) (h_files k3) ?l"
    using g2' g3 by (auto intro: frame_trans grown_trans)
  obtain d3 j3 where j3: "path_is_dir w ?p k3 = (d3, j3)" by force
  note i3 = is_dir_frame [OF snoc.prems(1) j3]
  from snoc.prems(4) k j k2 k3 j3 pp have "h' = h \<or> h' = k \<or> h' = j \<or> h' = k2 \<or> h' = k3 \<or> h' = j3"
    by (subst (asm) fs_create_dir_all.simps)
      (auto simp: mkdir_unless_dir_def split: sum.splits if_splits)
  with g i g2' g3' i3 show ?case by (auto intro: frame_trans)
qed

section \<open>Writing\<close>

definition wrote :: "Outside \<Rightarrow> string \<Rightarrow> location \<Rightarrow> string \<Rightarrow> Host \<Rightarrow> ToolResult \<Rightarrow> Host \<Rightarrow> bool" where
  "wrote w root l new h x h' \<longleftrightarrow> inside_workspace root (path_of l)
     \<and> node_at (h_files h') l = Some (File new)
     \<and> (\<exists>fs. grown (h_files h) fs (butlast l) \<and> h_files h' = bt_insert l (File new) fs)
     \<and> (case node_at (h_files h) l of None \<Rightarrow> True
        | Some v \<Rightarrow> \<exists>old. v = File old \<and> bt_get (read_files (h_reads h)) (path_of l) = Some (file_hash w old))
     \<and> h_reads h' = (h_reads h)\<lparr>read_files := bt_insert (path_of l) (file_hash w new) (read_files (h_reads h))\<rparr>
     \<and> x = written ''wrote'' root (path_of l) (file_hash w new)"

lemma quiet_exists: "quiet w \<Longrightarrow> path_exists w p h = (ex, k) \<Longrightarrow> ex = is_ok (lookup (h_files h) (h_cwd h) True p)"
  by (auto simp: path_exists_def fs_metadata_def quiet_query is_ok_def map_ok_def split: sum.splits)

lemma checks_exists: "checks w (io_total (path_exists w p))"
  by (rule checks_total) (rule path_exists_ticks)

lemma write_body_holds:
  assumes q: "quiet w" and r: "is_absolute root" "ParentDir \<notin> set (components root)"
    and c: "names_ok (h_cwd h)" "fs_wf (h_files h)" "\<not> poisoned (h_reads h)"
    and l: "lexical_location root requested = Some l" "clear (h_files h) l"
  shows "holds (write_body w root requested new) h (\<lambda>r k. case r of
      Inl e \<Rightarrow> bad e \<and> grown (h_files h) (h_files k) (butlast l) \<and> h_reads k = h_reads h
    | Inr x \<Rightarrow> wrote w root l new h x k)"
proof -
  note s = quiet_still [OF q]
  have stay: "h_files k = h_files h \<and> h_reads k = h_reads h \<and> h_cwd k = h_cwd h" if "ticks w h k" for k
    using that ticks_still [OF s] ticks_same by blast
  show ?thesis unfolding write_body_def
  proof (rule holds_check [OF checks_refusal [OF looks_for_write]], goal_cases)
    case (2 path k1)
    note t1 = "2"(2)
    from "2"(1) have fw: "for_write w root requested h = (Inr path, k1)" by (simp add: or_answer_Inr)
    from for_write_clear [OF s r l fw] have p: "path = path_of l" and ok: "names_ok l" by simp_all
    have inside: "inside_workspace root (path_of l)" using for_write_contained [OF c(1) fw] p by simp
    show ?case
    proof (rule holds_check [OF checks_exists], goal_cases)
      case (2 ex k2)
      note t2 = ticks_trans [OF t1 "2"(2)]
      have ex: "ex = is_ok (lookup (h_files h) (h_cwd h) True (path_of l))"
        using quiet_exists [OF q, of path k1 ex k2] "2"(1) p stay [OF t1] by (simp add: io_total_Inr)
      have ck: "checks w (if ex then or_answer id (observed_text w path) else io_lift (Inr ([], [])))"
        using checks_observed_text by (auto intro: checks_lift)
      show ?case
      proof (rule holds_check [OF ck], goal_cases)
        case (2 y k3)
        note t3 = ticks_trans [OF t2 "2"(2)]
        have old: "case node_at (h_files h) l of None \<Rightarrow> True
          | Some v \<Rightarrow> \<exists>old. v = File old \<and> bt_get (read_files (h_reads h)) (path_of l) = Some (file_hash w old)"
          if short: "int (length (path_of l)) < PATH_MAX"
        proof (cases "node_at (h_files h) l")
          case (Some v)
          have v: "\<forall>t. v \<noteq> Symlink t" using l(2) Some by (auto simp: clear_def)
          have lk: "lookup (h_files h) (h_cwd h) True (path_of l) = Inr (l, v)"
            using locate_direct [OF fs_wf_chain [OF c(2)] ok _ short] v Some by (simp add: lookup_Inr)
          then have "ex" using ex by (simp add: is_ok_def)
          with "2"(1) obtain t b where "observed_text w path k2 = (Inr (t, b), k3)"
            by (cases y) (auto simp: or_answer_Inr)
          from observed_text_Inr [OF s this] stay [OF t2] lk p Some show ?thesis by auto
        qed simp
        show ?case
        proof (rule holds_check [OF checks_cancelled], goal_cases)
          case (2 u k4)
          note t4 = ticks_trans [OF t3 "2"(2)]
          show ?case
          proof (rule holds_bind, goal_cases)
            case (1 e k)
            then show ?case using stay [OF t4] by (auto simp: io_lift_eq ToolResult_failed_def split: option.splits)
          next
            case (2 parent k5)
            then have k5: "k5 = k4" and "l \<noteq> []" and pa: "parent = path_of (butlast l)"
              using path_parent_path_of [OF ok] p by (auto simp: io_lift_eq split: option.splits if_splits)
            have cl: "clear (h_files h) (butlast l)" using l(2) by (auto elim: clear_prefix simp: prefixeq_butlast)
            show ?case
            proof (rule holds_bind, goal_cases)
              case (1 e k6)
              then obtain x where "fs_create_dir_all w (path_of (butlast l)) k4 = (Inl x, k6)" "bad e"
                using pa k5 by (auto simp: or_error_def io_map_err_Inl)
              with create_dir_all_grown [OF s names_ok_butlast [OF ok], of k4 "Inl x" k6] cl stay [OF t4]
              show ?case by (simp add: frame_def)
            next
              case (2 z k6)
              then have "fs_create_dir_all w (path_of (butlast l)) k4 = (Inr z, k6)"
                using pa k5 by (simp add: or_error_Inr)
              with create_dir_all_grown [OF s names_ok_butlast [OF ok], of k4 "Inr z" k6] cl stay [OF t4]
              have g: "grown (h_files h) (h_files k6) (butlast l)" "h_reads k6 = h_reads h" by (simp_all add: frame_def)
              have cl6: "clear (h_files k6) l" using grown_clear [OF g(1) l(2)] .
              have stay6: "h_files k = h_files k6 \<and> h_reads k = h_reads h" if "ticks w k6 k" for k
                using that ticks_still [OF s] ticks_same g(2) by metis
              show ?case
              proof (rule holds_check [OF checks_refusal [OF looks_for_write]], goal_cases)
                case (2 path2 k7)
                from "2"(1) have "for_write w root requested k6 = (Inr path2, k7)" by (simp add: or_answer_Inr)
                from for_write_clear [OF s r l(1) cl6 this] have p2: "path2 = path_of l" by simp
                note t7 = "2"(2)
                show ?case
                proof (rule holds_check [OF checks_cancelled], goal_cases)
                  case (2 u k8)
                  note t8 = ticks_trans [OF t7 "2"(2)]
                  note k8 = stay6 [OF t8]
                  have w9: "h_reads k9 = h_reads h \<and> (case x of Inl _ \<Rightarrow> h_files k9 = h_files k6
                      | Inr _ \<Rightarrow> h_files k9 = bt_insert l (File new) (h_files k6))"
                    if "fs_write w (path_of l) new k8 = (x, k9)" for x k9
                    using that k8 q
                    by (auto dest!: locate_path_of [OF _ ok cl6] simp: quiet_write replace_file_def still_tick [OF s] split: if_splits sum.splits)
                  show ?case
                  proof (rule holds_bind, goal_cases)
                    case (1 e k9)
                    then obtain x where "fs_write w (path_of l) new k8 = (Inl x, k9)" "bad e"
                      using p2 by (auto simp: or_error_def io_map_err_Inl)
                    with w9 g show ?case by fastforce
                  next
                    case (2 v k9)
                    then have "fs_write w (path_of l) new k8 = (Inr v, k9)" using p2 by (simp add: or_error_Inr)
                    then have "int (length (path_of l)) < PATH_MAX"
                      using q by (auto simp: quiet_write replace_file_def split: sum.splits dest: locate_short)
                    note old = old [OF this]
                    from w9 [OF \<open>fs_write w (path_of l) new k8 = (Inr v, k9)\<close>] have k9: "h_reads k9 = h_reads h" "h_files k9 = bt_insert l (File new) (h_files k6)" by simp_all
                    then show ?case using p2 g(1) old inside c(3) \<open>l \<noteq> []\<close>
                      by (auto simp: io_bind_def or_error_def io_map_err_def observe_eq io_lift_def holds_def wrote_def node_at_insert)
                  qed
                qed (use stay6 [OF ticks_trans [OF t7]] g in simp)
              qed (auto dest!: stay6 simp: g)
            qed
          qed
        qed (use stay [OF ticks_trans [OF t3]] in simp)
      qed (use stay [OF ticks_trans [OF t2]] in simp)
    qed (use stay [OF ticks_trans [OF t1]] in simp_all)
  qed (auto dest!: stay)
qed

lemma write_file_effect:
  assumes "quiet w" "is_absolute (workspace_root ctx)" "ParentDir \<notin> set (components (workspace_root ctx))"
    "names_ok (h_cwd h)" "fs_wf (h_files h)" "\<not> poisoned (h_reads h)"
    "requested_path args = Inr requested" "lexical_location (workspace_root ctx) requested = Some l"
    "clear (h_files h) l" "write_file w ctx args h = (r, h')"
  shows "(bad r \<and> grown (h_files h) (h_files h') (butlast l) \<and> h_reads h' = h_reads h)
    \<or> (\<exists>new x. required_string args ''content'' = Inr new \<and> r = Inr x \<and> wrote w (workspace_root ctx) l new h x h')"
proof -
  consider e where "r = Inl e" "h' = h"
    | new where "required_string args ''content'' = Inr new"
        "answer (write_body w (workspace_root ctx) requested new) h = (r, h')"
    using assms(7,10) by (auto simp: write_file_def io_bind_def io_lift_def split: sum.splits)
  then show ?thesis
  proof cases
    case (2 new)
    from answer_holds [OF write_body_holds [OF assms(1-6,8,9), of new]] 2 show ?thesis by auto
  qed simp
qed

section \<open>A write through a dangling link\<close>

definition calm_outside :: Outside where
  "calm_outside = \<lparr>o_meddle = (\<lambda>_ fs. fs), o_fault = (\<lambda>_. None), o_torn = (\<lambda>_. None),
     o_entry = (\<lambda>_ _. None), o_cancel = (\<lambda>_. False), o_dir_len = 4096, o_sha256 = (\<lambda>_. []), o_diff = (\<lambda>_ _ _ _. [])\<rparr>"

lemma quiet_calm: "quiet calm_outside"
  by (simp add: quiet_def still_def calm_outside_def)

definition linked_host :: Host where
  "linked_host = \<lparr>h_files = [([''etc''], Directory), ([''w''], Directory), ([''w'', ''a''], Symlink ''/etc/new'')],
     h_cwd = [], h_time = 0, h_reads = ReadSet_default\<rparr>"

definition small_ctx :: ToolContext where
  "small_ctx = \<lparr>workspace_root = ''/w'', max_output_bytes = 100, command_timeout = 1\<rparr>"

definition link_args :: Json where
  "link_args = JObject [(''path'', JString ''a''), (''content'', JString ''x'')]"

lemma write_escapes:
  "case write_file calm_outside small_ctx link_args linked_host of
     (Inr x, h') \<Rightarrow> result_outcome x = ToolOutcome.Ok \<and> effect x = ToolEffect.Mutation ''a'' []
       \<and> node_at (h_files linked_host) [''etc'', ''new''] = None
       \<and> node_at (h_files h') [''etc'', ''new''] = Some (File ''x'')
   | _ \<Rightarrow> False"
  by code_simp

end
