(* ===== verification/Search_Tool.thy ===== *)
theory Search_Tool
  imports Listing Command_Tool Builtin_Write
begin

text \<open>
  \<^verbatim>\<open>search_text\<close> of \<^verbatim>\<open>tools/search.rs\<close>: ripgrep when it is installed (\<^verbatim>\<open>find_rg\<close>, looked up on the
  path of the system), and the walk over the files otherwise or when ripgrep fails.
\<close>

definition search_preview :: "(string \<Rightarrow> string) \<Rightarrow> Json \<Rightarrow> (string, ToolError) result" where
  "search_preview show_debug args = map_ok (\<lambda>needle. ''search for '' @ show_debug needle) (required_string args ''query'')"

definition search_fallback :: "Outside \<Rightarrow> string \<Rightarrow> nat \<Rightarrow> string \<Rightarrow> string \<Rightarrow> nat \<Rightarrow> ToolResult body" where
  "search_fallback w root max_output start needle max_results =
     io_bind (or_error id (fallback_walk (nat PATH_MAX) w root needle max_results start [])) (\<lambda>matches.
       let (rendered, bytes) = truncate_output (join_with [CHR 0x0A] (sort matches)) max_output in
       io_lift (Inr (touched rendered (max_results \<le> length matches \<or> bytes) ToolEffect.NoEffect)))"

definition search_text ::
  "string option \<Rightarrow> spawner \<Rightarrow> (string \<Rightarrow> Json option) \<Rightarrow> Outside \<Rightarrow> ToolContext \<Rightarrow> Json \<Rightarrow> (ToolResult, ToolError) io" where
  "search_text find_rg spawn parse w ctx args = io_bind (io_lift (required_string args ''query'')) (\<lambda>needle.
     let root = workspace_root ctx; max_results = unat (optional_u64 args ''max_results'' 100) in
     answer (io_bind (or_answer files_refusal (existing w root (requested_or_dot args))) (\<lambda>start.
       case find_rg of
         None \<Rightarrow> search_fallback w root (max_output_bytes ctx) start needle max_results
       | Some rg \<Rightarrow> io_bind (or_error id (run_process spawn
             \<lparr>program = rg, arguments = rg_arguments needle (display_path root start)\<rparr> root (command_timeout ctx)
             (nat (min (4 * int (max_output_bytes ctx)) (2 ^ 64 - 1)))))
           (\<lambda>r. if was_cancelled r then io_lift (Inl (Inl ToolError.Cancelled))
             else if \<not> timed_out r \<and> (exit_code r = Some 0 \<or> exit_code r = Some 1)
             then io_lift (Inr (render_rg parse (stdout r) max_results (max_output_bytes ctx) (was_truncated r)))
             else search_fallback w root (max_output_bytes ctx) start needle max_results))))"

text \<open>A search of the whole workspace hands ripgrep an empty path.\<close>

lemma whole_search_names_nothing: "display_path root root = []"
  by (simp add: display_path_def path_starts_with_def join_with_def)

text \<open>A fallback search that succeeds found no more matches than it was asked for.\<close>

lemma search_fallback_bound:
  assumes "search_fallback w root max_output start needle m h = (Inr x, k)"
  shows "\<exists>ms. length ms \<le> m
    \<and> result_content x = fst (truncate_output (join_with [CHR 0x0A] (sort ms)) max_output)"
proof -
  obtain ms k1 where "fallback_walk (nat PATH_MAX) w root needle m start [] h = (Inr ms, k1)"
    and x: "x = touched (fst (truncate_output (join_with [CHR 0x0A] (sort ms)) max_output))
      (m \<le> length ms \<or> snd (truncate_output (join_with [CHR 0x0A] (sort ms)) max_output)) ToolEffect.NoEffect"
    using assms by (auto simp: search_fallback_def io_bind_Inr or_error_Inr io_lift_eq Let_def case_prod_beta)
  from fallback_walk_bound [OF this(1)] x show ?thesis by (auto simp: touched_def)
qed

text \<open>
  The file may appear between the check and the write of \<^verbatim>\<open>write_file\<close>: it is replaced unread. An
  edit resolves its target again before the effect, but neither reads it again.
\<close>

definition late_outside :: Outside where
  "late_outside = calm_outside\<lparr>o_meddle := (\<lambda>n fs. if n = 5 then bt_insert [''w'', ''a''] (File ''new'') fs else fs)\<rparr>"

definition empty_host :: Host where
  "empty_host = \<lparr>h_files = [([''w''], Directory)], h_cwd = [], h_time = 0, h_reads = ReadSet_default\<rparr>"

lemma write_replaces_unread:
  "case write_file late_outside small_ctx link_args empty_host of
     (Inr x, h') \<Rightarrow> result_outcome x = ToolOutcome.Ok \<and> node_at (h_files h') [''w'', ''a''] = Some (File ''x'')
       \<and> node_at (o_meddle late_outside 5 (h_files empty_host)) [''w'', ''a''] = Some (File ''new'')
   | _ \<Rightarrow> False"
  by code_simp

text \<open>Matches are counted without overlap, so a text that occurs twice may pass for unique.\<close>

lemma overlapping_match_passes: "exact_replacement ''aaa'' ''aa'' ''b'' = Inr ''ba''"
  by code_simp

text \<open>Output that fits the limit exactly is reported as cut short.\<close>

lemma exact_fit_is_cut_short: "capture_all 2 [(True, ''ab'')] = (''ab'', [], \<lparr>remaining = 0, cut_short = True\<rparr>)"
  by code_simp

end
