(* ===== verification/Tool_Properties.thy ===== *)
theory Tool_Properties
  imports Search_Tool
begin

text \<open>
  What the built-in tools promise: paths stay in the workspace, edits and writes change only
  what was read, listings are complete, commands run where the session was opened, and their
  output is bounded. The witnesses run the tools on a small file system.
\<close>

section \<open>A small workspace\<close>

definition read_reads :: ReadSet where
  "read_reads = \<lparr>read_files = [(''/w/a'', [])], poisoned = False\<rparr>"

definition plain_host :: Host where
  "plain_host = \<lparr>h_files = [([''etc''], Directory), ([''w''], Directory), ([''w'', ''a''], File ''one two''),
     ([''w'', ''b''], Directory)], h_cwd = [], h_time = 0, h_reads = read_reads\<rparr>"

definition edit_args :: Json where
  "edit_args = JObject [(''path'', JString ''a''), (''old'', JString ''one''), (''new'', JString ''1'')]"

definition write_args :: Json where
  "write_args = JObject [(''path'', JString ''b/c/d''), (''content'', JString ''x'')]"

lemma still_calm: "still calm_outside"
  using quiet_calm by (rule quiet_still)

lemma plain_cwd: "names_ok (h_cwd plain_host)"
  by (simp add: plain_host_def)

lemma node_at_plain: "node_at (h_files plain_host) l = (if l = [] \<or> l = [''etc''] \<or> l = [''w''] \<or> l = [''w'', ''b''] then Some Directory
    else if l = [''w'', ''a''] then Some (File ''one two'') else None)"
  by (auto simp: node_at_def plain_host_def bt_get_def)

lemma plain_wf: "fs_wf (h_files plain_host)"
  by (auto simp: fs_wf_def node_at_plain append_eq_Cons_conv split: if_splits)

lemma plain_clear: "clear (h_files plain_host) l"
  by (simp add: clear_def node_at_plain)

text \<open>
  C17: Whatever other processes do to the file system meanwhile and whichever calls fail, a path
  that \<^verbatim>\<open>existing\<close> or \<^verbatim>\<open>for_write\<close> resolves begins with the components of the workspace root, and
  has no parent component; a request with one is refused before the file system is asked.
\<close>

theorem resolved_paths_stay_inside:
  assumes "names_ok (h_cwd h)"
  shows "(case existing w root requested h of (Inr p, _) \<Rightarrow> inside_workspace root p | _ \<Rightarrow> True)
    \<and> (case for_write w root requested h of (Inr p, _) \<Rightarrow> inside_workspace root p | _ \<Rightarrow> True)
    \<and> (ParentDir \<in> set (components requested) \<longrightarrow>
        (\<exists>r. for_write w root requested h = (Inl r, h) \<and> refusal_code r = ReasonCode.PathOutsideWorkspace))"
proof (intro conjI impI)
  show "case existing w root requested h of (Inr p, _) \<Rightarrow> inside_workspace root p | _ \<Rightarrow> True"
    using existing_contained [OF assms] by (auto split: prod.split sum.split)
  show "case for_write w root requested h of (Inr p, _) \<Rightarrow> inside_workspace root p | _ \<Rightarrow> True"
    using for_write_contained [OF assms] by (auto split: prod.split sum.split)
  assume "ParentDir \<in> set (components requested)"
  then show "\<exists>r. for_write w root requested h = (Inl r, h) \<and> refusal_code r = ReasonCode.PathOutsideWorkspace"
    by (simp add: for_write_def lexical_candidate_def io_bind_def io_lift_def outside_def)
qed

theorem resolved_paths_stay_inside_witness:
  "(case existing calm_outside ''/w'' ''../etc'' plain_host of (Inr p, _) \<Rightarrow> inside_workspace ''/w'' p | _ \<Rightarrow> True)
   \<and> (\<exists>r. for_write calm_outside ''/w'' ''../etc'' plain_host = (Inl r, plain_host))"
proof -
  have "ParentDir \<in> set (components ''../etc'')" by code_simp
  with resolved_paths_stay_inside [OF plain_cwd, where w = calm_outside and root = "''/w''" and requested = "''../etc''"]
  show ?thesis by auto
qed

text \<open>
  C11: Let no other process touch the files, while any call may fail. An \<^verbatim>\<open>edit_file\<close> that does not
  answer with success changes nothing, unless it answers that the file could not be written:
  then that one file may be left with a beginning of the new text, which the session does not
  have as read. One that does answer with success replaced the only match of the old text, changed
  no other file, and the session has the new version as read. In both cases the file was a
  regular one inside the workspace, not reached through a link, whose whole content had the
  version the session last read.
\<close>

theorem edits_change_what_was_read:
  assumes "still w" "is_absolute (workspace_root ctx)" "names_ok (h_cwd h)"
    and "edit_file w ctx args h = (r, h')"
  shows "(bad r \<and> h_files h' = h_files h \<and> h_reads h' = h_reads h)
    \<or> (\<exists>old new l pre post. required_string args ''old'' = Inr old \<and> required_string args ''new'' = Inr new
        \<and> inside_workspace (workspace_root ctx) (path_of l)
        \<and> node_at (h_files h) l = Some (File (pre @ old @ post)) \<and> match_count old (pre @ old @ post) = 1
        \<and> bt_get (read_files (h_reads h)) (path_of l) = Some (file_hash w (pre @ old @ post))
        \<and> ((\<exists>x. r = Inr x \<and> h_files h' = bt_insert l (File (pre @ new @ post)) (h_files h)
             \<and> bt_get (read_files (h_reads h')) (path_of l) = Some (file_hash w (pre @ new @ post))
             \<and> effect x = ToolEffect.Mutation (display_path (workspace_root ctx) (path_of l)) (file_hash w (pre @ new @ post)))
          \<or> (\<exists>d k. r = Inl (ToolError.Execution (''cannot edit '' @ path_of l @ '': '' @ d))
             \<and> h_files h' = bt_insert l (File (take k (pre @ new @ post))) (h_files h) \<and> h_reads h' = h_reads h)))"
  using edit_file_effect [OF assms]
proof (elim disjE exE conjE, goal_cases)
  case (2 old new e)
  from "2"(4) obtain l pre post d where "edit_target w (workspace_root ctx) h l (pre @ old @ post)"
    "match_count old (pre @ old @ post) = 1" "torn l (pre @ new @ post) (h_files h) (h_files h')" "h_reads h' = h_reads h"
    "e = ToolError.Execution (''cannot edit '' @ path_of l @ '': '' @ d)" by (auto simp: edit_failed_def)
  with 2 show ?case
    by (intro disjI2 exI [of _ old] exI [of _ new] exI [of _ l] exI [of _ pre] exI [of _ post])
      (auto simp: edit_target_def torn_def)
next
  case (3 old new x)
  from "3"(4) obtain l pre post where "edit_target w (workspace_root ctx) h l (pre @ old @ post)"
    "match_count old (pre @ old @ post) = 1" "h_files h' = bt_insert l (File (pre @ new @ post)) (h_files h)"
    "h_reads h' = (h_reads h)\<lparr>read_files := bt_insert (path_of l) (file_hash w (pre @ new @ post)) (read_files (h_reads h))\<rparr>"
    "x = written ''edited'' (workspace_root ctx) (path_of l) (file_hash w (pre @ new @ post))" by (auto simp: edited_def)
  with 3 show ?case
    by (intro disjI2 exI [of _ old] exI [of _ new] exI [of _ l] exI [of _ pre] exI [of _ post])
      (auto simp: edit_target_def written_def touched_def)
qed simp

theorem edits_change_what_was_read_witness:
  "\<exists>old new x l pre post. required_string edit_args ''old'' = Inr old \<and> required_string edit_args ''new'' = Inr new
     \<and> fst (edit_file calm_outside small_ctx edit_args plain_host) = Inr x
     \<and> node_at (h_files plain_host) l = Some (File (pre @ old @ post))
     \<and> h_files (snd (edit_file calm_outside small_ctx edit_args plain_host)) = bt_insert l (File (pre @ new @ post)) (h_files plain_host)"
proof -
  have "case fst (edit_file calm_outside small_ctx edit_args plain_host) of Inr x \<Rightarrow> result_outcome x = ToolOutcome.Ok | _ \<Rightarrow> False"
    by code_simp
  then have ok: "\<not> bad (fst (edit_file calm_outside small_ctx edit_args plain_host))"
    by (auto simp: bad_def split: sum.splits)
  have a: "is_absolute (workspace_root small_ctx)" by (simp add: small_ctx_def is_absolute_def)
  show ?thesis
    using edits_change_what_was_read [OF still_calm a plain_cwd surjective_pairing, of edit_args] ok
    by (auto simp: bad_def) blast
qed

text \<open>
  A write that fails halfway loses the file: on a full disk the edit below answers with an error,
  and the file it was to change is empty.
\<close>

definition full_disk :: Outside where
  "full_disk = calm_outside\<lparr>o_fault := (\<lambda>n. if n = 4 then Some (OsError ''No space left on device (os error 28)'') else None),
     o_torn := (\<lambda>_. Some 0)\<rparr>"

lemma failed_edit_loses_the_file:
  "case edit_file full_disk small_ctx edit_args plain_host of
     (Inl _, h') \<Rightarrow> node_at (h_files plain_host) [''w'', ''a''] = Some (File ''one two'')
       \<and> node_at (h_files h') [''w'', ''a''] = Some (File [])
   | _ \<Rightarrow> False"
  by code_simp

text \<open>
  C12: Let no other process touch the files and no call fail, and let no symbolic link be on the
  way to the requested location. A \<^verbatim>\<open>write_file\<close> that does not answer with success leaves every
  file as it is and adds at most the missing directories above the target. One that does wrote
  the content to that location, inside the workspace; what was there before was nothing or a
  file whose content had the version the session last read, and nothing else changed but the
  directories added above it.
\<close>

theorem writes_replace_what_was_read:
  assumes "quiet w" "is_absolute (workspace_root ctx)" "ParentDir \<notin> set (components (workspace_root ctx))"
    "names_ok (h_cwd h)" "fs_wf (h_files h)" "\<not> poisoned (h_reads h)"
    "requested_path args = Inr requested" "lexical_location (workspace_root ctx) requested = Some l"
    "clear (h_files h) l" "write_file w ctx args h = (r, h')"
  shows "(bad r \<and> grown (h_files h) (h_files h') (butlast l) \<and> h_reads h' = h_reads h)
    \<or> (\<exists>new x fs. required_string args ''content'' = Inr new \<and> r = Inr x
        \<and> inside_workspace (workspace_root ctx) (path_of l)
        \<and> (node_at (h_files h) l = None
           \<or> (\<exists>old. node_at (h_files h) l = Some (File old)
                \<and> bt_get (read_files (h_reads h)) (path_of l) = Some (file_hash w old)))
        \<and> grown (h_files h) fs (butlast l) \<and> h_files h' = bt_insert l (File new) fs
        \<and> bt_get (read_files (h_reads h')) (path_of l) = Some (file_hash w new)
        \<and> effect x = ToolEffect.Mutation (display_path (workspace_root ctx) (path_of l)) (file_hash w new))"
  using write_file_effect [OF assms]
  by (fastforce simp: wrote_def written_def touched_def split: option.splits)

theorem writes_replace_what_was_read_witness:
  "\<exists>new x fs l. required_string write_args ''content'' = Inr new
     \<and> fst (write_file calm_outside small_ctx write_args plain_host) = Inr x
     \<and> grown (h_files plain_host) fs (butlast l)
     \<and> h_files (snd (write_file calm_outside small_ctx write_args plain_host)) = bt_insert l (File new) fs"
proof -
  have "case fst (write_file calm_outside small_ctx write_args plain_host) of Inr x \<Rightarrow> result_outcome x = ToolOutcome.Ok | _ \<Rightarrow> False"
    by code_simp
  then have ok: "\<not> bad (fst (write_file calm_outside small_ctx write_args plain_host))"
    by (auto simp: bad_def split: sum.splits)
  have a: "is_absolute (workspace_root small_ctx)" "ParentDir \<notin> set (components (workspace_root small_ctx))"
    "requested_path write_args = Inr ''b/c/d''"
    "lexical_location (workspace_root small_ctx) ''b/c/d'' = Some [''w'', ''b'', ''c'', ''d'']"
    by code_simp+
  have p: "\<not> poisoned (h_reads plain_host)" by (simp add: plain_host_def read_reads_def)
  show ?thesis
    using writes_replace_what_was_read [OF quiet_calm a(1,2) plain_cwd plain_wf p a(3,4) plain_clear surjective_pairing] ok
    by blast
qed

text \<open>
  C30: Let no other process touch the files, while any call and the reading of any entry of a
  directory may fail. A listing that succeeds changes nothing and shows, in order, files that are
  there below the start directory, reached through no link and no ignored directory, at most as
  many as asked for; and unless it says that it is cut short, it shows every one of them that is
  reached by entries whose names could be read. One that could not be read is passed over, with
  what is below it, and the listing does not say so.
\<close>

theorem listings_are_complete:
  assumes "still w" "list_files w ctx args h = (Inr x, h')" "result_outcome x = ToolOutcome.Ok"
  shows "\<exists>start k ps. existing w (workspace_root ctx) (requested_or_dot args) h = (Inr start, k)
    \<and> same_host h h'
    \<and> (\<forall>p \<in> set ps. listed (\<lambda>_. True) (h_files h) (h_cwd h) (optional_bool args ''recursive'' True) start p)
    \<and> length ps \<le> unat (optional_u64 args ''max_results'' 500)
    \<and> result_content x = fst (truncate_output (join_with [CHR 0x0A]
         (sort (map (display_path (workspace_root ctx)) ps))) (max_output_bytes ctx))
    \<and> (\<not> truncated x \<longrightarrow> (\<forall>p. listed (readable w) (h_files h) (h_cwd h) (optional_bool args ''recursive'' True) start p \<longrightarrow> p \<in> set ps))"
  using assms by (rule list_files_answer)

definition list_args :: Json where
  "list_args = JObject [(''recursive'', JBool False)]"

lemma list_walk_top: "list_walk (nat PATH_MAX) w root r m = list_body (list_walk 4095 w root True m) w root r m"
proof -
  have "nat PATH_MAX = Suc 4095" by (simp add: PATH_MAX_def)
  then show ?thesis by (simp only: list_walk.simps)
qed

lemma list_once:
  "case answer (io_bind (or_answer files_refusal (existing calm_outside ''/w'' ''.'')) (\<lambda>start.
     io_bind (io_total (path_is_dir calm_outside start)) (\<lambda>d.
     if \<not> d then io_lift (Inl (Inr (ToolResult_failed ReasonCode.ToolExecution ''. is not a directory'')))
     else io_bind (or_error id (list_body descend calm_outside ''/w'' False 500 start [])) (\<lambda>found.
       let (listing, t) = truncate_output (join_with [CHR 0x0A] (sort found)) 100 in
       io_lift (Inr (touched listing (500 \<le> length found \<or> t) ToolEffect.NoEffect)))))) plain_host of
     (Inr x, _) \<Rightarrow> result_outcome x = ToolOutcome.Ok \<and> \<not> truncated x \<and> result_content x = ''a'' | _ \<Rightarrow> False"
  by code_simp

lemma list_demo:
  "case list_files calm_outside small_ctx list_args plain_host of
     (Inr x, _) \<Rightarrow> result_outcome x = ToolOutcome.Ok \<and> \<not> truncated x \<and> result_content x = ''a'' | _ \<Rightarrow> False"
proof -
  have a: "requested_or_dot list_args = ''.''" "optional_bool list_args ''recursive'' True = False"
    "optional_u64 list_args ''max_results'' 500 = 500" "workspace_root small_ctx = ''/w''" "max_output_bytes small_ctx = 100"
    by code_simp+
  have u: "unat (500 :: u64) = 500" by simp
  show ?thesis unfolding list_files_def list_contents_def a u list_walk_top append.simps
    using list_once by simp
qed

theorem listings_are_complete_witness:
  "\<exists>x h' start ps. list_files calm_outside small_ctx list_args plain_host = (Inr x, h')
    \<and> result_content x = ''a'' \<and> h_files h' = h_files plain_host
    \<and> (\<forall>p. listed (\<lambda>_. True) (h_files plain_host) [] False start p \<longrightarrow> p \<in> set ps)"
proof -
  obtain x h' where x: "list_files calm_outside small_ctx list_args plain_host = (Inr x, h')"
    "result_outcome x = ToolOutcome.Ok" "\<not> truncated x" "result_content x = ''a''"
    using list_demo by (cases "list_files calm_outside small_ctx list_args plain_host") (auto split: sum.splits)
  have "optional_bool list_args ''recursive'' True = False" "readable calm_outside = (\<lambda>_. True)"
    by code_simp (simp add: fun_eq_iff readable_def calm_outside_def)
  with listings_are_complete [OF still_calm x(1,2)] x show ?thesis
    by (auto simp: same_host_def plain_host_def)
qed

text \<open>A file whose entry cannot be read is missing from the listing, which says that it is whole.\<close>

definition bad_entry :: Outside where
  "bad_entry = calm_outside\<lparr>o_entry := (\<lambda>_ name. if name = ''a'' then Some (OsError ''Input/output error (os error 5)'') else None)\<rparr>"

lemma unread_entry_is_not_reported:
  "case list_files bad_entry small_ctx list_args plain_host of
     (Inr x, _) \<Rightarrow> result_outcome x = ToolOutcome.Ok \<and> \<not> truncated x \<and> result_content x = [] | _ \<Rightarrow> False"
proof -
  have a: "requested_or_dot list_args = ''.''" "optional_bool list_args ''recursive'' True = False"
    "optional_u64 list_args ''max_results'' 500 = 500" "workspace_root small_ctx = ''/w''" "max_output_bytes small_ctx = 100"
    by code_simp+
  have u: "unat (500 :: u64) = 500" by simp
  have "case answer (io_bind (or_answer files_refusal (existing bad_entry ''/w'' ''.'')) (\<lambda>start.
     io_bind (io_total (path_is_dir bad_entry start)) (\<lambda>d.
     if \<not> d then io_lift (Inl (Inr (ToolResult_failed ReasonCode.ToolExecution ''. is not a directory'')))
     else io_bind (or_error id (list_body descend bad_entry ''/w'' False 500 start [])) (\<lambda>found.
       let (listing, t) = truncate_output (join_with [CHR 0x0A] (sort found)) 100 in
       io_lift (Inr (touched listing (500 \<le> length found \<or> t) ToolEffect.NoEffect)))))) plain_host of
     (Inr x, _) \<Rightarrow> result_outcome x = ToolOutcome.Ok \<and> \<not> truncated x \<and> result_content x = [] | _ \<Rightarrow> False" for descend
    by code_simp
  then show ?thesis unfolding list_files_def list_contents_def a u list_walk_top append.simps
    by simp
qed

text \<open>
  Call a loaded extension with a string for each declared parameter, which is what its schema
  admits. The call always resolves, to the program of the definition and as many arguments as it
  has templates; each argument is its template with every placeholder replaced by the value of
  its parameter, and a value is taken literally, whatever is in it.
\<close>

theorem extension_calls_resolve:
  assumes "ExtensionDefinition_parse to_lowercase from_yaml contents expected = Inr d"
    "\<forall>p \<in> set (ext_parameters d). required_string args (parameter_name p) = Inr (f (parameter_name p))"
  shows "extension_spec d args = Inr \<lparr>program = ext_program d, arguments = map (filled (\<lambda>n. Some (f n))) (ext_arguments d)\<rparr>
    \<and> \<not> has_infix OPEN (ext_program d)
    \<and> (\<forall>a \<in> set (ext_arguments d). \<exists>ps. pieces a = Some ps \<and> slots ps \<subseteq> parameter_name ` set (ext_parameters d))"
  using extension_spec_filled [OF assms] parse_well_formed [OF assms(1)] by (simp add: well_formed_def)

definition wc_raw :: RawExtension where
  "wc_raw = \<lparr>raw_name = ''wc'', raw_description = ''count'',
     raw_parameters = [\<lparr>parameter_name = ''path'', parameter_description = ''file''\<rparr>],
     raw_program = ''wc'', raw_arguments = [''-l'', ''x${path}'']\<rparr>"

definition wc_extension :: ExtensionDefinition where
  "wc_extension = \<lparr>ext_name = ''wc'', ext_description = ''count'',
     ext_parameters = [\<lparr>parameter_name = ''path'', parameter_description = ''file''\<rparr>],
     ext_program = ''wc'', ext_arguments = [''-l'', ''x${path}'']\<rparr>"

theorem extension_calls_resolve_witness:
  "extension_spec wc_extension (JObject [(''path'', JString ''${path}'')])
     = Inr \<lparr>program = ''wc'', arguments = [''-l'', ''x${path}'']\<rparr>"
proof -
  have p: "ExtensionDefinition_parse id (\<lambda>_. Inr wc_raw) [] ''wc'' = Inr wc_extension" by code_simp
  have a: "\<forall>p \<in> set (ext_parameters wc_extension).
      required_string (JObject [(''path'', JString ''${path}'')]) (parameter_name p) = Inr ((\<lambda>_. ''${path}'') (parameter_name p))"
    by code_simp
  have "map (filled (\<lambda>n. Some ''${path}'')) (ext_arguments wc_extension) = [''-l'', ''x${path}'']"
    "ext_program wc_extension = ''wc''" by code_simp+
  with extension_calls_resolve [OF p a] show ?thesis by simp
qed

text \<open>
  What is captured of a process is a beginning of each of its outputs, together as long as
  both are or as the limit allows; the note of truncation is set exactly when something was read
  and the outputs reach the limit, and text that is valid UTF-8 is passed on unchanged.
\<close>

theorem captured_output_is_bounded:
  "(case capture_all limit chunks of (out, err, budget) \<Rightarrow>
      prefix out (stream True chunks) \<and> prefix err (stream False chunks)
      \<and> length out + length err = min limit (length (concat (map snd chunks)))
      \<and> (cut_short budget = (chunks \<noteq> [] \<and> limit \<le> length (concat (map snd chunks)))))
    \<and> (valid_utf8 s \<longrightarrow> from_utf8_lossy s = s)"
  using capture_all_spec [of limit chunks] lossy_valid [of s] by (auto split: prod.split)

theorem captured_output_is_bounded_witness:
  "from_utf8_lossy [CHR 0xC3, CHR 0xA9] = [CHR 0xC3, CHR 0xA9]"
proof -
  have "valid_utf8 [CHR 0xC3, CHR 0xA9]" by code_simp
  with captured_output_is_bounded [where limit = 0 and chunks = "[]" and s = "[CHR 0xC3, CHR 0xA9]"] show ?thesis by simp
qed

text \<open>
  C18: Let no other process touch the files. A command, built in or of an extension, is started
  only with its arguments parsed and only in the directory the session was opened on, which is
  still that directory, reached through no link; otherwise the tool fails with an error, nothing
  was started and nothing changed.
\<close>

theorem commands_run_in_the_workspace:
  assumes "still w" "is_absolute (workspace_root ctx)" "names_ok (h_cwd h)"
    "execute_spec spawn w ctx spec h = (r, h')"
  shows "(\<exists>e. r = Inl e \<and> ticks w h h')
    \<or> (\<exists>s l k. spec = Inr s \<and> workspace_root ctx = path_of l \<and> chain (h_files h) l
         \<and> node_at (h_files h) l = Some Directory \<and> ticks w h k
         \<and> (case spawn (program s) (arguments s) (workspace_root ctx) (command_timeout ctx) k of
              (Inl e, k) \<Rightarrow> r = Inl e \<and> h' = k
            | (Inr trace, k) \<Rightarrow> r = result_from_process (process_output (max_output_bytes ctx) trace) \<and> h' = k))"
proof -
  show ?thesis using execute_spec_cases [OF assms(4)]
  proof (elim disjE exE conjE, goal_cases)
    case (2 s k)
    from revalidate_real [OF assms(1-3) "2"(2)] obtain l where "workspace_root ctx = path_of l \<and> chain (h_files h) l
      \<and> node_at (h_files h) l = Some Directory \<and> ticks w h k" by (elim exE)
    with 2 show ?case by (intro disjI2 exI [of _ s] exI [of _ l] exI [of _ k]) simp
  qed blast
qed

definition echo_spawner :: spawner where
  "echo_spawner p as cwd timeout h =
     (Inr \<lparr>trace_chunks = [(True, p)], trace_ending = Exited (Some 0), trace_millis = 1\<rparr>, h)"

theorem commands_run_in_the_workspace_witness:
  "\<exists>l k. path_of l = ''/w'' \<and> node_at (h_files plain_host) l = Some Directory \<and> ticks calm_outside plain_host k
     \<and> execute_spec echo_spawner calm_outside small_ctx (Inr \<lparr>program = ''ls'', arguments = []\<rparr>) plain_host
       = (result_from_process (process_output 100
            \<lparr>trace_chunks = [(True, ''ls'')], trace_ending = Exited (Some 0), trace_millis = 1\<rparr>), k)"
proof -
  let ?e = "execute_spec echo_spawner calm_outside small_ctx (Inr \<lparr>program = ''ls'', arguments = []\<rparr>) plain_host"
  have a: "is_absolute (workspace_root small_ctx)" by (simp add: small_ctx_def is_absolute_def)
  have ok: "case fst ?e of Inr x \<Rightarrow> result_outcome x = ToolOutcome.Ok | _ \<Rightarrow> False" by code_simp
  have s: "workspace_root small_ctx = ''/w''" "max_output_bytes small_ctx = 100" by (simp_all add: small_ctx_def)
  from commands_run_in_the_workspace [OF still_calm a plain_cwd surjective_pairing, where spawn = echo_spawner and spec = "Inr \<lparr>program = ''ls'', arguments = []\<rparr>"]
  show ?thesis
  proof (elim disjE exE conjE, goal_cases)
    case (1 e)
    with ok show ?case by simp
  next
    case (2 x l k)
    then have x: "x = \<lparr>program = ''ls'', arguments = []\<rparr>" by simp
    from 2 show ?case unfolding x
      by (intro exI [of _ l] exI [of _ k]) (simp add: echo_spawner_def s prod_eq_iff)
  qed
qed

end
