(* ===== verification/Workspace_Files.thy ===== *)
theory Workspace_Files
  imports Command_Tool Builtin_Facts "HOL-Library.Multiset"
begin

text \<open>
  \<^verbatim>\<open>workspace_files/mod.rs\<close> and the types of \<^verbatim>\<open>core/workspace_files.rs\<close>: the explorer's listing
  of a directory, page by page, the read of one file and its save. Containment is the one of
  \<^verbatim>\<open>policy/paths.rs\<close>; the file system is the one of the tools. Whether the permissions of a
  path are read only is asked of the file system with its metadata: \<^verbatim>\<open>readonly\<close>, by the number
  of the call and the path.
\<close>

section \<open>Types\<close>

definition MAX_EDITABLE_FILE_BYTES :: int where "MAX_EDITABLE_FILE_BYTES = 1048576"
definition PREVIEW_BYTES :: nat where "PREVIEW_BYTES = 4096"
definition SNIFF_BYTES :: nat where "SNIFF_BYTES = 8192"
definition MAX_ENUMERATED_ENTRIES :: int where "MAX_ENUMERATED_ENTRIES = 10000"

datatype EntryKind = EntryDirectory | EntryFile | EntryOther

datatype SymlinkTarget = Contained string | Escaping

datatype ContentFacts = Sniffed bool bool | Oversized | Unreadable | NotAFile

definition ContentFacts_editable :: "ContentFacts \<Rightarrow> bool" where
  "ContentFacts_editable c = (case c of Sniffed binary _ \<Rightarrow> \<not> binary | _ \<Rightarrow> False)"

record DirectoryEntry =
  de_name :: string
  de_path :: string
  de_kind :: EntryKind
  de_symlink :: "SymlinkTarget option"
  de_content :: ContentFacts
  de_size_bytes :: "nat option"
  de_ignored :: bool
  de_writable :: bool

record DirectoryListing =
  dl_path :: string
  dl_entries :: "DirectoryEntry list"
  dl_page :: u32
  dl_total_entries :: u32
  dl_total_truncated :: bool

datatype PreviewReason = Binary | TooLarge | NotUtf8

definition PreviewReason_as_str :: "PreviewReason \<Rightarrow> string" where
  "PreviewReason_as_str r = (case r of
      PreviewReason.Binary \<Rightarrow> ''binary'' | PreviewReason.TooLarge \<Rightarrow> ''tooLarge''
    | PreviewReason.NotUtf8 \<Rightarrow> ''notUtf8'')"

datatype FileMode = Editable string | Preview PreviewReason string bool

record FileRead =
  fr_path :: string
  fr_mode :: FileMode
  fr_digest :: string
  fr_size_bytes :: nat
  fr_writable :: bool

record WorkspaceFileSaveRequest =
  save_path :: string
  save_expected_digest :: string
  save_text :: string

record FileSave =
  fs_path :: string
  observed_digest :: string
  new_digest :: string
  fs_size_bytes :: nat

datatype WorkspaceFileError =
    FileRefused ReasonCode string
  | WrongKind string string
  | FileIo string string
  | Stale string string string
  | Uneditable string string
  | FileTooLarge string int
  | PageOutOfRange string u32 nat

definition WorkspaceFileError_reason_code :: "WorkspaceFileError \<Rightarrow> ReasonCode" where
  "WorkspaceFileError_reason_code e = (case e of
      FileRefused code _ \<Rightarrow> code
    | WrongKind _ _ \<Rightarrow> ReasonCode.SchemaInvalid
    | PageOutOfRange _ _ _ \<Rightarrow> ReasonCode.SchemaInvalid
    | FileIo _ _ \<Rightarrow> ReasonCode.ToolExecution
    | Stale _ _ _ \<Rightarrow> ReasonCode.StaleFileVersion
    | Uneditable _ _ \<Rightarrow> ReasonCode.WorkspaceCapabilityUnavailable
    | FileTooLarge _ _ \<Rightarrow> ReasonCode.OutputTruncated)"

definition from_refusal :: "PathRefusal \<Rightarrow> WorkspaceFileError" where
  "from_refusal r = FileRefused (refusal_code r) (refusal_detail r)"

definition io_failure :: "string \<Rightarrow> IoError \<Rightarrow> WorkspaceFileError" where
  "io_failure path e = FileIo path (IoError_display e)"

section \<open>Paths as the client names them\<close>

definition trim_slashes :: "string \<Rightarrow> string" where
  "trim_slashes s = rev (dropWhile (\<lambda>c. c = CHR ''/'') (rev (dropWhile (\<lambda>c. c = CHR ''/'') s)))"

definition slashed :: "string \<Rightarrow> string" where
  "slashed s = map (\<lambda>c. if c = CHR 0x5C then CHR ''/'' else c) s"

definition normalize_path :: "string \<Rightarrow> string" where
  "normalize_path requested = slashed (trim_slashes requested)"

definition join_relative :: "string \<Rightarrow> string \<Rightarrow> string" where
  "join_relative parent name =
     (let parent = normalize_path parent in if parent = [] then name else parent @ ''/'' @ name)"

definition relative_to :: "string \<Rightarrow> string \<Rightarrow> string" where
  "relative_to root path = normalize_path (slashed (from_utf8_lossy (display_path root path)))"

section \<open>What the bytes are\<close>

definition sniffed :: "string \<Rightarrow> string" where
  "sniffed bytes = take SNIFF_BYTES bytes"

definition GENERATED_MARKER :: string where
  "GENERATED_MARKER = ''@generated''"

fun has_window :: "string \<Rightarrow> string \<Rightarrow> bool" where
  "has_window [] needle = False"
| "has_window (c # cs) needle = (starts_with (c # cs) needle \<or> has_window cs needle)"

definition preview_mode :: "string \<Rightarrow> PreviewReason \<Rightarrow> FileMode" where
  "preview_mode bytes reason = (let window = take PREVIEW_BYTES bytes in
     Preview reason (from_utf8_lossy window) (length bytes > length window))"

definition classify_read :: "string \<Rightarrow> nat \<Rightarrow> FileMode" where
  "classify_read bytes size_bytes =
     (if int size_bytes > MAX_EDITABLE_FILE_BYTES then preview_mode bytes PreviewReason.TooLarge
      else if CHR 0x00 \<in> set (sniffed bytes) then preview_mode bytes PreviewReason.Binary
      else if valid_utf8 bytes then Editable bytes
      else preview_mode bytes PreviewReason.NotUtf8)"

text \<open>One read of a bounded prefix.\<close>

definition sniff :: "Outside \<Rightarrow> string \<Rightarrow> nat \<Rightarrow> Host \<Rightarrow> ContentFacts \<times> Host" where
  "sniff w path size_bytes h =
     (if int size_bytes > MAX_EDITABLE_FILE_BYTES then (Oversized, h)
      else case fs_read w path h of
          (Inl _, h) \<Rightarrow> (Unreadable, h)
        | (Inr bytes, h) \<Rightarrow> (let window = sniffed (take SNIFF_BYTES bytes) in
            (Sniffed (CHR 0x00 \<in> set window) (has_window window GENERATED_MARKER), h)))"

section \<open>Listing\<close>

definition unreadable_entry :: "string \<Rightarrow> string \<Rightarrow> string set \<Rightarrow> DirectoryEntry" where
  "unreadable_entry name relative git_ignored = \<lparr>de_name = name, de_path = relative,
     de_kind = EntryOther, de_symlink = None, de_content = Unreadable, de_size_bytes = None,
     de_ignored = (relative \<in> git_ignored), de_writable = False\<rparr>"

definition describe_resolved :: "Outside \<Rightarrow> (nat \<Rightarrow> string \<Rightarrow> bool) \<Rightarrow> string \<Rightarrow> string \<Rightarrow> string
    \<Rightarrow> SymlinkTarget option \<Rightarrow> string set \<Rightarrow> Host \<Rightarrow> DirectoryEntry \<times> Host" where
  "describe_resolved w readonly path name relative symlink git_ignored h = (case fs_metadata w path h of
      (Inl _, h) \<Rightarrow> ((unreadable_entry name relative git_ignored)\<lparr>de_symlink := symlink\<rparr>, h)
    | (Inr v, h') \<Rightarrow>
        (let kind = (case v of Directory \<Rightarrow> EntryDirectory | File _ \<Rightarrow> EntryFile | Symlink _ \<Rightarrow> EntryOther);
             ((content, size), h'') = (if kind = EntryFile
               then (case sniff w path (node_len w v) h' of (c, k) \<Rightarrow> ((c, Some (node_len w v)), k))
               else ((NotAFile, None), h')) in
         (\<lparr>de_name = name, de_path = relative, de_kind = kind, de_symlink = symlink,
           de_content = content, de_size_bytes = size, de_ignored = (relative \<in> git_ignored),
           de_writable = \<not> readonly (h_time h) path\<rparr>, h'')))"

text \<open>A link is resolved through containment; one that leads out shows nothing of its target.\<close>

definition describe_entry :: "Outside \<Rightarrow> (nat \<Rightarrow> string \<Rightarrow> bool) \<Rightarrow> string \<Rightarrow> string \<Rightarrow> string
    \<Rightarrow> string set \<Rightarrow> string \<Rightarrow> Host \<Rightarrow> DirectoryEntry \<times> Host" where
  "describe_entry w readonly root directory requested git_ignored name h =
     (let display_name = from_utf8_lossy name;
          relative = join_relative requested display_name;
          absolute = path_push directory name in
      case fs_symlink_metadata w absolute h of
        (Inl _, h) \<Rightarrow> (unreadable_entry display_name relative git_ignored, h)
      | (Inr (Symlink _), h) \<Rightarrow> (case existing w root relative h of
            (Inl _, h) \<Rightarrow> (\<lparr>de_name = display_name, de_path = relative, de_kind = EntryOther,
                de_symlink = Some Escaping, de_content = NotAFile, de_size_bytes = None,
                de_ignored = (relative \<in> git_ignored), de_writable = False\<rparr>, h)
          | (Inr target, h) \<Rightarrow> describe_resolved w readonly target display_name relative
              (Some (Contained (relative_to root target))) git_ignored h)
      | (Inr _, h) \<Rightarrow> describe_resolved w readonly absolute display_name relative None git_ignored h)"

fun describe_entries :: "(string \<Rightarrow> Host \<Rightarrow> DirectoryEntry \<times> Host) \<Rightarrow> string list \<Rightarrow> Host
    \<Rightarrow> DirectoryEntry list \<times> Host" where
  "describe_entries describe [] h = ([], h)"
| "describe_entries describe (name # names) h = (case describe name h of
      (e, h) \<Rightarrow> (case describe_entries describe names h of (es, h) \<Rightarrow> (e # es, h)))"

definition contained_dir :: "Outside \<Rightarrow> string \<Rightarrow> string \<Rightarrow> (string, WorkspaceFileError) io" where
  "contained_dir w root requested = io_bind
     (io_map_err from_refusal
       (if requested = [] then canonical_root w root else existing w root requested))
     (\<lambda>path. io_bind (io_total (path_is_dir w path))
       (\<lambda>d. io_lift (if \<not> d then Inl (WrongKind requested ''a directory'') else Inr path)))"

text \<open>
  The loop over the entries of the directory, in the order they come: it looks at one more than
  it keeps, and an entry that cannot be read fails the listing.
\<close>

primrec results_of :: "('a, 'e) result list \<Rightarrow> ('a list, 'e) result" where
  "results_of [] = Inr []"
| "results_of (r # rs) = and_then r (\<lambda>x. map_ok (Cons x) (results_of rs))"

definition looked_at :: "'a list \<Rightarrow> 'a list" where
  "looked_at found = take (Suc (nat MAX_ENUMERATED_ENTRIES)) found"

definition enumerated :: "string list \<Rightarrow> string list" where
  "enumerated found = take (nat MAX_ENUMERATED_ENTRIES) found"

definition page_count :: "nat \<Rightarrow> nat \<Rightarrow> nat" where
  "page_count tally page_size = max 1 ((tally + page_size - 1) div page_size)"

definition list_directory :: "Outside \<Rightarrow> (nat \<Rightarrow> string \<Rightarrow> bool) \<Rightarrow> string \<Rightarrow> string \<Rightarrow> u32 \<Rightarrow> u32
    \<Rightarrow> string set \<Rightarrow> (DirectoryListing, WorkspaceFileError) io" where
  "list_directory w readonly root requested page page_size git_ignored =
     (let page_size = max page_size 1 in
      io_bind (contained_dir w root requested) (\<lambda>directory.
      io_bind (io_map_err (io_failure requested) (fs_read_dir w directory)) (\<lambda>entries.
      io_bind (io_lift (map_err (io_failure requested) (results_of (looked_at entries)))) (\<lambda>found.
        let names = sort (enumerated found);
            truncated = (int (length found) > MAX_ENUMERATED_ENTRIES);
            tally = u32_of_usize (length names);
            pages = page_count (unat tally) (unat page_size) in
        if unat page \<ge> pages then io_lift (Inl (PageOutOfRange requested page pages))
        else io_bind (io_total (describe_entries
              (describe_entry w readonly root directory requested git_ignored)
              (take (unat page_size) (drop (unat page * unat page_size) names)))) (\<lambda>entries.
          io_lift (Inr \<lparr>dl_path = normalize_path requested,
             dl_entries = sort_key (\<lambda>e. if de_kind e \<noteq> EntryDirectory then 1 else 0 :: nat)
               (sort_key de_name entries),
             dl_page = page, dl_total_entries = tally, dl_total_truncated = truncated\<rparr>))))))"

section \<open>Reading and saving\<close>

definition is_file :: "Node \<Rightarrow> bool" where
  "is_file v = (case v of File _ \<Rightarrow> True | _ \<Rightarrow> False)"

definition read_workspace_file ::
  "Outside \<Rightarrow> (nat \<Rightarrow> string \<Rightarrow> bool) \<Rightarrow> string \<Rightarrow> string \<Rightarrow> (FileRead, WorkspaceFileError) io" where
  "read_workspace_file w readonly root requested =
     io_bind (io_map_err from_refusal (existing w root requested)) (\<lambda>path h.
     io_bind (io_map_err (io_failure requested) (fs_metadata w path)) (\<lambda>metadata.
       if \<not> is_file metadata then io_lift (Inl (WrongKind requested ''a regular file''))
       else io_bind (io_map_err (io_failure requested) (fs_read w path)) (\<lambda>bytes.
         io_lift (Inr \<lparr>fr_path = normalize_path requested,
           fr_mode = classify_read bytes (node_len w metadata), fr_digest = file_hash w bytes,
           fr_size_bytes = node_len w metadata, fr_writable = \<not> readonly (h_time h) path\<rparr>))) h)"

definition save_file ::
  "Outside \<Rightarrow> string \<Rightarrow> WorkspaceFileSaveRequest \<Rightarrow> (FileSave, WorkspaceFileError) io" where
  "save_file w root request =
     io_bind (io_map_err from_refusal (existing w root (save_path request))) (\<lambda>path.
     io_bind (io_map_err (io_failure (save_path request)) (fs_metadata w path)) (\<lambda>metadata.
       if \<not> is_file metadata
       then io_lift (Inl (WrongKind (save_path request) ''a regular file''))
       else if int (length (save_text request)) > MAX_EDITABLE_FILE_BYTES
       then io_lift (Inl (FileTooLarge (save_path request) MAX_EDITABLE_FILE_BYTES))
       else if CHR 0x00 \<in> set (save_text request)
       then io_lift (Inl (Uneditable (save_path request) ''editor text may not contain a NUL byte''))
       else io_bind (io_map_err (io_failure (save_path request)) (fs_read w path)) (\<lambda>bytes.
         let actual = file_hash w bytes in
         if actual \<noteq> save_expected_digest request
         then io_lift (Inl (Stale (save_path request) (save_expected_digest request) actual))
         else if (case classify_read bytes (node_len w metadata) of Editable _ \<Rightarrow> False | _ \<Rightarrow> True)
         then io_lift (Inl (Uneditable (save_path request)
           ''binary, undecodable, or oversized files are preview-only''))
         else io_bind (io_map_err from_refusal (existing w root (save_path request))) (\<lambda>immediate.
           if immediate \<noteq> path
           then io_lift (Inl (Stale (save_path request) (save_expected_digest request) actual))
           else io_bind (io_map_err (io_failure (save_path request))
                (fs_write w immediate (save_text request))) (\<lambda>_.
             io_lift (Inr \<lparr>fs_path = normalize_path (save_path request),
               observed_digest = save_expected_digest request,
               new_digest = file_hash w (save_text request),
               fs_size_bytes = length (save_text request)\<rparr>))))))"

section \<open>A save\<close>

lemma sniffed_subset: "set (sniffed bytes) \<subseteq> set bytes"
  by (auto simp: sniffed_def dest: in_set_takeD)

lemma classify_text:
  assumes "valid_utf8 t" "CHR 0x00 \<notin> set t" "int (length t) \<le> MAX_EDITABLE_FILE_BYTES"
  shows "classify_read t (length t) = Editable t"
  using assms sniffed_subset [of t] by (auto simp: classify_read_def)

lemma classify_Editable: "classify_read bytes n = Editable t \<Longrightarrow> t = bytes \<and> valid_utf8 bytes
    \<and> CHR 0x00 \<notin> set (sniffed bytes) \<and> int n \<le> MAX_EDITABLE_FILE_BYTES"
  by (auto simp: classify_read_def preview_mode_def Let_def split: if_splits)

text \<open>The checks of a save, which change nothing, lead to the write of the whole text.\<close>

definition save_reaches_write ::
  "Outside \<Rightarrow> string \<Rightarrow> WorkspaceFileSaveRequest \<Rightarrow> Host \<Rightarrow> string \<Rightarrow> Host \<Rightarrow> bool" where
  "save_reaches_write w root request h p k4 \<longleftrightarrow> (\<exists>k1 v k2 old k3.
     existing w root (save_path request) h = (Inr p, k1)
     \<and> fs_metadata w p k1 = (Inr v, k2) \<and> is_file v
     \<and> fs_read w p k2 = (Inr old, k3)
     \<and> int (length (save_text request)) \<le> MAX_EDITABLE_FILE_BYTES \<and> CHR 0x00 \<notin> set (save_text request)
     \<and> file_hash w old = save_expected_digest request
     \<and> (\<exists>t. classify_read old (node_len w v) = Editable t)
     \<and> existing w root (save_path request) k3 = (Inr p, k4))"

lemma reaches_write_ticks: "save_reaches_write w root request h p k \<Longrightarrow> ticks w h k"
  unfolding save_reaches_write_def
  by (elim exE conjE) (meson looksD looks_existing looks_metadata looks_fs_read ticks_trans)

lemma save_refused:
  assumes "save_file w root request h = (Inl e, h')"
  shows "ticks w h h' \<or> (\<exists>p k d. save_reaches_write w root request h p k
    \<and> fs_write w p (save_text request) k = (Inl d, h') \<and> e = io_failure (save_path request) d)"
proof -
  let ?Q = "\<lambda>r k. case r of Inr _ \<Rightarrow> True | Inl e \<Rightarrow> ticks w h k \<or> (\<exists>p k' d. save_reaches_write w root request h p k'
    \<and> fs_write w p (save_text request) k' = (Inl d, k) \<and> e = io_failure (save_path request) d)"
  have look: "holds (io_bind (io_map_err g m) f) k ?Q"
    if "only_looks w m" "ticks w h k" "\<And>x j. m k = (Inr x, j) \<Longrightarrow> ticks w h j \<Longrightarrow> holds (f x) j ?Q" for g m f k
    using that ticks_trans [OF that(2) looksD [OF that(1)]]
    by (intro holds_bind) (auto simp: io_map_err_Inl io_map_err_Inr)
  have lift: "holds (io_lift r) k ?Q" if "ticks w h k" for r k
    using that by (intro holds_lift) (simp split: sum.split)
  have "holds (save_file w root request) h ?Q" unfolding save_file_def
  proof (rule look, goal_cases)
    case (3 p k1)
    note e = "3"(1)
    show ?case
    proof (rule look, goal_cases)
      case (3 v k2)
      note m = "3"(1)
      show ?case
      proof (cases "is_file v \<and> int (length (save_text request)) \<le> MAX_EDITABLE_FILE_BYTES \<and> CHR 0x00 \<notin> set (save_text request)")
        case False
        with "3"(2) show ?thesis by (auto simp: not_le not_less intro!: lift)
      next
        case True
        then have c: "is_file v" "\<not> int (length (save_text request)) > MAX_EDITABLE_FILE_BYTES" "CHR 0x00 \<notin> set (save_text request)"
          by (simp_all add: not_less)
        show ?thesis
        proof (simp only: c not_True_eq_False if_False, rule look, goal_cases)
          case (3 old k3)
          note r = "3"(1)
          show ?case
          proof (cases "file_hash w old = save_expected_digest request \<and> (\<exists>t. classify_read old (node_len w v) = Editable t)")
            case False
            with "3"(2) show ?thesis by (auto simp: Let_def split: FileMode.split intro!: lift)
          next
            case ok: True
            then obtain t where t: "classify_read old (node_len w v) = Editable t" by blast
            from ok t show ?thesis
            proof (simp add: Let_def, intro look, goal_cases)
              case (3 i k4)
              show ?case
              proof (cases "i = p")
                case False
                with "3" show ?thesis by (auto intro!: lift)
              next
                case True
                with "3" e m r c ok have "save_reaches_write w root request h p k4"
                  unfolding save_reaches_write_def by (auto simp: not_less)
                then have "?Q (Inl e) k" if "io_map_err (io_failure (save_path request))
                    (fs_write w p (save_text request)) k4 = (Inl e, k)" for e k
                  using that by (auto simp: io_map_err_Inl)
                then show ?thesis unfolding True by (auto intro!: holds_bind holds_lift)
              qed
            qed (use "3"(2) in auto)
          qed
        qed (use "3"(2) in auto)
      qed
    qed (use "3"(2) in auto)
  qed auto
  from holdsD [OF this assms] show ?thesis by simp
qed

text \<open>With nothing else at work a save writes over the bytes whose digest the client named.\<close>

lemma save_target:
  assumes still: "still w" and root: "is_absolute root" and cwd: "names_ok (h_cwd h)"
    and s: "save_reaches_write w root request h p k4"
  obtains l old where "p = path_of l" "node_at (h_files h) l = Some (File old)" "inside_workspace root (path_of l)"
    "names_ok l" "chain (h_files h) l" "existing w root (save_path request) h = (Inr (path_of l), tick w h)"
    "file_hash w old = save_expected_digest request"
    "classify_read old (length old) = Editable old"
    "int (length (path_of l)) < PATH_MAX"
proof -
  note [simp] = ticks_still [OF still] ticks_same
  obtain k1 v k2 old k3 where
    e: "existing w root (save_path request) h = (Inr p, k1)"
    and m: "fs_metadata w p k1 = (Inr v, k2)" "is_file v"
    and r: "fs_read w p k2 = (Inr old, k3)"
    and g: "file_hash w old = save_expected_digest request"
      "\<exists>t. classify_read old (node_len w v) = Editable t"
    using s unfolding save_reaches_write_def by blast
  have t1: "ticks w h k1" using looksD [OF looks_existing e] .
  have t2: "ticks w h k2" using ticks_trans [OF t1 looksD [OF looks_metadata m(1)]] .
  obtain l u where l: "p = path_of l" "names_ok l" "chain (h_files h) l" "node_at (h_files h) l = Some u"
      "\<forall>t. u \<noteq> Symlink t" "inside_workspace root (path_of l)"
    using existing_real [OF still root cwd e] by metis
  have loc: "m = l" if "locate (h_files h) (h_cwd h) True (path_of l) = Inr m" for m
    using locate_real [OF that l(3,2)] l(4,5) by simp
  have node: "node_at (h_files h) l = Some (File old)"
    using fs_read_Inr [OF still r] loc t2 l(1) by (auto simp: lookup_Inr)
  have len: "v = File old"
    using m(1) loc node t1 l(1) by (auto simp: fs_metadata_def query_tick map_ok_def still_tick [OF still] lookup_Inr
        split: option.splits sum.splits)
  have short: "int (length (path_of l)) < PATH_MAX"
    using fs_read_Inr [OF still r] l(1) by (auto simp: lookup_Inr dest: locate_short)
  have k1: "k1 = tick w h" using e by (auto simp: existing_def io_Inr contained_def canonicalize_Inr split: if_splits)
  have "classify_read old (length old) = Editable old"
    using g(2) classify_Editable by (auto simp: len node_len_def)
  then show thesis using that [OF l(1) node l(6,2,3)] e k1 g(1) short l(1) by simp
qed

text \<open>A write that failed after it opened the file leaves a beginning of the text in that file.\<close>

lemma save_torn:
  assumes root: "is_absolute root" and cwd: "names_ok (h_cwd h)"
    and s: "save_reaches_write w root request h p k4" and wr: "fs_write w p (save_text request) k4 = (Inl d, h')"
  shows "ticks w h h' \<or> (\<exists>h1 l k. ticks w h h1
    \<and> h' = h1\<lparr>h_files := bt_insert l (File (take k (save_text request))) (h_files h1)\<rparr>
    \<and> (still w \<longrightarrow> h_files h1 = h_files h \<and> (\<exists>old. node_at (h_files h) l = Some (File old)
        \<and> inside_workspace root (path_of l) \<and> file_hash w old = save_expected_digest request
        \<and> classify_read old (length old) = Editable old)))"
proof -
  have t: "ticks w h (tick w k4)" using ticks_trans [OF reaches_write_ticks [OF s]] by simp
  from fs_write_cases [OF wr] show ?thesis
  proof (elim disjE exE conjE, goal_cases)
    case (3 l c e k)
    have "\<exists>old. node_at (h_files h) l = Some (File old)
        \<and> inside_workspace root (path_of l) \<and> file_hash w old = save_expected_digest request
        \<and> classify_read old (length old) = Editable old" if still: "still w"
    proof -
      note [simp] = ticks_still [OF still t] ticks_same [OF reaches_write_ticks [OF s]]
      obtain m old where m: "p = path_of m" "node_at (h_files h) m = Some (File old)" "inside_workspace root (path_of m)"
        "names_ok m" "chain (h_files h) m" "existing w root (save_path request) h = (Inr (path_of m), tick w h)"
        "file_hash w old = save_expected_digest request" "classify_read old (length old) = Editable old"
        "int (length (path_of m)) < PATH_MAX"
        by (rule save_target [OF still root cwd s])
      have "l = m" using "3"(1) locate_real [OF _ m(5,4), of "h_cwd h" True l] m(1,2) by simp
      with m show ?thesis by blast
    qed
    with 3 t ticks_still [OF _ t] show ?thesis by blast
  qed (use t in simp_all)
qed

lemma save_done:
  assumes still: "still w" and root: "is_absolute root" and cwd: "names_ok (h_cwd h)"
    and s: "save_file w root request h = (Inr done, h')"
  obtains l old where "node_at (h_files h) l = Some (File old)" "inside_workspace root (path_of l)"
    "names_ok l" "chain (h_files h) l" "existing w root (save_path request) h = (Inr (path_of l), tick w h)"
    "file_hash w old = save_expected_digest request"
    "classify_read old (length old) = Editable old"
    "CHR 0x00 \<notin> set (save_text request)" "int (length (save_text request)) \<le> MAX_EDITABLE_FILE_BYTES"
    "h_files h' = bt_insert l (File (save_text request)) (h_files h)" "h_cwd h' = h_cwd h"
    "done = \<lparr>fs_path = normalize_path (save_path request), observed_digest = save_expected_digest request,
       new_digest = file_hash w (save_text request), fs_size_bytes = length (save_text request)\<rparr>"
    "int (length (path_of l)) < PATH_MAX"
proof -
  note [simp] = ticks_still [OF still] ticks_same
  obtain p k4 where rw: "save_reaches_write w root request h p k4"
    and wr: "fs_write w p (save_text request) k4 = (Inr (), h')"
    and d: "done = \<lparr>fs_path = normalize_path (save_path request), observed_digest = save_expected_digest request,
       new_digest = file_hash w (save_text request), fs_size_bytes = length (save_text request)\<rparr>"
    using s unfolding save_file_def save_reaches_write_def
    by (auto simp: io_Inr Let_def not_le not_less split: if_splits FileMode.splits)
  have g: "CHR 0x00 \<notin> set (save_text request)" "int (length (save_text request)) \<le> MAX_EDITABLE_FILE_BYTES"
    using rw by (auto simp: save_reaches_write_def)
  note t4 = reaches_write_ticks [OF rw]
  obtain l old where l: "p = path_of l" "node_at (h_files h) l = Some (File old)" "inside_workspace root (path_of l)"
    "names_ok l" "chain (h_files h) l" "existing w root (save_path request) h = (Inr (path_of l), tick w h)"
    "file_hash w old = save_expected_digest request" "classify_read old (length old) = Editable old"
    "int (length (path_of l)) < PATH_MAX"
    by (rule save_target [OF still root cwd rw])
  have "h_files h' = bt_insert l (File (save_text request)) (h_files h)" "h_cwd h' = h_cwd h"
    using fs_write_direct [OF still _ l(4) _ wr [unfolded l(1)]] t4 l(2,5) by auto
  with that [OF l(2-8) g] d l(9) show thesis by simp
qed

section \<open>A file swapped for a file\<close>

text \<open>Writing a file that is there changes no way through the tree.\<close>

lemma place_file_swap:
  assumes "node_at fs l = Some (File old)" "node_at fs' = (node_at fs)(l \<mapsto> File new)"
  shows "place fs' follow n cur ss = place fs follow n cur ss"
  using assms
proof (induction fs follow n cur ss rule: place.induct)
  case (2 fs follow n cur s ss)
  have "(node_at fs' k = Some Directory) = (node_at fs k = Some Directory)" for k
    using "2.prems" by auto
  with 2 show ?case by (auto split: option.splits Node.splits)
qed simp

lemma swap_file:
  assumes "node_at fs l = Some (File old)"
  shows "node_at (bt_insert l (File new) fs) = (node_at fs)(l \<mapsto> File new)"
    and "locate (bt_insert l (File new) fs) cwd follow p = locate fs cwd follow p"
proof -
  have "l \<noteq> []" using assms by auto
  then show e: "node_at (bt_insert l (File new) fs) = (node_at fs)(l \<mapsto> File new)"
    by (auto simp: node_at_insert fun_eq_iff)
  show "locate (bt_insert l (File new) fs) cwd follow p = locate fs cwd follow p"
    by (simp add: locate_def place_file_swap [OF assms e])
qed

lemma existing_quiet:
  assumes "quiet w"
  shows "existing w root requested h = (Inr p, k) \<longleftrightarrow> k = tick w h \<and>
    (\<exists>candidate l v. lexical_candidate root requested = Inr candidate \<and> p = path_of l
      \<and> locate (h_files h) (h_cwd h) True candidate = Inr l \<and> node_at (h_files h) l = Some v
      \<and> path_starts_with p root)"
  using assms by (auto simp: existing_def io_Inr contained_def canonicalize_Inr quiet_def still_tick)

text \<open>A saved text is read back as it was saved.\<close>

lemma saved_reads_back:
  assumes quiet: "quiet w" and root: "is_absolute root" and cwd: "names_ok (h_cwd h)"
    and utf8: "valid_utf8 (save_text request)"
    and s: "save_file w root request h = (Inr done, h')"
    and later: "h_files g = h_files h'" "h_cwd g = h_cwd h'"
  shows "\<exists>f k. read_workspace_file w readonly root (save_path request) g = (Inr f, k)
    \<and> fr_mode f = Editable (save_text request) \<and> fr_digest f = new_digest done
    \<and> fr_size_bytes f = fs_size_bytes done \<and> fr_path f = fs_path done"
proof -
  note still = quiet_still [OF quiet]
  obtain l old where o: "node_at (h_files h) l = Some (File old)" "names_ok l" "chain (h_files h) l"
      "existing w root (save_path request) h = (Inr (path_of l), tick w h)"
      "CHR 0x00 \<notin> set (save_text request)" "int (length (save_text request)) \<le> MAX_EDITABLE_FILE_BYTES"
      "h_files h' = bt_insert l (File (save_text request)) (h_files h)" "h_cwd h' = h_cwd h"
      "done = \<lparr>fs_path = normalize_path (save_path request), observed_digest = save_expected_digest request,
         new_digest = file_hash w (save_text request), fs_size_bytes = length (save_text request)\<rparr>"
      "int (length (path_of l)) < PATH_MAX"
    by (rule save_done [OF still root cwd s])
  note sw = swap_file [OF o(1)]
  have files: "h_files g = bt_insert l (File (save_text request)) (h_files h)" "h_cwd g = h_cwd h"
    using later o(7,8) by simp_all
  have node: "node_at (h_files g) l = Some (File (save_text request))" by (simp add: files sw(1))
  have direct: "locate (h_files g) (h_cwd g) True (path_of l) = Inr l"
    unfolding files sw(2) using locate_direct [OF o(3,2)] o(1,10) by simp
  have e: "existing w root (save_path request) g = (Inr (path_of l), tick w g)"
  proof -
    obtain candidate m v where c: "lexical_candidate root (save_path request) = Inr candidate" "path_of l = path_of m"
        "locate (h_files h) (h_cwd h) True candidate = Inr m" "node_at (h_files h) m = Some v"
        "path_starts_with (path_of l) root"
      using o(4) unfolding existing_quiet [OF quiet] by auto
    have "\<exists>v. node_at (h_files g) m = Some v" using c(4) by (simp add: files sw)
    with c show ?thesis unfolding existing_quiet [OF quiet] by (auto simp: files sw(2))
  qed
  have m: "fs_metadata w (path_of l) (tick w g) = (Inr (File (save_text request)), tick w (tick w g))"
    using direct node by (simp add: fs_metadata_def quiet_query [OF quiet] still_tick [OF still] lookup_def)
  have r: "fs_read w (path_of l) (tick w (tick w g)) = (Inr (save_text request), tick w (tick w (tick w g)))"
    using direct node by (simp add: fs_read_def quiet_query [OF quiet] still_tick [OF still] lookup_def)
  show ?thesis
    using e m r classify_text [OF utf8 o(5,6)]
    by (simp add: read_workspace_file_def io_bind_def io_map_err_def io_lift_def is_file_def node_len_def o(9))
qed

section \<open>Pages\<close>

lemma describe_names:
  assumes "\<And>name h. de_name (fst (describe name h)) = f name"
  shows "map de_name (fst (describe_entries describe names h)) = map f names"
proof (induction names arbitrary: h)
  case (Cons name names)
  show ?case using Cons assms [of name h] by (simp split: prod.splits) (metis fst_conv)
qed simp

lemma describe_entry_name: "de_name (fst (describe_entry w readonly root directory requested git_ignored name h)) = from_utf8_lossy name"
  by (simp add: describe_entry_def describe_resolved_def unreadable_entry_def Let_def
      split: prod.splits sum.splits Node.splits)

lemma concat_pages: "concat (map (\<lambda>p. take ps (drop (p * ps) xs)) [0..<n]) = take (n * ps) xs"
proof (induction n)
  case (Suc n)
  have "take (Suc n * ps) xs = take (n * ps) xs @ take ps (drop (n * ps) xs)"
    by (simp add: add.commute [of ps "n * ps"] take_add del: take_append)
  with Suc show ?case by simp
qed simp

lemma page_count_enough: "0 < ps \<Longrightarrow> n \<le> page_count n ps * ps"
proof -
  assume ps: "0 < ps"
  have "n \<le> (n + ps - 1) div ps * ps"
    using ps div_mult_mod_eq [of "n + ps - 1" ps] mod_less_divisor [OF ps, of "n + ps - 1"] by linarith
  also have "\<dots> \<le> page_count n ps * ps" by (simp add: page_count_def)
  finally show ?thesis .
qed

text \<open>What a page holds: the names of its stretch of the sorted directory.\<close>

lemma contained_dir_still:
  assumes still: "still w" and root: "is_absolute root" and cwd: "names_ok (h_cwd h)"
    and d: "contained_dir w root requested h = (Inr d, k)"
  shows "\<exists>c l. d = path_of l \<and> (if requested = [] then c = root else lexical_candidate root requested = Inr c)
    \<and> locate (h_files h) (h_cwd h) True c = Inr l \<and> names_ok l \<and> chain (h_files h) l
    \<and> node_at (h_files h) l = Some Directory \<and> ticks w h k"
proof -
  note [simp] = ticks_still [OF still] ticks_same still_tick [OF still]
  obtain k1 k2 where r: "(if requested = [] then canonical_root w root else existing w root requested) h = (Inr d, k1)"
      "path_is_dir w d k1 = (True, k2)" "k = k2"
    using d by (auto simp: contained_dir_def io_Inr split: if_splits)
  have t1: "ticks w h k1"
    using r(1) looksD [OF looks_canonical_root] looksD [OF looks_existing] by (auto split: if_splits)
  then have t: "ticks w h k1" "ticks w h k"
    using ticks_trans [OF t1 path_is_dir_ticks [OF r(2)]] r(3) by simp_all
  obtain c h0 k0 where c: "fs_canonicalize w c h0 = (Inr d, k0)" "h_files h0 = h_files h" "h_cwd h0 = h_cwd h"
      "if requested = [] then c = root else lexical_candidate root requested = Inr c"
    using r(1) by (auto simp: canonical_root_def existing_def io_Inr contained_def split: if_splits)
  have abs: "is_absolute c" using c(4) root lexical_absolute [OF root] by (auto split: if_splits)
  obtain l v where l: "d = path_of l" "locate (h_files h) (h_cwd h) True c = Inr l" "node_at (h_files h) l = Some v"
    using c(1,2,3) by (auto simp: canonicalize_Inr)
  have ok: "names_ok l" "chain (h_files h) l" "\<forall>t. node_at (h_files h) l \<noteq> Some (Symlink t)"
    using l(2) cwd abs by (auto dest: locate_ok locate_chain locate_follows)
  have loc: "m = l" if "locate (h_files h) (h_cwd h) True (path_of l) = Inr m" for m
    using locate_real [OF that ok(2,1)] ok(3) by simp
  have "node_at (h_files h) l = Some Directory"
    using r(2) t(1) loc l(1)
    by (auto simp: path_is_dir_def fs_metadata_def query_tick map_ok_def lookup_Inr split: option.splits sum.splits prod.splits)
  with l(1,2) c(4) ok(1,2) t(2) show ?thesis by blast
qed

lemma results_of_entries: "results_of (take n (map (read_entry w t) xs)) = Inr ys \<Longrightarrow> ys = take n xs"
proof (induction n arbitrary: xs ys)
  case (Suc n)
  then show ?case
    by (cases xs) (auto simp: and_then_def map_ok_def read_entry_def split: sum.splits option.splits)
qed simp

lemma list_directory_page:
  assumes still: "still w" and root: "is_absolute root" and cwd: "names_ok (h_cwd h)"
    and d: "list_directory w readonly root requested page page_size git_ignored h = (Inr L, k)"
  shows "\<exists>c l. (if requested = [] then c = root else lexical_candidate root requested = Inr c)
    \<and> locate (h_files h) (h_cwd h) True c = Inr l \<and> node_at (h_files h) l = Some Directory
    \<and> dl_total_entries L = u32_of_usize (length (enumerated (children (h_files h) l)))
    \<and> (dl_total_truncated L \<longleftrightarrow> int (length (children (h_files h) l)) > MAX_ENUMERATED_ENTRIES)
    \<and> mset (map de_name (dl_entries L)) = mset (map from_utf8_lossy
        (take (unat (max page_size 1)) (drop (unat page * unat (max page_size 1))
          (sort (enumerated (children (h_files h) l))))))"
proof -
  note [simp] = ticks_still [OF still] ticks_same still_tick [OF still]
  obtain p k1 es found k2 entries where p: "contained_dir w root requested h = (Inr p, k1)"
    and f: "fs_read_dir w p k1 = (Inr es, k2)" "results_of (looked_at es) = Inr found"
    and e: "fst (describe_entries (describe_entry w readonly root p requested git_ignored)
        (take (unat (max page_size 1)) (drop (unat page * unat (max page_size 1))
          (sort (enumerated found)))) k2) = entries"
    and L: "dl_entries L = sort_key (\<lambda>e. if de_kind e \<noteq> EntryDirectory then 1 else 0 :: nat) (sort_key de_name entries)"
      "dl_total_entries L = u32_of_usize (length (enumerated found))"
      "dl_total_truncated L \<longleftrightarrow> int (length found) > MAX_ENUMERATED_ENTRIES"
    using d unfolding list_directory_def Let_def io_Inr
    by (auto simp: io_Inr map_err_def split: if_splits sum.splits)
  obtain c l where l: "p = path_of l" "if requested = [] then c = root else lexical_candidate root requested = Inr c"
      "locate (h_files h) (h_cwd h) True c = Inr l" "names_ok l" "chain (h_files h) l"
      "node_at (h_files h) l = Some Directory" "ticks w h k1"
    using contained_dir_still [OF still root cwd p] by blast
  have loc: "m = l" if "locate (h_files h) (h_cwd h) True (path_of l) = Inr m" for m
    using locate_real [OF that l(5,4)] l(6) by simp
  have "es = map (read_entry w (h_time k1)) (children (h_files h) l)"
    using f(1) l(7) loc l(1) by (auto simp: fs_read_dir_def query_tick and_then_def lookup_Inr
        split: option.splits sum.splits Node.splits prod.splits)
  with f(2) have found: "found = looked_at (children (h_files h) l)"
    by (simp add: looked_at_def take_map [symmetric] results_of_entries)
  then have "enumerated found = enumerated (children (h_files h) l)"
    "int (length found) > MAX_ENUMERATED_ENTRIES \<longleftrightarrow> int (length (children (h_files h) l)) > MAX_ENUMERATED_ENTRIES"
    by (auto simp: looked_at_def enumerated_def MAX_ENUMERATED_ENTRIES_def min_def)
  moreover have "mset (map de_name (dl_entries L)) = mset (map de_name entries)"
    by (simp only: L(1) mset_map mset_sort)
  moreover have "map de_name entries = map from_utf8_lossy
      (take (unat (max page_size 1)) (drop (unat page * unat (max page_size 1)) (sort (enumerated found))))"
    unfolding e [symmetric] by (rule describe_names) (rule describe_entry_name)
  ultimately show ?thesis using l(2,3,6) L(2,3) by (intro exI [of _ c] exI [of _ l]) simp
qed

section \<open>Evaluation\<close>

text \<open>Equations by which short inputs are evaluated without counting up to the limits.\<close>

lemma sniffed_code [code]:
  "sniffed bytes = (if int (length bytes) \<le> 8192 then bytes else take SNIFF_BYTES bytes)"
  by (simp add: sniffed_def SNIFF_BYTES_def)

lemma enumerated_code [code]:
  "enumerated found = (if int (length found) \<le> 10000 then found else take (nat MAX_ENUMERATED_ENTRIES) found)"
  by (simp add: enumerated_def MAX_ENUMERATED_ENTRIES_def)

lemma looked_at_code [code]:
  "looked_at found = (if int (length found) \<le> 10000 then found else take (Suc (nat MAX_ENUMERATED_ENTRIES)) found)"
  by (simp add: looked_at_def MAX_ENUMERATED_ENTRIES_def)

lemma u32_of_usize_code [code]:
  "u32_of_usize n = (if int n < 4294967296 then of_nat n else - 1)"
  by (simp add: u32_of_usize_def)

end
