(* ===== verification/Workspace_Properties.thy ===== *)
theory Workspace_Properties
  imports Workspace_Files Tool_Properties
begin

text \<open>
  What the explorer of \<^verbatim>\<open>workspace_files/mod.rs\<close> promises: a save replaces what was read, what
  was saved is read back, and the pages of a directory are the directory.
\<close>

section \<open>Properties\<close>

text \<open>
  C13: an editor's save replaces what the editor read. Whatever other processes do, a save that is
  refused or fails has written nothing, unless it fails with an error of the file system: then it
  may have left a beginning of the new text in one file. With no other process at work, the
  file that such a save or one that succeeds wrote was there, inside the workspace, its bytes
  had the digest the request names and were editable, and no other location changed.
\<close>

theorem save_replaces_what_was_read:
  assumes "is_absolute root" "names_ok (h_cwd h)" "save_file w root request h = (r, h')"
  shows "case r of
      Inl e \<Rightarrow> ticks w h h'
        \<or> (\<exists>h1 l k d. ticks w h h1 \<and> e = FileIo (save_path request) d
            \<and> h' = h1\<lparr>h_files := bt_insert l (File (take k (save_text request))) (h_files h1)\<rparr>
            \<and> (still w \<longrightarrow> h_files h1 = h_files h \<and> (\<exists>old. node_at (h_files h) l = Some (File old)
                \<and> inside_workspace root (path_of l) \<and> file_hash w old = save_expected_digest request
                \<and> classify_read old (length old) = Editable old)))
    | Inr s \<Rightarrow> still w \<longrightarrow> (\<exists>l old. node_at (h_files h) l = Some (File old) \<and> inside_workspace root (path_of l)
        \<and> file_hash w old = save_expected_digest request \<and> classify_read old (length old) = Editable old
        \<and> h_files h' = bt_insert l (File (save_text request)) (h_files h)
        \<and> new_digest s = file_hash w (save_text request))"
proof (cases r)
  case (Inl e)
  have "save_file w root request h = (Inl e, h')" using assms(3) Inl by simp
  from save_refused [OF this] show ?thesis
  proof (elim disjE exE conjE, goal_cases)
    case (2 p k d)
    from save_torn [OF assms(1,2) "2"(1,2)] "2"(3) Inl show ?case
      unfolding io_failure_def by (simp only: sum.case) blast
  qed (simp add: Inl)
next
  case (Inr s)
  have "\<exists>l old. node_at (h_files h) l = Some (File old) \<and> inside_workspace root (path_of l)
        \<and> file_hash w old = save_expected_digest request \<and> classify_read old (length old) = Editable old
        \<and> h_files h' = bt_insert l (File (save_text request)) (h_files h)
        \<and> new_digest s = file_hash w (save_text request)" if "still w"
    using save_done [OF that assms(1,2) assms(3) [unfolded Inr]] by (metis FileSave.select_convs(3))
  with Inr show ?thesis by simp
qed

text \<open>
  C14: what was saved is read back. After a save of a text that succeeded, and as long as
  nothing else changes the files, reading the same path gives the text to an editor, with the
  digest and the size the save answered, so the next save from it is not stale.
\<close>

theorem saved_text_reads_back:
  assumes "quiet w" "is_absolute root" "names_ok (h_cwd h)" "valid_utf8 (save_text request)"
    and "save_file w root request h = (Inr s, h')" "h_files g = h_files h'" "h_cwd g = h_cwd h'"
  shows "\<exists>f k. read_workspace_file w readonly root (save_path request) g = (Inr f, k)
    \<and> fr_mode f = Editable (save_text request) \<and> fr_digest f = new_digest s
    \<and> fr_size_bytes f = fs_size_bytes s \<and> fr_path f = fs_path s"
  by (rule saved_reads_back [OF assms])

text \<open>
  C31: paging through a directory misses nothing and repeats nothing. If every page of a
  directory is answered while the files stay as they are, the pages together hold each entry
  of that directory once, up to the limit of entries listed at all, which the listing reports.
\<close>

theorem pages_cover_directory:
  assumes "still w" "is_absolute root"
    and "\<And>p. h_files (hs p) = fs \<and> h_cwd (hs p) = cwd" "names_ok cwd"
    and "\<And>p. p < n \<Longrightarrow> list_directory w readonly root requested (of_nat p) page_size git_ignored (hs p) = (Inr (L p), k p)"
    and "n = page_count (unat (dl_total_entries (L 0))) (unat (max page_size 1))"
  shows "\<exists>l. node_at fs l = Some Directory
    \<and> mset (concat (map (\<lambda>p. map de_name (dl_entries (L p))) [0..<n]))
        = mset (map from_utf8_lossy (enumerated (children fs l)))
    \<and> (dl_total_truncated (L 0) \<longleftrightarrow> int (length (children fs l)) > MAX_ENUMERATED_ENTRIES)"
proof -
  have n: "0 < n" by (simp add: assms(6) page_count_def)
  let ?ps = "unat (max page_size 1)"
  have ps: "0 < ?ps" by (auto simp: max_def unat_gt_0 word_le_nat_alt)
  note page = list_directory_page [OF assms(1,2) _ assms(5), unfolded assms(3)]
  obtain c l where l: "if requested = [] then c = root else lexical_candidate root requested = Inr c"
      "locate fs cwd True c = Inr l" "node_at fs l = Some Directory"
      "dl_total_entries (L 0) = u32_of_usize (length (enumerated (children fs l)))"
      "dl_total_truncated (L 0) \<longleftrightarrow> int (length (children fs l)) > MAX_ENUMERATED_ENTRIES"
    using page [OF _ n] assms(3,4) by auto
  let ?all = "sort (enumerated (children fs l))"
  have small: "length ?all \<le> 10000" by (simp add: enumerated_def MAX_ENUMERATED_ENTRIES_def)
  then have cnt: "unat (dl_total_entries (L 0)) = length ?all"
    by (simp add: l(4) unat_u32_of_usize min_def)
  have "n \<le> 10001"
  proof -
    have "length ?all * 1 \<le> length ?all * ?ps" using ps by (intro mult_le_mono) auto
    then have "(length ?all + ?ps - 1) div ?ps \<le> (length ?all * ?ps + ?ps - 1) div ?ps"
      by (intro div_le_mono diff_le_mono add_le_mono1) simp
    also have "length ?all * ?ps + ?ps - 1 = (?ps - 1) + length ?all * ?ps" using ps by simp
    also have "((?ps - 1) + length ?all * ?ps) div ?ps = length ?all"
      using div_mult_self1 [of ?ps "?ps - 1" "length ?all"] ps by simp
    finally have "page_count (length ?all) ?ps \<le> 10001" using small by (simp only: page_count_def)
    then show ?thesis by (simp only: assms(6) cnt)
  qed
  then have un: "unat (of_nat p :: u32) = p" if "p < n" for p
    using that by (simp add: unat_of_nat take_bit_nat_eq_self)
  have one: "mset (map de_name (dl_entries (L p))) = mset (map from_utf8_lossy (take ?ps (drop (p * ?ps) ?all)))"
    if p: "p < n" for p
  proof -
    obtain c' l' where l': "if requested = [] then c' = root else lexical_candidate root requested = Inr c'"
        "locate fs cwd True c' = Inr l'"
        "mset (map de_name (dl_entries (L p))) = mset (map from_utf8_lossy
          (take ?ps (drop (unat (of_nat p :: u32) * ?ps) (sort (enumerated (children fs l'))))))"
      using page [OF _ p] assms(3,4) by auto
    have "l' = l" using l(1,2) l'(1,2) by (auto split: if_splits)
    with l'(3) un [OF p] show ?thesis by simp
  qed
  have "mset (concat (map (\<lambda>p. map de_name (dl_entries (L p))) [0..<n]))
      = mset (concat (map (\<lambda>p. map from_utf8_lossy (take ?ps (drop (p * ?ps) ?all))) [0..<n]))"
    using one by (induction n) simp_all
  also have "\<dots> = mset (map from_utf8_lossy (concat (map (\<lambda>p. take ?ps (drop (p * ?ps) ?all)) [0..<n])))"
    by (simp add: map_concat comp_def)
  also have "concat (map (\<lambda>p. take ?ps (drop (p * ?ps) ?all)) [0..<n]) = ?all"
    using page_count_enough [OF ps, of "length ?all"] by (simp add: concat_pages assms(6) cnt)
  finally show ?thesis using l(3,5) by (intro exI [of _ l]) simp
qed

section \<open>Names that lead elsewhere\<close>

text \<open>
  The path a read answers need not name the file that was read: an absolute path inside the
  workspace is answered without its leading separator, and a name with a backslash as two.
\<close>

lemma absolute_path_answered_as_relative:
  "case fst (read_workspace_file calm_outside (\<lambda>_ _. False) ''/w'' ''/w/a'' plain_host) of
     Inl _ \<Rightarrow> False
   | Inr f \<Rightarrow> fr_path f = ''w/a''
       \<and> \<not> is_ok (fst (read_workspace_file calm_outside (\<lambda>_ _. False) ''/w'' (fr_path f) plain_host))"
  by code_simp

lemma backslash_answered_as_separator:
  "normalize_path [CHR ''a'', CHR 0x5C, CHR ''b''] = ''a/b''"
  by code_simp

section \<open>Witnesses\<close>

definition save_request :: WorkspaceFileSaveRequest where
  "save_request = \<lparr>save_path = ''a'', save_expected_digest = [], save_text = ''three''\<rparr>"

lemma plain_root: "is_absolute ''/w''"
  by (simp add: is_absolute_def)

theorem save_replaces_what_was_read_witness:
  "case fst (save_file calm_outside ''/w'' save_request plain_host) of
     Inl e \<Rightarrow> False
   | Inr s \<Rightarrow> \<exists>l old. node_at (h_files plain_host) l = Some (File old) \<and> inside_workspace ''/w'' (path_of l)
       \<and> file_hash calm_outside old = []"
proof -
  let ?s = "save_file calm_outside ''/w'' save_request plain_host"
  have ok: "is_ok (fst ?s)" by code_simp
  from save_replaces_what_was_read [OF plain_root plain_cwd surjective_pairing, where w = calm_outside and request = save_request]
  show ?thesis using ok still_calm by (auto simp: save_request_def split: sum.splits)
qed

theorem saved_text_reads_back_witness:
  "\<exists>f k. read_workspace_file calm_outside (\<lambda>_ _. False) ''/w'' ''a''
      (snd (save_file calm_outside ''/w'' save_request plain_host)) = (Inr f, k)
    \<and> fr_mode f = Editable ''three''"
proof -
  let ?s = "save_file calm_outside ''/w'' save_request plain_host"
  have "is_ok (fst ?s)" by code_simp
  then obtain s where s: "?s = (Inr s, snd ?s)" by (cases "fst ?s") (auto simp: prod_eq_iff)
  have u: "valid_utf8 (save_text save_request)" by code_simp
  from saved_text_reads_back [OF quiet_calm plain_root plain_cwd u s refl refl, where readonly = "\<lambda>_ _. False"]
  show ?thesis by (auto simp: save_request_def)
qed

theorem pages_cover_directory_witness:
  "\<exists>l. node_at (h_files plain_host) l = Some Directory
    \<and> mset (map de_name (dl_entries (projr (fst
        (list_directory calm_outside (\<lambda>_ _. False) ''/w'' [] 0 8 {} plain_host)))))
      = mset (map from_utf8_lossy (enumerated (children (h_files plain_host) l)))"
proof -
  let ?r = "list_directory calm_outside (\<lambda>_ _. False) ''/w'' [] 0 8 {} plain_host"
  have "case fst ?r of Inl _ \<Rightarrow> False
      | Inr L \<Rightarrow> page_count (unat (dl_total_entries L)) (unat (max (8 :: u32) 1)) = 1" by code_simp
  then obtain L where L: "fst ?r = Inr L" "1 = page_count (unat (dl_total_entries L)) (unat (max (8 :: u32) 1))"
    by (cases "fst ?r") simp_all
  have "list_directory calm_outside (\<lambda>_ _. False) ''/w'' [] (of_nat p) 8 {} plain_host = (Inr L, snd ?r)"
    if "p < 1" for p
    using that L(1) by (simp add: prod_eq_iff)
  from pages_cover_directory [where hs = "\<lambda>_. plain_host" and fs = "h_files plain_host" and L = "\<lambda>_. L",
      OF still_calm plain_root _ plain_cwd this L(2)]
  show ?thesis by (auto simp: L(1))
qed

end
