(* ===== verification/Spec2Isabelle.thy ===== *)
theory Spec2Isabelle
  imports Envelope Plan_Safety Board Governance Routing Collision Trigger_Scheduler Review_Threads Session Board_View Wire System_Properties Tool_Properties Workspace_Properties
begin

text \<open>
  A verification development of the core of mjolnr, a governed agent runtime in Rust: one actor
  per process drives model providers and tools for a coding session, asks a human before effects
  its policy does not allow, and keeps every step in an append-only log from which a later
  process recovers what happened. This library models that core, in the order below, and proves
  what it promises. Paths are relative to \<^verbatim>\<open>src/\<close>.

  Vocabulary. \<^verbatim>\<open>Prelude\<close> has results (\<^verbatim>\<open>Inl\<close> is \<^verbatim>\<open>Err\<close>), the saturating arithmetic of machine
  words, and a BTreeMap as the list of its entries in key order; \<^verbatim>\<open>Rust_Str\<close> and \<^verbatim>\<open>Std_Path\<close> have
  the string and path functions of the standard library; \<^verbatim>\<open>Contracts\<close> has the interfaces, as
  locales, that components rely on: a codec between a type and its stored mirror, a ceiling on
  authority, a guarded fold over a log. They are interpreted on the model's own definitions
  (\<^verbatim>\<open>Wire_Enums\<close>, \<^verbatim>\<open>Governance\<close>, \<^verbatim>\<open>Directive\<close>, \<^verbatim>\<open>Board\<close>, \<^verbatim>\<open>Session\<close> and others). A function that returns a
  refusal has a constructor per sentence, with the values the sentence prints. Strings are their
  UTF-8 bytes, \<^verbatim>\<open>usize\<close> is a natural number, \<^verbatim>\<open>u32\<close> and \<^verbatim>\<open>u64\<close> are words, a UUID is a 128-bit word and an
  instant a number of nanoseconds. Fresh ids and the clock are arguments.

  The vocabulary of the runtime (\<^verbatim>\<open>core/\<close>). \<^verbatim>\<open>Error\<close> (reason codes and error types), \<^verbatim>\<open>Model\<close>
  (identifiers, catalogue, quotas), \<^verbatim>\<open>Policy\<close> (modes, tiers, the decision matrix), \<^verbatim>\<open>Governance\<close> (the
  table of ceilings by model, its loader and the floor of a run), \<^verbatim>\<open>Tool\<close> (command specification,
  read set), \<^verbatim>\<open>Message\<close> (canonical messages and the accumulator of a provider's stream), \<^verbatim>\<open>Plan\<close> with
  \<^verbatim>\<open>Plan_Safety\<close> (the interview and plan workflow), \<^verbatim>\<open>Board\<close> (decision tickets, imported items and
  acts), \<^verbatim>\<open>Routing\<close> (routes, roles, circuit breakers), \<^verbatim>\<open>Envelope\<close> (the spawn envelope and its draws),
  \<^verbatim>\<open>Council\<close> (review findings and the composed amendment), \<^verbatim>\<open>Review\<close> with \<^verbatim>\<open>Review_Threads\<close> (notes on a
  captured diff), \<^verbatim>\<open>Recovery\<close>, \<^verbatim>\<open>Checkpoint\<close>, \<^verbatim>\<open>Collision\<close>, \<^verbatim>\<open>Directive\<close> and \<^verbatim>\<open>Spawn\<close>, \<^verbatim>\<open>Budget\<close>,
  \<^verbatim>\<open>Display\<close>, and \<^verbatim>\<open>Event\<close> with every event of the log. Their lemmas show the functional behaviour
  of each operation on its branches and the invariant it keeps.

  The log and what is read from it. \<^verbatim>\<open>Session\<close> reduces events to the records of a session and
  models validation before an append, the two replays and compaction (\<^verbatim>\<open>runtime/session.rs\<close>);
  \<^verbatim>\<open>Store\<close> is the store interface with the volatile store (\<^verbatim>\<open>core/store.rs\<close>, \<^verbatim>\<open>store/memory.rs\<close>);
  \<^verbatim>\<open>Replay\<close> is the recovery projection and the tracker of interrupted work (\<^verbatim>\<open>runtime/recovery.rs\<close>
  and \<^verbatim>\<open>runtime/durability.rs\<close>); \<^verbatim>\<open>Wire_Enums\<close>, \<^verbatim>\<open>Wire_Message\<close>, \<^verbatim>\<open>Wire_Checkpoint\<close> and \<^verbatim>\<open>Wire\<close> are the persisted
  mirrors with their conversions (\<^verbatim>\<open>store/wire/\<close>). Shown: a replay rebuilds what the live session
  held; a checkpoint and the events after it give what the log determines as the whole log does,
  and beside it the workspace, budget, policy and read set that only the checkpoint holds; a
  stored event and checkpoint read back; the log is append-only as long as sessions are created
  under fresh ids.

  The board. \<^verbatim>\<open>Frontier_Search\<close> is the recursive component search of \<^verbatim>\<open>core/frontier.rs\<close>, proved to
  return, and to return exactly the strongly connected components; \<^verbatim>\<open>Frontier\<close> computes what is
  decidable now, and is shown to be the recorded state and nothing else, to name exactly the
  blocking cycles, and to leave no node waiting without a reason on the board; \<^verbatim>\<open>Board_View\<close> is the
  labelled overview, the query over every session of the workspace (\<^verbatim>\<open>runtime/handle.rs\<close>) and the
  bounded wire projection (\<^verbatim>\<open>runtime/client_bridge/board.rs\<close>).

  The actor (\<^verbatim>\<open>runtime/mod.rs\<close> and its submodules). \<^verbatim>\<open>Actor\<close> is its state, its store calls behind a
  fault, persisting, blocking, checkpoints and shutdown; \<^verbatim>\<open>Actor_Authority\<close>, \<^verbatim>\<open>Actor_Lifecycle\<close>,
  \<^verbatim>\<open>Run_Landing\<close>, \<^verbatim>\<open>Run_Routing\<close>, \<^verbatim>\<open>Run_Provider\<close>, \<^verbatim>\<open>Run_Tools\<close>, \<^verbatim>\<open>Run_Drive\<close> and \<^verbatim>\<open>Run_Handlers\<close> are its
  operations; \<^verbatim>\<open>Actor_System\<close> composes them into a step relation: commands of a client, mail of the
  tasks the actor started, timers, orderly stops and crashes, in every interleaving, with
  \<^verbatim>\<open>reachable\<close> its closure. \<^verbatim>\<open>Actor_Frame\<close>, \<^verbatim>\<open>Store_Sound\<close>, \<^verbatim>\<open>Run_Reactions\<close>, \<^verbatim>\<open>Run_Outcome\<close>,
  \<^verbatim>\<open>Lifecycle_Idle\<close> and \<^verbatim>\<open>System_Facts\<close> carry the invariants by rule induction, \<^verbatim>\<open>System_Example\<close> and
  \<^verbatim>\<open>Restart_Example\<close> are the runs the witnesses use, and \<^verbatim>\<open>System_Properties\<close> states what follows: no
  tool starts without its gate and its record, at most one thing is under way, an interrupted
  effect is reported by the next process, a blocked actor starts nothing.

  Triggers. \<^verbatim>\<open>Trigger\<close>, \<^verbatim>\<open>Trigger_Schedule\<close> and \<^verbatim>\<open>Trigger_Scheduler\<close> are the definitions, cron
  schedules and the scheduler's loop as a step relation (\<^verbatim>\<open>triggers/\<close>).

  Tools and files. \<^verbatim>\<open>File_System\<close> is \<^verbatim>\<open>std::fs\<close> over a Unix tree with links, in which other processes
  may act before every call and any call may fail, a write also after it emptied the file and
  wrote a beginning, and the reading of a directory also for single entries (they come in the
  order of the tree, the same on every call); \<^verbatim>\<open>Paths\<close> is the containment of
  \<^verbatim>\<open>policy/paths.rs\<close>; \<^verbatim>\<open>Builtin_Files\<close>, \<^verbatim>\<open>Builtin_Facts\<close>, \<^verbatim>\<open>Builtin_Write\<close>, \<^verbatim>\<open>Listing\<close>, \<^verbatim>\<open>Search_Tool\<close>,
  \<^verbatim>\<open>Command_Tool\<close> and \<^verbatim>\<open>Extension\<close> are the tools of \<^verbatim>\<open>tools/\<close>; \<^verbatim>\<open>Workspace_Files\<close> is the explorer of
  \<^verbatim>\<open>workspace_files/\<close>. \<^verbatim>\<open>Tool_Properties\<close> and \<^verbatim>\<open>Workspace_Properties\<close> state that paths stay inside,
  that an edit, a write or a save changes only what was read, that a saved text reads back, that a
  listing shows every file reached by readable entries and that the pages of a directory are
  the directory.

  Bounds and fuel. A path of 4096 bytes or more is refused and a lookup follows at most forty
  links, as in the kernel; so the walk of a listing gets as many levels as a path has bytes, and
  more levels change nothing (\<^verbatim>\<open>Listing\<close>). The search for cycles gets a call depth of the number of
  nodes and edges, and every frame holds a node of its own (\<^verbatim>\<open>Frontier_Search.components_ok\<close>).
  Loops over routes, pending calls and ancestors of a path terminate by a measure; nothing is
  shown only for the case that it returns.

  Parameters. What is not in this repository is an argument: the JSON, YAML and UUID crates, the
  SHA-256 and diff libraries, the spawner of processes, ripgrep's output, the civil calendar of a
  cron schedule, the permissions of a path, the text of some prompts, and whether a store call
  fails.

  Not modelled, with the reason: the terminal, command line and desktop interfaces (rendering and
  input over snapshots); the projections for clients other than the board; the HTTP clients of
  providers and integrations and their stream decoders; the SQL of the SQLite store, whose
  contract the volatile store carries, without its tree of branches; prompt assembly, the code
  graph, memory files, git and MCP subprocesses; the structured planning run, the text of the
  system prompt and the acknowledged command families of the actor; the threads of the runtime
  (an actor handles one message at a time, so its interleavings are those of the step relation);
  and the derives of serde and thiserror, of which only the names that cross a boundary are
  written out.
\<close>

end
